(* ===== verification/Prelude.thy ===== *)
theory Prelude
  imports Main "HOL-Library.Word"
begin

unbundle bit_operations_syntax

text \<open>
  Shared vocabulary of the development: the widths of the C integer types, the theorem
  collections the component proofs rest on, and generic facts on machine words. The word
  facts are of four groups: single-bit masks (how the C idiom \<open>x & 0x80\<close> reads a bit),
  the carry and borrow chains of an addition and a subtraction, signed overflow as a
  disagreement of two neighbouring carries, and the parity of a byte.
\<close>

type_synonym u8 = "8 word"
type_synonym u16 = "16 word"
type_synonym u32 = "32 word"
type_synonym u64 = "64 word"

named_theorems mask_simps \<open>single-bit masks as bit tests\<close>
named_theorems flag_simps \<open>reading a flag after writing flags\<close>
named_theorems frame_simps \<open>fields an operation does not write\<close>
named_theorems mem_simps \<open>reading memory after writing memory\<close>
named_theorems result_simps \<open>the value an operation returns\<close>

section \<open>Single-bit masks\<close>

text \<open>The source tests a bit with a literal mask; these are the masks it uses.\<close>

lemma and_pow_eq_0:
  fixes x :: "'a::len word"
  shows "x AND 2 ^ n = 0 \<longleftrightarrow> \<not> bit x n"
  by (rule and_exp_eq_0_iff_not_bit)

lemmas mask_bits [mask_simps] =
  and_pow_eq_0 [where n = 0, simplified]
  and_pow_eq_0 [where n = 1, simplified]
  and_pow_eq_0 [where n = 2, simplified]
  and_pow_eq_0 [where n = 3, simplified]
  and_pow_eq_0 [where n = 4, simplified]
  and_pow_eq_0 [where n = 5, simplified]
  and_pow_eq_0 [where n = 6, simplified]
  and_pow_eq_0 [where n = 7, simplified]
  and_pow_eq_0 [where n = 8, simplified]
  and_pow_eq_0 [where n = 15, simplified]
  and_pow_eq_0 [where n = 16, simplified]
  and_pow_eq_0 [where n = 31, simplified]

lemma low_mask_eq_0 [mask_simps]:
  fixes x :: u32
  shows "x AND 0xFF = 0 \<longleftrightarrow> (ucast x :: u8) = 0"
    and "x AND 0xFFFF = 0 \<longleftrightarrow> (ucast x :: u16) = 0"
proof -
  have le: "n < 8 \<Longrightarrow> n < 32" "n < 16 \<Longrightarrow> n < 32" for n :: nat by simp_all
  have "x AND 0xFF = take_bit 8 x" "x AND 0xFFFF = take_bit 16 x"
    by (simp_all add: take_bit_eq_mask mask_eq_exp_minus_1)
  then show "x AND 0xFF = 0 \<longleftrightarrow> (ucast x :: u8) = 0"
    and "x AND 0xFFFF = 0 \<longleftrightarrow> (ucast x :: u16) = 0"
    by (auto simp: bit_eq_iff bit_simps dest: le)
qed

section \<open>Carry and borrow chains\<close>

lemma take_bit_Suc_top:
  "take_bit (Suc n) (k::int) = take_bit n k + of_bool (bit k n) * 2 ^ n"
  by (simp add: take_bit_Suc_from_most)

text \<open>Bit \<open>n\<close> of a sum is the exclusive or of the two bits and of the carry into \<open>n\<close>.\<close>

lemma bit_add_carry:
  fixes a b :: int
  shows "bit (a + b + of_bool c) n \<longleftrightarrow>
    (bit a n \<noteq> (bit b n \<noteq> (2 ^ n \<le> take_bit n a + take_bit n b + of_bool c)))"
proof -
  define t where "t = take_bit n a + take_bit n b + of_bool c"
  define u where "u = a div 2 ^ n + b div 2 ^ n"
  have a: "a = take_bit n a + 2 ^ n * (a div 2 ^ n)" and b: "b = take_bit n b + 2 ^ n * (b div 2 ^ n)"
    by (simp_all add: take_bit_eq_mod)
  have eq: "a + b + of_bool c = t + 2 ^ n * u"
    unfolding t_def u_def by (subst a, subst b) (simp add: algebra_simps)
  have "take_bit n a < 2 ^ n" "take_bit n b < 2 ^ n" "0 \<le> take_bit n a" "0 \<le> take_bit n b"
    by simp_all
  moreover have "of_bool c \<le> (1 :: int)" "0 \<le> (of_bool c :: int)" by simp_all
  ultimately have tb: "0 \<le> t" "t < 2 * 2 ^ n" unfolding t_def by linarith+
  have td: "t div 2 ^ n = of_bool (2 ^ n \<le> t)"
  proof (cases "2 ^ n \<le> t")
    case True
    then have "t div 2 ^ n = 1" using tb by (intro int_div_pos_eq [where r = "t - 2 ^ n"]) auto
    with True show ?thesis by simp
  next
    case False
    with tb show ?thesis by simp
  qed
  have "(a + b + of_bool c) div 2 ^ n = of_bool (2 ^ n \<le> t) + u"
    unfolding eq td [symmetric] by (simp add: div_mult_self2)
  then have "bit (a + b + of_bool c) n \<longleftrightarrow> odd (of_bool (2 ^ n \<le> t) + u)"
    by (simp add: bit_iff_odd)
  then show ?thesis
    unfolding u_def t_def by (auto simp: bit_iff_odd)
qed

text \<open>
  The carry chain the source computes, \<open>(s & d) | (~res & (s | d))\<close>: its bit \<open>n\<close> is the
  carry out of position \<open>n\<close>. The borrow chain \<open>(res & (~d | s)) | (~d & s)\<close> is the same
  chain for the complement.
\<close>

lemma carry_chain_int:
  fixes a b :: int
  shows "bit ((a AND b) OR (NOT (a + b + of_bool c) AND (a OR b))) n \<longleftrightarrow>
    2 ^ Suc n \<le> take_bit (Suc n) a + take_bit (Suc n) b + of_bool c"
proof -
  define p q where "p = take_bit n a" and "q = take_bit n b"
  have "p < 2 ^ n" "q < 2 ^ n" "0 \<le> p" "0 \<le> q"
    by (simp_all add: p_def q_def)
  then show ?thesis
    by (simp add: bit_and_iff bit_or_iff bit_not_iff bit_add_carry take_bit_Suc_top
        flip: p_def q_def) auto
qed

lemma borrow_chain_int:
  fixes a b :: int
  shows "bit (((a - b - of_bool c) AND (NOT a OR b)) OR (NOT a AND b)) n \<longleftrightarrow>
    take_bit (Suc n) a < take_bit (Suc n) b + of_bool c"
proof -
  have "a - b - of_bool c = NOT (NOT a + b + of_bool c)"
    by (simp add: not_int_def)
  then have "((a - b - of_bool c) AND (NOT a OR b)) OR (NOT a AND b) =
    (NOT a AND b) OR (NOT (NOT a + b + of_bool c) AND (NOT a OR b))"
    by (simp add: ac_simps)
  moreover have "take_bit (Suc n) (NOT a) = 2 ^ Suc n - 1 - take_bit (Suc n) a"
    by (simp add: take_bit_not_eq_mask_diff mask_eq_exp_minus_1 del: take_bit_Suc)
  ultimately show ?thesis
    by (simp only: carry_chain_int) auto
qed

lemma word_bit_sum:
  fixes a b :: "'a::len word"
  assumes "n < LENGTH('a)"
  shows "bit (a + b + of_bool c) n \<longleftrightarrow> bit (uint a + uint b + of_bool c) n"
    and "bit (a - b - of_bool c) n \<longleftrightarrow> bit (uint a - uint b - of_bool c) n"
proof -
  have "a + b + of_bool c = word_of_int (uint a + uint b + of_bool c)"
    and "a - b - of_bool c = word_of_int (uint a - uint b - of_bool c)" by simp_all
  then show "bit (a + b + of_bool c) n \<longleftrightarrow> bit (uint a + uint b + of_bool c) n"
    and "bit (a - b - of_bool c) n \<longleftrightarrow> bit (uint a - uint b - of_bool c) n"
    using assms by (simp_all only: bit_word_of_int_iff) simp_all
qed

lemma carry_chain_word:
  fixes a b :: "'a::len word"
  assumes "n < LENGTH('a)"
  shows "bit ((a AND b) OR (NOT (a + b + of_bool c) AND (a OR b))) n \<longleftrightarrow>
    2 ^ Suc n \<le> take_bit (Suc n) (uint a) + take_bit (Suc n) (uint b) + of_bool c"
  unfolding carry_chain_int [symmetric]
  using assms by (simp add: bit_simps word_bit_sum)

lemma borrow_chain_word:
  fixes a b :: "'a::len word"
  assumes "n < LENGTH('a)"
  shows "bit (((a - b - of_bool c) AND (NOT a OR b)) OR (NOT a AND b)) n \<longleftrightarrow>
    take_bit (Suc n) (uint a) < take_bit (Suc n) (uint b) + of_bool c"
  unfolding borrow_chain_int [symmetric]
  using assms by (simp add: bit_simps word_bit_sum)

section \<open>Signed values and overflow\<close>

lemma add_overflow_int:
  fixes a b c h :: int
  assumes "0 \<le> a" "a < 2 * h" "0 \<le> b" "b < 2 * h" "0 \<le> c" "c \<le> 1"
  shows "(2 * h \<le> a + b + c) \<noteq> (h \<le> a mod h + b mod h + c) \<longleftrightarrow>
    (let sa = (if a < h then a else a - 2 * h); sb = (if b < h then b else b - 2 * h)
     in sa + sb + c < - h \<or> h \<le> sa + sb + c)"
proof -
  have "x mod h = (if x < h then x else x - h)" if "0 \<le> x" "x < 2 * h" for x
    using that by (auto simp: mod_pos_pos_trivial intro!: int_mod_pos_eq [where q = 1])
  then show ?thesis using assms by (auto simp: Let_def)
qed

lemma sub_overflow_int:
  fixes a b c h :: int
  assumes "0 \<le> a" "a < 2 * h" "0 \<le> b" "b < 2 * h" "0 \<le> c" "c \<le> 1"
  shows "(a < b + c) \<noteq> (a mod h < b mod h + c) \<longleftrightarrow>
    (let sa = (if a < h then a else a - 2 * h); sb = (if b < h then b else b - 2 * h)
     in sa - sb - c < - h \<or> h \<le> sa - sb - c)"
proof -
  have "x mod h = (if x < h then x else x - h)" if "0 \<le> x" "x < 2 * h" for x
    using that by (auto simp: mod_pos_pos_trivial intro!: int_mod_pos_eq [where q = 1])
  then show ?thesis using assms by (auto simp: Let_def)
qed

lemma take_bit_length_uint [simp]:
  fixes w :: "'a::len word"
  shows "take_bit LENGTH('a) (uint w) = uint w"
  by (rule take_bit_int_eq_self) simp_all

lemma bit_top_uint:
  fixes w :: "'a::len word"
  shows "bit w (LENGTH('a) - 1) \<longleftrightarrow> 2 ^ (LENGTH('a) - 1) \<le> uint w"
proof -
  define n where "n = LENGTH('a) - 1"
  have L: "LENGTH('a) = Suc n" by (simp add: n_def)
  have "uint w = take_bit (Suc n) (uint w)"
    unfolding L [symmetric] by simp
  also have "\<dots> = take_bit n (uint w) + of_bool (bit w n) * 2 ^ n"
    by (simp add: take_bit_Suc_top bit_uint_iff L)
  finally have e: "uint w = take_bit n (uint w) + of_bool (bit w n) * 2 ^ n" .
  have "2 ^ n \<le> t + of_bool (bit w n) * 2 ^ n \<longleftrightarrow> bit w n" if "0 \<le> t" "t < 2 ^ n" for t :: int
    using that by auto
  then have "2 ^ n \<le> take_bit n (uint w) + of_bool (bit w n) * 2 ^ n \<longleftrightarrow> bit w n" by simp
  then show ?thesis unfolding n_def [symmetric] using e by argo
qed

lemma sint_cases:
  fixes w :: "'a::len word"
  shows "sint w = (if uint w < 2 ^ (LENGTH('a) - 1) then uint w else uint w - 2 ^ LENGTH('a))"
proof -
  have "bit (uint w) (LENGTH('a) - 1) \<longleftrightarrow> bit w (LENGTH('a) - 1)"
    by (simp add: bit_uint_iff)
  then show ?thesis
    using bit_top_uint [of w]
    by (simp add: sint_uint signed_take_bit_eq_take_bit_minus not_less)
qed

lemma bit_top_sint:
  fixes w :: "'a::len word"
  shows "bit w (LENGTH('a) - 1) \<longleftrightarrow> sint w < 0"
  by (simp add: bit_last_iff)

end
