(* ===== verification/Regs.thy ===== *)
theory Regs
  imports Prelude
begin

text \<open>
  The emulated CPU of \<open>src/include/regs.h\<close> and \<open>src/emu/x86emu_private.h\<close>: the register
  file, the flag register, the deferred-flag tag with its operands, the x87, MMX and SSE
  register files and the control fields the interpreter reads. The bit-field union
  \<open>x86flags_t\<close> is kept as the 32-bit word \<open>x32\<close>; \<open>ACCESS_FLAG\<close>, \<open>SET_FLAG\<close>,
  \<open>CLEAR_FLAG\<close> and \<open>CONDITIONAL_SET_FLAG\<close> act on single bits of it. The union
  \<open>reg32_t\<close> is a 32-bit word with byte and half-word views.
\<close>

section \<open>Register numbers\<close>

abbreviation rAX :: "3 word" where "rAX \<equiv> 0"
abbreviation rCX :: "3 word" where "rCX \<equiv> 1"
abbreviation rDX :: "3 word" where "rDX \<equiv> 2"
abbreviation rBX :: "3 word" where "rBX \<equiv> 3"
abbreviation rSP :: "3 word" where "rSP \<equiv> 4"
abbreviation rBP :: "3 word" where "rBP \<equiv> 5"
abbreviation rSI :: "3 word" where "rSI \<equiv> 6"
abbreviation rDI :: "3 word" where "rDI \<equiv> 7"

abbreviation sES :: "3 word" where "sES \<equiv> 0"
abbreviation sCS :: "3 word" where "sCS \<equiv> 1"
abbreviation sSS :: "3 word" where "sSS \<equiv> 2"
abbreviation sDS :: "3 word" where "sDS \<equiv> 3"
abbreviation sFS :: "3 word" where "sFS \<equiv> 4"
abbreviation sGS :: "3 word" where "sGS \<equiv> 5"

section \<open>Deferred flags\<close>

text \<open>
  The tag \<open>defered_flags_t\<close>: which operation left its operands for \<open>UpdateFlags\<close>. The
  enumeration names an operation and a width in one word (\<open>d_add8\<close>); here the width is an
  argument of the constructor and the source's names are abbreviations.
\<close>

datatype width = W8 | W16 | W32

datatype defered_flags_t =
    d_none
  | d_add width | d_and width | d_dec width | d_inc width | d_imul width | d_or width
  | d_mul width | d_neg width | d_shl width | d_shr width | d_sar width | d_sub width
  | d_xor width | d_cmp width | d_tst width | d_adc width | d_sbb width | d_rol width
  | d_ror width | d_rcl width | d_rcr width
  | d_shld32 | d_shrd32
  | d_unknown

abbreviation d_add8 :: defered_flags_t where "d_add8 \<equiv> d_add W8"
abbreviation d_add16 :: defered_flags_t where "d_add16 \<equiv> d_add W16"
abbreviation d_add32 :: defered_flags_t where "d_add32 \<equiv> d_add W32"
abbreviation d_and8 :: defered_flags_t where "d_and8 \<equiv> d_and W8"
abbreviation d_and16 :: defered_flags_t where "d_and16 \<equiv> d_and W16"
abbreviation d_and32 :: defered_flags_t where "d_and32 \<equiv> d_and W32"
abbreviation d_dec8 :: defered_flags_t where "d_dec8 \<equiv> d_dec W8"
abbreviation d_dec16 :: defered_flags_t where "d_dec16 \<equiv> d_dec W16"
abbreviation d_dec32 :: defered_flags_t where "d_dec32 \<equiv> d_dec W32"
abbreviation d_inc8 :: defered_flags_t where "d_inc8 \<equiv> d_inc W8"
abbreviation d_inc16 :: defered_flags_t where "d_inc16 \<equiv> d_inc W16"
abbreviation d_inc32 :: defered_flags_t where "d_inc32 \<equiv> d_inc W32"
abbreviation d_imul8 :: defered_flags_t where "d_imul8 \<equiv> d_imul W8"
abbreviation d_imul16 :: defered_flags_t where "d_imul16 \<equiv> d_imul W16"
abbreviation d_imul32 :: defered_flags_t where "d_imul32 \<equiv> d_imul W32"
abbreviation d_or8 :: defered_flags_t where "d_or8 \<equiv> d_or W8"
abbreviation d_or16 :: defered_flags_t where "d_or16 \<equiv> d_or W16"
abbreviation d_or32 :: defered_flags_t where "d_or32 \<equiv> d_or W32"
abbreviation d_mul8 :: defered_flags_t where "d_mul8 \<equiv> d_mul W8"
abbreviation d_mul16 :: defered_flags_t where "d_mul16 \<equiv> d_mul W16"
abbreviation d_mul32 :: defered_flags_t where "d_mul32 \<equiv> d_mul W32"
abbreviation d_neg8 :: defered_flags_t where "d_neg8 \<equiv> d_neg W8"
abbreviation d_neg16 :: defered_flags_t where "d_neg16 \<equiv> d_neg W16"
abbreviation d_neg32 :: defered_flags_t where "d_neg32 \<equiv> d_neg W32"
abbreviation d_shl8 :: defered_flags_t where "d_shl8 \<equiv> d_shl W8"
abbreviation d_shl16 :: defered_flags_t where "d_shl16 \<equiv> d_shl W16"
abbreviation d_shl32 :: defered_flags_t where "d_shl32 \<equiv> d_shl W32"
abbreviation d_shr8 :: defered_flags_t where "d_shr8 \<equiv> d_shr W8"
abbreviation d_shr16 :: defered_flags_t where "d_shr16 \<equiv> d_shr W16"
abbreviation d_shr32 :: defered_flags_t where "d_shr32 \<equiv> d_shr W32"
abbreviation d_sar8 :: defered_flags_t where "d_sar8 \<equiv> d_sar W8"
abbreviation d_sar16 :: defered_flags_t where "d_sar16 \<equiv> d_sar W16"
abbreviation d_sar32 :: defered_flags_t where "d_sar32 \<equiv> d_sar W32"
abbreviation d_sub8 :: defered_flags_t where "d_sub8 \<equiv> d_sub W8"
abbreviation d_sub16 :: defered_flags_t where "d_sub16 \<equiv> d_sub W16"
abbreviation d_sub32 :: defered_flags_t where "d_sub32 \<equiv> d_sub W32"
abbreviation d_xor8 :: defered_flags_t where "d_xor8 \<equiv> d_xor W8"
abbreviation d_xor16 :: defered_flags_t where "d_xor16 \<equiv> d_xor W16"
abbreviation d_xor32 :: defered_flags_t where "d_xor32 \<equiv> d_xor W32"
abbreviation d_cmp8 :: defered_flags_t where "d_cmp8 \<equiv> d_cmp W8"
abbreviation d_cmp16 :: defered_flags_t where "d_cmp16 \<equiv> d_cmp W16"
abbreviation d_cmp32 :: defered_flags_t where "d_cmp32 \<equiv> d_cmp W32"
abbreviation d_tst8 :: defered_flags_t where "d_tst8 \<equiv> d_tst W8"
abbreviation d_tst16 :: defered_flags_t where "d_tst16 \<equiv> d_tst W16"
abbreviation d_tst32 :: defered_flags_t where "d_tst32 \<equiv> d_tst W32"
abbreviation d_adc8 :: defered_flags_t where "d_adc8 \<equiv> d_adc W8"
abbreviation d_adc16 :: defered_flags_t where "d_adc16 \<equiv> d_adc W16"
abbreviation d_adc32 :: defered_flags_t where "d_adc32 \<equiv> d_adc W32"
abbreviation d_sbb8 :: defered_flags_t where "d_sbb8 \<equiv> d_sbb W8"
abbreviation d_sbb16 :: defered_flags_t where "d_sbb16 \<equiv> d_sbb W16"
abbreviation d_sbb32 :: defered_flags_t where "d_sbb32 \<equiv> d_sbb W32"
abbreviation d_rol8 :: defered_flags_t where "d_rol8 \<equiv> d_rol W8"
abbreviation d_rol16 :: defered_flags_t where "d_rol16 \<equiv> d_rol W16"
abbreviation d_rol32 :: defered_flags_t where "d_rol32 \<equiv> d_rol W32"
abbreviation d_ror8 :: defered_flags_t where "d_ror8 \<equiv> d_ror W8"
abbreviation d_ror16 :: defered_flags_t where "d_ror16 \<equiv> d_ror W16"
abbreviation d_ror32 :: defered_flags_t where "d_ror32 \<equiv> d_ror W32"
abbreviation d_rcl8 :: defered_flags_t where "d_rcl8 \<equiv> d_rcl W8"
abbreviation d_rcl16 :: defered_flags_t where "d_rcl16 \<equiv> d_rcl W16"
abbreviation d_rcl32 :: defered_flags_t where "d_rcl32 \<equiv> d_rcl W32"
abbreviation d_rcr8 :: defered_flags_t where "d_rcr8 \<equiv> d_rcr W8"
abbreviation d_rcr16 :: defered_flags_t where "d_rcr16 \<equiv> d_rcr W16"
abbreviation d_rcr32 :: defered_flags_t where "d_rcr32 \<equiv> d_rcr W32"

section \<open>Flag names\<close>

text \<open>The bits of \<open>x86flags_t\<close>, by the names of \<open>flags_names_t\<close>.\<close>

datatype flags_names_t =
    F_CF | F_res1 | F_PF | F_res2 | F_AF | F_res3 | F_ZF | F_SF | F_TF | F_IF | F_DF | F_OF
  | F_IOPL | F_NT | F_dummy | F_RF | F_VM | F_AC | F_VIF | F_VIP | F_ID

primrec flag_pos :: "flags_names_t \<Rightarrow> nat" where
  "flag_pos F_CF = 0"
| "flag_pos F_res1 = 1"
| "flag_pos F_PF = 2"
| "flag_pos F_res2 = 3"
| "flag_pos F_AF = 4"
| "flag_pos F_res3 = 5"
| "flag_pos F_ZF = 6"
| "flag_pos F_SF = 7"
| "flag_pos F_TF = 8"
| "flag_pos F_IF = 9"
| "flag_pos F_DF = 10"
| "flag_pos F_OF = 11"
| "flag_pos F_IOPL = 12"
| "flag_pos F_NT = 14"
| "flag_pos F_dummy = 15"
| "flag_pos F_RF = 16"
| "flag_pos F_VM = 17"
| "flag_pos F_AC = 18"
| "flag_pos F_VIF = 19"
| "flag_pos F_VIP = 20"
| "flag_pos F_ID = 21"

lemma flag_pos_inj [simp]: "flag_pos f = flag_pos g \<longleftrightarrow> f = g"
  by (cases f; cases g) simp_all

lemma flag_pos_less [simp]: "flag_pos f < 22" "flag_pos f < 32"
  by (cases f; simp)+

section \<open>The emulator state\<close>

record fpu_ld_t =
  ld_lower :: u64
  ld_upper :: u16
  ld_uref :: u64

record fpu_ll_t =
  ll_sref :: u64
  ll_sq :: u64

text \<open>
  \<open>x86emu_t\<close>, its x87, MMX and SSE fields in a record of their own. Register-file indices
  are masked to three bits wherever the source uses them, so a file is a function on
  \<open>3 word\<close>. \<open>segs\<close> has eight entries because the struct continues with \<open>dummy_seg6\<close>
  and \<open>dummy_seg7\<close>; \<open>segs_serial\<close> has six, followed in the struct by \<open>quit\<close> and
  \<open>error\<close> (\<open>err\<close> here). Left out: the trace, test, fork and jump-buffer fields.
\<close>

record fpu_t =
  cw :: u16
  sw :: u16
  x87 :: "3 word \<Rightarrow> u64"
  mmx :: "3 word \<Rightarrow> u64"
  fpu_top :: u32
  fpu_stack :: int
  fpu_tags :: u32
  fpu_ld :: "3 word \<Rightarrow> fpu_ld_t"
  fpu_ll :: "3 word \<Rightarrow> fpu_ll_t"
  xmm :: "3 word \<Rightarrow> 128 word"
  mxcsr :: u32

record emu =
  regs :: "3 word \<Rightarrow> u32"
  eflags :: u32
  ip :: u32
  fpu :: fpu_t
  old_ip :: u32
  df :: defered_flags_t
  op1 :: u32
  op2 :: u32
  res :: u32
  segs :: "3 word \<Rightarrow> u16"
  segs_offs :: "3 word \<Rightarrow> u32"
  segs_serial :: "3 word \<Rightarrow> u32"
  quit :: int
  err :: u32
  fork :: int
  uc_link :: u32

section \<open>Register views\<close>

text \<open>The dword, word and byte views of \<open>reg32_t\<close> (\<open>R_EAX\<close>, \<open>R_AX\<close>, \<open>R_AL\<close>, \<open>R_AH\<close>, ...).\<close>

definition reg32 :: "'a emu_scheme \<Rightarrow> 3 word \<Rightarrow> u32" where
  "reg32 e r = regs e r"

definition set_reg32 :: "3 word \<Rightarrow> u32 \<Rightarrow> 'a emu_scheme \<Rightarrow> 'a emu_scheme" where
  "set_reg32 r v e = e\<lparr>regs := (regs e)(r := v)\<rparr>"

definition reg16 :: "'a emu_scheme \<Rightarrow> 3 word \<Rightarrow> u16" where
  "reg16 e r = ucast (regs e r)"

definition put16 :: "u32 \<Rightarrow> u16 \<Rightarrow> u32" where
  "put16 w v = (w AND 0xFFFF0000) OR ucast v"

definition set_reg16 :: "3 word \<Rightarrow> u16 \<Rightarrow> 'a emu_scheme \<Rightarrow> 'a emu_scheme" where
  "set_reg16 r v e = e\<lparr>regs := (regs e)(r := put16 (regs e r) v)\<rparr>"

definition get_byte :: "u32 \<Rightarrow> nat \<Rightarrow> u8" where
  "get_byte w k = ucast (drop_bit (8 * k) w)"

definition put_byte :: "u32 \<Rightarrow> nat \<Rightarrow> u8 \<Rightarrow> u32" where
  "put_byte w k v = (w AND NOT (push_bit (8 * k) 0xFF)) OR push_bit (8 * k) (ucast v)"

definition reg8 :: "'a emu_scheme \<Rightarrow> 3 word \<Rightarrow> nat \<Rightarrow> u8" where
  "reg8 e r k = get_byte (regs e r) k"

definition set_reg8 :: "3 word \<Rightarrow> nat \<Rightarrow> u8 \<Rightarrow> 'a emu_scheme \<Rightarrow> 'a emu_scheme" where
  "set_reg8 r k v e = e\<lparr>regs := (regs e)(r := put_byte (regs e r) k v)\<rparr>"

lemma byte_mask_bits: "bit (255 :: int) n \<longleftrightarrow> n < 8"
proof -
  have e: "(255 :: int) = mask 8" by (simp add: mask_eq_exp_minus_1)
  show ?thesis unfolding e bit_mask_iff by simp
qed

lemma high_half_bits: "bit (4294901760 :: int) n \<longleftrightarrow> 16 \<le> n \<and> n < 32"
proof -
  have e: "(4294901760 :: int) = push_bit 16 (mask 16)"
    by (simp add: mask_eq_exp_minus_1 push_bit_eq_mult)
  show ?thesis unfolding e bit_push_bit_iff bit_mask_iff by auto
qed

lemma high_half_shifted_bits: "bit (16776960 :: int) n \<longleftrightarrow> 8 \<le> n \<and> n < 24"
proof -
  have e: "(16776960 :: int) = push_bit 8 (mask 16)"
    by (simp add: mask_eq_exp_minus_1 push_bit_eq_mult)
  show ?thesis unfolding e bit_push_bit_iff bit_mask_iff by auto
qed

lemma get_put_byte [simp]:
  assumes "k < 4" "j < 4"
  shows "get_byte (put_byte w k v) j = (if j = k then v else get_byte w j)"
proof (rule bit_word_eqI)
  fix n assume "n < LENGTH(8)"
  with assms show "bit (get_byte (put_byte w k v) j) n = bit (if j = k then v else get_byte w j) n"
    by (cases "j = k"; cases "j < k")
      (auto simp: get_byte_def put_byte_def bit_simps byte_mask_bits dest: bit_imp_le_length)
qed

lemma get16_put16 [simp]: "(ucast (put16 w v) :: u16) = v"
  by (rule bit_word_eqI) (simp add: put16_def bit_simps high_half_bits)

lemma get_byte_put16 [simp]:
  "get_byte (put16 w v) 0 = ucast v"
  "get_byte (put16 w v) (Suc 0) = ucast (drop_bit 8 v)"
  unfolding get_byte_def put16_def
  by (rule bit_word_eqI, auto simp: bit_simps high_half_bits high_half_shifted_bits)+

section \<open>Flag access\<close>

definition ACCESS_FLAG :: "flags_names_t \<Rightarrow> 'a emu_scheme \<Rightarrow> bool" where
  "ACCESS_FLAG f e = bit (eflags e) (flag_pos f)"

definition SET_FLAG :: "flags_names_t \<Rightarrow> 'a emu_scheme \<Rightarrow> 'a emu_scheme" where
  "SET_FLAG f e = e\<lparr>eflags := set_bit (flag_pos f) (eflags e)\<rparr>"

definition CLEAR_FLAG :: "flags_names_t \<Rightarrow> 'a emu_scheme \<Rightarrow> 'a emu_scheme" where
  "CLEAR_FLAG f e = e\<lparr>eflags := unset_bit (flag_pos f) (eflags e)\<rparr>"

definition CONDITIONAL_SET_FLAG :: "bool \<Rightarrow> flags_names_t \<Rightarrow> 'a emu_scheme \<Rightarrow> 'a emu_scheme" where
  "CONDITIONAL_SET_FLAG c f e = (if c then SET_FLAG f e else CLEAR_FLAG f e)"

definition RESET_FLAGS :: "'a emu_scheme \<Rightarrow> 'a emu_scheme" where
  "RESET_FLAGS e = e\<lparr>df := d_none\<rparr>"

lemma ACCESS_FLAG_write [flag_simps, simp]:
  "ACCESS_FLAG g (SET_FLAG f e) = (if g = f then True else ACCESS_FLAG g e)"
  "ACCESS_FLAG g (CLEAR_FLAG f e) = (if g = f then False else ACCESS_FLAG g e)"
  "ACCESS_FLAG g (CONDITIONAL_SET_FLAG c f e) = (if g = f then c else ACCESS_FLAG g e)"
  "ACCESS_FLAG g (RESET_FLAGS e) = ACCESS_FLAG g e"
  by (auto simp: ACCESS_FLAG_def SET_FLAG_def CLEAR_FLAG_def CONDITIONAL_SET_FLAG_def
      RESET_FLAGS_def bit_simps)

lemma ACCESS_FLAG_update [flag_simps, simp]:
  "ACCESS_FLAG f (e\<lparr>df := d\<rparr>) = ACCESS_FLAG f e"
  "ACCESS_FLAG f (e\<lparr>op1 := x\<rparr>) = ACCESS_FLAG f e"
  "ACCESS_FLAG f (e\<lparr>op2 := x\<rparr>) = ACCESS_FLAG f e"
  "ACCESS_FLAG f (e\<lparr>res := x\<rparr>) = ACCESS_FLAG f e"
  "ACCESS_FLAG f (e\<lparr>regs := g\<rparr>) = ACCESS_FLAG f e"
  by (simp_all add: ACCESS_FLAG_def)

text \<open>Everything but \<open>eflags\<close> (and, for \<open>RESET_FLAGS\<close>, the tag) is left alone by flag writes.\<close>

lemma flag_frame [frame_simps, simp]:
  "regs (SET_FLAG f e) = regs e" "regs (CLEAR_FLAG f e) = regs e"
  "regs (CONDITIONAL_SET_FLAG c f e) = regs e" "regs (RESET_FLAGS e) = regs e"
  "df (SET_FLAG f e) = df e" "df (CLEAR_FLAG f e) = df e"
  "df (CONDITIONAL_SET_FLAG c f e) = df e" "df (RESET_FLAGS e) = d_none"
  "op1 (SET_FLAG f e) = op1 e" "op1 (CLEAR_FLAG f e) = op1 e"
  "op1 (CONDITIONAL_SET_FLAG c f e) = op1 e" "op1 (RESET_FLAGS e) = op1 e"
  "op2 (SET_FLAG f e) = op2 e" "op2 (CLEAR_FLAG f e) = op2 e"
  "op2 (CONDITIONAL_SET_FLAG c f e) = op2 e" "op2 (RESET_FLAGS e) = op2 e"
  "res (SET_FLAG f e) = res e" "res (CLEAR_FLAG f e) = res e"
  "res (CONDITIONAL_SET_FLAG c f e) = res e" "res (RESET_FLAGS e) = res e"
  "err (SET_FLAG f e) = err e" "err (CLEAR_FLAG f e) = err e"
  "err (CONDITIONAL_SET_FLAG c f e) = err e" "err (RESET_FLAGS e) = err e"
  "eflags (RESET_FLAGS e) = eflags e"
  by (simp_all add: SET_FLAG_def CLEAR_FLAG_def CONDITIONAL_SET_FLAG_def RESET_FLAGS_def)

text \<open>
  The frame of an operation that only writes flags and the deferred-flag fields, as one
  equation: the state with those fields blanked out.
\<close>

definition erase_flags :: "'a emu_scheme \<Rightarrow> 'a emu_scheme" where
  "erase_flags e = e\<lparr>eflags := 0, df := d_none, op1 := 0, op2 := 0, res := 0\<rparr>"

lemma erase_flags_write [frame_simps, simp]:
  "erase_flags (SET_FLAG f e) = erase_flags e"
  "erase_flags (CLEAR_FLAG f e) = erase_flags e"
  "erase_flags (CONDITIONAL_SET_FLAG c f e) = erase_flags e"
  "erase_flags (RESET_FLAGS e) = erase_flags e"
  "erase_flags (e\<lparr>df := d\<rparr>) = erase_flags e"
  "erase_flags (e\<lparr>op1 := x\<rparr>) = erase_flags e"
  "erase_flags (e\<lparr>op2 := x\<rparr>) = erase_flags e"
  "erase_flags (e\<lparr>res := x\<rparr>) = erase_flags e"
  "erase_flags (e\<lparr>eflags := x\<rparr>) = erase_flags e"
  by (simp_all add: erase_flags_def SET_FLAG_def CLEAR_FLAG_def CONDITIONAL_SET_FLAG_def RESET_FLAGS_def)

text \<open>The reserved bits of \<open>eflags\<close>: bit 1 reads as set, bits 3, 5, 15 and above 21 as clear.\<close>

definition eflags_wf :: "u32 \<Rightarrow> bool" where
  "eflags_wf w = (w AND 0xFFC0802A = 2)"

definition status_flag :: "flags_names_t \<Rightarrow> bool" where
  "status_flag f = (f \<in> {F_CF, F_PF, F_AF, F_ZF, F_SF, F_OF, F_DF})"

text \<open>A concrete state, for examples: every register 0, flags as at reset, nothing pending.\<close>

definition fpu0 :: fpu_t where
  "fpu0 = \<lparr>cw = 0, sw = 0, x87 = (\<lambda>_. 0), mmx = (\<lambda>_. 0), fpu_top = 0, fpu_stack = 0, fpu_tags = 0,
     fpu_ld = (\<lambda>_. \<lparr>ld_lower = 0, ld_upper = 0, ld_uref = 0\<rparr>), fpu_ll = (\<lambda>_. \<lparr>ll_sref = 0, ll_sq = 0\<rparr>),
     xmm = (\<lambda>_. 0), mxcsr = 0\<rparr>"

definition emu0 :: emu where
  "emu0 = \<lparr>regs = (\<lambda>_. 0), eflags = 0x202, ip = 0, fpu = fpu0, old_ip = 0, df = d_none, op1 = 0, op2 = 0, res = 0,
     segs = (\<lambda>_. 0), segs_offs = (\<lambda>_. 0), segs_serial = (\<lambda>_. 0), quit = 0, err = 0, fork = 0, uc_link = 0\<rparr>"

end
