(* ===== verification/Flags.thy ===== *)
theory Flags
  imports Regs
begin

unbundle bit_operations_syntax

text \<open>
  Deferred flag evaluation (\<open>UpdateFlags\<close> of \<open>src/emu/x86run_private.c\<close>, the parity table of
  \<open>src/emu/x86emu.c\<close>). An arithmetic primitive leaves its operands in \<open>op1\<close>, \<open>op2\<close>,
  \<open>res\<close> and a tag in \<open>df\<close>; the first reader of the flags calls \<open>UpdateFlags\<close>, which
  computes them and clears the tag. Each case of the source's switch is a definition
  \<open>uf_<case>\<close>, in the source's order; \<open>UpdateFlags\<close> dispatches and resets the tag. The
  theory also holds the facts that read the source's parity table, its \<open>XOR2\<close> macro and its
  frame: evaluating the flags writes nothing but \<open>eflags\<close> and \<open>df\<close>.
\<close>

section \<open>The parity table\<close>

definition x86emu_parity_tab :: "u32 list" where
  "x86emu_parity_tab =
    [0x96696996, 0x69969669, 0x69969669, 0x96696996,
     0x69969669, 0x96696996, 0x96696996, 0x69969669]"

definition PARITY :: "u32 \<Rightarrow> bool" where
  "PARITY x = (drop_bit (unat (x mod 32)) (x86emu_parity_tab ! unat (x div 32)) AND 1 = 0)"

text \<open>The architecture's parity: the number of set bits in the low byte is even.\<close>

definition even_parity :: "'a::len word \<Rightarrow> bool" where
  "even_parity w = even (length (filter (bit w) [0..<8]))"

definition parity_sum :: "int \<Rightarrow> int" where
  "parity_sum k = k mod 2 + k div 2 mod 2 + k div 4 mod 2 + k div 8 mod 2 + k div 16 mod 2
     + k div 32 mod 2 + k div 64 mod 2 + k div 128 mod 2"

lemma parity_rows:
  "list_all (\<lambda>k. odd (map uint x86emu_parity_tab ! nat (k div 32) div 2 ^ nat (k mod 32)) = odd (parity_sum k)) [0..255]"
  by code_simp

lemma upt_8: "[0..<8] = [0, 1, 2, 3, 4, 5, 6, 7 :: nat]"
  by (simp add: upt_rec)

lemma bit_uint_odd: "bit w n \<longleftrightarrow> odd (uint w div 2 ^ n)" for w :: "'a::len word"
  by (metis bit_iff_odd bit_uint_iff bit_imp_le_length)

lemma even_parity_sum:
  fixes w :: "'a::len word"
  shows "even_parity w \<longleftrightarrow> even (parity_sum (uint w))"
  unfolding even_parity_def upt_8 parity_sum_def by (simp add: bit_uint_odd)

lemma even_parity_and_255: "even_parity (x AND 0xFF) = even_parity x" for x :: u32
  by (simp add: even_parity_def upt_8 bit_and_iff byte_mask_bits)

lemma PARITY_even_parity:
  fixes x :: u32
  shows "PARITY (x AND 0xFF) \<longleftrightarrow> even_parity x"
proof -
  define k where "k = uint (x AND 0xFF)"
  have "x AND 0xFF = take_bit 8 x" by (simp add: take_bit_eq_mask mask_eq_exp_minus_1)
  then have "k = uint x mod 256"
    by (simp only: k_def unsigned_take_bit_eq) (simp add: take_bit_eq_mod)
  then have r: "0 \<le> k" "k \<le> 255" by simp_all
  have tab: "odd (map uint x86emu_parity_tab ! nat (k div 32) div 2 ^ nat (k mod 32)) = odd (parity_sum k)"
    using parity_rows r by (simp add: list_all_iff)
  have i: "unat ((x AND 0xFF) div 32) = nat (k div 32)" "unat ((x AND 0xFF) mod 32) = nat (k mod 32)"
    using r(1) by (simp_all only: unat_div unat_mod k_def) (simp_all add: nat_div_distrib nat_mod_distrib)
  have len: "nat (k div 32) < length x86emu_parity_tab"
    using r by (simp add: x86emu_parity_tab_def)
  have "PARITY (x AND 0xFF) \<longleftrightarrow> \<not> bit (x86emu_parity_tab ! nat (k div 32)) (nat (k mod 32))"
    unfolding PARITY_def i by (simp add: and_one_eq mod_2_eq_odd bit_iff_odd_drop_bit)
  also have "\<dots> \<longleftrightarrow> even (parity_sum k)"
    using tab len by (simp add: bit_uint_odd)
  also have "\<dots> \<longleftrightarrow> even_parity x"
    by (simp add: k_def even_parity_and_255 flip: even_parity_sum)
  finally show ?thesis .
qed

section \<open>The \<open>XOR2\<close> macro\<close>

definition XOR2 :: "u32 \<Rightarrow> u32" where
  "XOR2 x = (x XOR drop_bit 1 x) AND 1"

lemma XOR2_iff [mask_simps]: "XOR2 (drop_bit n x) = 0 \<longleftrightarrow> (bit x n \<longleftrightarrow> bit x (Suc n))"
proof -
  have "XOR2 (drop_bit n x) = 0 \<longleftrightarrow> \<not> bit (drop_bit n x XOR drop_bit 1 (drop_bit n x)) 0"
    unfolding XOR2_def using and_pow_eq_0 [of _ 0] by simp
  then show ?thesis by (simp add: bit_xor_iff bit_drop_bit_eq)
qed

section \<open>The cases of \<open>UpdateFlags\<close>\<close>

named_theorems uf_defs \<open>the case definitions of \<open>UpdateFlags\<close>\<close>

definition uf_add8 :: "'a emu_scheme \<Rightarrow> 'a emu_scheme" where
  "uf_add8 e = (let
     e = CONDITIONAL_SET_FLAG (res e AND 0x100 \<noteq> 0) F_CF e;
     e = CONDITIONAL_SET_FLAG (res e AND 0xFF = 0) F_ZF e;
     e = CONDITIONAL_SET_FLAG (res e AND 0x80 \<noteq> 0) F_SF e;
     e = CONDITIONAL_SET_FLAG (PARITY (res e AND 0xFF)) F_PF e;
     cc = (op1 e AND op2 e) OR (NOT (res e) AND (op1 e OR op2 e));
     e = CONDITIONAL_SET_FLAG (XOR2 (drop_bit 6 cc) \<noteq> 0) F_OF e;
     e = CONDITIONAL_SET_FLAG (cc AND 0x8 \<noteq> 0) F_AF e
   in e)"

definition uf_add16 :: "'a emu_scheme \<Rightarrow> 'a emu_scheme" where
  "uf_add16 e = (let
     e = CONDITIONAL_SET_FLAG (res e AND 0x10000 \<noteq> 0) F_CF e;
     e = CONDITIONAL_SET_FLAG (res e AND 0xFFFF = 0) F_ZF e;
     e = CONDITIONAL_SET_FLAG (res e AND 0x8000 \<noteq> 0) F_SF e;
     e = CONDITIONAL_SET_FLAG (PARITY (res e AND 0xFF)) F_PF e;
     cc = (op1 e AND op2 e) OR (NOT (res e) AND (op1 e OR op2 e));
     e = CONDITIONAL_SET_FLAG (XOR2 (drop_bit 14 cc) \<noteq> 0) F_OF e;
     e = CONDITIONAL_SET_FLAG (cc AND 0x8 \<noteq> 0) F_AF e
   in e)"

definition uf_add32 :: "'a emu_scheme \<Rightarrow> 'a emu_scheme" where
  "uf_add32 e = (let
     lo = (op2 e AND 0xFFFF) + (op1 e AND 0xFFFF);
     hi = drop_bit 16 lo + drop_bit 16 (op2 e) + drop_bit 16 (op1 e);
     e = CONDITIONAL_SET_FLAG (hi AND 0x10000 \<noteq> 0) F_CF e;
     e = CONDITIONAL_SET_FLAG (res e = 0) F_ZF e;
     e = CONDITIONAL_SET_FLAG (res e AND 0x80000000 \<noteq> 0) F_SF e;
     e = CONDITIONAL_SET_FLAG (PARITY (res e AND 0xFF)) F_PF e;
     cc = (op1 e AND op2 e) OR (NOT (res e) AND (op1 e OR op2 e));
     e = CONDITIONAL_SET_FLAG (XOR2 (drop_bit 30 cc) \<noteq> 0) F_OF e;
     e = CONDITIONAL_SET_FLAG (cc AND 0x8 \<noteq> 0) F_AF e
   in e)"

definition uf_and8 :: "'a emu_scheme \<Rightarrow> 'a emu_scheme" where
  "uf_and8 e = (let
     e = CLEAR_FLAG F_OF e;
     e = CLEAR_FLAG F_CF e;
     e = CLEAR_FLAG F_AF e;
     e = CONDITIONAL_SET_FLAG (res e AND 0x80 \<noteq> 0) F_SF e;
     e = CONDITIONAL_SET_FLAG (res e = 0) F_ZF e;
     e = CONDITIONAL_SET_FLAG (PARITY (res e AND 0xFF)) F_PF e
   in e)"

definition uf_and16 :: "'a emu_scheme \<Rightarrow> 'a emu_scheme" where
  "uf_and16 e = (let
     e = CLEAR_FLAG F_OF e;
     e = CLEAR_FLAG F_CF e;
     e = CLEAR_FLAG F_AF e;
     e = CONDITIONAL_SET_FLAG (res e AND 0x8000 \<noteq> 0) F_SF e;
     e = CONDITIONAL_SET_FLAG (res e = 0) F_ZF e;
     e = CONDITIONAL_SET_FLAG (PARITY (res e AND 0xFF)) F_PF e
   in e)"

definition uf_and32 :: "'a emu_scheme \<Rightarrow> 'a emu_scheme" where
  "uf_and32 e = (let
     e = CLEAR_FLAG F_OF e;
     e = CLEAR_FLAG F_CF e;
     e = CLEAR_FLAG F_AF e;
     e = CONDITIONAL_SET_FLAG (res e AND 0x80000000 \<noteq> 0) F_SF e;
     e = CONDITIONAL_SET_FLAG (res e = 0) F_ZF e;
     e = CONDITIONAL_SET_FLAG (PARITY (res e AND 0xFF)) F_PF e
   in e)"

definition uf_dec8 :: "'a emu_scheme \<Rightarrow> 'a emu_scheme" where
  "uf_dec8 e = (let
     e = CONDITIONAL_SET_FLAG (res e AND 0x80 \<noteq> 0) F_SF e;
     e = CONDITIONAL_SET_FLAG (res e AND 0xFF = 0) F_ZF e;
     e = CONDITIONAL_SET_FLAG (PARITY (res e AND 0xFF)) F_PF e;
     bc = (res e AND (NOT (op1 e) OR 1)) OR (NOT (op1 e) AND 1);
     e = CONDITIONAL_SET_FLAG (XOR2 (drop_bit 6 bc) \<noteq> 0) F_OF e;
     e = CONDITIONAL_SET_FLAG (bc AND 0x8 \<noteq> 0) F_AF e
   in e)"

definition uf_dec16 :: "'a emu_scheme \<Rightarrow> 'a emu_scheme" where
  "uf_dec16 e = (let
     e = CONDITIONAL_SET_FLAG (res e AND 0x8000 \<noteq> 0) F_SF e;
     e = CONDITIONAL_SET_FLAG (res e AND 0xFFFF = 0) F_ZF e;
     e = CONDITIONAL_SET_FLAG (PARITY (res e AND 0xFF)) F_PF e;
     bc = (res e AND (NOT (op1 e) OR 1)) OR (NOT (op1 e) AND 1);
     e = CONDITIONAL_SET_FLAG (XOR2 (drop_bit 14 bc) \<noteq> 0) F_OF e;
     e = CONDITIONAL_SET_FLAG (bc AND 0x8 \<noteq> 0) F_AF e
   in e)"

definition uf_dec32 :: "'a emu_scheme \<Rightarrow> 'a emu_scheme" where
  "uf_dec32 e = (let
     e = CONDITIONAL_SET_FLAG (res e AND 0x80000000 \<noteq> 0) F_SF e;
     e = CONDITIONAL_SET_FLAG (res e = 0) F_ZF e;
     e = CONDITIONAL_SET_FLAG (PARITY (res e AND 0xFF)) F_PF e;
     bc = (res e AND (NOT (op1 e) OR 1)) OR (NOT (op1 e) AND 1);
     e = CONDITIONAL_SET_FLAG (XOR2 (drop_bit 30 bc) \<noteq> 0) F_OF e;
     e = CONDITIONAL_SET_FLAG (bc AND 0x8 \<noteq> 0) F_AF e
   in e)"

definition uf_inc8 :: "'a emu_scheme \<Rightarrow> 'a emu_scheme" where
  "uf_inc8 e = (let
     e = CONDITIONAL_SET_FLAG (res e AND 0xFF = 0) F_ZF e;
     e = CONDITIONAL_SET_FLAG (res e AND 0x80 \<noteq> 0) F_SF e;
     e = CONDITIONAL_SET_FLAG (PARITY (res e AND 0xFF)) F_PF e;
     cc = ((1 AND op1 e) OR NOT (res e)) AND (1 OR op1 e);
     e = CONDITIONAL_SET_FLAG (XOR2 (drop_bit 6 cc) \<noteq> 0) F_OF e;
     e = CONDITIONAL_SET_FLAG (cc AND 0x8 \<noteq> 0) F_AF e
   in e)"

definition uf_inc16 :: "'a emu_scheme \<Rightarrow> 'a emu_scheme" where
  "uf_inc16 e = (let
     e = CONDITIONAL_SET_FLAG (res e AND 0xFFFF = 0) F_ZF e;
     e = CONDITIONAL_SET_FLAG (res e AND 0x8000 \<noteq> 0) F_SF e;
     e = CONDITIONAL_SET_FLAG (PARITY (res e AND 0xFF)) F_PF e;
     cc = (1 AND op1 e) OR (NOT (res e) AND (1 OR op1 e));
     e = CONDITIONAL_SET_FLAG (XOR2 (drop_bit 14 cc) \<noteq> 0) F_OF e;
     e = CONDITIONAL_SET_FLAG (cc AND 0x8 \<noteq> 0) F_AF e
   in e)"

definition uf_inc32 :: "'a emu_scheme \<Rightarrow> 'a emu_scheme" where
  "uf_inc32 e = (let
     e = CONDITIONAL_SET_FLAG (res e = 0) F_ZF e;
     e = CONDITIONAL_SET_FLAG (res e AND 0x80000000 \<noteq> 0) F_SF e;
     e = CONDITIONAL_SET_FLAG (PARITY (res e AND 0xFF)) F_PF e;
     cc = (1 AND op1 e) OR (NOT (res e) AND (1 OR op1 e));
     e = CONDITIONAL_SET_FLAG (XOR2 (drop_bit 30 cc) \<noteq> 0) F_OF e;
     e = CONDITIONAL_SET_FLAG (cc AND 0x8 \<noteq> 0) F_AF e
   in e)"

definition uf_imul8 :: "'a emu_scheme \<Rightarrow> 'a emu_scheme" where
  "uf_imul8 e = (let
     lo = res e AND 0xFF;
     hi = drop_bit 8 (res e) AND 0xFF;
     e = if (lo AND 0x80 = 0 \<and> hi = 0) \<or> (lo AND 0x80 \<noteq> 0 \<and> hi = 0xFF) then CLEAR_FLAG F_OF (CLEAR_FLAG F_CF e)
         else SET_FLAG F_OF (SET_FLAG F_CF e);
     e = CONDITIONAL_SET_FLAG (PARITY (lo AND 0xFF)) F_PF e
   in e)"

definition uf_imul16 :: "'a emu_scheme \<Rightarrow> 'a emu_scheme" where
  "uf_imul16 e = (let
     lo = ucast (ucast (res e) :: u16) :: u32;
     hi = ucast (ucast (drop_bit 16 (res e)) :: u16) :: u32;
     e = if (lo AND 0x8000 = 0 \<and> hi = 0) \<or> (lo AND 0x8000 \<noteq> 0 \<and> hi = 0xFFFF) then CLEAR_FLAG F_OF (CLEAR_FLAG F_CF e)
         else SET_FLAG F_OF (SET_FLAG F_CF e);
     e = CONDITIONAL_SET_FLAG (PARITY (lo AND 0xFF)) F_PF e
   in e)"

definition uf_imul32 :: "'a emu_scheme \<Rightarrow> 'a emu_scheme" where
  "uf_imul32 e = (let
     e = if (res e AND 0x80000000 = 0 \<and> op1 e = 0) \<or> (res e AND 0x80000000 \<noteq> 0 \<and> op1 e = 0xFFFFFFFF) then CLEAR_FLAG F_OF (CLEAR_FLAG F_CF e)
         else SET_FLAG F_OF (SET_FLAG F_CF e);
     e = CONDITIONAL_SET_FLAG (PARITY (res e AND 0xFF)) F_PF e
   in e)"

definition uf_mul8 :: "'a emu_scheme \<Rightarrow> 'a emu_scheme" where
  "uf_mul8 e = (let
     lo = res e AND 0xFF;
     hi = drop_bit 8 (res e) AND 0xFF;
     e = if hi = 0 then CLEAR_FLAG F_OF (CLEAR_FLAG F_CF e)
         else SET_FLAG F_OF (SET_FLAG F_CF e);
     e = CONDITIONAL_SET_FLAG (PARITY (lo AND 0xFF)) F_PF e
   in e)"

definition uf_mul16 :: "'a emu_scheme \<Rightarrow> 'a emu_scheme" where
  "uf_mul16 e = (let
     lo = ucast (ucast (res e) :: u16) :: u32;
     hi = ucast (ucast (drop_bit 16 (res e)) :: u16) :: u32;
     e = if hi = 0 then CLEAR_FLAG F_OF (CLEAR_FLAG F_CF e)
         else SET_FLAG F_OF (SET_FLAG F_CF e);
     e = CONDITIONAL_SET_FLAG (PARITY (lo AND 0xFF)) F_PF e
   in e)"

definition uf_mul32 :: "'a emu_scheme \<Rightarrow> 'a emu_scheme" where
  "uf_mul32 e = (let
     e = if op1 e = 0 then CLEAR_FLAG F_OF (CLEAR_FLAG F_CF e)
         else SET_FLAG F_OF (SET_FLAG F_CF e);
     e = CONDITIONAL_SET_FLAG (PARITY (res e AND 0xFF)) F_PF e
   in e)"

definition uf_or8 :: "'a emu_scheme \<Rightarrow> 'a emu_scheme" where
  "uf_or8 e = (let
     e = CLEAR_FLAG F_OF e;
     e = CLEAR_FLAG F_CF e;
     e = CLEAR_FLAG F_AF e;
     e = CONDITIONAL_SET_FLAG (res e AND 0x80 \<noteq> 0) F_SF e;
     e = CONDITIONAL_SET_FLAG (res e = 0) F_ZF e;
     e = CONDITIONAL_SET_FLAG (PARITY (res e AND 0xFF)) F_PF e
   in e)"

definition uf_or16 :: "'a emu_scheme \<Rightarrow> 'a emu_scheme" where
  "uf_or16 e = (let
     e = CLEAR_FLAG F_OF e;
     e = CLEAR_FLAG F_CF e;
     e = CLEAR_FLAG F_AF e;
     e = CONDITIONAL_SET_FLAG (res e AND 0x8000 \<noteq> 0) F_SF e;
     e = CONDITIONAL_SET_FLAG (res e = 0) F_ZF e;
     e = CONDITIONAL_SET_FLAG (PARITY (res e AND 0xFF)) F_PF e
   in e)"

definition uf_or32 :: "'a emu_scheme \<Rightarrow> 'a emu_scheme" where
  "uf_or32 e = (let
     e = CLEAR_FLAG F_OF e;
     e = CLEAR_FLAG F_CF e;
     e = CLEAR_FLAG F_AF e;
     e = CONDITIONAL_SET_FLAG (res e AND 0x80000000 \<noteq> 0) F_SF e;
     e = CONDITIONAL_SET_FLAG (res e = 0) F_ZF e;
     e = CONDITIONAL_SET_FLAG (PARITY (res e AND 0xFF)) F_PF e
   in e)"

definition uf_neg8 :: "'a emu_scheme \<Rightarrow> 'a emu_scheme" where
  "uf_neg8 e = (let
     e = CONDITIONAL_SET_FLAG (op1 e \<noteq> 0) F_CF e;
     e = CONDITIONAL_SET_FLAG (res e AND 0xFF = 0) F_ZF e;
     e = CONDITIONAL_SET_FLAG (res e AND 0x80 \<noteq> 0) F_SF e;
     e = CONDITIONAL_SET_FLAG (PARITY (res e AND 0xFF)) F_PF e;
     bc = res e OR op1 e;
     e = CONDITIONAL_SET_FLAG (XOR2 (drop_bit 6 bc) \<noteq> 0) F_OF e;
     e = CONDITIONAL_SET_FLAG (bc AND 0x8 \<noteq> 0) F_AF e
   in e)"

definition uf_neg16 :: "'a emu_scheme \<Rightarrow> 'a emu_scheme" where
  "uf_neg16 e = (let
     e = CONDITIONAL_SET_FLAG (op1 e \<noteq> 0) F_CF e;
     e = CONDITIONAL_SET_FLAG (res e AND 0xFFFF = 0) F_ZF e;
     e = CONDITIONAL_SET_FLAG (res e AND 0x8000 \<noteq> 0) F_SF e;
     e = CONDITIONAL_SET_FLAG (PARITY (res e AND 0xFF)) F_PF e;
     bc = res e OR op1 e;
     e = CONDITIONAL_SET_FLAG (XOR2 (drop_bit 14 bc) \<noteq> 0) F_OF e;
     e = CONDITIONAL_SET_FLAG (bc AND 0x8 \<noteq> 0) F_AF e
   in e)"

definition uf_neg32 :: "'a emu_scheme \<Rightarrow> 'a emu_scheme" where
  "uf_neg32 e = (let
     e = CONDITIONAL_SET_FLAG (op1 e \<noteq> 0) F_CF e;
     e = CONDITIONAL_SET_FLAG (res e = 0) F_ZF e;
     e = CONDITIONAL_SET_FLAG (res e AND 0x80000000 \<noteq> 0) F_SF e;
     e = CONDITIONAL_SET_FLAG (PARITY (res e AND 0xFF)) F_PF e;
     bc = res e OR op1 e;
     e = CONDITIONAL_SET_FLAG (XOR2 (drop_bit 30 bc) \<noteq> 0) F_OF e;
     e = CONDITIONAL_SET_FLAG (bc AND 0x8 \<noteq> 0) F_AF e
   in e)"

definition uf_rcl8 :: "'a emu_scheme \<Rightarrow> 'a emu_scheme" where
  "uf_rcl8 e = (let
     cc = drop_bit (unat (8 - op2 e)) (op1 e) AND 0x1;
     e = CONDITIONAL_SET_FLAG (cc \<noteq> 0) F_CF e;
     e = CONDITIONAL_SET_FLAG (op2 e = 1 \<and> XOR2 (cc + (drop_bit 6 (res e) AND 0x2)) \<noteq> 0) F_OF e
   in e)"

definition uf_rcl16 :: "'a emu_scheme \<Rightarrow> 'a emu_scheme" where
  "uf_rcl16 e = (let
     cc = drop_bit (unat (16 - op2 e)) (op1 e) AND 0x1;
     e = CONDITIONAL_SET_FLAG (cc \<noteq> 0) F_CF e;
     e = CONDITIONAL_SET_FLAG (op2 e = 1 \<and> XOR2 (cc + (drop_bit 14 (res e) AND 0x2)) \<noteq> 0) F_OF e
   in e)"

definition uf_rcl32 :: "'a emu_scheme \<Rightarrow> 'a emu_scheme" where
  "uf_rcl32 e = (let
     cc = drop_bit (unat (32 - op2 e)) (op1 e) AND 0x1;
     e = CONDITIONAL_SET_FLAG (cc \<noteq> 0) F_CF e;
     e = CONDITIONAL_SET_FLAG (op2 e = 1 \<and> XOR2 (cc + (drop_bit 30 (res e) AND 0x2)) \<noteq> 0) F_OF e
   in e)"

definition uf_rcr8 :: "'a emu_scheme \<Rightarrow> 'a emu_scheme" where
  "uf_rcr8 e = (let
     cnt = op2 e mod 9;
     e = if cnt = 1
         then let e = CONDITIONAL_SET_FLAG (op1 e AND 0x1 \<noteq> 0) F_CF e;
                  cc = (if ACCESS_FLAG F_CF e then 1 else 0 :: u32)
              in CONDITIONAL_SET_FLAG (XOR2 (cc + (drop_bit 6 (op1 e) AND 0x2)) \<noteq> 0) F_OF e
         else CONDITIONAL_SET_FLAG (drop_bit (unat (cnt - 1)) (op1 e) AND 0x1 \<noteq> 0) F_CF e
   in e)"

definition uf_rcr16 :: "'a emu_scheme \<Rightarrow> 'a emu_scheme" where
  "uf_rcr16 e = (let
     cnt = op2 e mod 17;
     e = if cnt = 1
         then let e = CONDITIONAL_SET_FLAG (op1 e AND 0x1 \<noteq> 0) F_CF e;
                  cc = (if ACCESS_FLAG F_CF e then 1 else 0 :: u32)
              in CONDITIONAL_SET_FLAG (XOR2 (cc + (drop_bit 14 (op1 e) AND 0x2)) \<noteq> 0) F_OF e
         else CONDITIONAL_SET_FLAG (drop_bit (unat (cnt - 1)) (op1 e) AND 0x1 \<noteq> 0) F_CF e
   in e)"

definition uf_rcr32 :: "'a emu_scheme \<Rightarrow> 'a emu_scheme" where
  "uf_rcr32 e = (let
     cnt = op2 e mod 33;
     e = if cnt = 1
         then let e = CONDITIONAL_SET_FLAG (op1 e AND 0x1 \<noteq> 0) F_CF e;
                  cc = (if ACCESS_FLAG F_CF e then 1 else 0 :: u32)
              in CONDITIONAL_SET_FLAG (XOR2 (cc + (drop_bit 30 (op1 e) AND 0x2)) \<noteq> 0) F_OF e
         else CONDITIONAL_SET_FLAG (drop_bit (unat (cnt - 1)) (op1 e) AND 0x1 \<noteq> 0) F_CF e
   in e)"

definition uf_shl8 :: "'a emu_scheme \<Rightarrow> 'a emu_scheme" where
  "uf_shl8 e = (let
     e = if op2 e < 8
       then let cnt = op2 e mod 8;
                e = (if cnt > 0
                     then let cc = op1 e AND push_bit (unat (8 - cnt)) 1;
                              e = CONDITIONAL_SET_FLAG (cc \<noteq> 0) F_CF e;
                              e = CONDITIONAL_SET_FLAG (res e AND 0xFF = 0) F_ZF e;
                              e = CONDITIONAL_SET_FLAG (res e AND 0x80 \<noteq> 0) F_SF e
                          in CONDITIONAL_SET_FLAG (PARITY (res e AND 0xFF)) F_PF e
                     else e)
            in if cnt = 1
               then CONDITIONAL_SET_FLAG ((res e AND 0x80 = 0x80) \<noteq> ACCESS_FLAG F_CF e) F_OF e
               else CLEAR_FLAG F_OF e
       else let e = CONDITIONAL_SET_FLAG (push_bit (unat (op2 e - 1)) (op1 e) AND 0x80 \<noteq> 0) F_CF e;
                e = CLEAR_FLAG F_OF e;
                e = CLEAR_FLAG F_SF e;
                e = SET_FLAG F_PF e
            in SET_FLAG F_ZF e
   in e)"

definition uf_shl16 :: "'a emu_scheme \<Rightarrow> 'a emu_scheme" where
  "uf_shl16 e = (let
     e = if op2 e < 16
       then let cnt = op2 e mod 16;
                e = (if cnt > 0
                     then let cc = op1 e AND push_bit (unat (16 - cnt)) 1;
                              e = CONDITIONAL_SET_FLAG (cc \<noteq> 0) F_CF e;
                              e = CONDITIONAL_SET_FLAG (res e AND 0xFFFF = 0) F_ZF e;
                              e = CONDITIONAL_SET_FLAG (res e AND 0x8000 \<noteq> 0) F_SF e
                          in CONDITIONAL_SET_FLAG (PARITY (res e AND 0xFF)) F_PF e
                     else e)
            in if cnt = 1
               then CONDITIONAL_SET_FLAG ((res e AND 0x8000 \<noteq> 0) \<noteq> ACCESS_FLAG F_CF e) F_OF e
               else CLEAR_FLAG F_OF e
       else let e = CONDITIONAL_SET_FLAG (push_bit (unat (op2 e - 1)) (op1 e) AND 0x8000 \<noteq> 0) F_CF e;
                e = CLEAR_FLAG F_OF e;
                e = CLEAR_FLAG F_SF e;
                e = SET_FLAG F_PF e
            in SET_FLAG F_ZF e
   in e)"

definition uf_shl32 :: "'a emu_scheme \<Rightarrow> 'a emu_scheme" where
  "uf_shl32 e = (let
     e = if op2 e > 0
       then let cc = op1 e AND push_bit (unat (32 - op2 e)) 1;
                e = CONDITIONAL_SET_FLAG (cc \<noteq> 0) F_CF e;
                e = CONDITIONAL_SET_FLAG (res e = 0) F_ZF e;
                e = CONDITIONAL_SET_FLAG (res e AND 0x80000000 \<noteq> 0) F_SF e
            in CONDITIONAL_SET_FLAG (PARITY (res e AND 0xFF)) F_PF e
       else e;
     e = if op2 e = 1
       then CONDITIONAL_SET_FLAG ((res e AND 0x80000000 \<noteq> 0) \<noteq> ACCESS_FLAG F_CF e) F_OF e
       else CLEAR_FLAG F_OF e
   in e)"

definition uf_sar8 :: "'a emu_scheme \<Rightarrow> 'a emu_scheme" where
  "uf_sar8 e = (let
     e = if op2 e < 8
       then (if op2 e \<noteq> 0
             then let cc = op1 e AND push_bit (unat (op2 e - 1)) 1;
                      e = CONDITIONAL_SET_FLAG (cc \<noteq> 0) F_CF e;
                      e = CONDITIONAL_SET_FLAG (res e AND 0xFF = 0) F_ZF e;
                      e = CONDITIONAL_SET_FLAG (PARITY (res e AND 0xFF)) F_PF e;
                      e = CONDITIONAL_SET_FLAG (res e AND 0x80 \<noteq> 0) F_SF e
                  in if op2 e = 1 then CLEAR_FLAG F_OF e else e
             else e)
       else (if op1 e AND 0x80 \<noteq> 0
             then SET_FLAG F_PF (SET_FLAG F_SF (CLEAR_FLAG F_ZF (SET_FLAG F_CF e)))
             else SET_FLAG F_PF (CLEAR_FLAG F_SF (SET_FLAG F_ZF (CLEAR_FLAG F_CF e))))
   in e)"

definition uf_sar16 :: "'a emu_scheme \<Rightarrow> 'a emu_scheme" where
  "uf_sar16 e = (let
     e = if op2 e < 16
       then (if op2 e \<noteq> 0
             then let cc = op1 e AND push_bit (unat (op2 e - 1)) 1;
                      e = CONDITIONAL_SET_FLAG (cc \<noteq> 0) F_CF e;
                      e = CONDITIONAL_SET_FLAG (res e AND 0xFFFF = 0) F_ZF e;
                      e = CONDITIONAL_SET_FLAG (res e AND 0x8000 \<noteq> 0) F_SF e;
                      e = CONDITIONAL_SET_FLAG (PARITY (res e AND 0xFF)) F_PF e
                  in if op2 e = 1 then CLEAR_FLAG F_OF e else e
             else e)
       else (if op1 e AND 0x8000 \<noteq> 0
             then SET_FLAG F_PF (SET_FLAG F_SF (CLEAR_FLAG F_ZF (SET_FLAG F_CF e)))
             else SET_FLAG F_PF (CLEAR_FLAG F_SF (SET_FLAG F_ZF (CLEAR_FLAG F_CF e))))
   in e)"

definition uf_sar32 :: "'a emu_scheme \<Rightarrow> 'a emu_scheme" where
  "uf_sar32 e = (let
     e = if op2 e \<noteq> 0
       then let cc = op1 e AND push_bit (unat (op2 e - 1)) 1;
                e = CONDITIONAL_SET_FLAG (cc \<noteq> 0) F_CF e;
                e = CONDITIONAL_SET_FLAG (res e = 0) F_ZF e;
                e = CONDITIONAL_SET_FLAG (res e AND 0x80000000 \<noteq> 0) F_SF e;
                e = CONDITIONAL_SET_FLAG (PARITY (res e AND 0xFF)) F_PF e
            in if op2 e = 1 then CLEAR_FLAG F_OF e else e
       else e
   in e)"

definition uf_shr8 :: "'a emu_scheme \<Rightarrow> 'a emu_scheme" where
  "uf_shr8 e = (let
     e = if op2 e < 8
       then let cnt = op2 e mod 8;
                e = (if cnt > 0
                     then let cc = op1 e AND push_bit (unat (cnt - 1)) 1;
                              e = CONDITIONAL_SET_FLAG (cc \<noteq> 0) F_CF e;
                              e = CONDITIONAL_SET_FLAG (res e AND 0xFF = 0) F_ZF e;
                              e = CONDITIONAL_SET_FLAG (res e AND 0x80 \<noteq> 0) F_SF e
                          in CONDITIONAL_SET_FLAG (PARITY (res e AND 0xFF)) F_PF e
                     else e)
            in if cnt = 1 then CONDITIONAL_SET_FLAG (op1 e AND 0x80 \<noteq> 0) F_OF e else e
       else let e = CONDITIONAL_SET_FLAG (drop_bit (unat (op2 e - 1)) (op1 e) AND 0x1 \<noteq> 0) F_CF e
            in SET_FLAG F_ZF (SET_FLAG F_PF (CLEAR_FLAG F_SF e))
   in e)"

definition uf_shr16 :: "'a emu_scheme \<Rightarrow> 'a emu_scheme" where
  "uf_shr16 e = (let
     e = if op2 e < 16
       then let cnt = op2 e mod 16;
                e = (if cnt > 0
                     then let cc = op1 e AND push_bit (unat (cnt - 1)) 1;
                              e = CONDITIONAL_SET_FLAG (cc \<noteq> 0) F_CF e;
                              e = CONDITIONAL_SET_FLAG (res e AND 0xFFFF = 0) F_ZF e;
                              e = CONDITIONAL_SET_FLAG (res e AND 0x8000 \<noteq> 0) F_SF e
                          in CONDITIONAL_SET_FLAG (PARITY (res e AND 0xFF)) F_PF e
                     else e)
            in if cnt = 1 then CONDITIONAL_SET_FLAG (op1 e AND 0x8000 \<noteq> 0) F_OF e else e
       else SET_FLAG F_PF (CLEAR_FLAG F_SF (SET_FLAG F_ZF (CLEAR_FLAG F_CF e)))
   in e)"

definition uf_shr32 :: "'a emu_scheme \<Rightarrow> 'a emu_scheme" where
  "uf_shr32 e = (let
     cnt = op2 e;
     e = if cnt > 0
       then let cc = op1 e AND push_bit (unat (cnt - 1)) 1;
                e = CONDITIONAL_SET_FLAG (cc \<noteq> 0) F_CF e;
                e = CONDITIONAL_SET_FLAG (res e = 0) F_ZF e;
                e = CONDITIONAL_SET_FLAG (res e AND 0x80000000 \<noteq> 0) F_SF e
            in CONDITIONAL_SET_FLAG (PARITY (res e AND 0xFF)) F_PF e
       else e;
     e = if cnt = 1 then CONDITIONAL_SET_FLAG (op1 e AND 0x80000000 \<noteq> 0) F_OF e else e
   in e)"

definition uf_shrd32 :: "'a emu_scheme \<Rightarrow> 'a emu_scheme" where
  "uf_shrd32 e = (let
     cnt = op2 e;
     e = if cnt > 0
       then let cc = op1 e AND push_bit (unat (cnt - 1)) 1;
                e = CONDITIONAL_SET_FLAG (cc \<noteq> 0) F_CF e;
                e = CONDITIONAL_SET_FLAG (res e = 0) F_ZF e;
                e = CONDITIONAL_SET_FLAG (res e AND 0x80000000 \<noteq> 0) F_SF e;
                e = CONDITIONAL_SET_FLAG (PARITY (res e AND 0xFF)) F_PF e
            in if cnt = 1
               then CONDITIONAL_SET_FLAG ((op1 e XOR res e) AND 0x80000000 \<noteq> 0) F_OF e
               else e
       else e
   in e)"

definition uf_shld32 :: "'a emu_scheme \<Rightarrow> 'a emu_scheme" where
  "uf_shld32 e = (let
     cnt = op2 e;
     e = if cnt > 0
       then let cc = op1 e AND push_bit (unat (32 - cnt)) 1;
                e = CONDITIONAL_SET_FLAG (cc \<noteq> 0) F_CF e;
                e = CONDITIONAL_SET_FLAG (res e = 0) F_ZF e;
                e = CONDITIONAL_SET_FLAG (res e AND 0x80000000 \<noteq> 0) F_SF e;
                e = CONDITIONAL_SET_FLAG (PARITY (res e AND 0xFF)) F_PF e
            in if cnt = 1
               then CONDITIONAL_SET_FLAG ((op1 e XOR res e) AND 0x80000000 \<noteq> 0) F_OF e
               else CLEAR_FLAG F_OF e
       else e
   in e)"

definition uf_sub8 :: "'a emu_scheme \<Rightarrow> 'a emu_scheme" where
  "uf_sub8 e = (let
     e = CONDITIONAL_SET_FLAG (res e AND 0x80 \<noteq> 0) F_SF e;
     e = CONDITIONAL_SET_FLAG (res e AND 0xFF = 0) F_ZF e;
     e = CONDITIONAL_SET_FLAG (PARITY (res e AND 0xFF)) F_PF e;
     bc = (res e AND (NOT (op1 e) OR op2 e)) OR (NOT (op1 e) AND op2 e);
     e = CONDITIONAL_SET_FLAG (bc AND 0x80 \<noteq> 0) F_CF e;
     e = CONDITIONAL_SET_FLAG (XOR2 (drop_bit 6 bc) \<noteq> 0) F_OF e;
     e = CONDITIONAL_SET_FLAG (bc AND 0x8 \<noteq> 0) F_AF e
   in e)"

definition uf_sub16 :: "'a emu_scheme \<Rightarrow> 'a emu_scheme" where
  "uf_sub16 e = (let
     e = CONDITIONAL_SET_FLAG (res e AND 0x8000 \<noteq> 0) F_SF e;
     e = CONDITIONAL_SET_FLAG (res e AND 0xFFFF = 0) F_ZF e;
     e = CONDITIONAL_SET_FLAG (PARITY (res e AND 0xFF)) F_PF e;
     bc = (res e AND (NOT (op1 e) OR op2 e)) OR (NOT (op1 e) AND op2 e);
     e = CONDITIONAL_SET_FLAG (bc AND 0x8000 \<noteq> 0) F_CF e;
     e = CONDITIONAL_SET_FLAG (XOR2 (drop_bit 14 bc) \<noteq> 0) F_OF e;
     e = CONDITIONAL_SET_FLAG (bc AND 0x8 \<noteq> 0) F_AF e
   in e)"

definition uf_sub32 :: "'a emu_scheme \<Rightarrow> 'a emu_scheme" where
  "uf_sub32 e = (let
     e = CONDITIONAL_SET_FLAG (res e AND 0x80000000 \<noteq> 0) F_SF e;
     e = CONDITIONAL_SET_FLAG (res e = 0) F_ZF e;
     e = CONDITIONAL_SET_FLAG (PARITY (res e AND 0xFF)) F_PF e;
     bc = (res e AND (NOT (op1 e) OR op2 e)) OR (NOT (op1 e) AND op2 e);
     e = CONDITIONAL_SET_FLAG (bc AND 0x80000000 \<noteq> 0) F_CF e;
     e = CONDITIONAL_SET_FLAG (XOR2 (drop_bit 30 bc) \<noteq> 0) F_OF e;
     e = CONDITIONAL_SET_FLAG (bc AND 0x8 \<noteq> 0) F_AF e
   in e)"

definition uf_xor8 :: "'a emu_scheme \<Rightarrow> 'a emu_scheme" where
  "uf_xor8 e = (let
     e = CLEAR_FLAG F_OF e;
     e = CONDITIONAL_SET_FLAG (res e AND 0x80 \<noteq> 0) F_SF e;
     e = CONDITIONAL_SET_FLAG (res e = 0) F_ZF e;
     e = CONDITIONAL_SET_FLAG (PARITY (res e AND 0xFF)) F_PF e;
     e = CLEAR_FLAG F_CF e;
     e = CLEAR_FLAG F_AF e
   in e)"

definition uf_xor16 :: "'a emu_scheme \<Rightarrow> 'a emu_scheme" where
  "uf_xor16 e = (let
     e = CLEAR_FLAG F_OF e;
     e = CONDITIONAL_SET_FLAG (res e AND 0x8000 \<noteq> 0) F_SF e;
     e = CONDITIONAL_SET_FLAG (res e = 0) F_ZF e;
     e = CONDITIONAL_SET_FLAG (PARITY (res e AND 0xFF)) F_PF e;
     e = CLEAR_FLAG F_CF e;
     e = CLEAR_FLAG F_AF e
   in e)"

definition uf_xor32 :: "'a emu_scheme \<Rightarrow> 'a emu_scheme" where
  "uf_xor32 e = (let
     e = CLEAR_FLAG F_OF e;
     e = CONDITIONAL_SET_FLAG (res e AND 0x80000000 \<noteq> 0) F_SF e;
     e = CONDITIONAL_SET_FLAG (res e = 0) F_ZF e;
     e = CONDITIONAL_SET_FLAG (PARITY (res e AND 0xFF)) F_PF e;
     e = CLEAR_FLAG F_CF e;
     e = CLEAR_FLAG F_AF e
   in e)"

definition uf_cmp8 :: "'a emu_scheme \<Rightarrow> 'a emu_scheme" where
  "uf_cmp8 e = (let
     e = CLEAR_FLAG F_CF e;
     e = CONDITIONAL_SET_FLAG (res e AND 0x80 \<noteq> 0) F_SF e;
     e = CONDITIONAL_SET_FLAG (res e AND 0xFF = 0) F_ZF e;
     e = CONDITIONAL_SET_FLAG (PARITY (res e AND 0xFF)) F_PF e;
     bc = (res e AND (NOT (op1 e) OR op2 e)) OR (NOT (op1 e) AND op2 e);
     e = CONDITIONAL_SET_FLAG (bc AND 0x80 \<noteq> 0) F_CF e;
     e = CONDITIONAL_SET_FLAG (XOR2 (drop_bit 6 bc) \<noteq> 0) F_OF e;
     e = CONDITIONAL_SET_FLAG (bc AND 0x8 \<noteq> 0) F_AF e
   in e)"

definition uf_cmp16 :: "'a emu_scheme \<Rightarrow> 'a emu_scheme" where
  "uf_cmp16 e = (let
     e = CONDITIONAL_SET_FLAG (res e AND 0x8000 \<noteq> 0) F_SF e;
     e = CONDITIONAL_SET_FLAG (res e AND 0xFFFF = 0) F_ZF e;
     e = CONDITIONAL_SET_FLAG (PARITY (res e AND 0xFF)) F_PF e;
     bc = (res e AND (NOT (op1 e) OR op2 e)) OR (NOT (op1 e) AND op2 e);
     e = CONDITIONAL_SET_FLAG (bc AND 0x8000 \<noteq> 0) F_CF e;
     e = CONDITIONAL_SET_FLAG (XOR2 (drop_bit 14 bc) \<noteq> 0) F_OF e;
     e = CONDITIONAL_SET_FLAG (bc AND 0x8 \<noteq> 0) F_AF e
   in e)"

definition uf_cmp32 :: "'a emu_scheme \<Rightarrow> 'a emu_scheme" where
  "uf_cmp32 e = (let
     e = CONDITIONAL_SET_FLAG (res e AND 0x80000000 \<noteq> 0) F_SF e;
     e = CONDITIONAL_SET_FLAG (res e = 0) F_ZF e;
     e = CONDITIONAL_SET_FLAG (PARITY (res e AND 0xFF)) F_PF e;
     bc = (res e AND (NOT (op1 e) OR op2 e)) OR (NOT (op1 e) AND op2 e);
     e = CONDITIONAL_SET_FLAG (bc AND 0x80000000 \<noteq> 0) F_CF e;
     e = CONDITIONAL_SET_FLAG (XOR2 (drop_bit 30 bc) \<noteq> 0) F_OF e;
     e = CONDITIONAL_SET_FLAG (bc AND 0x8 \<noteq> 0) F_AF e
   in e)"

definition uf_tst8 :: "'a emu_scheme \<Rightarrow> 'a emu_scheme" where
  "uf_tst8 e = (let
     e = CLEAR_FLAG F_OF e;
     e = CONDITIONAL_SET_FLAG (res e AND 0x80 \<noteq> 0) F_SF e;
     e = CONDITIONAL_SET_FLAG (res e = 0) F_ZF e;
     e = CONDITIONAL_SET_FLAG (PARITY (res e AND 0xFF)) F_PF e;
     e = CLEAR_FLAG F_CF e
   in e)"

definition uf_tst16 :: "'a emu_scheme \<Rightarrow> 'a emu_scheme" where
  "uf_tst16 e = (let
     e = CLEAR_FLAG F_OF e;
     e = CONDITIONAL_SET_FLAG (res e AND 0x8000 \<noteq> 0) F_SF e;
     e = CONDITIONAL_SET_FLAG (res e = 0) F_ZF e;
     e = CONDITIONAL_SET_FLAG (PARITY (res e AND 0xFF)) F_PF e;
     e = CLEAR_FLAG F_CF e
   in e)"

definition uf_tst32 :: "'a emu_scheme \<Rightarrow> 'a emu_scheme" where
  "uf_tst32 e = (let
     e = CLEAR_FLAG F_OF e;
     e = CONDITIONAL_SET_FLAG (res e AND 0x80000000 \<noteq> 0) F_SF e;
     e = CONDITIONAL_SET_FLAG (res e = 0) F_ZF e;
     e = CONDITIONAL_SET_FLAG (PARITY (res e AND 0xFF)) F_PF e;
     e = CLEAR_FLAG F_CF e
   in e)"

definition uf_adc8 :: "'a emu_scheme \<Rightarrow> 'a emu_scheme" where
  "uf_adc8 e = (let
     e = CONDITIONAL_SET_FLAG (res e AND 0x100 \<noteq> 0) F_CF e;
     e = CONDITIONAL_SET_FLAG (res e AND 0xFF = 0) F_ZF e;
     e = CONDITIONAL_SET_FLAG (res e AND 0x80 \<noteq> 0) F_SF e;
     e = CONDITIONAL_SET_FLAG (PARITY (res e AND 0xFF)) F_PF e;
     cc = (op1 e AND op2 e) OR (NOT (res e) AND (op1 e OR op2 e));
     e = CONDITIONAL_SET_FLAG (XOR2 (drop_bit 6 cc) \<noteq> 0) F_OF e;
     e = CONDITIONAL_SET_FLAG (cc AND 0x8 \<noteq> 0) F_AF e
   in e)"

definition uf_adc16 :: "'a emu_scheme \<Rightarrow> 'a emu_scheme" where
  "uf_adc16 e = (let
     e = CONDITIONAL_SET_FLAG (res e AND 0x10000 \<noteq> 0) F_CF e;
     e = CONDITIONAL_SET_FLAG (res e AND 0xFFFF = 0) F_ZF e;
     e = CONDITIONAL_SET_FLAG (res e AND 0x8000 \<noteq> 0) F_SF e;
     e = CONDITIONAL_SET_FLAG (PARITY (res e AND 0xFF)) F_PF e;
     cc = (op1 e AND op2 e) OR (NOT (res e) AND (op1 e OR op2 e));
     e = CONDITIONAL_SET_FLAG (XOR2 (drop_bit 14 cc) \<noteq> 0) F_OF e;
     e = CONDITIONAL_SET_FLAG (cc AND 0x8 \<noteq> 0) F_AF e
   in e)"

definition uf_adc32 :: "'a emu_scheme \<Rightarrow> 'a emu_scheme" where
  "uf_adc32 e = (let
     lo = (if res e = op1 e + op2 e then (op1 e AND 0xFFFF) + (op2 e AND 0xFFFF)
           else 1 + (op1 e AND 0xFFFF) + (op2 e AND 0xFFFF));
     hi = drop_bit 16 lo + drop_bit 16 (op1 e) + drop_bit 16 (op2 e);
     e = CONDITIONAL_SET_FLAG (hi AND 0x10000 \<noteq> 0) F_CF e;
     e = CONDITIONAL_SET_FLAG (res e = 0) F_ZF e;
     e = CONDITIONAL_SET_FLAG (res e AND 0x80000000 \<noteq> 0) F_SF e;
     e = CONDITIONAL_SET_FLAG (PARITY (res e AND 0xFF)) F_PF e;
     cc = (op2 e AND op1 e) OR (NOT (res e) AND (op2 e OR op1 e));
     e = CONDITIONAL_SET_FLAG (XOR2 (drop_bit 30 cc) \<noteq> 0) F_OF e;
     e = CONDITIONAL_SET_FLAG (cc AND 0x8 \<noteq> 0) F_AF e
   in e)"

definition uf_sbb8 :: "'a emu_scheme \<Rightarrow> 'a emu_scheme" where
  "uf_sbb8 e = (let
     e = CONDITIONAL_SET_FLAG (res e AND 0x80 \<noteq> 0) F_SF e;
     e = CONDITIONAL_SET_FLAG (res e AND 0xFF = 0) F_ZF e;
     e = CONDITIONAL_SET_FLAG (PARITY (res e AND 0xFF)) F_PF e;
     bc = (res e AND (NOT (op1 e) OR op2 e)) OR (NOT (op1 e) AND op2 e);
     e = CONDITIONAL_SET_FLAG (bc AND 0x80 \<noteq> 0) F_CF e;
     e = CONDITIONAL_SET_FLAG (XOR2 (drop_bit 6 bc) \<noteq> 0) F_OF e;
     e = CONDITIONAL_SET_FLAG (bc AND 0x8 \<noteq> 0) F_AF e
   in e)"

definition uf_sbb16 :: "'a emu_scheme \<Rightarrow> 'a emu_scheme" where
  "uf_sbb16 e = (let
     e = CONDITIONAL_SET_FLAG (res e AND 0x8000 \<noteq> 0) F_SF e;
     e = CONDITIONAL_SET_FLAG (res e AND 0xFFFF = 0) F_ZF e;
     e = CONDITIONAL_SET_FLAG (PARITY (res e AND 0xFF)) F_PF e;
     bc = (res e AND (NOT (op1 e) OR op2 e)) OR (NOT (op1 e) AND op2 e);
     e = CONDITIONAL_SET_FLAG (bc AND 0x8000 \<noteq> 0) F_CF e;
     e = CONDITIONAL_SET_FLAG (XOR2 (drop_bit 14 bc) \<noteq> 0) F_OF e;
     e = CONDITIONAL_SET_FLAG (bc AND 0x8 \<noteq> 0) F_AF e
   in e)"

definition uf_sbb32 :: "'a emu_scheme \<Rightarrow> 'a emu_scheme" where
  "uf_sbb32 e = (let
     e = CONDITIONAL_SET_FLAG (res e AND 0x80000000 \<noteq> 0) F_SF e;
     e = CONDITIONAL_SET_FLAG (res e = 0) F_ZF e;
     e = CONDITIONAL_SET_FLAG (PARITY (res e AND 0xFF)) F_PF e;
     bc = (res e AND (NOT (op1 e) OR op2 e)) OR (NOT (op1 e) AND op2 e);
     e = CONDITIONAL_SET_FLAG (bc AND 0x80000000 \<noteq> 0) F_CF e;
     e = CONDITIONAL_SET_FLAG (XOR2 (drop_bit 30 bc) \<noteq> 0) F_OF e;
     e = CONDITIONAL_SET_FLAG (bc AND 0x8 \<noteq> 0) F_AF e
   in e)"

definition uf_rol8 :: "'a emu_scheme \<Rightarrow> 'a emu_scheme" where
  "uf_rol8 e = (let
     e = if op2 e = 1 then CONDITIONAL_SET_FLAG ((res e + drop_bit 7 (res e)) AND 1 \<noteq> 0) F_OF e else e;
     e = CONDITIONAL_SET_FLAG (res e AND 0x1 \<noteq> 0) F_CF e
   in e)"

definition uf_rol16 :: "'a emu_scheme \<Rightarrow> 'a emu_scheme" where
  "uf_rol16 e = (let
     e = if op2 e = 1 then CONDITIONAL_SET_FLAG ((res e + drop_bit 15 (res e)) AND 1 \<noteq> 0) F_OF e else e;
     e = CONDITIONAL_SET_FLAG (res e AND 0x1 \<noteq> 0) F_CF e
   in e)"

definition uf_rol32 :: "'a emu_scheme \<Rightarrow> 'a emu_scheme" where
  "uf_rol32 e = (let
     e = if op2 e = 1 then CONDITIONAL_SET_FLAG ((res e + drop_bit 31 (res e)) AND 1 \<noteq> 0) F_OF e else e;
     e = CONDITIONAL_SET_FLAG (res e AND 0x1 \<noteq> 0) F_CF e
   in e)"

definition uf_ror8 :: "'a emu_scheme \<Rightarrow> 'a emu_scheme" where
  "uf_ror8 e = (let
     e = if op2 e = 1 then CONDITIONAL_SET_FLAG (XOR2 (drop_bit 6 (res e)) \<noteq> 0) F_OF e else e;
     e = CONDITIONAL_SET_FLAG (res e AND push_bit 7 1 \<noteq> 0) F_CF e
   in e)"

definition uf_ror16 :: "'a emu_scheme \<Rightarrow> 'a emu_scheme" where
  "uf_ror16 e = (let
     e = if op2 e = 1 then CONDITIONAL_SET_FLAG (XOR2 (drop_bit 14 (res e)) \<noteq> 0) F_OF e else e;
     e = CONDITIONAL_SET_FLAG (res e AND push_bit 15 1 \<noteq> 0) F_CF e
   in e)"

definition uf_ror32 :: "'a emu_scheme \<Rightarrow> 'a emu_scheme" where
  "uf_ror32 e = (let
     e = if op2 e = 1 then CONDITIONAL_SET_FLAG (XOR2 (drop_bit 30 (res e)) \<noteq> 0) F_OF e else e;
     e = CONDITIONAL_SET_FLAG (res e AND push_bit 31 1 \<noteq> 0) F_CF e
   in e)"

definition UpdateFlags :: "'a emu_scheme \<Rightarrow> 'a emu_scheme" where
  "UpdateFlags e = (case df e of
     d_none \<Rightarrow> e
   | d_add w \<Rightarrow> RESET_FLAGS (case w of W8 \<Rightarrow> uf_add8 e | W16 \<Rightarrow> uf_add16 e | W32 \<Rightarrow> uf_add32 e)
   | d_and w \<Rightarrow> RESET_FLAGS (case w of W8 \<Rightarrow> uf_and8 e | W16 \<Rightarrow> uf_and16 e | W32 \<Rightarrow> uf_and32 e)
   | d_dec w \<Rightarrow> RESET_FLAGS (case w of W8 \<Rightarrow> uf_dec8 e | W16 \<Rightarrow> uf_dec16 e | W32 \<Rightarrow> uf_dec32 e)
   | d_inc w \<Rightarrow> RESET_FLAGS (case w of W8 \<Rightarrow> uf_inc8 e | W16 \<Rightarrow> uf_inc16 e | W32 \<Rightarrow> uf_inc32 e)
   | d_imul w \<Rightarrow> RESET_FLAGS (case w of W8 \<Rightarrow> uf_imul8 e | W16 \<Rightarrow> uf_imul16 e | W32 \<Rightarrow> uf_imul32 e)
   | d_or w \<Rightarrow> RESET_FLAGS (case w of W8 \<Rightarrow> uf_or8 e | W16 \<Rightarrow> uf_or16 e | W32 \<Rightarrow> uf_or32 e)
   | d_mul w \<Rightarrow> RESET_FLAGS (case w of W8 \<Rightarrow> uf_mul8 e | W16 \<Rightarrow> uf_mul16 e | W32 \<Rightarrow> uf_mul32 e)
   | d_neg w \<Rightarrow> RESET_FLAGS (case w of W8 \<Rightarrow> uf_neg8 e | W16 \<Rightarrow> uf_neg16 e | W32 \<Rightarrow> uf_neg32 e)
   | d_shl w \<Rightarrow> RESET_FLAGS (case w of W8 \<Rightarrow> uf_shl8 e | W16 \<Rightarrow> uf_shl16 e | W32 \<Rightarrow> uf_shl32 e)
   | d_shr w \<Rightarrow> RESET_FLAGS (case w of W8 \<Rightarrow> uf_shr8 e | W16 \<Rightarrow> uf_shr16 e | W32 \<Rightarrow> uf_shr32 e)
   | d_sar w \<Rightarrow> RESET_FLAGS (case w of W8 \<Rightarrow> uf_sar8 e | W16 \<Rightarrow> uf_sar16 e | W32 \<Rightarrow> uf_sar32 e)
   | d_sub w \<Rightarrow> RESET_FLAGS (case w of W8 \<Rightarrow> uf_sub8 e | W16 \<Rightarrow> uf_sub16 e | W32 \<Rightarrow> uf_sub32 e)
   | d_xor w \<Rightarrow> RESET_FLAGS (case w of W8 \<Rightarrow> uf_xor8 e | W16 \<Rightarrow> uf_xor16 e | W32 \<Rightarrow> uf_xor32 e)
   | d_cmp w \<Rightarrow> RESET_FLAGS (case w of W8 \<Rightarrow> uf_cmp8 e | W16 \<Rightarrow> uf_cmp16 e | W32 \<Rightarrow> uf_cmp32 e)
   | d_tst w \<Rightarrow> RESET_FLAGS (case w of W8 \<Rightarrow> uf_tst8 e | W16 \<Rightarrow> uf_tst16 e | W32 \<Rightarrow> uf_tst32 e)
   | d_adc w \<Rightarrow> RESET_FLAGS (case w of W8 \<Rightarrow> uf_adc8 e | W16 \<Rightarrow> uf_adc16 e | W32 \<Rightarrow> uf_adc32 e)
   | d_sbb w \<Rightarrow> RESET_FLAGS (case w of W8 \<Rightarrow> uf_sbb8 e | W16 \<Rightarrow> uf_sbb16 e | W32 \<Rightarrow> uf_sbb32 e)
   | d_rol w \<Rightarrow> RESET_FLAGS (case w of W8 \<Rightarrow> uf_rol8 e | W16 \<Rightarrow> uf_rol16 e | W32 \<Rightarrow> uf_rol32 e)
   | d_ror w \<Rightarrow> RESET_FLAGS (case w of W8 \<Rightarrow> uf_ror8 e | W16 \<Rightarrow> uf_ror16 e | W32 \<Rightarrow> uf_ror32 e)
   | d_rcl w \<Rightarrow> RESET_FLAGS (case w of W8 \<Rightarrow> uf_rcl8 e | W16 \<Rightarrow> uf_rcl16 e | W32 \<Rightarrow> uf_rcl32 e)
   | d_rcr w \<Rightarrow> RESET_FLAGS (case w of W8 \<Rightarrow> uf_rcr8 e | W16 \<Rightarrow> uf_rcr16 e | W32 \<Rightarrow> uf_rcr32 e)
   | d_shld32 \<Rightarrow> RESET_FLAGS (uf_shld32 e)
   | d_shrd32 \<Rightarrow> RESET_FLAGS (uf_shrd32 e)
   | d_unknown \<Rightarrow> RESET_FLAGS e)"

definition CHECK_FLAGS :: "'a emu_scheme \<Rightarrow> 'a emu_scheme" where
  "CHECK_FLAGS e = (if df e \<noteq> d_none then UpdateFlags e else e)"

lemmas uf_cases [uf_defs] =
  uf_add8_def uf_add16_def uf_add32_def uf_and8_def
  uf_and16_def uf_and32_def uf_dec8_def uf_dec16_def
  uf_dec32_def uf_inc8_def uf_inc16_def uf_inc32_def
  uf_imul8_def uf_imul16_def uf_imul32_def uf_mul8_def
  uf_mul16_def uf_mul32_def uf_or8_def uf_or16_def
  uf_or32_def uf_neg8_def uf_neg16_def uf_neg32_def
  uf_rcl8_def uf_rcl16_def uf_rcl32_def uf_rcr8_def
  uf_rcr16_def uf_rcr32_def uf_shl8_def uf_shl16_def
  uf_shl32_def uf_sar8_def uf_sar16_def uf_sar32_def
  uf_shr8_def uf_shr16_def uf_shr32_def uf_shrd32_def
  uf_shld32_def uf_sub8_def uf_sub16_def uf_sub32_def
  uf_xor8_def uf_xor16_def uf_xor32_def uf_cmp8_def
  uf_cmp16_def uf_cmp32_def uf_tst8_def uf_tst16_def
  uf_tst32_def uf_adc8_def uf_adc16_def uf_adc32_def
  uf_sbb8_def uf_sbb16_def uf_sbb32_def uf_rol8_def
  uf_rol16_def uf_rol32_def uf_ror8_def uf_ror16_def
  uf_ror32_def

section \<open>Frame\<close>

lemma if_frame [frame_simps]:
  "erase_flags (if b then x else y) = (if b then erase_flags x else erase_flags y)"
  "df (if b then x else y) = (if b then df x else df y)"
  by simp_all

lemma uf_frame [frame_simps]:
  "erase_flags (uf_add8 e) = erase_flags e"
  "erase_flags (uf_add16 e) = erase_flags e"
  "erase_flags (uf_add32 e) = erase_flags e"
  "erase_flags (uf_and8 e) = erase_flags e"
  "erase_flags (uf_and16 e) = erase_flags e"
  "erase_flags (uf_and32 e) = erase_flags e"
  "erase_flags (uf_dec8 e) = erase_flags e"
  "erase_flags (uf_dec16 e) = erase_flags e"
  "erase_flags (uf_dec32 e) = erase_flags e"
  "erase_flags (uf_inc8 e) = erase_flags e"
  "erase_flags (uf_inc16 e) = erase_flags e"
  "erase_flags (uf_inc32 e) = erase_flags e"
  "erase_flags (uf_imul8 e) = erase_flags e"
  "erase_flags (uf_imul16 e) = erase_flags e"
  "erase_flags (uf_imul32 e) = erase_flags e"
  "erase_flags (uf_mul8 e) = erase_flags e"
  "erase_flags (uf_mul16 e) = erase_flags e"
  "erase_flags (uf_mul32 e) = erase_flags e"
  "erase_flags (uf_or8 e) = erase_flags e"
  "erase_flags (uf_or16 e) = erase_flags e"
  "erase_flags (uf_or32 e) = erase_flags e"
  "erase_flags (uf_neg8 e) = erase_flags e"
  "erase_flags (uf_neg16 e) = erase_flags e"
  "erase_flags (uf_neg32 e) = erase_flags e"
  "erase_flags (uf_rcl8 e) = erase_flags e"
  "erase_flags (uf_rcl16 e) = erase_flags e"
  "erase_flags (uf_rcl32 e) = erase_flags e"
  "erase_flags (uf_rcr8 e) = erase_flags e"
  "erase_flags (uf_rcr16 e) = erase_flags e"
  "erase_flags (uf_rcr32 e) = erase_flags e"
  "erase_flags (uf_shl8 e) = erase_flags e"
  "erase_flags (uf_shl16 e) = erase_flags e"
  "erase_flags (uf_shl32 e) = erase_flags e"
  "erase_flags (uf_sar8 e) = erase_flags e"
  "erase_flags (uf_sar16 e) = erase_flags e"
  "erase_flags (uf_sar32 e) = erase_flags e"
  "erase_flags (uf_shr8 e) = erase_flags e"
  "erase_flags (uf_shr16 e) = erase_flags e"
  "erase_flags (uf_shr32 e) = erase_flags e"
  "erase_flags (uf_shrd32 e) = erase_flags e"
  "erase_flags (uf_shld32 e) = erase_flags e"
  "erase_flags (uf_sub8 e) = erase_flags e"
  "erase_flags (uf_sub16 e) = erase_flags e"
  "erase_flags (uf_sub32 e) = erase_flags e"
  "erase_flags (uf_xor8 e) = erase_flags e"
  "erase_flags (uf_xor16 e) = erase_flags e"
  "erase_flags (uf_xor32 e) = erase_flags e"
  "erase_flags (uf_cmp8 e) = erase_flags e"
  "erase_flags (uf_cmp16 e) = erase_flags e"
  "erase_flags (uf_cmp32 e) = erase_flags e"
  "erase_flags (uf_tst8 e) = erase_flags e"
  "erase_flags (uf_tst16 e) = erase_flags e"
  "erase_flags (uf_tst32 e) = erase_flags e"
  "erase_flags (uf_adc8 e) = erase_flags e"
  "erase_flags (uf_adc16 e) = erase_flags e"
  "erase_flags (uf_adc32 e) = erase_flags e"
  "erase_flags (uf_sbb8 e) = erase_flags e"
  "erase_flags (uf_sbb16 e) = erase_flags e"
  "erase_flags (uf_sbb32 e) = erase_flags e"
  "erase_flags (uf_rol8 e) = erase_flags e"
  "erase_flags (uf_rol16 e) = erase_flags e"
  "erase_flags (uf_rol32 e) = erase_flags e"
  "erase_flags (uf_ror8 e) = erase_flags e"
  "erase_flags (uf_ror16 e) = erase_flags e"
  "erase_flags (uf_ror32 e) = erase_flags e"
  by (simp_all add: uf_defs Let_def)

lemma UpdateFlags_frame [frame_simps, simp]: "erase_flags (UpdateFlags e) = erase_flags e"
  by (simp add: UpdateFlags_def frame_simps split: defered_flags_t.split width.split)

lemma UpdateFlags_df [simp]: "df (UpdateFlags e) = d_none"
  by (simp add: UpdateFlags_def split: defered_flags_t.split)

lemma UpdateFlags_none [simp]: "df e = d_none \<Longrightarrow> UpdateFlags e = e"
  by (simp add: UpdateFlags_def)

text \<open>What \<open>UpdateFlags\<close> does when the tag is known.\<close>

lemma UpdateFlags_tag:
  "df e = d_add8 \<Longrightarrow> UpdateFlags e = RESET_FLAGS (uf_add8 e)"
  "df e = d_add16 \<Longrightarrow> UpdateFlags e = RESET_FLAGS (uf_add16 e)"
  "df e = d_add32 \<Longrightarrow> UpdateFlags e = RESET_FLAGS (uf_add32 e)"
  "df e = d_and8 \<Longrightarrow> UpdateFlags e = RESET_FLAGS (uf_and8 e)"
  "df e = d_and16 \<Longrightarrow> UpdateFlags e = RESET_FLAGS (uf_and16 e)"
  "df e = d_and32 \<Longrightarrow> UpdateFlags e = RESET_FLAGS (uf_and32 e)"
  "df e = d_dec8 \<Longrightarrow> UpdateFlags e = RESET_FLAGS (uf_dec8 e)"
  "df e = d_dec16 \<Longrightarrow> UpdateFlags e = RESET_FLAGS (uf_dec16 e)"
  "df e = d_dec32 \<Longrightarrow> UpdateFlags e = RESET_FLAGS (uf_dec32 e)"
  "df e = d_inc8 \<Longrightarrow> UpdateFlags e = RESET_FLAGS (uf_inc8 e)"
  "df e = d_inc16 \<Longrightarrow> UpdateFlags e = RESET_FLAGS (uf_inc16 e)"
  "df e = d_inc32 \<Longrightarrow> UpdateFlags e = RESET_FLAGS (uf_inc32 e)"
  "df e = d_imul8 \<Longrightarrow> UpdateFlags e = RESET_FLAGS (uf_imul8 e)"
  "df e = d_imul16 \<Longrightarrow> UpdateFlags e = RESET_FLAGS (uf_imul16 e)"
  "df e = d_imul32 \<Longrightarrow> UpdateFlags e = RESET_FLAGS (uf_imul32 e)"
  "df e = d_or8 \<Longrightarrow> UpdateFlags e = RESET_FLAGS (uf_or8 e)"
  "df e = d_or16 \<Longrightarrow> UpdateFlags e = RESET_FLAGS (uf_or16 e)"
  "df e = d_or32 \<Longrightarrow> UpdateFlags e = RESET_FLAGS (uf_or32 e)"
  "df e = d_mul8 \<Longrightarrow> UpdateFlags e = RESET_FLAGS (uf_mul8 e)"
  "df e = d_mul16 \<Longrightarrow> UpdateFlags e = RESET_FLAGS (uf_mul16 e)"
  "df e = d_mul32 \<Longrightarrow> UpdateFlags e = RESET_FLAGS (uf_mul32 e)"
  "df e = d_neg8 \<Longrightarrow> UpdateFlags e = RESET_FLAGS (uf_neg8 e)"
  "df e = d_neg16 \<Longrightarrow> UpdateFlags e = RESET_FLAGS (uf_neg16 e)"
  "df e = d_neg32 \<Longrightarrow> UpdateFlags e = RESET_FLAGS (uf_neg32 e)"
  "df e = d_shl8 \<Longrightarrow> UpdateFlags e = RESET_FLAGS (uf_shl8 e)"
  "df e = d_shl16 \<Longrightarrow> UpdateFlags e = RESET_FLAGS (uf_shl16 e)"
  "df e = d_shl32 \<Longrightarrow> UpdateFlags e = RESET_FLAGS (uf_shl32 e)"
  "df e = d_shr8 \<Longrightarrow> UpdateFlags e = RESET_FLAGS (uf_shr8 e)"
  "df e = d_shr16 \<Longrightarrow> UpdateFlags e = RESET_FLAGS (uf_shr16 e)"
  "df e = d_shr32 \<Longrightarrow> UpdateFlags e = RESET_FLAGS (uf_shr32 e)"
  "df e = d_sar8 \<Longrightarrow> UpdateFlags e = RESET_FLAGS (uf_sar8 e)"
  "df e = d_sar16 \<Longrightarrow> UpdateFlags e = RESET_FLAGS (uf_sar16 e)"
  "df e = d_sar32 \<Longrightarrow> UpdateFlags e = RESET_FLAGS (uf_sar32 e)"
  "df e = d_sub8 \<Longrightarrow> UpdateFlags e = RESET_FLAGS (uf_sub8 e)"
  "df e = d_sub16 \<Longrightarrow> UpdateFlags e = RESET_FLAGS (uf_sub16 e)"
  "df e = d_sub32 \<Longrightarrow> UpdateFlags e = RESET_FLAGS (uf_sub32 e)"
  "df e = d_xor8 \<Longrightarrow> UpdateFlags e = RESET_FLAGS (uf_xor8 e)"
  "df e = d_xor16 \<Longrightarrow> UpdateFlags e = RESET_FLAGS (uf_xor16 e)"
  "df e = d_xor32 \<Longrightarrow> UpdateFlags e = RESET_FLAGS (uf_xor32 e)"
  "df e = d_cmp8 \<Longrightarrow> UpdateFlags e = RESET_FLAGS (uf_cmp8 e)"
  "df e = d_cmp16 \<Longrightarrow> UpdateFlags e = RESET_FLAGS (uf_cmp16 e)"
  "df e = d_cmp32 \<Longrightarrow> UpdateFlags e = RESET_FLAGS (uf_cmp32 e)"
  "df e = d_tst8 \<Longrightarrow> UpdateFlags e = RESET_FLAGS (uf_tst8 e)"
  "df e = d_tst16 \<Longrightarrow> UpdateFlags e = RESET_FLAGS (uf_tst16 e)"
  "df e = d_tst32 \<Longrightarrow> UpdateFlags e = RESET_FLAGS (uf_tst32 e)"
  "df e = d_adc8 \<Longrightarrow> UpdateFlags e = RESET_FLAGS (uf_adc8 e)"
  "df e = d_adc16 \<Longrightarrow> UpdateFlags e = RESET_FLAGS (uf_adc16 e)"
  "df e = d_adc32 \<Longrightarrow> UpdateFlags e = RESET_FLAGS (uf_adc32 e)"
  "df e = d_sbb8 \<Longrightarrow> UpdateFlags e = RESET_FLAGS (uf_sbb8 e)"
  "df e = d_sbb16 \<Longrightarrow> UpdateFlags e = RESET_FLAGS (uf_sbb16 e)"
  "df e = d_sbb32 \<Longrightarrow> UpdateFlags e = RESET_FLAGS (uf_sbb32 e)"
  "df e = d_rol8 \<Longrightarrow> UpdateFlags e = RESET_FLAGS (uf_rol8 e)"
  "df e = d_rol16 \<Longrightarrow> UpdateFlags e = RESET_FLAGS (uf_rol16 e)"
  "df e = d_rol32 \<Longrightarrow> UpdateFlags e = RESET_FLAGS (uf_rol32 e)"
  "df e = d_ror8 \<Longrightarrow> UpdateFlags e = RESET_FLAGS (uf_ror8 e)"
  "df e = d_ror16 \<Longrightarrow> UpdateFlags e = RESET_FLAGS (uf_ror16 e)"
  "df e = d_ror32 \<Longrightarrow> UpdateFlags e = RESET_FLAGS (uf_ror32 e)"
  "df e = d_rcl8 \<Longrightarrow> UpdateFlags e = RESET_FLAGS (uf_rcl8 e)"
  "df e = d_rcl16 \<Longrightarrow> UpdateFlags e = RESET_FLAGS (uf_rcl16 e)"
  "df e = d_rcl32 \<Longrightarrow> UpdateFlags e = RESET_FLAGS (uf_rcl32 e)"
  "df e = d_rcr8 \<Longrightarrow> UpdateFlags e = RESET_FLAGS (uf_rcr8 e)"
  "df e = d_rcr16 \<Longrightarrow> UpdateFlags e = RESET_FLAGS (uf_rcr16 e)"
  "df e = d_rcr32 \<Longrightarrow> UpdateFlags e = RESET_FLAGS (uf_rcr32 e)"
  "df e = d_shld32 \<Longrightarrow> UpdateFlags e = RESET_FLAGS (uf_shld32 e)"
  "df e = d_shrd32 \<Longrightarrow> UpdateFlags e = RESET_FLAGS (uf_shrd32 e)"
  by (simp_all add: UpdateFlags_def)

lemma CHECK_FLAGS_eq [simp]: "CHECK_FLAGS e = UpdateFlags e"
  by (simp add: CHECK_FLAGS_def)

end
