(* ===== verification/ArchSpec.thy ===== *)
theory ArchSpec
  imports Flags
begin

unbundle bit_operations_syntax

text \<open>
  The reference the emulator is checked against: the six status flags as the IA-32
  architecture defines them for addition, subtraction and the logical operations, on the
  mathematical values of the operands and for any width. \<open>visible_flags\<close> is what a program
  running in the emulator sees: the status flags after the pending operation, if there is
  one, has been evaluated. The rest of the theory connects the two: the carry and borrow
  chains on the 32-bit fields of the emulator, read at the bits of the operand's width.
\<close>

section \<open>Status flags\<close>

record aflags =
  a_CF :: bool
  a_PF :: bool
  a_AF :: bool
  a_ZF :: bool
  a_SF :: bool
  a_OF :: bool

definition status_flags :: "'a emu_scheme \<Rightarrow> aflags" where
  "status_flags e =
     \<lparr>a_CF = ACCESS_FLAG F_CF e, a_PF = ACCESS_FLAG F_PF e, a_AF = ACCESS_FLAG F_AF e,
      a_ZF = ACCESS_FLAG F_ZF e, a_SF = ACCESS_FLAG F_SF e, a_OF = ACCESS_FLAG F_OF e\<rparr>"

definition visible_flags :: "'a emu_scheme \<Rightarrow> aflags" where
  "visible_flags e = status_flags (UpdateFlags e)"

definition signed_range :: "'a::len itself \<Rightarrow> int set" where
  "signed_range _ = {- (2 ^ (LENGTH('a) - 1)) ..< 2 ^ (LENGTH('a) - 1)}"

definition arch_add :: "'a::len word \<Rightarrow> 'a word \<Rightarrow> bool \<Rightarrow> aflags" where
  "arch_add d s c =
     \<lparr>a_CF = (2 ^ LENGTH('a) \<le> uint d + uint s + of_bool c),
      a_PF = even_parity (d + s + of_bool c),
      a_AF = (16 \<le> uint d mod 16 + uint s mod 16 + of_bool c),
      a_ZF = (d + s + of_bool c = 0),
      a_SF = (sint (d + s + of_bool c) < 0),
      a_OF = (sint d + sint s + of_bool c \<notin> signed_range TYPE('a))\<rparr>"

definition arch_sub :: "'a::len word \<Rightarrow> 'a word \<Rightarrow> bool \<Rightarrow> aflags" where
  "arch_sub d s c =
     \<lparr>a_CF = (uint d < uint s + of_bool c),
      a_PF = even_parity (d - s - of_bool c),
      a_AF = (uint d mod 16 < uint s mod 16 + of_bool c),
      a_ZF = (d - s - of_bool c = 0),
      a_SF = (sint (d - s - of_bool c) < 0),
      a_OF = (sint d - sint s - of_bool c \<notin> signed_range TYPE('a))\<rparr>"

text \<open>AND, OR and XOR clear CF and OF; AF, which the architecture leaves undefined, is cleared.\<close>

definition arch_logic :: "'a::len word \<Rightarrow> aflags" where
  "arch_logic r =
     \<lparr>a_CF = False, a_PF = even_parity r, a_AF = False, a_ZF = (r = 0), a_SF = (sint r < 0),
      a_OF = False\<rparr>"

lemma visible_UpdateFlags [simp]: "visible_flags (UpdateFlags e) = visible_flags e"
  by (simp add: visible_flags_def)

lemma visible_eager: "df e = d_none \<Longrightarrow> visible_flags e = status_flags e"
  by (simp add: visible_flags_def)

lemma visible_CF: "ACCESS_FLAG F_CF (UpdateFlags e) = a_CF (visible_flags e)"
  by (simp add: visible_flags_def status_flags_def)

section \<open>The result at the operand's width\<close>

text \<open>
  The emulator computes on 32-bit fields, from operands zero-extended from 8, 16 or 32
  bits. Below the operand's width the field and the result agree, and the carry and borrow
  chains read there are those of the operands.
\<close>

lemma ucast32_wi:
  assumes "LENGTH('a::len) \<le> 32"
  shows "(ucast (word_of_int k :: u32) :: 'a word) = word_of_int k"
  using assms by (intro ucast_down_wi) (simp add: is_down)

lemma uint_ucast32: "LENGTH('a) \<le> 32 \<Longrightarrow> uint (ucast (d :: 'a::len word) :: u32) = uint d"
  by (simp add: uint_up_ucast is_up)

lemma add_low_bits:
  fixes d s :: "'a::len word"
  assumes "LENGTH('a) \<le> 32"
  shows "(ucast (ucast d + ucast s + of_bool c :: u32) :: 'a word) = d + s + of_bool c"
proof -
  have e: "(ucast d + ucast s + of_bool c :: u32) = word_of_int (uint d + uint s + of_bool c)" by simp
  show ?thesis unfolding e ucast32_wi [OF assms] by simp
qed

lemma sub_low_bits:
  fixes d s :: "'a::len word"
  assumes "LENGTH('a) \<le> 32"
  shows "(ucast (ucast d - ucast s - of_bool c :: u32) :: 'a word) = d - s - of_bool c"
proof -
  have e: "(ucast d - ucast s - of_bool c :: u32) = word_of_int (uint d - uint s - of_bool c)" by simp
  show ?thesis unfolding e ucast32_wi [OF assms] by simp
qed

lemma low_bit:
  fixes x :: u32
  assumes "LENGTH('a::len) \<le> 32" "n < LENGTH('a)"
  shows "bit x n \<longleftrightarrow> bit (ucast x :: 'a word) n"
  using assms by (simp add: bit_ucast_iff)

lemma even_parity_ucast:
  fixes x :: u32
  assumes "8 \<le> LENGTH('a::len)"
  shows "even_parity (ucast x :: 'a word) = even_parity x"
  using assms by (simp add: even_parity_def upt_8 bit_ucast_iff)

lemma sign_bit:
  fixes x :: u32
  assumes "LENGTH('a::len) \<le> 32"
  shows "bit x (LENGTH('a) - 1) \<longleftrightarrow> sint (ucast x :: 'a word) < 0"
  using low_bit [where 'a = 'a and x = x and n = "LENGTH('a) - 1"] assms bit_top_sint [of "ucast x :: 'a word"]
  by simp

section \<open>Carry, auxiliary carry and overflow\<close>

definition carry_chain :: "u32 \<Rightarrow> u32 \<Rightarrow> u32 \<Rightarrow> u32" where
  "carry_chain r d s = (d AND s) OR (NOT r AND (d OR s))"

definition borrow_chain :: "u32 \<Rightarrow> u32 \<Rightarrow> u32 \<Rightarrow> u32" where
  "borrow_chain r d s = (r AND (NOT d OR s)) OR (NOT d AND s)"

lemma carry_chain_bit:
  fixes d s :: "'a::len word"
  assumes "LENGTH('a) \<le> 32" "n < 32"
  shows "bit (carry_chain (ucast d + ucast s + of_bool c) (ucast d) (ucast s)) n \<longleftrightarrow>
    2 ^ Suc n \<le> take_bit (Suc n) (uint d) + take_bit (Suc n) (uint s) + of_bool c"
  unfolding carry_chain_def
  using carry_chain_word [of n "ucast d :: u32" "ucast s" c] assms
  by (simp add: uint_ucast32 del: take_bit_Suc)

lemma borrow_chain_bit:
  fixes d s :: "'a::len word"
  assumes "LENGTH('a) \<le> 32" "n < 32"
  shows "bit (borrow_chain (ucast d - ucast s - of_bool c) (ucast d) (ucast s)) n \<longleftrightarrow>
    take_bit (Suc n) (uint d) < take_bit (Suc n) (uint s) + of_bool c"
  unfolding borrow_chain_def
  using borrow_chain_word [of n "ucast d :: u32" "ucast s" c] assms
  by (simp add: uint_ucast32 del: take_bit_Suc)

lemma take_bit_4: "take_bit (Suc 3) (k::int) = k mod 16"
  by (simp add: take_bit_eq_mod)

lemma aux_carry:
  fixes d s :: "'a::len word"
  assumes "LENGTH('a) \<le> 32"
  shows "bit (carry_chain (ucast d + ucast s + of_bool c) (ucast d) (ucast s)) 3 \<longleftrightarrow>
      16 \<le> uint d mod 16 + uint s mod 16 + of_bool c"
    and "bit (borrow_chain (ucast d - ucast s - of_bool c) (ucast d) (ucast s)) 3 \<longleftrightarrow>
      uint d mod 16 < uint s mod 16 + of_bool c"
  using carry_chain_bit [OF assms, of 3 d s c] borrow_chain_bit [OF assms, of 3 d s c]
  by (simp_all only: take_bit_4) simp_all

lemma length_Suc_pred: "LENGTH('a::len) = Suc (LENGTH('a) - 1)"
  by simp

lemma borrow_out:
  fixes d s :: "'a::len word"
  assumes "LENGTH('a) \<le> 32"
  shows "bit (borrow_chain (ucast d - ucast s - of_bool c) (ucast d) (ucast s)) (LENGTH('a) - 1) \<longleftrightarrow>
    uint d < uint s + of_bool c"
proof -
  have "LENGTH('a) - 1 < 32" using assms by (simp add: less_le_trans [OF diff_less])
  from borrow_chain_bit [OF assms this, of d s c] show ?thesis
    by (simp only: length_Suc_pred [symmetric] take_bit_length_uint)
qed

lemma carry_out:
  fixes d s :: "'a::len word"
  assumes "LENGTH('a) \<le> 32"
  shows "bit (carry_chain (ucast d + ucast s + of_bool c) (ucast d) (ucast s)) (LENGTH('a) - 1) \<longleftrightarrow>
    2 ^ LENGTH('a) \<le> uint d + uint s + of_bool c"
proof -
  have "LENGTH('a) - 1 < 32" using assms by (simp add: less_le_trans [OF diff_less])
  from carry_chain_bit [OF assms this, of d s c] show ?thesis
    by (simp only: length_Suc_pred [symmetric] take_bit_length_uint)
qed

lemma sint_halves:
  fixes w :: "'a::len word"
  defines "h \<equiv> 2 ^ (LENGTH('a) - 1) :: int"
  shows "sint w = (if uint w < h then uint w else uint w - 2 * h)" "uint w < 2 * h"
proof -
  have p: "(2 :: int) ^ LENGTH('a) = 2 * h"
    by (simp only: h_def power_Suc [symmetric] length_Suc_pred [symmetric])
  show "sint w = (if uint w < h then uint w else uint w - 2 * h)"
    unfolding sint_cases p h_def ..
  have "uint w < 2 ^ LENGTH('a)" by simp
  then show "uint w < 2 * h" unfolding p .
qed

lemma add_overflow:
  fixes d s :: "'a::len word" and c :: bool
  assumes "LENGTH('a) \<le> 32" "2 \<le> LENGTH('a)"
  defines "cc \<equiv> carry_chain (ucast d + ucast s + of_bool c) (ucast d) (ucast s)"
  shows "bit cc (LENGTH('a) - 2) \<noteq> bit cc (LENGTH('a) - 1) \<longleftrightarrow>
    sint d + sint s + of_bool c \<notin> signed_range TYPE('a)"
proof -
  define h where "h = (2 :: int) ^ (LENGTH('a) - 1)"
  have n: "Suc (LENGTH('a) - 2) = LENGTH('a) - 1" using assms(2) by simp
  have "LENGTH('a) - 2 < 32" using assms(1) by (simp add: less_le_trans [OF diff_less])
  from carry_chain_bit [OF assms(1) this, of d s c]
  have lo: "bit cc (LENGTH('a) - 2) \<longleftrightarrow> h \<le> uint d mod h + uint s mod h + of_bool c"
    unfolding cc_def n by (simp add: take_bit_eq_mod h_def)
  have hi: "bit cc (LENGTH('a) - 1) \<longleftrightarrow> 2 * h \<le> uint d + uint s + of_bool c"
    unfolding cc_def carry_out [OF assms(1)] h_def power_Suc [symmetric] length_Suc_pred [symmetric] ..
  have r: "x \<notin> signed_range TYPE('a) \<longleftrightarrow> x < - h \<or> h \<le> x" for x
    by (auto simp: signed_range_def h_def)
  have sd: "sint w = (if uint w < h then uint w else uint w - 2 * h)" "uint w < 2 * h" for w :: "'a word"
    unfolding h_def by (fact sint_halves)+
  show ?thesis
    unfolding lo hi r sd(1) [of d] sd(1) [of s]
    using add_overflow_int [OF uint_ge_0 sd(2) [of d] uint_ge_0 sd(2) [of s]
        zero_less_eq_of_bool of_bool_less_eq_one, of c]
    unfolding Let_def by blast
qed

lemma sub_overflow:
  fixes d s :: "'a::len word" and c :: bool
  assumes "LENGTH('a) \<le> 32" "2 \<le> LENGTH('a)"
  defines "bc \<equiv> borrow_chain (ucast d - ucast s - of_bool c) (ucast d) (ucast s)"
  shows "bit bc (LENGTH('a) - 2) \<noteq> bit bc (LENGTH('a) - 1) \<longleftrightarrow>
    sint d - sint s - of_bool c \<notin> signed_range TYPE('a)"
proof -
  define h where "h = (2 :: int) ^ (LENGTH('a) - 1)"
  have n: "Suc (LENGTH('a) - 2) = LENGTH('a) - 1" using assms(2) by simp
  have "LENGTH('a) - 2 < 32" using assms(1) by (simp add: less_le_trans [OF diff_less])
  from borrow_chain_bit [OF assms(1) this, of d s c]
  have lo: "bit bc (LENGTH('a) - 2) \<longleftrightarrow> uint d mod h < uint s mod h + of_bool c"
    unfolding bc_def n by (simp add: take_bit_eq_mod h_def)
  have hi: "bit bc (LENGTH('a) - 1) \<longleftrightarrow> uint d < uint s + of_bool c"
    unfolding bc_def by (rule borrow_out [OF assms(1)])
  have r: "x \<notin> signed_range TYPE('a) \<longleftrightarrow> x < - h \<or> h \<le> x" for x
    by (auto simp: signed_range_def h_def)
  have sd: "sint w = (if uint w < h then uint w else uint w - 2 * h)" "uint w < 2 * h" for w :: "'a word"
    unfolding h_def by (fact sint_halves)+
  show ?thesis
    unfolding lo hi r sd(1) [of d] sd(1) [of s]
    using sub_overflow_int [OF uint_ge_0 sd(2) [of d] uint_ge_0 sd(2) [of s]
        zero_less_eq_of_bool of_bool_less_eq_one, of c]
    unfolding Let_def by blast
qed

section \<open>The flag computations of the source are the architecture's\<close>

text \<open>
  The source reads the carry of an 8- or 16-bit addition at the bit above the operand, in a
  32-bit result; a 32-bit addition splits the operands into half-words.
\<close>

lemma add_carry_above:
  fixes d s :: "'a::len word"
  assumes "LENGTH('a) < 32"
  shows "bit (ucast d + ucast s + of_bool c :: u32) LENGTH('a) \<longleftrightarrow>
    2 ^ LENGTH('a) \<le> uint d + uint s + of_bool c"
proof -
  have hi: "\<not> bit (uint w) LENGTH('a)" for w :: "'a word"
    by (simp add: bit_uint_iff)
  show ?thesis
    using assms bit_add_carry [of "uint d" "uint s" c "LENGTH('a)"] hi
    by (simp add: word_bit_sum(1) uint_ucast32)
qed

lemma bit_16_mod: "bit k 16 \<longleftrightarrow> 65536 \<le> k" if "0 \<le> k" "k < 131072" for k :: int
proof -
  have "k div 65536 = (if 65536 \<le> k then 1 else 0)" using that by auto
  then show ?thesis by (simp add: bit_iff_odd)
qed


lemma uint_small_word: "uint (word_of_int k :: u32) = k" if "0 \<le> k" "k < 4294967296"
  using that by (simp add: unsigned_of_int take_bit_int_eq_self)

lemma uint_half_words:
  fixes w :: u32
  shows "uint (w AND 0xFFFF) = uint w mod 65536" "uint (drop_bit 16 w) = uint w div 65536"
proof -
  have "w AND 0xFFFF = take_bit 16 w" by (simp add: take_bit_eq_mask mask_eq_exp_minus_1)
  then have "uint (w AND 0xFFFF) = take_bit 16 (uint w)" by (simp only: unsigned_take_bit_eq)
  then show "uint (w AND 0xFFFF) = uint w mod 65536" by (simp add: take_bit_eq_mod)
  show "uint (drop_bit 16 w) = uint w div 65536"
    by (simp add: drop_bit_eq_div uint_div)
qed

lemma uint_sum3:
  fixes x y z :: u32
  assumes "uint x + uint y + uint z < 4294967296"
  shows "uint (x + y + z) = uint x + uint y + uint z"
proof -
  have "x + y + z = word_of_int (uint x + uint y + uint z)" by simp
  then show ?thesis using uint_small_word [of "uint x + uint y + uint z"] assms by simp
qed


lemma half_word_sum:
  fixes x y dl dh sl sh k r c :: int
  assumes "x = 65536 * dh + dl" "0 \<le> dl" "dl < 65536" "0 \<le> x" "x < 4294967296"
    "y = 65536 * sh + sl" "0 \<le> sl" "sl < 65536" "0 \<le> y" "y < 4294967296"
    "dl + sl + c = 65536 * k + r" "0 \<le> r" "r < 65536" "0 \<le> c" "c \<le> 1"
  shows "0 \<le> k + dh + sh" "k + dh + sh < 131072" "65536 \<le> k + dh + sh \<longleftrightarrow> 4294967296 \<le> x + y + c"
  using assms by linarith+

lemma add_split_carry:
  fixes d s :: u32
  shows "bit (drop_bit 16 ((d AND 0xFFFF) + (s AND 0xFFFF) + of_bool c) + drop_bit 16 d + drop_bit 16 s) 16
    \<longleftrightarrow> 4294967296 \<le> uint d + uint s + of_bool c"
proof -
  define lo where "lo = (d AND 0xFFFF) + (s AND 0xFFFF) + of_bool c"
  define hi where "hi = drop_bit 16 lo + drop_bit 16 d + drop_bit 16 s"
  have ab: "0 \<le> uint w" "uint w < 4294967296" for w :: u32
    using uint_lt2p [of w] by simp_all
  have split: "x = 65536 * (x div 65536) + x mod 65536" "0 \<le> x mod 65536" "x mod 65536 < 65536" for x :: int
    by simp_all
  have c: "0 \<le> (of_bool c :: int)" "of_bool c \<le> (1 :: int)" by simp_all
  note sum = half_word_sum [OF split [of "uint d"] ab [of d] split [of "uint s"] ab [of s]
      split [of "uint d mod 65536 + uint s mod 65536 + of_bool c"] c]
  have lo: "uint lo = uint d mod 65536 + uint s mod 65536 + of_bool c"
    unfolding lo_def by (subst uint_sum3) (cases c; simp add: uint_half_words)+
  have hi: "uint hi = (uint d mod 65536 + uint s mod 65536 + of_bool c) div 65536
      + uint d div 65536 + uint s div 65536"
    unfolding hi_def lo [symmetric] uint_half_words(2) [symmetric]
    by (rule uint_sum3) (use sum(2) in \<open>simp only: uint_half_words lo\<close>)
  have "bit hi 16 \<longleftrightarrow> bit (uint hi) 16" by (simp add: bit_uint_iff)
  also have "\<dots> \<longleftrightarrow> 65536 \<le> uint hi"
    unfolding hi by (rule bit_16_mod [OF sum(1) sum(2)])
  also have "\<dots> \<longleftrightarrow> 4294967296 \<le> uint d + uint s + of_bool c"
    unfolding hi by (rule sum(3))
  finally show ?thesis unfolding hi_def lo_def .
qed
text \<open>
  One equation per width and direction: the flag expressions of the source, over the 32-bit
  result and the carry or borrow chain, are the architecture's flags of the operands.
\<close>

lemma add_flags8:
  fixes d s :: u8 and c :: bool
  defines "r \<equiv> ucast d + ucast s + of_bool c :: u32"
  defines "cc \<equiv> carry_chain r (ucast d) (ucast s)"
  shows "\<lparr>a_CF = (r AND 0x100 \<noteq> 0), a_PF = PARITY (r AND 0xFF), a_AF = (cc AND 8 \<noteq> 0),
      a_ZF = (r AND 0xFF = 0), a_SF = (r AND 0x80 \<noteq> 0), a_OF = (XOR2 (drop_bit 6 cc) \<noteq> 0)\<rparr> = arch_add d s c"
  using add_carry_above [of d s c] aux_carry(1) [of d s c] add_overflow [of d s c] add_low_bits [of d s c]
    sign_bit [where 'a = 8 and x = r] even_parity_ucast [where 'a = 8 and x = r]
  by (cases c) (simp_all add: arch_add_def mask_simps PARITY_even_parity cc_def r_def)

lemma sub_flags8:
  fixes d s :: u8 and c :: bool
  defines "r \<equiv> ucast d - ucast s - of_bool c :: u32"
  defines "bc \<equiv> borrow_chain r (ucast d) (ucast s)"
  shows "\<lparr>a_CF = (bc AND 0x80 \<noteq> 0), a_PF = PARITY (r AND 0xFF), a_AF = (bc AND 8 \<noteq> 0),
      a_ZF = (r AND 0xFF = 0), a_SF = (r AND 0x80 \<noteq> 0), a_OF = (XOR2 (drop_bit 6 bc) \<noteq> 0)\<rparr> = arch_sub d s c"
  using borrow_out [of d s c] aux_carry(2) [of d s c] sub_overflow [of d s c] sub_low_bits [of d s c]
    sign_bit [where 'a = 8 and x = r] even_parity_ucast [where 'a = 8 and x = r]
  by (cases c) (simp_all add: arch_sub_def mask_simps PARITY_even_parity bc_def r_def)

lemma add_flags16:
  fixes d s :: u16 and c :: bool
  defines "r \<equiv> ucast d + ucast s + of_bool c :: u32"
  defines "cc \<equiv> carry_chain r (ucast d) (ucast s)"
  shows "\<lparr>a_CF = (r AND 0x10000 \<noteq> 0), a_PF = PARITY (r AND 0xFF), a_AF = (cc AND 8 \<noteq> 0),
      a_ZF = (r AND 0xFFFF = 0), a_SF = (r AND 0x8000 \<noteq> 0), a_OF = (XOR2 (drop_bit 14 cc) \<noteq> 0)\<rparr> = arch_add d s c"
  using add_carry_above [of d s c] aux_carry(1) [of d s c] add_overflow [of d s c] add_low_bits [of d s c]
    sign_bit [where 'a = 16 and x = r] even_parity_ucast [where 'a = 16 and x = r]
  by (cases c) (simp_all add: arch_add_def mask_simps PARITY_even_parity cc_def r_def)

lemma sub_flags16:
  fixes d s :: u16 and c :: bool
  defines "r \<equiv> ucast d - ucast s - of_bool c :: u32"
  defines "bc \<equiv> borrow_chain r (ucast d) (ucast s)"
  shows "\<lparr>a_CF = (bc AND 0x8000 \<noteq> 0), a_PF = PARITY (r AND 0xFF), a_AF = (bc AND 8 \<noteq> 0),
      a_ZF = (r AND 0xFFFF = 0), a_SF = (r AND 0x8000 \<noteq> 0), a_OF = (XOR2 (drop_bit 14 bc) \<noteq> 0)\<rparr> = arch_sub d s c"
  using borrow_out [of d s c] aux_carry(2) [of d s c] sub_overflow [of d s c] sub_low_bits [of d s c]
    sign_bit [where 'a = 16 and x = r] even_parity_ucast [where 'a = 16 and x = r]
  by (cases c) (simp_all add: arch_sub_def mask_simps PARITY_even_parity bc_def r_def)

lemma add_flags32:
  fixes d s :: u32 and c :: bool
  defines "r \<equiv> d + s + of_bool c :: u32"
  defines "cc \<equiv> carry_chain r (d) (s)"
  shows "\<lparr>a_CF = ((drop_bit 16 ((d AND 0xFFFF) + (s AND 0xFFFF) + of_bool c) + drop_bit 16 d + drop_bit 16 s) AND 0x10000 \<noteq> 0), a_PF = PARITY (r AND 0xFF), a_AF = (cc AND 8 \<noteq> 0),
      a_ZF = (r = 0), a_SF = (r AND 0x80000000 \<noteq> 0), a_OF = (XOR2 (drop_bit 30 cc) \<noteq> 0)\<rparr> = arch_add d s c"
  using add_split_carry [of d s c] aux_carry(1) [of d s c] add_overflow [of d s c] add_low_bits [of d s c]
    sign_bit [where 'a = 32 and x = r] even_parity_ucast [where 'a = 32 and x = r]
  by (cases c) (simp_all add: arch_add_def mask_simps PARITY_even_parity cc_def r_def)

lemma sub_flags32:
  fixes d s :: u32 and c :: bool
  defines "r \<equiv> d - s - of_bool c :: u32"
  defines "bc \<equiv> borrow_chain r (d) (s)"
  shows "\<lparr>a_CF = (bc AND 0x80000000 \<noteq> 0), a_PF = PARITY (r AND 0xFF), a_AF = (bc AND 8 \<noteq> 0),
      a_ZF = (r = 0), a_SF = (r AND 0x80000000 \<noteq> 0), a_OF = (XOR2 (drop_bit 30 bc) \<noteq> 0)\<rparr> = arch_sub d s c"
  using borrow_out [of d s c] aux_carry(2) [of d s c] sub_overflow [of d s c] sub_low_bits [of d s c]
    sign_bit [where 'a = 32 and x = r] even_parity_ucast [where 'a = 32 and x = r]
  by (cases c) (simp_all add: arch_sub_def mask_simps PARITY_even_parity bc_def r_def)

lemma even_parity_up: "even_parity (ucast w :: u32) = even_parity w" if "8 \<le> LENGTH('a)" for w :: "'a::len word"
  using that by (simp add: even_parity_def upt_8 bit_ucast_iff bit_imp_le_length)

lemma ucast32_eq_0: "(ucast w :: u32) = 0 \<longleftrightarrow> w = 0" if "LENGTH('a) \<le> 32" for w :: "'a::len word"
  using that by (simp add: word_uint_eq_iff uint_ucast32)

lemma logic_flags:
  fixes r8 :: u8 and r16 :: u16 and r32 :: u32
  shows "\<lparr>a_CF = False, a_PF = PARITY (ucast r8 AND 0xFF), a_AF = False, a_ZF = ((ucast r8 :: u32) = 0),
      a_SF = ((ucast r8 :: u32) AND 0x80 \<noteq> 0), a_OF = False\<rparr> = arch_logic r8"
    "\<lparr>a_CF = False, a_PF = PARITY (ucast r16 AND 0xFF), a_AF = False, a_ZF = ((ucast r16 :: u32) = 0),
      a_SF = ((ucast r16 :: u32) AND 0x8000 \<noteq> 0), a_OF = False\<rparr> = arch_logic r16"
    "\<lparr>a_CF = False, a_PF = PARITY (r32 AND 0xFF), a_AF = False, a_ZF = (r32 = 0),
      a_SF = (r32 AND 0x80000000 \<noteq> 0), a_OF = False\<rparr> = arch_logic r32"
  using bit_top_sint [of r8] bit_top_sint [of r16] bit_top_sint [of r32]
  by (simp_all add: arch_logic_def mask_simps PARITY_even_parity bit_ucast_iff even_parity_up ucast32_eq_0)

end
