(* ===== verification/PrimopArith.thy ===== *)
theory PrimopArith
  imports ArchSpec
begin

unbundle bit_operations_syntax

text \<open>
  The addition, subtraction, comparison and logical primitives of \<open>src/emu/x86primop.h\<close> and
  \<open>src/emu/x86primop.c\<close>. After the definitions, the contract every two-operand primitive
  meets (a locale), its instances, and the theorems that tie the value, the flags a program
  sees and the frame of each primitive to the architecture.
\<close>

section \<open>Deferred primitives of \<open>x86primop.h\<close>\<close>

text \<open>
  The primitives that leave their operands and a tag behind. A primitive returns its value and
  the new state; C promotes the 8- and 16-bit operands to \<open>int\<close> before it computes, and the
  result is stored in the 32-bit field \<open>res\<close>.
\<close>

definition add8 :: "'a emu_scheme \<Rightarrow> u8 \<Rightarrow> u8 \<Rightarrow> u8 \<times> 'a emu_scheme" where
  "add8 e d s = (let
     e = e\<lparr>res := ucast d + ucast s\<rparr>;
     e = e\<lparr>op1 := ucast d\<rparr>;
     e = e\<lparr>op2 := ucast s\<rparr>;
     e = e\<lparr>df := d_add8\<rparr>
   in (ucast (res e), e))"

definition add16 :: "'a emu_scheme \<Rightarrow> u16 \<Rightarrow> u16 \<Rightarrow> u16 \<times> 'a emu_scheme" where
  "add16 e d s = (let
     e = e\<lparr>res := ucast d + ucast s\<rparr>;
     e = e\<lparr>op1 := ucast d\<rparr>;
     e = e\<lparr>op2 := ucast s\<rparr>;
     e = e\<lparr>df := d_add16\<rparr>
   in (ucast (res e), e))"

definition add32 :: "'a emu_scheme \<Rightarrow> u32 \<Rightarrow> u32 \<Rightarrow> u32 \<times> 'a emu_scheme" where
  "add32 e d s = (let
     e = e\<lparr>res := d + s\<rparr>;
     e = e\<lparr>op1 := d\<rparr>;
     e = e\<lparr>op2 := s\<rparr>;
     e = e\<lparr>df := d_add32\<rparr>
   in (res e, e))"

definition and8 :: "'a emu_scheme \<Rightarrow> u8 \<Rightarrow> u8 \<Rightarrow> u8 \<times> 'a emu_scheme" where
  "and8 e d s = (let
     e = e\<lparr>res := ucast d AND ucast s\<rparr>;
     e = e\<lparr>df := d_and8\<rparr>
   in (ucast (res e), e))"

definition and16 :: "'a emu_scheme \<Rightarrow> u16 \<Rightarrow> u16 \<Rightarrow> u16 \<times> 'a emu_scheme" where
  "and16 e d s = (let
     e = e\<lparr>res := ucast d AND ucast s\<rparr>;
     e = e\<lparr>df := d_and16\<rparr>
   in (ucast (res e), e))"

definition and32 :: "'a emu_scheme \<Rightarrow> u32 \<Rightarrow> u32 \<Rightarrow> u32 \<times> 'a emu_scheme" where
  "and32 e d s = (let
     e = e\<lparr>res := d AND s\<rparr>;
     e = e\<lparr>df := d_and32\<rparr>
   in (res e, e))"

definition dec8 :: "'a emu_scheme \<Rightarrow> u8 \<Rightarrow> u8 \<times> 'a emu_scheme" where
  "dec8 e d = (let
     e = CHECK_FLAGS e;
     e = e\<lparr>res := ucast d - 1\<rparr>;
     e = e\<lparr>op1 := ucast d\<rparr>;
     e = e\<lparr>df := d_dec8\<rparr>
   in (ucast (res e), e))"

definition dec16 :: "'a emu_scheme \<Rightarrow> u16 \<Rightarrow> u16 \<times> 'a emu_scheme" where
  "dec16 e d = (let
     e = CHECK_FLAGS e;
     e = e\<lparr>res := ucast d - 1\<rparr>;
     e = e\<lparr>op1 := ucast d\<rparr>;
     e = e\<lparr>df := d_dec16\<rparr>
   in (ucast (res e), e))"

definition dec32 :: "'a emu_scheme \<Rightarrow> u32 \<Rightarrow> u32 \<times> 'a emu_scheme" where
  "dec32 e d = (let
     e = CHECK_FLAGS e;
     e = e\<lparr>res := d - 1\<rparr>;
     e = e\<lparr>op1 := d\<rparr>;
     e = e\<lparr>df := d_dec32\<rparr>
   in (res e, e))"

definition inc8 :: "'a emu_scheme \<Rightarrow> u8 \<Rightarrow> u8 \<times> 'a emu_scheme" where
  "inc8 e d = (let
     e = CHECK_FLAGS e;
     e = e\<lparr>res := ucast d + 1\<rparr>;
     e = e\<lparr>op1 := ucast d\<rparr>;
     e = e\<lparr>df := d_inc8\<rparr>
   in (ucast (res e), e))"

definition inc16 :: "'a emu_scheme \<Rightarrow> u16 \<Rightarrow> u16 \<times> 'a emu_scheme" where
  "inc16 e d = (let
     e = CHECK_FLAGS e;
     e = e\<lparr>res := ucast d + 1\<rparr>;
     e = e\<lparr>op1 := ucast d\<rparr>;
     e = e\<lparr>df := d_inc16\<rparr>
   in (ucast (res e), e))"

definition inc32 :: "'a emu_scheme \<Rightarrow> u32 \<Rightarrow> u32 \<times> 'a emu_scheme" where
  "inc32 e d = (let
     e = CHECK_FLAGS e;
     e = e\<lparr>res := d + 1\<rparr>;
     e = e\<lparr>op1 := d\<rparr>;
     e = e\<lparr>df := d_inc32\<rparr>
   in (res e, e))"

definition or8 :: "'a emu_scheme \<Rightarrow> u8 \<Rightarrow> u8 \<Rightarrow> u8 \<times> 'a emu_scheme" where
  "or8 e d s = (let
     e = e\<lparr>res := ucast d OR ucast s\<rparr>;
     e = e\<lparr>df := d_or8\<rparr>
   in (ucast (res e), e))"

definition or16 :: "'a emu_scheme \<Rightarrow> u16 \<Rightarrow> u16 \<Rightarrow> u16 \<times> 'a emu_scheme" where
  "or16 e d s = (let
     e = e\<lparr>res := ucast d OR ucast s\<rparr>;
     e = e\<lparr>df := d_or16\<rparr>
   in (ucast (res e), e))"

definition or32 :: "'a emu_scheme \<Rightarrow> u32 \<Rightarrow> u32 \<Rightarrow> u32 \<times> 'a emu_scheme" where
  "or32 e d s = (let
     e = e\<lparr>res := d OR s\<rparr>;
     e = e\<lparr>df := d_or32\<rparr>
   in (res e, e))"

definition neg8 :: "'a emu_scheme \<Rightarrow> u8 \<Rightarrow> u8 \<times> 'a emu_scheme" where
  "neg8 e s = (let
     e = e\<lparr>res := ucast (- s)\<rparr>;
     e = e\<lparr>op1 := ucast s\<rparr>;
     e = e\<lparr>df := d_neg8\<rparr>
   in (ucast (res e), e))"

definition neg16 :: "'a emu_scheme \<Rightarrow> u16 \<Rightarrow> u16 \<times> 'a emu_scheme" where
  "neg16 e s = (let
     e = e\<lparr>res := ucast (- s)\<rparr>;
     e = e\<lparr>op1 := ucast s\<rparr>;
     e = e\<lparr>df := d_neg16\<rparr>
   in (ucast (res e), e))"

definition neg32 :: "'a emu_scheme \<Rightarrow> u32 \<Rightarrow> u32 \<times> 'a emu_scheme" where
  "neg32 e s = (let
     e = e\<lparr>res := - s\<rparr>;
     e = e\<lparr>op1 := s\<rparr>;
     e = e\<lparr>df := d_neg32\<rparr>
   in (res e, e))"

definition not8 :: "'a emu_scheme \<Rightarrow> u8 \<Rightarrow> u8 \<times> 'a emu_scheme" where
  "not8 e s = (NOT s, e)"

definition not16 :: "'a emu_scheme \<Rightarrow> u16 \<Rightarrow> u16 \<times> 'a emu_scheme" where
  "not16 e s = (NOT s, e)"

definition not32 :: "'a emu_scheme \<Rightarrow> u32 \<Rightarrow> u32 \<times> 'a emu_scheme" where
  "not32 e s = (NOT s, e)"

definition sub8 :: "'a emu_scheme \<Rightarrow> u8 \<Rightarrow> u8 \<Rightarrow> u8 \<times> 'a emu_scheme" where
  "sub8 e d s = (let
     e = e\<lparr>res := ucast d - ucast s\<rparr>;
     e = e\<lparr>op1 := ucast d\<rparr>;
     e = e\<lparr>op2 := ucast s\<rparr>;
     e = e\<lparr>df := d_sub8\<rparr>
   in (ucast (res e), e))"

definition sub16 :: "'a emu_scheme \<Rightarrow> u16 \<Rightarrow> u16 \<Rightarrow> u16 \<times> 'a emu_scheme" where
  "sub16 e d s = (let
     e = e\<lparr>res := ucast d - ucast s\<rparr>;
     e = e\<lparr>op1 := ucast d\<rparr>;
     e = e\<lparr>op2 := ucast s\<rparr>;
     e = e\<lparr>df := d_sub16\<rparr>
   in (ucast (res e), e))"

definition sub32 :: "'a emu_scheme \<Rightarrow> u32 \<Rightarrow> u32 \<Rightarrow> u32 \<times> 'a emu_scheme" where
  "sub32 e d s = (let
     e = e\<lparr>res := d - s\<rparr>;
     e = e\<lparr>op1 := d\<rparr>;
     e = e\<lparr>op2 := s\<rparr>;
     e = e\<lparr>df := d_sub32\<rparr>
   in (res e, e))"

definition xor8 :: "'a emu_scheme \<Rightarrow> u8 \<Rightarrow> u8 \<Rightarrow> u8 \<times> 'a emu_scheme" where
  "xor8 e d s = (let
     e = e\<lparr>res := ucast d XOR ucast s\<rparr>;
     e = e\<lparr>df := d_xor8\<rparr>
   in (ucast (res e), e))"

definition xor16 :: "'a emu_scheme \<Rightarrow> u16 \<Rightarrow> u16 \<Rightarrow> u16 \<times> 'a emu_scheme" where
  "xor16 e d s = (let
     e = e\<lparr>res := ucast d XOR ucast s\<rparr>;
     e = e\<lparr>df := d_xor16\<rparr>
   in (ucast (res e), e))"

definition xor32 :: "'a emu_scheme \<Rightarrow> u32 \<Rightarrow> u32 \<Rightarrow> u32 \<times> 'a emu_scheme" where
  "xor32 e d s = (let
     e = e\<lparr>res := d XOR s\<rparr>;
     e = e\<lparr>df := d_xor32\<rparr>
   in (res e, e))"

section \<open>Eager primitives of \<open>x86primop.c\<close>\<close>

text \<open>
  The primitives that compute their flags at once: they evaluate pending flags first when they
  read the carry (\<open>adc\<close>, \<open>sbb\<close>) and drop them otherwise.
\<close>

definition adc8 :: "'a emu_scheme \<Rightarrow> u8 \<Rightarrow> u8 \<Rightarrow> u8 \<times> 'a emu_scheme" where
  "adc8 e d s = (let
     e = CHECK_FLAGS e;
     r = (if ACCESS_FLAG F_CF e then 1 + ucast d + ucast s else ucast d + ucast s) :: u32;
     e = CONDITIONAL_SET_FLAG (r AND 0x100 \<noteq> 0) F_CF e;
     e = CONDITIONAL_SET_FLAG (r AND 0xFF = 0) F_ZF e;
     e = CONDITIONAL_SET_FLAG (r AND 0x80 \<noteq> 0) F_SF e;
     e = CONDITIONAL_SET_FLAG (PARITY (r AND 0xFF)) F_PF e;
     cc = (ucast s AND ucast d) OR (NOT r AND (ucast s OR ucast d));
     e = CONDITIONAL_SET_FLAG (XOR2 (drop_bit 6 cc) \<noteq> 0) F_OF e;
     e = CONDITIONAL_SET_FLAG (cc AND 0x8 \<noteq> 0) F_AF e
   in (ucast r, e))"

definition adc16 :: "'a emu_scheme \<Rightarrow> u16 \<Rightarrow> u16 \<Rightarrow> u16 \<times> 'a emu_scheme" where
  "adc16 e d s = (let
     e = CHECK_FLAGS e;
     r = (if ACCESS_FLAG F_CF e then 1 + ucast d + ucast s else ucast d + ucast s) :: u32;
     e = CONDITIONAL_SET_FLAG (r AND 0x10000 \<noteq> 0) F_CF e;
     e = CONDITIONAL_SET_FLAG (r AND 0xFFFF = 0) F_ZF e;
     e = CONDITIONAL_SET_FLAG (r AND 0x8000 \<noteq> 0) F_SF e;
     e = CONDITIONAL_SET_FLAG (PARITY (r AND 0xFF)) F_PF e;
     cc = (ucast s AND ucast d) OR (NOT r AND (ucast s OR ucast d));
     e = CONDITIONAL_SET_FLAG (XOR2 (drop_bit 14 cc) \<noteq> 0) F_OF e;
     e = CONDITIONAL_SET_FLAG (cc AND 0x8 \<noteq> 0) F_AF e
   in (ucast r, e))"

definition adc32 :: "'a emu_scheme \<Rightarrow> u32 \<Rightarrow> u32 \<Rightarrow> u32 \<times> 'a emu_scheme" where
  "adc32 e d s = (let
     e = CHECK_FLAGS e;
     lo = (if ACCESS_FLAG F_CF e then 1 + (d AND 0xFFFF) + (s AND 0xFFFF) else (d AND 0xFFFF) + (s AND 0xFFFF));
     r = (if ACCESS_FLAG F_CF e then 1 + d + s else d + s) :: u32;
     hi = drop_bit 16 lo + drop_bit 16 d + drop_bit 16 s;
     e = CONDITIONAL_SET_FLAG (hi AND 0x10000 \<noteq> 0) F_CF e;
     e = CONDITIONAL_SET_FLAG (r = 0) F_ZF e;
     e = CONDITIONAL_SET_FLAG (r AND 0x80000000 \<noteq> 0) F_SF e;
     e = CONDITIONAL_SET_FLAG (PARITY (r AND 0xFF)) F_PF e;
     cc = (s AND d) OR (NOT r AND (s OR d));
     e = CONDITIONAL_SET_FLAG (XOR2 (drop_bit 30 cc) \<noteq> 0) F_OF e;
     e = CONDITIONAL_SET_FLAG (cc AND 0x8 \<noteq> 0) F_AF e
   in (r, e))"

definition cmp8 :: "'a emu_scheme \<Rightarrow> u8 \<Rightarrow> u8 \<Rightarrow> u8 \<times> 'a emu_scheme" where
  "cmp8 e d s = (let
     e = RESET_FLAGS e;
     r = ucast d - ucast s :: u32;
     e = CLEAR_FLAG F_CF e;
     e = CONDITIONAL_SET_FLAG (r AND 0x80 \<noteq> 0) F_SF e;
     e = CONDITIONAL_SET_FLAG (r AND 0xFF = 0) F_ZF e;
     e = CONDITIONAL_SET_FLAG (PARITY (r AND 0xFF)) F_PF e;
     bc = (r AND (NOT (ucast d) OR ucast s)) OR (NOT (ucast d) AND ucast s);
     e = CONDITIONAL_SET_FLAG (bc AND 0x80 \<noteq> 0) F_CF e;
     e = CONDITIONAL_SET_FLAG (XOR2 (drop_bit 6 bc) \<noteq> 0) F_OF e;
     e = CONDITIONAL_SET_FLAG (bc AND 0x8 \<noteq> 0) F_AF e
   in (d, e))"

definition cmp16 :: "'a emu_scheme \<Rightarrow> u16 \<Rightarrow> u16 \<Rightarrow> u16 \<times> 'a emu_scheme" where
  "cmp16 e d s = (let
     e = RESET_FLAGS e;
     r = ucast d - ucast s :: u32;
     e = CONDITIONAL_SET_FLAG (r AND 0x8000 \<noteq> 0) F_SF e;
     e = CONDITIONAL_SET_FLAG (r AND 0xFFFF = 0) F_ZF e;
     e = CONDITIONAL_SET_FLAG (PARITY (r AND 0xFF)) F_PF e;
     bc = (r AND (NOT (ucast d) OR ucast s)) OR (NOT (ucast d) AND ucast s);
     e = CONDITIONAL_SET_FLAG (bc AND 0x8000 \<noteq> 0) F_CF e;
     e = CONDITIONAL_SET_FLAG (XOR2 (drop_bit 14 bc) \<noteq> 0) F_OF e;
     e = CONDITIONAL_SET_FLAG (bc AND 0x8 \<noteq> 0) F_AF e
   in (d, e))"

definition cmp32 :: "'a emu_scheme \<Rightarrow> u32 \<Rightarrow> u32 \<Rightarrow> u32 \<times> 'a emu_scheme" where
  "cmp32 e d s = (let
     e = RESET_FLAGS e;
     r = d - s :: u32;
     e = CONDITIONAL_SET_FLAG (r AND 0x80000000 \<noteq> 0) F_SF e;
     e = CONDITIONAL_SET_FLAG (r = 0) F_ZF e;
     e = CONDITIONAL_SET_FLAG (PARITY (r AND 0xFF)) F_PF e;
     bc = (r AND (NOT (d) OR s)) OR (NOT (d) AND s);
     e = CONDITIONAL_SET_FLAG (bc AND 0x80000000 \<noteq> 0) F_CF e;
     e = CONDITIONAL_SET_FLAG (XOR2 (drop_bit 30 bc) \<noteq> 0) F_OF e;
     e = CONDITIONAL_SET_FLAG (bc AND 0x8 \<noteq> 0) F_AF e
   in (d, e))"

definition sbb8 :: "'a emu_scheme \<Rightarrow> u8 \<Rightarrow> u8 \<Rightarrow> u8 \<times> 'a emu_scheme" where
  "sbb8 e d s = (let
     e = CHECK_FLAGS e;
     r = (if ACCESS_FLAG F_CF e then ucast d - ucast s - 1 else ucast d - ucast s) :: u32;
     e = CONDITIONAL_SET_FLAG (r AND 0x80 \<noteq> 0) F_SF e;
     e = CONDITIONAL_SET_FLAG (r AND 0xFF = 0) F_ZF e;
     e = CONDITIONAL_SET_FLAG (PARITY (r AND 0xFF)) F_PF e;
     bc = (r AND (NOT (ucast d) OR ucast s)) OR (NOT (ucast d) AND ucast s);
     e = CONDITIONAL_SET_FLAG (bc AND 0x80 \<noteq> 0) F_CF e;
     e = CONDITIONAL_SET_FLAG (XOR2 (drop_bit 6 bc) \<noteq> 0) F_OF e;
     e = CONDITIONAL_SET_FLAG (bc AND 0x8 \<noteq> 0) F_AF e
   in (ucast r, e))"

definition sbb16 :: "'a emu_scheme \<Rightarrow> u16 \<Rightarrow> u16 \<Rightarrow> u16 \<times> 'a emu_scheme" where
  "sbb16 e d s = (let
     e = CHECK_FLAGS e;
     r = (if ACCESS_FLAG F_CF e then ucast d - ucast s - 1 else ucast d - ucast s) :: u32;
     e = CONDITIONAL_SET_FLAG (r AND 0x8000 \<noteq> 0) F_SF e;
     e = CONDITIONAL_SET_FLAG (r AND 0xFFFF = 0) F_ZF e;
     e = CONDITIONAL_SET_FLAG (PARITY (r AND 0xFF)) F_PF e;
     bc = (r AND (NOT (ucast d) OR ucast s)) OR (NOT (ucast d) AND ucast s);
     e = CONDITIONAL_SET_FLAG (bc AND 0x8000 \<noteq> 0) F_CF e;
     e = CONDITIONAL_SET_FLAG (XOR2 (drop_bit 14 bc) \<noteq> 0) F_OF e;
     e = CONDITIONAL_SET_FLAG (bc AND 0x8 \<noteq> 0) F_AF e
   in (ucast r, e))"

definition sbb32 :: "'a emu_scheme \<Rightarrow> u32 \<Rightarrow> u32 \<Rightarrow> u32 \<times> 'a emu_scheme" where
  "sbb32 e d s = (let
     e = CHECK_FLAGS e;
     r = (if ACCESS_FLAG F_CF e then d - s - 1 else d - s) :: u32;
     e = CONDITIONAL_SET_FLAG (r AND 0x80000000 \<noteq> 0) F_SF e;
     e = CONDITIONAL_SET_FLAG (r = 0) F_ZF e;
     e = CONDITIONAL_SET_FLAG (PARITY (r AND 0xFF)) F_PF e;
     bc = (r AND (NOT (d) OR s)) OR (NOT (d) AND s);
     e = CONDITIONAL_SET_FLAG (bc AND 0x80000000 \<noteq> 0) F_CF e;
     e = CONDITIONAL_SET_FLAG (XOR2 (drop_bit 30 bc) \<noteq> 0) F_OF e;
     e = CONDITIONAL_SET_FLAG (bc AND 0x8 \<noteq> 0) F_AF e
   in (r, e))"

definition test8 :: "'a emu_scheme \<Rightarrow> u8 \<Rightarrow> u8 \<Rightarrow> 'a emu_scheme" where
  "test8 e d s = (let
     e = RESET_FLAGS e;
     r = ucast d AND ucast s :: u32;
     e = CLEAR_FLAG F_OF e;
     e = CONDITIONAL_SET_FLAG (r AND 0x80 \<noteq> 0) F_SF e;
     e = CONDITIONAL_SET_FLAG (r = 0) F_ZF e;
     e = CONDITIONAL_SET_FLAG (PARITY (r AND 0xFF)) F_PF e;
     e = CLEAR_FLAG F_CF e
   in e)"

definition test16 :: "'a emu_scheme \<Rightarrow> u16 \<Rightarrow> u16 \<Rightarrow> 'a emu_scheme" where
  "test16 e d s = (let
     e = RESET_FLAGS e;
     r = ucast d AND ucast s :: u32;
     e = CLEAR_FLAG F_OF e;
     e = CONDITIONAL_SET_FLAG (r AND 0x8000 \<noteq> 0) F_SF e;
     e = CONDITIONAL_SET_FLAG (r = 0) F_ZF e;
     e = CONDITIONAL_SET_FLAG (PARITY (r AND 0xFF)) F_PF e;
     e = CLEAR_FLAG F_CF e
   in e)"

definition test32 :: "'a emu_scheme \<Rightarrow> u32 \<Rightarrow> u32 \<Rightarrow> 'a emu_scheme" where
  "test32 e d s = (let
     e = RESET_FLAGS e;
     r = d AND s :: u32;
     e = CLEAR_FLAG F_OF e;
     e = CONDITIONAL_SET_FLAG (r AND 0x80000000 \<noteq> 0) F_SF e;
     e = CONDITIONAL_SET_FLAG (r = 0) F_ZF e;
     e = CONDITIONAL_SET_FLAG (PARITY (r AND 0xFF)) F_PF e;
     e = CLEAR_FLAG F_CF e
   in e)"

section \<open>The contract of a two-operand primitive\<close>

locale alu2 =
  fixes f :: "'a emu_scheme \<Rightarrow> 'w::len word \<Rightarrow> 'w word \<Rightarrow> 'w word \<times> 'a emu_scheme"
    and val :: "'w word \<Rightarrow> 'w word \<Rightarrow> bool \<Rightarrow> 'w word"
    and flags :: "'w word \<Rightarrow> 'w word \<Rightarrow> bool \<Rightarrow> aflags"
  assumes value_of: "fst (f e d s) = val d s (a_CF (visible_flags e))"
    and flags_of: "visible_flags (snd (f e d s)) = flags d s (a_CF (visible_flags e))"
    and frame_of: "erase_flags (snd (f e d s)) = erase_flags e"
begin

text \<open>Evaluating the pending flags before the operation is unobservable.\<close>

lemma early_evaluation:
  "fst (f (UpdateFlags e) d s) = fst (f e d s)"
  "visible_flags (snd (f (UpdateFlags e) d s)) = visible_flags (snd (f e d s))"
  "erase_flags (snd (f (UpdateFlags e) d s)) = erase_flags (snd (f e d s))"
  by (simp_all add: value_of flags_of frame_of visible_UpdateFlags)

text \<open>Of the state before it, the operation depends on the carry only.\<close>

lemma depends_on_carry:
  assumes "a_CF (visible_flags e) = a_CF (visible_flags e')"
  shows "fst (f e d s) = fst (f e' d s)"
    "visible_flags (snd (f e d s)) = visible_flags (snd (f e' d s))"
  using assms by (simp_all add: value_of flags_of)

end

named_theorems primop_defs \<open>definitions of the primitives\<close>

lemmas arith_defs [primop_defs] =
  add8_def add16_def add32_def and8_def and16_def and32_def or8_def or16_def or32_def
  xor8_def xor16_def xor32_def sub8_def sub16_def sub32_def cmp8_def cmp16_def cmp32_def
  adc8_def adc16_def adc32_def sbb8_def sbb16_def sbb32_def
  inc8_def inc16_def inc32_def dec8_def dec16_def dec32_def neg8_def neg16_def neg32_def


lemma ucast_and_or_xor:
  fixes d s :: "'a::len word"
  assumes "LENGTH('a) \<le> 32"
  shows "(ucast (ucast d AND ucast s :: u32) :: 'a word) = d AND s"
    "(ucast (ucast d OR ucast s :: u32) :: 'a word) = d OR s"
    "(ucast (ucast d XOR ucast s :: u32) :: 'a word) = d XOR s"
    "(ucast (ucast d :: u32) :: 'a word) = d"
  using assms by (auto intro!: bit_word_eqI simp: bit_simps)

lemma ucast_bitwise:
  fixes d s :: "'a::len word"
  assumes "LENGTH('a) \<le> 32"
  shows "(ucast d AND ucast s :: u32) = ucast (d AND s)"
    "(ucast d OR ucast s :: u32) = ucast (d OR s)"
    "(ucast d XOR ucast s :: u32) = ucast (d XOR s)"
  using assms by (auto intro!: bit_word_eqI simp: bit_simps dest: bit_imp_le_length)

lemma carry_in:
  fixes x y :: u32
  shows "(if c then 1 + x + y else x + y) = x + y + of_bool c"
    "(if c then x - y - 1 else x - y) = x - y - of_bool c"
  by simp_all

text \<open>The values the primitives return, at the operand's width.\<close>

lemma low_values [result_simps]:
  fixes d s :: "'a::len word"
  assumes "LENGTH('a) \<le> 32"
  shows "(ucast (ucast d + ucast s :: u32) :: 'a word) = d + s"
    "(ucast (1 + ucast d + ucast s :: u32) :: 'a word) = d + s + 1"
    "(ucast (ucast d - ucast s :: u32) :: 'a word) = d - s"
    "(ucast (ucast d - ucast s - 1 :: u32) :: 'a word) = d - s - 1"
    "(ucast (ucast d AND ucast s :: u32) :: 'a word) = d AND s"
    "(ucast (ucast d OR ucast s :: u32) :: 'a word) = d OR s"
    "(ucast (ucast d XOR ucast s :: u32) :: 'a word) = d XOR s"
    "(ucast (ucast d + 1 :: u32) :: 'a word) = d + 1"
    "(ucast (ucast d - 1 :: u32) :: 'a word) = d - 1"
    "(ucast (ucast d :: u32) :: 'a word) = d"
  using assms add_low_bits [of d s False] add_low_bits [of d s True] sub_low_bits [of d s False]
    sub_low_bits [of d s True] add_low_bits [of d 1 False] sub_low_bits [of d 1 False]
  by (simp_all add: ac_simps ucast_and_or_xor)

section \<open>The two-operand primitives meet the contract\<close>

interpretation alu_add8: alu2 add8 "\<lambda>d s c. d + s" "\<lambda>d s c. arch_add d s False"
  by unfold_locales (simp_all add: add8_def uf_add8_def add_flags8 [symmetric] carry_chain_def ac_simps Let_def visible_flags_def status_flags_def UpdateFlags_def result_simps)

interpretation alu_add16: alu2 add16 "\<lambda>d s c. d + s" "\<lambda>d s c. arch_add d s False"
  by unfold_locales (simp_all add: add16_def uf_add16_def add_flags16 [symmetric] carry_chain_def ac_simps Let_def visible_flags_def status_flags_def UpdateFlags_def result_simps)

interpretation alu_add32: alu2 add32 "\<lambda>d s c. d + s" "\<lambda>d s c. arch_add d s False"
  by unfold_locales (simp_all add: add32_def uf_add32_def add_flags32 [symmetric] carry_chain_def ac_simps Let_def visible_flags_def status_flags_def UpdateFlags_def result_simps)

interpretation alu_sub8: alu2 sub8 "\<lambda>d s c. d - s" "\<lambda>d s c. arch_sub d s False"
  by unfold_locales (simp_all add: sub8_def uf_sub8_def sub_flags8 [symmetric] borrow_chain_def Let_def visible_flags_def status_flags_def UpdateFlags_def result_simps)

interpretation alu_sub16: alu2 sub16 "\<lambda>d s c. d - s" "\<lambda>d s c. arch_sub d s False"
  by unfold_locales (simp_all add: sub16_def uf_sub16_def sub_flags16 [symmetric] borrow_chain_def Let_def visible_flags_def status_flags_def UpdateFlags_def result_simps)

interpretation alu_sub32: alu2 sub32 "\<lambda>d s c. d - s" "\<lambda>d s c. arch_sub d s False"
  by unfold_locales (simp_all add: sub32_def uf_sub32_def sub_flags32 [symmetric] borrow_chain_def Let_def visible_flags_def status_flags_def UpdateFlags_def result_simps)

interpretation alu_cmp8: alu2 cmp8 "\<lambda>d s c. d" "\<lambda>d s c. arch_sub d s False"
  by unfold_locales (simp_all add: cmp8_def sub_flags8 [symmetric] borrow_chain_def Let_def visible_flags_def status_flags_def UpdateFlags_def result_simps)

interpretation alu_cmp16: alu2 cmp16 "\<lambda>d s c. d" "\<lambda>d s c. arch_sub d s False"
  by unfold_locales (simp_all add: cmp16_def sub_flags16 [symmetric] borrow_chain_def Let_def visible_flags_def status_flags_def UpdateFlags_def result_simps)

interpretation alu_cmp32: alu2 cmp32 "\<lambda>d s c. d" "\<lambda>d s c. arch_sub d s False"
  by unfold_locales (simp_all add: cmp32_def sub_flags32 [symmetric] borrow_chain_def Let_def visible_flags_def status_flags_def UpdateFlags_def result_simps)

interpretation alu_and8: alu2 and8 "\<lambda>d s c. d AND s" "\<lambda>d s c. arch_logic (d AND s)"
  by unfold_locales (simp_all add: and8_def uf_and8_def logic_flags(1) [symmetric] ucast_bitwise Let_def visible_flags_def status_flags_def UpdateFlags_def result_simps)

interpretation alu_and16: alu2 and16 "\<lambda>d s c. d AND s" "\<lambda>d s c. arch_logic (d AND s)"
  by unfold_locales (simp_all add: and16_def uf_and16_def logic_flags(2) [symmetric] ucast_bitwise Let_def visible_flags_def status_flags_def UpdateFlags_def result_simps)

interpretation alu_and32: alu2 and32 "\<lambda>d s c. d AND s" "\<lambda>d s c. arch_logic (d AND s)"
  by unfold_locales (simp_all add: and32_def uf_and32_def logic_flags(3) [symmetric] ucast_bitwise Let_def visible_flags_def status_flags_def UpdateFlags_def result_simps)

interpretation alu_or8: alu2 or8 "\<lambda>d s c. d OR s" "\<lambda>d s c. arch_logic (d OR s)"
  by unfold_locales (simp_all add: or8_def uf_or8_def logic_flags(1) [symmetric] ucast_bitwise Let_def visible_flags_def status_flags_def UpdateFlags_def result_simps)

interpretation alu_or16: alu2 or16 "\<lambda>d s c. d OR s" "\<lambda>d s c. arch_logic (d OR s)"
  by unfold_locales (simp_all add: or16_def uf_or16_def logic_flags(2) [symmetric] ucast_bitwise Let_def visible_flags_def status_flags_def UpdateFlags_def result_simps)

interpretation alu_or32: alu2 or32 "\<lambda>d s c. d OR s" "\<lambda>d s c. arch_logic (d OR s)"
  by unfold_locales (simp_all add: or32_def uf_or32_def logic_flags(3) [symmetric] ucast_bitwise Let_def visible_flags_def status_flags_def UpdateFlags_def result_simps)

interpretation alu_xor8: alu2 xor8 "\<lambda>d s c. d XOR s" "\<lambda>d s c. arch_logic (d XOR s)"
  by unfold_locales (simp_all add: xor8_def uf_xor8_def logic_flags(1) [symmetric] ucast_bitwise Let_def visible_flags_def status_flags_def UpdateFlags_def result_simps)

interpretation alu_xor16: alu2 xor16 "\<lambda>d s c. d XOR s" "\<lambda>d s c. arch_logic (d XOR s)"
  by unfold_locales (simp_all add: xor16_def uf_xor16_def logic_flags(2) [symmetric] ucast_bitwise Let_def visible_flags_def status_flags_def UpdateFlags_def result_simps)

interpretation alu_xor32: alu2 xor32 "\<lambda>d s c. d XOR s" "\<lambda>d s c. arch_logic (d XOR s)"
  by unfold_locales (simp_all add: xor32_def uf_xor32_def logic_flags(3) [symmetric] ucast_bitwise Let_def visible_flags_def status_flags_def UpdateFlags_def result_simps)

text \<open>ADC and SBB read the carry the pending operation leaves.\<close>

interpretation alu_adc8: alu2 adc8 "\<lambda>d s c. d + s + of_bool c" "\<lambda>d s c. arch_add d s c"
  by unfold_locales (simp_all add: adc8_def add_flags8 [symmetric] carry_chain_def and.commute or.commute Let_def visible_CF visible_eager status_flags_def carry_in add_low_bits sub_low_bits)

interpretation alu_adc16: alu2 adc16 "\<lambda>d s c. d + s + of_bool c" "\<lambda>d s c. arch_add d s c"
  by unfold_locales (simp_all add: adc16_def add_flags16 [symmetric] carry_chain_def and.commute or.commute Let_def visible_CF visible_eager status_flags_def carry_in add_low_bits sub_low_bits)

interpretation alu_adc32: alu2 adc32 "\<lambda>d s c. d + s + of_bool c" "\<lambda>d s c. arch_add d s c"
  by unfold_locales (simp_all add: adc32_def add_flags32 [symmetric] carry_chain_def and.commute or.commute Let_def visible_CF visible_eager status_flags_def carry_in add_low_bits sub_low_bits)

interpretation alu_sbb8: alu2 sbb8 "\<lambda>d s c. d - s - of_bool c" "\<lambda>d s c. arch_sub d s c"
  by unfold_locales (simp_all add: sbb8_def sub_flags8 [symmetric] borrow_chain_def Let_def visible_CF visible_eager status_flags_def carry_in add_low_bits sub_low_bits)

interpretation alu_sbb16: alu2 sbb16 "\<lambda>d s c. d - s - of_bool c" "\<lambda>d s c. arch_sub d s c"
  by unfold_locales (simp_all add: sbb16_def sub_flags16 [symmetric] borrow_chain_def Let_def visible_CF visible_eager status_flags_def carry_in add_low_bits sub_low_bits)

interpretation alu_sbb32: alu2 sbb32 "\<lambda>d s c. d - s - of_bool c" "\<lambda>d s c. arch_sub d s c"
  by unfold_locales (simp_all add: sbb32_def sub_flags32 [symmetric] borrow_chain_def Let_def visible_CF visible_eager status_flags_def carry_in add_low_bits sub_low_bits)

section \<open>One-operand primitives\<close>

lemma inc_chain:
  fixes x r :: u32
  shows "((1 AND x) OR NOT r) AND (1 OR x) = carry_chain r x 1"
    "(1 AND x) OR (NOT r AND (1 OR x)) = carry_chain r x 1"
    "(r AND (NOT x OR 1)) OR (NOT x AND 1) = borrow_chain r x 1"
    "borrow_chain r 0 x = r OR x"
  unfolding carry_chain_def borrow_chain_def
  by (rule bit_word_eqI; auto simp: bit_simps)+

text \<open>INC and DEC preserve the carry the pending operation left.\<close>

lemma inc8_flags:
  "visible_flags (snd (inc8 e d)) = (arch_add d 1 False)\<lparr>a_CF := a_CF (visible_flags e)\<rparr>"
  by (simp add: inc8_def Let_def visible_flags_def [of "_\<lparr>df := _\<rparr>"] UpdateFlags_tag uf_inc8_def status_flags_def inc_chain visible_CF
      add_flags8 [of d 1 False, simplified, symmetric])

lemma inc16_flags:
  "visible_flags (snd (inc16 e d)) = (arch_add d 1 False)\<lparr>a_CF := a_CF (visible_flags e)\<rparr>"
  by (simp add: inc16_def Let_def visible_flags_def [of "_\<lparr>df := _\<rparr>"] UpdateFlags_tag uf_inc16_def status_flags_def inc_chain visible_CF
      add_flags16 [of d 1 False, simplified, symmetric])

lemma inc32_flags:
  "visible_flags (snd (inc32 e d)) = (arch_add d 1 False)\<lparr>a_CF := a_CF (visible_flags e)\<rparr>"
  by (simp add: inc32_def Let_def visible_flags_def [of "_\<lparr>df := _\<rparr>"] UpdateFlags_tag uf_inc32_def status_flags_def inc_chain visible_CF
      add_flags32 [of d 1 False, simplified, symmetric])

lemma dec8_flags:
  "visible_flags (snd (dec8 e d)) = (arch_sub d 1 False)\<lparr>a_CF := a_CF (visible_flags e)\<rparr>"
  by (simp add: dec8_def Let_def visible_flags_def [of "_\<lparr>df := _\<rparr>"] UpdateFlags_tag uf_dec8_def status_flags_def inc_chain visible_CF
      sub_flags8 [of d 1 False, simplified, symmetric])

lemma dec16_flags:
  "visible_flags (snd (dec16 e d)) = (arch_sub d 1 False)\<lparr>a_CF := a_CF (visible_flags e)\<rparr>"
  by (simp add: dec16_def Let_def visible_flags_def [of "_\<lparr>df := _\<rparr>"] UpdateFlags_tag uf_dec16_def status_flags_def inc_chain visible_CF
      sub_flags16 [of d 1 False, simplified, symmetric])

lemma dec32_flags:
  "visible_flags (snd (dec32 e d)) = (arch_sub d 1 False)\<lparr>a_CF := a_CF (visible_flags e)\<rparr>"
  by (simp add: dec32_def Let_def visible_flags_def [of "_\<lparr>df := _\<rparr>"] UpdateFlags_tag uf_dec32_def status_flags_def inc_chain visible_CF
      sub_flags32 [of d 1 False, simplified, symmetric])

text \<open>NEG stores its result zero-extended; below the operand's width that is the difference from 0.\<close>

lemma neg_low_bit:
  fixes s :: "'a::len word"
  assumes "LENGTH('a) \<le> 32" "n < LENGTH('a)"
  shows "bit (- ucast s :: u32) n \<longleftrightarrow> bit (- s) n"
proof -
  have "(ucast (- ucast s :: u32) :: 'a word) = - s"
    using sub_low_bits [of 0 s False] assms(1) by simp
  then show ?thesis using low_bit [OF assms, of "- ucast s"] by simp
qed

lemma neg_parity:
  fixes s :: "'a::len word"
  assumes "LENGTH('a) \<le> 32" "8 \<le> LENGTH('a)"
  shows "even_parity (ucast (- s) :: u32) = even_parity (- ucast s :: u32)"
  using assms by (simp add: even_parity_def upt_8 bit_ucast_iff neg_low_bit)

lemma neg_low_zero:
  fixes s8 :: u8 and s16 :: u16
  shows "ucast (- ucast s8 :: u32) = - s8" "ucast (- ucast s16 :: u32) = - s16"
  using sub_low_bits [of 0 s8 False] sub_low_bits [of 0 s16 False] by simp_all

lemma arch_sub_0_CF: "(arch_sub 0 s False)\<lparr>a_CF := s \<noteq> 0\<rparr> = arch_sub 0 s False"
  using uint_ge_0 [of s] uint_0_iff [of s] by (simp add: arch_sub_def order_less_le del: uint_ge_0)

lemma neg8_flags: "visible_flags (snd (neg8 e s)) = arch_sub 0 s False"
proof -
  have "visible_flags (snd (neg8 e s)) = (arch_sub 0 s False)\<lparr>a_CF := s \<noteq> 0\<rparr>"
    by (simp add: neg8_def Let_def visible_flags_def UpdateFlags_tag uf_neg8_def status_flags_def inc_chain
        sub_flags8 [of 0 s False, simplified, symmetric] mask_simps PARITY_even_parity bit_or_iff bit_ucast_iff
        neg_low_bit neg_parity neg_low_zero ucast32_eq_0 low_values del: drop_bit_or)
  then show ?thesis by (simp only: arch_sub_0_CF)
qed

lemma neg16_flags: "visible_flags (snd (neg16 e s)) = arch_sub 0 s False"
proof -
  have "visible_flags (snd (neg16 e s)) = (arch_sub 0 s False)\<lparr>a_CF := s \<noteq> 0\<rparr>"
    by (simp add: neg16_def Let_def visible_flags_def UpdateFlags_tag uf_neg16_def status_flags_def inc_chain
        sub_flags16 [of 0 s False, simplified, symmetric] mask_simps PARITY_even_parity bit_or_iff bit_ucast_iff
        neg_low_bit neg_parity neg_low_zero ucast32_eq_0 low_values del: drop_bit_or)
  then show ?thesis by (simp only: arch_sub_0_CF)
qed

lemma neg32_flags: "visible_flags (snd (neg32 e s)) = arch_sub 0 s False"
proof -
  have "visible_flags (snd (neg32 e s)) = (arch_sub 0 s False)\<lparr>a_CF := s \<noteq> 0\<rparr>"
    by (simp add: neg32_def Let_def visible_flags_def UpdateFlags_tag uf_neg32_def status_flags_def inc_chain
        sub_flags32 [of 0 s False, simplified, symmetric] mask_simps PARITY_even_parity bit_or_iff bit_ucast_iff
        neg_low_bit neg_parity neg_low_zero ucast32_eq_0 low_values del: drop_bit_or)
  then show ?thesis by (simp only: arch_sub_0_CF)
qed

lemma test8_flags: "visible_flags (test8 e d s) = (arch_logic (d AND s))\<lparr>a_AF := ACCESS_FLAG F_AF e\<rparr>"
  by (simp add: test8_def Let_def visible_eager status_flags_def ucast_bitwise logic_flags(1) [symmetric])

lemma test16_flags: "visible_flags (test16 e d s) = (arch_logic (d AND s))\<lparr>a_AF := ACCESS_FLAG F_AF e\<rparr>"
  by (simp add: test16_def Let_def visible_eager status_flags_def ucast_bitwise logic_flags(2) [symmetric])

lemma test32_flags: "visible_flags (test32 e d s) = (arch_logic (d AND s))\<lparr>a_AF := ACCESS_FLAG F_AF e\<rparr>"
  by (simp add: test32_def Let_def visible_eager status_flags_def ucast_bitwise logic_flags(3) [symmetric])

lemma unary_values:
  "fst (inc8 e d8) = d8 + 1" "fst (inc16 e d16) = d16 + 1" "fst (inc32 e d32) = d32 + 1"
  "fst (dec8 e d8) = d8 - 1" "fst (dec16 e d16) = d16 - 1" "fst (dec32 e d32) = d32 - 1"
  "fst (neg8 e d8) = - d8" "fst (neg16 e d16) = - d16" "fst (neg32 e d32) = - d32"
  by (simp_all add: primop_defs Let_def result_simps)

lemma unary_frame [frame_simps]:
  "erase_flags (snd (inc8 e d8)) = erase_flags e" "erase_flags (snd (inc16 e d16)) = erase_flags e"
  "erase_flags (snd (inc32 e d32)) = erase_flags e" "erase_flags (snd (dec8 e d8)) = erase_flags e"
  "erase_flags (snd (dec16 e d16)) = erase_flags e" "erase_flags (snd (dec32 e d32)) = erase_flags e"
  "erase_flags (snd (neg8 e d8)) = erase_flags e" "erase_flags (snd (neg16 e d16)) = erase_flags e"
  "erase_flags (snd (neg32 e d32)) = erase_flags e"
  "erase_flags (test8 e d8 s8) = erase_flags e" "erase_flags (test16 e d16 s16) = erase_flags e"
  "erase_flags (test32 e d32 s32) = erase_flags e"
  by (simp_all add: primop_defs test8_def test16_def test32_def Let_def)

section \<open>Correctness of the arithmetic and logical primitives\<close>

text \<open>The laws of the contract, for every instance.\<close>

lemmas alu_values =
  alu_add8.value_of alu_add16.value_of alu_add32.value_of
  alu_sub8.value_of alu_sub16.value_of alu_sub32.value_of
  alu_cmp8.value_of alu_cmp16.value_of alu_cmp32.value_of
  alu_and8.value_of alu_and16.value_of alu_and32.value_of
  alu_or8.value_of alu_or16.value_of alu_or32.value_of
  alu_xor8.value_of alu_xor16.value_of alu_xor32.value_of
  alu_adc8.value_of alu_adc16.value_of alu_adc32.value_of
  alu_sbb8.value_of alu_sbb16.value_of alu_sbb32.value_of

lemmas alu_flags =
  alu_add8.flags_of alu_add16.flags_of alu_add32.flags_of
  alu_sub8.flags_of alu_sub16.flags_of alu_sub32.flags_of
  alu_cmp8.flags_of alu_cmp16.flags_of alu_cmp32.flags_of
  alu_and8.flags_of alu_and16.flags_of alu_and32.flags_of
  alu_or8.flags_of alu_or16.flags_of alu_or32.flags_of
  alu_xor8.flags_of alu_xor16.flags_of alu_xor32.flags_of
  alu_adc8.flags_of alu_adc16.flags_of alu_adc32.flags_of
  alu_sbb8.flags_of alu_sbb16.flags_of alu_sbb32.flags_of

lemmas alu_frames =
  alu_add8.frame_of alu_add16.frame_of alu_add32.frame_of
  alu_sub8.frame_of alu_sub16.frame_of alu_sub32.frame_of
  alu_cmp8.frame_of alu_cmp16.frame_of alu_cmp32.frame_of
  alu_and8.frame_of alu_and16.frame_of alu_and32.frame_of
  alu_or8.frame_of alu_or16.frame_of alu_or32.frame_of
  alu_xor8.frame_of alu_xor16.frame_of alu_xor32.frame_of
  alu_adc8.frame_of alu_adc16.frame_of alu_adc32.frame_of
  alu_sbb8.frame_of alu_sbb16.frame_of alu_sbb32.frame_of

lemmas alu_laws = alu_values alu_flags alu_frames

text \<open>C1. ADD at 8, 16 and 32 bits: the value is the sum modulo the width, the flags a program sees
  after it (the deferred ones, once evaluated) are the architecture's, and nothing but the flag
  state is written.\<close>

theorem add_correct:
  "(fst (add8 e d8 s8) = d8 + s8 \<and> visible_flags (snd (add8 e d8 s8)) = arch_add d8 s8 False \<and>
      erase_flags (snd (add8 e d8 s8)) = erase_flags e) \<and>
   (fst (add16 e d16 s16) = d16 + s16 \<and> visible_flags (snd (add16 e d16 s16)) = arch_add d16 s16 False \<and>
      erase_flags (snd (add16 e d16 s16)) = erase_flags e) \<and>
   (fst (add32 e d32 s32) = d32 + s32 \<and> visible_flags (snd (add32 e d32 s32)) = arch_add d32 s32 False \<and>
      erase_flags (snd (add32 e d32 s32)) = erase_flags e)"
  by (simp add: alu_laws)

text \<open>C2. ADC and SBB at 8, 16 and 32 bits: the carry they consume is the one the operation before
  them left, pending or not; value, flags and frame are the architecture's.\<close>

theorem adc_sbb_correct:
  "(fst (adc8 e d8 s8) = d8 + s8 + of_bool (a_CF (visible_flags e)) \<and> visible_flags (snd (adc8 e d8 s8)) = arch_add d8 s8 (a_CF (visible_flags e)) \<and>
      erase_flags (snd (adc8 e d8 s8)) = erase_flags e) \<and>
   (fst (adc16 e d16 s16) = d16 + s16 + of_bool (a_CF (visible_flags e)) \<and> visible_flags (snd (adc16 e d16 s16)) = arch_add d16 s16 (a_CF (visible_flags e)) \<and>
      erase_flags (snd (adc16 e d16 s16)) = erase_flags e) \<and>
   (fst (adc32 e d32 s32) = d32 + s32 + of_bool (a_CF (visible_flags e)) \<and> visible_flags (snd (adc32 e d32 s32)) = arch_add d32 s32 (a_CF (visible_flags e)) \<and>
      erase_flags (snd (adc32 e d32 s32)) = erase_flags e) \<and>
   (fst (sbb8 e d8 s8) = d8 - s8 - of_bool (a_CF (visible_flags e)) \<and> visible_flags (snd (sbb8 e d8 s8)) = arch_sub d8 s8 (a_CF (visible_flags e)) \<and>
      erase_flags (snd (sbb8 e d8 s8)) = erase_flags e) \<and>
   (fst (sbb16 e d16 s16) = d16 - s16 - of_bool (a_CF (visible_flags e)) \<and> visible_flags (snd (sbb16 e d16 s16)) = arch_sub d16 s16 (a_CF (visible_flags e)) \<and>
      erase_flags (snd (sbb16 e d16 s16)) = erase_flags e) \<and>
   (fst (sbb32 e d32 s32) = d32 - s32 - of_bool (a_CF (visible_flags e)) \<and> visible_flags (snd (sbb32 e d32 s32)) = arch_sub d32 s32 (a_CF (visible_flags e)) \<and>
      erase_flags (snd (sbb32 e d32 s32)) = erase_flags e)"
  by (simp add: alu_laws)

text \<open>C3. SUB and CMP at 8, 16 and 32 bits: SUB returns the difference modulo the width and CMP its
  first operand; both leave the borrow, auxiliary borrow, overflow, sign, zero and parity flags
  of the subtraction, although SUB defers them and CMP computes them at once.\<close>

theorem sub_cmp_correct:
  "(fst (sub8 e d8 s8) = d8 - s8 \<and> visible_flags (snd (sub8 e d8 s8)) = arch_sub d8 s8 False \<and>
      erase_flags (snd (sub8 e d8 s8)) = erase_flags e) \<and>
   (fst (sub16 e d16 s16) = d16 - s16 \<and> visible_flags (snd (sub16 e d16 s16)) = arch_sub d16 s16 False \<and>
      erase_flags (snd (sub16 e d16 s16)) = erase_flags e) \<and>
   (fst (sub32 e d32 s32) = d32 - s32 \<and> visible_flags (snd (sub32 e d32 s32)) = arch_sub d32 s32 False \<and>
      erase_flags (snd (sub32 e d32 s32)) = erase_flags e) \<and>
   (fst (cmp8 e d8 s8) = d8 \<and> visible_flags (snd (cmp8 e d8 s8)) = arch_sub d8 s8 False \<and>
      erase_flags (snd (cmp8 e d8 s8)) = erase_flags e) \<and>
   (fst (cmp16 e d16 s16) = d16 \<and> visible_flags (snd (cmp16 e d16 s16)) = arch_sub d16 s16 False \<and>
      erase_flags (snd (cmp16 e d16 s16)) = erase_flags e) \<and>
   (fst (cmp32 e d32 s32) = d32 \<and> visible_flags (snd (cmp32 e d32 s32)) = arch_sub d32 s32 False \<and>
      erase_flags (snd (cmp32 e d32 s32)) = erase_flags e)"
  by (simp add: alu_laws)

text \<open>C4. AND, OR and XOR at 8, 16 and 32 bits: the bitwise value, cleared carry and overflow, and
  sign, zero and parity of the result.\<close>

theorem logic_correct:
  "(fst (and8 e d8 s8) = d8 AND s8 \<and> visible_flags (snd (and8 e d8 s8)) = arch_logic (d8 AND s8) \<and>
      erase_flags (snd (and8 e d8 s8)) = erase_flags e) \<and>
   (fst (and16 e d16 s16) = d16 AND s16 \<and> visible_flags (snd (and16 e d16 s16)) = arch_logic (d16 AND s16) \<and>
      erase_flags (snd (and16 e d16 s16)) = erase_flags e) \<and>
   (fst (and32 e d32 s32) = d32 AND s32 \<and> visible_flags (snd (and32 e d32 s32)) = arch_logic (d32 AND s32) \<and>
      erase_flags (snd (and32 e d32 s32)) = erase_flags e) \<and>
   (fst (or8 e d8 s8) = d8 OR s8 \<and> visible_flags (snd (or8 e d8 s8)) = arch_logic (d8 OR s8) \<and>
      erase_flags (snd (or8 e d8 s8)) = erase_flags e) \<and>
   (fst (or16 e d16 s16) = d16 OR s16 \<and> visible_flags (snd (or16 e d16 s16)) = arch_logic (d16 OR s16) \<and>
      erase_flags (snd (or16 e d16 s16)) = erase_flags e) \<and>
   (fst (or32 e d32 s32) = d32 OR s32 \<and> visible_flags (snd (or32 e d32 s32)) = arch_logic (d32 OR s32) \<and>
      erase_flags (snd (or32 e d32 s32)) = erase_flags e) \<and>
   (fst (xor8 e d8 s8) = d8 XOR s8 \<and> visible_flags (snd (xor8 e d8 s8)) = arch_logic (d8 XOR s8) \<and>
      erase_flags (snd (xor8 e d8 s8)) = erase_flags e) \<and>
   (fst (xor16 e d16 s16) = d16 XOR s16 \<and> visible_flags (snd (xor16 e d16 s16)) = arch_logic (d16 XOR s16) \<and>
      erase_flags (snd (xor16 e d16 s16)) = erase_flags e) \<and>
   (fst (xor32 e d32 s32) = d32 XOR s32 \<and> visible_flags (snd (xor32 e d32 s32)) = arch_logic (d32 XOR s32) \<and>
      erase_flags (snd (xor32 e d32 s32)) = erase_flags e)"
  by (simp add: alu_laws)

text \<open>INC, DEC and NEG at 8, 16 and 32 bits: INC and DEC leave the carry of the operation before
  them, which they evaluate first, and set the other five flags of an addition or subtraction of
  1; NEG sets the flags of a subtraction from 0.\<close>

theorem inc_dec_neg_correct:
  "(fst (inc8 e d8) = d8 + 1 \<and> visible_flags (snd (inc8 e d8)) = (arch_add d8 1 False)\<lparr>a_CF := a_CF (visible_flags e)\<rparr> \<and>
      erase_flags (snd (inc8 e d8)) = erase_flags e) \<and>
   (fst (inc16 e d16) = d16 + 1 \<and> visible_flags (snd (inc16 e d16)) = (arch_add d16 1 False)\<lparr>a_CF := a_CF (visible_flags e)\<rparr> \<and>
      erase_flags (snd (inc16 e d16)) = erase_flags e) \<and>
   (fst (inc32 e d32) = d32 + 1 \<and> visible_flags (snd (inc32 e d32)) = (arch_add d32 1 False)\<lparr>a_CF := a_CF (visible_flags e)\<rparr> \<and>
      erase_flags (snd (inc32 e d32)) = erase_flags e) \<and>
   (fst (dec8 e d8) = d8 - 1 \<and> visible_flags (snd (dec8 e d8)) = (arch_sub d8 1 False)\<lparr>a_CF := a_CF (visible_flags e)\<rparr> \<and>
      erase_flags (snd (dec8 e d8)) = erase_flags e) \<and>
   (fst (dec16 e d16) = d16 - 1 \<and> visible_flags (snd (dec16 e d16)) = (arch_sub d16 1 False)\<lparr>a_CF := a_CF (visible_flags e)\<rparr> \<and>
      erase_flags (snd (dec16 e d16)) = erase_flags e) \<and>
   (fst (dec32 e d32) = d32 - 1 \<and> visible_flags (snd (dec32 e d32)) = (arch_sub d32 1 False)\<lparr>a_CF := a_CF (visible_flags e)\<rparr> \<and>
      erase_flags (snd (dec32 e d32)) = erase_flags e) \<and>
   (fst (neg8 e d8) = - d8 \<and> visible_flags (snd (neg8 e d8)) = arch_sub 0 d8 False \<and>
      erase_flags (snd (neg8 e d8)) = erase_flags e) \<and>
   (fst (neg16 e d16) = - d16 \<and> visible_flags (snd (neg16 e d16)) = arch_sub 0 d16 False \<and>
      erase_flags (snd (neg16 e d16)) = erase_flags e) \<and>
   (fst (neg32 e d32) = - d32 \<and> visible_flags (snd (neg32 e d32)) = arch_sub 0 d32 False \<and>
      erase_flags (snd (neg32 e d32)) = erase_flags e)"
  by (simp add: unary_values unary_frame inc8_flags inc16_flags inc32_flags dec8_flags dec16_flags dec32_flags neg8_flags neg16_flags neg32_flags)

section \<open>Deferred tags of the eager operations\<close>

text \<open>
  \<open>UpdateFlags\<close> also has cases for ADC, SBB, CMP and TEST, whose primitives here are eager: the
  dynamic recompiler leaves these tags. They must produce the flags the primitives compute.
\<close>

definition pending :: "defered_flags_t \<Rightarrow> u32 \<Rightarrow> u32 \<Rightarrow> u32 \<Rightarrow> 'a emu_scheme \<Rightarrow> 'a emu_scheme" where
  "pending t x y r e = e\<lparr>df := t, op1 := x, op2 := y, res := r\<rparr>"

lemma carry_chain_fold:
  "(d AND s) OR (NOT r AND (d OR s)) = carry_chain r d s"
  "(s AND d) OR (NOT r AND (s OR d)) = carry_chain r d s"
  by (simp_all add: carry_chain_def ac_simps)

lemma borrow_chain_fold: "(r AND (NOT d OR s)) OR (NOT d AND s) = borrow_chain r d s"
  by (simp add: borrow_chain_def)

lemma adc32_carry_test:
  fixes d s :: u32
  shows "(if d + s + of_bool c = d + s then (d AND 0xFFFF) + (s AND 0xFFFF) else 1 + (d AND 0xFFFF) + (s AND 0xFFFF))
    = (d AND 0xFFFF) + (s AND 0xFFFF) + of_bool c"
  by simp

lemma pending_adc8:
  fixes d8 s8 :: u8 and d16 s16 :: u16 and d32 s32 :: u32
  shows "visible_flags (pending d_adc8 (ucast d8) (ucast s8) ((ucast d8) + (ucast s8) + of_bool c) e) = arch_add d8 s8 c"
  using add_flags8 [of d8 s8 c]
  by (cases c) (simp_all add: pending_def visible_flags_def UpdateFlags_tag uf_adc8_def Let_def status_flags_def
      adc32_carry_test carry_chain_def ac_simps)

lemma pending_adc16:
  fixes d8 s8 :: u8 and d16 s16 :: u16 and d32 s32 :: u32
  shows "visible_flags (pending d_adc16 (ucast d16) (ucast s16) ((ucast d16) + (ucast s16) + of_bool c) e) = arch_add d16 s16 c"
  using add_flags16 [of d16 s16 c]
  by (cases c) (simp_all add: pending_def visible_flags_def UpdateFlags_tag uf_adc16_def Let_def status_flags_def
      adc32_carry_test carry_chain_def ac_simps)

lemma pending_adc32:
  fixes d8 s8 :: u8 and d16 s16 :: u16 and d32 s32 :: u32
  shows "visible_flags (pending d_adc32 d32 s32 (d32 + s32 + of_bool c) e) = arch_add d32 s32 c"
  using add_flags32 [of d32 s32 c]
  by (cases c) (simp_all add: pending_def visible_flags_def UpdateFlags_tag uf_adc32_def Let_def status_flags_def
      adc32_carry_test carry_chain_def ac_simps)

lemma pending_sbb8:
  fixes d8 s8 :: u8 and d16 s16 :: u16 and d32 s32 :: u32
  shows "visible_flags (pending d_sbb8 (ucast d8) (ucast s8) ((ucast d8) - (ucast s8) - of_bool c) e) = arch_sub d8 s8 c"
  using sub_flags8 [of d8 s8 c]
  by (simp add: pending_def visible_flags_def UpdateFlags_tag uf_sbb8_def Let_def status_flags_def
      borrow_chain_def)

lemma pending_sbb16:
  fixes d8 s8 :: u8 and d16 s16 :: u16 and d32 s32 :: u32
  shows "visible_flags (pending d_sbb16 (ucast d16) (ucast s16) ((ucast d16) - (ucast s16) - of_bool c) e) = arch_sub d16 s16 c"
  using sub_flags16 [of d16 s16 c]
  by (simp add: pending_def visible_flags_def UpdateFlags_tag uf_sbb16_def Let_def status_flags_def
      borrow_chain_def)

lemma pending_sbb32:
  fixes d8 s8 :: u8 and d16 s16 :: u16 and d32 s32 :: u32
  shows "visible_flags (pending d_sbb32 d32 s32 (d32 - s32 - of_bool c) e) = arch_sub d32 s32 c"
  using sub_flags32 [of d32 s32 c]
  by (simp add: pending_def visible_flags_def UpdateFlags_tag uf_sbb32_def Let_def status_flags_def
      borrow_chain_def)

lemma pending_cmp8:
  fixes d8 s8 :: u8 and d16 s16 :: u16 and d32 s32 :: u32
  shows "visible_flags (pending d_cmp8 (ucast d8) (ucast s8) ((ucast d8) - (ucast s8)) e) = arch_sub d8 s8 False"
  by (simp add: pending_def visible_flags_def UpdateFlags_tag uf_cmp8_def Let_def status_flags_def
      borrow_chain_fold sub_flags8 [of _ _ False, simplified])

lemma pending_cmp16:
  fixes d8 s8 :: u8 and d16 s16 :: u16 and d32 s32 :: u32
  shows "visible_flags (pending d_cmp16 (ucast d16) (ucast s16) ((ucast d16) - (ucast s16)) e) = arch_sub d16 s16 False"
  by (simp add: pending_def visible_flags_def UpdateFlags_tag uf_cmp16_def Let_def status_flags_def
      borrow_chain_fold sub_flags16 [of _ _ False, simplified])

lemma pending_cmp32:
  fixes d8 s8 :: u8 and d16 s16 :: u16 and d32 s32 :: u32
  shows "visible_flags (pending d_cmp32 d32 s32 (d32 - s32) e) = arch_sub d32 s32 False"
  by (simp add: pending_def visible_flags_def UpdateFlags_tag uf_cmp32_def Let_def status_flags_def
      borrow_chain_fold sub_flags32 [of _ _ False, simplified])

lemma pending_tst8: "visible_flags (pending d_tst8 x y ((ucast d8) AND (ucast s8)) e) = visible_flags (test8 e d8 s8)"
  by (simp add: pending_def visible_flags_def UpdateFlags_tag uf_tst8_def Let_def status_flags_def test8_def)

lemma pending_tst16: "visible_flags (pending d_tst16 x y ((ucast d16) AND (ucast s16)) e) = visible_flags (test16 e d16 s16)"
  by (simp add: pending_def visible_flags_def UpdateFlags_tag uf_tst16_def Let_def status_flags_def test16_def)

lemma pending_tst32: "visible_flags (pending d_tst32 x y (d32 AND s32) e) = visible_flags (test32 e d32 s32)"
  by (simp add: pending_def visible_flags_def UpdateFlags_tag uf_tst32_def Let_def status_flags_def test32_def)

text \<open>The deferred cases of ADC, SBB, CMP and TEST agree with the architecture (and TEST with its
  eager primitive), for every carry: the 32-bit ADC case recovers the carry it was given from
  the result alone.\<close>

theorem deferred_eager_agree:
  fixes d8 s8 :: u8 and d16 s16 :: u16 and d32 s32 :: u32
  shows "visible_flags (pending d_adc8 (ucast d8) (ucast s8) ((ucast d8) + (ucast s8) + of_bool c) e) = arch_add d8 s8 c \<and>
   visible_flags (pending d_adc16 (ucast d16) (ucast s16) ((ucast d16) + (ucast s16) + of_bool c) e) = arch_add d16 s16 c \<and>
   visible_flags (pending d_adc32 d32 s32 (d32 + s32 + of_bool c) e) = arch_add d32 s32 c \<and>
   visible_flags (pending d_sbb8 (ucast d8) (ucast s8) ((ucast d8) - (ucast s8) - of_bool c) e) = arch_sub d8 s8 c \<and>
   visible_flags (pending d_sbb16 (ucast d16) (ucast s16) ((ucast d16) - (ucast s16) - of_bool c) e) = arch_sub d16 s16 c \<and>
   visible_flags (pending d_sbb32 d32 s32 (d32 - s32 - of_bool c) e) = arch_sub d32 s32 c \<and>
   visible_flags (pending d_cmp8 (ucast d8) (ucast s8) ((ucast d8) - (ucast s8)) e) = arch_sub d8 s8 False \<and>
   visible_flags (pending d_cmp16 (ucast d16) (ucast s16) ((ucast d16) - (ucast s16)) e) = arch_sub d16 s16 False \<and>
   visible_flags (pending d_cmp32 d32 s32 (d32 - s32) e) = arch_sub d32 s32 False \<and>
   visible_flags (pending d_tst8 x y ((ucast d8) AND (ucast s8)) e) = visible_flags (test8 e d8 s8) \<and>
   visible_flags (pending d_tst16 x y ((ucast d16) AND (ucast s16)) e) = visible_flags (test16 e d16 s16) \<and>
   visible_flags (pending d_tst32 x y (d32 AND s32) e) = visible_flags (test32 e d32 s32)"
  by (simp only: pending_adc8 pending_adc16 pending_adc32 pending_sbb8 pending_sbb16 pending_sbb32 pending_cmp8 pending_cmp16 pending_cmp32 pending_tst8 pending_tst16 pending_tst32 simp_thms)

section \<open>Multi-word arithmetic\<close>

text \<open>
  A chain of ADC (or SBB) over the words of a number, least significant first, as compilers emit
  it for 64-bit and longer integers.
\<close>

fun adc_words :: "'a emu_scheme \<Rightarrow> (u32 \<times> u32) list \<Rightarrow> u32 list \<times> 'a emu_scheme" where
  "adc_words e [] = ([], e)"
| "adc_words e ((d, s) # xs) = (let (v, e1) = adc32 e d s; (vs, e2) = adc_words e1 xs in (v # vs, e2))"

fun sbb_words :: "'a emu_scheme \<Rightarrow> (u32 \<times> u32) list \<Rightarrow> u32 list \<times> 'a emu_scheme" where
  "sbb_words e [] = ([], e)"
| "sbb_words e ((d, s) # xs) = (let (v, e1) = sbb32 e d s; (vs, e2) = sbb_words e1 xs in (v # vs, e2))"

fun words_val :: "u32 list \<Rightarrow> int" where
  "words_val [] = 0"
| "words_val (w # ws) = uint w + 4294967296 * words_val ws"

lemma add_carry_value:
  fixes d s :: u32
  shows "uint (d + s + of_bool c) + 4294967296 * of_bool (a_CF (arch_add d s c)) = uint d + uint s + of_bool c"
    and "uint (d - s - of_bool c) - 4294967296 * of_bool (a_CF (arch_sub d s c)) = uint d - uint s - of_bool c"
proof -
  have b: "0 \<le> uint w" "uint w < 4294967296" for w :: u32
    using uint_lt2p [of w] by simp_all
  have m: "k mod 4294967296 = k - 4294967296 * of_bool (4294967296 \<le> k)" if "0 \<le> k" "k < 8589934592" for k :: int
    using that by (auto intro: int_mod_pos_eq [where q = 1] mod_pos_pos_trivial)
  have n: "k mod 4294967296 = k + 4294967296 * of_bool (k < 0)" if "- 4294967296 \<le> k" "k < 4294967296" for k :: int
    using that by (auto intro: int_mod_pos_eq [where q = "- 1"] mod_pos_pos_trivial)
  have r: "- 4294967296 \<le> uint d + uint s + of_bool c" "uint d + uint s + of_bool c < 8589934592"
    "- 4294967296 \<le> uint d - uint s - of_bool c" "uint d - uint s - of_bool c < 4294967296"
    "0 \<le> uint d + uint s + of_bool c"
    using b [of d] b [of s] by (cases c; simp only: of_bool_eq; linarith)+
  have "d + s + of_bool c = word_of_int (uint d + uint s + of_bool c)"
    "d - s - of_bool c = word_of_int (uint d - uint s - of_bool c)" by simp_all
  then have p: "uint (d + s + of_bool c) = (uint d + uint s + of_bool c) mod 4294967296"
    "uint (d - s - of_bool c) = (uint d - uint s - of_bool c) mod 4294967296"
    by (simp_all only: unsigned_of_int take_bit_eq_mod) simp_all
  show "uint (d + s + of_bool c) + 4294967296 * of_bool (a_CF (arch_add d s c)) = uint d + uint s + of_bool c"
    unfolding p m [OF r(5,2)] by (simp add: arch_add_def)
  have "a_CF (arch_sub d s c) \<longleftrightarrow> uint d - uint s - of_bool c < 0"
    by (auto simp: arch_sub_def)
  then show "uint (d - s - of_bool c) - 4294967296 * of_bool (a_CF (arch_sub d s c)) = uint d - uint s - of_bool c"
    unfolding p n [OF r(3,4)] by simp
qed

text \<open>A chain of ADC over the words of two numbers of any length computes their sum: the words
  it returns, with the final carry above them, are the sum of the operands and of the carry
  before the chain. Each ADC reads the flags its predecessor wrote.\<close>

theorem adc_chain_sum:
  "words_val (fst (adc_words e xs)) + 2 ^ (32 * length xs) * of_bool (a_CF (visible_flags (snd (adc_words e xs))))
    = words_val (map fst xs) + words_val (map snd xs) + of_bool (a_CF (visible_flags e))"
proof (induction e xs rule: adc_words.induct)
  case (2 e d s xs)
  define c where "c = a_CF (visible_flags e)"
  define e1 where "e1 = snd (adc32 e d s)"
  have v: "adc32 e d s = (d + s + of_bool c, e1)"
    by (simp add: prod_eq_iff e1_def c_def alu_laws)
  have c1: "a_CF (visible_flags e1) = a_CF (arch_add d s c)"
    by (simp add: e1_def c_def alu_laws)
  obtain vs e2 where w: "adc_words e1 xs = (vs, e2)" by force
  from 2 [OF v [symmetric] refl] have IH: "words_val vs + 2 ^ (32 * length xs) * of_bool (a_CF (visible_flags e2))
      = words_val (map fst xs) + words_val (map snd xs) + of_bool (a_CF (arch_add d s c))"
    by (simp add: w c1)
  have "words_val (fst (adc_words e ((d, s) # xs))) + 2 ^ (32 * length ((d, s) # xs)) *
      of_bool (a_CF (visible_flags (snd (adc_words e ((d, s) # xs)))))
    = uint (d + s + of_bool c) + 4294967296 * (words_val vs + 2 ^ (32 * length xs) * of_bool (a_CF (visible_flags e2)))"
    by (simp add: v w power_add algebra_simps)
  also have "\<dots> = uint d + uint s + of_bool c + 4294967296 * (words_val (map fst xs) + words_val (map snd xs))"
    unfolding IH using add_carry_value(1) [of d s c] by (simp add: algebra_simps)
  finally show ?case by (simp add: c_def)
qed simp

text \<open>A chain of SBB over the words of two numbers of any length computes their difference, less
  the borrow before the chain; the final borrow stands for the word above the result.\<close>

theorem sbb_chain_difference:
  "words_val (fst (sbb_words e xs)) - 2 ^ (32 * length xs) * of_bool (a_CF (visible_flags (snd (sbb_words e xs))))
    = words_val (map fst xs) - words_val (map snd xs) - of_bool (a_CF (visible_flags e))"
proof (induction e xs rule: sbb_words.induct)
  case (2 e d s xs)
  define c where "c = a_CF (visible_flags e)"
  define e1 where "e1 = snd (sbb32 e d s)"
  have v: "sbb32 e d s = (d - s - of_bool c, e1)"
    by (simp add: prod_eq_iff e1_def c_def alu_laws)
  have c1: "a_CF (visible_flags e1) = a_CF (arch_sub d s c)"
    by (simp add: e1_def c_def alu_laws)
  obtain vs e2 where w: "sbb_words e1 xs = (vs, e2)" by force
  from 2 [OF v [symmetric] refl] have IH: "words_val vs - 2 ^ (32 * length xs) * of_bool (a_CF (visible_flags e2))
      = words_val (map fst xs) - words_val (map snd xs) - of_bool (a_CF (arch_sub d s c))"
    by (simp add: w c1)
  have "words_val (fst (sbb_words e ((d, s) # xs))) - 2 ^ (32 * length ((d, s) # xs)) *
      of_bool (a_CF (visible_flags (snd (sbb_words e ((d, s) # xs)))))
    = uint (d - s - of_bool c) + 4294967296 * (words_val vs - 2 ^ (32 * length xs) * of_bool (a_CF (visible_flags e2)))"
    by (simp add: v w power_add algebra_simps)
  also have "\<dots> = uint d - uint s - of_bool c + 4294967296 * (words_val (map fst xs) - words_val (map snd xs))"
    unfolding IH using add_carry_value(2) [of d s c] by (simp add: algebra_simps)
  finally show ?case by (simp add: c_def)
qed simp

end
