(* ===== verification/PrimopShift.thy ===== *)
theory PrimopShift
  imports PrimopArith
begin

unbundle bit_operations_syntax

text \<open>
  Shifts and rotates of \<open>src/emu/x86primop.h\<close> and \<open>src/emu/x86primop.c\<close>. The count is the low
  five bits of the operand. SHL, SHR and SAR defer their flags; the rotates and the double
  shifts compute them at once. C promotes narrow operands to 32 bits before it shifts. A shift
  by \<open>-1\<close>, which \<open>shrd16\<close> performs when the count is 16, is undefined in C: here its carry
  mask is 0, the value it has on the host \<open>fill\<close> is tested against (no bit of a 16-bit operand
  is under a mask shifted out of range).
\<close>

section \<open>Definitions\<close>

definition shl8 :: "'a emu_scheme \<Rightarrow> u8 \<Rightarrow> u8 \<Rightarrow> u8 \<times> 'a emu_scheme" where
  "shl8 e d s = (let
     e = e\<lparr>df := d_shl8\<rparr>;
     e = e\<lparr>op1 := ucast d\<rparr>;
     s = s AND 0x1F;
     e = e\<lparr>op2 := ucast s\<rparr>;
     e = e\<lparr>res := push_bit (unat s) (ucast d)\<rparr>
   in (ucast (res e), e))"

definition shl16 :: "'a emu_scheme \<Rightarrow> u16 \<Rightarrow> u8 \<Rightarrow> u16 \<times> 'a emu_scheme" where
  "shl16 e d s = (let
     e = e\<lparr>df := d_shl16\<rparr>;
     e = e\<lparr>op1 := ucast d\<rparr>;
     s = s AND 0x1F;
     e = e\<lparr>op2 := ucast s\<rparr>;
     e = e\<lparr>res := push_bit (unat s) (ucast d)\<rparr>
   in (ucast (res e), e))"

definition shl32 :: "'a emu_scheme \<Rightarrow> u32 \<Rightarrow> u8 \<Rightarrow> u32 \<times> 'a emu_scheme" where
  "shl32 e d s = (let
     e = e\<lparr>df := d_shl32\<rparr>;
     e = e\<lparr>op1 := d\<rparr>;
     s = s AND 0x1F;
     e = e\<lparr>op2 := ucast s\<rparr>;
     e = e\<lparr>res := push_bit (unat s) d\<rparr>
   in (res e, e))"

definition shr8 :: "'a emu_scheme \<Rightarrow> u8 \<Rightarrow> u8 \<Rightarrow> u8 \<times> 'a emu_scheme" where
  "shr8 e d s = (let
     e = e\<lparr>df := d_shr8\<rparr>;
     e = e\<lparr>op1 := ucast d\<rparr>;
     s = s AND 0x1F;
     e = e\<lparr>op2 := ucast s\<rparr>;
     e = e\<lparr>res := drop_bit (unat s) (ucast d)\<rparr>
   in (ucast (res e), e))"

definition shr16 :: "'a emu_scheme \<Rightarrow> u16 \<Rightarrow> u8 \<Rightarrow> u16 \<times> 'a emu_scheme" where
  "shr16 e d s = (let
     e = e\<lparr>df := d_shr16\<rparr>;
     e = e\<lparr>op1 := ucast d\<rparr>;
     s = s AND 0x1F;
     e = e\<lparr>op2 := ucast s\<rparr>;
     e = e\<lparr>res := drop_bit (unat s) (ucast d)\<rparr>
   in (ucast (res e), e))"

definition shr32 :: "'a emu_scheme \<Rightarrow> u32 \<Rightarrow> u8 \<Rightarrow> u32 \<times> 'a emu_scheme" where
  "shr32 e d s = (let
     e = RESET_FLAGS e;
     e = e\<lparr>df := d_shr32\<rparr>;
     e = e\<lparr>op1 := d\<rparr>;
     s = s AND 0x1F;
     e = e\<lparr>op2 := ucast s\<rparr>;
     e = e\<lparr>res := drop_bit (unat s) d\<rparr>
   in (res e, e))"

definition sar8 :: "'a emu_scheme \<Rightarrow> u8 \<Rightarrow> u8 \<Rightarrow> u8 \<times> 'a emu_scheme" where
  "sar8 e d s = (let
     e = e\<lparr>df := d_sar8\<rparr>;
     e = e\<lparr>op1 := ucast d\<rparr>;
     s = s AND 0x1F;
     e = e\<lparr>op2 := ucast s\<rparr>;
     e = e\<lparr>res := ucast (ucast (signed_drop_bit (unat s) (scast d :: u32)) :: u8)\<rparr>
   in (ucast (res e), e))"

definition sar16 :: "'a emu_scheme \<Rightarrow> u16 \<Rightarrow> u8 \<Rightarrow> u16 \<times> 'a emu_scheme" where
  "sar16 e d s = (let
     e = e\<lparr>df := d_sar16\<rparr>;
     e = e\<lparr>op1 := ucast d\<rparr>;
     s = s AND 0x1F;
     e = e\<lparr>op2 := ucast s\<rparr>;
     e = e\<lparr>res := ucast (ucast (signed_drop_bit (unat s) (scast d :: u32)) :: u16)\<rparr>
   in (ucast (res e), e))"

definition sar32 :: "'a emu_scheme \<Rightarrow> u32 \<Rightarrow> u8 \<Rightarrow> u32 \<times> 'a emu_scheme" where
  "sar32 e d s = (let
     e = e\<lparr>df := d_sar32\<rparr>;
     e = e\<lparr>op1 := d\<rparr>;
     s = s AND 0x1F;
     e = e\<lparr>op2 := ucast s\<rparr>;
     e = e\<lparr>res := signed_drop_bit (unat s) d\<rparr>
   in (res e, e))"

definition rcl8 :: "'a emu_scheme \<Rightarrow> u8 \<Rightarrow> u8 \<Rightarrow> u8 \<times> 'a emu_scheme" where
  "rcl8 e d s = (let
     e = CHECK_FLAGS e;
     s = s AND 0x1F;
     r = ucast d :: u32;
     cnt = unat s mod 9
   in if cnt \<noteq> 0 then (let
        cf = drop_bit (8 - cnt) (ucast d) AND 0x1;
        r = push_bit cnt (ucast d) AND 0xFF :: u32;
        mask = push_bit (cnt - 1) 1 - 1;
        r = r OR (drop_bit (9 - cnt) (ucast d) AND mask);
        r = (if ACCESS_FLAG F_CF e then r OR push_bit (cnt - 1) 1 else r);
        e = CONDITIONAL_SET_FLAG (cf \<noteq> 0) F_CF e;
        e = (if cnt = 1 then CONDITIONAL_SET_FLAG ((cf XOR drop_bit 7 r) AND 0x1 \<noteq> 0) F_OF e else e)
      in (ucast r, e))
      else (ucast r, e))"

definition rcl16 :: "'a emu_scheme \<Rightarrow> u16 \<Rightarrow> u8 \<Rightarrow> u16 \<times> 'a emu_scheme" where
  "rcl16 e d s = (let
     e = CHECK_FLAGS e;
     s = s AND 0x1F;
     r = ucast d :: u32;
     cnt = unat s mod 17
   in if cnt \<noteq> 0 then (let
        cf = drop_bit (16 - cnt) (ucast d) AND 0x1;
        r = push_bit cnt (ucast d) AND 0xFFFF :: u32;
        mask = push_bit (cnt - 1) 1 - 1;
        r = r OR (drop_bit (17 - cnt) (ucast d) AND mask);
        r = (if ACCESS_FLAG F_CF e then r OR push_bit (cnt - 1) 1 else r);
        e = CONDITIONAL_SET_FLAG (cf \<noteq> 0) F_CF e;
        e = (if cnt = 1 then CONDITIONAL_SET_FLAG ((cf XOR drop_bit 15 r) AND 0x1 \<noteq> 0) F_OF e else e)
      in (ucast r, e))
      else (ucast r, e))"

definition rcl32 :: "'a emu_scheme \<Rightarrow> u32 \<Rightarrow> u8 \<Rightarrow> u32 \<times> 'a emu_scheme" where
  "rcl32 e d s = (let
     e = CHECK_FLAGS e;
     s = s AND 0x1F;
     r = d :: u32;
     cnt = unat s mod 33
   in if cnt \<noteq> 0 then (let
        cf = drop_bit (32 - cnt) d AND 0x1;
        r = push_bit cnt d :: u32;
        mask = push_bit (cnt - 1) 1 - 1;
        r = r OR (drop_bit (33 - cnt) d AND mask);
        r = (if ACCESS_FLAG F_CF e then r OR push_bit (cnt - 1) 1 else r);
        e = CONDITIONAL_SET_FLAG (cf \<noteq> 0) F_CF e;
        e = (if cnt = 1 then CONDITIONAL_SET_FLAG ((cf XOR drop_bit 31 r) AND 0x1 \<noteq> 0) F_OF e else e)
      in (r, e))
      else (r, e))"

definition rcr8 :: "'a emu_scheme \<Rightarrow> u8 \<Rightarrow> u8 \<Rightarrow> u8 \<times> 'a emu_scheme" where
  "rcr8 e d s = (let
     e = CHECK_FLAGS e;
     s = s AND 0x1F;
     r = ucast d :: u32;
     cnt = unat s mod 9
   in if cnt \<noteq> 0 then (let
        (cf, e) = (if cnt = 1
          then (let cf = ucast d AND 0x1 :: u32;
                    ocf = (if ACCESS_FLAG F_CF e then 1 else 0 :: u32)
                in (cf, CONDITIONAL_SET_FLAG ((ocf XOR drop_bit 7 (ucast d)) AND 0x1 \<noteq> 0) F_OF e))
          else (drop_bit (cnt - 1) (ucast d) AND 0x1, e));
        mask = push_bit (8 - cnt) 1 - 1;
        r = drop_bit cnt (ucast d) AND mask :: u32;
        r = r OR push_bit (9 - cnt) (ucast d);
        r = (if ACCESS_FLAG F_CF e then r OR push_bit (8 - cnt) 1 else r);
        e = CONDITIONAL_SET_FLAG (cf \<noteq> 0) F_CF e
      in (ucast r, e))
      else (ucast r, e))"

definition rcr16 :: "'a emu_scheme \<Rightarrow> u16 \<Rightarrow> u8 \<Rightarrow> u16 \<times> 'a emu_scheme" where
  "rcr16 e d s = (let
     e = CHECK_FLAGS e;
     s = s AND 0x1F;
     r = ucast d :: u32;
     cnt = unat s mod 17
   in if cnt \<noteq> 0 then (let
        (cf, e) = (if cnt = 1
          then (let cf = ucast d AND 0x1 :: u32;
                    ocf = (if ACCESS_FLAG F_CF e then 1 else 0 :: u32)
                in (cf, CONDITIONAL_SET_FLAG ((ocf XOR drop_bit 15 (ucast d)) AND 0x1 \<noteq> 0) F_OF e))
          else (drop_bit (cnt - 1) (ucast d) AND 0x1, e));
        mask = push_bit (16 - cnt) 1 - 1;
        r = drop_bit cnt (ucast d) AND mask :: u32;
        r = r OR push_bit (17 - cnt) (ucast d);
        r = (if ACCESS_FLAG F_CF e then r OR push_bit (16 - cnt) 1 else r);
        e = CONDITIONAL_SET_FLAG (cf \<noteq> 0) F_CF e
      in (ucast r, e))
      else (ucast r, e))"

definition rcr32 :: "'a emu_scheme \<Rightarrow> u32 \<Rightarrow> u8 \<Rightarrow> u32 \<times> 'a emu_scheme" where
  "rcr32 e d s = (let
     e = CHECK_FLAGS e;
     s = s AND 0x1F;
     r = d :: u32;
     cnt = unat s mod 33
   in if cnt \<noteq> 0 then (let
        (cf, e) = (if cnt = 1
          then (let cf = d AND 0x1 :: u32;
                    ocf = (if ACCESS_FLAG F_CF e then 1 else 0 :: u32)
                in (cf, CONDITIONAL_SET_FLAG ((ocf XOR drop_bit 31 d) AND 0x1 \<noteq> 0) F_OF e))
          else (drop_bit (cnt - 1) d AND 0x1, e));
        mask = push_bit (32 - cnt) 1 - 1;
        r = drop_bit cnt d AND mask :: u32;
        r = (if cnt \<noteq> 1 then r OR push_bit (33 - cnt) d else r);
        r = (if ACCESS_FLAG F_CF e then r OR push_bit (32 - cnt) 1 else r);
        e = CONDITIONAL_SET_FLAG (cf \<noteq> 0) F_CF e
      in (r, e))
      else (r, e))"

definition rol8 :: "'a emu_scheme \<Rightarrow> u8 \<Rightarrow> u8 \<Rightarrow> u8 \<times> 'a emu_scheme" where
  "rol8 e d s = (let
     s = s AND 0x1F
   in if s = 0 then (d, e) else (let
        cnt = unat s mod 8;
        d = (if cnt \<noteq> 0 then ucast (push_bit cnt (ucast d) + (drop_bit (8 - cnt) (ucast d) AND (push_bit cnt 1 - 1)) :: u32) else d);
        e = CHECK_FLAGS e;
        e = (if s = 1 then CONDITIONAL_SET_FLAG ((ucast d + drop_bit 7 (ucast d)) AND 1 \<noteq> (0 :: u32)) F_OF e else e);
        e = CONDITIONAL_SET_FLAG (ucast d AND 0x1 \<noteq> (0 :: u32)) F_CF e
      in (d, e)))"

definition rol16 :: "'a emu_scheme \<Rightarrow> u16 \<Rightarrow> u8 \<Rightarrow> u16 \<times> 'a emu_scheme" where
  "rol16 e d s = (let
     s = s AND 0x1F
   in if s = 0 then (d, e) else (let
        cnt = unat s mod 16;
        d = (if cnt \<noteq> 0 then ucast (push_bit cnt (ucast d) + (drop_bit (16 - cnt) (ucast d) AND (push_bit cnt 1 - 1)) :: u32) else d);
        e = CHECK_FLAGS e;
        e = (if s = 1 then CONDITIONAL_SET_FLAG ((ucast d + drop_bit 15 (ucast d)) AND 1 \<noteq> (0 :: u32)) F_OF e else e);
        e = CONDITIONAL_SET_FLAG (ucast d AND 0x1 \<noteq> (0 :: u32)) F_CF e
      in (d, e)))"

definition rol32 :: "'a emu_scheme \<Rightarrow> u32 \<Rightarrow> u8 \<Rightarrow> u32 \<times> 'a emu_scheme" where
  "rol32 e d s = (let
     s = s AND 0x1F
   in if s = 0 then (d, e) else (let
        cnt = unat s mod 32;
        d = (if cnt \<noteq> 0 then push_bit cnt d + (drop_bit (32 - cnt) d AND (push_bit cnt 1 - 1)) else d);
        e = CHECK_FLAGS e;
        e = (if s = 1 then CONDITIONAL_SET_FLAG ((d + drop_bit 31 d) AND 1 \<noteq> (0 :: u32)) F_OF e else e);
        e = CONDITIONAL_SET_FLAG (d AND 0x1 \<noteq> (0 :: u32)) F_CF e
      in (d, e)))"

definition ror8 :: "'a emu_scheme \<Rightarrow> u8 \<Rightarrow> u8 \<Rightarrow> u8 \<times> 'a emu_scheme" where
  "ror8 e d s = (let
     s = s AND 0x1F
   in if s = 0 then (d, e) else (let
        cnt = unat s mod 8;
        d = (if cnt \<noteq> 0 then ucast (push_bit (8 - cnt) (ucast d) + (drop_bit cnt (ucast d) AND (push_bit (8 - cnt) 1 - 1)) :: u32) else d);
        e = CHECK_FLAGS e;
        e = (if s = 1 then CONDITIONAL_SET_FLAG (XOR2 (drop_bit 6 (ucast d)) \<noteq> 0) F_OF e else e);
        e = CONDITIONAL_SET_FLAG (ucast d AND push_bit 7 1 \<noteq> (0 :: u32)) F_CF e
      in (d, e)))"

definition ror16 :: "'a emu_scheme \<Rightarrow> u16 \<Rightarrow> u8 \<Rightarrow> u16 \<times> 'a emu_scheme" where
  "ror16 e d s = (let
     s = s AND 0x1F
   in if s = 0 then (d, e) else (let
        cnt = unat s mod 16;
        d = (if cnt \<noteq> 0 then ucast (push_bit (16 - cnt) (ucast d) + (drop_bit cnt (ucast d) AND (push_bit (16 - cnt) 1 - 1)) :: u32) else d);
        e = CHECK_FLAGS e;
        e = (if s = 1 then CONDITIONAL_SET_FLAG (XOR2 (drop_bit 14 (ucast d)) \<noteq> 0) F_OF e else e);
        e = CONDITIONAL_SET_FLAG (ucast d AND push_bit 15 1 \<noteq> (0 :: u32)) F_CF e
      in (d, e)))"

definition ror32 :: "'a emu_scheme \<Rightarrow> u32 \<Rightarrow> u8 \<Rightarrow> u32 \<times> 'a emu_scheme" where
  "ror32 e d s = (let
     s = s AND 0x1F
   in if s = 0 then (d, e) else (let
        cnt = unat s mod 32;
        d = (if cnt \<noteq> 0 then push_bit (32 - cnt) d + (drop_bit cnt d AND (push_bit (32 - cnt) 1 - 1)) else d);
        e = CHECK_FLAGS e;
        e = (if s = 1 then CONDITIONAL_SET_FLAG (XOR2 (drop_bit 30 d) \<noteq> 0) F_OF e else e);
        e = CONDITIONAL_SET_FLAG (d AND push_bit 31 1 \<noteq> (0 :: u32)) F_CF e
      in (d, e)))"

definition shld16 :: "'a emu_scheme \<Rightarrow> u16 \<Rightarrow> u16 \<Rightarrow> u8 \<Rightarrow> u16 \<times> 'a emu_scheme" where
  "shld16 e d fill s = (let
     e = RESET_FLAGS e;
     s = s AND 0x1F;
     cnt = unat s mod 16
   in if s < 16 then (let
        (r, e) = (if cnt > 0 then (let
             r = push_bit cnt (ucast d) OR drop_bit (16 - cnt) (ucast fill) :: u32;
             cf = ucast d AND push_bit (16 - cnt) 1 :: u32;
             e = CONDITIONAL_SET_FLAG (cf \<noteq> 0) F_CF e;
             e = CONDITIONAL_SET_FLAG (r AND 0xFFFF = 0) F_ZF e;
             e = CONDITIONAL_SET_FLAG (r AND 0x8000 \<noteq> 0) F_SF e;
             e = CONDITIONAL_SET_FLAG (PARITY (r AND 0xFF)) F_PF e
           in (r, e)) else (ucast d, e));
        e = (if cnt = 1 then CONDITIONAL_SET_FLAG (drop_bit 15 (r XOR ucast d) AND 1 \<noteq> 0) F_OF e else CLEAR_FLAG F_OF e)
      in (ucast r, e))
      else (let
        r = push_bit cnt (ucast fill) OR drop_bit (16 - cnt) (ucast d) :: u32;
        cf = (if s = 16 then ucast d AND 1 else ucast fill AND push_bit (16 - cnt) 1) :: u32;
        e = CONDITIONAL_SET_FLAG (cf \<noteq> 0) F_CF e;
        e = CONDITIONAL_SET_FLAG (r AND 0xFFFF = 0) F_ZF e;
        e = CONDITIONAL_SET_FLAG (r AND 0x8000 \<noteq> 0) F_SF e;
        e = CONDITIONAL_SET_FLAG (PARITY (r AND 0xFF)) F_PF e;
        e = CLEAR_FLAG F_OF e
      in (ucast r, e)))"

definition shld32 :: "'a emu_scheme \<Rightarrow> u32 \<Rightarrow> u32 \<Rightarrow> u8 \<Rightarrow> u32 \<times> 'a emu_scheme" where
  "shld32 e d fill s = (let
     e = RESET_FLAGS e;
     s = s AND 0x1F;
     cnt = unat s mod 32;
     (r, e) = (if cnt > 0 then (let
          r = push_bit cnt d OR drop_bit (32 - cnt) fill;
          cf = d AND push_bit (32 - cnt) 1;
          e = CONDITIONAL_SET_FLAG (cf \<noteq> 0) F_CF e;
          e = CONDITIONAL_SET_FLAG (r = 0) F_ZF e;
          e = CONDITIONAL_SET_FLAG (r AND 0x80000000 \<noteq> 0) F_SF e;
          e = CONDITIONAL_SET_FLAG (PARITY (r AND 0xFF)) F_PF e
        in (r, e)) else (d, e));
     e = (if cnt = 1 then CONDITIONAL_SET_FLAG (drop_bit 31 (r XOR d) AND 1 \<noteq> 0) F_OF e else CLEAR_FLAG F_OF e)
   in (r, e))"

definition shrd16 :: "'a emu_scheme \<Rightarrow> u16 \<Rightarrow> u16 \<Rightarrow> u8 \<Rightarrow> u16 \<times> 'a emu_scheme" where
  "shrd16 e d fill s = (let
     e = RESET_FLAGS e;
     s = s AND 0x1F;
     cnt = unat s mod 16
   in if s < 16 then (let
        (r, e) = (if cnt > 0 then (let
             cf = ucast d AND push_bit (cnt - 1) 1 :: u32;
             r = drop_bit cnt (ucast d) OR push_bit (16 - cnt) (ucast fill) :: u32;
             e = CONDITIONAL_SET_FLAG (cf \<noteq> 0) F_CF e;
             e = CONDITIONAL_SET_FLAG (r AND 0xFFFF = 0) F_ZF e;
             e = CONDITIONAL_SET_FLAG (r AND 0x8000 \<noteq> 0) F_SF e;
             e = CONDITIONAL_SET_FLAG (PARITY (r AND 0xFF)) F_PF e
           in (r, e)) else (ucast d, e));
        e = (if cnt = 1 then CONDITIONAL_SET_FLAG (drop_bit 15 (r XOR ucast d) AND 1 \<noteq> 0) F_OF e else CLEAR_FLAG F_OF e)
      in (ucast r, e))
      else (let
        cf = (if cnt = 0 then 0 else ucast fill AND push_bit (cnt - 1) 1) :: u32;
        r = drop_bit cnt (ucast fill) OR push_bit (16 - cnt) (ucast d) :: u32;
        e = CONDITIONAL_SET_FLAG (cf \<noteq> 0) F_CF e;
        e = CONDITIONAL_SET_FLAG (r AND 0xFFFF = 0) F_ZF e;
        e = CONDITIONAL_SET_FLAG (r AND 0x8000 \<noteq> 0) F_SF e;
        e = CONDITIONAL_SET_FLAG (PARITY (r AND 0xFF)) F_PF e;
        e = CLEAR_FLAG F_OF e
      in (ucast r, e)))"

definition shrd32 :: "'a emu_scheme \<Rightarrow> u32 \<Rightarrow> u32 \<Rightarrow> u8 \<Rightarrow> u32 \<times> 'a emu_scheme" where
  "shrd32 e d fill s = (let
     e = RESET_FLAGS e;
     s = s AND 0x1F;
     cnt = unat s mod 32;
     (r, e) = (if cnt > 0 then (let
          cf = d AND push_bit (cnt - 1) 1;
          r = drop_bit cnt d OR push_bit (32 - cnt) fill;
          e = CONDITIONAL_SET_FLAG (cf \<noteq> 0) F_CF e;
          e = CONDITIONAL_SET_FLAG (r = 0) F_ZF e;
          e = CONDITIONAL_SET_FLAG (r AND 0x80000000 \<noteq> 0) F_SF e;
          e = CONDITIONAL_SET_FLAG (PARITY (r AND 0xFF)) F_PF e
        in (r, e)) else (d, e));
     e = (if cnt = 1 then CONDITIONAL_SET_FLAG (drop_bit 31 (r XOR d) AND 1 \<noteq> 0) F_OF e else CLEAR_FLAG F_OF e)
   in (r, e))"

section \<open>The shift count and the flags of a result\<close>

definition count :: "u8 \<Rightarrow> nat" where
  "count s = unat (s AND 0x1F)"

definition result_flags :: "bool \<Rightarrow> bool \<Rightarrow> bool \<Rightarrow> 'a::len word \<Rightarrow> aflags" where
  "result_flags cf af ov r =
     \<lparr>a_CF = cf, a_PF = even_parity r, a_AF = af, a_ZF = (r = 0), a_SF = (sint r < 0), a_OF = ov\<rparr>"

lemma count_word: "s AND 0x1F = word_of_nat (count s)" "count s < 32"
proof -
  have "s AND 0x1F = take_bit 5 s" by (simp add: take_bit_eq_mask mask_eq_exp_minus_1)
  then have "unat (s AND 0x1F) < 32"
    by (simp only: unsigned_take_bit_eq) (simp add: take_bit_nat_def)
  then show "count s < 32" "s AND 0x1F = word_of_nat (count s)" by (simp_all add: count_def)
qed

text \<open>A count below 32 in the fields and comparisons of the source.\<close>

lemma count_u32:
  assumes "n < 32"
  shows "(ucast (word_of_nat n :: u8) :: u32) = word_of_nat n" "unat (word_of_nat n :: u8) = n"
    "(word_of_nat n :: u8) = 0 \<longleftrightarrow> n = 0" "(word_of_nat n :: u8) = 1 \<longleftrightarrow> n = 1"
    "(word_of_nat n :: u32) = 0 \<longleftrightarrow> n = 0" "(word_of_nat n :: u32) = 1 \<longleftrightarrow> n = 1"
    "(word_of_nat n :: u32) < 8 \<longleftrightarrow> n < 8" "(word_of_nat n :: u32) < 16 \<longleftrightarrow> n < 16"
    "0 < (word_of_nat n :: u32) \<longleftrightarrow> 0 < n"
    "0 < n \<Longrightarrow> unat (word_of_nat n - 1 :: u32) = n - 1"
    "unat (32 - word_of_nat n :: u32) = 32 - n"
    "n < 8 \<Longrightarrow> (word_of_nat n :: u32) mod 8 = word_of_nat n"
    "n < 16 \<Longrightarrow> (word_of_nat n :: u32) mod 16 = word_of_nat n"
    "n < 8 \<Longrightarrow> unat (8 - word_of_nat n :: u32) = 8 - n"
    "n < 16 \<Longrightarrow> unat (16 - word_of_nat n :: u32) = 16 - n"
proof -
  have u: "unat (word_of_nat n :: u32) = n" "unat (word_of_nat n :: u8) = n"
    using assms by (simp_all add: unsigned_of_nat take_bit_nat_eq_self)
  show "(ucast (word_of_nat n :: u8) :: u32) = word_of_nat n"
    using assms by (simp add: word_uint_eq_iff uint_ucast32 unsigned_of_nat take_bit_nat_eq_self)
  show "unat (word_of_nat n :: u8) = n" by (fact u)
  show "(word_of_nat n :: u8) = 0 \<longleftrightarrow> n = 0" "(word_of_nat n :: u8) = 1 \<longleftrightarrow> n = 1"
    "(word_of_nat n :: u32) = 0 \<longleftrightarrow> n = 0" "(word_of_nat n :: u32) = 1 \<longleftrightarrow> n = 1"
    using u by (simp_all add: word_unat_eq_iff)
  show "(word_of_nat n :: u32) < 8 \<longleftrightarrow> n < 8" "(word_of_nat n :: u32) < 16 \<longleftrightarrow> n < 16"
    "0 < (word_of_nat n :: u32) \<longleftrightarrow> 0 < n"
    using u by (simp_all add: word_less_nat_alt)
  show "0 < n \<Longrightarrow> unat (word_of_nat n - 1 :: u32) = n - 1"
    using u by (simp add: unat_sub word_le_nat_alt)
  show "unat (32 - word_of_nat n :: u32) = 32 - n"
    using u assms by (simp add: unat_sub word_le_nat_alt)
  show "n < 8 \<Longrightarrow> (word_of_nat n :: u32) mod 8 = word_of_nat n"
    "n < 16 \<Longrightarrow> (word_of_nat n :: u32) mod 16 = word_of_nat n"
    using u by (simp_all add: word_unat_eq_iff unat_mod)
  show "n < 8 \<Longrightarrow> unat (8 - word_of_nat n :: u32) = 8 - n"
    "n < 16 \<Longrightarrow> unat (16 - word_of_nat n :: u32) = 16 - n"
    using u by (simp_all add: unat_sub word_le_nat_alt)
qed

lemma and_push_one [mask_simps]:
  fixes x :: "'a::len word"
  shows "x AND push_bit m 1 = 0 \<longleftrightarrow> \<not> bit x m"
  using and_pow_eq_0 [of x m] by (simp add: push_bit_eq_mult)

lemma and_one_bit [mask_simps]:
  fixes x :: "'a::len word"
  shows "drop_bit m x AND 1 = 0 \<longleftrightarrow> \<not> bit x m"
  using and_pow_eq_0 [of "drop_bit m x" 0] by (simp add: bit_drop_bit_eq)

lemma and_two_power [mask_simps]:
  fixes x :: "'a::len word"
  shows "x AND 2 ^ n = 0 \<longleftrightarrow> \<not> bit x n"
  by (rule and_pow_eq_0)

lemma and_two_power_full:
  fixes x :: "'a::len word"
  assumes "n < LENGTH('a)"
  shows "x AND 2 ^ n = 2 ^ n \<longleftrightarrow> bit x n"
proof -
  have "x AND 2 ^ n = (if bit x n then 2 ^ n else 0)"
    by (rule bit_word_eqI) (auto simp: bit_and_iff bit_exp_iff)
  then show ?thesis using assms by simp
qed

lemma byte_mask_full [mask_simps]: "x AND 0x80 = 0x80 \<longleftrightarrow> bit x 7" for x :: u32
  using and_two_power_full [of 7 x] by simp

lemma and_one: "x AND 1 = 0 \<longleftrightarrow> \<not> bit x 0" for x :: "'a::len word"
  using and_pow_eq_0 [of x 0] by simp

lemma sar_saturates:
  fixes d :: "'a::len word"
  assumes "LENGTH('a) \<le> n"
  shows "signed_drop_bit n d = (if bit d (LENGTH('a) - 1) then - 1 else 0)"
  using assms by (intro bit_word_eqI) (auto simp: bit_simps)

lemma even_parity_minus_1 [simp]: "even_parity (- 1 :: 'a::len word)" if "8 \<le> LENGTH('a)"
  using that by (simp add: even_parity_def upt_8)

lemma sint_bits:
  "sint (w8 :: u8) < 0 \<longleftrightarrow> bit w8 7" "sint (w16 :: u16) < 0 \<longleftrightarrow> bit w16 15" "sint (w32 :: u32) < 0 \<longleftrightarrow> bit w32 31"
  using bit_top_sint [of w8] bit_top_sint [of w16] bit_top_sint [of w32] by simp_all

text \<open>The zero, sign and parity expressions of the source at each width.\<close>

lemma masks8:
  fixes r :: u32
  shows "PARITY (r AND 0xFF) = even_parity (ucast r :: u8)" "r AND 0xFF = 0 \<longleftrightarrow> (ucast r :: u8) = 0"
    "r AND 0x80 = 0 \<longleftrightarrow> \<not> bit (ucast r :: u8) 7" "r AND 0x80 = 0x80 \<longleftrightarrow> bit (ucast r :: u8) 7"
  using even_parity_ucast [where 'a = 8 and x = r]
  by (simp_all add: PARITY_even_parity mask_simps bit_ucast_iff)

lemma masks16:
  fixes r :: u32
  shows "PARITY (r AND 0xFF) = even_parity (ucast r :: u16)" "r AND 0xFFFF = 0 \<longleftrightarrow> (ucast r :: u16) = 0"
    "r AND 0x8000 = 0 \<longleftrightarrow> \<not> bit (ucast r :: u16) 15"
  using even_parity_ucast [where 'a = 16 and x = r]
  by (simp_all add: PARITY_even_parity mask_simps bit_ucast_iff)

lemma masks32:
  fixes r :: u32
  shows "PARITY (r AND 0xFF) = even_parity r" "r AND 0x80000000 = 0 \<longleftrightarrow> \<not> bit r 31"
  by (simp_all add: PARITY_even_parity mask_simps)

lemma shift_values [result_simps]:
  fixes d :: "'a::len word"
  assumes "LENGTH('a) \<le> 32"
  shows "(ucast (push_bit n (ucast d) :: u32) :: 'a word) = push_bit n d"
    "(ucast (drop_bit n (ucast d) :: u32) :: 'a word) = drop_bit n d"
    "(ucast (signed_drop_bit n (scast d :: u32)) :: 'a word) = signed_drop_bit n d"
    "(ucast (ucast d :: u32) :: 'a word) = d"
proof -
  have less: "k < 32" if "bit d k" for k
    using bit_imp_le_length [OF that] assms by simp
  show "(ucast (push_bit n (ucast d) :: u32) :: 'a word) = push_bit n d"
    "(ucast (drop_bit n (ucast d) :: u32) :: 'a word) = drop_bit n d"
    "(ucast (ucast d :: u32) :: 'a word) = d"
    using assms by (auto intro!: bit_word_eqI simp: bit_simps dest: less)
  show "(ucast (signed_drop_bit n (scast d :: u32)) :: 'a word) = signed_drop_bit n d"
  proof (rule bit_word_eqI)
    fix j assume j: "j < LENGTH('a)"
    show "bit (ucast (signed_drop_bit n (scast d :: u32)) :: 'a word) j = bit (signed_drop_bit n d) j"
      using assms j by (auto simp: bit_simps)
  qed
qed

section \<open>Shifts\<close>

lemma shift_value:
  "fst (shl8 e d8 s) = push_bit (count s) d8" "fst (shl16 e d16 s) = push_bit (count s) d16"
  "fst (shl32 e d32 s) = push_bit (count s) d32"
  "fst (shr8 e d8 s) = drop_bit (count s) d8" "fst (shr16 e d16 s) = drop_bit (count s) d16"
  "fst (shr32 e d32 s) = drop_bit (count s) d32"
  "fst (sar8 e d8 s) = signed_drop_bit (count s) d8" "fst (sar16 e d16 s) = signed_drop_bit (count s) d16"
  "fst (sar32 e d32 s) = signed_drop_bit (count s) d32"
  by (simp_all add: shl8_def shl16_def shl32_def shr8_def shr16_def shr32_def sar8_def sar16_def sar32_def
      Let_def result_simps flip: count_def)

lemma shift_frame [frame_simps]:
  "erase_flags (snd (shl8 e d8 s)) = erase_flags e" "erase_flags (snd (shl16 e d16 s)) = erase_flags e"
  "erase_flags (snd (shl32 e d32 s)) = erase_flags e" "erase_flags (snd (shr8 e d8 s)) = erase_flags e"
  "erase_flags (snd (shr16 e d16 s)) = erase_flags e" "erase_flags (snd (shr32 e d32 s)) = erase_flags e"
  "erase_flags (snd (sar8 e d8 s)) = erase_flags e" "erase_flags (snd (sar16 e d16 s)) = erase_flags e"
  "erase_flags (snd (sar32 e d32 s)) = erase_flags e"
  by (simp_all add: shl8_def shl16_def shl32_def shr8_def shr16_def shr32_def sar8_def sar16_def sar32_def Let_def)

text \<open>What the deferred cases find: the count as a 32-bit field.\<close>

lemmas shift_fields = count_word(1) count_u32 [OF count_word(2)]

lemma push_bit_too_far [simp]: "LENGTH('a) \<le> n \<Longrightarrow> push_bit n (d :: 'a::len word) = 0"
  by (rule bit_word_eqI) (simp add: bit_simps)

lemma drop_bit_too_far [simp]: "LENGTH('a) \<le> n \<Longrightarrow> drop_bit n (d :: 'a::len word) = 0"
  by (rule bit_word_eqI) (simp add: bit_simps)

lemma even_parity_0 [simp]: "even_parity 0"
  by (simp add: even_parity_def)


lemma shl8_flags:
  assumes "0 < count s"
  shows "visible_flags (snd (shl8 e d s)) =
    result_flags (count s \<le> 8 \<and> bit d (8 - count s)) (ACCESS_FLAG F_AF e)
      (count s = 1 \<and> bit d 7 \<noteq> bit d 6) (push_bit (count s) d)"
  using assms count_word(2) [of s]
  by (simp add: shl8_def Let_def visible_flags_def UpdateFlags_tag uf_shl8_def status_flags_def result_flags_def
      shift_fields masks8 and_push_one result_simps sint_bits bit_push_bit_iff bit_ucast_iff del: push_bit_Suc push_bit_of_1) auto

lemma shl16_flags:
  assumes "0 < count s"
  shows "visible_flags (snd (shl16 e d s)) =
    result_flags (count s \<le> 16 \<and> bit d (16 - count s)) (ACCESS_FLAG F_AF e)
      (count s = 1 \<and> bit d 15 \<noteq> bit d 14) (push_bit (count s) d)"
  using assms count_word(2) [of s]
  by (simp add: shl16_def Let_def visible_flags_def UpdateFlags_tag uf_shl16_def status_flags_def result_flags_def
      shift_fields masks16 and_push_one result_simps sint_bits bit_push_bit_iff bit_ucast_iff del: push_bit_Suc push_bit_of_1) auto

lemma shl32_flags:
  assumes "0 < count s"
  shows "visible_flags (snd (shl32 e d s)) =
    result_flags (count s \<le> 32 \<and> bit d (32 - count s)) (ACCESS_FLAG F_AF e)
      (count s = 1 \<and> bit d 31 \<noteq> bit d 30) (push_bit (count s) d)"
  using assms count_word(2) [of s]
  by (simp add: shl32_def Let_def visible_flags_def UpdateFlags_tag uf_shl32_def status_flags_def result_flags_def
      shift_fields masks32 and_push_one result_simps sint_bits bit_push_bit_iff bit_ucast_iff del: push_bit_Suc push_bit_of_1) auto

lemma shr8_flags:
  assumes "0 < count s"
  shows "visible_flags (snd (shr8 e d s)) =
    result_flags (bit d (count s - 1)) (ACCESS_FLAG F_AF e)
      (if count s = 1 then bit d 7 else ACCESS_FLAG F_OF e) (drop_bit (count s) d)"
  using assms count_word(2) [of s]
  by (simp add: shr8_def Let_def visible_flags_def UpdateFlags_tag uf_shr8_def status_flags_def result_flags_def
      shift_fields masks8 and_push_one and_one_bit and_one result_simps sint_bits bit_drop_bit_eq bit_ucast_iff
      del: push_bit_Suc push_bit_of_1 drop_bit_Suc; auto dest: bit_imp_le_length)

lemma shr16_flags:
  assumes "0 < count s"
  shows "visible_flags (snd (shr16 e d s)) =
    result_flags (count s < 16 \<and> bit d (count s - 1)) (ACCESS_FLAG F_AF e)
      (if count s = 1 then bit d 15 else ACCESS_FLAG F_OF e) (drop_bit (count s) d)"
  using assms count_word(2) [of s]
  by (simp add: shr16_def Let_def visible_flags_def UpdateFlags_tag uf_shr16_def status_flags_def result_flags_def
      shift_fields masks16 and_push_one and_one_bit and_one result_simps sint_bits bit_drop_bit_eq bit_ucast_iff
      del: push_bit_Suc push_bit_of_1 drop_bit_Suc; auto dest: bit_imp_le_length)

lemma shr32_flags:
  assumes "0 < count s"
  shows "visible_flags (snd (shr32 e d s)) =
    result_flags (bit d (count s - 1)) (ACCESS_FLAG F_AF e)
      (if count s = 1 then bit d 31 else ACCESS_FLAG F_OF e) (drop_bit (count s) d)"
  using assms count_word(2) [of s]
  by (simp add: shr32_def Let_def visible_flags_def UpdateFlags_tag uf_shr32_def status_flags_def result_flags_def
      shift_fields masks32 and_push_one and_one_bit and_one result_simps sint_bits bit_drop_bit_eq bit_ucast_iff
      del: push_bit_Suc push_bit_of_1 drop_bit_Suc; auto dest: bit_imp_le_length)

lemma min_count:
  "min (n - 1) 7 = (if n < 8 then n - 1 else 7)" "min (n - 1) 15 = (if n < 16 then n - 1 else 15)"
  "n < 32 \<Longrightarrow> min (n - 1) 31 = n - 1" for n :: nat
  by auto

lemma sar8_flags:
  assumes "0 < count s"
  shows "visible_flags (snd (sar8 e d s)) =
    result_flags (bit d (min (count s - 1) 7)) (ACCESS_FLAG F_AF e)
      (count s \<noteq> 1 \<and> ACCESS_FLAG F_OF e) (signed_drop_bit (count s) d)"
  using assms count_word(2) [of s]
  by (simp add: sar8_def Let_def visible_flags_def UpdateFlags_tag uf_sar8_def status_flags_def result_flags_def
      shift_fields masks8 and_push_one and_one_bit and_one result_simps sint_bits bit_signed_drop_bit_iff bit_ucast_iff sar_saturates min_count
      del: push_bit_Suc push_bit_of_1 drop_bit_Suc; auto dest: bit_imp_le_length)

lemma sar16_flags:
  assumes "0 < count s"
  shows "visible_flags (snd (sar16 e d s)) =
    result_flags (bit d (min (count s - 1) 15)) (ACCESS_FLAG F_AF e)
      (count s \<noteq> 1 \<and> ACCESS_FLAG F_OF e) (signed_drop_bit (count s) d)"
  using assms count_word(2) [of s]
  by (simp add: sar16_def Let_def visible_flags_def UpdateFlags_tag uf_sar16_def status_flags_def result_flags_def
      shift_fields masks16 and_push_one and_one_bit and_one result_simps sint_bits bit_signed_drop_bit_iff bit_ucast_iff sar_saturates min_count
      del: push_bit_Suc push_bit_of_1 drop_bit_Suc; auto dest: bit_imp_le_length)

lemma sar32_flags:
  assumes "0 < count s"
  shows "visible_flags (snd (sar32 e d s)) =
    result_flags (bit d (min (count s - 1) 31)) (ACCESS_FLAG F_AF e)
      (count s \<noteq> 1 \<and> ACCESS_FLAG F_OF e) (signed_drop_bit (count s) d)"
  using assms count_word(2) [of s]
  by (simp add: sar32_def Let_def visible_flags_def UpdateFlags_tag uf_sar32_def status_flags_def result_flags_def
      shift_fields masks32 and_push_one and_one_bit and_one result_simps sint_bits bit_signed_drop_bit_iff bit_ucast_iff sar_saturates min_count
      del: push_bit_Suc push_bit_of_1 drop_bit_Suc; auto dest: bit_imp_le_length)

section \<open>Rotates\<close>

lemma or_disjoint:
  fixes x y :: "'a::len word"
  assumes "\<And>j. \<not> bit x j \<or> \<not> bit y j"
  shows "x + y = x OR y"
  using assms by (rule disjunctive_add)

lemma rotate_left_bits:
  fixes d :: "'a::len word"
  assumes "LENGTH('a) \<le> 32" "0 < n" "n < LENGTH('a)"
  shows "(ucast (push_bit n (ucast d) + (drop_bit (LENGTH('a) - n) (ucast d) AND (push_bit n 1 - 1)) :: u32) :: 'a word)
    = word_rotl n d"
proof -
  have m: "push_bit n 1 - 1 = (mask n :: u32)"
    by (simp add: mask_eq_exp_minus_1 push_bit_eq_mult)
  have s: "push_bit n (ucast d) + (drop_bit (LENGTH('a) - n) (ucast d) AND mask n) =
      push_bit n (ucast d) OR (drop_bit (LENGTH('a) - n) (ucast d) AND mask n :: u32)"
    by (rule or_disjoint) (auto simp: bit_simps)
  show ?thesis unfolding m s
  proof (rule bit_word_eqI)
    fix j assume j: "j < LENGTH('a)"
    show "bit (ucast (push_bit n (ucast d) OR (drop_bit (LENGTH('a) - n) (ucast d) AND mask n) :: u32) :: 'a word) j
      = bit (word_rotl n d) j"
    proof (cases "j < n")
      case True
      with assms j show ?thesis
        by (auto simp: bit_simps bit_word_rotl_iff ac_simps)
    next
      case False
      with assms j have "(j + (LENGTH('a) - n)) mod LENGTH('a) = j - n"
        by (simp add: mod_if)
      with False assms j show ?thesis
        by (auto simp: bit_simps bit_word_rotl_iff)
    qed
  qed
qed

lemma rotate_right_bits:
  fixes d :: "'a::len word"
  assumes "LENGTH('a) \<le> 32" "0 < n" "n < LENGTH('a)"
  shows "(ucast (push_bit (LENGTH('a) - n) (ucast d) + (drop_bit n (ucast d) AND (push_bit (LENGTH('a) - n) 1 - 1)) :: u32) :: 'a word)
    = word_rotr n d"
  using rotate_left_bits [of "LENGTH('a) - n" d] assms
  by (simp add: word_rotl_eq_word_rotr)

lemma word_rot_mod:
  fixes d :: "'a::len word"
  shows "word_rotl (n mod LENGTH('a)) d = word_rotl n d" "word_rotr (n mod LENGTH('a)) d = word_rotr n d"
  by (rule bit_word_eqI; simp add: bit_word_rotl_iff bit_word_rotr_iff mod_add_right_eq)+

lemma word_rot_0: "word_rotl 0 d = d" "word_rotr 0 d = d" for d :: "'a::len word"
  by (rule bit_word_eqI; simp add: bit_word_rotl_iff bit_word_rotr_iff)+

lemma word_rotl_mod:
  fixes d :: "'a::len word"
  shows "word_rotl (n mod LENGTH('a)) d = word_rotl n d" "word_rotr (n mod LENGTH('a)) d = word_rotr n d"
    "n mod LENGTH('a) = 0 \<Longrightarrow> word_rotl n d = d" "n mod LENGTH('a) = 0 \<Longrightarrow> word_rotr n d = d"
  using word_rot_mod [of n d] by (simp_all add: word_rot_0)

lemma odd_sum_bit: "bit (x + y) 0 \<longleftrightarrow> (bit x 0 \<noteq> bit y 0)" for x y :: "'a::len word"
  by (simp add: bit_0)

lemma rol8_eq:
  "rol8 e d s = (if count s = 0 then (d, e) else (let
     r = word_rotl (count s) d;
     e = UpdateFlags e;
     e = (if count s = 1 then CONDITIONAL_SET_FLAG (bit r 0 \<noteq> bit r 7) F_OF e else e)
   in (r, CONDITIONAL_SET_FLAG (bit r 0) F_CF e)))"
proof -
  have z: "word_rotl (count s) d = d" if "count s mod 8 = 0"
    using word_rotl_mod(3) [where 'a = 8] that by simp
  have n: "ucast (push_bit (count s mod 8) (ucast d) + (drop_bit (8 - count s mod 8) (ucast d) AND (push_bit (count s mod 8) 1 - 1)) :: u32) = word_rotl (count s) d" if "count s mod 8 \<noteq> 0"
    using rotate_left_bits [of "count s mod 8" d] word_rotl_mod(1) [of "count s" d] that by simp
  have v: "(if count s mod 8 \<noteq> 0 then ucast (push_bit (count s mod 8) (ucast d) + (drop_bit (8 - count s mod 8) (ucast d) AND (push_bit (count s mod 8) 1 - 1)) :: u32) else d) = word_rotl (count s) d"
    using z n by simp
  show ?thesis
    by (simp only: rol8_def Let_def shift_fields v)
      (auto simp: and_push_one and_one odd_sum_bit XOR2_iff bit_ucast_iff bit_drop_bit_eq CHECK_FLAGS_eq simp del: push_bit_of_1)
qed

lemma ror8_eq:
  "ror8 e d s = (if count s = 0 then (d, e) else (let
     r = word_rotr (count s) d;
     e = UpdateFlags e;
     e = (if count s = 1 then CONDITIONAL_SET_FLAG (bit r 6 \<noteq> bit r 7) F_OF e else e)
   in (r, CONDITIONAL_SET_FLAG (bit r 7) F_CF e)))"
proof -
  have z: "word_rotr (count s) d = d" if "count s mod 8 = 0"
    using word_rotl_mod(4) [where 'a = 8] that by simp
  have n: "ucast (push_bit (8 - count s mod 8) (ucast d) + (drop_bit (count s mod 8) (ucast d) AND (push_bit (8 - count s mod 8) 1 - 1)) :: u32) = word_rotr (count s) d" if "count s mod 8 \<noteq> 0"
    using rotate_right_bits [of "count s mod 8" d] word_rotl_mod(2) [of "count s" d] that by simp
  have v: "(if count s mod 8 \<noteq> 0 then ucast (push_bit (8 - count s mod 8) (ucast d) + (drop_bit (count s mod 8) (ucast d) AND (push_bit (8 - count s mod 8) 1 - 1)) :: u32) else d) = word_rotr (count s) d"
    using z n by simp
  show ?thesis
    by (simp only: ror8_def Let_def shift_fields v)
      (auto simp: and_push_one and_one odd_sum_bit XOR2_iff bit_ucast_iff bit_drop_bit_eq CHECK_FLAGS_eq simp del: push_bit_of_1)
qed

lemma rol16_eq:
  "rol16 e d s = (if count s = 0 then (d, e) else (let
     r = word_rotl (count s) d;
     e = UpdateFlags e;
     e = (if count s = 1 then CONDITIONAL_SET_FLAG (bit r 0 \<noteq> bit r 15) F_OF e else e)
   in (r, CONDITIONAL_SET_FLAG (bit r 0) F_CF e)))"
proof -
  have z: "word_rotl (count s) d = d" if "count s mod 16 = 0"
    using word_rotl_mod(3) [where 'a = 16] that by simp
  have n: "ucast (push_bit (count s mod 16) (ucast d) + (drop_bit (16 - count s mod 16) (ucast d) AND (push_bit (count s mod 16) 1 - 1)) :: u32) = word_rotl (count s) d" if "count s mod 16 \<noteq> 0"
    using rotate_left_bits [of "count s mod 16" d] word_rotl_mod(1) [of "count s" d] that by simp
  have v: "(if count s mod 16 \<noteq> 0 then ucast (push_bit (count s mod 16) (ucast d) + (drop_bit (16 - count s mod 16) (ucast d) AND (push_bit (count s mod 16) 1 - 1)) :: u32) else d) = word_rotl (count s) d"
    using z n by simp
  show ?thesis
    by (simp only: rol16_def Let_def shift_fields v)
      (auto simp: and_push_one and_one odd_sum_bit XOR2_iff bit_ucast_iff bit_drop_bit_eq CHECK_FLAGS_eq simp del: push_bit_of_1)
qed

lemma ror16_eq:
  "ror16 e d s = (if count s = 0 then (d, e) else (let
     r = word_rotr (count s) d;
     e = UpdateFlags e;
     e = (if count s = 1 then CONDITIONAL_SET_FLAG (bit r 14 \<noteq> bit r 15) F_OF e else e)
   in (r, CONDITIONAL_SET_FLAG (bit r 15) F_CF e)))"
proof -
  have z: "word_rotr (count s) d = d" if "count s mod 16 = 0"
    using word_rotl_mod(4) [where 'a = 16] that by simp
  have n: "ucast (push_bit (16 - count s mod 16) (ucast d) + (drop_bit (count s mod 16) (ucast d) AND (push_bit (16 - count s mod 16) 1 - 1)) :: u32) = word_rotr (count s) d" if "count s mod 16 \<noteq> 0"
    using rotate_right_bits [of "count s mod 16" d] word_rotl_mod(2) [of "count s" d] that by simp
  have v: "(if count s mod 16 \<noteq> 0 then ucast (push_bit (16 - count s mod 16) (ucast d) + (drop_bit (count s mod 16) (ucast d) AND (push_bit (16 - count s mod 16) 1 - 1)) :: u32) else d) = word_rotr (count s) d"
    using z n by simp
  show ?thesis
    by (simp only: ror16_def Let_def shift_fields v)
      (auto simp: and_push_one and_one odd_sum_bit XOR2_iff bit_ucast_iff bit_drop_bit_eq CHECK_FLAGS_eq simp del: push_bit_of_1)
qed

lemma rol32_eq:
  "rol32 e d s = (if count s = 0 then (d, e) else (let
     r = word_rotl (count s) d;
     e = UpdateFlags e;
     e = (if count s = 1 then CONDITIONAL_SET_FLAG (bit r 0 \<noteq> bit r 31) F_OF e else e)
   in (r, CONDITIONAL_SET_FLAG (bit r 0) F_CF e)))"
proof -
  have z: "word_rotl (count s) d = d" if "count s mod 32 = 0"
    using word_rotl_mod(3) [where 'a = 32] that by simp
  have n: "(push_bit (count s mod 32) d + (drop_bit (32 - count s mod 32) d AND (push_bit (count s mod 32) 1 - 1)) :: u32) = word_rotl (count s) d" if "count s mod 32 \<noteq> 0"
    using rotate_left_bits [of "count s mod 32" d] word_rotl_mod(1) [of "count s" d] that by simp
  have v: "(if count s mod 32 \<noteq> 0 then (push_bit (count s mod 32) d + (drop_bit (32 - count s mod 32) d AND (push_bit (count s mod 32) 1 - 1)) :: u32) else d) = word_rotl (count s) d"
    using z n by simp
  show ?thesis
    by (simp only: rol32_def Let_def shift_fields v)
      (auto simp: and_push_one and_one odd_sum_bit XOR2_iff bit_ucast_iff bit_drop_bit_eq CHECK_FLAGS_eq simp del: push_bit_of_1)
qed

lemma ror32_eq:
  "ror32 e d s = (if count s = 0 then (d, e) else (let
     r = word_rotr (count s) d;
     e = UpdateFlags e;
     e = (if count s = 1 then CONDITIONAL_SET_FLAG (bit r 30 \<noteq> bit r 31) F_OF e else e)
   in (r, CONDITIONAL_SET_FLAG (bit r 31) F_CF e)))"
proof -
  have z: "word_rotr (count s) d = d" if "count s mod 32 = 0"
    using word_rotl_mod(4) [where 'a = 32] that by simp
  have n: "(push_bit (32 - count s mod 32) d + (drop_bit (count s mod 32) d AND (push_bit (32 - count s mod 32) 1 - 1)) :: u32) = word_rotr (count s) d" if "count s mod 32 \<noteq> 0"
    using rotate_right_bits [of "count s mod 32" d] word_rotl_mod(2) [of "count s" d] that by simp
  have v: "(if count s mod 32 \<noteq> 0 then (push_bit (32 - count s mod 32) d + (drop_bit (count s mod 32) d AND (push_bit (32 - count s mod 32) 1 - 1)) :: u32) else d) = word_rotr (count s) d"
    using z n by simp
  show ?thesis
    by (simp only: ror32_def Let_def shift_fields v)
      (auto simp: and_push_one and_one odd_sum_bit XOR2_iff bit_ucast_iff bit_drop_bit_eq CHECK_FLAGS_eq simp del: push_bit_of_1)
qed

section \<open>Rotates through carry\<close>

text \<open>One step of a rotate through carry, on the operand and the carry as one ring of bits.\<close>

fun rcl1 :: "'a::len word \<times> bool \<Rightarrow> 'a word \<times> bool" where
  "rcl1 (d, c) = (push_bit 1 d OR of_bool c, bit d (LENGTH('a) - 1))"

fun rcr1 :: "'a::len word \<times> bool \<Rightarrow> 'a word \<times> bool" where
  "rcr1 (d, c) = (drop_bit 1 d OR push_bit (LENGTH('a) - 1) (of_bool c), bit d 0)"

lemma rcl1_bits:
  "j < LENGTH('a) \<Longrightarrow> bit (fst (rcl1 (d :: 'a::len word, c))) j = (if j = 0 then c else bit d (j - 1))"
  "j < LENGTH('a) \<Longrightarrow> bit (fst (rcr1 (d :: 'a::len word, c))) j = (if j = LENGTH('a) - 1 then c else bit d (j + 1))"
  by (auto simp: bit_simps bit_of_bool_iff simp del: push_bit_Suc dest: bit_imp_le_length)

lemma rcl_iter:
  fixes d :: "'a::len word"
  assumes "k \<le> LENGTH('a)"
  shows "j < LENGTH('a) \<Longrightarrow> bit (fst ((rcl1 ^^ k) (d, c))) j = (if k \<le> j then bit d (j - k) else if j + 1 = k then c else bit d (j + LENGTH('a) + 1 - k))"
    and "snd ((rcl1 ^^ k) (d, c)) = (if k = 0 then c else bit d (LENGTH('a) - k))"
proof -
  have "(\<forall>j<LENGTH('a). bit (fst ((rcl1 ^^ k) (d, c))) j = (if k \<le> j then bit d (j - k) else if j + 1 = k then c else bit d (j + LENGTH('a) + 1 - k))) \<and> snd ((rcl1 ^^ k) (d, c)) = (if k = 0 then c else bit d (LENGTH('a) - k))"
    using assms
  proof (induction k)
    case (Suc k)
    obtain w c' where x: "(rcl1 ^^ k) (d, c) = (w, c')" by force
    from Suc have w: "bit w j = (if k \<le> j then bit d (j - k) else if j + 1 = k then c else bit d (j + LENGTH('a) + 1 - k))" if "j < LENGTH('a)" for j
      using that by (simp add: x)
    from Suc have c': "c' = (if k = 0 then c else bit d (LENGTH('a) - k))" by (simp add: x)
    have "snd ((rcl1 ^^ Suc k) (d, c)) = bit w (LENGTH('a) - 1)" by (simp add: x)
    moreover have "fst ((rcl1 ^^ Suc k) (d, c)) = fst (rcl1 (w, c'))" by (simp add: x)
    ultimately show ?case
      using Suc.prems by (auto simp: rcl1_bits w c' simp del: funpow.simps rcl1.simps rcr1.simps)
  qed simp
  then show "j < LENGTH('a) \<Longrightarrow> bit (fst ((rcl1 ^^ k) (d, c))) j = (if k \<le> j then bit d (j - k) else if j + 1 = k then c else bit d (j + LENGTH('a) + 1 - k))"
    "snd ((rcl1 ^^ k) (d, c)) = (if k = 0 then c else bit d (LENGTH('a) - k))" by auto
qed

lemma rcr_iter:
  fixes d :: "'a::len word"
  assumes "k \<le> LENGTH('a)"
  shows "j < LENGTH('a) \<Longrightarrow> bit (fst ((rcr1 ^^ k) (d, c))) j = (if j + k < LENGTH('a) then bit d (j + k) else if j + k = LENGTH('a) then c else bit d (j + k - LENGTH('a) - 1))"
    and "snd ((rcr1 ^^ k) (d, c)) = (if k = 0 then c else bit d (k - 1))"
proof -
  have "(\<forall>j<LENGTH('a). bit (fst ((rcr1 ^^ k) (d, c))) j = (if j + k < LENGTH('a) then bit d (j + k) else if j + k = LENGTH('a) then c else bit d (j + k - LENGTH('a) - 1))) \<and> snd ((rcr1 ^^ k) (d, c)) = (if k = 0 then c else bit d (k - 1))"
    using assms
  proof (induction k)
    case (Suc k)
    obtain w c' where x: "(rcr1 ^^ k) (d, c) = (w, c')" by force
    from Suc have w: "bit w j = (if j + k < LENGTH('a) then bit d (j + k) else if j + k = LENGTH('a) then c else bit d (j + k - LENGTH('a) - 1))" if "j < LENGTH('a)" for j
      using that by (simp add: x)
    from Suc have c': "c' = (if k = 0 then c else bit d (k - 1))" by (simp add: x)
    have "snd ((rcr1 ^^ Suc k) (d, c)) = bit w (0)" by (simp add: x)
    moreover have "fst ((rcr1 ^^ Suc k) (d, c)) = fst (rcr1 (w, c'))" by (simp add: x)
    ultimately show ?case
      using Suc.prems by (auto simp: rcl1_bits w c' simp del: funpow.simps rcl1.simps rcr1.simps)
  qed simp
  then show "j < LENGTH('a) \<Longrightarrow> bit (fst ((rcr1 ^^ k) (d, c))) j = (if j + k < LENGTH('a) then bit d (j + k) else if j + k = LENGTH('a) then c else bit d (j + k - LENGTH('a) - 1))"
    "snd ((rcr1 ^^ k) (d, c)) = (if k = 0 then c else bit d (k - 1))" by auto
qed

text \<open>The ring has one bit more than the operand.\<close>

lemma rc_period:
  fixes d :: "'a::len word"
  shows "(rcl1 ^^ (LENGTH('a) + 1)) (d, c) = (d, c)" "(rcr1 ^^ (LENGTH('a) + 1)) (d, c) = (d, c)"
proof -
  obtain w c' where x: "(rcl1 ^^ LENGTH('a)) (d, c) = (w, c')" by force
  note w = rcl_iter(1) [of "LENGTH('a)" _ d c, unfolded x fst_conv]
    and c' = rcl_iter(2) [of "LENGTH('a)" d c, unfolded x snd_conv]
  have "fst (rcl1 (w, c')) = d"
    by (rule bit_word_eqI) (auto simp: rcl1_bits w c' simp del: rcl1.simps)
  moreover have "snd (rcl1 (w, c')) = c" using w [of "LENGTH('a) - 1"] by simp
  ultimately show "(rcl1 ^^ (LENGTH('a) + 1)) (d, c) = (d, c)"
    by (simp add: x prod_eq_iff del: rcl1.simps)
next
  obtain w c' where x: "(rcr1 ^^ LENGTH('a)) (d, c) = (w, c')" by force
  note w = rcr_iter(1) [of "LENGTH('a)" _ d c, unfolded x fst_conv]
    and c' = rcr_iter(2) [of "LENGTH('a)" d c, unfolded x snd_conv]
  have "fst (rcr1 (w, c')) = d"
    by (rule bit_word_eqI) (auto simp: rcl1_bits w c' simp del: rcr1.simps)
  moreover have "snd (rcr1 (w, c')) = c" using w [of 0] by simp
  ultimately show "(rcr1 ^^ (LENGTH('a) + 1)) (d, c) = (d, c)"
    by (simp add: x prod_eq_iff del: rcr1.simps)
qed

lemma rc_mod:
  fixes d :: "'a::len word"
  shows "(rcl1 ^^ (n mod (LENGTH('a) + 1))) (d, c) = (rcl1 ^^ n) (d, c)"
    "(rcr1 ^^ (n mod (LENGTH('a) + 1))) (d, c) = (rcr1 ^^ n) (d, c)"
  by (rule funpow_mod_eq, rule rc_period)+

lemma rcl_bits:
  fixes d :: "'a::len word" and m :: u32
  assumes "LENGTH('a) \<le> 32" "0 < k" "k \<le> LENGTH('a)" "\<And>j. j < LENGTH('a) \<Longrightarrow> bit m j"
  defines "r \<equiv> (push_bit k (ucast d) AND m) OR (drop_bit (LENGTH('a) + 1 - k) (ucast d) AND (push_bit (k - 1) 1 - 1))"
  shows "ucast (if c then r OR push_bit (k - 1) 1 else r) = fst ((rcl1 ^^ k) (d, c))"
proof (rule bit_word_eqI)
  fix j assume j: "j < LENGTH('a)"
  have p: "push_bit (k - 1) 1 - 1 = (mask (k - 1) :: u32)" for k :: nat
    by (simp add: mask_eq_exp_minus_1 push_bit_eq_mult)
  have e: "drop_bit (LENGTH('a) + 1 - k) d = drop_bit (LENGTH('a) - (k - 1)) d"
    using assms(2) by (simp add: Suc_diff_le [symmetric])
  show "bit (ucast (if c then r OR push_bit (k - 1) 1 else r) :: 'a word) j = bit (fst ((rcl1 ^^ k) (d, c))) j"
    unfolding r_def p rcl_iter(1) [OF assms(3) j]
    using assms(1-3) assms(4) [OF j] j
    by (auto simp: bit_simps add.commute)
qed

lemma rcr_bits:
  fixes d :: "'a::len word"
  assumes "LENGTH('a) \<le> 32" "0 < k" "k \<le> LENGTH('a)"
  defines "r \<equiv> (drop_bit k (ucast d) AND (push_bit (LENGTH('a) - k) 1 - 1)) OR push_bit (LENGTH('a) + 1 - k) (ucast d) :: u32"
  shows "ucast (if c then r OR push_bit (LENGTH('a) - k) 1 else r) = fst ((rcr1 ^^ k) (d, c))"
proof (rule bit_word_eqI)
  fix j assume j: "j < LENGTH('a)"
  have p: "push_bit m 1 - 1 = (mask m :: u32)" for m :: nat
    by (simp add: mask_eq_exp_minus_1 push_bit_eq_mult)
  show "bit (ucast (if c then r OR push_bit (LENGTH('a) - k) 1 else r) :: 'a word) j = bit (fst ((rcr1 ^^ k) (d, c))) j"
    unfolding r_def p rcr_iter(1) [OF assms(3) j]
    using assms(1-3) j
    by (auto simp: bit_simps add.commute)
qed

lemma low_mask_bits: "j < 8 \<Longrightarrow> bit (0xFF :: u32) j" "j < 16 \<Longrightarrow> bit (0xFFFF :: u32) j"
proof -
  have e: "(0xFF :: u32) = mask 8" "(0xFFFF :: u32) = mask 16" by (simp_all add: mask_eq_exp_minus_1)
  show "j < 8 \<Longrightarrow> bit (0xFF :: u32) j" "j < 16 \<Longrightarrow> bit (0xFFFF :: u32) j"
    unfolding e bit_mask_iff by simp_all
qed

lemma and_1_bit: "x AND 1 = of_bool (bit x 0)" for x :: "'a::len word"
  by (simp add: and_one_eq mod_2_eq_odd bit_0)

lemma rcl8_eq:
  fixes d :: u8
  shows "rcl8 e d s = (let
     k = count s mod 9;
     (r, cf) = (rcl1 ^^ k) (d, a_CF (visible_flags e));
     e = UpdateFlags e;
     e = (if k \<noteq> 0 then CONDITIONAL_SET_FLAG cf F_CF e else e);
     e = (if k = 1 then CONDITIONAL_SET_FLAG (cf \<noteq> bit r 7) F_OF e else e)
   in (r, e))"
proof -
  define c where "c = a_CF (visible_flags e)"
  define k where "k = count s mod 9"
  define R where "R = (if c then ((push_bit k (ucast d) AND 0xFF) OR (drop_bit (9 - k) (ucast d) AND (push_bit (k - 1) 1 - 1)) :: u32) OR push_bit (k - 1) 1 else (push_bit k (ucast d) AND 0xFF) OR (drop_bit (9 - k) (ucast d) AND (push_bit (k - 1) 1 - 1)) :: u32)"
  have k: "k \<le> 8" unfolding k_def using mod_less_divisor [of 9 "count s"] by simp
  have mb: "\<And>j. j < LENGTH(8) \<Longrightarrow> bit (0xFF :: u32) j" by (rule low_mask_bits(1)) simp
  have u: "ucast R = fst ((rcl1 ^^ k) (d, c))" if "k \<noteq> 0"
    using rcl_bits [OF _ _ _ mb, of k c d] that k by (cases c) (simp_all add: R_def)
  have b: "bit R 7 = bit (fst ((rcl1 ^^ k) (d, c))) 7" if "k \<noteq> 0"
    using u [OF that, symmetric] by (simp add: bit_ucast_iff)
  have cf: "drop_bit (8 - k) (ucast d) AND 1 = (if snd ((rcl1 ^^ k) (d, c)) then 1 else 0 :: u32)" if "k \<noteq> 0"
    using that k by (auto simp: rcl_iter(2) and_1_bit bit_ucast_iff bit_drop_bit_eq)
  show ?thesis
  proof (cases "k = 0")
    case True
    then show ?thesis
      by (simp add: rcl8_def Let_def shift_fields result_simps flip: k_def)
  next
    case False
    have "rcl8 e d s = (ucast R, let cf = drop_bit (8 - k) (ucast d) AND 1 :: u32; e = CONDITIONAL_SET_FLAG (cf \<noteq> 0) F_CF (UpdateFlags e) in
        if k = 1 then CONDITIONAL_SET_FLAG ((cf XOR drop_bit 7 R) AND 1 \<noteq> 0) F_OF e else e)"
      by (simp only: rcl8_def Let_def shift_fields CHECK_FLAGS_eq visible_CF k_def [symmetric] c_def [symmetric]
          R_def [symmetric] if_P [OF False])
    then show ?thesis
      using False cf [OF False]
      by (simp add: u b Let_def case_prod_beta c_def [symmetric] k_def [symmetric] and_one bit_xor_iff bit_drop_bit_eq del: One_nat_def)
  qed
qed

lemma rcl16_eq:
  fixes d :: u16
  shows "rcl16 e d s = (let
     k = count s mod 17;
     (r, cf) = (rcl1 ^^ k) (d, a_CF (visible_flags e));
     e = UpdateFlags e;
     e = (if k \<noteq> 0 then CONDITIONAL_SET_FLAG cf F_CF e else e);
     e = (if k = 1 then CONDITIONAL_SET_FLAG (cf \<noteq> bit r 15) F_OF e else e)
   in (r, e))"
proof -
  define c where "c = a_CF (visible_flags e)"
  define k where "k = count s mod 17"
  define R where "R = (if c then ((push_bit k (ucast d) AND 0xFFFF) OR (drop_bit (17 - k) (ucast d) AND (push_bit (k - 1) 1 - 1)) :: u32) OR push_bit (k - 1) 1 else (push_bit k (ucast d) AND 0xFFFF) OR (drop_bit (17 - k) (ucast d) AND (push_bit (k - 1) 1 - 1)) :: u32)"
  have k: "k \<le> 16" unfolding k_def using mod_less_divisor [of 17 "count s"] by simp
  have mb: "\<And>j. j < LENGTH(16) \<Longrightarrow> bit (0xFFFF :: u32) j" by (rule low_mask_bits(2)) simp
  have u: "ucast R = fst ((rcl1 ^^ k) (d, c))" if "k \<noteq> 0"
    using rcl_bits [OF _ _ _ mb, of k c d] that k by (cases c) (simp_all add: R_def)
  have b: "bit R 15 = bit (fst ((rcl1 ^^ k) (d, c))) 15" if "k \<noteq> 0"
    using u [OF that, symmetric] by (simp add: bit_ucast_iff)
  have cf: "drop_bit (16 - k) (ucast d) AND 1 = (if snd ((rcl1 ^^ k) (d, c)) then 1 else 0 :: u32)" if "k \<noteq> 0"
    using that k by (auto simp: rcl_iter(2) and_1_bit bit_ucast_iff bit_drop_bit_eq)
  show ?thesis
  proof (cases "k = 0")
    case True
    then show ?thesis
      by (simp add: rcl16_def Let_def shift_fields result_simps flip: k_def)
  next
    case False
    have "rcl16 e d s = (ucast R, let cf = drop_bit (16 - k) (ucast d) AND 1 :: u32; e = CONDITIONAL_SET_FLAG (cf \<noteq> 0) F_CF (UpdateFlags e) in
        if k = 1 then CONDITIONAL_SET_FLAG ((cf XOR drop_bit 15 R) AND 1 \<noteq> 0) F_OF e else e)"
      by (simp only: rcl16_def Let_def shift_fields CHECK_FLAGS_eq visible_CF k_def [symmetric] c_def [symmetric]
          R_def [symmetric] if_P [OF False])
    then show ?thesis
      using False cf [OF False]
      by (simp add: u b Let_def case_prod_beta c_def [symmetric] k_def [symmetric] and_one bit_xor_iff bit_drop_bit_eq del: One_nat_def)
  qed
qed

lemma rcl32_eq:
  fixes d :: u32
  shows "rcl32 e d s = (let
     k = count s mod 33;
     (r, cf) = (rcl1 ^^ k) (d, a_CF (visible_flags e));
     e = UpdateFlags e;
     e = (if k \<noteq> 0 then CONDITIONAL_SET_FLAG cf F_CF e else e);
     e = (if k = 1 then CONDITIONAL_SET_FLAG (cf \<noteq> bit r 31) F_OF e else e)
   in (r, e))"
proof -
  define c where "c = a_CF (visible_flags e)"
  define k where "k = count s mod 33"
  define R where "R = (if c then (push_bit k d OR (drop_bit (33 - k) d AND (push_bit (k - 1) 1 - 1))) OR push_bit (k - 1) 1 else push_bit k d OR (drop_bit (33 - k) d AND (push_bit (k - 1) 1 - 1)))"
  have k: "k \<le> 32" unfolding k_def using mod_less_divisor [of 33 "count s"] by simp
  have mb: "\<And>j. j < LENGTH(32) \<Longrightarrow> bit (- 1 :: u32) j" by simp
  have u: "R = fst ((rcl1 ^^ k) (d, c))" if "k \<noteq> 0"
    using rcl_bits [OF _ _ _ mb, of k c d] that k by (cases c) (simp_all add: R_def)
  have b: "bit R 31 = bit (fst ((rcl1 ^^ k) (d, c))) 31" if "k \<noteq> 0"
    using u [OF that, symmetric] by (simp add: bit_ucast_iff)
  have cf: "drop_bit (32 - k) d AND 1 = (if snd ((rcl1 ^^ k) (d, c)) then 1 else 0 :: u32)" if "k \<noteq> 0"
    using that k by (auto simp: rcl_iter(2) and_1_bit bit_ucast_iff bit_drop_bit_eq)
  show ?thesis
  proof (cases "k = 0")
    case True
    then show ?thesis
      by (simp add: rcl32_def Let_def shift_fields result_simps flip: k_def)
  next
    case False
    have "rcl32 e d s = (R, let cf = drop_bit (32 - k) d AND 1 :: u32; e = CONDITIONAL_SET_FLAG (cf \<noteq> 0) F_CF (UpdateFlags e) in
        if k = 1 then CONDITIONAL_SET_FLAG ((cf XOR drop_bit 31 R) AND 1 \<noteq> 0) F_OF e else e)"
      by (simp only: rcl32_def Let_def shift_fields CHECK_FLAGS_eq visible_CF k_def [symmetric] c_def [symmetric]
          R_def [symmetric] if_P [OF False])
    then show ?thesis
      using False cf [OF False]
      by (simp add: u b Let_def case_prod_beta c_def [symmetric] k_def [symmetric] and_one bit_xor_iff bit_drop_bit_eq del: One_nat_def)
  qed
qed

lemma rcr8_eq:
  fixes d :: u8
  shows "rcr8 e d s = (let
     k = count s mod 9;
     (r, cf) = (rcr1 ^^ k) (d, a_CF (visible_flags e));
     e' = UpdateFlags e;
     e' = (if k = 1 then CONDITIONAL_SET_FLAG (a_CF (visible_flags e) \<noteq> bit d 7) F_OF e' else e');
     e' = (if k \<noteq> 0 then CONDITIONAL_SET_FLAG cf F_CF e' else e')
   in (r, e'))"
proof -
  define c where "c = a_CF (visible_flags e)"
  define k where "k = count s mod 9"
  define R where "R = (if c then ((drop_bit k (ucast d) AND (push_bit (8 - k) 1 - 1)) OR push_bit (9 - k) (ucast d) :: u32) OR push_bit (8 - k) 1 else (drop_bit k (ucast d) AND (push_bit (8 - k) 1 - 1)) OR push_bit (9 - k) (ucast d) :: u32)"
  have k: "k \<le> 8" unfolding k_def using mod_less_divisor [of 9 "count s"] by simp
  have u: "ucast R = fst ((rcr1 ^^ k) (d, c))" if "k \<noteq> 0"
    using rcr_bits [of k c d] that k by (cases c) (auto simp: R_def push_bit_too_far simp del: push_bit_of_1)
  have cf: "drop_bit (k - 1) (ucast d) AND 1 = (if snd ((rcr1 ^^ k) (d, c)) then 1 else 0 :: u32)" if "k \<noteq> 0"
    using that k by (auto simp: rcr_iter(2) and_1_bit bit_ucast_iff bit_drop_bit_eq)
  show ?thesis
  proof (cases "k = 0")
    case True
    then show ?thesis
      by (simp add: rcr8_def Let_def shift_fields result_simps flip: k_def)
  next
    case False
    have "rcr8 e d s = (ucast R, CONDITIONAL_SET_FLAG (drop_bit (k - 1) (ucast d) AND 1 \<noteq> (0 :: u32)) F_CF
        (if k = 1 then CONDITIONAL_SET_FLAG (((if c then 1 else 0) XOR drop_bit 7 (ucast d)) AND 1 \<noteq> (0 :: u32)) F_OF (UpdateFlags e)
         else UpdateFlags e))"
    proof (cases "k = 1")
      case True
      note k1 = if_P [OF True]
      show ?thesis
        by (simp only: rcr8_def Let_def shift_fields CHECK_FLAGS_eq visible_CF k_def [symmetric] c_def [symmetric] k1
            if_P [OF False] ACCESS_FLAG_write flags_names_t.distinct if_False prod.case R_def [symmetric])
          (simp add: True)
    next
      case k1: False
      show ?thesis
        by (simp only: rcr8_def Let_def shift_fields CHECK_FLAGS_eq visible_CF k_def [symmetric] c_def [symmetric] if_not_P [OF k1]
            if_P [OF False] ACCESS_FLAG_write flags_names_t.distinct if_False prod.case R_def [symmetric])
    qed
    then show ?thesis
      using False cf [OF False]
      by (simp add: u Let_def case_prod_beta c_def [symmetric] k_def [symmetric] and_one bit_xor_iff bit_drop_bit_eq bit_ucast_iff del: One_nat_def)
  qed
qed

lemma rcr16_eq:
  fixes d :: u16
  shows "rcr16 e d s = (let
     k = count s mod 17;
     (r, cf) = (rcr1 ^^ k) (d, a_CF (visible_flags e));
     e' = UpdateFlags e;
     e' = (if k = 1 then CONDITIONAL_SET_FLAG (a_CF (visible_flags e) \<noteq> bit d 15) F_OF e' else e');
     e' = (if k \<noteq> 0 then CONDITIONAL_SET_FLAG cf F_CF e' else e')
   in (r, e'))"
proof -
  define c where "c = a_CF (visible_flags e)"
  define k where "k = count s mod 17"
  define R where "R = (if c then ((drop_bit k (ucast d) AND (push_bit (16 - k) 1 - 1)) OR push_bit (17 - k) (ucast d) :: u32) OR push_bit (16 - k) 1 else (drop_bit k (ucast d) AND (push_bit (16 - k) 1 - 1)) OR push_bit (17 - k) (ucast d) :: u32)"
  have k: "k \<le> 16" unfolding k_def using mod_less_divisor [of 17 "count s"] by simp
  have u: "ucast R = fst ((rcr1 ^^ k) (d, c))" if "k \<noteq> 0"
    using rcr_bits [of k c d] that k by (cases c) (auto simp: R_def push_bit_too_far simp del: push_bit_of_1)
  have cf: "drop_bit (k - 1) (ucast d) AND 1 = (if snd ((rcr1 ^^ k) (d, c)) then 1 else 0 :: u32)" if "k \<noteq> 0"
    using that k by (auto simp: rcr_iter(2) and_1_bit bit_ucast_iff bit_drop_bit_eq)
  show ?thesis
  proof (cases "k = 0")
    case True
    then show ?thesis
      by (simp add: rcr16_def Let_def shift_fields result_simps flip: k_def)
  next
    case False
    have "rcr16 e d s = (ucast R, CONDITIONAL_SET_FLAG (drop_bit (k - 1) (ucast d) AND 1 \<noteq> (0 :: u32)) F_CF
        (if k = 1 then CONDITIONAL_SET_FLAG (((if c then 1 else 0) XOR drop_bit 15 (ucast d)) AND 1 \<noteq> (0 :: u32)) F_OF (UpdateFlags e)
         else UpdateFlags e))"
    proof (cases "k = 1")
      case True
      note k1 = if_P [OF True]
      show ?thesis
        by (simp only: rcr16_def Let_def shift_fields CHECK_FLAGS_eq visible_CF k_def [symmetric] c_def [symmetric] k1
            if_P [OF False] ACCESS_FLAG_write flags_names_t.distinct if_False prod.case R_def [symmetric])
          (simp add: True)
    next
      case k1: False
      show ?thesis
        by (simp only: rcr16_def Let_def shift_fields CHECK_FLAGS_eq visible_CF k_def [symmetric] c_def [symmetric] if_not_P [OF k1]
            if_P [OF False] ACCESS_FLAG_write flags_names_t.distinct if_False prod.case R_def [symmetric])
    qed
    then show ?thesis
      using False cf [OF False]
      by (simp add: u Let_def case_prod_beta c_def [symmetric] k_def [symmetric] and_one bit_xor_iff bit_drop_bit_eq bit_ucast_iff del: One_nat_def)
  qed
qed

lemma rcr32_eq:
  fixes d :: u32
  shows "rcr32 e d s = (let
     k = count s mod 33;
     (r, cf) = (rcr1 ^^ k) (d, a_CF (visible_flags e));
     e' = UpdateFlags e;
     e' = (if k = 1 then CONDITIONAL_SET_FLAG (a_CF (visible_flags e) \<noteq> bit d 31) F_OF e' else e');
     e' = (if k \<noteq> 0 then CONDITIONAL_SET_FLAG cf F_CF e' else e')
   in (r, e'))"
proof -
  define c where "c = a_CF (visible_flags e)"
  define k where "k = count s mod 33"
  define R where "R = (if c then ((if k \<noteq> 1 then (drop_bit k d AND (push_bit (32 - k) 1 - 1)) OR push_bit (33 - k) d else (drop_bit k d AND (push_bit (32 - k) 1 - 1)))) OR push_bit (32 - k) 1 else (if k \<noteq> 1 then (drop_bit k d AND (push_bit (32 - k) 1 - 1)) OR push_bit (33 - k) d else (drop_bit k d AND (push_bit (32 - k) 1 - 1))))"
  have k: "k \<le> 32" unfolding k_def using mod_less_divisor [of 33 "count s"] by simp
  have u: "R = fst ((rcr1 ^^ k) (d, c))" if "k \<noteq> 0"
    using rcr_bits [of k c d] that k by (cases c) (auto simp: R_def push_bit_too_far simp del: push_bit_of_1)
  have cf: "drop_bit (k - 1) d AND 1 = (if snd ((rcr1 ^^ k) (d, c)) then 1 else 0 :: u32)" if "k \<noteq> 0"
    using that k by (auto simp: rcr_iter(2) and_1_bit bit_ucast_iff bit_drop_bit_eq)
  show ?thesis
  proof (cases "k = 0")
    case True
    then show ?thesis
      by (simp add: rcr32_def Let_def shift_fields result_simps flip: k_def)
  next
    case False
    have "rcr32 e d s = (R, CONDITIONAL_SET_FLAG (drop_bit (k - 1) d AND 1 \<noteq> (0 :: u32)) F_CF
        (if k = 1 then CONDITIONAL_SET_FLAG (((if c then 1 else 0) XOR drop_bit 31 d) AND 1 \<noteq> (0 :: u32)) F_OF (UpdateFlags e)
         else UpdateFlags e))"
    proof (cases "k = 1")
      case True
      note k1 = if_P [OF True]
      show ?thesis
        by (simp only: rcr32_def Let_def shift_fields CHECK_FLAGS_eq visible_CF k_def [symmetric] c_def [symmetric] k1
            if_P [OF False] ACCESS_FLAG_write flags_names_t.distinct if_False prod.case R_def [symmetric])
          (simp add: True)
    next
      case k1: False
      show ?thesis
        by (simp only: rcr32_def Let_def shift_fields CHECK_FLAGS_eq visible_CF k_def [symmetric] c_def [symmetric] if_not_P [OF k1]
            if_P [OF False] ACCESS_FLAG_write flags_names_t.distinct if_False prod.case R_def [symmetric])
    qed
    then show ?thesis
      using False cf [OF False]
      by (simp add: u Let_def case_prod_beta c_def [symmetric] k_def [symmetric] and_one bit_xor_iff bit_drop_bit_eq bit_ucast_iff del: One_nat_def)
  qed
qed

section \<open>Double shifts\<close>

text \<open>SHLD and SHRD as shifts of the operands laid side by side.\<close>

lemma cat64_bit: "bit (word_cat d f :: 64 word) i \<longleftrightarrow> (if i < 32 then bit (f :: u32) i else bit (d :: u32) (i - 32))"
  by (auto simp: bit_word_cat_iff dest: bit_imp_le_length)

lemma cat32_bit: "bit (word_cat d f :: 32 word) i \<longleftrightarrow> (if i < 16 then bit (f :: u16) i else bit (d :: u16) (i - 16))"
  by (auto simp: bit_word_cat_iff dest: bit_imp_le_length)

lemma cat48_bit:
  "bit (word_cat d (word_cat f d :: 32 word) :: 48 word) i \<longleftrightarrow>
    (if i < 16 then bit (d :: u16) i else if i < 32 then bit (f :: u16) (i - 16) else bit d (i - 32))"
  by (auto simp: bit_word_cat_iff cat32_bit dest: bit_imp_le_length)

lemma shld32_value: "fst (shld32 e d f s) = ucast (drop_bit 32 (push_bit (count s) (word_cat d f :: 64 word)))"
proof -
  define n where "n = count s"
  have n: "n < 32" unfolding n_def by (rule count_word(2))
  have "fst (shld32 e d f s) = (if n = 0 then d else push_bit n d OR drop_bit (32 - n) f)"
    using n by (simp add: shld32_def Let_def shift_fields n_def)
  also have "\<dots> = ucast (drop_bit 32 (push_bit n (word_cat d f :: 64 word)))"
  proof (rule bit_word_eqI)
    fix j assume "j < LENGTH(32)"
    then have j: "j < 32" by simp
    have "bit (ucast (drop_bit 32 (push_bit n (word_cat d f :: 64 word))) :: u32) j \<longleftrightarrow>
      bit (word_cat d f :: 64 word) (j + 32 - n)"
      using n j by (simp add: bit_ucast_iff bit_drop_bit_eq bit_push_bit_iff add.commute)
    then show "bit (if n = 0 then d else push_bit n d OR drop_bit (32 - n) f) j =
      bit (ucast (drop_bit 32 (push_bit n (word_cat d f :: 64 word))) :: u32) j"
      using n j by (auto simp: cat64_bit bit_or_iff bit_push_bit_iff bit_drop_bit_eq add.commute dest: bit_imp_le_length)
  qed
  finally show ?thesis unfolding n_def .
qed

lemma shrd32_value: "fst (shrd32 e d f s) = ucast (drop_bit (count s) (word_cat f d :: 64 word))"
proof -
  define n where "n = count s"
  have n: "n < 32" unfolding n_def by (rule count_word(2))
  have "fst (shrd32 e d f s) = (if n = 0 then d else drop_bit n d OR push_bit (32 - n) f)"
    using n by (simp add: shrd32_def Let_def shift_fields n_def)
  also have "\<dots> = ucast (drop_bit n (word_cat f d :: 64 word))"
  proof (rule bit_word_eqI)
    fix j assume "j < LENGTH(32)"
    then have j: "j < 32" by simp
    have "bit (ucast (drop_bit n (word_cat f d :: 64 word)) :: u32) j \<longleftrightarrow> bit (word_cat f d :: 64 word) (n + j)"
      using j by (simp add: bit_ucast_iff bit_drop_bit_eq)
    then show "bit (if n = 0 then d else drop_bit n d OR push_bit (32 - n) f) j =
      bit (ucast (drop_bit n (word_cat f d :: 64 word)) :: u32) j"
      using n j by (auto simp: cat64_bit bit_or_iff bit_push_bit_iff bit_drop_bit_eq add.commute dest: bit_imp_le_length)
  qed
  finally show ?thesis unfolding n_def .
qed

lemma shld16_value:
  "fst (shld16 e d f s) = ucast (drop_bit 32 (push_bit (count s) (word_cat d (word_cat f d :: 32 word) :: 48 word)))"
proof -
  define n where "n = count s"
  have n: "n < 32" unfolding n_def by (rule count_word(2))
  have "fst (shld16 e d f s) = ucast (if n = 0 then ucast d else if n < 16 then push_bit n (ucast d) OR drop_bit (16 - n) (ucast f)
      else push_bit (n - 16) (ucast f) OR drop_bit (32 - n) (ucast d) :: u32)"
    using n by (auto simp: shld16_def Let_def shift_fields n_def word_less_nat_alt mod_if)
  also have "\<dots> = ucast (drop_bit 32 (push_bit n (word_cat d (word_cat f d :: 32 word) :: 48 word)))"
  proof (rule bit_word_eqI)
    fix j assume "j < LENGTH(16)"
    then have j: "j < 16" by simp
    have "bit (ucast (drop_bit 32 (push_bit n (word_cat d (word_cat f d :: 32 word) :: 48 word))) :: u16) j \<longleftrightarrow>
      bit (word_cat d (word_cat f d :: 32 word) :: 48 word) (j + 32 - n)"
      using n j by (simp add: bit_ucast_iff bit_drop_bit_eq bit_push_bit_iff add.commute)
    then show "bit (ucast (if n = 0 then ucast d else if n < 16 then push_bit n (ucast d) OR drop_bit (16 - n) (ucast f)
        else push_bit (n - 16) (ucast f) OR drop_bit (32 - n) (ucast d) :: u32) :: u16) j =
      bit (ucast (drop_bit 32 (push_bit n (word_cat d (word_cat f d :: 32 word) :: 48 word))) :: u16) j"
      using n j by (auto simp: cat48_bit bit_or_iff bit_push_bit_iff bit_drop_bit_eq bit_ucast_iff add.commute dest: bit_imp_le_length)
  qed
  finally show ?thesis unfolding n_def .
qed

lemma shrd16_value:
  "fst (shrd16 e d f s) = ucast (drop_bit (count s) (word_cat d (word_cat f d :: 32 word) :: 48 word))"
proof -
  define n where "n = count s"
  have n: "n < 32" unfolding n_def by (rule count_word(2))
  have "fst (shrd16 e d f s) = ucast (if n = 0 then ucast d else if n < 16 then drop_bit n (ucast d) OR push_bit (16 - n) (ucast f)
      else drop_bit (n - 16) (ucast f) OR push_bit (32 - n) (ucast d) :: u32)"
    using n by (auto simp: shrd16_def Let_def shift_fields n_def word_less_nat_alt mod_if)
  also have "\<dots> = ucast (drop_bit n (word_cat d (word_cat f d :: 32 word) :: 48 word))"
  proof (rule bit_word_eqI)
    fix j assume "j < LENGTH(16)"
    then have j: "j < 16" by simp
    have "bit (ucast (drop_bit n (word_cat d (word_cat f d :: 32 word) :: 48 word)) :: u16) j \<longleftrightarrow>
      bit (word_cat d (word_cat f d :: 32 word) :: 48 word) (n + j)"
      using j by (simp add: bit_ucast_iff bit_drop_bit_eq)
    then show "bit (ucast (if n = 0 then ucast d else if n < 16 then drop_bit n (ucast d) OR push_bit (16 - n) (ucast f)
        else drop_bit (n - 16) (ucast f) OR push_bit (32 - n) (ucast d) :: u32) :: u16) j =
      bit (ucast (drop_bit n (word_cat d (word_cat f d :: 32 word) :: 48 word)) :: u16) j"
      using n j by (auto simp: cat48_bit bit_or_iff bit_push_bit_iff bit_drop_bit_eq bit_ucast_iff add.commute dest: bit_imp_le_length)
  qed
  finally show ?thesis unfolding n_def .
qed

lemma double_frame [frame_simps]:
  "erase_flags (snd (shld16 e d16 f16 s)) = erase_flags e" "erase_flags (snd (shld32 e d32 f32 s)) = erase_flags e"
  "erase_flags (snd (shrd16 e d16 f16 s)) = erase_flags e" "erase_flags (snd (shrd32 e d32 f32 s)) = erase_flags e"
  by (simp_all add: shld16_def shld32_def shrd16_def shrd32_def Let_def)

lemma double_flags32:
  assumes "0 < count s"
  shows "visible_flags (snd (shld32 e d f s)) = result_flags (bit d (32 - count s)) (ACCESS_FLAG F_AF e)
      (count s = 1 \<and> bit (fst (shld32 e d f s)) 31 \<noteq> bit d 31) (fst (shld32 e d f s))"
    and "visible_flags (snd (shrd32 e d f s)) = result_flags (bit d (count s - 1)) (ACCESS_FLAG F_AF e)
      (count s = 1 \<and> bit (fst (shrd32 e d f s)) 31 \<noteq> bit d 31) (fst (shrd32 e d f s))"
proof -
  have n: "count s mod 32 = count s" using count_word(2) by simp
  show "visible_flags (snd (shld32 e d f s)) = result_flags (bit d (32 - count s)) (ACCESS_FLAG F_AF e)
      (count s = 1 \<and> bit (fst (shld32 e d f s)) 31 \<noteq> bit d 31) (fst (shld32 e d f s))"
    using assms
    by (simp add: shld32_def Let_def shift_fields n visible_eager status_flags_def result_flags_def masks32 and_push_one
        and_one sint_bits bit_xor_iff bit_drop_bit_eq del: push_bit_Suc push_bit_of_1 drop_bit_xor; auto)
  show "visible_flags (snd (shrd32 e d f s)) = result_flags (bit d (count s - 1)) (ACCESS_FLAG F_AF e)
      (count s = 1 \<and> bit (fst (shrd32 e d f s)) 31 \<noteq> bit d 31) (fst (shrd32 e d f s))"
    using assms
    by (simp add: shrd32_def Let_def shift_fields n visible_eager status_flags_def result_flags_def masks32 and_push_one
        and_one sint_bits bit_xor_iff bit_drop_bit_eq del: push_bit_Suc push_bit_of_1 drop_bit_Suc drop_bit_xor; auto)
qed

lemma double_flags16:
  assumes "0 < count s" "count s < 16"
  shows "visible_flags (snd (shld16 e d f s)) = result_flags (bit d (16 - count s)) (ACCESS_FLAG F_AF e)
      (count s = 1 \<and> bit (fst (shld16 e d f s)) 15 \<noteq> bit d 15) (fst (shld16 e d f s))"
    and "visible_flags (snd (shrd16 e d f s)) = result_flags (bit d (count s - 1)) (ACCESS_FLAG F_AF e)
      (count s = 1 \<and> bit (fst (shrd16 e d f s)) 15 \<noteq> bit d 15) (fst (shrd16 e d f s))"
proof -
  have n: "count s mod 16 = count s" "s AND 0x1F < 16"
    using assms by (simp_all add: count_word(1) word_less_nat_alt count_u32 [OF count_word(2)])
  have l: "16 - count s < 32" "count s - 1 < 32" using assms by simp_all
  show "visible_flags (snd (shld16 e d f s)) = result_flags (bit d (16 - count s)) (ACCESS_FLAG F_AF e)
      (count s = 1 \<and> bit (fst (shld16 e d f s)) 15 \<noteq> bit d 15) (fst (shld16 e d f s))"
    using assms l
    by (simp add: shld16_def Let_def n count_def [symmetric] visible_eager status_flags_def result_flags_def masks16 and_push_one
        and_one sint_bits bit_xor_iff bit_drop_bit_eq bit_ucast_iff del: push_bit_Suc push_bit_of_1 drop_bit_xor; auto)
  show "visible_flags (snd (shrd16 e d f s)) = result_flags (bit d (count s - 1)) (ACCESS_FLAG F_AF e)
      (count s = 1 \<and> bit (fst (shrd16 e d f s)) 15 \<noteq> bit d 15) (fst (shrd16 e d f s))"
    using assms l
    by (simp add: shrd16_def Let_def n count_def [symmetric] visible_eager status_flags_def result_flags_def masks16 and_push_one
        and_one sint_bits bit_xor_iff bit_drop_bit_eq bit_ucast_iff del: push_bit_Suc push_bit_of_1 drop_bit_Suc drop_bit_xor; auto)
qed

section \<open>Correctness of the shifts and rotates\<close>

text \<open>SHL, SHR and SAR at 8, 16 and 32 bits return the operand shifted left, shifted right and
  shifted right with the sign, by the low five bits of the count, and write nothing but the flag
  state.\<close>

theorem shift_values_correct:
  "(fst (shl8 e d8 s) = push_bit (count s) d8 \<and> erase_flags (snd (shl8 e d8 s)) = erase_flags e) \<and>
   (fst (shl16 e d16 s) = push_bit (count s) d16 \<and> erase_flags (snd (shl16 e d16 s)) = erase_flags e) \<and>
   (fst (shl32 e d32 s) = push_bit (count s) d32 \<and> erase_flags (snd (shl32 e d32 s)) = erase_flags e) \<and>
   (fst (shr8 e d8 s) = drop_bit (count s) d8 \<and> erase_flags (snd (shr8 e d8 s)) = erase_flags e) \<and>
   (fst (shr16 e d16 s) = drop_bit (count s) d16 \<and> erase_flags (snd (shr16 e d16 s)) = erase_flags e) \<and>
   (fst (shr32 e d32 s) = drop_bit (count s) d32 \<and> erase_flags (snd (shr32 e d32 s)) = erase_flags e) \<and>
   (fst (sar8 e d8 s) = signed_drop_bit (count s) d8 \<and> erase_flags (snd (sar8 e d8 s)) = erase_flags e) \<and>
   (fst (sar16 e d16 s) = signed_drop_bit (count s) d16 \<and> erase_flags (snd (sar16 e d16 s)) = erase_flags e) \<and>
   (fst (sar32 e d32 s) = signed_drop_bit (count s) d32 \<and> erase_flags (snd (sar32 e d32 s)) = erase_flags e)"
  by (simp add: shift_value shift_frame)

text \<open>C5. The flags a program sees after a shift by a nonzero count (taken modulo 32). Sign, zero and parity are those
  of the result and AF is the one in the flag register. The carry of SHL, of SHR at 8 and 32 bits and of SAR is the last bit shifted out: clear for SHL and
  SHR, the sign for SAR, once the count exceeds the width. SHR at 16 bits is different: its carry is the last bit
  shifted out for counts below 16, and clear from 16 on, although at 16 the last bit out is bit 15 (the
  architecture leaves the carry undefined from the width on; SHR at 8 bits does give bit 7 at count 8). The overflow of
  a shift by one is the change of sign (SHL), the old sign (SHR) or clear (SAR); of a longer
  one it is clear (SHL) or the value in the flag register (SHR and SAR).\<close>

theorem shift_flags_correct:
  assumes "0 < count s"
  shows "(visible_flags (snd (shl8 e d8 s)) =
      result_flags (count s \<le> 8 \<and> bit d8 (8 - count s)) (ACCESS_FLAG F_AF e)
        (count s = 1 \<and> bit d8 7 \<noteq> bit d8 6) (push_bit (count s) d8)) \<and>
   (visible_flags (snd (shl16 e d16 s)) =
      result_flags (count s \<le> 16 \<and> bit d16 (16 - count s)) (ACCESS_FLAG F_AF e)
        (count s = 1 \<and> bit d16 15 \<noteq> bit d16 14) (push_bit (count s) d16)) \<and>
   (visible_flags (snd (shl32 e d32 s)) =
      result_flags (count s \<le> 32 \<and> bit d32 (32 - count s)) (ACCESS_FLAG F_AF e)
        (count s = 1 \<and> bit d32 31 \<noteq> bit d32 30) (push_bit (count s) d32)) \<and>
   (visible_flags (snd (shr8 e d8 s)) =
      result_flags (bit d8 (count s - 1)) (ACCESS_FLAG F_AF e)
        (if count s = 1 then bit d8 7 else ACCESS_FLAG F_OF e) (drop_bit (count s) d8)) \<and>
   (visible_flags (snd (shr16 e d16 s)) =
      result_flags (count s < 16 \<and> bit d16 (count s - 1)) (ACCESS_FLAG F_AF e)
        (if count s = 1 then bit d16 15 else ACCESS_FLAG F_OF e) (drop_bit (count s) d16)) \<and>
   (visible_flags (snd (shr32 e d32 s)) =
      result_flags (bit d32 (count s - 1)) (ACCESS_FLAG F_AF e)
        (if count s = 1 then bit d32 31 else ACCESS_FLAG F_OF e) (drop_bit (count s) d32)) \<and>
   (visible_flags (snd (sar8 e d8 s)) =
      result_flags (bit d8 (min (count s - 1) 7)) (ACCESS_FLAG F_AF e)
        (count s \<noteq> 1 \<and> ACCESS_FLAG F_OF e) (signed_drop_bit (count s) d8)) \<and>
   (visible_flags (snd (sar16 e d16 s)) =
      result_flags (bit d16 (min (count s - 1) 15)) (ACCESS_FLAG F_AF e)
        (count s \<noteq> 1 \<and> ACCESS_FLAG F_OF e) (signed_drop_bit (count s) d16)) \<and>
   (visible_flags (snd (sar32 e d32 s)) =
      result_flags (bit d32 (min (count s - 1) 31)) (ACCESS_FLAG F_AF e)
        (count s \<noteq> 1 \<and> ACCESS_FLAG F_OF e) (signed_drop_bit (count s) d32))"
  using assms by (simp only: shl8_flags shl16_flags shl32_flags shr8_flags shr16_flags shr32_flags sar8_flags sar16_flags sar32_flags simp_thms)

lemma count_1: "count 1 = 1" "count 0 = 0" "count 0x20 = 0" "count 0x10 = 16"
  by (simp_all add: count_def)

theorem shift_flags_correct_witness:
  "a_CF (visible_flags (snd (shl8 emu0 0x81 1))) \<and> a_OF (visible_flags (snd (shl8 emu0 0x81 1)))"
  using shift_flags_correct [of 1 emu0 "0x81" 0 0] by (simp add: count_1 result_flags_def)

text \<open>Writing the carry or the overflow after the pending flags have been evaluated.\<close>

lemma status_write:
  "df e = d_none \<Longrightarrow> visible_flags (CONDITIONAL_SET_FLAG b F_CF e) = (visible_flags e)\<lparr>a_CF := b\<rparr>"
  "df e = d_none \<Longrightarrow> visible_flags (CONDITIONAL_SET_FLAG b F_OF e) = (visible_flags e)\<lparr>a_OF := b\<rparr>"
  by (simp_all add: visible_eager status_flags_def)

lemma aflags_update_same [simp]: "f\<lparr>a_CF := a_CF f\<rparr> = f" "f\<lparr>a_OF := a_OF f\<rparr> = f" for f :: aflags
  by simp_all

text \<open>C6. ROL and ROR at 8, 16 and 32 bits return the rotated operand for every count; a nonzero count
  puts the bit rotated around in the carry, a count of one sets the overflow from the two end
  bits, and every other flag keeps the value the operation before left, pending or not.\<close>

theorem rotate_correct:
  "(let r = word_rotl (count s) d8 in fst (rol8 e d8 s) = r \<and>
      visible_flags (snd (rol8 e d8 s)) = (visible_flags e)
        \<lparr>a_CF := (if count s = 0 then a_CF (visible_flags e) else bit r 0),
         a_OF := (if count s = 1 then bit r 0 \<noteq> bit r 7 else a_OF (visible_flags e))\<rparr> \<and>
      erase_flags (snd (rol8 e d8 s)) = erase_flags e) \<and>
   (let r = word_rotl (count s) d16 in fst (rol16 e d16 s) = r \<and>
      visible_flags (snd (rol16 e d16 s)) = (visible_flags e)
        \<lparr>a_CF := (if count s = 0 then a_CF (visible_flags e) else bit r 0),
         a_OF := (if count s = 1 then bit r 0 \<noteq> bit r 15 else a_OF (visible_flags e))\<rparr> \<and>
      erase_flags (snd (rol16 e d16 s)) = erase_flags e) \<and>
   (let r = word_rotl (count s) d32 in fst (rol32 e d32 s) = r \<and>
      visible_flags (snd (rol32 e d32 s)) = (visible_flags e)
        \<lparr>a_CF := (if count s = 0 then a_CF (visible_flags e) else bit r 0),
         a_OF := (if count s = 1 then bit r 0 \<noteq> bit r 31 else a_OF (visible_flags e))\<rparr> \<and>
      erase_flags (snd (rol32 e d32 s)) = erase_flags e) \<and>
   (let r = word_rotr (count s) d8 in fst (ror8 e d8 s) = r \<and>
      visible_flags (snd (ror8 e d8 s)) = (visible_flags e)
        \<lparr>a_CF := (if count s = 0 then a_CF (visible_flags e) else bit r 7),
         a_OF := (if count s = 1 then bit r 6 \<noteq> bit r 7 else a_OF (visible_flags e))\<rparr> \<and>
      erase_flags (snd (ror8 e d8 s)) = erase_flags e) \<and>
   (let r = word_rotr (count s) d16 in fst (ror16 e d16 s) = r \<and>
      visible_flags (snd (ror16 e d16 s)) = (visible_flags e)
        \<lparr>a_CF := (if count s = 0 then a_CF (visible_flags e) else bit r 15),
         a_OF := (if count s = 1 then bit r 14 \<noteq> bit r 15 else a_OF (visible_flags e))\<rparr> \<and>
      erase_flags (snd (ror16 e d16 s)) = erase_flags e) \<and>
   (let r = word_rotr (count s) d32 in fst (ror32 e d32 s) = r \<and>
      visible_flags (snd (ror32 e d32 s)) = (visible_flags e)
        \<lparr>a_CF := (if count s = 0 then a_CF (visible_flags e) else bit r 31),
         a_OF := (if count s = 1 then bit r 30 \<noteq> bit r 31 else a_OF (visible_flags e))\<rparr> \<and>
      erase_flags (snd (ror32 e d32 s)) = erase_flags e)"
  by (simp add: Let_def word_rot_0 status_write rol8_eq rol16_eq rol32_eq ror8_eq ror16_eq ror32_eq)

text \<open>The number of steps modulo the size of the ring gives the same as the number of steps.\<close>

lemma rc_mods:
  fixes d8 :: u8 and d16 :: u16 and d32 :: u32
  shows "(rcl1 ^^ (n mod 9)) (d8, c) = (rcl1 ^^ n) (d8, c)" "(rcl1 ^^ (n mod 17)) (d16, c) = (rcl1 ^^ n) (d16, c)"
    "(rcl1 ^^ (n mod 33)) (d32, c) = (rcl1 ^^ n) (d32, c)" "(rcr1 ^^ (n mod 9)) (d8, c) = (rcr1 ^^ n) (d8, c)"
    "(rcr1 ^^ (n mod 17)) (d16, c) = (rcr1 ^^ n) (d16, c)" "(rcr1 ^^ (n mod 33)) (d32, c) = (rcr1 ^^ n) (d32, c)"
  using rc_mod [of n d8 c] rc_mod [of n d16 c] rc_mod [of n d32 c] by simp_all

lemma rc_none:
  fixes d8 :: u8 and d16 :: u16 and d32 :: u32
  shows "n mod 9 = 0 \<Longrightarrow> (rcl1 ^^ n) (d8, c) = (d8, c)" "n mod 17 = 0 \<Longrightarrow> (rcl1 ^^ n) (d16, c) = (d16, c)"
    "n mod 33 = 0 \<Longrightarrow> (rcl1 ^^ n) (d32, c) = (d32, c)" "n mod 9 = 0 \<Longrightarrow> (rcr1 ^^ n) (d8, c) = (d8, c)"
    "n mod 17 = 0 \<Longrightarrow> (rcr1 ^^ n) (d16, c) = (d16, c)" "n mod 33 = 0 \<Longrightarrow> (rcr1 ^^ n) (d32, c) = (d32, c)"
  using rc_mods(1,4) [of n d8 c] rc_mods(2,5) [of n d16 c] rc_mods(3,6) [of n d32 c] by simp_all

text \<open>C7. RCL and RCR at 8, 16 and 32 bits, which the source computes by splitting the operand in three
  parts, are the count-fold iteration of the one-bit rotation of the operand and the carry: for
  counts beyond the width too, where the ring of 9, 17 or 33 bits comes around.\<close>

theorem rotate_carry_correct:
  "(let x = (rcl1 ^^ count s) (d8, a_CF (visible_flags e)) in fst (rcl8 e d8 s) = fst x \<and>
      visible_flags (snd (rcl8 e d8 s)) = (visible_flags e)
        \<lparr>a_CF := snd x, a_OF := (if count s mod 9 = 1 then snd x \<noteq> bit (fst x) 7 else a_OF (visible_flags e))\<rparr> \<and>
      erase_flags (snd (rcl8 e d8 s)) = erase_flags e) \<and>
   (let x = (rcl1 ^^ count s) (d16, a_CF (visible_flags e)) in fst (rcl16 e d16 s) = fst x \<and>
      visible_flags (snd (rcl16 e d16 s)) = (visible_flags e)
        \<lparr>a_CF := snd x, a_OF := (if count s mod 17 = 1 then snd x \<noteq> bit (fst x) 15 else a_OF (visible_flags e))\<rparr> \<and>
      erase_flags (snd (rcl16 e d16 s)) = erase_flags e) \<and>
   (let x = (rcl1 ^^ count s) (d32, a_CF (visible_flags e)) in fst (rcl32 e d32 s) = fst x \<and>
      visible_flags (snd (rcl32 e d32 s)) = (visible_flags e)
        \<lparr>a_CF := snd x, a_OF := (if count s mod 33 = 1 then snd x \<noteq> bit (fst x) 31 else a_OF (visible_flags e))\<rparr> \<and>
      erase_flags (snd (rcl32 e d32 s)) = erase_flags e) \<and>
   (let x = (rcr1 ^^ count s) (d8, a_CF (visible_flags e)) in fst (rcr8 e d8 s) = fst x \<and>
      visible_flags (snd (rcr8 e d8 s)) = (visible_flags e)
        \<lparr>a_CF := snd x, a_OF := (if count s mod 9 = 1 then a_CF (visible_flags e) \<noteq> bit d8 7 else a_OF (visible_flags e))\<rparr> \<and>
      erase_flags (snd (rcr8 e d8 s)) = erase_flags e) \<and>
   (let x = (rcr1 ^^ count s) (d16, a_CF (visible_flags e)) in fst (rcr16 e d16 s) = fst x \<and>
      visible_flags (snd (rcr16 e d16 s)) = (visible_flags e)
        \<lparr>a_CF := snd x, a_OF := (if count s mod 17 = 1 then a_CF (visible_flags e) \<noteq> bit d16 15 else a_OF (visible_flags e))\<rparr> \<and>
      erase_flags (snd (rcr16 e d16 s)) = erase_flags e) \<and>
   (let x = (rcr1 ^^ count s) (d32, a_CF (visible_flags e)) in fst (rcr32 e d32 s) = fst x \<and>
      visible_flags (snd (rcr32 e d32 s)) = (visible_flags e)
        \<lparr>a_CF := snd x, a_OF := (if count s mod 33 = 1 then a_CF (visible_flags e) \<noteq> bit d32 31 else a_OF (visible_flags e))\<rparr> \<and>
      erase_flags (snd (rcr32 e d32 s)) = erase_flags e)"
  by (simp only: Let_def case_prod_beta rc_mods fst_conv snd_conv rcl8_eq rcl16_eq rcl32_eq rcr8_eq rcr16_eq rcr32_eq)
    (auto simp: rc_none status_write)

text \<open>SHLD and SHRD at 16 and 32 bits are shifts of the two operands side by side: the high half of
  the 64-bit number shifted left, the low half of it shifted right; at 16 bits, where the count may
  exceed the operand, the operands repeat (48 bits).\<close>

theorem double_shift_values:
  "fst (shld32 e d32 f32 s) = ucast (drop_bit 32 (push_bit (count s) (word_cat d32 f32 :: 64 word))) \<and>
   fst (shrd32 e d32 f32 s) = ucast (drop_bit (count s) (word_cat f32 d32 :: 64 word)) \<and>
   fst (shld16 e d16 f16 s) = ucast (drop_bit 32 (push_bit (count s) (word_cat d16 (word_cat f16 d16 :: 32 word) :: 48 word))) \<and>
   fst (shrd16 e d16 f16 s) = ucast (drop_bit (count s) (word_cat d16 (word_cat f16 d16 :: 32 word) :: 48 word))"
  by (simp only: shld32_value shrd32_value shld16_value shrd16_value simp_thms)

text \<open>The flags of SHLD and SHRD for a nonzero count below the operand's width: the carry is the last
  bit shifted out of the destination, the overflow of a count of one is the change of sign, and
  sign, zero and parity are those of the result.\<close>

theorem double_shift_flags:
  assumes "0 < count s" "count s < 16"
  shows "(visible_flags (snd (shld32 e d32 f32 s)) = result_flags (bit d32 (32 - count s)) (ACCESS_FLAG F_AF e)
      (count s = 1 \<and> bit (fst (shld32 e d32 f32 s)) 31 \<noteq> bit d32 31) (fst (shld32 e d32 f32 s))) \<and>
    (visible_flags (snd (shrd32 e d32 f32 s)) = result_flags (bit d32 (count s - 1)) (ACCESS_FLAG F_AF e)
      (count s = 1 \<and> bit (fst (shrd32 e d32 f32 s)) 31 \<noteq> bit d32 31) (fst (shrd32 e d32 f32 s))) \<and>
    (visible_flags (snd (shld16 e d16 f16 s)) = result_flags (bit d16 (16 - count s)) (ACCESS_FLAG F_AF e)
      (count s = 1 \<and> bit (fst (shld16 e d16 f16 s)) 15 \<noteq> bit d16 15) (fst (shld16 e d16 f16 s))) \<and>
    (visible_flags (snd (shrd16 e d16 f16 s)) = result_flags (bit d16 (count s - 1)) (ACCESS_FLAG F_AF e)
      (count s = 1 \<and> bit (fst (shrd16 e d16 f16 s)) 15 \<noteq> bit d16 15) (fst (shrd16 e d16 f16 s)))"
  using assms by (simp only: double_flags32 double_flags16 simp_thms)

theorem double_shift_flags_witness:
  "a_CF (visible_flags (snd (shld32 emu0 0x80000000 0 1)))"
  using double_shift_flags [of 1 emu0 "0x80000000" 0 0 0] by (simp add: count_1 result_flags_def)

text \<open>A shift by 0 replaces the pending operation by its own tag: the flags a program sees after it
  are the stale ones (for SHL with the overflow cleared), not those of the operation before. The
  architecture leaves all flags unchanged.\<close>

theorem shift_by_zero_drops_pending:
  assumes "count s = 0"
  shows "visible_flags (snd (shl8 e d8 s)) = (status_flags e)\<lparr>a_OF := False\<rparr> \<and>
    visible_flags (snd (shl32 e d32 s)) = (status_flags e)\<lparr>a_OF := False\<rparr> \<and>
    visible_flags (snd (shr32 e d32 s)) = status_flags e \<and>
    visible_flags (snd (sar32 e d32 s)) = status_flags e"
  using assms
  by (simp add: shl8_def shl32_def shr32_def sar32_def Let_def visible_flags_def UpdateFlags_tag uf_shl8_def uf_shl32_def
      uf_shr32_def uf_sar32_def status_flags_def shift_fields)

text \<open>After a subtraction of equal operands the zero flag is set; a SHR by 32 loses it.\<close>

theorem shift_by_zero_drops_pending_witness:
  "a_ZF (visible_flags (snd (sub32 emu0 7 7))) \<and>
   \<not> a_ZF (visible_flags (snd (shr32 (snd (sub32 emu0 7 7)) 5 0x20)))"
proof -
  have "\<not> a_ZF (status_flags (snd (sub32 emu0 7 7)))"
    by (simp add: sub32_def Let_def status_flags_def ACCESS_FLAG_def emu0_def)
  moreover have "a_ZF (visible_flags (snd (sub32 emu0 7 7)))"
    by (simp add: sub32_def Let_def visible_flags_def UpdateFlags_tag uf_sub32_def status_flags_def)
  ultimately show ?thesis
    using shift_by_zero_drops_pending [of "0x20" "snd (sub32 emu0 7 7)" 0 5] by (simp add: count_1)
qed

text \<open>SHRD of a 16-bit operand by 16, where the source tests a bit at position \<open>-1\<close> of the filler,
  always clears the carry, although the last bit shifted out is the operand's top bit (SHLD by 16
  does read the last bit shifted out).\<close>

theorem shrd16_by_16_loses_carry:
  assumes "count s = 16"
  shows "\<not> a_CF (visible_flags (snd (shrd16 e d f s))) \<and> fst (shrd16 e d f s) = f \<and>
    a_CF (visible_flags (snd (shld16 e d f s))) = bit d 0"
proof -
  have n: "\<not> s AND 0x1F < 16" "s AND 0x1F = 16"
    using assms by (simp_all add: count_word(1) word_less_nat_alt)
  show ?thesis
    by (simp add: shrd16_def shld16_def Let_def n visible_eager status_flags_def and_one bit_ucast_iff)
      (rule bit_word_eqI, simp add: bit_simps)
qed

theorem shrd16_by_16_loses_carry_witness:
  "\<not> a_CF (visible_flags (snd (shrd16 emu0 0x8000 0 0x10)))"
  using shrd16_by_16_loses_carry [of "0x10" emu0 "0x8000" 0] by (simp add: count_1)

end
