(* ===== verification/PrimopMulDiv.thy ===== *)
theory PrimopMulDiv
  imports PrimopShift "HOL-Library.Signed_Division"
begin

unbundle bit_operations_syntax

text \<open>
  Multiplication, division and the decimal adjustments of \<open>src/emu/x86primop.h\<close> and
  \<open>src/emu/x86primop.c\<close>. Multiplications defer their flags. A division by zero or a quotient
  that does not fit sets \<open>ERR_DIVBY0\<close> in the error field and leaves the registers. C's
  \<open>div\<close> truncates; the one overflowing case (the least dividend by \<open>-1\<close>, undefined in C) wraps
  here, as the division instructions of the ARM hosts of this program do, and so does
  \<open>abs\<close> of the least integer. A base of 0 in AAM, also undefined in C, divides to 0 with the
  dividend as remainder, as on those hosts.
\<close>

section \<open>Multiplication\<close>

definition imul8 :: "'a emu_scheme \<Rightarrow> u8 \<Rightarrow> 'a emu_scheme" where
  "imul8 e s = (let
     e = e\<lparr>df := d_imul8\<rparr>;
     e = e\<lparr>res := scast (reg8 e rAX 0) * scast s\<rparr>
   in set_reg16 rAX (ucast (res e)) e)"

definition imul16_eax :: "'a emu_scheme \<Rightarrow> u16 \<Rightarrow> 'a emu_scheme" where
  "imul16_eax e s = (let
     e = e\<lparr>df := d_imul16\<rparr>;
     e = e\<lparr>res := scast (reg16 e rAX) * scast s\<rparr>;
     e = set_reg16 rAX (ucast (res e)) e
   in set_reg16 rDX (ucast (drop_bit 16 (res e))) e)"

definition imul16 :: "'a emu_scheme \<Rightarrow> u16 \<Rightarrow> u16 \<Rightarrow> u16 \<times> 'a emu_scheme" where
  "imul16 e x y = (let
     e = e\<lparr>df := d_imul16\<rparr>;
     e = e\<lparr>res := scast x * scast y\<rparr>
   in (ucast (res e), e))"

definition imul32_direct :: "u32 \<Rightarrow> u32 \<Rightarrow> u32 \<times> u32" where
  "imul32_direct d s = (let r = scast d * scast s :: u64 in (ucast r, ucast (drop_bit 32 r)))"

definition imul32 :: "'a emu_scheme \<Rightarrow> u32 \<Rightarrow> u32 \<Rightarrow> u32 \<times> 'a emu_scheme" where
  "imul32 e x y = (let
     e = e\<lparr>df := d_imul32\<rparr>;
     (lo, hi) = imul32_direct x y;
     e = e\<lparr>res := lo\<rparr>;
     e = e\<lparr>op1 := hi\<rparr>
   in (res e, e))"

definition imul32_eax :: "'a emu_scheme \<Rightarrow> u32 \<Rightarrow> 'a emu_scheme" where
  "imul32_eax e s = (let
     e = e\<lparr>df := d_imul32\<rparr>;
     (lo, hi) = imul32_direct (reg32 e rAX) s;
     e = set_reg32 rAX lo e;
     e = set_reg32 rDX hi e;
     e = e\<lparr>res := reg32 e rAX\<rparr>
   in e\<lparr>op1 := reg32 e rDX\<rparr>)"

definition mul8 :: "'a emu_scheme \<Rightarrow> u8 \<Rightarrow> 'a emu_scheme" where
  "mul8 e s = (let
     e = e\<lparr>df := d_mul8\<rparr>;
     e = e\<lparr>res := ucast (reg8 e rAX 0) * ucast s\<rparr>
   in set_reg16 rAX (ucast (res e)) e)"

definition mul16 :: "'a emu_scheme \<Rightarrow> u16 \<Rightarrow> 'a emu_scheme" where
  "mul16 e s = (let
     e = e\<lparr>df := d_mul16\<rparr>;
     e = e\<lparr>res := ucast (reg16 e rAX) * ucast s\<rparr>;
     e = set_reg16 rAX (ucast (res e)) e
   in set_reg16 rDX (ucast (drop_bit 16 (res e))) e)"

definition mul32_eax :: "'a emu_scheme \<Rightarrow> u32 \<Rightarrow> 'a emu_scheme" where
  "mul32_eax e s = (let
     e = e\<lparr>df := d_mul32\<rparr>;
     r = ucast (reg32 e rAX) * ucast s :: u64;
     e = set_reg32 rAX (ucast r) e;
     e = e\<lparr>res := reg32 e rAX\<rparr>;
     e = set_reg32 rDX (ucast (drop_bit 32 r)) e
   in e\<lparr>op1 := reg32 e rDX\<rparr>)"

section \<open>Division\<close>

definition INTR_RAISE_DIV0 :: "'a emu_scheme \<Rightarrow> 'a emu_scheme" where
  "INTR_RAISE_DIV0 e = e\<lparr>err := err e OR 2\<rparr>"

text \<open>C's \<open>div\<close> (quotient and remainder, truncated) and \<open>abs\<close> on \<open>'a\<close>-bit integers.\<close>

definition c_div :: "'a::len word \<Rightarrow> 'a word \<Rightarrow> 'a word \<times> 'a word" where
  "c_div a b = (word_of_int (sint a sdiv sint b), word_of_int (sint a smod sint b))"

definition c_abs :: "'a::len word \<Rightarrow> 'a word" where
  "c_abs a = (if sint a < 0 then - a else a)"

definition div8 :: "'a emu_scheme \<Rightarrow> u8 \<Rightarrow> 'a emu_scheme" where
  "div8 e s = (let
     e = RESET_FLAGS e;
     dividend = ucast (reg16 e rAX) :: u32
   in if s = 0 then INTR_RAISE_DIV0 e else (let
     q = dividend div ucast s;
     m = dividend mod ucast s
   in if 0xff < q then INTR_RAISE_DIV0 e else (let
     e = set_reg8 rAX 0 (ucast q) e
   in set_reg8 rAX 1 (ucast m) e)))"

definition div16 :: "'a emu_scheme \<Rightarrow> u16 \<Rightarrow> 'a emu_scheme" where
  "div16 e s = (let
     e = RESET_FLAGS e;
     dividend = push_bit 16 (ucast (reg16 e rDX)) OR ucast (reg16 e rAX) :: u32
   in if s = 0 then INTR_RAISE_DIV0 e else (let
     q = dividend div ucast s;
     m = dividend mod ucast s
   in if 0xffff < q then INTR_RAISE_DIV0 e else (let
     e = set_reg16 rAX (ucast q) e
   in set_reg16 rDX (ucast m) e)))"

definition div32 :: "'a emu_scheme \<Rightarrow> u32 \<Rightarrow> 'a emu_scheme" where
  "div32 e s = (let
     e = RESET_FLAGS e;
     dividend = push_bit 32 (ucast (reg32 e rDX)) OR ucast (reg32 e rAX) :: u64
   in if s = 0 then INTR_RAISE_DIV0 e else (let
     q = dividend div ucast s;
     m = dividend mod ucast s
   in if 0xffffffff < q then INTR_RAISE_DIV0 e else (let
     e = set_reg32 rAX (ucast q) e
   in set_reg32 rDX (ucast m) e)))"

definition idiv8 :: "'a emu_scheme \<Rightarrow> u8 \<Rightarrow> 'a emu_scheme" where
  "idiv8 e s = (let
     e = RESET_FLAGS e;
     dividend = scast (reg16 e rAX) :: u32
   in if s = 0 then INTR_RAISE_DIV0 e else (let
     (quot, m) = c_div dividend (scast s)
   in if 0x7f < sint (c_abs quot) then INTR_RAISE_DIV0 e else (let
     e = set_reg8 rAX 0 (ucast quot) e
   in set_reg8 rAX 1 (ucast m) e)))"

definition idiv16 :: "'a emu_scheme \<Rightarrow> u16 \<Rightarrow> 'a emu_scheme" where
  "idiv16 e s = (let
     dividend = push_bit 16 (ucast (reg16 e rDX)) OR ucast (reg16 e rAX) :: u32
   in if s = 0 then INTR_RAISE_DIV0 e else (let
     (quot, m) = c_div dividend (scast s)
   in if 0x7fff < sint (c_abs quot) then INTR_RAISE_DIV0 e else (let
     e = CLEAR_FLAG F_CF e;
     e = CLEAR_FLAG F_SF e;
     e = CONDITIONAL_SET_FLAG (quot = 0) F_ZF e;
     e = CONDITIONAL_SET_FLAG (PARITY (m AND 0xFF)) F_PF e;
     e = set_reg16 rAX (ucast quot) e
   in set_reg16 rDX (ucast m) e)))"

definition idiv32 :: "'a emu_scheme \<Rightarrow> u32 \<Rightarrow> 'a emu_scheme" where
  "idiv32 e s = (let
     e = RESET_FLAGS e;
     dividend = push_bit 32 (ucast (reg32 e rDX)) OR ucast (reg32 e rAX) :: u64
   in if s = 0 then INTR_RAISE_DIV0 e else (let
     (quot, m) = c_div dividend (scast s)
   in if 0x7fffffff < sint (c_abs quot) then INTR_RAISE_DIV0 e else (let
     e = CLEAR_FLAG F_CF e;
     e = CLEAR_FLAG F_AF e;
     e = CLEAR_FLAG F_SF e;
     e = SET_FLAG F_ZF e;
     e = CONDITIONAL_SET_FLAG (PARITY (ucast (m AND 0xFF))) F_PF e;
     e = set_reg32 rAX (ucast quot) e
   in set_reg32 rDX (ucast m) e)))"

section \<open>Decimal adjustment\<close>

definition aaa16 :: "'a emu_scheme \<Rightarrow> u16 \<Rightarrow> u16 \<times> 'a emu_scheme" where
  "aaa16 e d = (let
     e = CHECK_FLAGS e;
     (d, e) = (if 9 < d AND 0xF \<or> ACCESS_FLAG F_AF e
       then (d + 0x6 + 0x100, SET_FLAG F_CF (SET_FLAG F_AF e))
       else (d, CLEAR_FLAG F_AF (CLEAR_FLAG F_CF e)));
     r = d AND 0xFF0F;
     e = CLEAR_FLAG F_SF e;
     e = CONDITIONAL_SET_FLAG (r = 0) F_ZF e;
     e = CONDITIONAL_SET_FLAG (PARITY (ucast r AND 0xFF)) F_PF e
   in (r, e))"

definition aas16 :: "'a emu_scheme \<Rightarrow> u16 \<Rightarrow> u16 \<times> 'a emu_scheme" where
  "aas16 e d = (let
     e = CHECK_FLAGS e;
     (d, e) = (if 9 < d AND 0xF \<or> ACCESS_FLAG F_AF e
       then (d - 0x6 - 0x100, SET_FLAG F_CF (SET_FLAG F_AF e))
       else (d, CLEAR_FLAG F_AF (CLEAR_FLAG F_CF e)));
     r = d AND 0xFF0F;
     e = CLEAR_FLAG F_SF e;
     e = CONDITIONAL_SET_FLAG (r = 0) F_ZF e;
     e = CONDITIONAL_SET_FLAG (PARITY (ucast r AND 0xFF)) F_PF e
   in (r, e))"

definition aad16 :: "'a emu_scheme \<Rightarrow> u16 \<Rightarrow> u8 \<Rightarrow> u16 \<times> 'a emu_scheme" where
  "aad16 e d base = (let
     e = RESET_FLAGS e;
     hb = ucast (drop_bit 8 d AND 0xFF) :: u8;
     lb = ucast (d AND 0xFF) :: u8;
     l = ucast ((ucast lb + ucast base * ucast hb :: u32) AND 0xFF) :: u16;
     e = CLEAR_FLAG F_CF e;
     e = CLEAR_FLAG F_AF e;
     e = CLEAR_FLAG F_OF e;
     e = CONDITIONAL_SET_FLAG (l AND 0x80 \<noteq> 0) F_SF e;
     e = CONDITIONAL_SET_FLAG (l = 0) F_ZF e;
     e = CONDITIONAL_SET_FLAG (PARITY (ucast l AND 0xFF)) F_PF e
   in (l, e))"

definition aam16 :: "'a emu_scheme \<Rightarrow> u8 \<Rightarrow> u8 \<Rightarrow> u16 \<times> 'a emu_scheme" where
  "aam16 e d base = (let
     e = RESET_FLAGS e;
     h = ucast (d div base) :: u16;
     l = ucast (d mod base) :: u16;
     l = l OR push_bit 8 h;
     e = CLEAR_FLAG F_CF e;
     e = CLEAR_FLAG F_AF e;
     e = CLEAR_FLAG F_OF e;
     e = CONDITIONAL_SET_FLAG (l AND 0x80 \<noteq> 0) F_SF e;
     e = CONDITIONAL_SET_FLAG (l = 0) F_ZF e;
     e = CONDITIONAL_SET_FLAG (PARITY (ucast l AND 0xFF)) F_PF e
   in (l, e))"

definition daa8 :: "'a emu_scheme \<Rightarrow> u8 \<Rightarrow> u8 \<times> 'a emu_scheme" where
  "daa8 e d = (let
     r = ucast d :: u32;
     e = CHECK_FLAGS e;
     (r, e) = (if 9 < d AND 0xF \<or> ACCESS_FLAG F_AF e then (r + 6, SET_FLAG F_AF e) else (r, e));
     (r, e) = (if 0x99 < d \<or> ACCESS_FLAG F_CF e then (r + 0x60, SET_FLAG F_CF e) else (r, CLEAR_FLAG F_CF e));
     e = CONDITIONAL_SET_FLAG (r AND 0x80 \<noteq> 0) F_SF e;
     e = CONDITIONAL_SET_FLAG (r AND 0xFF = 0) F_ZF e;
     e = CONDITIONAL_SET_FLAG (PARITY (r AND 0xFF)) F_PF e
   in (ucast r, e))"

definition das8 :: "'a emu_scheme \<Rightarrow> u8 \<Rightarrow> u8 \<times> 'a emu_scheme" where
  "das8 e d = (let
     r = ucast d :: u32;
     e = CHECK_FLAGS e;
     newcf = False;
     (r, newcf, e) = (if 9 < d AND 0xF \<or> ACCESS_FLAG F_AF e then (r - 6, d < 6, SET_FLAG F_AF e)
       else (r, newcf, CLEAR_FLAG F_AF e));
     (r, newcf) = (if 0x99 < d \<or> ACCESS_FLAG F_CF e then (r - 0x60, True) else (r, newcf));
     e = CONDITIONAL_SET_FLAG newcf F_CF e;
     e = CONDITIONAL_SET_FLAG (r AND 0x80 \<noteq> 0) F_SF e;
     e = CONDITIONAL_SET_FLAG (r AND 0xFF = 0) F_ZF e;
     e = CONDITIONAL_SET_FLAG (PARITY (r AND 0xFF)) F_PF e
   in (ucast r, e))"

section \<open>Products\<close>

lemma unsigned_product:
  fixes x y :: "'a::len word"
  assumes "2 * LENGTH('a) \<le> LENGTH('b::len)"
  shows "uint (ucast x * ucast y :: 'b word) = uint x * uint y"
proof -
  have le: "LENGTH('a) \<le> LENGTH('b)" using assms by simp
  have "uint x * uint y < 2 ^ LENGTH('a) * 2 ^ LENGTH('a)"
    by (intro mult_strict_mono) simp_all
  also have "\<dots> \<le> (2 :: int) ^ LENGTH('b)"
    using assms by (simp flip: power_add mult_2)
  finally have b: "uint x * uint y < 2 ^ LENGTH('b)" .
  have "ucast x * ucast y = (word_of_int (uint x * uint y) :: 'b word)"
    by simp
  then show ?thesis
    using b by (simp only: unsigned_of_int) (simp add: take_bit_int_eq_self)
qed

lemma signed_product:
  fixes x y :: "'a::len word"
  assumes "2 * LENGTH('a) \<le> LENGTH('b::len)"
  shows "sint (scast x * scast y :: 'b word) = sint x * sint y"
proof -
  define h where "h = (2 :: int) ^ (LENGTH('a) - 1)"
  have r: "\<bar>sint w\<bar> \<le> h" for w :: "'a word"
    using sint_range_size [of w] by (simp add: h_def word_size abs_le_iff)
  have "\<bar>sint x * sint y\<bar> \<le> h * h"
    unfolding abs_mult using r by (intro mult_mono) (simp_all add: h_def)
  also have "h * h = 2 ^ (2 * (LENGTH('a) - 1))"
    by (simp add: h_def flip: power_add mult_2)
  also have "\<dots> < (2 :: int) ^ (LENGTH('b) - 1)"
    by (rule power_strict_increasing) (use assms len_gt_0 [where 'a = 'a] in linarith, simp)
  finally have b: "\<bar>sint x * sint y\<bar> < 2 ^ (LENGTH('b) - 1)" .
  have "scast x * scast y = (word_of_int (sint x * sint y) :: 'b word)"
    by simp
  then have "sint (scast x * scast y :: 'b word) = signed_take_bit (LENGTH('b) - 1) (sint x * sint y)"
    by (simp only: signed_of_int) simp
  also have "\<dots> = sint x * sint y"
    using b by (intro signed_take_bit_int_eq_self) (auto simp: abs_less_iff)
  finally show ?thesis .
qed

text \<open>A signed number of twice the width fits the lower half when the upper half repeats its sign.\<close>

lemma fits_half:
  fixes w :: "'b::len word"
  assumes "LENGTH('b) = 2 * LENGTH('a::len)"
  shows "sint w \<in> signed_range TYPE('a) \<longleftrightarrow>
    (ucast (drop_bit LENGTH('a) w) :: 'a word) = (if bit w (LENGTH('a) - 1) then - 1 else 0)"
proof -
  have r: "sint (v :: 'a word) \<in> signed_range TYPE('a)" for v
    using sint_range_size [of v] by (simp add: signed_range_def word_size)
  have "sint w \<in> signed_range TYPE('a) \<longleftrightarrow> scast (ucast w :: 'a word) = w"
  proof
    assume a: "sint w \<in> signed_range TYPE('a)"
    have "(ucast w :: 'a word) = word_of_int (sint w)"
    proof (rule bit_word_eqI)
      fix n assume n: "n < LENGTH('a)"
      then have "n \<le> LENGTH('b) - 1" using assms by linarith
      then show "bit (ucast w :: 'a word) n = bit (word_of_int (sint w) :: 'a word) n"
        using n by (simp add: bit_simps min_absorb2 min_absorb1)
    qed
    then have "sint (ucast w :: 'a word) = signed_take_bit (LENGTH('a) - 1) (sint w)"
      by (simp only: signed_of_int) simp
    also have "\<dots> = sint w"
      using a by (intro signed_take_bit_int_eq_self) (auto simp: signed_range_def)
    finally show "scast (ucast w :: 'a word) = w"
      by (simp add: scast_eq)
  next
    assume a: "scast (ucast w :: 'a word) = w"
    have "sint (scast v :: 'b word) = sint (v :: 'a word)" for v
      using assms by (simp add: sint_up_scast is_up)
    then show "sint w \<in> signed_range TYPE('a)" using r [of "ucast w"] by (metis a)
  qed
  also have "\<dots> \<longleftrightarrow> (ucast (drop_bit LENGTH('a) w) :: 'a word) = (if bit w (LENGTH('a) - 1) then - 1 else 0)"
  proof
    assume a: "scast (ucast w :: 'a word) = w"
    have b: "bit w j = bit (scast (ucast w :: 'a word) :: 'b word) j" for j unfolding a ..
    show "(ucast (drop_bit LENGTH('a) w) :: 'a word) = (if bit w (LENGTH('a) - 1) then - 1 else 0)"
    proof (rule bit_word_eqI)
      fix j assume "j < LENGTH('a)"
      then show "bit (ucast (drop_bit LENGTH('a) w) :: 'a word) j = bit (if bit w (LENGTH('a) - 1) then - 1 else 0 :: 'a word) j"
        using assms b [of "LENGTH('a) + j"] by (auto simp: bit_simps)
    qed
  next
    assume a: "(ucast (drop_bit LENGTH('a) w) :: 'a word) = (if bit w (LENGTH('a) - 1) then - 1 else 0)"
    have b: "bit w (LENGTH('a) + j) = bit w (LENGTH('a) - 1)" if "j < LENGTH('a)" for j
      using arg_cong [where f = "\<lambda>v. bit v j", OF a] that by (auto simp: bit_simps split: if_splits)
    show "scast (ucast w :: 'a word) = w"
    proof (rule bit_word_eqI)
      fix j assume j: "j < LENGTH('b)"
      show "bit (scast (ucast w :: 'a word) :: 'b word) j = bit w j"
      proof (cases "j < LENGTH('a)")
        case True
        then have "min (LENGTH('a) - 1) j = j" by simp
        with True j show ?thesis by (simp add: bit_simps)
      next
        case False
        then have "min (LENGTH('a) - 1) j = LENGTH('a) - 1" "LENGTH('a) + (j - LENGTH('a)) = j" by simp_all
        with assms j b [of "j - LENGTH('a)"] show ?thesis by (simp add: bit_simps)
      qed
    qed
  qed
  finally show ?thesis .
qed

lemma low_byte_full: "x AND 0xFF = 0xFF \<longleftrightarrow> (ucast x :: u8) = - 1" for x :: u32
proof -
  have le: "n < 8 \<Longrightarrow> n < 32" for n :: nat by simp
  have "x AND mask 8 = mask 8 \<longleftrightarrow> (ucast x :: u8) = - 1"
    by (auto simp: bit_eq_iff bit_simps) (metis le)
  then show ?thesis by (simp add: mask_eq_exp_minus_1)
qed

lemma halves16:
  fixes r :: u32
  shows "(ucast (drop_bit 8 r) :: u8) = ucast (drop_bit 8 (ucast r :: u16))"
    "bit r 7 = bit (ucast r :: u16) 7"
  by (auto intro!: bit_word_eqI simp: bit_simps)

lemma high_word:
  fixes r :: u32
  shows "(ucast (ucast (drop_bit 16 r) :: u16) :: u32) = 0 \<longleftrightarrow> (ucast (drop_bit 16 r) :: u16) = 0"
    "(ucast (ucast (drop_bit 16 r) :: u16) :: u32) = 0xFFFF \<longleftrightarrow> (ucast (drop_bit 16 r) :: u16) = - 1"
    "(ucast (ucast r :: u16) :: u32) AND 0x8000 = 0 \<longleftrightarrow> \<not> bit r 15"
    "(ucast (ucast r :: u16) :: u32) AND 0xFF = r AND 0xFF"
proof -
  have le: "n < 16 \<Longrightarrow> n < 32" for n :: nat by simp
  have m: "(0xFFFF :: u32) = mask 16" "(0xFF :: u32) = mask 8" by (simp_all add: mask_eq_exp_minus_1)
  show "(ucast (ucast (drop_bit 16 r) :: u16) :: u32) = 0 \<longleftrightarrow> (ucast (drop_bit 16 r) :: u16) = 0"
    by (simp add: ucast32_eq_0)
  show "(ucast (ucast (drop_bit 16 r) :: u16) :: u32) = 0xFFFF \<longleftrightarrow> (ucast (drop_bit 16 r) :: u16) = - 1"
    unfolding m by (auto simp: bit_eq_iff bit_simps) (metis le)
  show "(ucast (ucast r :: u16) :: u32) AND 0x8000 = 0 \<longleftrightarrow> \<not> bit r 15"
    by (simp add: mask_simps bit_ucast_iff)
  show "(ucast (ucast r :: u16) :: u32) AND 0xFF = r AND 0xFF"
    unfolding m by (rule bit_word_eqI) (auto simp: bit_simps)
qed

text \<open>Carry and overflow after a multiplication; the flags it does not define keep their stale value.\<close>

definition product_flags :: "bool \<Rightarrow> 'b::len word \<Rightarrow> 'a emu_scheme \<Rightarrow> aflags" where
  "product_flags ov low e = (status_flags e)\<lparr>a_CF := ov, a_OF := ov, a_PF := even_parity low\<rparr>"

lemma imul8_flag_test:
  fixes r :: u32
  shows "((r AND 0xFF) AND 0x80 = 0 \<and> drop_bit 8 r AND 0xFF = 0) \<or> ((r AND 0xFF) AND 0x80 \<noteq> 0 \<and> drop_bit 8 r AND 0xFF = 0xFF)
    \<longleftrightarrow> sint (ucast r :: u16) \<in> signed_range TYPE(8)"
proof -
  have "(r AND 0xFF) AND 0x80 = r AND 0x80" by (simp add: and.assoc)
  then show ?thesis
    using fits_half [where 'a = 8 and w = "ucast r :: u16"]
    by (simp add: low_byte_full low_mask_eq_0 halves16 mask_simps)
qed

lemma imul16_flag_test:
  fixes r :: u32
  defines "lo \<equiv> ucast (ucast r :: u16) :: u32" and "hi \<equiv> ucast (ucast (drop_bit 16 r) :: u16) :: u32"
  shows "(lo AND 0x8000 = 0 \<and> hi = 0) \<or> (lo AND 0x8000 \<noteq> 0 \<and> hi = 0xFFFF) \<longleftrightarrow> sint r \<in> signed_range TYPE(16)"
  using fits_half [where 'a = 16 and w = r] by (simp add: lo_def hi_def high_word)

lemma imul32_flag_test:
  fixes p :: u64
  shows "((ucast p :: u32) AND 0x80000000 = 0 \<and> (ucast (drop_bit 32 p) :: u32) = 0) \<or>
      ((ucast p :: u32) AND 0x80000000 \<noteq> 0 \<and> (ucast (drop_bit 32 p) :: u32) = 0xFFFFFFFF)
    \<longleftrightarrow> sint p \<in> signed_range TYPE(32)"
proof -
  have m: "(0xFFFFFFFF :: u32) = - 1" by simp
  show ?thesis
    unfolding m using fits_half [where 'a = 32 and w = p] by (simp add: mask_simps bit_ucast_iff)
qed

section \<open>Correctness of multiplication\<close>

text \<open>Register views after register writes.\<close>

lemma reg_after_write [simp]:
  "reg16 (set_reg16 r v e) r' = (if r' = r then v else reg16 e r')"
  "reg32 (set_reg32 r w e) r' = (if r' = r then w else reg32 e r')"
  "res (set_reg16 r v e) = res e" "res (set_reg32 r w e) = res e"
  "op1 (set_reg16 r v e) = op1 e" "op1 (set_reg32 r w e) = op1 e"
  "df (set_reg16 r v e) = df e" "df (set_reg32 r w e) = df e"
  "eflags (set_reg16 r v e) = eflags e" "eflags (set_reg32 r w e) = eflags e"
  "err (set_reg16 r v e) = err e" "err (set_reg32 r w e) = err e"
  by (simp_all add: reg16_def set_reg16_def reg32_def set_reg32_def)

lemma reg_after_field [simp]:
  "reg8 (e\<lparr>df := t\<rparr>) r k = reg8 e r k" "reg8 (e\<lparr>res := x\<rparr>) r k = reg8 e r k"
  "reg16 (e\<lparr>df := t\<rparr>) r = reg16 e r" "reg16 (e\<lparr>res := x\<rparr>) r = reg16 e r"
  "reg32 (e\<lparr>df := t\<rparr>) r = reg32 e r" "reg32 (e\<lparr>res := x\<rparr>) r = reg32 e r" "reg32 (e\<lparr>op1 := x\<rparr>) r = reg32 e r"
  by (simp_all add: reg8_def reg16_def reg32_def)

lemma ACCESS_after_write [flag_simps, simp]:
  "ACCESS_FLAG f (set_reg16 r v e) = ACCESS_FLAG f e" "ACCESS_FLAG f (set_reg32 r w e) = ACCESS_FLAG f e"
  by (simp_all add: ACCESS_FLAG_def)

lemma split_word:
  fixes r :: u32 and p :: u64
  shows "uint (ucast r :: u16) + 65536 * uint (ucast (drop_bit 16 r) :: u16) = uint r"
    "uint (ucast p :: u32) + 4294967296 * uint (ucast (drop_bit 32 p) :: u32) = uint p"
    "(word_cat (ucast (drop_bit 16 r) :: u16) (ucast r :: u16) :: u32) = r"
    "(word_cat (ucast (drop_bit 32 p) :: u32) (ucast p :: u32) :: u64) = p"
proof -
  have "uint (ucast r :: u16) = uint r mod 65536" "uint (ucast p :: u32) = uint p mod 4294967296"
    by (simp_all add: unsigned_ucast_eq take_bit_eq_mod)
  moreover have d: "uint r div 65536 < 65536" "uint p div 4294967296 < 4294967296"
  proof -
    have "uint r < 4294967296" "uint p < 18446744073709551616"
      using uint_lt2p [of r] uint_lt2p [of p] by simp_all
    then show "uint r div 65536 < 65536" "uint p div 4294967296 < 4294967296" by linarith+
  qed
  moreover have "uint (ucast (drop_bit 16 r) :: u16) = uint r div 65536"
    "uint (ucast (drop_bit 32 p) :: u32) = uint p div 4294967296"
    using d by (simp_all add: unsigned_ucast_eq take_bit_eq_mod drop_bit_eq_div uint_div mod_pos_pos_trivial pos_imp_zdiv_nonneg_iff)
  ultimately show "uint (ucast r :: u16) + 65536 * uint (ucast (drop_bit 16 r) :: u16) = uint r"
    "uint (ucast p :: u32) + 4294967296 * uint (ucast (drop_bit 32 p) :: u32) = uint p" by simp_all
  show "(word_cat (ucast (drop_bit 16 r) :: u16) (ucast r :: u16) :: u32) = r"
    by (rule bit_word_eqI) (auto simp: cat32_bit bit_ucast_iff bit_drop_bit_eq)
  show "(word_cat (ucast (drop_bit 32 p) :: u32) (ucast p :: u32) :: u64) = p"
    by (rule bit_word_eqI) (auto simp: cat64_bit bit_ucast_iff bit_drop_bit_eq)
qed

lemma down_wi:
  "LENGTH('a::len) \<le> LENGTH('b::len) \<Longrightarrow> (ucast (word_of_int k :: 'b word) :: 'a word) = word_of_int k"
  by (intro ucast_down_wi) (simp add: is_down)

lemma down_product:
  fixes x y :: "'a::len word"
  assumes "LENGTH('c::len) \<le> LENGTH('b::len)"
  shows "(ucast (ucast x * ucast y :: 'b word) :: 'c word) = ucast x * ucast y"
    "(ucast (scast x * scast y :: 'b word) :: 'c word) = scast x * scast y"
proof -
  have "(ucast x * ucast y :: 'b word) = word_of_int (uint x * uint y)"
    "(scast x * scast y :: 'b word) = word_of_int (sint x * sint y)" by simp_all
  then show "(ucast (ucast x * ucast y :: 'b word) :: 'c word) = ucast x * ucast y"
    "(ucast (scast x * scast y :: 'b word) :: 'c word) = scast x * scast y"
    using assms by (simp_all only: down_wi) simp_all
qed

lemma mul_state:
  "reg16 (mul8 e s8) rAX = ucast (reg8 e rAX 0) * ucast s8"
  "reg16 (mul16 e s16) rAX = ucast (ucast (reg16 e rAX) * ucast s16 :: u32)"
  "reg16 (mul16 e s16) rDX = ucast (drop_bit 16 (ucast (reg16 e rAX) * ucast s16 :: u32))"
  "reg32 (mul32_eax e s32) rAX = ucast (ucast (reg32 e rAX) * ucast s32 :: u64)"
  "reg32 (mul32_eax e s32) rDX = ucast (drop_bit 32 (ucast (reg32 e rAX) * ucast s32 :: u64))"
  by (simp_all add: mul8_def mul16_def mul32_eax_def Let_def down_product)

lemma mul_products:
  "uint (reg16 (mul8 e s8) rAX) = uint (reg8 e rAX 0) * uint s8"
  "uint (reg16 (mul16 e s16) rAX) + 65536 * uint (reg16 (mul16 e s16) rDX) = uint (reg16 e rAX) * uint s16"
  "uint (reg32 (mul32_eax e s32) rAX) + 4294967296 * uint (reg32 (mul32_eax e s32) rDX) = uint (reg32 e rAX) * uint s32"
  unfolding mul_state split_word
  using unsigned_product [where 'a = 8 and 'b = 16] unsigned_product [where 'a = 16 and 'b = 32]
    unsigned_product [where 'a = 32 and 'b = 64]
  by simp_all

lemma imul_state:
  "reg16 (imul8 e s8) rAX = scast (reg8 e rAX 0) * scast s8"
  "reg16 (imul16_eax e s16) rAX = ucast (scast (reg16 e rAX) * scast s16 :: u32)"
  "reg16 (imul16_eax e s16) rDX = ucast (drop_bit 16 (scast (reg16 e rAX) * scast s16 :: u32))"
  "reg32 (imul32_eax e s32) rAX = ucast (scast (reg32 e rAX) * scast s32 :: u64)"
  "reg32 (imul32_eax e s32) rDX = ucast (drop_bit 32 (scast (reg32 e rAX) * scast s32 :: u64))"
  by (simp_all add: imul8_def imul16_eax_def imul32_eax_def imul32_direct_def Let_def down_product)

lemma imul_products:
  "sint (reg16 (imul8 e s8) rAX) = sint (reg8 e rAX 0) * sint s8"
  "sint (word_cat (reg16 (imul16_eax e s16) rDX) (reg16 (imul16_eax e s16) rAX) :: u32) = sint (reg16 e rAX) * sint s16"
  "sint (word_cat (reg32 (imul32_eax e s32) rDX) (reg32 (imul32_eax e s32) rAX) :: u64) = sint (reg32 e rAX) * sint s32"
  "fst (imul16 e x16 y16) = x16 * y16"
  "fst (imul32 e x32 y32) = x32 * y32"
  by (simp_all only: imul_state split_word signed_product)
    (simp_all add: imul_state signed_product imul16_def imul32_def imul32_direct_def Let_def down_product)

lemma high_zero:
  fixes r :: u32 and p :: u64
  shows "uint r < 65536 \<Longrightarrow> drop_bit 8 r AND 0xFF = 0 \<longleftrightarrow> uint r < 256"
    "(ucast (drop_bit 16 r) :: u16) = 0 \<longleftrightarrow> uint r < 65536"
    "(ucast (drop_bit 32 p) :: u32) = 0 \<longleftrightarrow> uint p < 4294967296"
proof -
  have b: "uint r < 4294967296" "uint p < 18446744073709551616"
    using uint_lt2p [of r] uint_lt2p [of p] by simp_all
  have z: "k div m mod m = 0 \<longleftrightarrow> k < m" if "0 \<le> k" "k < m * m" "0 < m" for k m :: int
  proof -
    have "\<not> m \<le> k div m"
    proof
      assume "m \<le> k div m"
      then have "m * m \<le> m * (k div m)" using that by (intro mult_left_mono) simp_all
      also have "\<dots> = k - k mod m" by (simp add: minus_mod_eq_mult_div)
      also have "\<dots> \<le> k" using that by simp
      finally show False using that by simp
    qed
    then have "k div m < m" by simp
    then have "k div m mod m = k div m" using that by (simp add: pos_imp_zdiv_nonneg_iff)
    then show ?thesis using that by (auto simp: zdiv_eq_0_iff)
  qed
  have u: "w = 0 \<longleftrightarrow> uint w = 0" for w :: "'c::len word" by (simp add: word_uint_eq_iff)
  show "uint r < 65536 \<Longrightarrow> drop_bit 8 r AND 0xFF = 0 \<longleftrightarrow> uint r < 256"
    using z [of "uint r" 256] unfolding low_mask_eq_0 u [of "ucast (drop_bit 8 r) :: u8"]
    by (simp add: unsigned_ucast_eq take_bit_eq_mod drop_bit_eq_div uint_div)
  show "(ucast (drop_bit 16 r) :: u16) = 0 \<longleftrightarrow> uint r < 65536"
    using z [of "uint r" 65536] b unfolding u [of "ucast (drop_bit 16 r) :: u16"]
    by (simp add: unsigned_ucast_eq take_bit_eq_mod drop_bit_eq_div uint_div)
  show "(ucast (drop_bit 32 p) :: u32) = 0 \<longleftrightarrow> uint p < 4294967296"
    using z [of "uint p" 4294967296] b unfolding u [of "ucast (drop_bit 32 p) :: u32"]
    by (simp add: unsigned_ucast_eq take_bit_eq_mod drop_bit_eq_div uint_div)
qed

lemma parity_and_255: "(r AND 0xFF) AND 0xFF = r AND 0xFF" for r :: u32
  by (simp add: and.assoc)

lemma even_parity_low:
  fixes v :: "'b::len word"
  assumes "8 \<le> LENGTH('a::len)" "8 \<le> LENGTH('b)"
  shows "even_parity (ucast v :: 'a word) = even_parity v"
  using assms by (simp add: even_parity_def upt_8 bit_ucast_iff)

lemma product_bound8: "uint x * uint y < 65536" for x y :: u8
proof -
  have "uint x * uint y < 256 * 256"
    using uint_lt2p [of x] uint_lt2p [of y] by (intro mult_strict_mono) simp_all
  then show ?thesis by simp
qed

lemma mul8_flags: "visible_flags (mul8 e s8) = product_flags (256 \<le> uint (reg8 e rAX 0) * uint s8) (ucast (reg8 e rAX 0) * ucast s8 :: u16) e"
  using unsigned_product [where 'b = 32 and x = "reg8 e rAX 0" and y = s8] high_zero(1) [of "ucast (reg8 e rAX 0) * ucast s8"] product_bound8 [of "reg8 e rAX 0" s8] even_parity_low [where 'a = 16 and v = "ucast (reg8 e rAX 0) * ucast s8 :: u32"]
  by (simp add: mul8_def Let_def visible_flags_def UpdateFlags_tag uf_mul8_def product_flags_def status_flags_def down_product
      high_word high_zero parity_and_255 PARITY_even_parity even_parity_and_255 even_parity_up not_le)

lemma mul16_flags: "visible_flags (mul16 e s16) = product_flags (65536 \<le> uint (reg16 e rAX) * uint s16) (reg16 e rAX * s16) e"
  using unsigned_product [where 'b = 32 and x = "reg16 e rAX" and y = s16] even_parity_low [where 'a = 16 and v = "ucast (reg16 e rAX) * ucast s16 :: u32"]
  by (simp add: mul16_def Let_def visible_flags_def UpdateFlags_tag uf_mul16_def product_flags_def status_flags_def down_product
      high_word high_zero parity_and_255 PARITY_even_parity even_parity_and_255 even_parity_up not_le)

lemma mul32_flags: "visible_flags (mul32_eax e s32) = product_flags (4294967296 \<le> uint (reg32 e rAX) * uint s32) (reg32 e rAX * s32) e"
  using unsigned_product [where 'b = 64 and x = "reg32 e rAX" and y = s32]
  by (simp add: mul32_eax_def Let_def visible_flags_def UpdateFlags_tag uf_mul32_def product_flags_def status_flags_def down_product
      high_word high_zero parity_and_255 PARITY_even_parity even_parity_and_255 even_parity_up not_le)

lemma imul8_flags: "visible_flags (imul8 e s8) = product_flags (sint (reg8 e rAX 0) * sint s8 \<notin> signed_range TYPE(8)) (scast (reg8 e rAX 0) * scast s8 :: u16) e"
  using imul8_flag_test [of "scast (reg8 e rAX 0) * scast s8"] signed_product [where 'b = 16 and x = "reg8 e rAX 0" and y = s8] even_parity_low [where 'a = 16 and v = "scast (reg8 e rAX 0) * scast s8 :: u32"]
  by (simp add: imul8_def Let_def visible_flags_def UpdateFlags_tag uf_imul8_def product_flags_def status_flags_def down_product
      high_word high_zero parity_and_255 PARITY_even_parity even_parity_and_255 even_parity_up not_le)

lemma imul16_eax_flags: "visible_flags (imul16_eax e s16) = product_flags (sint (reg16 e rAX) * sint s16 \<notin> signed_range TYPE(16)) (reg16 e rAX * s16) e"
  using imul16_flag_test [of "scast (reg16 e rAX) * scast s16"] signed_product [where 'b = 32 and x = "reg16 e rAX" and y = s16] even_parity_low [where 'a = 16 and v = "scast (reg16 e rAX) * scast s16 :: u32"]
  by (simp add: imul16_eax_def Let_def visible_flags_def UpdateFlags_tag uf_imul16_def product_flags_def status_flags_def down_product
      high_word high_zero parity_and_255 PARITY_even_parity even_parity_and_255 even_parity_up not_le)

lemma imul32_eax_flags: "visible_flags (imul32_eax e s32) = product_flags (sint (reg32 e rAX) * sint s32 \<notin> signed_range TYPE(32)) (reg32 e rAX * s32) e"
  using imul32_flag_test [of "scast (reg32 e rAX) * scast s32"] signed_product [where 'b = 64 and x = "reg32 e rAX" and y = s32]
  by (simp add: imul32_eax_def imul32_direct_def Let_def visible_flags_def UpdateFlags_tag uf_imul32_def product_flags_def status_flags_def down_product
      high_word high_zero parity_and_255 PARITY_even_parity even_parity_and_255 even_parity_up not_le)

lemma imul16_flags: "visible_flags (snd (imul16 e x16 y16)) = product_flags (sint x16 * sint y16 \<notin> signed_range TYPE(16)) (x16 * y16) e"
  using imul16_flag_test [of "scast x16 * scast y16"] signed_product [where 'b = 32 and x = x16 and y = y16] even_parity_low [where 'a = 16 and v = "scast x16 * scast y16 :: u32"]
  by (simp add: imul16_def Let_def visible_flags_def UpdateFlags_tag uf_imul16_def product_flags_def status_flags_def down_product
      high_word high_zero parity_and_255 PARITY_even_parity even_parity_and_255 even_parity_up not_le)

lemma imul32_flags: "visible_flags (snd (imul32 e x32 y32)) = product_flags (sint x32 * sint y32 \<notin> signed_range TYPE(32)) (x32 * y32) e"
  using imul32_flag_test [of "scast x32 * scast y32"] signed_product [where 'b = 64 and x = x32 and y = y32]
  by (simp add: imul32_def imul32_direct_def Let_def visible_flags_def UpdateFlags_tag uf_imul32_def product_flags_def status_flags_def down_product
      high_word high_zero parity_and_255 PARITY_even_parity even_parity_and_255 even_parity_up not_le)

text \<open>C8. MUL and IMUL: the full product is in AX (8 bits), DX:AX (16 bits) or EDX:EAX (32 bits), as unsigned or
  signed numbers with nothing lost, and the two-operand forms return it modulo the width. After MUL the
  carry and the overflow say that the upper half of the product is not zero; after IMUL (all five
  forms) that the product does not fit the lower half as a signed number. Parity is the result's,
  and the flags a multiplication leaves undefined keep their stale value.\<close>

theorem mul_imul_correct:
  "(uint (reg16 (mul8 e s8) rAX) = uint (reg8 e rAX 0) * uint s8 \<and>
     uint (reg16 (mul16 e s16) rAX) + 65536 * uint (reg16 (mul16 e s16) rDX) = uint (reg16 e rAX) * uint s16 \<and>
     uint (reg32 (mul32_eax e s32) rAX) + 4294967296 * uint (reg32 (mul32_eax e s32) rDX) = uint (reg32 e rAX) * uint s32) \<and>
   (sint (reg16 (imul8 e s8) rAX) = sint (reg8 e rAX 0) * sint s8 \<and>
     sint (word_cat (reg16 (imul16_eax e s16) rDX) (reg16 (imul16_eax e s16) rAX) :: u32) = sint (reg16 e rAX) * sint s16 \<and>
     sint (word_cat (reg32 (imul32_eax e s32) rDX) (reg32 (imul32_eax e s32) rAX) :: u64) = sint (reg32 e rAX) * sint s32 \<and>
     fst (imul16 e x16 y16) = x16 * y16 \<and> fst (imul32 e x32 y32) = x32 * y32) \<and>
   (visible_flags (mul8 e s8) = product_flags (256 \<le> uint (reg8 e rAX 0) * uint s8) (ucast (reg8 e rAX 0) * ucast s8 :: u16) e) \<and>
   (visible_flags (mul16 e s16) = product_flags (65536 \<le> uint (reg16 e rAX) * uint s16) (reg16 e rAX * s16) e) \<and>
   (visible_flags (mul32_eax e s32) = product_flags (4294967296 \<le> uint (reg32 e rAX) * uint s32) (reg32 e rAX * s32) e) \<and>
   (visible_flags (imul8 e s8) = product_flags (sint (reg8 e rAX 0) * sint s8 \<notin> signed_range TYPE(8)) (scast (reg8 e rAX 0) * scast s8 :: u16) e) \<and>
   (visible_flags (imul16_eax e s16) = product_flags (sint (reg16 e rAX) * sint s16 \<notin> signed_range TYPE(16)) (reg16 e rAX * s16) e) \<and>
   (visible_flags (imul32_eax e s32) = product_flags (sint (reg32 e rAX) * sint s32 \<notin> signed_range TYPE(32)) (reg32 e rAX * s32) e) \<and>
   (visible_flags (snd (imul16 e x16 y16)) = product_flags (sint x16 * sint y16 \<notin> signed_range TYPE(16)) (x16 * y16) e) \<and>
   (visible_flags (snd (imul32 e x32 y32)) = product_flags (sint x32 * sint y32 \<notin> signed_range TYPE(32)) (x32 * y32) e)"
  by (intro conjI; (rule mul_products imul_products mul8_flags mul16_flags mul32_flags imul8_flags imul16_eax_flags
        imul32_eax_flags imul16_flags imul32_flags)?)

section \<open>Correctness of division\<close>

lemma dividend32:
  fixes h l :: u16
  defines "r \<equiv> push_bit 16 (ucast h) OR ucast l :: u32"
  shows "uint r = uint l + 65536 * uint h" "r = word_cat h l"
proof -
  have no: "\<not> bit v (16 + n)" for v :: u16 and n by (auto dest: bit_imp_le_length)
  have a: "(ucast r :: u16) = l" "(ucast (drop_bit 16 r) :: u16) = h"
    unfolding r_def by (auto intro!: bit_word_eqI simp: bit_simps no)
  show "uint r = uint l + 65536 * uint h" "r = word_cat h l"
    using split_word(1,3) [of r] by (simp_all add: a)
qed

lemma dividend64:
  fixes h l :: u32
  defines "p \<equiv> push_bit 32 (ucast h) OR ucast l :: u64"
  shows "uint p = uint l + 4294967296 * uint h" "p = word_cat h l"
proof -
  have no: "\<not> bit v (32 + n)" for v :: u32 and n by (auto dest: bit_imp_le_length)
  have a: "(ucast p :: u32) = l" "(ucast (drop_bit 32 p) :: u32) = h"
    unfolding p_def by (auto intro!: bit_word_eqI simp: bit_simps no)
  show "uint p = uint l + 4294967296 * uint h" "p = word_cat h l"
    using split_word(2,4) [of p] by (simp_all add: a)
qed

lemma ucast_word_of_uint: "ucast w = word_of_int (uint w)"
  by simp

lemma div_words:
  fixes a b :: "'a::len word"
  shows "(ucast (a div b) :: 'b::len word) = word_of_int (uint a div uint b)"
    "(ucast (a mod b) :: 'b::len word) = word_of_int (uint a mod uint b)"
    "numeral n < a div b \<longleftrightarrow> uint (numeral n :: 'a word) < uint a div uint b"
  by (simp_all only: ucast_word_of_uint uint_div uint_mod word_less_def)

lemma uint_up: "LENGTH('a) \<le> LENGTH('b) \<Longrightarrow> uint (ucast (s :: 'a::len word) :: 'b::len word) = uint s"
  by (simp add: uint_up_ucast is_up)

text \<open>C9. DIV at 8, 16 and 32 bits on the dividend in AX, DX:AX or EDX:EAX: a zero divisor and a quotient
  that does not fit leave every register and report \<open>ERR_DIVBY0\<close>; otherwise quotient and remainder
  of the integers are in AL and AH, AX and DX, or EAX and EDX.\<close>

theorem div_correct:
  "div8 e s8 = (let D = uint (reg16 e rAX); S = uint s8 in
     if S = 0 \<or> 255 < D div S then INTR_RAISE_DIV0 (RESET_FLAGS e)
     else set_reg8 rAX 1 (word_of_int (D mod S)) (set_reg8 rAX 0 (word_of_int (D div S)) (RESET_FLAGS e))) \<and>
   div16 e s16 = (let D = uint (reg16 e rAX) + 65536 * uint (reg16 e rDX); S = uint s16 in
     if S = 0 \<or> 65535 < D div S then INTR_RAISE_DIV0 (RESET_FLAGS e)
     else set_reg16 rDX (word_of_int (D mod S)) (set_reg16 rAX (word_of_int (D div S)) (RESET_FLAGS e))) \<and>
   div32 e s32 = (let D = uint (reg32 e rAX) + 4294967296 * uint (reg32 e rDX); S = uint s32 in
     if S = 0 \<or> 4294967295 < D div S then INTR_RAISE_DIV0 (RESET_FLAGS e)
     else set_reg32 rDX (word_of_int (D mod S)) (set_reg32 rAX (word_of_int (D div S)) (RESET_FLAGS e)))"
proof -
  have z: "s = 0 \<longleftrightarrow> uint s = 0" for s :: "'c::len word" by (simp add: word_uint_eq_iff)
  have r: "reg16 (RESET_FLAGS e) r = reg16 e r" "reg32 (RESET_FLAGS e) r = reg32 e r" for r
    by (simp_all add: reg16_def reg32_def)
  show ?thesis
    by (simp add: div8_def div16_def div32_def Let_def z r div_words dividend32(1) dividend64(1) uint_up)
qed

lemma sdiv_abs: "b \<noteq> 0 \<Longrightarrow> \<bar>a sdiv b\<bar> = \<bar>a\<bar> div \<bar>b\<bar>" for a b :: int
  by (cases "a = 0") (simp_all add: signed_divide_int_def abs_mult sgn_mult pos_imp_zdiv_nonneg_iff)

text \<open>Away from the least dividend divided by 1 or \<open>-1\<close>, the words carry the integers' quotient.\<close>

lemma c_div_exact:
  fixes a b :: "'a::len word"
  assumes "b \<noteq> 0" "\<not> (sint a = - (2 ^ (LENGTH('a) - 1)) \<and> \<bar>sint b\<bar> = 1)"
  shows "sint (c_abs (fst (c_div a b))) = \<bar>sint a sdiv sint b\<bar>"
proof -
  define h where "h = (2 :: int) ^ (LENGTH('a) - 1)"
  have "b = word_of_int (sint b)" by simp
  then have b: "sint b \<noteq> 0" using assms(1) by (metis of_int_0)
  have ra: "\<bar>sint a\<bar> \<le> h" "sint a < h" "- h \<le> sint a"
    using sint_range_size [of a] by (simp_all add: h_def word_size abs_le_iff)
  have q: "\<bar>sint a sdiv sint b\<bar> < h"
  proof (cases "\<bar>sint b\<bar> = 1")
    case True
    then have "\<bar>sint a\<bar> < h" using ra assms(2) by (simp add: h_def abs_less_iff)
    then show ?thesis using True b by (simp add: sdiv_abs)
  next
    case False
    have h: "0 < h" by (simp add: h_def)
    have "2 \<le> \<bar>sint b\<bar>" using False b by linarith
    then have "\<bar>sint a\<bar> div \<bar>sint b\<bar> \<le> \<bar>sint a\<bar> div 2"
      by (intro zdiv_mono2) simp_all
    also have "\<dots> < h" using ra(1) h by linarith
    finally show ?thesis using b by (simp add: sdiv_abs)
  qed
  have s: "sint (word_of_int k :: 'a word) = k" if "\<bar>k\<bar> < h" for k
    using that by (simp add: signed_of_int signed_take_bit_int_eq_self h_def abs_less_iff)
  have "- (word_of_int (sint a sdiv sint b) :: 'a word) = word_of_int (- (sint a sdiv sint b))" by simp
  also have "sint \<dots> = - (sint a sdiv sint b)" using q by (intro s) simp
  finally show ?thesis
    unfolding c_abs_def c_div_def fst_conv using s [OF q] by simp
qed

lemma c_div_low:
  assumes "LENGTH('b::len) \<le> LENGTH('a::len)"
  shows "(ucast (fst (c_div a (b :: 'a word))) :: 'b word) = word_of_int (sint a sdiv sint b)"
    "(ucast (snd (c_div a b)) :: 'b word) = word_of_int (sint a smod sint b)"
  using assms by (simp_all add: c_div_def down_wi)

lemma sint_up: "LENGTH('a) \<le> LENGTH('b) \<Longrightarrow> sint (scast (s :: 'a::len word) :: 'b::len word) = sint s"
  by (simp add: sint_up_scast is_up)

lemma sint_0_iff: "sint s = 0 \<longleftrightarrow> s = 0" for s :: "'a::len word"
proof
  assume "sint s = 0"
  then have "word_of_int (sint s) = (0 :: 'a word)" by simp
  then show "s = 0" by simp
qed simp

lemma scast_0_iff: "LENGTH('a) \<le> LENGTH('b) \<Longrightarrow> (scast (s :: 'a::len word) :: 'b::len word) = 0 \<longleftrightarrow> s = 0"
  using sint_0_iff [of "scast s :: 'b word"] by (simp add: sint_up sint_0_iff)

lemma div0_state [simp]:
  "regs (INTR_RAISE_DIV0 e) = regs e" "err (INTR_RAISE_DIV0 e) = err e OR 2"
  by (simp_all add: INTR_RAISE_DIV0_def)

lemma reg_views_RESET [simp]:
  "reg16 (RESET_FLAGS e) r = reg16 e r" "reg32 (RESET_FLAGS e) r = reg32 e r"
  by (simp_all add: reg16_def reg32_def)

lemma write_regs_cong:
  "regs e1 = regs e2 \<Longrightarrow> regs (set_reg8 x k v e1) = regs (set_reg8 x k v e2)"
  "regs e1 = regs e2 \<Longrightarrow> regs (set_reg16 x u e1) = regs (set_reg16 x u e2)"
  "regs e1 = regs e2 \<Longrightarrow> regs (set_reg32 x t e1) = regs (set_reg32 x t e2)"
  "err (set_reg8 x k v e1) = err e1"
  by (simp_all add: set_reg8_def set_reg16_def set_reg32_def)

lemma idiv8_state:
  shows "regs (idiv8 e s) = (if sint s = 0 \<or> 127 < \<bar>sint (reg16 e rAX) sdiv sint s\<bar> then regs e
      else regs (set_reg8 rAX 1 (word_of_int (sint (reg16 e rAX) smod sint s)) (set_reg8 rAX 0 (word_of_int (sint (reg16 e rAX) sdiv sint s)) e)))"
    and "err (idiv8 e s) = (if sint s = 0 \<or> 127 < \<bar>sint (reg16 e rAX) sdiv sint s\<bar> then err e OR 2 else err e)"
proof -
  have q: "sint (c_abs (fst (c_div (scast (reg16 e rAX) :: u32) (scast s)))) = \<bar>sint (reg16 e rAX) sdiv sint s\<bar>" if "s \<noteq> 0"
  proof -
    have "- (2 ^ 31) < sint (reg16 e rAX)"
      using sint_range_size [of "reg16 e rAX"] by (simp add: word_size)
    then show ?thesis
      using c_div_exact [of "scast s :: u32" "scast (reg16 e rAX)"] that by (simp add: sint_up scast_0_iff)
  qed
  have "idiv8 e s = (if s = 0 \<or> 127 < \<bar>sint (reg16 e rAX) sdiv sint s\<bar> then INTR_RAISE_DIV0 (RESET_FLAGS e)
      else set_reg8 rAX 1 (word_of_int (sint (reg16 e rAX) smod sint s))
        (set_reg8 rAX 0 (word_of_int (sint (reg16 e rAX) sdiv sint s)) (RESET_FLAGS e)))"
    by (simp add: idiv8_def Let_def case_prod_beta q c_div_low sint_up)
  then show "regs (idiv8 e s) = (if sint s = 0 \<or> 127 < \<bar>sint (reg16 e rAX) sdiv sint s\<bar> then regs e
      else regs (set_reg8 rAX 1 (word_of_int (sint (reg16 e rAX) smod sint s)) (set_reg8 rAX 0 (word_of_int (sint (reg16 e rAX) sdiv sint s)) e)))"
    "err (idiv8 e s) = (if sint s = 0 \<or> 127 < \<bar>sint (reg16 e rAX) sdiv sint s\<bar> then err e OR 2 else err e)"
    by (simp_all add: sint_0_iff write_regs_cong(4)) (auto intro!: write_regs_cong)
qed

lemma idiv16_state:
  assumes "\<not> (sint (word_cat (reg16 e rDX) (reg16 e rAX) :: u32) = - (2 ^ 31) \<and> \<bar>sint s\<bar> = 1)"
  shows "regs (idiv16 e s) = (if sint s = 0 \<or> 32767 < \<bar>sint (word_cat (reg16 e rDX) (reg16 e rAX) :: u32) sdiv sint s\<bar> then regs e
      else regs (set_reg16 rDX (word_of_int (sint (word_cat (reg16 e rDX) (reg16 e rAX) :: u32) smod sint s)) (set_reg16 rAX (word_of_int (sint (word_cat (reg16 e rDX) (reg16 e rAX) :: u32) sdiv sint s)) e)))"
    and "err (idiv16 e s) = (if sint s = 0 \<or> 32767 < \<bar>sint (word_cat (reg16 e rDX) (reg16 e rAX) :: u32) sdiv sint s\<bar> then err e OR 2 else err e)"
proof -
  define D where "D = (word_cat (reg16 e rDX) (reg16 e rAX) :: u32)"
  have q: "sint (c_abs (fst (c_div D (scast s)))) = \<bar>sint D sdiv sint s\<bar>" if "s \<noteq> 0"
    using c_div_exact [of "scast s :: u32" D] assms that by (simp add: sint_up scast_0_iff D_def)
  have "regs (idiv16 e s) = (if sint s = 0 \<or> 32767 < \<bar>sint D sdiv sint s\<bar> then regs e
      else regs (set_reg16 rDX (word_of_int (sint D smod sint s)) (set_reg16 rAX (word_of_int (sint D sdiv sint s)) e)))"
    by (simp add: idiv16_def Let_def case_prod_beta q c_div_low sint_up sint_0_iff dividend32(2) flip: D_def)
      (auto intro!: write_regs_cong)
  moreover have "err (idiv16 e s) = (if sint s = 0 \<or> 32767 < \<bar>sint D sdiv sint s\<bar> then err e OR 2 else err e)"
    by (simp add: idiv16_def Let_def case_prod_beta q c_div_low sint_up sint_0_iff dividend32(2) flip: D_def)
  ultimately show "regs (idiv16 e s) = (if sint s = 0 \<or> 32767 < \<bar>sint (word_cat (reg16 e rDX) (reg16 e rAX) :: u32) sdiv sint s\<bar> then regs e
      else regs (set_reg16 rDX (word_of_int (sint (word_cat (reg16 e rDX) (reg16 e rAX) :: u32) smod sint s)) (set_reg16 rAX (word_of_int (sint (word_cat (reg16 e rDX) (reg16 e rAX) :: u32) sdiv sint s)) e)))"
    "err (idiv16 e s) = (if sint s = 0 \<or> 32767 < \<bar>sint (word_cat (reg16 e rDX) (reg16 e rAX) :: u32) sdiv sint s\<bar> then err e OR 2 else err e)"
    unfolding D_def by simp_all
qed

lemma idiv32_state:
  assumes "\<not> (sint (word_cat (reg32 e rDX) (reg32 e rAX) :: u64) = - (2 ^ 63) \<and> \<bar>sint s\<bar> = 1)"
  shows "regs (idiv32 e s) = (if sint s = 0 \<or> 2147483647 < \<bar>sint (word_cat (reg32 e rDX) (reg32 e rAX) :: u64) sdiv sint s\<bar> then regs e
      else regs (set_reg32 rDX (word_of_int (sint (word_cat (reg32 e rDX) (reg32 e rAX) :: u64) smod sint s)) (set_reg32 rAX (word_of_int (sint (word_cat (reg32 e rDX) (reg32 e rAX) :: u64) sdiv sint s)) e)))"
    and "err (idiv32 e s) = (if sint s = 0 \<or> 2147483647 < \<bar>sint (word_cat (reg32 e rDX) (reg32 e rAX) :: u64) sdiv sint s\<bar> then err e OR 2 else err e)"
proof -
  define D where "D = (word_cat (reg32 e rDX) (reg32 e rAX) :: u64)"
  have q: "sint (c_abs (fst (c_div D (scast s)))) = \<bar>sint D sdiv sint s\<bar>" if "s \<noteq> 0"
    using c_div_exact [of "scast s :: u64" D] assms that by (simp add: sint_up scast_0_iff D_def)
  have "regs (idiv32 e s) = (if sint s = 0 \<or> 2147483647 < \<bar>sint D sdiv sint s\<bar> then regs e
      else regs (set_reg32 rDX (word_of_int (sint D smod sint s)) (set_reg32 rAX (word_of_int (sint D sdiv sint s)) e)))"
    by (simp add: idiv32_def Let_def case_prod_beta q c_div_low sint_up sint_0_iff dividend64(2) flip: D_def)
      (auto intro!: write_regs_cong)
  moreover have "err (idiv32 e s) = (if sint s = 0 \<or> 2147483647 < \<bar>sint D sdiv sint s\<bar> then err e OR 2 else err e)"
    by (simp add: idiv32_def Let_def case_prod_beta q c_div_low sint_up sint_0_iff dividend64(2) flip: D_def)
  ultimately show "regs (idiv32 e s) = (if sint s = 0 \<or> 2147483647 < \<bar>sint (word_cat (reg32 e rDX) (reg32 e rAX) :: u64) sdiv sint s\<bar> then regs e
      else regs (set_reg32 rDX (word_of_int (sint (word_cat (reg32 e rDX) (reg32 e rAX) :: u64) smod sint s)) (set_reg32 rAX (word_of_int (sint (word_cat (reg32 e rDX) (reg32 e rAX) :: u64) sdiv sint s)) e)))"
    "err (idiv32 e s) = (if sint s = 0 \<or> 2147483647 < \<bar>sint (word_cat (reg32 e rDX) (reg32 e rAX) :: u64) sdiv sint s\<bar> then err e OR 2 else err e)"
    unfolding D_def by simp_all
qed

text \<open>C10. IDIV at 8, 16 and 32 bits, for every dividend but the least one divided by 1 or by \<open>-1\<close>: a zero
  divisor and a quotient whose magnitude exceeds the largest positive number leave every register
  and report \<open>ERR_DIVBY0\<close>; otherwise the truncated quotient and the remainder with the dividend's
  sign are in AL and AH, AX and DX, or EAX and EDX.\<close>

theorem idiv_correct:
  assumes "\<not> (sint (word_cat (reg16 e rDX) (reg16 e rAX) :: u32) = - (2 ^ 31) \<and> \<bar>sint s16\<bar> = 1)"
    "\<not> (sint (word_cat (reg32 e rDX) (reg32 e rAX) :: u64) = - (2 ^ 63) \<and> \<bar>sint s32\<bar> = 1)"
  shows "regs (idiv8 e s8) = (let D = sint (reg16 e rAX); S = sint s8 in
      if S = 0 \<or> 127 < \<bar>D sdiv S\<bar> then regs e
      else regs (set_reg8 rAX 1 (word_of_int (D smod S)) (set_reg8 rAX 0 (word_of_int (D sdiv S)) e))) \<and>
    err (idiv8 e s8) = (if sint s8 = 0 \<or> 127 < \<bar>sint (reg16 e rAX) sdiv sint s8\<bar> then err e OR 2 else err e) \<and>
    regs (idiv16 e s16) = (let D = sint (word_cat (reg16 e rDX) (reg16 e rAX) :: u32); S = sint s16 in
      if S = 0 \<or> 32767 < \<bar>D sdiv S\<bar> then regs e
      else regs (set_reg16 rDX (word_of_int (D smod S)) (set_reg16 rAX (word_of_int (D sdiv S)) e))) \<and>
    err (idiv16 e s16) = (if sint s16 = 0 \<or> 32767 < \<bar>sint (word_cat (reg16 e rDX) (reg16 e rAX) :: u32) sdiv sint s16\<bar>
      then err e OR 2 else err e) \<and>
    regs (idiv32 e s32) = (let D = sint (word_cat (reg32 e rDX) (reg32 e rAX) :: u64); S = sint s32 in
      if S = 0 \<or> 2147483647 < \<bar>D sdiv S\<bar> then regs e
      else regs (set_reg32 rDX (word_of_int (D smod S)) (set_reg32 rAX (word_of_int (D sdiv S)) e))) \<and>
    err (idiv32 e s32) = (if sint s32 = 0 \<or> 2147483647 < \<bar>sint (word_cat (reg32 e rDX) (reg32 e rAX) :: u64) sdiv sint s32\<bar>
      then err e OR 2 else err e)"
  by (simp only: idiv8_state idiv16_state [OF assms(1)] idiv32_state [OF assms(2)] Let_def simp_thms)

theorem idiv_correct_witness:
  "err (idiv8 (emu0\<lparr>regs := (\<lambda>_. 0xFFF9)\<rparr>) 2) = 0 \<and> err (idiv8 (emu0\<lparr>regs := (\<lambda>_. 0x7FF9)\<rparr>) 2) = 2"
proof -
  have a: "err (idiv8 e 2) = (if sint (2 :: u8) = 0 \<or> 127 < \<bar>sint (reg16 e rAX) sdiv sint (2 :: u8)\<bar> then err e OR 2 else err e)"
    for e :: emu
  proof -
    have h: "\<not> (P \<and> \<bar>sint (2 :: u16)\<bar> = 1)" "\<not> (P \<and> \<bar>sint (2 :: u32)\<bar> = 1)" for P by simp_all
    show ?thesis by (rule idiv_correct [OF h, THEN conjunct2, THEN conjunct1])
  qed
  show ?thesis unfolding a by (simp add: reg16_def emu0_def signed_divide_int_def)
qed

text \<open>IDIV rejects the least quotient of each width, which fits: \<open>-128\<close> divided by 1 at 8 bits, and
  \<open>-32768\<close> divided by 1 at 16 bits, raise the division error and leave the registers, where the
  architecture delivers the quotient.\<close>

theorem idiv_rejects_least_quotient:
  "regs (idiv8 (set_reg16 rAX 0xFF80 e) 1) = regs (set_reg16 rAX 0xFF80 e) \<and>
   err (idiv8 (set_reg16 rAX 0xFF80 e) 1) = err e OR 2 \<and>
   regs (idiv16 (set_reg16 rAX 0x8000 (set_reg16 rDX 0xFFFF e)) 1) = regs (set_reg16 rAX 0x8000 (set_reg16 rDX 0xFFFF e)) \<and>
   err (idiv16 (set_reg16 rAX 0x8000 (set_reg16 rDX 0xFFFF e)) 1) = err e OR 2 \<and>
   sint (0xFF80 :: u16) = - 128 \<and> sint (word_cat (0xFFFF :: u16) (0x8000 :: u16) :: u32) = - 32768"
proof -
  have c: "sint (word_cat (0xFFFF :: u16) (0x8000 :: u16) :: u32) = - 32768"
  proof -
    have "word_cat (0xFFFF :: u16) (0x8000 :: u16) = (0xFFFF8000 :: u32)" by (simp add: word_cat_eq)
    then show ?thesis by simp
  qed
  show ?thesis
    by (simp add: idiv8_state idiv16_state c)
qed

section \<open>Decimal arithmetic\<close>

text \<open>Packed decimal: a digit in each half of the byte.\<close>

definition bcd :: "u8 \<Rightarrow> bool" where
  "bcd x = (uint x mod 16 < 10 \<and> uint x div 16 < 10)"

definition bcd_val :: "u8 \<Rightarrow> int" where
  "bcd_val x = 10 * (uint x div 16) + uint x mod 16"

definition daa_step :: "int \<Rightarrow> bool \<Rightarrow> bool \<Rightarrow> int \<times> bool" where
  "daa_step v af cf = (let c1 = 9 < v mod 16 \<or> af; c2 = 0x99 < v \<or> cf
     in ((v + 6 * of_bool c1 + 0x60 * of_bool c2) mod 256, c2))"

definition das_step :: "int \<Rightarrow> bool \<Rightarrow> bool \<Rightarrow> int \<times> bool" where
  "das_step v af cf = (let c1 = 9 < v mod 16 \<or> af; c2 = 0x99 < v \<or> cf
     in ((v - 6 * of_bool c1 - 0x60 * of_bool c2) mod 256, c2 \<or> (c1 \<and> v < 6)))"

lemma daa_rows:
  "list_all (\<lambda>A. list_all (\<lambda>B. let s = 16 * A + B; (r, c) = daa_step (s mod 256) (16 \<le> B) (256 \<le> s) in
      r mod 16 < 10 \<and> r div 16 < 10 \<and> 10 * (r div 16) + r mod 16 + 100 * of_bool c = 10 * A + B) [0..19]) [0..18]"
  by code_simp

lemma das_rows:
  "list_all (\<lambda>A. list_all (\<lambda>B. let s = 16 * A + B; (r, c) = das_step (s mod 256) (B < 0) (s < 0) in
      r mod 16 < 10 \<and> r div 16 < 10 \<and> 10 * (r div 16) + r mod 16 - 100 * of_bool c = 10 * A + B) [-10..9]) [-9..9]"
  by code_simp

lemma low_nibble: "uint (d AND 0xF) = uint d mod 16" for d :: u8
proof -
  have "d AND 0xF = take_bit 4 d" by (simp add: take_bit_eq_mask mask_eq_exp_minus_1)
  then show ?thesis by (simp only: unsigned_take_bit_eq) (simp add: take_bit_eq_mod)
qed

lemma ucast_byte: "uint (ucast (word_of_int k :: u32) :: u8) = k mod 256"
  by (simp only: ucast32_wi [where 'a = 8, simplified] unsigned_of_int take_bit_eq_mod) simp

lemma daa8_step:
  "uint (fst (daa8 e d)) = fst (daa_step (uint d) (a_AF (visible_flags e)) (a_CF (visible_flags e)))"
  "a_CF (visible_flags (snd (daa8 e d))) = snd (daa_step (uint d) (a_AF (visible_flags e)) (a_CF (visible_flags e)))"
proof -
  have w: "ucast d = (word_of_int (uint d) :: u32)" by simp
  have c: "9 < d AND 0xF \<longleftrightarrow> 9 < uint d mod 16" "0x99 < d \<longleftrightarrow> 0x99 < uint d"
    by (simp_all add: word_less_def low_nibble)
  have f: "ACCESS_FLAG F_AF (UpdateFlags e) = a_AF (visible_flags e)"
    by (simp add: visible_flags_def status_flags_def)
  have v: "uint (fst (daa8 e d)) = uint (ucast (word_of_int (uint d + 6 * of_bool (9 < uint d mod 16 \<or> a_AF (visible_flags e))
      + 0x60 * of_bool (0x99 < uint d \<or> a_CF (visible_flags e))) :: u32) :: u8)"
    by (auto simp: daa8_def Let_def c f visible_CF)
  show "uint (fst (daa8 e d)) = fst (daa_step (uint d) (a_AF (visible_flags e)) (a_CF (visible_flags e)))"
    unfolding v ucast_byte by (simp add: daa_step_def Let_def)
  show "a_CF (visible_flags (snd (daa8 e d))) = snd (daa_step (uint d) (a_AF (visible_flags e)) (a_CF (visible_flags e)))"
    by (auto simp: daa8_def daa_step_def Let_def c f visible_CF visible_eager status_flags_def)
qed

lemma das8_step:
  "uint (fst (das8 e d)) = fst (das_step (uint d) (a_AF (visible_flags e)) (a_CF (visible_flags e)))"
  "a_CF (visible_flags (snd (das8 e d))) = snd (das_step (uint d) (a_AF (visible_flags e)) (a_CF (visible_flags e)))"
proof -
  have c: "9 < d AND 0xF \<longleftrightarrow> 9 < uint d mod 16" "0x99 < d \<longleftrightarrow> 0x99 < uint d" "d < 6 \<longleftrightarrow> uint d < 6"
    by (simp_all add: word_less_def low_nibble)
  have f: "ACCESS_FLAG F_AF (UpdateFlags e) = a_AF (visible_flags e)"
    by (simp add: visible_flags_def status_flags_def)
  have v: "uint (fst (das8 e d)) = uint (ucast (word_of_int (uint d - 6 * of_bool (9 < uint d mod 16 \<or> a_AF (visible_flags e))
      - 0x60 * of_bool (0x99 < uint d \<or> a_CF (visible_flags e))) :: u32) :: u8)"
    by (auto simp: das8_def Let_def c f visible_CF)
  show "uint (fst (das8 e d)) = fst (das_step (uint d) (a_AF (visible_flags e)) (a_CF (visible_flags e)))"
    unfolding v ucast_byte by (simp add: das_step_def Let_def)
  show "a_CF (visible_flags (snd (das8 e d))) = snd (das_step (uint d) (a_AF (visible_flags e)) (a_CF (visible_flags e)))"
    by (auto simp: das8_def das_step_def Let_def c f visible_CF visible_eager status_flags_def)
qed

lemma bcd_cases:
  assumes "bcd x"
  obtains h l where "uint x = 16 * h + l" "bcd_val x = 10 * h + l" "0 \<le> h" "h \<le> 9" "0 \<le> l" "l \<le> 9"
proof
  show "uint x = 16 * (uint x div 16) + uint x mod 16" by simp
  show "0 \<le> uint x div 16" by (simp add: pos_imp_zdiv_nonneg_iff)
qed (use assms in \<open>auto simp: bcd_def bcd_val_def\<close>)

lemma daa_row:
  assumes "0 \<le> A" "A \<le> 18" "0 \<le> B" "B \<le> 19"
  shows "let s = 16 * A + B; (r, c) = daa_step (s mod 256) (16 \<le> B) (256 \<le> s) in
      r mod 16 < 10 \<and> r div 16 < 10 \<and> 10 * (r div 16) + r mod 16 + 100 * of_bool c = 10 * A + B"
  using daa_rows assms unfolding list_all_iff set_upto by (meson atLeastAtMost_iff)

lemma das_row:
  assumes "- 9 \<le> A" "A \<le> 9" "- 10 \<le> B" "B \<le> 9"
  shows "let s = 16 * A + B; (r, c) = das_step (s mod 256) (B < 0) (s < 0) in
      r mod 16 < 10 \<and> r div 16 < 10 \<and> 10 * (r div 16) + r mod 16 - 100 * of_bool c = 10 * A + B"
  using das_rows assms unfolding list_all_iff set_upto by (meson atLeastAtMost_iff)

lemma daa_after_adc:
  fixes e :: "'a emu_scheme"
  assumes "bcd x" "bcd y"
  defines "d \<equiv> daa8 (snd (adc8 e x y)) (fst (adc8 e x y))"
  shows "bcd (fst d)"
    "bcd_val (fst d) + 100 * of_bool (a_CF (visible_flags (snd d))) = bcd_val x + bcd_val y + of_bool (a_CF (visible_flags e))"
proof -
  define k where "k = (of_bool (a_CF (visible_flags e)) :: int)"
  have k: "0 \<le> k" "k \<le> 1" by (simp_all add: k_def)
  from assms(1) obtain h l where x: "uint x = 16 * h + l" "bcd_val x = 10 * h + l" "0 \<le> h" "h \<le> 9" "0 \<le> l" "l \<le> 9"
    by (rule bcd_cases)
  from assms(2) obtain h' l' where y: "uint y = 16 * h' + l'" "bcd_val y = 10 * h' + l'" "0 \<le> h'" "h' \<le> 9" "0 \<le> l'" "l' \<le> 9"
    by (rule bcd_cases)
  define A B where "A = h + h'" and "B = l + l' + k"
  have lm: "uint x mod 16 = l" "uint y mod 16 = l'" using x y by auto
  have s: "uint x + uint y + k = 16 * A + B" using x y by (simp add: A_def B_def)
  have sv: "bcd_val x + bcd_val y + k = 10 * A + B" using x y by (simp add: A_def B_def)
  have v: "uint (fst (adc8 e x y)) = (16 * A + B) mod 256"
    by (simp add: alu_laws s [symmetric] k_def uint_word_ariths unsigned_of_int take_bit_eq_mod mod_simps)
  have af: "a_AF (visible_flags (snd (adc8 e x y))) \<longleftrightarrow> 16 \<le> B"
    by (simp add: alu_laws arch_add_def lm B_def k_def)
  have cf: "a_CF (visible_flags (snd (adc8 e x y))) \<longleftrightarrow> 256 \<le> 16 * A + B"
    by (simp add: alu_laws arch_add_def s [symmetric] k_def)
  have r: "let (r, c) = daa_step ((16 * A + B) mod 256) (16 \<le> B) (256 \<le> 16 * A + B) in
      r mod 16 < 10 \<and> r div 16 < 10 \<and> 10 * (r div 16) + r mod 16 + 100 * of_bool c = 10 * A + B"
    using daa_row [of A B] x y k by (simp add: A_def B_def Let_def)
  show "bcd (fst d)"
    "bcd_val (fst d) + 100 * of_bool (a_CF (visible_flags (snd d))) = bcd_val x + bcd_val y + of_bool (a_CF (visible_flags e))"
    using r unfolding sv [unfolded k_def] by (simp_all only: d_def bcd_def [of "fst d" for d] bcd_val_def [of "fst d" for d]
        daa8_step v af cf case_prod_unfold Let_def)
qed

lemma das_after_sbb:
  fixes e :: "'a emu_scheme"
  assumes "bcd x" "bcd y"
  defines "d \<equiv> das8 (snd (sbb8 e x y)) (fst (sbb8 e x y))"
  shows "bcd (fst d)"
    "bcd_val (fst d) - 100 * of_bool (a_CF (visible_flags (snd d))) = bcd_val x - bcd_val y - of_bool (a_CF (visible_flags e))"
proof -
  define k where "k = (of_bool (a_CF (visible_flags e)) :: int)"
  have k: "0 \<le> k" "k \<le> 1" by (simp_all add: k_def)
  from assms(1) obtain h l where x: "uint x = 16 * h + l" "bcd_val x = 10 * h + l" "0 \<le> h" "h \<le> 9" "0 \<le> l" "l \<le> 9"
    by (rule bcd_cases)
  from assms(2) obtain h' l' where y: "uint y = 16 * h' + l'" "bcd_val y = 10 * h' + l'" "0 \<le> h'" "h' \<le> 9" "0 \<le> l'" "l' \<le> 9"
    by (rule bcd_cases)
  define A B where "A = h - h'" and "B = l - l' - k"
  have lm: "uint x mod 16 = l" "uint y mod 16 = l'" using x y by auto
  have s: "uint x - uint y - k = 16 * A + B" using x y by (simp add: A_def B_def)
  have sv: "bcd_val x - bcd_val y - k = 10 * A + B" using x y by (simp add: A_def B_def)
  have v: "uint (fst (sbb8 e x y)) = (16 * A + B) mod 256"
    by (simp add: alu_laws s [symmetric] k_def uint_word_ariths unsigned_of_int take_bit_eq_mod mod_simps)
  have af: "a_AF (visible_flags (snd (sbb8 e x y))) \<longleftrightarrow> B < 0"
    by (auto simp: alu_laws arch_sub_def lm B_def k_def)
  have cf: "a_CF (visible_flags (snd (sbb8 e x y))) \<longleftrightarrow> 16 * A + B < 0"
    by (auto simp: alu_laws arch_sub_def s [symmetric] k_def)
  have r: "let (r, c) = das_step ((16 * A + B) mod 256) (B < 0) (16 * A + B < 0) in
      r mod 16 < 10 \<and> r div 16 < 10 \<and> 10 * (r div 16) + r mod 16 - 100 * of_bool c = 10 * A + B"
    using das_row [of A B] x y k by (simp add: A_def B_def Let_def)
  show "bcd (fst d)"
    "bcd_val (fst d) - 100 * of_bool (a_CF (visible_flags (snd d))) = bcd_val x - bcd_val y - of_bool (a_CF (visible_flags e))"
    using r unfolding sv [unfolded k_def] by (simp_all only: d_def bcd_def [of "fst d" for d] bcd_val_def [of "fst d" for d]
        das8_step v af cf case_prod_unfold Let_def)
qed

text \<open>C11. DAA after ADC, and DAS after SBB, of packed decimal bytes: the adjusted byte is again packed
  decimal and, with the carry (borrow) as its hundreds, is the decimal sum (difference) of the
  operands and of the carry before.\<close>

theorem daa_das_correct:
  assumes "bcd x" "bcd y"
  shows "(let (v, e1) = adc8 e x y; (r, e2) = daa8 e1 v in
      bcd r \<and> bcd_val r + 100 * of_bool (a_CF (visible_flags e2)) = bcd_val x + bcd_val y + of_bool (a_CF (visible_flags e))) \<and>
    (let (v, e1) = sbb8 e x y; (r, e2) = das8 e1 v in
      bcd r \<and> bcd_val r - 100 * of_bool (a_CF (visible_flags e2)) = bcd_val x - bcd_val y - of_bool (a_CF (visible_flags e)))"
  using daa_after_adc [OF assms, of e] das_after_sbb [OF assms, of e] by (simp only: Let_def case_prod_unfold simp_thms)

theorem daa_das_correct_witness:
  "let (v, e1) = adc8 emu0 0x58 0x67; (r, e2) = daa8 e1 v in bcd_val r + 100 * of_bool (a_CF (visible_flags e2)) = 125"
  using daa_das_correct [of "0x58" "0x67" emu0]
  by (simp add: bcd_def bcd_val_def case_prod_unfold Let_def visible_eager)
     (simp add: emu0_def visible_flags_def status_flags_def UpdateFlags_def ACCESS_FLAG_def bit_simps)

text \<open>AAM splits a byte into quotient and remainder by its base in AH and AL, and AAD with the same
  base, if it is not 0, puts them together again.\<close>

theorem aam_aad_roundtrip:
  assumes "base \<noteq> 0"
  shows "fst (aad16 e' (fst (aam16 e d base)) base) = ucast d"
proof -
  have q: "uint (d div base) < 256" "uint (d mod base) < 256" using uint_lt2p [of "d div base"] uint_lt2p [of "d mod base"] by simp_all
  define w where "w = fst (aam16 e d base)"
  have w: "w = ucast (d mod base) OR push_bit 8 (ucast (d div base))" by (simp add: w_def aam16_def Let_def)
  have hi: "ucast (drop_bit 8 w AND 0xFF) = d div base" unfolding w
    by (rule bit_word_eqI) (auto simp: bit_simps byte_mask_bits dest: bit_imp_le_length)
  have lo: "ucast (w AND 0xFF) = d mod base" unfolding w
    by (rule bit_word_eqI) (auto simp: bit_simps byte_mask_bits dest: bit_imp_le_length)
  have s: "ucast (d mod base) + ucast base * ucast (d div base) = (ucast d :: u32)"
  proof -
    have u: "(ucast x :: u32) = word_of_int (uint x)" for x :: u8 by simp
    have "uint (d mod base) + uint base * uint (d div base) = uint d"
      by (simp only: uint_mod uint_div) simp
    then show ?thesis unfolding u by (simp only: wi_hom_mult wi_hom_add)
  qed
  have "fst (aad16 e' w base) = ucast ((ucast d :: u32) AND 0xFF)"
    by (simp add: aad16_def Let_def hi lo s)
  also have "\<dots> = ucast d"
    by (rule bit_word_eqI) (auto simp: bit_simps byte_mask_bits dest: bit_imp_le_length)
  finally show ?thesis by (simp add: w_def)
qed

theorem aam_aad_roundtrip_witness:
  "fst (aam16 emu0 0x3F 10) = 0x603 \<and> fst (aad16 emu0 (fst (aam16 emu0 0x3F 10)) 10) = 0x3F"
  using aam_aad_roundtrip [of 10 emu0 emu0 "0x3F"] by (simp add: aam16_def Let_def)

end
