(* ===== verification/Memory.thy ===== *)
theory Memory
  imports Flags
begin

unbundle bit_operations_syntax

text \<open>
  The guest's memory and the addresses the interpreter reads and writes through. The guest shares
  the host's 32-bit address space; here it is a total map from addresses to bytes, little endian
  and wrapping at \<open>2 ^ 32\<close>. Accesses that fault on the host are not modelled, nor are guest
  writes into the emulator's own structures. A pointer \<open>oped\<close> of \<open>src/emu/modrm.h\<close> points
  either into the register file or into memory: \<open>loc\<close>.

  The machine also keeps what the run-time around the interpreter needs: the selector serial number and
  the default FS of the context, the flags that ask a run to end on a long jump, and the owner and
  extent of the emulated stack.

  The locale \<open>byte_store\<close> states what a byte store promises; it is interpreted on the memory and
  on the bytes of the register file.
\<close>

record machine = emu +
  mem :: "u32 \<Rightarrow> u8"
  sel_serial :: u32
  default_fs :: u16
  quitonlongjmp :: "2 word"
  longjmp :: bool
  emu_context :: u32
  stack2free :: u32
  init_stack :: u32
  size_stack :: u32

section \<open>Byte stores\<close>

locale byte_store =
  fixes get :: "'i \<Rightarrow> 's \<Rightarrow> u8"
    and put :: "'i \<Rightarrow> u8 \<Rightarrow> 's \<Rightarrow> 's"
    and valid :: "'i \<Rightarrow> bool"
  assumes get_put: "\<lbrakk>valid i; valid j\<rbrakk> \<Longrightarrow> get i (put j v s) = (if i = j then v else get i s)"
begin

definition puts :: "('i \<times> u8) list \<Rightarrow> 's \<Rightarrow> 's" where
  "puts xs s = fold (\<lambda>(i, v). put i v) xs s"

lemma puts_simps [simp]: "puts [] s = s" "puts ((i, v) # xs) s = puts xs (put i v s)"
  by (simp_all add: puts_def)

lemma get_puts_other:
  assumes "valid i" "list_all valid (map fst xs)" "i \<notin> set (map fst xs)"
  shows "get i (puts xs s) = get i s"
  using assms by (induction xs arbitrary: s) (auto simp: get_put)

lemma get_puts:
  assumes "list_all valid (map fst xs)" "distinct (map fst xs)" "(i, v) \<in> set xs"
  shows "get i (puts xs s) = v"
  using assms
proof (induction xs arbitrary: s)
  case (Cons x xs)
  then show ?case
    by (cases x) (auto simp: get_puts_other get_put rev_image_eqI)
qed simp

lemma gets_puts:
  assumes "list_all valid is" "distinct is" "length vs = length is"
  shows "map (\<lambda>i. get i (puts (zip is vs) s)) is = vs"
proof (rule nth_equalityI)
  fix k assume "k < length (map (\<lambda>i. get i (puts (zip is vs) s)) is)"
  then have k: "k < length is" by simp
  then have m: "(is ! k, vs ! k) \<in> set (zip is vs)"
    using assms(3) by (metis in_set_zip fst_conv snd_conv)
  show "map (\<lambda>i. get i (puts (zip is vs) s)) is ! k = vs ! k"
    using k get_puts [OF _ _ m] assms by simp
qed (use assms in simp)

end

section \<open>Memory accesses\<close>

definition ld8 :: "'a machine_scheme \<Rightarrow> u32 \<Rightarrow> u8" where
  "ld8 s a = mem s a"

definition ld16 :: "'a machine_scheme \<Rightarrow> u32 \<Rightarrow> u16" where
  "ld16 s a = ucast (mem s a) OR push_bit 8 (ucast (mem s (a + 1)))"

definition ld32 :: "'a machine_scheme \<Rightarrow> u32 \<Rightarrow> u32" where
  "ld32 s a = ucast (mem s a) OR push_bit 8 (ucast (mem s (a + 1)))
     OR push_bit 16 (ucast (mem s (a + 2))) OR push_bit 24 (ucast (mem s (a + 3)))"

definition st8 :: "u32 \<Rightarrow> u8 \<Rightarrow> 'a machine_scheme \<Rightarrow> 'a machine_scheme" where
  "st8 a v s = s\<lparr>mem := (mem s)(a := v)\<rparr>"

definition st16 :: "u32 \<Rightarrow> u16 \<Rightarrow> 'a machine_scheme \<Rightarrow> 'a machine_scheme" where
  "st16 a v s = s\<lparr>mem := (mem s)(a := ucast v, a + 1 := ucast (drop_bit 8 v))\<rparr>"

definition st32 :: "u32 \<Rightarrow> u32 \<Rightarrow> 'a machine_scheme \<Rightarrow> 'a machine_scheme" where
  "st32 a v s = s\<lparr>mem := (mem s)(a := ucast v, a + 1 := ucast (drop_bit 8 v),
     a + 2 := ucast (drop_bit 16 v), a + 3 := ucast (drop_bit 24 v))\<rparr>"

interpretation memory: byte_store "\<lambda>a s. ld8 s a" st8 "\<lambda>_. True"
  by unfold_locales (simp add: ld8_def st8_def)

interpretation register_bytes: byte_store "\<lambda>(r, k) s. reg8 s r k" "\<lambda>(r, k). set_reg8 r k" "\<lambda>(r, k). k < 4"
  by unfold_locales (auto simp: reg8_def set_reg8_def split: if_splits)

lemma bytes_of_u16: "ucast (ucast v :: u8) OR push_bit 8 (ucast (ucast (drop_bit 8 v) :: u8)) = v" for v :: u16
  by (rule bit_word_eqI) (auto simp: bit_simps)

lemma bytes_of_u32:
  "ucast (ucast v :: u8) OR push_bit 8 (ucast (ucast (drop_bit 8 v) :: u8)) OR
   push_bit 16 (ucast (ucast (drop_bit 16 v) :: u8)) OR push_bit 24 (ucast (ucast (drop_bit 24 v) :: u8)) = v" for v :: u32
proof (rule bit_word_eqI)
  fix n assume "n < LENGTH(32)"
  then consider "n < 8" | "8 \<le> n" "n < 16" | "16 \<le> n" "n < 24" | "24 \<le> n" "n < 32" by fastforce
  then show "bit (ucast (ucast v :: u8) OR push_bit 8 (ucast (ucast (drop_bit 8 v) :: u8)) OR
      push_bit 16 (ucast (ucast (drop_bit 16 v) :: u8)) OR push_bit 24 (ucast (ucast (drop_bit 24 v) :: u8)) :: u32) n = bit v n"
    by cases (auto simp: bit_simps)
qed

lemma ld_st_same [mem_simps, simp]:
  "ld8 (st8 a v8 s) a = v8" "ld16 (st16 a v16 s) a = v16" "ld32 (st32 a v32 s) a = v32"
  by (simp_all add: ld8_def st8_def ld16_def st16_def ld32_def st32_def bytes_of_u16 bytes_of_u32)

text \<open>Words four bytes apart do not meet.\<close>

definition apart :: "u32 \<Rightarrow> u32 \<Rightarrow> bool" where
  "apart a b = (4 \<le> uint (a - b) \<and> 4 \<le> uint (b - a))"

lemma apart_sym: "apart a b \<Longrightarrow> apart b a"
  by (auto simp: apart_def)

lemma apart_offset:
  assumes "apart a b" "k \<in> {0, 1, 2, 3}" "j \<in> {0, 1, 2, 3}"
  shows "a + k \<noteq> b + j"
proof
  assume "a + k = b + j"
  then have d: "a - b = j - k" "b - a = k - j" by (simp_all add: algebra_simps)
  have "uint (j - k) < 4 \<or> uint (k - j) < 4" using assms(2,3) by auto
  then show False using assms(1) unfolding apart_def d by linarith
qed

lemma ld32_st32_apart [mem_simps]: "apart b a \<Longrightarrow> ld32 (st32 a v s) b = ld32 s b"
  using apart_offset [of b a 0 0] apart_offset [of b a 0 1] apart_offset [of b a 0 2] apart_offset [of b a 0 3]
    apart_offset [of b a 1 0] apart_offset [of b a 1 1] apart_offset [of b a 1 2] apart_offset [of b a 1 3]
    apart_offset [of b a 2 0] apart_offset [of b a 2 1] apart_offset [of b a 2 2] apart_offset [of b a 2 3]
    apart_offset [of b a 3 0] apart_offset [of b a 3 1] apart_offset [of b a 3 2] apart_offset [of b a 3 3]
  by (simp add: ld32_def st32_def)

lemma st_frame [simp]:
  "regs (st8 a v8 s) = regs s" "regs (st16 a v16 s) = regs s" "regs (st32 a v32 s) = regs s"
  "eflags (st8 a v8 s) = eflags s" "eflags (st16 a v16 s) = eflags s" "eflags (st32 a v32 s) = eflags s"
  "df (st8 a v8 s) = df s" "df (st16 a v16 s) = df s" "df (st32 a v32 s) = df s"
  "ip (st8 a v8 s) = ip s" "ip (st16 a v16 s) = ip s" "ip (st32 a v32 s) = ip s"
  by (simp_all add: st8_def st16_def st32_def)

lemma ld_frame [simp]:
  "ld8 (s\<lparr>regs := g\<rparr>) a = ld8 s a" "ld16 (s\<lparr>regs := g\<rparr>) a = ld16 s a" "ld32 (s\<lparr>regs := g\<rparr>) a = ld32 s a"
  "ld8 (s\<lparr>eflags := w\<rparr>) a = ld8 s a" "ld16 (s\<lparr>eflags := w\<rparr>) a = ld16 s a" "ld32 (s\<lparr>eflags := w\<rparr>) a = ld32 s a"
  "ld8 (s\<lparr>ip := w\<rparr>) a = ld8 s a" "ld16 (s\<lparr>ip := w\<rparr>) a = ld16 s a" "ld32 (s\<lparr>ip := w\<rparr>) a = ld32 s a"
  by (simp_all add: ld8_def ld16_def ld32_def)

section \<open>Operand locations\<close>

datatype loc = LReg "3 word" nat | LMem u32

primrec rd8 :: "'a machine_scheme \<Rightarrow> loc \<Rightarrow> u8" where
  "rd8 s (LReg r k) = reg8 s r k"
| "rd8 s (LMem a) = ld8 s a"

primrec rd16 :: "'a machine_scheme \<Rightarrow> loc \<Rightarrow> u16" where
  "rd16 s (LReg r k) = reg16 s r"
| "rd16 s (LMem a) = ld16 s a"

primrec rd32 :: "'a machine_scheme \<Rightarrow> loc \<Rightarrow> u32" where
  "rd32 s (LReg r k) = reg32 s r"
| "rd32 s (LMem a) = ld32 s a"

primrec wr8 :: "loc \<Rightarrow> u8 \<Rightarrow> 'a machine_scheme \<Rightarrow> 'a machine_scheme" where
  "wr8 (LReg r k) v s = set_reg8 r k v s"
| "wr8 (LMem a) v s = st8 a v s"

primrec wr16 :: "loc \<Rightarrow> u16 \<Rightarrow> 'a machine_scheme \<Rightarrow> 'a machine_scheme" where
  "wr16 (LReg r k) v s = set_reg16 r v s"
| "wr16 (LMem a) v s = st16 a v s"

primrec wr32 :: "loc \<Rightarrow> u32 \<Rightarrow> 'a machine_scheme \<Rightarrow> 'a machine_scheme" where
  "wr32 (LReg r k) v s = set_reg32 r v s"
| "wr32 (LMem a) v s = st32 a v s"

primrec loc_ok :: "loc \<Rightarrow> bool" where
  "loc_ok (LReg r k) = (k < 4)"
| "loc_ok (LMem a) = True"

interpretation operands: byte_store "\<lambda>l s. rd8 s l" wr8 loc_ok
proof
  fix i j :: loc and v and s :: "'a machine_scheme"
  assume "loc_ok i" "loc_ok j"
  then show "rd8 (wr8 j v s) i = (if i = j then v else rd8 s i)"
    using register_bytes.get_put [of "(_, _)" "(_, _)"]
    by (cases i; cases j) (auto simp: reg8_def set_reg8_def ld8_def st8_def split: if_splits)
qed

lemma rd_wr_same [mem_simps, simp]:
  "loc_ok l \<Longrightarrow> rd8 (wr8 l v8 s) l = v8" "rd16 (wr16 l v16 s) l = v16" "rd32 (wr32 l v32 s) l = v32"
  by (cases l; simp add: reg8_def set_reg8_def reg16_def set_reg16_def reg32_def set_reg32_def)+

end
