(* ===== verification/Stack.thy ===== *)
theory Stack
  imports Memory
begin

unbundle bit_operations_syntax

text \<open>
  The guest's stack: \<open>Push\<close>, \<open>Pop\<close> and \<open>PushExit\<close> of \<open>src/emu/x86run_private.h\<close>, and the
  contract they keep, the locale \<open>stack\<close>: a stack is a list of words, of which the
  implementation promises the topmost ones up to a limit. The lemmas on sequences of pushes and
  pops are proved from the contract alone, and then hold for the words below and above \<open>ESP\<close>.
\<close>

section \<open>The contract of a stack\<close>

locale stack =
  fixes push :: "'v \<Rightarrow> 's \<Rightarrow> 's"
    and pop :: "'s \<Rightarrow> 'v \<times> 's"
    and items :: "nat \<Rightarrow> 's \<Rightarrow> 'v list"
    and limit :: nat
  assumes length_items: "length (items n s) = n"
    and items_push: "n < limit \<Longrightarrow> items (Suc n) (push v s) = v # items n s"
    and items_pop: "items (Suc n) s = fst (pop s) # items n (snd (pop s))"
begin

primrec pops :: "nat \<Rightarrow> 's \<Rightarrow> 'v list \<times> 's" where
  "pops 0 s = ([], s)"
| "pops (Suc n) s = (let (v, s1) = pop s; (vs, s2) = pops n s1 in (v # vs, s2))"

text \<open>Pushing a list puts it on top, its last element first, and keeps what was below.\<close>

lemma items_pushes:
  "n + length vs \<le> limit \<Longrightarrow> items (n + length vs) (fold push vs s) = rev vs @ items n s"
proof (induction vs arbitrary: s n)
  case (Cons v vs)
  from Cons.prems have "items (Suc n + length vs) (fold push vs (push v s)) = rev vs @ items (Suc n) (push v s)"
    by (intro Cons.IH) simp
  with Cons.prems show ?case by (simp add: items_push)
qed simp

lemma items_pops: "items (n + k) s = fst (pops k s) @ items n (snd (pops k s))"
  by (induction k arbitrary: s) (simp_all add: items_pop Let_def case_prod_unfold)

lemma length_pops: "length (fst (pops k s)) = k"
  by (induction k arbitrary: s) (simp_all add: Let_def case_prod_unfold)

text \<open>Popping as many words as were pushed returns them in the opposite order and uncovers what was
  below.\<close>

lemma pops_pushes:
  assumes "n + length vs \<le> limit"
  shows "fst (pops (length vs) (fold push vs s)) = rev vs"
    and "items n (snd (pops (length vs) (fold push vs s))) = items n s"
proof -
  have "fst (pops (length vs) (fold push vs s)) @ items n (snd (pops (length vs) (fold push vs s))) = rev vs @ items n s"
    using items_pushes [OF assms, of s] items_pops [of n "length vs" "fold push vs s"] by simp
  then show "fst (pops (length vs) (fold push vs s)) = rev vs"
    and "items n (snd (pops (length vs) (fold push vs s))) = items n s"
    using length_pops [of "length vs"] by (auto simp: append_eq_append_conv)
qed

lemma pop_push:
  assumes "n < limit"
  shows "fst (pop (push v s)) = v" "items n (snd (pop (push v s))) = items n s"
  using items_push [OF assms, of v s] items_pop [of n "push v s"] by simp_all

end

section \<open>Push and Pop\<close>

definition Pop :: "'a machine_scheme \<Rightarrow> u32 \<times> 'a machine_scheme" where
  "Pop s = (let st = reg32 s rSP; s = set_reg32 rSP (reg32 s rSP + 4) s in (ld32 s st, s))"

definition Push :: "u32 \<Rightarrow> 'a machine_scheme \<Rightarrow> 'a machine_scheme" where
  "Push v s = (let s = set_reg32 rSP (reg32 s rSP - 4) s in st32 (reg32 s rSP) v s)"

definition PushExit :: "u32 \<Rightarrow> 'a machine_scheme \<Rightarrow> 'a machine_scheme" where
  "PushExit exit_bridge s = (let s = set_reg32 rSP (reg32 s rSP - 4) s in st32 (reg32 s rSP) exit_bridge s)"

text \<open>The words from \<open>ESP\<close> upwards.\<close>

definition stack_words :: "nat \<Rightarrow> 'a machine_scheme \<Rightarrow> u32 list" where
  "stack_words n s = map (\<lambda>k. ld32 s (reg32 s rSP + 4 * of_nat k)) [0..<n]"

lemma words_apart:
  assumes "k < 2 ^ 30 - 1"
  shows "apart (a + 4 * of_nat k) (a - 4)"
proof -
  have d: "a + 4 * of_nat k - (a - 4) = of_nat (4 * k + 4)" "(a - 4) - (a + 4 * of_nat k) = - of_nat (4 * k + 4)"
    by simp_all
  have u: "uint (of_nat (4 * k + 4) :: u32) = 4 * int k + 4"
    using assms by (simp add: unsigned_of_nat take_bit_nat_eq_self del: of_nat_add of_nat_mult)
  have m: "uint (- (of_nat (4 * k + 4) :: u32)) = (- (4 * int k + 4)) mod 2 ^ 32"
    by (simp only: uint_word_ariths u) simp
  have "(- (4 * int k + 4)) mod 2 ^ 32 = 2 ^ 32 - (4 * int k + 4)"
    using assms by (intro int_mod_pos_eq [where q = "- 1"]) auto
  then show ?thesis unfolding apart_def d u m using assms by simp
qed

interpretation guest_stack: stack Push Pop stack_words "2 ^ 30 - 1"
proof
  fix n :: nat and s :: "'a machine_scheme" and v
  show "length (stack_words n s) = n" by (simp add: stack_words_def)
  show "stack_words (Suc n) (Push v s) = v # stack_words n s" if "n < 2 ^ 30 - 1"
  proof -
    have "ld32 (st32 (regs s rSP - 4) v (s\<lparr>regs := g\<rparr>)) (regs s rSP - 4 + 4 * of_nat (Suc k)) = ld32 s (regs s rSP + 4 * of_nat k)"
      if "k < n" for k g
      using words_apart [of k "regs s rSP"] \<open>n < 2 ^ 30 - 1\<close> that by (simp add: ld32_st32_apart)
    then show ?thesis
      by (simp add: stack_words_def Push_def reg32_def set_reg32_def Let_def upt_conv_Cons map_Suc_upt [symmetric] del: upt_Suc of_nat_Suc)
  qed
  show "stack_words (Suc n) s = fst (Pop s) # stack_words n (snd (Pop s))"
    by (simp add: stack_words_def Pop_def reg32_def set_reg32_def Let_def upt_conv_Cons map_Suc_upt [symmetric] algebra_simps del: upt_Suc)
qed

lemma Push_Pop_regs [simp]:
  "regs (Push v s) = (regs s)(rSP := regs s rSP - 4)"
  "regs (snd (Pop s)) = (regs s)(rSP := regs s rSP + 4)"
  "fst (Pop s) = ld32 s (regs s rSP)"
  "snd (Pop s) = s\<lparr>regs := (regs s)(rSP := regs s rSP + 4)\<rparr>"
  by (simp_all add: Push_def Pop_def reg32_def set_reg32_def Let_def)

lemma Push_frame [simp]:
  "eflags (Push v s) = eflags s" "df (Push v s) = df s" "ip (Push v s) = ip s"
  by (simp_all add: Push_def set_reg32_def Let_def)

lemma PushExit_eq: "PushExit x s = Push x s"
  by (simp add: PushExit_def Push_def)

end
