(* ===== verification/Modrm.thy ===== *)
theory Modrm
  imports Stack
begin

unbundle bit_operations_syntax

text \<open>
  Instruction fetch and operand decoding of \<open>src/emu/modrm.h\<close>. The macros read the code bytes
  at the local variable \<open>addr\<close> of \<open>Run\<close> and step it; \<open>run\<close> extends the machine by
  that variable and by the other locals that live across instructions: the repeat prefix
  (0 none, 1 for F2, 2 for F3), \<open>tf_next\<close>, the argument \<open>step\<close> and \<open>unimp\<close>. The test-interpreter variants
  of the macros are left out.
\<close>

record run = machine +
  addr :: u32
  rep :: nat
  tf_next :: int
  step :: int
  unimp :: bool

section \<open>Fetching\<close>

definition F8 :: "run \<Rightarrow> u8 \<times> run" where
  "F8 s = (ld8 s (addr s), s\<lparr>addr := addr s + 1\<rparr>)"

definition F8S :: "run \<Rightarrow> u32 \<times> run" where
  "F8S s = (scast (ld8 s (addr s)), s\<lparr>addr := addr s + 1\<rparr>)"

definition F16 :: "run \<Rightarrow> u16 \<times> run" where
  "F16 s = (ld16 s (addr s), s\<lparr>addr := addr s + 2\<rparr>)"

definition F16S :: "run \<Rightarrow> u32 \<times> run" where
  "F16S s = (scast (ld16 s (addr s)), s\<lparr>addr := addr s + 2\<rparr>)"

definition F32 :: "run \<Rightarrow> u32 \<times> run" where
  "F32 s = (ld32 s (addr s), s\<lparr>addr := addr s + 4\<rparr>)"

section \<open>Fields of the ModRM byte\<close>

definition MODREG :: "u8 \<Rightarrow> bool" where
  "MODREG nextop = (nextop AND 0xC0 = 0xC0)"

definition rm_field :: "u8 \<Rightarrow> 3 word" where
  "rm_field b = ucast (b AND 7)"

definition reg_field :: "u8 \<Rightarrow> 3 word" where
  "reg_field b = ucast (drop_bit 3 (b AND 0x38))"

text \<open>The register file behind \<open>sbiidx\<close>: entry 4 points at the constant 0.\<close>

definition sbiidx :: "'a machine_scheme \<Rightarrow> 3 word \<Rightarrow> u32" where
  "sbiidx s i = (if i = 4 then 0 else reg32 s i)"

section \<open>Effective addresses\<close>

definition getecommon :: "u8 \<Rightarrow> run \<Rightarrow> u32 \<times> run" where
  "getecommon nextop s = (
     if nextop AND 0xC0 = 0 then
       if nextop AND 7 = 4 then let
         (sib, s) = F8 s;
         (base, s) = (if sib AND 7 = 5 then F32 s else (reg32 s (ucast (sib AND 7)), s))
       in (base + push_bit (unat (drop_bit 6 sib)) (sbiidx s (ucast (drop_bit 3 sib AND 7))), s)
       else if nextop AND 7 = 5 then F32 s
       else (reg32 s (ucast (nextop AND 7)), s)
     else let
       (base, s) = (if nextop AND 7 = 4 then let
           (sib, s) = F8 s
         in (reg32 s (ucast (sib AND 7)) + push_bit (unat (drop_bit 6 sib)) (sbiidx s (ucast (drop_bit 3 sib AND 7))), s)
         else (reg32 s (ucast (nextop AND 7)), s));
       (disp, s) = (if nextop AND 0x80 \<noteq> 0 then F32 s else F8S s)
     in (base + disp, s))"

definition getecommono :: "u8 \<Rightarrow> u32 \<Rightarrow> run \<Rightarrow> u32 \<times> run" where
  "getecommono nextop off s = (
     if nextop AND 0xC0 = 0 then
       if nextop AND 7 = 4 then let
         (sib, s) = F8 s;
         (base, s) = (if sib AND 7 = 5 then F32 s else (reg32 s (ucast (sib AND 7)), s));
         base = base + push_bit (unat (drop_bit 6 sib)) (sbiidx s (ucast (drop_bit 3 sib AND 7)))
       in (base + off, s)
       else if nextop AND 7 = 5 then let (d, s) = F32 s in (d + off, s)
       else (reg32 s (ucast (nextop AND 7)) + off, s)
     else let
       (base, s) = (if nextop AND 7 = 4 then let
           (sib, s) = F8 s
         in (reg32 s (ucast (sib AND 7)) + push_bit (unat (drop_bit 6 sib)) (sbiidx s (ucast (drop_bit 3 sib AND 7))), s)
         else (reg32 s (ucast (nextop AND 7)), s));
       (disp, s) = (if nextop AND 0x80 \<noteq> 0 then F32 s else F8S s);
       base = base + disp
     in (base + off, s))"

text \<open>The 16-bit forms. The sum of two registers is not cut to 16 bits.\<close>

definition base16 :: "'a machine_scheme \<Rightarrow> u8 \<Rightarrow> u32" where
  "base16 s m = (let BX = ucast (reg16 s rBX); BP = ucast (reg16 s rBP); SI = ucast (reg16 s rSI); DI = ucast (reg16 s rDI) in
     if m AND 7 = 0 then BX + SI
     else if m AND 7 = 1 then BX + DI
     else if m AND 7 = 2 then BP + SI
     else if m AND 7 = 3 then BP + DI
     else if m AND 7 = 4 then SI
     else if m AND 7 = 5 then DI
     else if m AND 7 = 6 then BP
     else BX)"

definition getecommon16 :: "u8 \<Rightarrow> run \<Rightarrow> u32 \<times> run" where
  "getecommon16 nextop s = (let
     m = nextop AND 0xC7;
     base = base16 s m
   in if drop_bit 6 m AND 3 = 0 then (if m = 6 then let (d, s) = F16 s in (ucast d, s) else (base, s))
      else if drop_bit 6 m AND 3 = 1 then let (d, s) = F8S s in (base + d, s)
      else if drop_bit 6 m AND 3 = 2 then let (d, s) = F16S s in (base + d, s)
      else (base, s))"

text \<open>
  The variant with an offset tests \<open>m&7==6\<close>, which C reads as \<open>m&(7==6)\<close>, that is
  \<open>m&0\<close>.
\<close>

definition getecommon16o :: "u8 \<Rightarrow> u32 \<Rightarrow> run \<Rightarrow> u32 \<times> run" where
  "getecommon16o nextop off s = (let
     m = nextop AND 0xC7;
     base = base16 s m;
     (base, s) = (
       if drop_bit 6 m AND 3 = 0 then (if m AND of_bool ((7 :: int) = 6) \<noteq> 0 then F16S s else (base, s))
       else if drop_bit 6 m AND 3 = 1 then let (d, s) = F8S s in (base + d, s)
       else if drop_bit 6 m AND 3 = 2 then let (d, s) = F16S s in (base + d, s)
       else (base, s))
   in (base + off, s))"

section \<open>Operands\<close>

definition geteb :: "u8 \<Rightarrow> run \<Rightarrow> loc \<times> run" where
  "geteb nextop s = (if MODREG nextop then (LReg (ucast (nextop AND 3)) (unat (drop_bit 2 (nextop AND 4))), s)
     else let (a, s) = getecommon nextop s in (LMem a, s))"

definition geted :: "u8 \<Rightarrow> run \<Rightarrow> loc \<times> run" where
  "geted nextop s = (if MODREG nextop then (LReg (rm_field nextop) 0, s)
     else let (a, s) = getecommon nextop s in (LMem a, s))"

definition getebo :: "u8 \<Rightarrow> u32 \<Rightarrow> run \<Rightarrow> loc \<times> run" where
  "getebo nextop off s = (if MODREG nextop then (LReg (ucast (nextop AND 3)) (unat (drop_bit 2 (nextop AND 4))), s)
     else let (a, s) = getecommono nextop off s in (LMem a, s))"

definition getedo :: "u8 \<Rightarrow> u32 \<Rightarrow> run \<Rightarrow> loc \<times> run" where
  "getedo nextop off s = (if MODREG nextop then (LReg (rm_field nextop) 0, s)
     else let (a, s) = getecommono nextop off s in (LMem a, s))"

definition getew16 :: "u8 \<Rightarrow> run \<Rightarrow> loc \<times> run" where
  "getew16 nextop s = (if MODREG nextop then (LReg (rm_field nextop) 0, s)
     else let (a, s) = getecommon16 nextop s in (LMem a, s))"

definition getew16o :: "u8 \<Rightarrow> u32 \<Rightarrow> run \<Rightarrow> loc \<times> run" where
  "getew16o nextop off s = (if MODREG nextop then (LReg (rm_field nextop) 0, s)
     else let (a, s) = getecommon16o nextop off s in (LMem a, s))"

definition GB :: "u8 \<Rightarrow> loc" where
  "GB nextop = LReg (ucast (drop_bit 3 nextop AND 3)) (unat (drop_bit 5 nextop AND 1))"

definition GD :: "u8 \<Rightarrow> loc" where
  "GD nextop = LReg (reg_field nextop) 0"

section \<open>The fields as numbers\<close>

lemma byte_fields:
  fixes n :: u8
  shows "uint (n AND 7) = uint n mod 8" "uint (drop_bit 6 n) = uint n div 64"
    "uint (drop_bit 3 n AND 7) = uint n div 8 mod 8" "uint n < 256"
proof -
  have "m AND 7 = take_bit 3 m" for m :: u8 by (simp add: take_bit_eq_mask mask_eq_exp_minus_1)
  then have t: "uint (m AND 7) = uint m mod 8" for m :: u8
    by (simp only: unsigned_take_bit_eq) (simp add: take_bit_eq_mod)
  have d: "uint (drop_bit k n) = uint n div 2 ^ k" for k
    using take_bit_length_uint [of n] by (subst unsigned_drop_bit_eq) (simp add: drop_bit_eq_div)
  show "uint (n AND 7) = uint n mod 8" "uint (drop_bit 6 n) = uint n div 64"
    "uint (drop_bit 3 n AND 7) = uint n div 8 mod 8" by (simp_all add: t d)
  show "uint n < 256" using uint_lt2p [of n] by simp
qed

lemma and_C0:
  fixes n :: u8
  shows "n AND 0xC0 = push_bit 6 (drop_bit 6 n)"
proof (rule bit_word_eqI)
  fix k assume "k < LENGTH(8)"
  have e: "(192 :: int) = push_bit 6 (mask 2)" by (simp add: mask_eq_exp_minus_1 push_bit_eq_mult)
  have b: "bit (192 :: int) j \<longleftrightarrow> 6 \<le> j \<and> j < 8" for j unfolding e bit_push_bit_iff bit_mask_iff by auto
  show "bit (n AND 0xC0) k = bit (push_bit 6 (drop_bit 6 n)) k"
    using \<open>k < LENGTH(8)\<close> by (auto simp: bit_simps b)
qed

lemma mode_bits:
  fixes n :: u8
  shows "n AND 0xC0 = 0 \<longleftrightarrow> uint n div 64 = 0" "n AND 0x80 = 0 \<longleftrightarrow> uint n div 64 < 2"
    "n AND 0xC0 = 0xC0 \<longleftrightarrow> uint n div 64 = 3"
proof -
  have u: "uint (n AND 0xC0) = 64 * (uint n div 64)"
  proof -
    have "64 * (uint n div 64) < 256" using byte_fields(4) [of n] by linarith
    then have "64 * (uint n div 64) mod 256 = 64 * (uint n div 64)" by (simp add: pos_imp_zdiv_nonneg_iff)
    then show ?thesis
      by (simp only: and_C0 push_bit_eq_mult) (simp add: uint_word_ariths byte_fields mult.commute)
  qed
  have "n AND 0xC0 = c \<longleftrightarrow> uint (n AND 0xC0) = uint c" for c by (simp add: word_uint_eq_iff)
  then show "n AND 0xC0 = 0 \<longleftrightarrow> uint n div 64 = 0" "n AND 0xC0 = 0xC0 \<longleftrightarrow> uint n div 64 = 3"
    unfolding u by simp_all
  show "n AND 0x80 = 0 \<longleftrightarrow> uint n div 64 < 2"
    using bit_top_uint [of n] and_pow_eq_0 [of n 7] by (simp; linarith)
qed

lemma field_eq:
  fixes n :: u8
  shows "n AND 7 = 4 \<longleftrightarrow> uint n mod 8 = 4" "n AND 7 = 5 \<longleftrightarrow> uint n mod 8 = 5"
    "(ucast (n AND 7) :: 3 word) = word_of_int (uint n mod 8)"
    "(ucast (drop_bit 3 n AND 7) :: 3 word) = word_of_int (uint n div 8 mod 8)"
    "unat (drop_bit 6 n) = nat (uint n div 64)"
proof -
  have "w = c \<longleftrightarrow> uint w = uint c" for w c :: u8 by (simp add: word_uint_eq_iff)
  then show "n AND 7 = 4 \<longleftrightarrow> uint n mod 8 = 4" "n AND 7 = 5 \<longleftrightarrow> uint n mod 8 = 5"
    by (simp_all add: byte_fields)
  have c: "(ucast w :: 3 word) = word_of_int (uint w)" for w :: u8 by simp
  show "(ucast (n AND 7) :: 3 word) = word_of_int (uint n mod 8)"
    "(ucast (drop_bit 3 n AND 7) :: 3 word) = word_of_int (uint n div 8 mod 8)"
    unfolding c byte_fields(1) [of n] byte_fields(3) by (rule refl)+
  have "unat w = nat (uint w)" for w :: u8 by simp
  then show "unat (drop_bit 6 n) = nat (uint n div 64)" by (simp only: byte_fields)
qed

section \<open>The addressing forms\<close>

text \<open>
  The 32-bit addressing forms by their parts, as the architecture's tables give them: mode and r/m
  of the ModRM byte, the SIB byte after it if r/m is 4, a base register unless the form says
  none, an index register unless it is 4, and a displacement of 0, 1 or 4 bytes. The result is
  the address as an integer and the number of bytes after the ModRM byte.
\<close>

definition ea32 :: "u8 \<Rightarrow> run \<Rightarrow> int \<times> int" where
  "ea32 nextop s = (let
     md = uint nextop div 64; rm = uint nextop mod 8;
     sib = uint (ld8 s (addr s));
     sib_len = of_bool (rm = 4);
     r = (if rm = 4 then sib mod 8 else rm);
     no_base = (md = 0 \<and> r = 5);
     base = (if no_base then 0 else uint (regs s (word_of_int r)));
     index = (if rm = 4 \<and> sib div 8 mod 8 \<noteq> 4 then uint (regs s (word_of_int (sib div 8 mod 8))) * 2 ^ nat (sib div 64) else 0);
     disp_len = (if md = 1 then 1 else if md = 2 \<or> no_base then 4 else 0);
     disp = (if disp_len = 1 then sint (ld8 s (addr s + word_of_int sib_len))
             else if disp_len = 4 then sint (ld32 s (addr s + word_of_int sib_len)) else 0)
   in ((base + index + disp) mod 2 ^ 32, sib_len + disp_len))"

lemma idx_word: "push_bit k x = word_of_int (uint x * 2 ^ k)" for x :: u32
  by (simp add: push_bit_eq_mult mult.commute)

lemma sbiidx_word:
  assumes "0 \<le> i" "i < 8"
  shows "push_bit k (sbiidx s (word_of_int i)) = word_of_int (if i = 4 then 0 else uint (regs s (word_of_int i)) * 2 ^ k)"
proof -
  have "(word_of_int i :: 3 word) = 4 \<longleftrightarrow> i = 4"
    using assms by (simp add: word_uint_eq_iff unsigned_of_int take_bit_int_eq_self)
  then show ?thesis by (simp add: sbiidx_def reg32_def idx_word)
qed

lemma word_sum_mod: "word_of_int (k mod 2 ^ 32) = (word_of_int k :: u32)"
  by (simp add: word_of_int_eq_iff take_bit_eq_mod)

lemma ucast_scast_word: "x = (word_of_int (uint x) :: u32)" "scast y = (word_of_int (sint y) :: u32)" "z = (word_of_int (sint z) :: u32)"
  for x z :: u32 and y :: u8
  by simp_all

lemma ld_addr [simp]: "ld8 (s\<lparr>addr := a\<rparr>) b = ld8 s b" "ld16 (s\<lparr>addr := a\<rparr>) b = ld16 s b" "ld32 (s\<lparr>addr := a\<rparr>) b = ld32 s b"
  "sbiidx (s\<lparr>addr := a\<rparr>) i = sbiidx s i"
  by (simp_all add: ld8_def ld16_def ld32_def sbiidx_def reg32_def)
lemma sib_index:
  fixes sib :: u8
  defines "i \<equiv> uint sib div 8 mod 8"
  shows "push_bit (unat (drop_bit 6 sib)) (sbiidx s (ucast (drop_bit 3 sib AND 7))) =
    word_of_int (if i = 4 then 0 else uint (regs s (word_of_int i)) * 2 ^ nat (uint sib div 64))"
proof -
  have b: "0 \<le> i" "i < 8" by (simp_all add: i_def)
  have u: "(ucast (drop_bit 3 sib AND 7) :: 3 word) = word_of_int i" "unat (drop_bit 6 sib) = nat (uint sib div 64)"
    unfolding i_def by (rule field_eq)+
  show ?thesis unfolding u by (rule sbiidx_word [OF b])
qed

lemma getecommon_ea32:
  assumes "uint nextop div 64 \<noteq> 3"
  shows "getecommon nextop s = (word_of_int (fst (ea32 nextop s)), s\<lparr>addr := addr s + word_of_int (snd (ea32 nextop s))\<rparr>)"
proof -
  define md rm sib where "md = uint nextop div 64" and "rm = uint nextop mod 8" and "sib = uint (ld8 s (addr s))"
  define ix where "ix = (if sib div 8 mod 8 = 4 then 0 else uint (regs s (word_of_int (sib div 8 mod 8))) * 2 ^ nat (sib div 64))"
  have r: "0 \<le> sib div 8 mod 8" "sib div 8 mod 8 < 8" "0 \<le> md" "md < 3"
    using byte_fields(4) [of nextop] assms by (auto simp: md_def pos_imp_zdiv_nonneg_iff)
  have f: "nextop AND 0xC0 = 0 \<longleftrightarrow> md = 0" "nextop AND 0x80 = 0 \<longleftrightarrow> md < 2" "nextop AND 7 = 4 \<longleftrightarrow> rm = 4"
    "nextop AND 7 = 5 \<longleftrightarrow> rm = 5" "(ucast (nextop AND 7) :: 3 word) = word_of_int rm"
    by (simp_all only: mode_bits field_eq md_def rm_def)
  have g: "ld8 s (addr s) AND 7 = 5 \<longleftrightarrow> sib mod 8 = 5" "(ucast (ld8 s (addr s) AND 7) :: 3 word) = word_of_int (sib mod 8)"
    by (simp_all only: field_eq sib_def)
  have i: "push_bit (unat (drop_bit 6 (ld8 s (addr s)))) (sbiidx s (ucast (drop_bit 3 (ld8 s (addr s)) AND 7))) = word_of_int ix"
    unfolding ix_def sib_def by (rule sib_index)
  have j: "(if rm = 4 \<and> sib div 8 mod 8 \<noteq> 4 then uint (regs s (word_of_int (sib div 8 mod 8))) * 2 ^ nat (sib div 64) else 0)
      = (if rm = 4 then ix else 0)" by (simp add: ix_def)
  note e = Let_def md_def [symmetric] rm_def [symmetric] sib_def [symmetric] F8_def F8S_def F32_def f j
  note E = ea32_def [of nextop s, unfolded e] and G = getecommon_def [of nextop s, unfolded e]
  have w3: "word_of_int ((x + y + z) mod 2 ^ 32) = (word_of_int x + word_of_int y + word_of_int z :: u32)" for x y z
    by (simp only: word_sum_mod wi_hom_add)
  have w0: "word_of_int (uint x) = x" "word_of_int (sint x) = x" "word_of_int (sint y) = (scast y :: u32)" for x :: u32 and y :: u8
    by simp_all
  note c = split_conv prod.case ld_addr g i reg32_def fst_conv snd_conv if_True if_False simp_thms run.simps w3 w0
  from r have m: "md = 0 \<or> md = 1 \<or> md = 2" by linarith
  consider "md = 0" "rm = 4" "sib mod 8 = 5"
    | "md = 0" "rm = 4" "sib mod 8 \<noteq> 5"
    | "md = 0" "rm = 5"
    | "md = 0" "rm \<noteq> 4" "rm \<noteq> 5"
    | "md = 1" "rm = 4"
    | "md = 1" "rm \<noteq> 4"
    | "md = 2" "rm = 4"
    | "md = 2" "rm \<noteq> 4"
    using m by blast
  then show ?thesis
  proof cases
    case 1 then show ?thesis unfolding E G by (simp only: c) simp
  next
    case 2 then show ?thesis unfolding E G by (simp only: c) simp
  next
    case 3 then show ?thesis unfolding E G by (simp only: c) simp
  next
    case 4 then show ?thesis unfolding E G by (simp only: c) simp
  next
    case 5 then show ?thesis unfolding E G by (simp only: c) simp
  next
    case 6 then show ?thesis unfolding E G by (simp only: c) simp
  next
    case 7 then show ?thesis unfolding E G by (simp only: c) simp
  next
    case 8 then show ?thesis unfolding E G by (simp only: c) simp
  qed
qed

lemma getecommono_eq: "getecommono nextop off s = (let (a, s) = getecommon nextop s in (a + off, s))"
  by (simp add: getecommono_def getecommon_def Let_def case_prod_unfold)

text \<open>The 16-bit forms: two registers or one, and a displacement of 0, 1 or 2 bytes.\<close>

definition ea16 :: "u8 \<Rightarrow> run \<Rightarrow> int \<times> int" where
  "ea16 nextop s = (let
     md = uint nextop div 64; rm = uint nextop mod 8;
     pairs = [[rBX, rSI], [rBX, rDI], [rBP, rSI], [rBP, rDI], [rSI], [rDI], [rBP], [rBX]];
     direct = (md = 0 \<and> rm = 6);
     base = (if direct then 0 else sum_list (map (\<lambda>r. uint (reg16 s r)) (pairs ! nat rm)));
     disp_len = (if md = 1 then 1 else if md = 2 \<or> direct then 2 else 0);
     disp = (if direct then uint (ld16 s (addr s)) else if disp_len = 1 then sint (ld8 s (addr s))
             else if disp_len = 2 then sint (ld16 s (addr s)) else 0)
   in (base + disp, disp_len))"

lemma field16:
  fixes n :: u8
  shows "uint ((n AND 0xC7) AND 7) = uint n mod 8" "uint (drop_bit 6 (n AND 0xC7) AND 3) = uint n div 64"
    "n AND 0xC7 = 6 \<longleftrightarrow> uint n div 64 = 0 \<and> uint n mod 8 = 6"
proof -
  have b: "bit (199 :: int) k \<longleftrightarrow> k < 3 \<or> 6 \<le> k \<and> k < 8" "bit (7 :: int) k \<longleftrightarrow> k < 3" "bit (3 :: int) k \<longleftrightarrow> k < 2" for k
  proof -
    have e: "(199 :: int) = mask 3 + push_bit 6 (mask 2)" "(7 :: int) = mask 3" "(3 :: int) = mask 2"
      by (simp_all add: mask_eq_exp_minus_1 push_bit_eq_mult)
    have d: "mask 3 + push_bit 6 (mask 2) = mask 3 OR (push_bit 6 (mask 2) :: int)"
      by (simp add: mask_eq_exp_minus_1 push_bit_eq_mult)
    show "bit (199 :: int) k \<longleftrightarrow> k < 3 \<or> 6 \<le> k \<and> k < 8" unfolding e(1) d by (auto simp: bit_or_iff bit_push_bit_iff bit_mask_iff)
    show "bit (7 :: int) k \<longleftrightarrow> k < 3" "bit (3 :: int) k \<longleftrightarrow> k < 2" unfolding e by (simp_all add: bit_mask_iff)
  qed
  have "(n AND 0xC7) AND 7 = n AND 7" by (rule bit_word_eqI) (auto simp: bit_simps b)
  then show a: "uint ((n AND 0xC7) AND 7) = uint n mod 8" by (simp only: byte_fields)
  have "drop_bit 6 (n AND 0xC7) AND 3 = drop_bit 6 n"
    by (rule bit_word_eqI) (auto simp: bit_simps b dest: bit_imp_le_length)
  then show d: "uint (drop_bit 6 (n AND 0xC7) AND 3) = uint n div 64" by (simp only: byte_fields)
  have z: "3 \<le> k \<Longrightarrow> k < 6 \<Longrightarrow> \<not> bit (n AND 0xC7) k" for k by (simp add: bit_simps b)
  have "n AND 0xC7 = 6" if h: "(n AND 0xC7) AND 7 = 6" "drop_bit 6 (n AND 0xC7) AND 3 = 0"
  proof (rule bit_word_eqI)
    fix k assume k: "k < LENGTH(8)"
    then consider "k < 3" | "3 \<le> k" "k < 6" | "6 \<le> k" "k < 8" by fastforce
    then show "bit (n AND 0xC7) k = bit (6 :: u8) k"
    proof cases
      case 1
      then show ?thesis using arg_cong [OF h(1), of "\<lambda>w. bit w k"] by (simp add: bit_simps b)
    next
      case 2
      then have "k = 3 \<or> k = 4 \<or> k = 5" by linarith
      with z [OF 2] show ?thesis by auto
    next
      case 3
      then have "k = 6 \<or> k = 7" by linarith
      then show ?thesis using arg_cong [OF h(2), of "\<lambda>w. bit w (k - 6)"] by (auto simp: bit_simps b)
    qed
  qed
  moreover have "(n AND 0xC7) AND 7 = 6 \<and> drop_bit 6 (n AND 0xC7) AND 3 = 0" if "n AND 0xC7 = 6"
    unfolding that by simp
  ultimately have "n AND 0xC7 = 6 \<longleftrightarrow> (n AND 0xC7) AND 7 = 6 \<and> drop_bit 6 (n AND 0xC7) AND 3 = 0" by blast
  also have "\<dots> \<longleftrightarrow> uint n mod 8 = 6 \<and> uint n div 64 = 0"
  proof -
    have w: "w = c \<longleftrightarrow> uint w = uint c" for w c :: u8 by (simp add: word_uint_eq_iff)
    show ?thesis unfolding w a d by simp
  qed
  finally show "n AND 0xC7 = 6 \<longleftrightarrow> uint n div 64 = 0 \<and> uint n mod 8 = 6" by auto
qed

lemma base16_word:
  assumes "uint m mod 8 = k"
  shows "base16 s m = word_of_int (sum_list (map (\<lambda>r. uint (reg16 s r))
    ([[rBX, rSI], [rBX, rDI], [rBP, rSI], [rBP, rDI], [rSI], [rDI], [rBP], [rBX]] ! nat k)))"
proof -
  have e: "m AND 7 = c \<longleftrightarrow> k = uint c" for c using assms by (simp add: word_uint_eq_iff byte_fields)
  have u: "(ucast x :: u32) = word_of_int (uint x)" for x :: u16 by simp
  have "0 \<le> k" "k < 8" using assms by auto
  then consider "k = 0" | "k = 1" | "k = 2" | "k = 3" | "k = 4" | "k = 5" | "k = 6" | "k = 7" by linarith
  then show ?thesis
    by cases (simp only: base16_def Let_def e u; simp)+
qed

lemma field_ranges: "0 \<le> uint n div 64" "uint n div 64 < 4" "0 \<le> uint n mod 8" "uint n mod 8 < 8" for n :: u8
  using byte_fields(4) [of n] by (simp_all add: pos_imp_zdiv_nonneg_iff)

lemma ea16_word:
  assumes "uint nextop div 64 \<noteq> 3"
  shows "getecommon16 nextop s = (word_of_int (fst (ea16 nextop s)), s\<lparr>addr := addr s + word_of_int (snd (ea16 nextop s))\<rparr>)"
    and "uint nextop div 64 \<noteq> 0 \<or> uint nextop mod 8 \<noteq> 6 \<Longrightarrow>
      getecommon16o nextop off s = (word_of_int (fst (ea16 nextop s)) + off, s\<lparr>addr := addr s + word_of_int (snd (ea16 nextop s))\<rparr>)"
proof -
  define md rm where "md = uint nextop div 64" and "rm = uint nextop mod 8"
  define b where "b = sum_list (map (\<lambda>r. uint (reg16 s r))
    ([[rBX, rSI], [rBX, rDI], [rBP, rSI], [rBP, rDI], [rSI], [rDI], [rBP], [rBX]] ! nat rm))"
  have f: "drop_bit 6 (nextop AND 0xC7) AND 3 = c \<longleftrightarrow> md = uint c" for c
    by (simp only: word_uint_eq_iff field16(2) md_def)
  have q: "nextop AND 0xC7 = 6 \<longleftrightarrow> md = 0 \<and> rm = 6" by (simp only: field16(3) md_def rm_def)
  have u7: "uint (nextop AND 0xC7) mod 8 = rm" using field16(1) [of nextop] byte_fields(1) [of "nextop AND 0xC7"] by (simp add: rm_def)
  have B: "base16 s (nextop AND 0xC7) = word_of_int b" unfolding b_def by (rule base16_word [OF u7])
  have m: "md = 0 \<or> md = 1 \<or> md = 2" using field_ranges [of nextop] assms by (auto simp: md_def)
  have u: "(ucast x :: u32) = word_of_int (uint x)" "(scast x :: u32) = word_of_int (sint x)" for x :: u16 by simp_all
  have v: "(scast x :: u32) = word_of_int (sint x)" for x :: u8 by simp
  have A: "ea16 nextop s = ((if md = 0 \<and> rm = 6 then 0 else b) + (if md = 0 \<and> rm = 6 then uint (ld16 s (addr s)) else
      if md = 1 then sint (ld8 s (addr s)) else if md = 2 then sint (ld16 s (addr s)) else 0),
      if md = 1 then 1 else if md = 2 \<or> md = 0 \<and> rm = 6 then 2 else 0)"
    by (simp add: ea16_def Let_def b_def md_def [symmetric] rm_def [symmetric])
  show "getecommon16 nextop s = (word_of_int (fst (ea16 nextop s)), s\<lparr>addr := addr s + word_of_int (snd (ea16 nextop s))\<rparr>)"
    using m unfolding A getecommon16_def Let_def f q B F8S_def F16_def F16S_def u v wi_hom_add split_conv
    by (elim disjE) simp_all
  show "getecommon16o nextop off s = (word_of_int (fst (ea16 nextop s)) + off, s\<lparr>addr := addr s + word_of_int (snd (ea16 nextop s))\<rparr>)"
    if "uint nextop div 64 \<noteq> 0 \<or> uint nextop mod 8 \<noteq> 6"
    using m that unfolding A getecommon16o_def Let_def f q B F8S_def F16_def F16S_def u v wi_hom_add split_conv md_def [symmetric] rm_def [symmetric]
    by (elim disjE) simp_all
qed

text \<open>A concrete state, for examples: the code bytes given, from address 0 on, and every register 0
  but \<open>ESP\<close>.\<close>

definition run0 :: "u8 list \<Rightarrow> run" where
  "run0 code = \<lparr>regs = (\<lambda>r. if r = rSP then 0x1000 else 0), eflags = 0x202, ip = 0, fpu = fpu0, old_ip = 0, df = d_none,
     op1 = 0, op2 = 0, res = 0, segs = (\<lambda>_. 0), segs_offs = (\<lambda>_. 0), segs_serial = (\<lambda>_. 0), quit = 0, err = 0, fork = 0,
     uc_link = 0, mem = (\<lambda>a. if unat a < length code then code ! unat a else 0), sel_serial = 1, default_fs = 0, quitonlongjmp = 0, longjmp = False, emu_context = 0, stack2free = 0, init_stack = 0,
     size_stack = 0,
     addr = 0, rep = 0, tf_next = 0, step = 0, unimp = False\<rparr>"

text \<open>Decoding moves on in the code and changes nothing else.\<close>

lemma getecommon_addr: "snd (getecommon b s) = s\<lparr>addr := addr (snd (getecommon b s))\<rparr>"
  by (simp add: getecommon_def F8_def F8S_def F32_def Let_def case_prod_unfold)

lemma geted_addr: "snd (geted b s) = s\<lparr>addr := addr (snd (geted b s))\<rparr>"
  using getecommon_addr [of b s] by (simp add: geted_def Let_def case_prod_unfold)

text \<open>C12. The 32-bit operand decoder, in both variants, finds for every ModRM byte that names memory the
  address the architecture's tables give (base, scaled index and sign-extended displacement,
  modulo \<open>2 ^ 32\<close>, plus the offset), and steps over the bytes of that form and no others.\<close>

theorem getecommon_correct:
  assumes "\<not> MODREG nextop"
  shows "getecommon nextop s = (word_of_int (fst (ea32 nextop s)), s\<lparr>addr := addr s + word_of_int (snd (ea32 nextop s))\<rparr>) \<and>
    getecommono nextop off s = (word_of_int (fst (ea32 nextop s)) + off, s\<lparr>addr := addr s + word_of_int (snd (ea32 nextop s))\<rparr>)"
  using getecommon_ea32 [of nextop s] getecommono_eq [of nextop off s] assms by (simp add: MODREG_def mode_bits)

theorem getecommon_correct_witness:
  "fst (getecommon 0x84 (run0 [0xA4, 0x10, 0, 0, 0])) = 0x1010 \<and> fst (getecommono 0x84 8 (run0 [0xA4, 0x10, 0, 0, 0])) = 0x1018"
proof -
  define s where "s = run0 [0xA4, 0x10, 0, 0, 0]"
  have h: "\<not> MODREG 0x84" by (simp add: MODREG_def)
  have r: "ld8 s 0 = 0xA4" "ld32 s 1 = 0x10" "addr s = 0" "regs s = (\<lambda>r. if r = 4 then 0x1000 else 0)"
    unfolding s_def by (simp_all add: run0_def ld8_def ld32_def)
  have e: "ea32 0x84 s = (0x1010, 5)" by (simp only: ea32_def r Let_def) (simp add: r(2))
  show ?thesis using getecommon_correct [OF h, of s 8] by (simp add: e flip: s_def)
qed

text \<open>The 16-bit operand decoders find the sum of the registers and of the displacement the tables give,
  as an integer (it is not cut to 16 bits, as the architecture does), and step over the form's
  bytes; the variant with an offset does so for every form but the one that is a bare
  displacement: there, by the precedence of \<open>&\<close> and \<open>==\<close>, it takes \<open>BP\<close> for the
  address and leaves the displacement to be read as the next instruction.\<close>

theorem getecommon16_correct:
  assumes "\<not> MODREG nextop"
  shows "getecommon16 nextop s = (word_of_int (fst (ea16 nextop s)), s\<lparr>addr := addr s + word_of_int (snd (ea16 nextop s))\<rparr>) \<and>
    getecommon16o nextop off s =
      (if nextop AND 0xC7 = 6 then (ucast (reg16 s rBP) + off, s)
       else (word_of_int (fst (ea16 nextop s)) + off, s\<lparr>addr := addr s + word_of_int (snd (ea16 nextop s))\<rparr>))"
proof -
  have d: "uint nextop div 64 \<noteq> 3" using assms by (simp add: MODREG_def mode_bits)
  show ?thesis
  proof (cases "nextop AND 0xC7 = 6")
    case True
    then have "getecommon16o nextop off s = (ucast (reg16 s rBP) + off, s)"
      unfolding getecommon16o_def Let_def True by (simp add: base16_def)
    then show ?thesis using True ea16_word(1) [OF d] by simp
  next
    case False
    then have n: "uint nextop div 64 \<noteq> 0 \<or> uint nextop mod 8 \<noteq> 6" unfolding field16(3) by blast
    show ?thesis by (simp only: ea16_word(1) [OF d] ea16_word(2) [OF d n] False if_False simp_thms)
  qed
qed

theorem getecommon16_correct_witness:
  "getecommon16 6 (run0 [0x34, 0x12]) = (0x1234, (run0 [0x34, 0x12])\<lparr>addr := 2\<rparr>) \<and>
   getecommon16o 6 0 (run0 [0x34, 0x12]) = (0, run0 [0x34, 0x12])"
proof -
  have h: "\<not> MODREG 6" by (simp add: MODREG_def)
  have e: "ea16 6 (run0 [0x34, 0x12]) = (0x1234, 2)"
  proof -
    have r: "ld16 (run0 [0x34, 0x12]) 0 = 0x1234" "addr (run0 [0x34, 0x12]) = 0"
      by (simp_all add: run0_def ld16_def)
    show ?thesis by (simp add: ea16_def r Let_def)
  qed
  have b: "reg16 (run0 [0x34, 0x12]) rBP = 0" "addr (run0 [0x34, 0x12]) = 0" by (simp_all add: run0_def reg16_def)
  show ?thesis using getecommon16_correct [OF h, of "run0 [0x34, 0x12]" 0] unfolding e b by simp
qed

end
