(* ===== verification/InterpBase.thy ===== *)
theory InterpBase
  imports PrimopMulDiv Modrm
begin

unbundle bit_operations_syntax

text \<open>
  What the instructions of the interpreter \<open>src/emu/x86run.c\<close> share: how an instruction ends,
  the single-step macros, the functions \<open>Run\<close> calls that are not part of this model (the other
  opcode maps, signals, system calls, the table of alternate addresses), and the read-modify-write of
  an operand. The model is that of a build with DYNAREC and without tracing.

  The functions of \<open>env\<close> get the machine and give it back; the locals of \<open>Run\<close> they cannot
  see are kept by \<open>on_machine\<close>. A signal handler that leaves by a long jump is not modelled.
\<close>

section \<open>Errors and signals\<close>

abbreviation (input) ERR_UNIMPL :: u32 where "ERR_UNIMPL \<equiv> 1"
abbreviation (input) ERR_ILLEGAL :: u32 where "ERR_ILLEGAL \<equiv> 4"

abbreviation (input) SIGILL :: nat where "SIGILL \<equiv> 4"
abbreviation (input) SIGTRAP :: nat where "SIGTRAP \<equiv> 5"
abbreviation (input) SIGSEGV :: nat where "SIGSEGV \<equiv> 11"

section \<open>What the interpreter calls\<close>

text \<open>
  A function of another opcode map gets the address after its prefix and returns the address of
  the next instruction, 0 if it does not know the opcode; two of them also get the \<open>step\<close>
  argument of \<open>Run\<close> by reference. \<open>reg_address\<close> is the host address of an entry of the
  register file, which \<open>LEA\<close> delivers when its operand names a register.
\<close>

record env =
  Run0F :: "u32 \<Rightarrow> int \<Rightarrow> machine \<Rightarrow> u32 \<times> int \<times> machine"
  RunF20F :: "u32 \<Rightarrow> int \<Rightarrow> machine \<Rightarrow> u32 \<times> int \<times> machine"
  RunF30F :: "u32 \<Rightarrow> machine \<Rightarrow> u32 \<times> machine"
  Run64 :: "3 word \<Rightarrow> u32 \<Rightarrow> machine \<Rightarrow> u32 \<times> machine"
  Run66 :: "nat \<Rightarrow> u32 \<Rightarrow> machine \<Rightarrow> u32 \<times> machine"
  Run67 :: "nat \<Rightarrow> u32 \<Rightarrow> machine \<Rightarrow> u32 \<times> machine"
  RunD8 :: "u8 \<Rightarrow> u32 \<Rightarrow> machine \<Rightarrow> u32 \<times> machine"
  RunF0 :: "u32 \<Rightarrow> machine \<Rightarrow> u32 \<times> machine"
  emit_signal :: "nat \<Rightarrow> u32 \<Rightarrow> int \<Rightarrow> machine \<Rightarrow> machine"
  emit_div0 :: "u32 \<Rightarrow> int \<Rightarrow> machine \<Rightarrow> machine"
  x86Int3 :: "machine \<Rightarrow> machine"
  x86Syscall :: "machine \<Rightarrow> machine"
  x86emu_fork :: "int \<Rightarrow> machine \<Rightarrow> machine"
  my_setcontext :: "u32 \<Rightarrow> machine \<Rightarrow> machine"
  getAlternate :: "u32 \<Rightarrow> u32"
  box86_wine :: bool
  reg_address :: "3 word \<Rightarrow> u32"

definition on_machine :: "(machine \<Rightarrow> machine) \<Rightarrow> run \<Rightarrow> run" where
  "on_machine f s = machine.extend (f (machine.truncate s)) (run.fields (addr s) (rep s) (tf_next s) (step s) (unimp s))"

lemma on_machine_locals [simp]:
  "addr (on_machine f s) = addr s" "rep (on_machine f s) = rep s" "tf_next (on_machine f s) = tf_next s"
  "step (on_machine f s) = step s" "unimp (on_machine f s) = unimp s"
  "machine.truncate (on_machine f s) = f (machine.truncate s)"
  by (simp_all add: on_machine_def machine.defs run.defs)

section \<open>How an instruction ends\<close>

text \<open>
  \<open>Next\<close> is the source's \<open>break\<close> out of the opcode switch, \<open>Fini\<close> its
  \<open>goto fini\<close> and \<open>Ret\<close> its \<open>return 0\<close>.
\<close>

datatype ctl = Next | Fini | Ret

definition STEP :: "run \<Rightarrow> ctl \<times> run" where
  "STEP s = (if step s \<noteq> 0 then (Ret, s) else (Next, s))"

definition STEP2 :: "run \<Rightarrow> ctl \<times> run" where
  "STEP2 s = (if step s \<noteq> 0 then (Ret, s\<lparr>ip := addr s\<rparr>) else (Next, s))"

text \<open>\<open>unimp = 1; goto fini;\<close>\<close>

definition not_implemented :: "run \<Rightarrow> ctl \<times> run" where
  "not_implemented s = (Fini, s\<lparr>unimp := True\<rparr>)"

text \<open>The call of another opcode map: an address of 0 is an opcode it does not know.\<close>

definition run_map :: "(u32 \<Rightarrow> machine \<Rightarrow> u32 \<times> machine) \<Rightarrow> run \<Rightarrow> ctl \<times> run" where
  "run_map f s = (let
     (a, m) = f (addr s) (machine.truncate s);
     s = (on_machine (\<lambda>_. m) s)\<lparr>addr := a\<rparr>
   in if addr s = 0 then not_implemented s
      else if quit s \<noteq> 0 then (Fini, s\<lparr>ip := addr s\<rparr>)
      else (Next, s))"

definition run_map_step :: "(u32 \<Rightarrow> int \<Rightarrow> machine \<Rightarrow> u32 \<times> int \<times> machine) \<Rightarrow> run \<Rightarrow> ctl \<times> run" where
  "run_map_step f s = (let
     (a, st, m) = f (addr s) (step s) (machine.truncate s);
     s = (on_machine (\<lambda>_. m) s)\<lparr>addr := a, step := st\<rparr>
   in if addr s = 0 then not_implemented s
      else if step s = 2 then STEP2 s
      else if quit s \<noteq> 0 then (Fini, s\<lparr>ip := addr s\<rparr>)
      else (Next, s))"

section \<open>Operand updates\<close>

text \<open>\<open>EB->byte[0] = OP8(emu, EB->byte[0], ...)\<close> and the same at 32 bits.\<close>

definition upd8 :: "loc \<Rightarrow> (run \<Rightarrow> u8 \<Rightarrow> u8 \<times> run) \<Rightarrow> run \<Rightarrow> run" where
  "upd8 l f s = (let (v, s) = f s (rd8 s l) in wr8 l v s)"

definition upd32 :: "loc \<Rightarrow> (run \<Rightarrow> u32 \<Rightarrow> u32 \<times> run) \<Rightarrow> run \<Rightarrow> run" where
  "upd32 l f s = (let (v, s) = f s (rd32 s l) in wr32 l v s)"

abbreviation (input) AL :: loc where "AL \<equiv> LReg rAX 0"
abbreviation (input) AH :: loc where "AH \<equiv> LReg rAX 1"
abbreviation (input) EAX :: loc where "EAX \<equiv> LReg rAX 0"

end
