(* ===== verification/InterpAlu.thy ===== *)
theory InterpAlu
  imports InterpBase
begin

unbundle bit_operations_syntax

text \<open>
  The arithmetic instructions of \<open>Run\<close> in \<open>src/emu/x86run.c\<close>: the blocks the macro
  \<open>GO\<close> builds, the immediate groups, the shift groups, the one-operand group and the
  decimal adjustments. Each is a call of an operation of the theories on \<open>x86primop\<close> with the
  operands the instruction's bytes name.
\<close>

section \<open>ADD, OR, ADC, SBB, AND, SUB, XOR and CMP\<close>

definition GO :: "u8 \<Rightarrow> (run \<Rightarrow> u8 \<Rightarrow> u8 \<Rightarrow> u8 \<times> run) \<Rightarrow> (run \<Rightarrow> u32 \<Rightarrow> u32 \<Rightarrow> u32 \<times> run) \<Rightarrow> run \<Rightarrow> run" where
  "GO k OP8 OP32 s = (
     if k = 0 then let (nextop, s) = F8 s; (EB, s) = geteb nextop s in
       upd8 EB (\<lambda>s d. OP8 s d (rd8 s (GB nextop))) s
     else if k = 1 then let (nextop, s) = F8 s; (ED, s) = geted nextop s in
       upd32 ED (\<lambda>s d. OP32 s d (rd32 s (GD nextop))) s
     else if k = 2 then let (nextop, s) = F8 s; (EB, s) = geteb nextop s in
       upd8 (GB nextop) (\<lambda>s d. OP8 s d (rd8 s EB)) s
     else if k = 3 then let (nextop, s) = F8 s; (ED, s) = geted nextop s in
       upd32 (GD nextop) (\<lambda>s d. OP32 s d (rd32 s ED)) s
     else if k = 4 then let (i, s) = F8 s in upd8 AL (\<lambda>s d. OP8 s d i) s
     else let (i, s) = F32 s in upd32 EAX (\<lambda>s d. OP32 s d i) s)"

definition ops_GO :: "u8 \<Rightarrow> run \<Rightarrow> run" where
  "ops_GO opcode s = (let k = opcode AND 7; B = opcode AND 0x38 in
     if B = 0x00 then GO k add8 add32 s
     else if B = 0x08 then GO k or8 or32 s
     else if B = 0x10 then GO k adc8 adc32 s
     else if B = 0x18 then GO k sbb8 sbb32 s
     else if B = 0x20 then GO k and8 and32 s
     else if B = 0x28 then GO k sub8 sub32 s
     else GO k xor8 xor32 s)"

definition ops_cmp :: "u8 \<Rightarrow> run \<Rightarrow> run" where
  "ops_cmp opcode s = (
     if opcode = 0x38 then let (nextop, s) = F8 s; (EB, s) = geteb nextop s in
       snd (cmp8 s (rd8 s EB) (rd8 s (GB nextop)))
     else if opcode = 0x39 then let (nextop, s) = F8 s; (ED, s) = geted nextop s in
       snd (cmp32 s (rd32 s ED) (rd32 s (GD nextop)))
     else if opcode = 0x3A then let (nextop, s) = F8 s; (EB, s) = geteb nextop s in
       snd (cmp8 s (rd8 s (GB nextop)) (rd8 s EB))
     else if opcode = 0x3B then let (nextop, s) = F8 s; (ED, s) = geted nextop s in
       snd (cmp32 s (rd32 s (GD nextop)) (rd32 s ED))
     else if opcode = 0x3C then let (i, s) = F8 s in snd (cmp8 s (rd8 s AL) i)
     else let (i, s) = F32 s in snd (cmp32 s (rd32 s EAX) i))"

section \<open>Register INC and DEC\<close>

definition ops_inc_dec :: "u8 \<Rightarrow> run \<Rightarrow> run" where
  "ops_inc_dec opcode s = (let r = LReg (rm_field opcode) 0 in
     if opcode < 0x48 then upd32 r inc32 s else upd32 r dec32 s)"

section \<open>Products of two operands\<close>

definition ops_imul :: "u8 \<Rightarrow> run \<Rightarrow> run" where
  "ops_imul opcode s = (
     if opcode = 0x69 then let (nextop, s) = F8 s; (ED, s) = geted nextop s; (tmp32u, s) = F32 s;
       (v, s) = imul32 s (rd32 s ED) tmp32u in wr32 (GD nextop) v s
     else let (nextop, s) = F8 s; (ED, s) = geted nextop s; (tmp32s, s) = F8S s;
       (v, s) = imul32 s (rd32 s ED) tmp32s in wr32 (GD nextop) v s)"

section \<open>The groups with an immediate\<close>

definition grp1_8 :: "u8 \<Rightarrow> loc \<Rightarrow> u8 \<Rightarrow> run \<Rightarrow> run" where
  "grp1_8 k EB tmp8u s = (
     if k = 0 then upd8 EB (\<lambda>s d. add8 s d tmp8u) s
     else if k = 1 then upd8 EB (\<lambda>s d. or8 s d tmp8u) s
     else if k = 2 then upd8 EB (\<lambda>s d. adc8 s d tmp8u) s
     else if k = 3 then upd8 EB (\<lambda>s d. sbb8 s d tmp8u) s
     else if k = 4 then upd8 EB (\<lambda>s d. and8 s d tmp8u) s
     else if k = 5 then upd8 EB (\<lambda>s d. sub8 s d tmp8u) s
     else if k = 6 then upd8 EB (\<lambda>s d. xor8 s d tmp8u) s
     else snd (cmp8 s (rd8 s EB) tmp8u))"

definition grp1_32 :: "u8 \<Rightarrow> loc \<Rightarrow> u32 \<Rightarrow> run \<Rightarrow> run" where
  "grp1_32 k ED tmp32u s = (
     if k = 0 then upd32 ED (\<lambda>s d. add32 s d tmp32u) s
     else if k = 1 then upd32 ED (\<lambda>s d. or32 s d tmp32u) s
     else if k = 2 then upd32 ED (\<lambda>s d. adc32 s d tmp32u) s
     else if k = 3 then upd32 ED (\<lambda>s d. sbb32 s d tmp32u) s
     else if k = 4 then upd32 ED (\<lambda>s d. and32 s d tmp32u) s
     else if k = 5 then upd32 ED (\<lambda>s d. sub32 s d tmp32u) s
     else if k = 6 then upd32 ED (\<lambda>s d. xor32 s d tmp32u) s
     else snd (cmp32 s (rd32 s ED) tmp32u))"

definition ops_grp1 :: "u8 \<Rightarrow> run \<Rightarrow> run" where
  "ops_grp1 opcode s = (
     if opcode = 0x80 \<or> opcode = 0x82 then let (nextop, s) = F8 s; (EB, s) = geteb nextop s; (tmp8u, s) = F8 s in
       grp1_8 (drop_bit 3 nextop AND 7) EB tmp8u s
     else let (nextop, s) = F8 s; (ED, s) = geted nextop s; (tmp32s, s) = (if opcode = 0x83 then F8S s else F32 s) in
       grp1_32 (drop_bit 3 nextop AND 7) ED tmp32s s)"

definition ops_test :: "u8 \<Rightarrow> run \<Rightarrow> run" where
  "ops_test opcode s = (
     if opcode = 0x84 then let (nextop, s) = F8 s; (EB, s) = geteb nextop s in test8 s (rd8 s EB) (rd8 s (GB nextop))
     else let (nextop, s) = F8 s; (ED, s) = geted nextop s in test32 s (rd32 s ED) (rd32 s (GD nextop)))"

definition ops_test_imm :: "u8 \<Rightarrow> run \<Rightarrow> run" where
  "ops_test_imm opcode s = (
     if opcode = 0xA8 then let (i, s) = F8 s in test8 s (rd8 s AL) i
     else let (i, s) = F32 s in test32 s (rd32 s EAX) i)"

section \<open>Shifts and rotates\<close>

definition grp2_8 :: "u8 \<Rightarrow> loc \<Rightarrow> u8 \<Rightarrow> run \<Rightarrow> run" where
  "grp2_8 k EB tmp8u s = (
     if k = 0 then upd8 EB (\<lambda>s d. rol8 s d tmp8u) s
     else if k = 1 then upd8 EB (\<lambda>s d. ror8 s d tmp8u) s
     else if k = 2 then upd8 EB (\<lambda>s d. rcl8 s d tmp8u) s
     else if k = 3 then upd8 EB (\<lambda>s d. rcr8 s d tmp8u) s
     else if k = 4 \<or> k = 6 then upd8 EB (\<lambda>s d. shl8 s d tmp8u) s
     else if k = 5 then upd8 EB (\<lambda>s d. shr8 s d tmp8u) s
     else upd8 EB (\<lambda>s d. sar8 s d tmp8u) s)"

definition grp2_32 :: "u8 \<Rightarrow> loc \<Rightarrow> u8 \<Rightarrow> run \<Rightarrow> run" where
  "grp2_32 k ED tmp8u s = (
     if k = 0 then upd32 ED (\<lambda>s d. rol32 s d tmp8u) s
     else if k = 1 then upd32 ED (\<lambda>s d. ror32 s d tmp8u) s
     else if k = 2 then upd32 ED (\<lambda>s d. rcl32 s d tmp8u) s
     else if k = 3 then upd32 ED (\<lambda>s d. rcr32 s d tmp8u) s
     else if k = 4 \<or> k = 6 then upd32 ED (\<lambda>s d. shl32 s d tmp8u) s
     else if k = 5 then upd32 ED (\<lambda>s d. shr32 s d tmp8u) s
     else upd32 ED (\<lambda>s d. sar32 s d tmp8u) s)"

definition ops_grp2_imm :: "u8 \<Rightarrow> run \<Rightarrow> run" where
  "ops_grp2_imm opcode s = (
     if opcode = 0xC0 then let (nextop, s) = F8 s; (EB, s) = geteb nextop s; (tmp8u, s) = F8 s in
       grp2_8 (drop_bit 3 nextop AND 7) EB tmp8u s
     else let (nextop, s) = F8 s; (ED, s) = geted nextop s; (tmp8u, s) = F8 s in
       grp2_32 (drop_bit 3 nextop AND 7) ED tmp8u s)"

definition ops_grp2 :: "u8 \<Rightarrow> run \<Rightarrow> run" where
  "ops_grp2 opcode s = (
     if opcode = 0xD0 \<or> opcode = 0xD2 then let (nextop, s) = F8 s; (EB, s) = geteb nextop s;
       tmp8u = (if opcode = 0xD0 then 1 else reg8 s rCX 0) in
       grp2_8 (drop_bit 3 nextop AND 7) EB tmp8u s
     else let (nextop, s) = F8 s; (ED, s) = geted nextop s;
       tmp8u = (if opcode = 0xD1 then 1 else reg8 s rCX 0) in
       grp2_32 (drop_bit 3 nextop AND 7) ED tmp8u s)"

section \<open>The one-operand group\<close>

text \<open>A zero divisor raises the signal first; \<open>div8\<close> and the others then report it too.\<close>

definition grp3_8 :: "env \<Rightarrow> u8 \<Rightarrow> loc \<Rightarrow> run \<Rightarrow> run" where
  "grp3_8 env k EB s = (
     if k = 0 \<or> k = 1 then let (tmp8u, s) = F8 s in test8 s (rd8 s EB) tmp8u
     else if k = 2 then upd8 EB not8 s
     else if k = 3 then upd8 EB neg8 s
     else if k = 4 then mul8 s (rd8 s EB)
     else if k = 5 then imul8 s (rd8 s EB)
     else if k = 6 then let s = (if rd8 s EB = 0 then on_machine (emit_div0 env (ip s) 0) s else s) in div8 s (rd8 s EB)
     else let s = (if rd8 s EB = 0 then on_machine (emit_div0 env (ip s) 0) s else s) in idiv8 s (rd8 s EB))"

definition grp3_32 :: "env \<Rightarrow> u8 \<Rightarrow> loc \<Rightarrow> run \<Rightarrow> run" where
  "grp3_32 env k ED s = (
     if k = 0 \<or> k = 1 then let (tmp32u, s) = F32 s in test32 s (rd32 s ED) tmp32u
     else if k = 2 then upd32 ED not32 s
     else if k = 3 then upd32 ED neg32 s
     else if k = 4 then mul32_eax s (rd32 s ED)
     else if k = 5 then imul32_eax s (rd32 s ED)
     else if k = 6 then let s = (if rd32 s ED = 0 then on_machine (emit_div0 env (ip s) 0) s else s) in div32 s (rd32 s ED)
     else let s = (if rd32 s ED = 0 then on_machine (emit_div0 env (ip s) 0) s else s) in idiv32 s (rd32 s ED))"

definition ops_grp3 :: "env \<Rightarrow> u8 \<Rightarrow> run \<Rightarrow> run" where
  "ops_grp3 env opcode s = (
     if opcode = 0xF6 then let (nextop, s) = F8 s; (EB, s) = geteb nextop s in grp3_8 env (drop_bit 3 nextop AND 7) EB s
     else let (nextop, s) = F8 s; (ED, s) = geted nextop s in grp3_32 env (drop_bit 3 nextop AND 7) ED s)"

section \<open>Decimal adjustments\<close>

definition ops_bcd :: "u8 \<Rightarrow> run \<Rightarrow> run" where
  "ops_bcd opcode s = (
     if opcode = 0x27 then upd8 AL daa8 s
     else if opcode = 0x2F then upd8 AL das8 s
     else if opcode = 0x37 then let (v, s) = aaa16 s (reg16 s rAX) in set_reg16 rAX v s
     else let (v, s) = aas16 s (reg16 s rAX) in set_reg16 rAX v s)"

definition ops_bcd_imm :: "u8 \<Rightarrow> run \<Rightarrow> run" where
  "ops_bcd_imm opcode s = (
     if opcode = 0xD4 then let (i, s) = F8 s; (v, s) = aam16 s (reg8 s rAX 0) i in set_reg16 rAX v s
     else let (i, s) = F8 s; (v, s) = aad16 s (reg16 s rAX) i in set_reg16 rAX v s)"

end
