(* ===== verification/InterpMove.thy ===== *)
theory InterpMove
  imports InterpBase
begin

unbundle bit_operations_syntax

text \<open>
  The data movement of \<open>Run\<close> in \<open>src/emu/x86run.c\<close>: moves, exchanges, segment
  registers, the stack instructions, the flag register's transfers, and the string instructions
  with their repeat prefixes. A repeated string instruction reads its count once and runs its loop on
  a copy of it, so each loop here recurses on that count. The locked exchange of the source is one
  step here.
\<close>

section \<open>Segment registers\<close>

text \<open>
  The arrays \<open>segs\<close> and \<open>segs_serial\<close> have six entries and the index has three bits. The
  two entries after \<open>segs\<close> are padding; those after \<open>segs_serial\<close> are \<open>quit\<close> and
  \<open>error\<close>.
\<close>

definition set_seg :: "3 word \<Rightarrow> u16 \<Rightarrow> run \<Rightarrow> run" where
  "set_seg i v s = s\<lparr>segs := (segs s)(i := v)\<rparr>"

definition clear_serial :: "3 word \<Rightarrow> run \<Rightarrow> run" where
  "clear_serial i s = (
     if i = 6 then s\<lparr>quit := 0\<rparr>
     else if i = 7 then s\<lparr>err := 0\<rparr>
     else s\<lparr>segs_serial := (segs_serial s)(i := 0)\<rparr>)"

definition PushSeg :: "3 word \<Rightarrow> run \<Rightarrow> run" where
  "PushSeg i s = Push (ucast (segs s i)) s"

definition PopSeg :: "3 word \<Rightarrow> run \<Rightarrow> run" where
  "PopSeg i s = (let (v, s) = Pop s; s = set_seg i (ucast v) s in clear_serial i s)"

definition ops_seg :: "u8 \<Rightarrow> run \<Rightarrow> run" where
  "ops_seg opcode s = (
     if opcode = 0x06 then PushSeg sES s
     else if opcode = 0x07 then PopSeg sES s
     else if opcode = 0x0E then PushSeg sCS s
     else if opcode = 0x16 then PushSeg sSS s
     else if opcode = 0x17 then PopSeg sSS s
     else if opcode = 0x1E then PushSeg sDS s
     else PopSeg sDS s)"

section \<open>PUSH and POP of registers\<close>

definition ops_push_pop :: "u8 \<Rightarrow> run \<Rightarrow> run" where
  "ops_push_pop opcode s = (let r = rm_field opcode in
     if opcode = 0x54 then let tmp32u = reg32 s rSP in Push tmp32u s
     else if opcode < 0x58 then Push (reg32 s r) s
     else let (v, s) = Pop s in set_reg32 r v s)"

definition PUSHAD :: "run \<Rightarrow> run" where
  "PUSHAD s = (let
     tmp32u = reg32 s rSP;
     s = Push (reg32 s rAX) s;
     s = Push (reg32 s rCX) s;
     s = Push (reg32 s rDX) s;
     s = Push (reg32 s rBX) s;
     s = Push tmp32u s;
     s = Push (reg32 s rBP) s;
     s = Push (reg32 s rSI) s
   in Push (reg32 s rDI) s)"

definition pop_to :: "3 word \<Rightarrow> run \<Rightarrow> run" where
  "pop_to r s = (let (v, s) = Pop s in set_reg32 r v s)"

definition POPAD :: "run \<Rightarrow> run" where
  "POPAD s = (let
     s = pop_to rDI s;
     s = pop_to rSI s;
     s = pop_to rBP s;
     s = set_reg32 rSP (reg32 s rSP + 4) s;
     s = pop_to rBX s;
     s = pop_to rDX s;
     s = pop_to rCX s
   in pop_to rAX s)"

text \<open>\<open>BOUND\<close> and \<open>ARPL\<close> decode their operand and do not test it.\<close>

definition ops_60_63 :: "u8 \<Rightarrow> run \<Rightarrow> run" where
  "ops_60_63 opcode s = (
     if opcode = 0x60 then PUSHAD s
     else if opcode = 0x61 then POPAD s
     else if opcode = 0x62 then let (nextop, s) = F8 s in snd (geted nextop s)
     else let (nextop, s) = F8 s in SET_FLAG F_ZF (snd (geted nextop s)))"

definition ops_push_imm :: "u8 \<Rightarrow> run \<Rightarrow> run" where
  "ops_push_imm opcode s = (
     if opcode = 0x68 then let (i, s) = F32 s in Push i s
     else let (tmp32s, s) = F8S s in Push tmp32s s)"

section \<open>XCHG, MOV and LEA\<close>

definition ops_xchg :: "u8 \<Rightarrow> run \<Rightarrow> run" where
  "ops_xchg opcode s = (
     if opcode = 0x86 then let (nextop, s) = F8 s; (EB, s) = geteb nextop s in
       if MODREG nextop then let
         tmp8u = rd8 s (GB nextop);
         s = wr8 (GB nextop) (rd8 s EB) s
       in wr8 EB tmp8u s
       else let
         tmp8u = rd8 s EB;
         s = wr8 EB (rd8 s (GB nextop)) s
       in wr8 (GB nextop) tmp8u s
     else let (nextop, s) = F8 s; (ED, s) = geted nextop s in
       if MODREG nextop then let
         tmp32u = rd32 s (GD nextop);
         s = wr32 (GD nextop) (rd32 s ED) s
       in wr32 ED tmp32u s
       else let
         tmp32u = rd32 s ED;
         s = wr32 ED (rd32 s (GD nextop)) s
       in wr32 (GD nextop) tmp32u s)"

definition ops_mov :: "u8 \<Rightarrow> run \<Rightarrow> run" where
  "ops_mov opcode s = (
     if opcode = 0x88 then let (nextop, s) = F8 s; (EB, s) = geteb nextop s in wr8 EB (rd8 s (GB nextop)) s
     else if opcode = 0x89 then let (nextop, s) = F8 s; (ED, s) = geted nextop s in wr32 ED (rd32 s (GD nextop)) s
     else if opcode = 0x8A then let (nextop, s) = F8 s; (EB, s) = geteb nextop s in wr8 (GB nextop) (rd8 s EB) s
     else if opcode = 0x8B then let (nextop, s) = F8 s; (ED, s) = geted nextop s in wr32 (GD nextop) (rd32 s ED) s
     else let (nextop, s) = F8 s; (ED, s) = geted nextop s; v = segs s (reg_field nextop) in
       if MODREG nextop then wr32 ED (ucast v) s else wr16 ED v s)"

definition LEA :: "env \<Rightarrow> run \<Rightarrow> run" where
  "LEA env s = (let (nextop, s) = F8 s; (ED, s) = geted nextop s in
     wr32 (GD nextop) (case ED of LReg r k \<Rightarrow> reg_address env r | LMem a \<Rightarrow> a) s)"

definition MOV_seg :: "run \<Rightarrow> run" where
  "MOV_seg s = (let
     (nextop, s) = F8 s; (EW, s) = geted nextop s;
     i = reg_field nextop;
     s = set_seg i (rd16 s EW) s;
     s = clear_serial i s
   in if i = sFS then s\<lparr>default_fs := rd16 s EW\<rparr> else s)"

definition POP_Ed :: "run \<Rightarrow> run" where
  "POP_Ed s = (let (nextop, s) = F8 s in
     if MODREG nextop then let (v, s) = Pop s in set_reg32 (rm_field nextop) v s
     else let
       (tmp32u, s) = Pop s;
       (ED, s) = geted nextop s;
       s = set_reg32 rSP (reg32 s rSP - 4) s;
       s = wr32 ED tmp32u s
     in set_reg32 rSP (reg32 s rSP + 4) s)"

definition ops_90_99 :: "u8 \<Rightarrow> run \<Rightarrow> run" where
  "ops_90_99 opcode s = (
     if opcode = 0x90 then s
     else if opcode < 0x98 then let
       tmp32u = reg32 s rAX;
       s = set_reg32 rAX (reg32 s (rm_field opcode)) s
     in set_reg32 (rm_field opcode) tmp32u s
     else if opcode = 0x98 then set_reg32 rAX (scast (reg16 s rAX)) s
     else set_reg32 rDX (if reg32 s rAX AND 0x80000000 \<noteq> 0 then 0xFFFFFFFF else 0) s)"

section \<open>The flag register\<close>

definition PUSHF :: "run \<Rightarrow> run" where
  "PUSHF s = (let s = CHECK_FLAGS s in Push (eflags s) s)"

definition POPF :: "run \<Rightarrow> run" where
  "POPF s = (let
     s = (if ACCESS_FLAG F_TF s \<and> tf_next s = 0 then s\<lparr>tf_next := tf_next s - 1\<rparr> else s);
     (v, s) = Pop s;
     s = s\<lparr>eflags := (v AND 0x3F7FD7) OR 2\<rparr>;
     s = RESET_FLAGS s
   in if ACCESS_FLAG F_TF s then s\<lparr>tf_next := tf_next s + 1\<rparr> else s)"

definition SAHF :: "run \<Rightarrow> run" where
  "SAHF s = (let
     tmp8u = reg8 s rAX 1;
     s = CONDITIONAL_SET_FLAG (tmp8u AND 0x01 \<noteq> 0) F_CF s;
     s = CONDITIONAL_SET_FLAG (tmp8u AND 0x04 \<noteq> 0) F_PF s;
     s = CONDITIONAL_SET_FLAG (tmp8u AND 0x10 \<noteq> 0) F_AF s;
     s = CONDITIONAL_SET_FLAG (tmp8u AND 0x40 \<noteq> 0) F_ZF s;
     s = CONDITIONAL_SET_FLAG (tmp8u AND 0x80 \<noteq> 0) F_SF s
   in RESET_FLAGS s)"

definition LAHF :: "run \<Rightarrow> run" where
  "LAHF s = (let s = CHECK_FLAGS s in set_reg8 rAX 1 (ucast (eflags s)) s)"

definition ops_9B_9F :: "u8 \<Rightarrow> run \<Rightarrow> run" where
  "ops_9B_9F opcode s = (
     if opcode = 0x9B then s
     else if opcode = 0x9C then PUSHF s
     else if opcode = 0x9D then POPF s
     else if opcode = 0x9E then SAHF s
     else LAHF s)"

definition ops_mov_abs :: "u8 \<Rightarrow> run \<Rightarrow> run" where
  "ops_mov_abs opcode s = (let (a, s) = F32 s in
     if opcode = 0xA0 then set_reg8 rAX 0 (ld8 s a) s
     else if opcode = 0xA1 then set_reg32 rAX (ld32 s a) s
     else if opcode = 0xA2 then st8 a (reg8 s rAX 0) s
     else st32 a (reg32 s rAX) s)"

definition ops_mov_imm :: "u8 \<Rightarrow> run \<Rightarrow> run" where
  "ops_mov_imm opcode s = (
     if opcode < 0xB4 then let (v, s) = F8 s in set_reg8 (ucast (opcode AND 3)) 0 v s
     else if opcode < 0xB8 then let (v, s) = F8 s in set_reg8 (ucast (opcode AND 3)) 1 v s
     else let (v, s) = F32 s in set_reg32 (rm_field opcode) v s)"

definition ops_mov_Ib :: "u8 \<Rightarrow> run \<Rightarrow> run" where
  "ops_mov_Ib opcode s = (
     if opcode = 0xC6 then let (nextop, s) = F8 s; (EB, s) = geteb nextop s; (v, s) = F8 s in wr8 EB v s
     else let (nextop, s) = F8 s; (ED, s) = geted nextop s; (v, s) = F32 s in wr32 ED v s)"

section \<open>String instructions\<close>

text \<open>\<open>while(n--) body\<close>\<close>

primrec while_dec :: "nat \<Rightarrow> (run \<Rightarrow> run) \<Rightarrow> run \<Rightarrow> run" where
  "while_dec 0 f s = s"
| "while_dec (Suc n) f s = while_dec n f (f s)"

definition dir :: "u32 \<Rightarrow> run \<Rightarrow> u32" where
  "dir k s = (if ACCESS_FLAG F_DF s then - k else k)"

definition rep_count :: "run \<Rightarrow> nat" where
  "rep_count s = (if rep s \<noteq> 0 then unat (reg32 s rCX) else 1)"

definition end_rep :: "run \<Rightarrow> run" where
  "end_rep s = (if rep s \<noteq> 0 then set_reg32 rCX 0 s else s)"

definition advance :: "3 word \<Rightarrow> u32 \<Rightarrow> run \<Rightarrow> run" where
  "advance r d s = set_reg32 r (reg32 s r + d) s"

definition movsb_body :: "u32 \<Rightarrow> run \<Rightarrow> run" where
  "movsb_body d s = (let s = st8 (reg32 s rDI) (ld8 s (reg32 s rSI)) s in advance rSI d (advance rDI d s))"

definition movsd_body :: "u32 \<Rightarrow> run \<Rightarrow> run" where
  "movsd_body d s = (let s = st32 (reg32 s rDI) (ld32 s (reg32 s rSI)) s in advance rSI d (advance rDI d s))"

definition stosb_body :: "u32 \<Rightarrow> run \<Rightarrow> run" where
  "stosb_body d s = (let s = st8 (reg32 s rDI) (reg8 s rAX 0) s in advance rDI d s)"

definition stosd_body :: "u32 \<Rightarrow> run \<Rightarrow> run" where
  "stosd_body d s = (let s = st32 (reg32 s rDI) (reg32 s rAX) s in advance rDI d s)"

definition lodsb_body :: "u32 \<Rightarrow> run \<Rightarrow> run" where
  "lodsb_body d s = (let s = set_reg8 rAX 0 (ld8 s (reg32 s rSI)) s in advance rSI d s)"

definition lodsd_body :: "u32 \<Rightarrow> run \<Rightarrow> run" where
  "lodsd_body d s = (let s = set_reg32 rAX (ld32 s (reg32 s rSI)) s in advance rSI d s)"

definition MOVSB :: "run \<Rightarrow> run" where
  "MOVSB s = end_rep (while_dec (rep_count s) (movsb_body (dir 1 s)) s)"

definition MOVSD :: "run \<Rightarrow> run" where
  "MOVSD s = end_rep (while_dec (rep_count s) (movsd_body (dir 4 s)) s)"

definition STOSB :: "run \<Rightarrow> run" where
  "STOSB s = end_rep (while_dec (rep_count s) (stosb_body (dir 1 s)) s)"

definition STOSD :: "run \<Rightarrow> run" where
  "STOSD s = end_rep (while_dec (rep_count s) (stosd_body (dir 4 s)) s)"

definition LODSB :: "run \<Rightarrow> run" where
  "LODSB s = end_rep (while_dec (rep_count s) (lodsb_body (dir 1 s)) s)"

definition LODSD :: "run \<Rightarrow> run" where
  "LODSD s = end_rep (while_dec (rep_count s) (lodsd_body (dir 4 s)) s)"

text \<open>
  The comparing loops: \<open>eq\<close> says whether to leave on equality (prefix F2) or on difference
  (prefix F3). They return the count that is left, the elements last compared and the state.
\<close>

primrec scasb_loop :: "nat \<Rightarrow> bool \<Rightarrow> u32 \<Rightarrow> u8 \<Rightarrow> run \<Rightarrow> nat \<times> u8 \<times> run" where
  "scasb_loop 0 eq d t s = (0, t, s)"
| "scasb_loop (Suc n) eq d t s = (let
     t = ld8 s (reg32 s rDI);
     s = advance rDI d s
   in if (reg8 s rAX 0 = t) = eq then (n, t, s) else scasb_loop n eq d t s)"

primrec scasd_loop :: "nat \<Rightarrow> bool \<Rightarrow> u32 \<Rightarrow> u32 \<Rightarrow> run \<Rightarrow> nat \<times> u32 \<times> run" where
  "scasd_loop 0 eq d t s = (0, t, s)"
| "scasd_loop (Suc n) eq d t s = (let
     t = ld32 s (reg32 s rDI);
     s = advance rDI d s
   in if (reg32 s rAX = t) = eq then (n, t, s) else scasd_loop n eq d t s)"

primrec cmpsb_loop :: "nat \<Rightarrow> bool \<Rightarrow> u32 \<Rightarrow> u8 \<Rightarrow> u8 \<Rightarrow> run \<Rightarrow> nat \<times> u8 \<times> u8 \<times> run" where
  "cmpsb_loop 0 eq d t t2 s = (0, t, t2, s)"
| "cmpsb_loop (Suc n) eq d t t2 s = (let
     t = ld8 s (reg32 s rDI);
     t2 = ld8 s (reg32 s rSI);
     s = advance rSI d (advance rDI d s)
   in if (t = t2) = eq then (n, t, t2, s) else cmpsb_loop n eq d t t2 s)"

primrec cmpsd_loop :: "nat \<Rightarrow> bool \<Rightarrow> u32 \<Rightarrow> u32 \<Rightarrow> u32 \<Rightarrow> run \<Rightarrow> nat \<times> u32 \<times> u32 \<times> run" where
  "cmpsd_loop 0 eq d t t2 s = (0, t, t2, s)"
| "cmpsd_loop (Suc n) eq d t t2 s = (let
     t = ld32 s (reg32 s rDI);
     t2 = ld32 s (reg32 s rSI);
     s = advance rSI d (advance rDI d s)
   in if (t = t2) = eq then (n, t, t2, s) else cmpsd_loop n eq d t t2 s)"

definition SCASB :: "run \<Rightarrow> run" where
  "SCASB s = (let d = dir 1 s in
     if rep s = 0 then advance rDI d (snd (cmp8 s (reg8 s rAX 0) (ld8 s (reg32 s rDI))))
     else let
       (n, t, s) = scasb_loop (unat (reg32 s rCX)) (rep s = 1) d 0 s;
       s = (if reg32 s rCX \<noteq> 0 then snd (cmp8 s (reg8 s rAX 0) t) else s)
     in set_reg32 rCX (of_nat n) s)"

definition SCASD :: "run \<Rightarrow> run" where
  "SCASD s = (let d = dir 4 s in
     if rep s = 0 then advance rDI d (snd (cmp32 s (reg32 s rAX) (ld32 s (reg32 s rDI))))
     else let
       (n, t, s) = scasd_loop (unat (reg32 s rCX)) (rep s = 1) d 0 s;
       s = (if reg32 s rCX \<noteq> 0 then snd (cmp32 s (reg32 s rAX) t) else s)
     in set_reg32 rCX (of_nat n) s)"

definition CMPSB :: "run \<Rightarrow> run" where
  "CMPSB s = (let d = dir 1 s in
     if rep s = 0 then let
       t = ld8 s (reg32 s rDI);
       t2 = ld8 s (reg32 s rSI);
       s = advance rSI d (advance rDI d s)
     in snd (cmp8 s t2 t)
     else let
       (n, t, t2, s) = cmpsb_loop (unat (reg32 s rCX)) (rep s = 1) d 0 0 s;
       s = (if reg32 s rCX \<noteq> 0 then snd (cmp8 s t2 t) else s)
     in set_reg32 rCX (of_nat n) s)"

definition CMPSD :: "run \<Rightarrow> run" where
  "CMPSD s = (let d = dir 4 s in
     if rep s = 0 then let
       t = ld32 s (reg32 s rDI);
       t2 = ld32 s (reg32 s rSI);
       s = advance rSI d (advance rDI d s)
     in snd (cmp32 s t2 t)
     else let
       (n, t, t2, s) = cmpsd_loop (unat (reg32 s rCX)) (rep s = 1) d 0 0 s;
       s = (if reg32 s rCX \<noteq> 0 then snd (cmp32 s t2 t) else s)
     in set_reg32 rCX (of_nat n) s)"

definition ops_string :: "u8 \<Rightarrow> run \<Rightarrow> run" where
  "ops_string opcode s = (
     if opcode = 0xA4 then MOVSB s
     else if opcode = 0xA5 then MOVSD s
     else if opcode = 0xA6 then CMPSB s
     else if opcode = 0xA7 then CMPSD s
     else if opcode = 0xAA then STOSB s
     else if opcode = 0xAB then STOSD s
     else if opcode = 0xAC then LODSB s
     else if opcode = 0xAD then LODSD s
     else if opcode = 0xAE then SCASB s
     else SCASD s)"

end
