(* ===== verification/InterpFlow.thy ===== *)
theory InterpFlow
  imports InterpBase
begin

unbundle bit_operations_syntax

text \<open>
  The control flow of \<open>Run\<close> in \<open>src/emu/x86run.c\<close>: conditional jumps, calls, returns,
  frames, loops, software interrupts, the flag instructions and the last opcode group. An operation
  returns how the instruction ends and the state; the code address is the local \<open>addr\<close>, which
  \<open>Run\<close> stores into \<open>EIP\<close> after the instruction.
\<close>

section \<open>Conditions\<close>

text \<open>The sixteen conditions of \<open>GOCOND\<close>, by the low four bits of the opcode.\<close>

definition cond :: "u8 \<Rightarrow> 'a emu_scheme \<Rightarrow> bool" where
  "cond k s = (
     if k = 0x0 then ACCESS_FLAG F_OF s
     else if k = 0x1 then \<not> ACCESS_FLAG F_OF s
     else if k = 0x2 then ACCESS_FLAG F_CF s
     else if k = 0x3 then \<not> ACCESS_FLAG F_CF s
     else if k = 0x4 then ACCESS_FLAG F_ZF s
     else if k = 0x5 then \<not> ACCESS_FLAG F_ZF s
     else if k = 0x6 then ACCESS_FLAG F_ZF s \<or> ACCESS_FLAG F_CF s
     else if k = 0x7 then \<not> (ACCESS_FLAG F_ZF s \<or> ACCESS_FLAG F_CF s)
     else if k = 0x8 then ACCESS_FLAG F_SF s
     else if k = 0x9 then \<not> ACCESS_FLAG F_SF s
     else if k = 0xA then ACCESS_FLAG F_PF s
     else if k = 0xB then \<not> ACCESS_FLAG F_PF s
     else if k = 0xC then ACCESS_FLAG F_SF s \<noteq> ACCESS_FLAG F_OF s
     else if k = 0xD then ACCESS_FLAG F_SF s = ACCESS_FLAG F_OF s
     else if k = 0xE then ACCESS_FLAG F_ZF s \<or> ACCESS_FLAG F_SF s \<noteq> ACCESS_FLAG F_OF s
     else \<not> ACCESS_FLAG F_ZF s \<and> ACCESS_FLAG F_SF s = ACCESS_FLAG F_OF s)"

definition jump :: "u32 \<Rightarrow> run \<Rightarrow> run" where
  "jump d s = s\<lparr>addr := addr s + d\<rparr>"

definition Jcc :: "u8 \<Rightarrow> run \<Rightarrow> run" where
  "Jcc opcode s = (let
     (tmp8s, s) = F8S s;
     s = CHECK_FLAGS s
   in if cond (opcode AND 0xF) s then jump tmp8s s else s)"

section \<open>Loops\<close>

definition ops_loop :: "u8 \<Rightarrow> run \<Rightarrow> ctl \<times> run" where
  "ops_loop opcode s = (
     if opcode = 0xE0 then let
       s = CHECK_FLAGS s; (tmp8s, s) = F8S s;
       s = set_reg32 rCX (reg32 s rCX - 1) s;
       s = (if reg32 s rCX \<noteq> 0 \<and> \<not> ACCESS_FLAG F_ZF s then jump tmp8s s else s)
     in STEP2 s
     else if opcode = 0xE1 then let
       s = CHECK_FLAGS s; (tmp8s, s) = F8S s;
       s = set_reg32 rCX (reg32 s rCX - 1) s;
       s = (if reg32 s rCX \<noteq> 0 \<and> ACCESS_FLAG F_ZF s then jump tmp8s s else s)
     in STEP2 s
     else if opcode = 0xE2 then let
       (tmp8s, s) = F8S s;
       s = set_reg32 rCX (reg32 s rCX - 1) s;
       s = (if reg32 s rCX \<noteq> 0 then jump tmp8s s else s)
     in STEP2 s
     else let
       (tmp8s, s) = F8S s;
       s = (if reg32 s rCX = 0 then jump tmp8s s else s)
     in STEP2 s)"

section \<open>Calls, jumps and returns\<close>

definition CALL_Id :: "env \<Rightarrow> run \<Rightarrow> ctl \<times> run" where
  "CALL_Id env s = (let
     (tmp32s, s) = F32 s;
     s = Push (addr s) s;
     s = jump tmp32s s;
     s = s\<lparr>addr := getAlternate env (addr s)\<rparr>
   in STEP2 s)"

definition JMP_Id :: "env \<Rightarrow> run \<Rightarrow> ctl \<times> run" where
  "JMP_Id env s = (let
     (tmp32s, s) = F32 s;
     s = jump tmp32s s;
     s = s\<lparr>addr := getAlternate env (addr s)\<rparr>
   in STEP2 s)"

definition JMP_Ib :: "run \<Rightarrow> ctl \<times> run" where
  "JMP_Ib s = (let (tmp32s, s) = F8S s; s = jump tmp32s s in STEP2 s)"

definition RETN_Iw :: "run \<Rightarrow> ctl \<times> run" where
  "RETN_Iw s = (let
     (tmp16u, s) = F16 s;
     (a, s) = Pop s;
     s = s\<lparr>addr := a\<rparr>;
     s = set_reg32 rSP (reg32 s rSP + ucast tmp16u) s
   in STEP2 s)"

definition RET :: "run \<Rightarrow> ctl \<times> run" where
  "RET s = (let (a, s) = Pop s; s = s\<lparr>addr := a\<rparr> in STEP2 s)"

definition PopCS :: "run \<Rightarrow> run" where
  "PopCS s = (let (v, s) = Pop s in s\<lparr>segs := (segs s)(sCS := ucast v), segs_serial := (segs_serial s)(sCS := 0)\<rparr>)"

definition FAR_RETN :: "run \<Rightarrow> ctl \<times> run" where
  "FAR_RETN s = (let
     (tmp16u, s) = F16 s;
     (a, s) = Pop s;
     s = s\<lparr>addr := a\<rparr>;
     s = PopCS s;
     s = set_reg32 rSP (reg32 s rSP + ucast tmp16u) s
   in STEP2 s)"

definition FAR_RET :: "run \<Rightarrow> ctl \<times> run" where
  "FAR_RET s = (let (a, s) = Pop s; s = s\<lparr>addr := a\<rparr>; s = PopCS s in STEP2 s)"

definition IRET :: "run \<Rightarrow> run" where
  "IRET s = (let
     (a, s) = Pop s;
     s = s\<lparr>addr := a\<rparr>;
     (v, s) = Pop s;
     s = s\<lparr>segs := (segs s)(sCS := ucast (v AND 0xFFFF)), segs_serial := (segs_serial s)(sCS := 0)\<rparr>;
     (v, s) = Pop s;
     s = s\<lparr>eflags := (v AND 0x3F7FD7) OR 2\<rparr>
   in RESET_FLAGS s)"

section \<open>Frames\<close>

text \<open>The copies of the display: \<open>for (tmp8u2 = 1; tmp8u2 < tmp8u; tmp8u2++)\<close>.\<close>

primrec enter_loop :: "nat \<Rightarrow> u32 \<Rightarrow> run \<Rightarrow> run" where
  "enter_loop 0 p s = s"
| "enter_loop (Suc n) p s = (let p = p - 4 in enter_loop n p (Push (ld32 s p) s))"

definition ENTER :: "run \<Rightarrow> run" where
  "ENTER s = (let
     (tmp16u, s) = F16 s;
     (b, s) = F8 s;
     tmp8u = b AND 0x1F;
     tmp32u = reg32 s rBP;
     s = Push (reg32 s rBP) s;
     s = set_reg32 rBP (reg32 s rSP) s;
     s = (if tmp8u \<noteq> 0 then let s = enter_loop (unat tmp8u - 1) tmp32u s in Push (reg32 s rBP) s else s)
   in set_reg32 rSP (reg32 s rSP - ucast tmp16u) s)"

definition LEAVE :: "run \<Rightarrow> run" where
  "LEAVE s = (let
     s = set_reg32 rSP (reg32 s rBP) s;
     (v, s) = Pop s
   in set_reg32 rBP v s)"

section \<open>Far pointers\<close>

text \<open>
  The word four bytes after an operand. After entry \<open>i\<close> of the register file that is the next
  entry, and after the last one the flag register, which follows in the structure.
\<close>

primrec word_after :: "run \<Rightarrow> loc \<Rightarrow> u16" where
  "word_after s (LReg r k) = (if r = rDI then ucast (eflags s) else reg16 s (r + 1))"
| "word_after s (LMem a) = ld16 s (a + 4)"

definition UnimpOpcode :: "'a emu_scheme \<Rightarrow> 'a emu_scheme" where
  "UnimpOpcode e = e\<lparr>ip := old_ip e\<rparr>"

definition load_far :: "env \<Rightarrow> 3 word \<Rightarrow> run \<Rightarrow> run" where
  "load_far env seg s = (let
     (nextop, s) = F8 s;
     s = (if MODREG nextop then let
         s = UnimpOpcode s;
         s = on_machine (emit_signal env SIGILL (ip s) 0) s;
         s = s\<lparr>quit := 1\<rparr>
       in s\<lparr>err := err s OR ERR_UNIMPL\<rparr>
       else s);
     (ED, s) = geted nextop s;
     s = s\<lparr>segs := (segs s)(seg := word_after s ED)\<rparr>;
     s = s\<lparr>segs_serial := (segs_serial s)(seg := 0)\<rparr>
   in wr32 (GD nextop) (rd32 s ED) s)"

section \<open>Interrupts and privileged instructions\<close>

text \<open>\<open>emit_signal(emu, SIGSEGV, (void*)R_EIP, 128); STEP;\<close>\<close>

definition privileged :: "env \<Rightarrow> run \<Rightarrow> ctl \<times> run" where
  "privileged env s = STEP (on_machine (emit_signal env SIGSEGV (ip s) 128) s)"

definition enter_native :: "(machine \<Rightarrow> machine) \<Rightarrow> run \<Rightarrow> ctl \<times> run" where
  "enter_native f s = (let
     s = s\<lparr>old_ip := ip s\<rparr>;
     s = s\<lparr>ip := addr s\<rparr>;
     s = on_machine f s;
     s = s\<lparr>addr := ip s\<rparr>
   in if quit s \<noteq> 0 then (Fini, s) else (Next, s))"

definition INT_Ib :: "env \<Rightarrow> run \<Rightarrow> ctl \<times> run" where
  "INT_Ib env s = (let (nextop, s) = F8 s in
     if nextop = 0x80 then enter_native (x86Syscall env) s
     else if box86_wine env \<and> nextop = 0x2D then (Next, s)
     else let s = on_machine (emit_signal env SIGSEGV (ip s) 128) s in
       if quit s \<noteq> 0 then (Fini, s) else STEP s)"

definition INTO :: "env \<Rightarrow> run \<Rightarrow> ctl \<times> run" where
  "INTO env s = (let
     s = s\<lparr>old_ip := ip s\<rparr>;
     s = CHECK_FLAGS s;
     s = (if ACCESS_FLAG F_OF s then on_machine (emit_signal env SIGSEGV (ip s) 128) s else s)
   in STEP s)"

definition ops_C2_CF :: "env \<Rightarrow> u8 \<Rightarrow> run \<Rightarrow> ctl \<times> run" where
  "ops_C2_CF env opcode s = (
     if opcode = 0xC2 then RETN_Iw s
     else if opcode = 0xC3 then RET s
     else if opcode = 0xC4 then (Next, load_far env sES s)
     else if opcode = 0xC5 then (Next, load_far env sDS s)
     else if opcode = 0xC8 then (Next, ENTER s)
     else if opcode = 0xC9 then (Next, LEAVE s)
     else if opcode = 0xCA then FAR_RETN s
     else if opcode = 0xCB then FAR_RET s
     else if opcode = 0xCC then enter_native (x86Int3 env) s
     else if opcode = 0xCD then INT_Ib env s
     else if opcode = 0xCE then INTO env s
     else (Next, IRET s))"

definition ops_E0_EF :: "env \<Rightarrow> u8 \<Rightarrow> run \<Rightarrow> ctl \<times> run" where
  "ops_E0_EF env opcode s = (
     if opcode < 0xE4 then ops_loop opcode s
     else if opcode < 0xE8 then privileged env s
     else if opcode = 0xE8 then CALL_Id env s
     else if opcode = 0xE9 then JMP_Id env s
     else if opcode = 0xEA then not_implemented s
     else if opcode = 0xEB then JMP_Ib s
     else privileged env s)"

section \<open>Flag instructions, SALC and XLAT\<close>

definition ops_flag :: "u8 \<Rightarrow> run \<Rightarrow> run" where
  "ops_flag opcode s = (
     if opcode = 0xF5 then let s = CHECK_FLAGS s in CONDITIONAL_SET_FLAG (\<not> ACCESS_FLAG F_CF s) F_CF s
     else if opcode = 0xF8 then CLEAR_FLAG F_CF (CHECK_FLAGS s)
     else if opcode = 0xF9 then SET_FLAG F_CF (CHECK_FLAGS s)
     else if opcode = 0xFC then CLEAR_FLAG F_DF s
     else SET_FLAG F_DF s)"

definition ops_D6_D7 :: "u8 \<Rightarrow> run \<Rightarrow> run" where
  "ops_D6_D7 opcode s = (
     if opcode = 0xD6 then let s = CHECK_FLAGS s in set_reg8 rAX 0 (if ACCESS_FLAG F_CF s then 0xFF else 0) s
     else set_reg8 rAX 0 (ld8 s (reg32 s rBX + ucast (reg8 s rAX 0))) s)"

section \<open>The last groups\<close>

definition GRP5_Eb :: "run \<Rightarrow> ctl \<times> run" where
  "GRP5_Eb s = (let (nextop, s) = F8 s; (EB, s) = geteb nextop s; k = drop_bit 3 nextop AND 7 in
     if k = 0 then (Next, upd8 EB inc8 s)
     else if k = 1 then (Next, upd8 EB dec8 s)
     else not_implemented s)"

definition illegal_opcode :: "u32 \<Rightarrow> run \<Rightarrow> ctl \<times> run" where
  "illegal_opcode tmp32u2 s = (let
     s = s\<lparr>old_ip := ip s\<rparr>;
     s = s\<lparr>addr := tmp32u2\<rparr>;
     s = s\<lparr>ip := tmp32u2\<rparr>;
     s = s\<lparr>quit := 1\<rparr>;
     s = s\<lparr>err := err s OR ERR_ILLEGAL\<rparr>
   in (Fini, s))"

definition set_CS :: "u16 \<Rightarrow> run \<Rightarrow> run" where
  "set_CS v s = s\<lparr>segs := (segs s)(sCS := v)\<rparr>"

definition GRP5_Ed :: "env \<Rightarrow> run \<Rightarrow> ctl \<times> run" where
  "GRP5_Ed env s = (let (nextop, s) = F8 s; tmp32u2 = addr s; k = drop_bit 3 nextop AND 7 in
     if k = 0 then let (ED, s) = geted nextop s in (Next, upd32 ED inc32 s)
     else if k = 1 then let (ED, s) = geted nextop s in (Next, upd32 ED dec32 s)
     else if k = 2 then let
       (ED, s) = geted nextop s;
       tmp32u = getAlternate env (rd32 s ED);
       s = Push (addr s) s
     in STEP2 (s\<lparr>addr := tmp32u\<rparr>)
     else if k = 3 then
       if 0xC0 < nextop then illegal_opcode tmp32u2 s
       else let
         (ED, s) = geted nextop s;
         s = Push (ucast (segs s sCS)) s;
         s = Push (addr s) s;
         s = s\<lparr>addr := getAlternate env (rd32 s ED)\<rparr>
       in (Fini, set_CS (word_after s ED) s)
     else if k = 4 then let (ED, s) = geted nextop s in STEP2 (s\<lparr>addr := getAlternate env (rd32 s ED)\<rparr>)
     else if k = 5 then
       if 0xC0 < nextop then illegal_opcode tmp32u2 s
       else let
         (ED, s) = geted nextop s;
         s = s\<lparr>addr := getAlternate env (rd32 s ED)\<rparr>
       in STEP2 (set_CS (word_after s ED) s)
     else if k = 6 then let (ED, s) = geted nextop s; tmp32u = rd32 s ED in (Next, Push tmp32u s)
     else illegal_opcode tmp32u2 s)"

definition ops_F0_FF :: "env \<Rightarrow> u8 \<Rightarrow> run \<Rightarrow> ctl \<times> run" where
  "ops_F0_FF env opcode s = (
     if opcode = 0xF0 then run_map (RunF0 env) s
     else if opcode = 0xF1 then (Next, s)
     else if opcode = 0xF2 \<or> opcode = 0xF3 then not_implemented s
     else if opcode = 0xF4 \<or> opcode = 0xFA \<or> opcode = 0xFB then privileged env s
     else if opcode = 0xFE then GRP5_Eb s
     else if opcode = 0xFF then GRP5_Ed env s
     else (Next, ops_flag opcode s))"

end
