(* ===== verification/Interp.thy ===== *)
theory Interp
  imports InterpAlu InterpMove InterpFlow
begin

unbundle bit_operations_syntax

text \<open>
  The interpreter \<open>Run\<close> of \<open>src/emu/x86run.c\<close>: prefixes, the opcode switch, the trap
  check after an instruction, the epilogue and the loop. The loop and the prefix scan may run for
  ever, so they are partial functions into \<open>option\<close>: \<open>None\<close> is not returning.
\<close>

section \<open>The opcode switch\<close>

definition ops_00_3F :: "env \<Rightarrow> u8 \<Rightarrow> run \<Rightarrow> ctl \<times> run" where
  "ops_00_3F env opcode s = (
     if opcode AND 7 < 6 then (Next, if opcode < 0x38 then ops_GO opcode s else ops_cmp opcode s)
     else if opcode = 0x0F then
       if rep s = 1 then run_map_step (RunF20F env) s
       else if rep s = 2 then run_map (RunF30F env) s
       else run_map_step (Run0F env) s
     else if opcode = 0x26 \<or> opcode = 0x2E \<or> opcode = 0x36 \<or> opcode = 0x3E then (Next, s)
     else if opcode = 0x27 \<or> opcode = 0x2F \<or> opcode = 0x37 \<or> opcode = 0x3F then (Next, ops_bcd opcode s)
     else (Next, ops_seg opcode s))"

definition ops_60_6F :: "env \<Rightarrow> u8 \<Rightarrow> run \<Rightarrow> ctl \<times> run" where
  "ops_60_6F env opcode s = (
     if opcode < 0x64 then (Next, ops_60_63 opcode s)
     else if opcode = 0x64 then run_map (Run64 env sFS) s
     else if opcode = 0x65 then run_map (Run64 env sGS) s
     else if opcode = 0x66 then run_map (Run66 env (rep s)) s
     else if opcode = 0x67 then run_map (Run67 env (rep s)) s
     else if opcode = 0x68 \<or> opcode = 0x6A then (Next, ops_push_imm opcode s)
     else if opcode = 0x69 \<or> opcode = 0x6B then (Next, ops_imul opcode s)
     else privileged env s)"

definition ops_80_8F :: "env \<Rightarrow> u8 \<Rightarrow> run \<Rightarrow> run" where
  "ops_80_8F env opcode s = (
     if opcode < 0x84 then ops_grp1 opcode s
     else if opcode < 0x86 then ops_test opcode s
     else if opcode < 0x88 then ops_xchg opcode s
     else if opcode < 0x8D then ops_mov opcode s
     else if opcode = 0x8D then LEA env s
     else if opcode = 0x8E then MOV_seg s
     else POP_Ed s)"

definition execute :: "env \<Rightarrow> u8 \<Rightarrow> run \<Rightarrow> ctl \<times> run" where
  "execute env opcode s = (
     if opcode < 0x40 then ops_00_3F env opcode s
     else if opcode < 0x50 then (Next, ops_inc_dec opcode s)
     else if opcode < 0x60 then (Next, ops_push_pop opcode s)
     else if opcode < 0x70 then ops_60_6F env opcode s
     else if opcode < 0x80 then (Next, Jcc opcode s)
     else if opcode < 0x90 then (Next, ops_80_8F env opcode s)
     else if opcode < 0x9A then (Next, ops_90_99 opcode s)
     else if opcode = 0x9A then not_implemented s
     else if opcode < 0xA0 then (Next, ops_9B_9F opcode s)
     else if opcode < 0xA4 then (Next, ops_mov_abs opcode s)
     else if opcode = 0xA8 \<or> opcode = 0xA9 then (Next, ops_test_imm opcode s)
     else if opcode < 0xB0 then (Next, ops_string opcode s)
     else if opcode < 0xC0 then (Next, ops_mov_imm opcode s)
     else if opcode < 0xC2 then (Next, ops_grp2_imm opcode s)
     else if opcode = 0xC6 \<or> opcode = 0xC7 then (Next, ops_mov_Ib opcode s)
     else if opcode < 0xD0 then ops_C2_CF env opcode s
     else if opcode < 0xD4 then (Next, ops_grp2 opcode s)
     else if opcode < 0xD6 then (Next, ops_bcd_imm opcode s)
     else if opcode < 0xD8 then (Next, ops_D6_D7 opcode s)
     else if opcode < 0xE0 then run_map (RunD8 env opcode) s
     else if opcode < 0xF0 then ops_E0_EF env opcode s
     else if opcode = 0xF6 \<or> opcode = 0xF7 then (Next, ops_grp3 env opcode s)
     else ops_F0_FF env opcode s)"

section \<open>Prefixes\<close>

definition is_prefix :: "u8 \<Rightarrow> bool" where
  "is_prefix opcode = (opcode = 0xF2 \<or> opcode = 0xF3 \<or> opcode = 0x3E)"

definition note_prefix :: "u8 \<Rightarrow> run \<Rightarrow> run" where
  "note_prefix opcode s = (
     if opcode = 0xF2 then s\<lparr>rep := 1\<rparr>
     else if opcode = 0xF3 then s\<lparr>rep := 2\<rparr>
     else s)"

partial_function (option) prefixes :: "u8 \<Rightarrow> run \<Rightarrow> (u8 \<times> run) option" where
  "prefixes opcode s = (
     if is_prefix opcode then let
       s = note_prefix opcode s;
       (opcode, s) = F8 s
     in prefixes opcode s
     else Some (opcode, s))"

section \<open>One instruction\<close>

definition trap_check :: "env \<Rightarrow> run \<Rightarrow> ctl \<times> run" where
  "trap_check env s = (
     if ACCESS_FLAG F_TF s then
       if tf_next s \<noteq> 0 then let s = s\<lparr>tf_next := 0\<rparr> in (Next, s\<lparr>ip := addr s\<rparr>)
       else let
         s = s\<lparr>ip := addr s\<rparr>;
         s = on_machine (emit_signal env SIGTRAP (addr s) 1) s
       in if quit s \<noteq> 0 then (Fini, s) else (Next, s\<lparr>ip := addr s\<rparr>)
     else (Next, s\<lparr>ip := addr s\<rparr>))"

definition finish :: "env \<Rightarrow> ctl \<times> run \<Rightarrow> ctl \<times> run" where
  "finish env r = (case r of (Next, s) \<Rightarrow> trap_check env s | _ \<Rightarrow> r)"

definition instruction :: "env \<Rightarrow> run \<Rightarrow> (ctl \<times> run) option" where
  "instruction env s = (let
     s = s\<lparr>old_ip := addr s\<rparr>;
     (opcode, s) = F8 s;
     s = s\<lparr>rep := 0\<rparr>
   in case prefixes opcode s of
        None \<Rightarrow> None
      | Some (opcode, s) \<Rightarrow> Some (finish env (execute env opcode s)))"

section \<open>The epilogue\<close>

text \<open>
  The code after \<open>fini:\<close>. The pending signal comes first; the jump back to \<open>fini\<close> after it
  is taken only with \<open>quit\<close> set, where the test it jumps to fails. The result says whether the
  interpreter goes on: after a fork, or in the context that \<open>setcontext\<close> installed.
\<close>

definition fini :: "env \<Rightarrow> run \<Rightarrow> bool \<times> run" where
  "fini env s = (let
     s = (if quit s = 0 \<and> fork s = 0 \<and> uc_link s = 0 \<and> ACCESS_FLAG F_TF s then let
         s = s\<lparr>ip := addr s\<rparr>
       in on_machine (emit_signal env SIGTRAP (addr s) 1) s
       else s);
     s = (if unimp s then let
         s = UnimpOpcode s;
         s = on_machine (emit_signal env SIGILL (ip s) 0) s;
         s = s\<lparr>quit := 1\<rparr>
       in s\<lparr>err := err s OR ERR_UNIMPL\<rparr>
       else s)
   in if fork s \<noteq> 0 then let
        s = s\<lparr>addr := ip s\<rparr>
      in if step s \<noteq> 0 then (False, s)
         else let
           forktype = fork s;
           s = s\<lparr>quit := 0\<rparr>;
           s = s\<lparr>fork := 0\<rparr>
         in (True, on_machine (x86emu_fork env forktype) s)
      else if quit s \<noteq> 0 \<and> uc_link s \<noteq> 0 then let
        s = s\<lparr>quit := 0\<rparr>;
        s = on_machine (my_setcontext env (uc_link s)) s
      in (True, s\<lparr>addr := ip s\<rparr>)
      else (False, s))"

section \<open>The loop\<close>

partial_function (option) x86emurun :: "env \<Rightarrow> run \<Rightarrow> run option" where
  "x86emurun env s = (case instruction env s of
      None \<Rightarrow> None
    | Some (c, s) \<Rightarrow> (case c of
        Next \<Rightarrow> x86emurun env s
      | Fini \<Rightarrow> (let (go, s) = fini env s in if go then x86emurun env s else Some s)
      | Ret \<Rightarrow> Some s))"

definition start :: "int \<Rightarrow> machine \<Rightarrow> run" where
  "start st m = machine.extend m (run.fields (ip m) 0 0 st False)"

definition Run :: "env \<Rightarrow> int \<Rightarrow> machine \<Rightarrow> machine option" where
  "Run env st m = (if quit m \<noteq> 0 then Some m
     else map_option machine.truncate (x86emurun env (start st m)))"

end
