(* ===== verification/InterpStack.thy ===== *)
theory InterpStack
  imports Interp
begin

unbundle bit_operations_syntax

text \<open>
  What the stack instructions of the interpreter keep: reads after writes on the stack, sequences of pushes and
  pops, PUSHAD and POPAD.
\<close>

section \<open>Reads after writes on the stack\<close>

lemma apart_offsets:
  "apart (a + c) (a + d) = apart c d" "apart (a - c) (a - d) = apart (- c) (- d)"
  "apart a (a - d) = apart d 0" "apart (a - d) a = apart 0 d"
  "apart (a + c) a = apart c 0" "apart a (a + c) = apart 0 c"
  by (simp_all add: apart_def)

lemma ld_set_reg [simp]:
  "ld8 (set_reg32 r v s) a = ld8 s a" "ld16 (set_reg32 r v s) a = ld16 s a" "ld32 (set_reg32 r v s) a = ld32 s a"
  "regs (set_reg32 r v s) = (regs s)(r := v)" "mem (set_reg32 r v s) = mem s" "addr (set_reg32 r w t) = addr t"
  for t :: run
  by (simp_all add: set_reg32_def)

lemma Push_eq: "Push v s = st32 (regs s rSP - 4) v (set_reg32 rSP (regs s rSP - 4) s)"
  by (simp add: Push_def reg32_def Let_def set_reg32_def)

text \<open>Writes to the memory that miss a block below an address.\<close>

definition below :: "nat \<Rightarrow> u32 \<Rightarrow> u32 set" where
  "below n a = {b. \<exists>k. 1 \<le> k \<and> k \<le> n \<and> b = a - of_nat k}"

definition same_outside :: "u32 set \<Rightarrow> 'a machine_scheme \<Rightarrow> 'a machine_scheme \<Rightarrow> bool" where
  "same_outside A s t = (\<forall>b. b \<notin> A \<longrightarrow> mem s b = mem t b)"

lemma st32_outside:
  assumes "b \<notin> {a, a + 1, a + 2, a + 3}"
  shows "mem (st32 a v s) b = mem s b"
  using assms by (simp add: st32_def)

lemma below_word: "{a - of_nat (4 * k), a - of_nat (4 * k) + 1, a - of_nat (4 * k) + 2, a - of_nat (4 * k) + 3} \<subseteq> below (4 * n) a"
  if "1 \<le> k" "k \<le> n"
proof -
  have "a - of_nat (4 * k) + of_nat j \<in> below (4 * n) a" if "j < 4" for j
  proof -
    have e: "a - of_nat (4 * k) + of_nat j = a - of_nat (4 * k - j)"
      using \<open>1 \<le> k\<close> that by (subst of_nat_diff) auto
    show ?thesis unfolding below_def e using \<open>1 \<le> k\<close> \<open>k \<le> n\<close> that by (auto intro!: exI [of _ "4 * k - j"])
  qed
  from this [of 0] this [of 1] this [of 2] this [of 3] show ?thesis by simp
qed

lemma below_Push: "below 4 (a - of_nat (4 * k)) \<subseteq> below (4 * n) a" if "k < n"
proof
  fix b assume "b \<in> below 4 (a - of_nat (4 * k))"
  then obtain j where j: "1 \<le> j" "j \<le> 4" "b = a - of_nat (4 * k) - of_nat j" by (auto simp: below_def)
  then have "b = a - of_nat (4 * k + j)" by simp
  then show "b \<in> below (4 * n) a" unfolding below_def using j \<open>k < n\<close> by (auto intro!: exI [of _ "4 * k + j"])
qed

lemma below_mono: "m \<le> n \<Longrightarrow> below m a \<subseteq> below n a"
  by (force simp: below_def)

lemma Push_outside: "b \<notin> below 4 (regs s rSP) \<Longrightarrow> mem (Push v s) b = mem s b"
  using below_word [of 1 1 "regs s rSP"] by (simp add: Push_eq) (rule st32_outside [THEN trans], auto simp: set_reg32_def)

text \<open>Pushes write below the stack pointer they started from.\<close>

lemma Push_below:
  assumes "same_outside (below (4 * n) a) s t" "regs s rSP = a - of_nat (4 * n)"
  shows "same_outside (below (4 * Suc n) a) (Push v s) t"
  unfolding same_outside_def
proof (intro allI impI)
  fix b assume b: "b \<notin> below (4 * Suc n) a"
  then have "b \<notin> below 4 (regs s rSP)" using below_Push [of n "Suc n" a] assms(2) by auto
  moreover have "b \<notin> below (4 * n) a" using b below_mono [of "4 * n" "4 * Suc n" a] by auto
  ultimately show "mem (Push v s) b = mem t b"
    using assms(1) by (simp add: Push_outside same_outside_def)
qed

lemma Push_SP: "regs s rSP = a - of_nat (4 * n) \<Longrightarrow> regs (Push v s) rSP = a - of_nat (4 * Suc n)"
  by simp

lemma same_outside_refl: "same_outside (below (4 * 0) a) s s"
  by (simp add: same_outside_def)

section \<open>PUSHAD and POPAD\<close>

lemma PUSHAD_POPAD_regs: "regs (POPAD (PUSHAD s)) = regs s"
  by (rule ext) (simp add: POPAD_def PUSHAD_def pop_to_def Let_def reg32_def case_prod_unfold Push_eq apart_offsets ld32_st32_apart apart_def)


lemma pop_to_eq: "pop_to r s = s\<lparr>regs := (regs s)(rSP := regs s rSP + 4, r := ld32 s (regs s rSP))\<rparr>"
  by (simp add: pop_to_def case_prod_unfold set_reg32_def)

text \<open>The frame of instructions that write registers and memory only.\<close>

definition erase_rm :: "run \<Rightarrow> run" where
  "erase_rm s = s\<lparr>regs := (\<lambda>_. 0), mem := (\<lambda>_. 0)\<rparr>"

lemma erase_rm_simps [frame_simps, simp]:
  "erase_rm (s\<lparr>regs := g\<rparr>) = erase_rm s" "erase_rm (s\<lparr>mem := m\<rparr>) = erase_rm s"
  "erase_rm (set_reg32 r v s) = erase_rm s" "erase_rm (set_reg16 r v16 s) = erase_rm s" "erase_rm (set_reg8 r k v8 s) = erase_rm s"
  "erase_rm (st8 a v8 s) = erase_rm s" "erase_rm (st16 a v16 s) = erase_rm s" "erase_rm (st32 a v s) = erase_rm s"
  "erase_rm (Push v s) = erase_rm s"
  by (simp_all add: erase_rm_def set_reg32_def set_reg16_def set_reg8_def st8_def st16_def st32_def Push_def Let_def)

lemma erase_rm_eqD:
  assumes "erase_rm t = erase_rm s"
  shows "t = s\<lparr>regs := regs t, mem := mem t\<rparr>"
proof -
  have "t = (erase_rm t)\<lparr>regs := regs t, mem := mem t\<rparr>" by (simp add: erase_rm_def)
  also have "\<dots> = s\<lparr>regs := regs t, mem := mem t\<rparr>" unfolding assms by (simp add: erase_rm_def)
  finally show ?thesis .
qed

lemma erase_rm_PUSHAD: "erase_rm (PUSHAD s) = erase_rm s" "erase_rm (POPAD s) = erase_rm s"
  by (simp_all add: PUSHAD_def POPAD_def Let_def pop_to_eq)

lemma POPAD_mem: "mem (POPAD s) = mem s"
  by (simp add: POPAD_def Let_def pop_to_eq)

lemma PUSHAD_below: "same_outside (below 32 (regs s rSP)) (PUSHAD s) s"
proof -
  have "same_outside (below (4 * Suc (Suc (Suc (Suc (Suc (Suc (Suc (Suc 0)))))))) (regs s rSP)) (PUSHAD s) s"
    unfolding PUSHAD_def Let_def
    by (intro Push_below Push_SP same_outside_refl) simp_all
  then show ?thesis by simp
qed

text \<open>C15. PUSHAD followed by POPAD gives back the state it started from, all eight registers included, except
  for the 32 bytes of memory below the stack pointer.\<close>

theorem pushad_popad_roundtrip:
  "POPAD (PUSHAD s) = s\<lparr>mem := mem (PUSHAD s)\<rparr> \<and> same_outside (below 32 (regs s rSP)) (PUSHAD s) s"
proof -
  have "erase_rm (POPAD (PUSHAD s)) = erase_rm s" by (simp add: erase_rm_PUSHAD)
  then have "POPAD (PUSHAD s) = s\<lparr>mem := mem (PUSHAD s)\<rparr>"
    by (drule_tac erase_rm_eqD) (simp add: PUSHAD_POPAD_regs POPAD_mem)
  then show ?thesis using PUSHAD_below by blast
qed

end
