(* ===== verification/Steps.thy ===== *)
theory Steps
  imports Interp
begin

text \<open>
  The interpreter as a step relation. One step is an instruction that falls through to the next one, or one
  that ends in the epilogue of \<open>Run\<close> and is sent back into the loop by it. The loop of \<open>Run\<close>,
  a partial function, returns exactly the states that a sequence of steps leads to and that leave it.
\<close>

section \<open>One instruction\<close>

text \<open>An instruction without prefixes.\<close>

lemma instruction_plain:
  assumes "\<not> is_prefix (ld8 s (addr s))"
  shows "instruction env s = Some (finish env (execute env (ld8 s (addr s)) (s\<lparr>old_ip := addr s, addr := addr s + 1, rep := 0\<rparr>)))"
proof -
  have "prefixes (ld8 s (addr s)) t = Some (ld8 s (addr s), t)" for t
    using assms by (subst prefixes.simps) simp
  then show ?thesis by (simp add: instruction_def F8_def ld8_def)
qed

section \<open>Steps and runs\<close>

inductive step_of :: "env \<Rightarrow> run \<Rightarrow> run \<Rightarrow> bool" for env where
  through: "instruction env s = Some (Next, t) \<Longrightarrow> step_of env s t"
| resumed: "instruction env s = Some (Fini, u) \<Longrightarrow> fini env u = (True, t) \<Longrightarrow> step_of env s t"

inductive reaches :: "env \<Rightarrow> run \<Rightarrow> run \<Rightarrow> bool" for env where
  here: "reaches env s s"
| more: "step_of env s t \<Longrightarrow> reaches env t u \<Longrightarrow> reaches env s u"

inductive leaves :: "env \<Rightarrow> run \<Rightarrow> run \<Rightarrow> bool" for env where
  returned: "instruction env s = Some (Ret, t) \<Longrightarrow> leaves env s t"
| finished: "instruction env s = Some (Fini, u) \<Longrightarrow> fini env u = (False, t) \<Longrightarrow> leaves env s t"

inductive_simps step_of_iff: "step_of env s t"
inductive_simps leaves_iff: "leaves env s t"
inductive_cases reachesE: "reaches env s t"

lemma step_of_det: "step_of env s t \<Longrightarrow> step_of env s u \<Longrightarrow> t = u"
  by (auto simp: step_of_iff)

lemma leaves_det: "leaves env s t \<Longrightarrow> leaves env s u \<Longrightarrow> t = u"
  by (auto simp: leaves_iff)

lemma step_or_leave: "step_of env s t \<Longrightarrow> \<not> leaves env s u"
  by (auto simp: step_of_iff leaves_iff)

lemma reaches_trans: "reaches env s t \<Longrightarrow> reaches env t u \<Longrightarrow> reaches env s u"
  by (induction rule: reaches.induct) (auto intro: reaches.intros)

lemma loop_step: "step_of env s t \<Longrightarrow> x86emurun env s = x86emurun env t"
  by (subst x86emurun.simps) (auto simp: step_of_iff)

lemma loop_leave: "leaves env s t \<Longrightarrow> x86emurun env s = Some t"
  by (subst x86emurun.simps) (auto simp: leaves_iff)

lemma loop_reaches: "reaches env s t \<Longrightarrow> x86emurun env s = x86emurun env t"
  by (induction rule: reaches.induct) (auto dest: loop_step)

lemma loop_complete:
  assumes "x86emurun env s = Some t"
  shows "\<exists>u. reaches env s u \<and> leaves env u t"
  using assms
proof (induction rule: x86emurun.raw_induct [rotated, consumes 1, case_names loop])
  case (loop f env s t)
  show ?case
  proof (cases "instruction env s")
    case None
    with loop(2) show ?thesis by simp
  next
    case (Some r)
    obtain c v where r: "r = (c, v)" by force
    show ?thesis
    proof (cases c)
      case Next
      then have st: "step_of env s v" using Some r by (simp add: step_of_iff)
      have "f env v = Some t" using loop(2) Some r Next by simp
      from loop(1) [OF this] show ?thesis using st by (blast intro: reaches.more)
    next
      case Ret
      then have "leaves env s t" using loop(2) Some r by (simp add: leaves_iff)
      then show ?thesis by (blast intro: reaches.here)
    next
      case Fini
      obtain go w where g: "fini env v = (go, w)" by force
      show ?thesis
      proof (cases go)
        case True
        then have st: "step_of env s w" using Some r Fini g by (auto simp: step_of_iff)
        have "f env w = Some t" using loop(2) Some r Fini g True by simp
        from loop(1) [OF this] show ?thesis using st by (blast intro: reaches.more)
      next
        case False
        then have "leaves env s t" using loop(2) Some r Fini g by (simp add: leaves_iff)
        then show ?thesis by (blast intro: reaches.here)
      qed
    qed
  qed
qed

text \<open>The interpreter returns a state exactly if a finite sequence of steps leads from its start to an
  instruction that leaves the loop with that state; with \<open>quit\<close> set on entry it returns at once and
  changes nothing.\<close>

theorem Run_is_steps:
  "Run env st m = Some m' \<longleftrightarrow>
    (if quit m \<noteq> 0 then m' = m
     else \<exists>u t. reaches env (start st m) u \<and> leaves env u t \<and> m' = machine.truncate t)"
proof -
  have "x86emurun env s = Some t \<longleftrightarrow> (\<exists>u. reaches env s u \<and> leaves env u t)" for s t
    using loop_complete [of env s t] by (auto simp: loop_leave dest: loop_reaches)
  then show ?thesis by (auto simp: Run_def)
qed

end
