(* ===== verification/Invariant.thy ===== *)
theory Invariant
  imports Steps
begin

unbundle bit_operations_syntax

text \<open>
  What no instruction breaks. The flag register has bits that read as constants on the processor:
  bit 1 is set, bits 3, 5, 15 and those above 21 are clear (\<open>eflags_wf\<close>). The operations of
  \<open>x86primop\<close> write status bits only, and the few instructions that load the whole register mask
  what they load. The invariant holds in every state the interpreter
  reaches, whatever the code, as long as the functions it calls keep it.
\<close>

section \<open>The reserved bits\<close>

definition reserved :: "'a emu_scheme \<Rightarrow> u32" where
  "reserved e = eflags e AND 0xFFC0802A"

lemma reserved_mask_bits: "bit (0xFFC0802A :: int) n \<longleftrightarrow> n \<in> {1, 3, 5, 15} \<or> 22 \<le> n \<and> n < 32"
proof -
  have e: "(0xFFC0802A :: int) = set_bit 15 (set_bit 5 (set_bit 3 (set_bit 1 (push_bit 22 (mask 10)))))"
    by (simp add: set_bit_eq mask_eq_exp_minus_1 push_bit_eq_mult)
  show ?thesis unfolding e by (auto simp: bit_set_bit_iff bit_push_bit_iff bit_mask_iff)
qed

lemma reserved_wf: "eflags_wf (eflags e) \<longleftrightarrow> reserved e = 2"
  by (simp add: eflags_wf_def reserved_def)

lemma reserved_write [simp]:
  assumes "f \<notin> {F_res1, F_res2, F_res3, F_dummy}"
  shows "reserved (SET_FLAG f e) = reserved e" "reserved (CLEAR_FLAG f e) = reserved e"
    "reserved (CONDITIONAL_SET_FLAG c f e) = reserved e"
proof -
  have p: "flag_pos f \<notin> {1, 3, 5, 15}" using assms by (cases f; simp)
  have q: "\<not> 22 \<le> flag_pos f" using flag_pos_less(1) [of f] by linarith
  then have s: "set_bit (flag_pos f) w AND 0xFFC0802A = w AND 0xFFC0802A"
    and u: "unset_bit (flag_pos f) w AND 0xFFC0802A = w AND 0xFFC0802A" for w :: u32
    using p q by (auto intro!: bit_word_eqI simp: bit_simps reserved_mask_bits)
  show "reserved (SET_FLAG f e) = reserved e" "reserved (CLEAR_FLAG f e) = reserved e"
    "reserved (CONDITIONAL_SET_FLAG c f e) = reserved e"
    by (simp_all add: reserved_def SET_FLAG_def CLEAR_FLAG_def CONDITIONAL_SET_FLAG_def s u)
qed

lemma reserved_if [simp]: "reserved (if b then x else y) = (if b then reserved x else reserved y)"
  by simp

lemma reserved_field [simp]:
  "reserved (e\<lparr>regs := g\<rparr>) = reserved e" "reserved (e\<lparr>ip := v32\<rparr>) = reserved e"
  "reserved (e\<lparr>old_ip := v32\<rparr>) = reserved e" "reserved (e\<lparr>quit := i\<rparr>) = reserved e"
  "reserved (e\<lparr>fork := i\<rparr>) = reserved e" "reserved (e\<lparr>segs := sg\<rparr>) = reserved e"
  "reserved (e\<lparr>segs_serial := ss\<rparr>) = reserved e" "reserved (e\<lparr>df := d\<rparr>) = reserved e"
  "reserved (e\<lparr>op1 := x\<rparr>) = reserved e" "reserved (e\<lparr>op2 := x\<rparr>) = reserved e"
  "reserved (e\<lparr>res := x\<rparr>) = reserved e" "reserved (e\<lparr>err := x\<rparr>) = reserved e"
  "reserved (RESET_FLAGS e) = reserved e"
  "reserved (set_reg32 r v32 e) = reserved e" "reserved (set_reg16 r v16 e) = reserved e"
  "reserved (set_reg8 r k v8 e) = reserved e"
  by (simp_all add: reserved_def RESET_FLAGS_def set_reg32_def set_reg16_def set_reg8_def)

lemma reserved_uf [simp]:
  "reserved (uf_add8 e) = reserved e"
  "reserved (uf_add16 e) = reserved e"
  "reserved (uf_add32 e) = reserved e"
  "reserved (uf_and8 e) = reserved e"
  "reserved (uf_and16 e) = reserved e"
  "reserved (uf_and32 e) = reserved e"
  "reserved (uf_dec8 e) = reserved e"
  "reserved (uf_dec16 e) = reserved e"
  "reserved (uf_dec32 e) = reserved e"
  "reserved (uf_inc8 e) = reserved e"
  "reserved (uf_inc16 e) = reserved e"
  "reserved (uf_inc32 e) = reserved e"
  "reserved (uf_imul8 e) = reserved e"
  "reserved (uf_imul16 e) = reserved e"
  "reserved (uf_imul32 e) = reserved e"
  "reserved (uf_mul8 e) = reserved e"
  "reserved (uf_mul16 e) = reserved e"
  "reserved (uf_mul32 e) = reserved e"
  "reserved (uf_or8 e) = reserved e"
  "reserved (uf_or16 e) = reserved e"
  "reserved (uf_or32 e) = reserved e"
  "reserved (uf_neg8 e) = reserved e"
  "reserved (uf_neg16 e) = reserved e"
  "reserved (uf_neg32 e) = reserved e"
  "reserved (uf_rcl8 e) = reserved e"
  "reserved (uf_rcl16 e) = reserved e"
  "reserved (uf_rcl32 e) = reserved e"
  "reserved (uf_rcr8 e) = reserved e"
  "reserved (uf_rcr16 e) = reserved e"
  "reserved (uf_rcr32 e) = reserved e"
  "reserved (uf_shl8 e) = reserved e"
  "reserved (uf_shl16 e) = reserved e"
  "reserved (uf_shl32 e) = reserved e"
  "reserved (uf_sar8 e) = reserved e"
  "reserved (uf_sar16 e) = reserved e"
  "reserved (uf_sar32 e) = reserved e"
  "reserved (uf_shr8 e) = reserved e"
  "reserved (uf_shr16 e) = reserved e"
  "reserved (uf_shr32 e) = reserved e"
  "reserved (uf_shrd32 e) = reserved e"
  "reserved (uf_shld32 e) = reserved e"
  "reserved (uf_sub8 e) = reserved e"
  "reserved (uf_sub16 e) = reserved e"
  "reserved (uf_sub32 e) = reserved e"
  "reserved (uf_xor8 e) = reserved e"
  "reserved (uf_xor16 e) = reserved e"
  "reserved (uf_xor32 e) = reserved e"
  "reserved (uf_cmp8 e) = reserved e"
  "reserved (uf_cmp16 e) = reserved e"
  "reserved (uf_cmp32 e) = reserved e"
  "reserved (uf_tst8 e) = reserved e"
  "reserved (uf_tst16 e) = reserved e"
  "reserved (uf_tst32 e) = reserved e"
  "reserved (uf_adc8 e) = reserved e"
  "reserved (uf_adc16 e) = reserved e"
  "reserved (uf_adc32 e) = reserved e"
  "reserved (uf_sbb8 e) = reserved e"
  "reserved (uf_sbb16 e) = reserved e"
  "reserved (uf_sbb32 e) = reserved e"
  "reserved (uf_rol8 e) = reserved e"
  "reserved (uf_rol16 e) = reserved e"
  "reserved (uf_rol32 e) = reserved e"
  "reserved (uf_ror8 e) = reserved e"
  "reserved (uf_ror16 e) = reserved e"
  "reserved (uf_ror32 e) = reserved e"
  by (simp_all add: uf_defs Let_def)

lemma reserved_UpdateFlags [simp]: "reserved (UpdateFlags e) = reserved e"
  by (simp add: UpdateFlags_def split: defered_flags_t.split width.split)

lemma reserved_DIV0 [simp]: "reserved (INTR_RAISE_DIV0 e) = reserved e"
  by (simp add: INTR_RAISE_DIV0_def)

lemma reserved_primoparith [simp]:
  "reserved (snd (add8 e d8 s8)) = reserved e"
  "reserved (snd (add16 e d16 s16)) = reserved e"
  "reserved (snd (add32 e d32 s32)) = reserved e"
  "reserved (snd (and8 e d8 s8)) = reserved e"
  "reserved (snd (and16 e d16 s16)) = reserved e"
  "reserved (snd (and32 e d32 s32)) = reserved e"
  "reserved (snd (dec8 e d8)) = reserved e"
  "reserved (snd (dec16 e d16)) = reserved e"
  "reserved (snd (dec32 e d32)) = reserved e"
  "reserved (snd (inc8 e d8)) = reserved e"
  "reserved (snd (inc16 e d16)) = reserved e"
  "reserved (snd (inc32 e d32)) = reserved e"
  "reserved (snd (or8 e d8 s8)) = reserved e"
  "reserved (snd (or16 e d16 s16)) = reserved e"
  "reserved (snd (or32 e d32 s32)) = reserved e"
  "reserved (snd (neg8 e s8)) = reserved e"
  "reserved (snd (neg16 e s16)) = reserved e"
  "reserved (snd (neg32 e s32)) = reserved e"
  "reserved (snd (not8 e s8)) = reserved e"
  "reserved (snd (not16 e s16)) = reserved e"
  "reserved (snd (not32 e s32)) = reserved e"
  "reserved (snd (sub8 e d8 s8)) = reserved e"
  "reserved (snd (sub16 e d16 s16)) = reserved e"
  "reserved (snd (sub32 e d32 s32)) = reserved e"
  "reserved (snd (xor8 e d8 s8)) = reserved e"
  "reserved (snd (xor16 e d16 s16)) = reserved e"
  "reserved (snd (xor32 e d32 s32)) = reserved e"
  "reserved (snd (adc8 e d8 s8)) = reserved e"
  "reserved (snd (adc16 e d16 s16)) = reserved e"
  "reserved (snd (adc32 e d32 s32)) = reserved e"
  "reserved (snd (cmp8 e d8 s8)) = reserved e"
  "reserved (snd (cmp16 e d16 s16)) = reserved e"
  "reserved (snd (cmp32 e d32 s32)) = reserved e"
  "reserved (snd (sbb8 e d8 s8)) = reserved e"
  "reserved (snd (sbb16 e d16 s16)) = reserved e"
  "reserved (snd (sbb32 e d32 s32)) = reserved e"
  "reserved (test8 e d8 s8) = reserved e"
  "reserved (test16 e d16 s16) = reserved e"
  "reserved (test32 e d32 s32) = reserved e"
  by (simp_all add: add8_def add16_def add32_def and8_def and16_def and32_def dec8_def dec16_def dec32_def inc8_def inc16_def inc32_def or8_def or16_def or32_def neg8_def neg16_def neg32_def not8_def not16_def not32_def sub8_def sub16_def sub32_def xor8_def xor16_def xor32_def adc8_def adc16_def adc32_def cmp8_def cmp16_def cmp32_def sbb8_def sbb16_def sbb32_def test8_def test16_def test32_def Let_def case_prod_unfold)

lemma reserved_shl8 [simp]:
  "reserved (snd (shl8 e d8 s8)) = reserved e"
  by (simp add: shl8_def Let_def case_prod_unfold)

lemma reserved_shl16 [simp]:
  "reserved (snd (shl16 e d16 s8)) = reserved e"
  by (simp add: shl16_def Let_def case_prod_unfold)

lemma reserved_shl32 [simp]:
  "reserved (snd (shl32 e d32 s8)) = reserved e"
  by (simp add: shl32_def Let_def case_prod_unfold)

lemma reserved_shr8 [simp]:
  "reserved (snd (shr8 e d8 s8)) = reserved e"
  by (simp add: shr8_def Let_def case_prod_unfold)

lemma reserved_shr16 [simp]:
  "reserved (snd (shr16 e d16 s8)) = reserved e"
  by (simp add: shr16_def Let_def case_prod_unfold)

lemma reserved_shr32 [simp]:
  "reserved (snd (shr32 e d32 s8)) = reserved e"
  by (simp add: shr32_def Let_def case_prod_unfold)

lemma reserved_primopshift [simp]:
  "reserved (snd (sar8 e d8 s8)) = reserved e"
  "reserved (snd (sar16 e d16 s8)) = reserved e"
  "reserved (snd (sar32 e d32 s8)) = reserved e"
  "reserved (snd (rol8 e d8 s8)) = reserved e"
  "reserved (snd (rol16 e d16 s8)) = reserved e"
  "reserved (snd (rol32 e d32 s8)) = reserved e"
  "reserved (snd (ror8 e d8 s8)) = reserved e"
  "reserved (snd (ror16 e d16 s8)) = reserved e"
  "reserved (snd (ror32 e d32 s8)) = reserved e"
  by (simp_all add: sar8_def sar16_def sar32_def rol8_def rol16_def rol32_def ror8_def ror16_def ror32_def Let_def case_prod_unfold)

lemma reserved_rcl8 [simp]:
  "reserved (snd (rcl8 e d8 s8)) = reserved e"
  by (simp add: rcl8_def Let_def case_prod_unfold)

lemma reserved_rcl16 [simp]:
  "reserved (snd (rcl16 e d16 s8)) = reserved e"
  by (simp add: rcl16_def Let_def case_prod_unfold)

lemma reserved_rcl32 [simp]:
  "reserved (snd (rcl32 e d32 s8)) = reserved e"
  by (simp add: rcl32_def Let_def case_prod_unfold)

lemma reserved_rcr8 [simp]:
  "reserved (snd (rcr8 e d8 s8)) = reserved e"
  by (simp add: rcr8_def Let_def case_prod_unfold)

lemma reserved_rcr16 [simp]:
  "reserved (snd (rcr16 e d16 s8)) = reserved e"
  by (simp add: rcr16_def Let_def case_prod_unfold)

lemma reserved_rcr32 [simp]:
  "reserved (snd (rcr32 e d32 s8)) = reserved e"
  by (simp add: rcr32_def Let_def case_prod_unfold)

lemma reserved_shld16 [simp]:
  "reserved (snd (shld16 e d16 f16 s8)) = reserved e"
  by (simp add: shld16_def Let_def case_prod_unfold)

lemma reserved_shld32 [simp]:
  "reserved (snd (shld32 e d32 f32 s8)) = reserved e"
  by (simp add: shld32_def Let_def case_prod_unfold)

lemma reserved_shrd16 [simp]:
  "reserved (snd (shrd16 e d16 f16 s8)) = reserved e"
  by (simp add: shrd16_def Let_def case_prod_unfold)

lemma reserved_shrd32 [simp]:
  "reserved (snd (shrd32 e d32 f32 s8)) = reserved e"
  by (simp add: shrd32_def Let_def case_prod_unfold)

lemma reserved_primopmuldiv [simp]:
  "reserved (imul8 e s8) = reserved e"
  "reserved (imul16_eax e s16) = reserved e"
  "reserved (snd (imul16 e x16 y16)) = reserved e"
  "reserved (snd (imul32 e x32 y32)) = reserved e"
  "reserved (imul32_eax e s32) = reserved e"
  "reserved (mul8 e s8) = reserved e"
  "reserved (mul16 e s16) = reserved e"
  "reserved (mul32_eax e s32) = reserved e"
  "reserved (snd (aaa16 e d16)) = reserved e"
  "reserved (snd (aas16 e d16)) = reserved e"
  "reserved (snd (aad16 e d16 b8)) = reserved e"
  "reserved (snd (aam16 e d8 b8)) = reserved e"
  "reserved (snd (daa8 e d8)) = reserved e"
  "reserved (snd (das8 e d8)) = reserved e"
  by (simp_all add: imul8_def imul16_eax_def imul16_def imul32_def imul32_eax_def mul8_def mul16_def mul32_eax_def aaa16_def aas16_def aad16_def aam16_def daa8_def das8_def Let_def case_prod_unfold)

lemma reserved_div8 [simp]:
  "reserved (div8 e s8) = reserved e"
  by (simp add: div8_def Let_def case_prod_unfold)

lemma reserved_div16 [simp]:
  "reserved (div16 e s16) = reserved e"
  by (simp add: div16_def Let_def case_prod_unfold)

lemma reserved_div32 [simp]:
  "reserved (div32 e s32) = reserved e"
  by (simp add: div32_def Let_def case_prod_unfold)

lemma reserved_idiv8 [simp]:
  "reserved (idiv8 e s8) = reserved e"
  by (simp add: idiv8_def Let_def case_prod_unfold)

lemma reserved_idiv16 [simp]:
  "reserved (idiv16 e s16) = reserved e"
  by (simp add: idiv16_def Let_def case_prod_unfold)

lemma reserved_idiv32 [simp]:
  "reserved (idiv32 e s32) = reserved e"
  by (simp add: idiv32_def Let_def case_prod_unfold)


lemma reserved_machine [simp]:
  "reserved (m\<lparr>mem := g\<rparr>) = reserved m" "reserved (m\<lparr>default_fs := w\<rparr>) = reserved m"
  "reserved (st8 a v8 m) = reserved m" "reserved (st16 a v16 m) = reserved m" "reserved (st32 a v32 m) = reserved m"
  "reserved (wr8 l v8 m) = reserved m" "reserved (wr16 l v16 m) = reserved m" "reserved (wr32 l v32 m) = reserved m"
  "reserved (Push v32 m) = reserved m"
  by (simp_all add: reserved_def st8_def st16_def st32_def Push_def Let_def set_reg32_def)
    (cases l; simp add: st8_def st16_def st32_def set_reg8_def set_reg16_def set_reg32_def)+

lemma reserved_locals [simp]:
  "reserved (s\<lparr>addr := a\<rparr>) = reserved s" "reserved (s\<lparr>rep := n\<rparr>) = reserved s" "reserved (s\<lparr>tf_next := i\<rparr>) = reserved s"
  "reserved (s\<lparr>step := i\<rparr>) = reserved s" "reserved (s\<lparr>unimp := b\<rparr>) = reserved s"
  by (simp_all add: reserved_def)

lemma reserved_fetch [simp]:
  "reserved (snd (F8 s)) = reserved s" "reserved (snd (F8S s)) = reserved s" "reserved (snd (F16 s)) = reserved s"
  "reserved (snd (F16S s)) = reserved s" "reserved (snd (F32 s)) = reserved s"
  "reserved (snd (getecommon n s)) = reserved s" "reserved (snd (geteb n s)) = reserved s" "reserved (snd (geted n s)) = reserved s"
  by (simp_all add: F8_def F8S_def F16_def F16S_def F32_def getecommon_def geteb_def geted_def Let_def case_prod_unfold)

section \<open>Instructions that keep the reserved bits\<close>

lemma reserved_upd [simp]:
  "(\<And>s d. reserved (snd (f s d)) = reserved s) \<Longrightarrow> reserved (upd8 l f s) = reserved s"
  "(\<And>s d. reserved (snd (g s d)) = reserved s) \<Longrightarrow> reserved (upd32 l g s) = reserved s"
  by (simp_all add: upd8_def upd32_def Let_def case_prod_unfold)

lemma reserved_GO:
  assumes "\<And>s d x. reserved (snd (f s d x)) = reserved s" "\<And>s d x. reserved (snd (g s d x)) = reserved s"
  shows "reserved (GO k f g s) = reserved s"
  using assms by (simp add: GO_def Let_def case_prod_unfold)

lemma reserved_alu [simp]:
  "reserved (ops_GO opcode s) = reserved s" "reserved (ops_cmp opcode s) = reserved s"
  "reserved (ops_inc_dec opcode s) = reserved s" "reserved (ops_imul opcode s) = reserved s"
  "reserved (grp1_8 k l b s) = reserved s" "reserved (grp1_32 k l w s) = reserved s"
  "reserved (grp2_8 k l b s) = reserved s" "reserved (grp2_32 k l b s) = reserved s"
  "reserved (ops_test opcode s) = reserved s" "reserved (ops_test_imm opcode s) = reserved s"
  "reserved (ops_bcd opcode s) = reserved s" "reserved (ops_bcd_imm opcode s) = reserved s"
  by (simp_all add: ops_GO_def reserved_GO ops_cmp_def ops_inc_dec_def ops_imul_def grp1_8_def grp1_32_def grp2_8_def grp2_32_def
      ops_test_def ops_test_imm_def ops_bcd_def ops_bcd_imm_def Let_def case_prod_unfold)

lemma reserved_groups [simp]:
  "reserved (ops_grp1 opcode s) = reserved s" "reserved (ops_grp2_imm opcode s) = reserved s" "reserved (ops_grp2 opcode s) = reserved s"
  by (simp_all add: ops_grp1_def ops_grp2_imm_def ops_grp2_def Let_def case_prod_unfold)

lemma reserved_while [simp]:
  assumes "\<And>s. reserved (f s) = reserved s"
  shows "reserved (while_dec n f s) = reserved s"
  using assms by (induction n arbitrary: s) simp_all

lemma reserved_string_parts [simp]:
  "reserved (advance r d s) = reserved s" "reserved (end_rep s) = reserved s"
  "reserved (movsb_body d s) = reserved s" "reserved (movsd_body d s) = reserved s" "reserved (stosb_body d s) = reserved s"
  "reserved (stosd_body d s) = reserved s" "reserved (lodsb_body d s) = reserved s" "reserved (lodsd_body d s) = reserved s"
  by (simp_all add: advance_def end_rep_def movsb_body_def movsd_body_def stosb_body_def stosd_body_def lodsb_body_def lodsd_body_def Let_def)

lemma reserved_scan [simp]:
  "reserved (snd (snd (scasb_loop n eq d t s))) = reserved s" "reserved (snd (snd (scasd_loop n eq d w s))) = reserved s"
  "reserved (snd (snd (snd (cmpsb_loop n eq d t t2 s)))) = reserved s" "reserved (snd (snd (snd (cmpsd_loop n eq d w w2 s)))) = reserved s"
  by (induction n arbitrary: t t2 w w2 s) (simp_all add: Let_def)

lemma reserved_string [simp]: "reserved (ops_string opcode s) = reserved s"
  by (simp add: ops_string_def MOVSB_def MOVSD_def STOSB_def STOSD_def LODSB_def LODSD_def SCASB_def SCASD_def CMPSB_def CMPSD_def
      Let_def case_prod_unfold)

lemma reserved_move [simp]:
  "reserved (set_seg i w s) = reserved s" "reserved (clear_serial i s) = reserved s" "reserved (pop_to r s) = reserved s"
  "reserved (PushSeg i s) = reserved s" "reserved (PopSeg i s) = reserved s" "reserved (ops_push_pop opcode s) = reserved s"
  "reserved (ops_push_imm opcode s) = reserved s" "reserved (ops_xchg opcode s) = reserved s" "reserved (ops_mov opcode s) = reserved s"
  "reserved (LEA env s) = reserved s" "reserved (POP_Ed s) = reserved s" "reserved (ops_90_99 opcode s) = reserved s"
  "reserved (ops_mov_abs opcode s) = reserved s" "reserved (ops_mov_imm opcode s) = reserved s" "reserved (ops_mov_Ib opcode s) = reserved s"
  "reserved (SAHF s) = reserved s" "reserved (LAHF s) = reserved s" "reserved (PUSHF s) = reserved s"
  by (simp_all add: set_seg_def clear_serial_def pop_to_def PushSeg_def PopSeg_def ops_push_pop_def ops_push_imm_def ops_xchg_def
      ops_mov_def LEA_def POP_Ed_def ops_90_99_def ops_mov_abs_def ops_mov_imm_def ops_mov_Ib_def SAHF_def LAHF_def PUSHF_def
      Let_def case_prod_unfold)

lemma reserved_move2 [simp]:
  "reserved (ops_seg opcode s) = reserved s" "reserved (PUSHAD s) = reserved s" "reserved (POPAD s) = reserved s"
  "reserved (ops_60_63 opcode s) = reserved s" "reserved (MOV_seg s) = reserved s"
  by (simp_all add: ops_seg_def PUSHAD_def POPAD_def ops_60_63_def MOV_seg_def Let_def case_prod_unfold)

lemma reserved_enter [simp]: "reserved (enter_loop n p s) = reserved s"
  by (induction n arbitrary: p s) (simp_all add: Let_def)

lemma reserved_flow [simp]:
  "reserved (jump d s) = reserved s" "reserved (Jcc opcode s) = reserved s" "reserved (snd (STEP s)) = reserved s"
  "reserved (snd (STEP2 s)) = reserved s" "reserved (snd (not_implemented s)) = reserved s" "reserved (PopCS s) = reserved s"
  "reserved (UnimpOpcode s) = reserved s" "reserved (set_CS w s) = reserved s" "reserved (ops_flag opcode s) = reserved s"
  "reserved (ops_D6_D7 opcode s) = reserved s" "reserved (LEAVE s) = reserved s" "reserved (ENTER s) = reserved s"
  "reserved (snd (illegal_opcode a s)) = reserved s"
  by (simp_all add: jump_def Jcc_def STEP_def STEP2_def not_implemented_def PopCS_def UnimpOpcode_def set_CS_def ops_flag_def
      ops_D6_D7_def LEAVE_def ENTER_def illegal_opcode_def Let_def case_prod_unfold)

lemma reserved_flow2 [simp]:
  "reserved (snd (ops_loop opcode s)) = reserved s" "reserved (snd (CALL_Id env s)) = reserved s" "reserved (snd (JMP_Id env s)) = reserved s"
  "reserved (snd (JMP_Ib s)) = reserved s" "reserved (snd (RETN_Iw s)) = reserved s" "reserved (snd (RET s)) = reserved s"
  "reserved (snd (FAR_RETN s)) = reserved s" "reserved (snd (FAR_RET s)) = reserved s" "reserved (snd (GRP5_Eb s)) = reserved s"
  "reserved (snd (GRP5_Ed env s)) = reserved s"
  by (simp_all add: ops_loop_def CALL_Id_def JMP_Id_def JMP_Ib_def RETN_Iw_def RET_def FAR_RETN_def FAR_RET_def GRP5_Eb_def GRP5_Ed_def
      Let_def case_prod_unfold)

section \<open>Instructions that load the flag register or call out\<close>

lemma reserved_masked: "((v AND 0x3F7FD7) OR 2) AND 0xFFC0802A = (2 :: u32)"
proof (rule bit_word_eqI)
  fix n assume n: "n < LENGTH(32)"
  have e: "(0x3F7FD7 :: int) = unset_bit 15 (unset_bit 5 (unset_bit 3 (mask 22)))"
    by (simp add: unset_bit_eq mask_eq_exp_minus_1)
  have b: "bit (0x3F7FD7 :: int) n \<longleftrightarrow> n < 22 \<and> n \<notin> {3, 5, 15}"
    unfolding e by (auto simp: bit_unset_bit_iff bit_mask_iff)
  have t: "bit (2 :: int) n \<longleftrightarrow> n = 1" using bit_exp_iff [of 1 n, where 'a = int] by auto
  show "bit (((v AND 0x3F7FD7) OR 2) AND 0xFFC0802A) n = bit (2 :: u32) n"
    using n by (auto simp: bit_simps reserved_mask_bits b t)
qed

lemma reserved_load [simp]: "reserved (e\<lparr>eflags := (v AND 0x3F7FD7) OR 2\<rparr>) = 2"
  using reserved_masked [of v] by (simp add: reserved_def)

lemma reserved_loads [simp]: "reserved (POPF s) = 2" "reserved (IRET s) = 2"
  by (simp_all add: POPF_def IRET_def Let_def case_prod_unfold)

definition keeps_flags_wf :: "(machine \<Rightarrow> machine) \<Rightarrow> bool" where
  "keeps_flags_wf f = (\<forall>m. eflags_wf (eflags m) \<longrightarrow> eflags_wf (eflags (f m)))"

text \<open>What is asked of the functions outside this model: none of them spoils the flag register.\<close>

definition env_flags_wf :: "env \<Rightarrow> bool" where
  "env_flags_wf env = (
     (\<forall>a st. keeps_flags_wf (\<lambda>m. snd (snd (Run0F env a st m)))) \<and>
     (\<forall>a st. keeps_flags_wf (\<lambda>m. snd (snd (RunF20F env a st m)))) \<and>
     (\<forall>a. keeps_flags_wf (\<lambda>m. snd (RunF30F env a m))) \<and>
     (\<forall>g a. keeps_flags_wf (\<lambda>m. snd (Run64 env g a m))) \<and>
     (\<forall>r a. keeps_flags_wf (\<lambda>m. snd (Run66 env r a m))) \<and>
     (\<forall>r a. keeps_flags_wf (\<lambda>m. snd (Run67 env r a m))) \<and>
     (\<forall>c a. keeps_flags_wf (\<lambda>m. snd (RunD8 env c a m))) \<and>
     (\<forall>a. keeps_flags_wf (\<lambda>m. snd (RunF0 env a m))) \<and>
     (\<forall>n a c. keeps_flags_wf (emit_signal env n a c)) \<and>
     (\<forall>a c. keeps_flags_wf (emit_div0 env a c)) \<and>
     keeps_flags_wf (x86Int3 env) \<and> keeps_flags_wf (x86Syscall env) \<and>
     (\<forall>k. keeps_flags_wf (x86emu_fork env k)) \<and> (\<forall>c. keeps_flags_wf (my_setcontext env c)))"

lemma reserved_on_machine: "reserved (on_machine f s) = reserved (f (machine.truncate s))"
  by (simp add: reserved_def on_machine_def machine.defs run.defs)

lemma reserved_truncate [simp]: "reserved (machine.truncate s) = reserved s"
  by (simp add: reserved_def machine.defs)

lemma on_machine_wf: "\<lbrakk>keeps_flags_wf f; reserved s = 2\<rbrakk> \<Longrightarrow> reserved (on_machine f s) = 2"
  using reserved_truncate [of s] by (simp add: reserved_on_machine keeps_flags_wf_def reserved_wf)

lemma calls_wf:
  assumes "env_flags_wf env" "reserved s = 2"
  shows "reserved (on_machine (emit_signal env n a c) s) = 2" "reserved (on_machine (emit_div0 env a c) s) = 2"
    "reserved (on_machine (x86Int3 env) s) = 2" "reserved (on_machine (x86Syscall env) s) = 2"
    "reserved (on_machine (x86emu_fork env k) s) = 2" "reserved (on_machine (my_setcontext env x) s) = 2"
  using assms by (simp_all add: on_machine_wf env_flags_wf_def)

lemma run_map_wf:
  assumes "\<And>a. keeps_flags_wf (\<lambda>m. snd (f a m))" "reserved s = 2"
  shows "reserved (snd (run_map f s)) = 2"
proof -
  have "reserved (on_machine (\<lambda>_. snd (f (addr s) (machine.truncate s))) s) = 2"
    using assms(1) [of "addr s"] assms(2) by (simp add: reserved_on_machine keeps_flags_wf_def reserved_wf)
  then show ?thesis by (simp add: run_map_def Let_def case_prod_unfold)
qed

lemma run_map_step_wf:
  assumes "\<And>a st. keeps_flags_wf (\<lambda>m. snd (snd (f a st m)))" "reserved s = 2"
  shows "reserved (snd (run_map_step f s)) = 2"
proof -
  have "reserved (on_machine (\<lambda>_. snd (snd (f (addr s) (step s) (machine.truncate s)))) s) = 2"
    using assms(1) [of "addr s" "step s"] assms(2) by (simp add: reserved_on_machine keeps_flags_wf_def reserved_wf)
  then show ?thesis by (simp add: run_map_step_def Let_def case_prod_unfold)
qed

lemmas env_maps_wf = run_map_wf [of "RunF30F env" for env] run_map_wf [of "Run64 env g" for env g] run_map_wf [of "Run66 env r" for env r]
  run_map_wf [of "Run67 env r" for env r] run_map_wf [of "RunD8 env c" for env c] run_map_wf [of "RunF0 env" for env]
  run_map_step_wf [of "Run0F env" for env] run_map_step_wf [of "RunF20F env" for env]

lemma calling_wf:
  assumes "env_flags_wf env" "reserved s = 2"
  shows "reserved (snd (privileged env s)) = 2" "reserved (snd (enter_native (x86Syscall env) s)) = 2"
    "reserved (snd (enter_native (x86Int3 env) s)) = 2" "reserved (snd (INTO env s)) = 2" "reserved (load_far env g s) = 2"
    "reserved (grp3_8 env k l s) = 2" "reserved (grp3_32 env k l s) = 2"
  using assms by (simp_all add: privileged_def enter_native_def INTO_def load_far_def grp3_8_def grp3_32_def
      calls_wf Let_def case_prod_unfold)

lemma calling2_wf:
  assumes "env_flags_wf env" "reserved s = 2"
  shows "reserved (snd (INT_Ib env s)) = 2" "reserved (ops_grp3 env opcode s) = 2"
  using assms by (simp_all add: INT_Ib_def ops_grp3_def calls_wf calling_wf Let_def case_prod_unfold)

lemma blocks_wf:
  assumes "env_flags_wf env" "reserved s = 2"
  shows "reserved (snd (ops_00_3F env opcode s)) = 2" "reserved (snd (ops_60_6F env opcode s)) = 2"
    "reserved (ops_80_8F env opcode s) = 2" "reserved (ops_9B_9F opcode s) = 2" "reserved (snd (ops_C2_CF env opcode s)) = 2"
    "reserved (snd (ops_E0_EF env opcode s)) = 2" "reserved (snd (ops_F0_FF env opcode s)) = 2"
  using assms by (simp_all add: ops_00_3F_def ops_60_6F_def ops_80_8F_def ops_9B_9F_def ops_C2_CF_def ops_E0_EF_def ops_F0_FF_def
      calls_wf calling_wf calling2_wf env_maps_wf env_flags_wf_def [of env])

lemma execute_wf:
  assumes "env_flags_wf env" "reserved s = 2"
  shows "reserved (snd (execute env opcode s)) = 2"
proof -
  have "reserved (snd (run_map (RunD8 env opcode) s)) = 2"
    using assms by (intro run_map_wf) (simp_all add: env_flags_wf_def)
  then show ?thesis
    using assms by (simp add: execute_def blocks_wf calling2_wf)
qed

section \<open>Every reachable state\<close>

lemma prefixes_wf:
  assumes "prefixes opcode s = Some r"
  shows "reserved (snd r) = reserved s"
  using assms
proof (induction rule: prefixes.raw_induct [rotated, consumes 1, case_names scan])
  case (scan f opcode s r)
  then show ?case
    by (auto simp: Let_def case_prod_unfold note_prefix_def split: if_splits)
qed

lemma finish_wf:
  assumes "env_flags_wf env" "reserved (snd r) = 2"
  shows "reserved (snd (finish env r)) = 2"
  using assms by (cases r; cases "fst r") (auto simp: finish_def trap_check_def calls_wf Let_def)

lemma instruction_wf:
  assumes "env_flags_wf env" "reserved s = 2" "instruction env s = Some (c, t)"
  shows "reserved t = 2"
proof -
  obtain opcode u where p: "prefixes (fst (F8 (s\<lparr>old_ip := addr s\<rparr>))) ((snd (F8 (s\<lparr>old_ip := addr s\<rparr>)))\<lparr>rep := 0\<rparr>) = Some (opcode, u)"
    and t: "finish env (execute env opcode u) = (c, t)"
    using assms(3) by (auto simp: instruction_def Let_def case_prod_unfold split: option.splits)
  have "reserved u = 2" using prefixes_wf [OF p] assms(2) by simp
  then have "reserved (snd (finish env (execute env opcode u))) = 2"
    using assms(1) by (intro finish_wf execute_wf)
  then show ?thesis by (simp add: t)
qed

lemma fini_wf:
  assumes "env_flags_wf env" "reserved s = 2"
  shows "reserved (snd (fini env s)) = 2"
  using assms by (auto simp: fini_def calls_wf Let_def)

lemma step_wf:
  assumes "env_flags_wf env" "reserved s = 2" "step_of env s t"
  shows "reserved t = 2"
  using assms(3)
proof cases
  case through
  then show ?thesis using assms by (blast intro: instruction_wf)
next
  case (resumed u)
  then show ?thesis using assms fini_wf [of env u] by (auto dest: instruction_wf)
qed

lemma reaches_wf:
  assumes "env_flags_wf env" "reaches env s t" "reserved s = 2"
  shows "reserved t = 2"
  using assms(2,3,1) by (induction rule: reaches.induct) (auto intro: step_wf)

lemma leaves_wf: "\<lbrakk>env_flags_wf env; reserved s = 2; leaves env s t\<rbrakk> \<Longrightarrow> reserved t = 2"
  using fini_wf [of env] by (auto simp: leaves_iff dest: instruction_wf) (metis instruction_wf snd_conv)

text \<open>Functions to call that do nothing, for examples: an unknown opcode in every other map, and signals and
  system calls that return at once.\<close>

definition env0 :: env where
  "env0 = \<lparr>Run0F = (\<lambda>a st m. (0, st, m)), RunF20F = (\<lambda>a st m. (0, st, m)), RunF30F = (\<lambda>a m. (0, m)), Run64 = (\<lambda>g a m. (0, m)),
     Run66 = (\<lambda>r a m. (0, m)), Run67 = (\<lambda>r a m. (0, m)), RunD8 = (\<lambda>c a m. (0, m)), RunF0 = (\<lambda>a m. (0, m)),
     emit_signal = (\<lambda>n a c m. m), emit_div0 = (\<lambda>a c m. m), x86Int3 = (\<lambda>m. m), x86Syscall = (\<lambda>m. m),
     x86emu_fork = (\<lambda>k m. m), my_setcontext = (\<lambda>c m. m), getAlternate = (\<lambda>a. a), box86_wine = False, reg_address = (\<lambda>r. 0)\<rparr>"

lemma env0_wf: "env_flags_wf env0"
  by (simp add: env_flags_wf_def env0_def keeps_flags_wf_def)

text \<open>C14. In every state the interpreter reaches, and in the one it returns, the reserved bits of the flag
  register read as on the processor (bit 1 set, bits 3, 5, 15 and above 21 clear) if they did at the
  start, for any code in memory and any functions outside the model that keep them.\<close>

theorem flags_wf_invariant:
  assumes "env_flags_wf env" "eflags_wf (eflags m)"
  shows "(reaches env (start st m) t \<longrightarrow> eflags_wf (eflags t)) \<and>
    (Run env st m = Some m' \<longrightarrow> eflags_wf (eflags m'))"
proof -
  have s: "reserved (start st m) = 2"
    using assms(2) by (simp add: start_def reserved_wf reserved_def machine.defs run.defs)
  have r: "reserved t = 2" if "reaches env (start st m) t" for t
    using reaches_wf [OF assms(1) that s] .
  have "reserved m' = 2" if ret: "Run env st m = Some m'"
  proof (cases "quit m = 0")
    case False
    then show ?thesis using ret assms(2) by (simp add: Run_def reserved_wf)
  next
    case True
    then obtain v where v: "x86emurun env (start st m) = Some v" "m' = machine.truncate v" using ret by (auto simp: Run_def)
    from loop_complete [OF v(1)] obtain u where "reaches env (start st m) u" "leaves env u v" by blast
    then have "reserved v = 2" using leaves_wf [OF assms(1)] r by blast
    then show ?thesis using v(2) by simp
  qed
  with r show ?thesis by (simp add: reserved_wf)
qed

theorem flags_wf_invariant_witness:
  "\<exists>t. step_of env0 (start 0 (machine.truncate (run0 [0x9D]))) t \<and> eflags_wf (eflags t)"
proof -
  define m where "m = machine.truncate (run0 [0x9D])"
  have w: "eflags_wf (eflags m)"
    by (simp add: m_def eflags_wf_def run0_def machine.defs)
  have f: "ip m = 0" "mem m 0 = 0x9D" "regs m 4 = 0x1000" "eflags m = 0x202" "ld32 m 0x1000 = 0"
    by (simp_all add: m_def run0_def machine.defs ld32_def)
  have "\<exists>t. instruction env0 (start 0 m) = Some (Next, t)"
  proof -
    define s where "s = start 0 m"
    have g: "addr s = 0" "ld8 s 0 = 0x9D" "regs s rSP = 0x1000" "ld32 s 0x1000 = 0" "eflags s = 0x202" "tf_next s = 0"
      using f by (simp_all add: s_def start_def machine.defs run.defs ld8_def ld32_def)
    have "\<not> ACCESS_FLAG F_TF (POPF (s\<lparr>old_ip := 0, addr := 1, rep := 0\<rparr>))"
      using g by (simp add: POPF_def Let_def case_prod_unfold ACCESS_FLAG_def ld32_def)
    then show ?thesis
      using g by (simp add: instruction_plain is_prefix_def execute_def ops_9B_9F_def finish_def trap_check_def flip: s_def)
  qed
  then obtain t where t: "step_of env0 (start 0 m) t" by (blast intro: step_of.through)
  then have "reaches env0 (start 0 m) t" by (blast intro: reaches.intros)
  then show ?thesis using t flags_wf_invariant [OF env0_wf w] unfolding m_def by blast
qed

end
