(* ===== verification/Control.thy ===== *)
theory Control
  imports InterpStack Invariant
begin

unbundle bit_operations_syntax

text \<open>
  What the control flow of the interpreter computes: the sixteen conditions after a comparison, as relations
  of the operands; conditional jumps; calls and returns; frames.
\<close>

section \<open>Conditions\<close>

text \<open>A condition by the status flags alone.\<close>

lemma cond_status:
  "cond k (UpdateFlags s) = (let a = visible_flags s in
     if k = 0x0 then a_OF a else if k = 0x1 then \<not> a_OF a else if k = 0x2 then a_CF a else if k = 0x3 then \<not> a_CF a
     else if k = 0x4 then a_ZF a else if k = 0x5 then \<not> a_ZF a else if k = 0x6 then a_ZF a \<or> a_CF a
     else if k = 0x7 then \<not> (a_ZF a \<or> a_CF a) else if k = 0x8 then a_SF a else if k = 0x9 then \<not> a_SF a
     else if k = 0xA then a_PF a else if k = 0xB then \<not> a_PF a else if k = 0xC then a_SF a \<noteq> a_OF a
     else if k = 0xD then a_SF a = a_OF a else if k = 0xE then a_ZF a \<or> a_SF a \<noteq> a_OF a
     else \<not> a_ZF a \<and> a_SF a = a_OF a)"
  by (simp add: cond_def visible_flags_def status_flags_def Let_def)

text \<open>The relation a condition stands for after the comparison of \<open>d\<close> with \<open>x\<close>.\<close>

definition relation :: "u8 \<Rightarrow> 'a::len word \<Rightarrow> 'a word \<Rightarrow> bool" where
  "relation k d x = (
     if k = 0x0 then sint d - sint x \<notin> signed_range TYPE('a)
     else if k = 0x1 then sint d - sint x \<in> signed_range TYPE('a)
     else if k = 0x2 then uint d < uint x
     else if k = 0x3 then uint x \<le> uint d
     else if k = 0x4 then d = x
     else if k = 0x5 then d \<noteq> x
     else if k = 0x6 then uint d \<le> uint x
     else if k = 0x7 then uint x < uint d
     else if k = 0x8 then sint (d - x) < 0
     else if k = 0x9 then 0 \<le> sint (d - x)
     else if k = 0xA then even_parity (d - x)
     else if k = 0xB then \<not> even_parity (d - x)
     else if k = 0xC then sint d < sint x
     else if k = 0xD then sint x \<le> sint d
     else if k = 0xE then sint d \<le> sint x
     else sint x < sint d)"

lemma signed_less_int:
  fixes a b h :: int
  assumes "0 \<le> a" "a < 2 * h" "0 \<le> b" "b < 2 * h"
  defines "sg \<equiv> \<lambda>k. if k < h then k else k - 2 * h"
  shows "(sg (if b \<le> a then a - b else a - b + 2 * h) < 0) \<noteq> (\<not> (- h \<le> sg a - sg b \<and> sg a - sg b < h)) \<longleftrightarrow> sg a < sg b"
  using assms by (auto split: if_splits)

lemma signed_less:
  fixes d x :: "'a::len word"
  shows "(sint (d - x) < 0) \<noteq> (sint d - sint x \<notin> signed_range TYPE('a)) \<longleftrightarrow> sint d < sint x"
proof -
  define h where "h = (2 :: int) ^ (LENGTH('a) - 1)"
  have L: "2 ^ LENGTH('a) = 2 * h" unfolding h_def by (simp flip: power_Suc)
  have c: "sint w = (if uint w < h then uint w else uint w - 2 * h)" for w :: "'a word"
    using sint_cases [of w] by (simp only: L h_def)
  have b: "0 \<le> uint w" "uint w < 2 * h" for w :: "'a word"
    using uint_lt2p [of w] unfolding L by simp_all
  have "uint (d - x) = (uint d - uint x) mod (2 * h)" by (simp only: uint_word_ariths L)
  also have "\<dots> = (if uint x \<le> uint d then uint d - uint x else uint d - uint x + 2 * h)"
  proof (cases "uint x \<le> uint d")
    case True
    then have "(uint d - uint x) mod (2 * h) = uint d - uint x"
      using b [of d] b [of x] by (intro mod_pos_pos_trivial) linarith+
    with True show ?thesis by simp
  next
    case False
    then have "(uint d - uint x + 2 * h) mod (2 * h) = uint d - uint x + 2 * h"
      using b [of d] b [of x] by (intro mod_pos_pos_trivial) linarith+
    with False show ?thesis by simp
  qed
  finally have u: "uint (d - x) = (if uint x \<le> uint d then uint d - uint x else uint d - uint x + 2 * h)" .
  have r: "k \<in> signed_range TYPE('a) \<longleftrightarrow> - h \<le> k \<and> k < h" for k by (simp add: signed_range_def h_def)
  show ?thesis
    using signed_less_int [OF b [of d] b [of x]] unfolding r c [of d] c [of x] c [of "d - x"] u .
qed

lemma relation_arch_sub:
  fixes d x :: "'a::len word"
  assumes "visible_flags s = arch_sub d x False"
  shows "cond k (UpdateFlags s) = relation k d x"
proof -
  define A where "A = arch_sub d x False"
  have A: "a_OF A \<longleftrightarrow> sint d - sint x \<notin> signed_range TYPE('a)" "a_CF A \<longleftrightarrow> uint d < uint x" "a_ZF A \<longleftrightarrow> d = x"
    "a_PF A \<longleftrightarrow> even_parity (d - x)" "a_SF A \<longleftrightarrow> sint (d - x) < 0"
    by (simp_all add: A_def arch_sub_def)
  have l: "(a_SF A \<noteq> a_OF A) = (sint d < sint x)" unfolding A by (rule signed_less)
  have m: "(a_SF A = a_OF A) = (sint x \<le> sint d)" using l by linarith
  have e: "d = x \<or> uint d < uint x \<longleftrightarrow> uint d \<le> uint x" "d = x \<or> sint d < sint x \<longleftrightarrow> sint d \<le> sint x"
    "d \<noteq> x \<and> sint x \<le> sint d \<longleftrightarrow> sint x < sint d"
    by (auto simp: le_less dest: signed_word_eqI unsigned_word_eqI)
  show ?thesis
    unfolding cond_status assms A_def [symmetric] relation_def Let_def l m
    by (simp only: A e not_less not_le not_not)
qed

text \<open>C13. A conditional branch right after CMP or SUB at 8, 16 or 32 bits: each of the sixteen conditions, evaluated
  on the pending flags, holds exactly if its relation holds of the operands (below, above, equal, less,
  greater, negative, overflow, parity, and their negations).\<close>

theorem conditions_after_compare:
  "cond k (UpdateFlags (snd (cmp8 s d8 x8))) = relation k d8 x8 \<and>
   cond k (UpdateFlags (snd (cmp16 s d16 x16))) = relation k d16 x16 \<and>
   cond k (UpdateFlags (snd (cmp32 s d32 x32))) = relation k d32 x32 \<and>
   cond k (UpdateFlags (snd (sub8 s d8 x8))) = relation k d8 x8 \<and>
   cond k (UpdateFlags (snd (sub16 s d16 x16))) = relation k d16 x16 \<and>
   cond k (UpdateFlags (snd (sub32 s d32 x32))) = relation k d32 x32"
  by (simp add: relation_arch_sub alu_laws)

section \<open>Calls and returns\<close>

lemma ld_Push_above:
  assumes "k < 2 ^ 30 - 1"
  shows "ld32 (Push v s) (regs s rSP + 4 * of_nat k) = ld32 s (regs s rSP + 4 * of_nat k)"
  using words_apart [OF assms, of "regs s rSP"] by (simp add: Push_eq ld32_st32_apart)

lemma ld_Push_top: "ld32 (Push v s) (regs s rSP - 4) = v"
  by (simp add: Push_eq)

lemma addr_Push [simp]: "addr (Push v s) = addr s" "step (Push v s) = step s"
  by (simp_all add: Push_def set_reg32_def st32_def Let_def)

text \<open>C16. CALL pushes the address after it and goes to its target. RET, or RETN with an argument count, run
  later with the stack pointer back where CALL left it and the pushed word still there, returns to
  that address and leaves the stack pointer where it was before the call (plus the count).\<close>

theorem call_ret_roundtrip:
  assumes "step s = 0" "step t = 0"
    and "regs t rSP = regs s rSP - 4" "ld32 t (regs s rSP - 4) = ld32 (snd (CALL_Id env s)) (regs s rSP - 4)"
  shows "fst (CALL_Id env s) = Next \<and> addr (snd (CALL_Id env s)) = getAlternate env (addr s + 4 + ld32 s (addr s)) \<and>
    regs (snd (CALL_Id env s)) = (regs s)(rSP := regs s rSP - 4) \<and>
    fst (RET t) = Next \<and> addr (snd (RET t)) = addr s + 4 \<and> regs (snd (RET t)) = (regs t)(rSP := regs s rSP) \<and>
    fst (RETN_Iw t) = Next \<and> addr (snd (RETN_Iw t)) = addr s + 4 \<and>
    regs (snd (RETN_Iw t)) = (regs t)(rSP := regs s rSP + ucast (ld16 t (addr t)))"
  using assms ld_Push_top [of "addr s + 4" "s\<lparr>addr := addr s + 4\<rparr>"]
  by (simp add: CALL_Id_def RET_def RETN_Iw_def STEP2_def F32_def F16_def jump_def Let_def case_prod_unfold reg32_def
      set_reg32_def add.commute ld32_def ld16_def)

theorem call_ret_roundtrip_witness:
  "addr (snd (RET (snd (CALL_Id env0 (run0 [0x10, 0, 0, 0]))))) = 4"
  using call_ret_roundtrip [of "run0 [0x10, 0, 0, 0]" "snd (CALL_Id env0 (run0 [0x10, 0, 0, 0]))" env0]
  by (simp add: CALL_Id_def STEP2_def F32_def jump_def Let_def run0_def)

section \<open>Frames\<close>

lemma enter_loop_keeps:
  assumes "k + n < 2 ^ 30 - 1"
  shows "ld32 (enter_loop n p s) (regs s rSP + 4 * of_nat k) = ld32 s (regs s rSP + 4 * of_nat k) \<and>
    regs (enter_loop n p s) = (regs s)(rSP := regs s rSP - 4 * of_nat n)"
  using assms
proof (induction n arbitrary: p s k)
  case (Suc n)
  define u where "u = Push (ld32 s (p - 4)) s"
  have "ld32 (enter_loop n (p - 4) u) (regs u rSP + 4 * of_nat (Suc k)) = ld32 u (regs u rSP + 4 * of_nat (Suc k)) \<and>
      regs (enter_loop n (p - 4) u) = (regs u)(rSP := regs u rSP - 4 * of_nat n)"
    using Suc.prems by (intro Suc.IH) simp
  moreover have "regs u rSP + 4 * of_nat (Suc k) = regs s rSP + 4 * of_nat k" by (simp add: u_def)
  moreover have "ld32 u (regs s rSP + 4 * of_nat k) = ld32 s (regs s rSP + 4 * of_nat k)"
    using Suc.prems unfolding u_def by (intro ld_Push_above) simp
  ultimately show ?case
    by (simp add: Let_def u_def algebra_simps)
qed simp

text \<open>The state before the display is copied, and the number of copies.\<close>

definition enter_state :: "run \<Rightarrow> run" where
  "enter_state s = (let s1 = snd (F8 (snd (F16 s))); p = Push (reg32 s1 rBP) s1 in set_reg32 rBP (reg32 p rSP) p)"

definition enter_levels :: "run \<Rightarrow> u8" where
  "enter_levels s = fst (F8 (snd (F16 s))) AND 0x1F"

lemma ENTER_shape:
  "ENTER s = (let u = enter_state s; b = enter_levels s; v = enter_loop (unat b - 1) (reg32 s rBP) u;
     w = (if b \<noteq> 0 then Push (reg32 v rBP) v else u)
   in set_reg32 rSP (reg32 w rSP - ucast (fst (F16 s))) w)"
proof -
  have e: "reg32 (snd (F8 (snd (F16 s)))) rBP = reg32 s rBP" by (simp add: F8_def F16_def reg32_def)
  show ?thesis
    unfolding ENTER_def Let_def case_prod_unfold enter_levels_def enter_state_def e by (rule refl)
qed

lemma enter_levels_bound: "unat (enter_levels s) - 1 < 1000"
proof -
  have "uint (enter_levels s) < 256" using uint_lt2p [of "enter_levels s"] by simp
  then have "unat (enter_levels s) < 256" by (simp only: nat_less_iff unat_eq_nat_uint uint_ge_0)
  then show ?thesis by linarith
qed

lemma enter_state_fields:
  "regs (enter_state s) = (regs s)(rSP := regs s rSP - 4, rBP := regs s rSP - 4)"
  "ld32 (enter_state s) (regs s rSP - 4) = regs s rBP"
proof -
  define s1 where "s1 = snd (F8 (snd (F16 s)))"
  have e: "regs s1 = regs s" by (simp add: s1_def F8_def F16_def)
  show "regs (enter_state s) = (regs s)(rSP := regs s rSP - 4, rBP := regs s rSP - 4)"
    "ld32 (enter_state s) (regs s rSP - 4) = regs s rBP"
    using ld_Push_top [of "regs s rBP" s1]
    by (simp_all add: enter_state_def Let_def reg32_def e flip: s1_def)
qed

lemma ENTER_frame:
  "regs (ENTER s) rBP = regs s rSP - 4 \<and> ld32 (ENTER s) (regs s rSP - 4) = regs s rBP \<and>
   (\<forall>r. r \<noteq> rSP \<longrightarrow> r \<noteq> rBP \<longrightarrow> regs (ENTER s) r = regs s r)"
proof -
  define u where "u = enter_state s"
  define n where "n = unat (enter_levels s) - 1"
  define v where "v = enter_loop n (reg32 s rBP) u"
  define w where "w = (if enter_levels s \<noteq> 0 then Push (reg32 v rBP) v else u)"
  have E: "ENTER s = set_reg32 rSP (reg32 w rSP - ucast (fst (F16 s))) w"
    by (simp only: ENTER_shape Let_def w_def v_def n_def u_def)
  have n: "n < 1000" unfolding n_def by (rule enter_levels_bound)
  have u: "regs u = (regs s)(rSP := regs s rSP - 4, rBP := regs s rSP - 4)" "ld32 u (regs s rSP - 4) = regs s rBP"
    unfolding u_def by (rule enter_state_fields)+
  have "0 + n < 2 ^ 30 - 1" using n by simp
  note k = enter_loop_keeps [OF this, of "reg32 s rBP" u, folded v_def]
  have r: "regs v = (regs u)(rSP := regs u rSP - 4 * of_nat n)" using k by blast
  have l: "ld32 v (regs s rSP - 4) = regs s rBP" using k u by simp
  have p: "ld32 (Push (reg32 v rBP) v) (regs s rSP - 4) = ld32 v (regs s rSP - 4)"
  proof -
    have "regs v rSP + 4 * of_nat n = regs s rSP - 4" by (simp add: r u(1))
    moreover have "n < 2 ^ 30 - 1" using n by simp
    ultimately show ?thesis using ld_Push_above [of n "reg32 v rBP" v] by simp
  qed
  have "ld32 w (regs s rSP - 4) = regs s rBP" using p l u(2) by (simp add: w_def)
  moreover have "regs w r = regs u r" if "r \<noteq> rSP" for r using that by (simp add: w_def r)
  ultimately show ?thesis by (simp add: E u(1))
qed

text \<open>ENTER with any frame size and nesting level, then LEAVE in any state that still has the frame pointer and
  the word it points to: the frame and stack pointers are those before ENTER, and no other register
  is written by either.\<close>

theorem enter_leave_roundtrip:
  assumes "regs t rBP = regs (ENTER s) rBP" "ld32 t (regs t rBP) = ld32 (ENTER s) (regs (ENTER s) rBP)"
  shows "regs (LEAVE t) = (regs t)(rBP := regs s rBP, rSP := regs s rSP) \<and>
    (\<forall>r. r \<noteq> rSP \<longrightarrow> r \<noteq> rBP \<longrightarrow> regs (ENTER s) r = regs s r)"
  using assms ENTER_frame [of s]
  by (auto simp: LEAVE_def Let_def case_prod_unfold reg32_def fun_eq_iff)

theorem enter_leave_roundtrip_witness:
  "regs (LEAVE (ENTER (run0 [0x10, 0, 3]))) rSP = 0x1000"
  using enter_leave_roundtrip [of "ENTER (run0 [0x10, 0, 3])" "run0 [0x10, 0, 3]", OF refl refl] by (simp add: run0_def)

section \<open>The flag register on the stack\<close>

lemma masked_wf: "eflags_wf w \<Longrightarrow> (w AND 0x3F7FD7) OR 2 = w"
proof (rule bit_word_eqI)
  fix n assume w: "eflags_wf w" and n: "n < LENGTH(32)"
  have e: "(0x3F7FD7 :: int) = unset_bit 15 (unset_bit 5 (unset_bit 3 (mask 22)))"
    by (simp add: unset_bit_eq mask_eq_exp_minus_1)
  have b: "bit (0x3F7FD7 :: int) n \<longleftrightarrow> n < 22 \<and> n \<notin> {3, 5, 15}"
    unfolding e by (auto simp: bit_unset_bit_iff bit_mask_iff)
  have t: "bit (2 :: int) n \<longleftrightarrow> n = 1" using bit_exp_iff [of 1 n, where 'a = int] by auto
  have "bit (w AND 0xFFC0802A) n = bit (2 :: u32) n" using w by (simp add: eflags_wf_def)
  then show "bit ((w AND 0x3F7FD7) OR 2) n = bit w n"
    using n by (auto simp: bit_simps reserved_mask_bits b t)
qed

text \<open>PUSHF stores the flags a program sees, pending ones evaluated, and POPF right after it loads them back:
  the whole flag register, the status flags and the registers are as before, and nothing is pending.\<close>

theorem pushf_popf_roundtrip:
  assumes "eflags_wf (eflags s)"
  shows "eflags (POPF (PUSHF s)) = eflags (UpdateFlags s) \<and> visible_flags (POPF (PUSHF s)) = visible_flags s \<and>
    regs (POPF (PUSHF s)) = regs s \<and> df (POPF (PUSHF s)) = d_none"
proof -
  have "eflags_wf (eflags (UpdateFlags s))" using assms by (simp add: reserved_wf)
  then have m: "(eflags (UpdateFlags s) AND 0x3F7FD7) OR 2 = eflags (UpdateFlags s)" by (rule masked_wf)
  have g: "regs (UpdateFlags s) = regs s" using arg_cong [OF UpdateFlags_frame [of s], of regs] by (simp add: erase_flags_def)
  define t where "t = PUSHF s"
  have t: "ld32 t (regs t rSP) = eflags (UpdateFlags s)" "regs t = (regs s)(rSP := regs s rSP - 4)"
    by (simp_all add: t_def PUSHF_def Let_def Push_eq g)
  have p: "eflags (POPF t) = eflags (UpdateFlags s)" "regs (POPF t) = regs s" "df (POPF t) = d_none"
    using t m by (simp_all add: POPF_def Let_def case_prod_unfold RESET_FLAGS_def ld32_def fun_eq_iff)
  have "visible_flags (POPF t) = visible_flags s"
    using p by (simp add: visible_eager) (simp add: visible_flags_def status_flags_def ACCESS_FLAG_def)
  with p show ?thesis by (simp add: t_def)
qed

theorem pushf_popf_roundtrip_witness:
  "eflags (POPF (PUSHF (snd (sub32 (run0 []) 1 2)))) = eflags (UpdateFlags (snd (sub32 (run0 []) 1 2)))"
proof -
  have "reserved (run0 []) = 2" by (simp add: reserved_def run0_def)
  then have "eflags_wf (eflags (snd (sub32 (run0 []) 1 2)))" by (simp add: reserved_wf)
  then show ?thesis using pushf_popf_roundtrip by blast
qed

end
