(* ===== verification/RunLoop.thy ===== *)
theory RunLoop
  imports Control
begin

unbundle bit_operations_syntax

text \<open>
  The loop of \<open>Run\<close> as a whole: when the scan over prefixes ends, how an opcode no part of the
  interpreter knows leaves the loop, what a far call through memory does to \<open>EIP\<close>, and a whole
  program, a counted loop, followed from its first instruction to the system call that ends it.
\<close>

section \<open>The prefix scan\<close>

lemma prefixes_halt:
  assumes "\<not> is_prefix (mem s (addr s + of_nat k))"
  shows "\<exists>r. prefixes b s = Some r"
  using assms
proof (induction k arbitrary: b s)
  case 0
  then have "prefixes (mem s (addr s)) (t\<lparr>addr := x\<rparr>) = Some (mem s (addr s), t\<lparr>addr := x\<rparr>)" for t x
    by (subst prefixes.simps) simp
  then show ?case
    by (subst prefixes.simps) (auto simp: F8_def ld8_def note_prefix_def)
next
  case (Suc k)
  have "\<exists>r. prefixes c (t\<lparr>addr := addr s + 1\<rparr>) = Some r" if "mem t = mem s" for c t
    using Suc.prems that by (intro Suc.IH) (simp add: add.assoc)
  then show ?case
    by (subst prefixes.simps) (auto simp: F8_def ld8_def note_prefix_def)
qed

lemma prefixes_diverge:
  assumes "prefixes b s = Some r"
  shows "is_prefix b \<longrightarrow> (\<exists>a. \<not> is_prefix (mem s a))"
  using assms
proof (induction rule: prefixes.raw_induct [rotated, consumes 1, case_names loop])
  case (loop f b s r)
  have n: "mem (note_prefix b s) = mem s" by (simp add: note_prefix_def)
  show ?case
  proof
    assume "is_prefix b"
    then have "f (mem s (addr s)) ((note_prefix b s)\<lparr>addr := addr s + 1\<rparr>) = Some r"
      using loop(2) by (simp add: F8_def ld8_def note_prefix_def split: if_splits)
    from loop(1) [OF this] show "\<exists>a. \<not> is_prefix (mem s a)" by (auto simp: n)
  qed
qed

text \<open>C25. The interpreter gets past the prefixes of an instruction exactly if some byte of memory is
  not a prefix; if every byte is F2, F3 or 3E the scan runs round the address space for ever.\<close>

theorem prefix_scan_terminates:
  "(\<exists>r. instruction env s = Some r) \<longleftrightarrow> (\<exists>a. \<not> is_prefix (mem s a))"
proof
  assume "\<exists>a. \<not> is_prefix (mem s a)"
  then obtain a where a: "\<not> is_prefix (mem s a)" by blast
  define t where "t = s\<lparr>old_ip := addr s, addr := addr s + 1, rep := 0\<rparr>"
  have "\<not> is_prefix (mem t (addr t + of_nat (unat (a - addr t))))"
    using a by (simp add: t_def)
  then have "\<exists>r. prefixes (mem s (addr s)) t = Some r" by (rule prefixes_halt)
  then show "\<exists>r. instruction env s = Some r"
    by (auto simp: instruction_def F8_def ld8_def t_def)
next
  assume "\<exists>r. instruction env s = Some r"
  then obtain p where "prefixes (mem s (addr s)) (s\<lparr>old_ip := addr s, addr := addr s + 1, rep := 0\<rparr>) = Some p"
    by (auto simp: instruction_def F8_def ld8_def split: option.splits)
  from prefixes_diverge [OF this] show "\<exists>a. \<not> is_prefix (mem s a)" by auto
qed

section \<open>Unknown opcodes\<close>

text \<open>The instruction at \<open>EIP\<close> is one no part of the interpreter implements: a far jump or call with an
  immediate address, an undefined form of the byte group FE, or an opcode another map returns 0 for.\<close>

definition unknown_opcode :: "env \<Rightarrow> int \<Rightarrow> machine \<Rightarrow> bool" where
  "unknown_opcode env st m = (let b = mem m (ip m); a = ip m + 1; m = m\<lparr>old_ip := ip m\<rparr> in
     b = 0x9A \<or> b = 0xEA
     \<or> b = 0xFE \<and> 1 < drop_bit 3 (mem m a) AND 7
     \<or> b = 0x0F \<and> Run0F env a st m = (0, st, m)
     \<or> b = 0x64 \<and> Run64 env sFS a m = (0, m)
     \<or> b = 0x65 \<and> Run64 env sGS a m = (0, m)
     \<or> b = 0x66 \<and> Run66 env 0 a m = (0, m)
     \<or> b = 0x67 \<and> Run67 env 0 a m = (0, m)
     \<or> 0xD8 \<le> b \<and> b < 0xE0 \<and> RunD8 env b a m = (0, m)
     \<or> b = 0xF0 \<and> RunF0 env a m = (0, m))"

lemma truncate_locals [simp]:
  "machine.truncate (s\<lparr>addr := a\<rparr>) = machine.truncate s" "machine.truncate (s\<lparr>rep := k\<rparr>) = machine.truncate s"
  "machine.truncate (s\<lparr>step := i\<rparr>) = machine.truncate s" "machine.truncate (s\<lparr>unimp := b\<rparr>) = machine.truncate s"
  "machine.truncate (s\<lparr>tf_next := i\<rparr>) = machine.truncate s"
  "machine.truncate (s\<lparr>old_ip := v\<rparr>) = (machine.truncate s)\<lparr>old_ip := v\<rparr>"
  "machine.truncate (s\<lparr>ip := v\<rparr>) = (machine.truncate s)\<lparr>ip := v\<rparr>"
  "machine.truncate (s\<lparr>quit := i\<rparr>) = (machine.truncate s)\<lparr>quit := i\<rparr>"
  "machine.truncate (s\<lparr>err := v\<rparr>) = (machine.truncate s)\<lparr>err := v\<rparr>"
  by (simp_all add: machine.defs)

lemma truncate_geteb [simp]: "machine.truncate (snd (geteb b s)) = machine.truncate s"
  by (simp add: geteb_def getecommon_def F8_def F8S_def F32_def Let_def case_prod_unfold)

lemma run_map_unknown:
  assumes "f (addr s) (machine.truncate s) = (0, machine.truncate s)"
  shows "fst (run_map f s) = Fini \<and> unimp (snd (run_map f s)) \<and> machine.truncate (snd (run_map f s)) = machine.truncate s"
  using assms by (simp add: run_map_def not_implemented_def)

lemma run_map_step_unknown:
  assumes "f (addr s) (step s) (machine.truncate s) = (0, step s, machine.truncate s)"
  shows "fst (run_map_step f s) = Fini \<and> unimp (snd (run_map_step f s)) \<and> machine.truncate (snd (run_map_step f s)) = machine.truncate s"
  using assms by (simp add: run_map_step_def not_implemented_def)

lemma execute_unknown:
  "execute env 0x9A s = not_implemented s" "execute env 0xEA s = not_implemented s"
  "execute env 0xFE s = GRP5_Eb s"
  "rep s = 0 \<Longrightarrow> execute env 0x0F s = run_map_step (Run0F env) s"
  "execute env 0x64 s = run_map (Run64 env sFS) s" "execute env 0x65 s = run_map (Run64 env sGS) s"
  "execute env 0x66 s = run_map (Run66 env (rep s)) s" "execute env 0x67 s = run_map (Run67 env (rep s)) s"
  "execute env 0xF0 s = run_map (RunF0 env) s"
  by (simp_all add: execute_def ops_00_3F_def ops_60_6F_def ops_E0_EF_def ops_F0_FF_def)

lemma execute_x87:
  assumes "0xD8 \<le> b" "b < 0xE0"
  shows "execute env b s = run_map (RunD8 env b) s" and x87_prefix: "\<not> is_prefix b"
proof -
  have lt: "\<not> b < n" if "n \<le> 0xD8" for n using assms(1) that by (meson leD order_trans)
  have ne: "b \<noteq> n" if "n < 0xD8 \<or> 0xE0 \<le> n" for n using assms that by auto
  have l: "\<not> b < 0x40" "\<not> b < 0x50" "\<not> b < 0x60" "\<not> b < 0x70" "\<not> b < 0x80" "\<not> b < 0x90" "\<not> b < 0x9A"
      "\<not> b < 0xA0" "\<not> b < 0xA4" "\<not> b < 0xB0" "\<not> b < 0xC0" "\<not> b < 0xC2" "\<not> b < 0xD0" "\<not> b < 0xD4" "\<not> b < 0xD6" "\<not> b < 0xD8"
    by (rule lt, simp)+
  have n: "b \<noteq> 0x9A" "b \<noteq> 0xA8" "b \<noteq> 0xA9" "b \<noteq> 0xC6" "b \<noteq> 0xC7" "b \<noteq> 0xF2" "b \<noteq> 0xF3" "b \<noteq> 0x3E"
    by (rule ne, simp)+
  show "execute env b s = run_map (RunD8 env b) s"
    unfolding execute_def using l n assms(2) by (simp only: if_False if_True simp_thms)
  show "\<not> is_prefix b" using n by (simp add: is_prefix_def)
qed

lemma unknown_execute:
  assumes "unknown_opcode env st m"
  defines "s \<equiv> (start st m)\<lparr>old_ip := ip m, addr := ip m + 1, rep := 0\<rparr>"
  shows "\<not> is_prefix (mem m (ip m)) \<and> (let r = execute env (mem m (ip m)) s in
    fst r = Fini \<and> unimp (snd r) \<and> machine.truncate (snd r) = m\<lparr>old_ip := ip m\<rparr>)"
proof -
  have s: "addr s = ip m + 1" "step s = st" "rep s = 0" "machine.truncate s = m\<lparr>old_ip := ip m\<rparr>" "ld8 s (ip m + 1) = mem m (ip m + 1)"
    by (simp_all add: s_def start_def machine.defs run.defs ld8_def)
  have ni: "fst (not_implemented s) = Fini \<and> unimp (snd (not_implemented s)) \<and> machine.truncate (snd (not_implemented s)) = m\<lparr>old_ip := ip m\<rparr>"
    using s by (simp add: not_implemented_def)
  have fe: "fst (GRP5_Eb s) = Fini \<and> unimp (snd (GRP5_Eb s)) \<and> machine.truncate (snd (GRP5_Eb s)) = m\<lparr>old_ip := ip m\<rparr>"
    if "1 < drop_bit 3 (mem m (ip m + 1)) AND 7"
    using that s by (auto simp: GRP5_Eb_def F8_def Let_def case_prod_unfold not_implemented_def)
  have rm: "fst (run_map f s) = Fini \<and> unimp (snd (run_map f s)) \<and> machine.truncate (snd (run_map f s)) = m\<lparr>old_ip := ip m\<rparr>"
    if "f (ip m + 1) (m\<lparr>old_ip := ip m\<rparr>) = (0, m\<lparr>old_ip := ip m\<rparr>)" for f
    using run_map_unknown [of f s] that s by simp
  have rs: "fst (run_map_step f s) = Fini \<and> unimp (snd (run_map_step f s)) \<and> machine.truncate (snd (run_map_step f s)) = m\<lparr>old_ip := ip m\<rparr>"
    if "f (ip m + 1) st (m\<lparr>old_ip := ip m\<rparr>) = (0, st, m\<lparr>old_ip := ip m\<rparr>)" for f
    using run_map_step_unknown [of f s] that s by simp
  define b where "b = mem m (ip m)"
  have "b = 0x9A \<or> b = 0xEA \<or> b = 0xFE \<and> 1 < drop_bit 3 (mem m (ip m + 1)) AND 7
     \<or> b = 0x0F \<and> Run0F env (ip m + 1) st (m\<lparr>old_ip := ip m\<rparr>) = (0, st, m\<lparr>old_ip := ip m\<rparr>)
     \<or> b = 0x64 \<and> Run64 env sFS (ip m + 1) (m\<lparr>old_ip := ip m\<rparr>) = (0, m\<lparr>old_ip := ip m\<rparr>)
     \<or> b = 0x65 \<and> Run64 env sGS (ip m + 1) (m\<lparr>old_ip := ip m\<rparr>) = (0, m\<lparr>old_ip := ip m\<rparr>)
     \<or> b = 0x66 \<and> Run66 env 0 (ip m + 1) (m\<lparr>old_ip := ip m\<rparr>) = (0, m\<lparr>old_ip := ip m\<rparr>)
     \<or> b = 0x67 \<and> Run67 env 0 (ip m + 1) (m\<lparr>old_ip := ip m\<rparr>) = (0, m\<lparr>old_ip := ip m\<rparr>)
     \<or> (0xD8 \<le> b \<and> b < 0xE0) \<and> RunD8 env b (ip m + 1) (m\<lparr>old_ip := ip m\<rparr>) = (0, m\<lparr>old_ip := ip m\<rparr>)
     \<or> b = 0xF0 \<and> RunF0 env (ip m + 1) (m\<lparr>old_ip := ip m\<rparr>) = (0, m\<lparr>old_ip := ip m\<rparr>)"
  proof -
    have "mem (m\<lparr>old_ip := ip m\<rparr>) = mem m" by simp
    then show ?thesis using assms(1) by (simp only: unknown_opcode_def Let_def b_def conj_assoc)
  qed
  then show ?thesis
    unfolding b_def [symmetric] Let_def
    by (elim disjE conjE; simp add: execute_unknown execute_x87 x87_prefix is_prefix_def [of "numeral _"] ni fe rm rs s(3))
qed

text \<open>C26. An instruction without a prefix F2, F3 or 3E that the interpreter does not implement ends the run, when it is
  started with \<open>quit\<close> and the trap flag clear: the SIGILL handler is called with \<open>EIP\<close> on the first byte of the instruction,
  and if that handler leaves \<open>fork\<close> and \<open>uc_link\<close> clear, \<open>Run\<close> returns with \<open>quit\<close> set
  and \<open>ERR_UNIMPL\<close> recorded. The instructions meant are 9A, EA, FE with an operation above 1, and those whose first
  byte is 0F, 64, 65, 66, 67, F0 or D8 to DF and whose opcode map answers that it does not know them, with
  the state as it was.\<close>

theorem unimplemented_stops:
  assumes "quit m = 0" "\<not> ACCESS_FLAG F_TF m" "unknown_opcode env st m"
    and "h = emit_signal env SIGILL (ip m) 0 (m\<lparr>old_ip := ip m\<rparr>)" "fork h = 0" "uc_link h = 0"
  shows "Run env st m = Some (h\<lparr>quit := 1, err := err h OR ERR_UNIMPL\<rparr>)"
proof -
  define s where "s = (start st m)\<lparr>old_ip := ip m, addr := ip m + 1, rep := 0\<rparr>"
  define r where "r = execute env (mem m (ip m)) s"
  define t where "t = snd r"
  have p: "\<not> is_prefix (mem m (ip m))" and r: "r = (Fini, t)" "unimp t" "machine.truncate t = m\<lparr>old_ip := ip m\<rparr>"
    using unknown_execute [OF assms(3)] by (simp_all add: Let_def r_def t_def s_def prod_eq_iff)
  have a: "addr (start st m) = ip m" "ld8 (start st m) (ip m) = mem m (ip m)"
    by (simp_all add: start_def machine.defs run.defs ld8_def)
  have i: "instruction env (start st m) = Some (Fini, t)"
    using p a r(1) by (simp add: instruction_plain finish_def flip: s_def r_def)
  have f: "eflags t = eflags m" "quit t = quit m" "old_ip t = ip m"
    using arg_cong [OF r(3), of eflags] arg_cong [OF r(3), of quit] arg_cong [OF r(3), of old_ip]
    by (simp_all add: machine.defs)
  define w where "w = on_machine (emit_signal env SIGILL (ip m) 0) (UnimpOpcode t)"
  have w: "machine.truncate w = h"
    using r(3) f by (simp add: w_def UnimpOpcode_def assms(4))
  then have wf: "fork w = 0" "uc_link w = 0" "err w = err h"
    using assms(5,6) by (auto simp: machine.defs)
  have "fini env t = (False, w\<lparr>quit := 1, err := err w OR 1\<rparr>)"
    using r(2) f assms(2) wf unfolding fini_def
    by (simp add: ACCESS_FLAG_def Let_def UnimpOpcode_def w_def)
  then have "leaves env (start st m) (w\<lparr>quit := 1, err := err w OR 1\<rparr>)"
    using i by (auto simp: leaves_iff)
  from loop_leave [OF this] show ?thesis
    using assms(1) w wf by (simp add: Run_def)
qed

theorem unimplemented_stops_witness:
  "quit (the (Run env0 0 (machine.truncate (run0 [0x9A])))) = 1"
proof -
  define m where "m = machine.truncate (run0 [0x9A])"
  have m: "quit m = 0" "\<not> ACCESS_FLAG F_TF m" "ip m = 0" "mem m 0 = 0x9A" "fork m = 0" "uc_link m = 0"
    by (simp_all add: m_def run0_def machine.defs ACCESS_FLAG_def)
  define h where "h = m\<lparr>old_ip := ip m\<rparr>"
  have u: "unknown_opcode env0 0 m" using m by (simp add: unknown_opcode_def)
  have h: "h = emit_signal env0 SIGILL (ip m) 0 (m\<lparr>old_ip := ip m\<rparr>)" "fork h = 0" "uc_link h = 0"
    using m by (simp_all add: h_def env0_def)
  show ?thesis
    unfolding m_def [symmetric] unimplemented_stops [OF m(1,2) u h] by simp
qed

section \<open>A far call through memory\<close>

lemma Push_control [simp]:
  "segs (Push v s) = segs s" "quit (Push v s) = quit s" "fork (Push v s) = fork s" "uc_link (Push v s) = uc_link s"
  "unimp (Push v t) = unimp t"
  by (simp_all add: Push_def set_reg32_def st32_def Let_def)

text \<open>A far call through memory (FF /3) leaves the interpreter with \<open>quit\<close> clear and \<open>EIP\<close> still
  on the call, although the return frame has been pushed and CS loaded: the address read from the
  operand is dropped, so a caller that resumes at \<open>EIP\<close> makes the call again.\<close>

theorem call_far_loses_target:
  assumes "quit m = 0" "fork m = 0" "uc_link m = 0" "\<not> ACCESS_FLAG F_TF m"
    and "mem m (ip m) = 0xFF" "mem m (ip m + 1) = 0x18"
  shows "\<exists>m'. Run env st m = Some m' \<and> ip m' = ip m \<and> quit m' = 0 \<and>
    regs m' = (regs m)(rSP := regs m rSP - 8) \<and> stack_words 1 m' = [ip m + 2] \<and>
    segs m' = (segs m)(sCS := ld16 m' (regs m rAX + 4))"
proof -
  define s where "s = (start st m)\<lparr>old_ip := ip m, addr := ip m + 1, rep := 0\<rparr>"
  have s: "addr s = ip m + 1" "ld8 s (ip m + 1) = 0x18" "regs s = regs m" "segs s = segs m" "eflags s = eflags m" "fork s = 0"
      "uc_link s = 0" "quit s = 0" "unimp s = False" "ip s = ip m"
    using assms by (simp_all add: s_def start_def machine.defs run.defs ld8_def)
  define w where "w = Push (ip m + 2) (Push (ucast (segs m sCS)) (s\<lparr>addr := ip m + 2\<rparr>))"
  define t where "t = w\<lparr>addr := getAlternate env (ld32 w (regs m rAX)), segs := (segs m)(sCS := ld16 w (regs m rAX + 4))\<rparr>"
  have w: "regs w = (regs m)(rSP := regs m rSP - 8)" "segs w = segs m" "eflags w = eflags m" "ip w = ip m" "quit w = 0"
      "fork w = 0" "uc_link w = 0" "\<not> unimp w"
    using s by (simp_all add: w_def fun_eq_iff)
  have "ld32 w (regs m rSP - 8) = ip m + 2"
    using ld_Push_top [of "ip m + 2" "Push (ucast (segs m sCS)) (s\<lparr>addr := ip m + 2\<rparr>)"] s by (simp add: w_def)
  then have t: "regs t = (regs m)(rSP := regs m rSP - 8)" "segs t = (segs m)(sCS := ld16 t (regs m rAX + 4))"
      "ld32 t (regs m rSP - 8) = ip m + 2" "eflags t = eflags m" "ip t = ip m" "quit t = 0" "fork t = 0" "uc_link t = 0" "\<not> unimp t"
    using w by (simp_all add: t_def ld16_def ld32_def)
  have r: "GRP5_Ed env s = (Fini, t)"
  proof -
    have "w = Push (addr (Push (ucast (segs m sCS)) (s\<lparr>addr := ip m + 2\<rparr>))) (Push (ucast (segs m sCS)) (s\<lparr>addr := ip m + 2\<rparr>))"
      by (simp add: w_def)
    then show ?thesis
      using s w(2) by (simp add: GRP5_Ed_def F8_def Let_def case_prod_unfold geted_def MODREG_def getecommon_def set_CS_def
          reg32_def t_def ld16_def add.assoc)
  qed
  have i: "instruction env (start st m) = Some (Fini, t)"
  proof -
    have "addr (start st m) = ip m" "ld8 (start st m) (ip m) = 0xFF"
      using assms by (simp_all add: start_def machine.defs run.defs ld8_def)
    then show ?thesis
      using r by (simp add: instruction_plain is_prefix_def execute_def ops_F0_FF_def finish_def flip: s_def)
  qed
  have "fini env t = (False, t)"
    using t assms(4) unfolding fini_def by (simp add: ACCESS_FLAG_def Let_def)
  then have "leaves env (start st m) t"
    using i by (auto simp: leaves_iff)
  from loop_leave [OF this] show ?thesis
    using assms(1) t
    by (intro exI [of _ "machine.truncate t"])
      (simp add: Run_def machine.defs stack_words_def ld16_def ld32_def reg32_def)
qed

theorem call_far_loses_target_witness:
  "ip (the (Run env0 0 (machine.truncate (run0 [0xFF, 0x18])))) = 0"
proof -
  define m where "m = machine.truncate (run0 [0xFF, 0x18])"
  have "quit m = 0" "fork m = 0" "uc_link m = 0" "\<not> ACCESS_FLAG F_TF m" "mem m (ip m) = 0xFF" "mem m (ip m + 1) = 0x18" "ip m = 0"
    by (simp_all add: m_def run0_def machine.defs ACCESS_FLAG_def)
  with call_far_loses_target [of m env0 0] show ?thesis unfolding m_def [symmetric] by auto
qed

section \<open>A program\<close>

text \<open>What the instructions of the example do not write.\<close>

definition same_control :: "run \<Rightarrow> run \<Rightarrow> bool" where
  "same_control s t = (mem t = mem s \<and> quit t = quit s \<and> fork t = fork s \<and> uc_link t = uc_link s \<and> unimp t = unimp s \<and>
     step t = step s \<and> ACCESS_FLAG F_TF t = ACCESS_FLAG F_TF s)"

lemma same_control_trans: "same_control s t \<Longrightarrow> same_control t u \<Longrightarrow> same_control s u"
  by (simp add: same_control_def)

lemma erase_fields:
  assumes "erase_flags s = erase_flags (t :: run)"
  shows "mem s = mem t" "regs s = regs t" "addr s = addr t" "quit s = quit t" "fork s = fork t" "uc_link s = uc_link t"
    "unimp s = unimp t" "step s = step t" "ip s = ip t"
  using arg_cong [OF assms, of mem] arg_cong [OF assms, of regs] arg_cong [OF assms, of addr] arg_cong [OF assms, of quit]
    arg_cong [OF assms, of fork] arg_cong [OF assms, of uc_link] arg_cong [OF assms, of unimp] arg_cong [OF assms, of step]
    arg_cong [OF assms, of ip]
  by (simp_all add: erase_flags_def)

lemma trap_keeps:
  "ACCESS_FLAG F_TF (uf_add32 e) = ACCESS_FLAG F_TF e" "ACCESS_FLAG F_TF (uf_dec32 e) = ACCESS_FLAG F_TF e"
  by (simp_all add: uf_add32_def uf_dec32_def Let_def flag_simps)

lemma step_through:
  assumes "\<not> is_prefix (mem s (addr s))" "\<not> ACCESS_FLAG F_TF t"
    and "execute env (mem s (addr s)) (s\<lparr>old_ip := addr s, addr := addr s + 1, rep := 0\<rparr>) = (Next, t)"
  shows "step_of env s (t\<lparr>ip := addr t\<rparr>)"
  using assms by (intro step_of.through) (simp add: instruction_plain ld8_def finish_def trap_check_def)

lemma step_add:
  assumes "mem s (addr s) = 0x01" "mem s (addr s + 1) = 0xC8" "\<not> ACCESS_FLAG F_TF s"
  shows "\<exists>t. step_of env s t \<and> same_control s t \<and> addr t = addr s + 2 \<and> df t = d_add32 \<and>
    regs t = (regs s)(rAX := regs s rAX + regs s rCX)"
proof -
  define u where "u = s\<lparr>old_ip := addr s, rep := 0, addr := 2 + addr s\<rparr>"
  define v where "v = snd (add32 u (regs s rAX) (regs s rCX))"
  define t where "t = set_reg32 rAX (regs s rAX + regs s rCX) v"
  have f: "mem v = mem u" "regs v = regs u" "addr v = addr u" "quit v = quit u" "fork v = fork u" "uc_link v = uc_link u"
      "unimp v = unimp u" "step v = step u"
    using erase_fields [of v u] by (simp_all add: v_def alu_laws)
  have tf: "ACCESS_FLAG F_TF v = ACCESS_FLAG F_TF s" "df v = d_add32"
    by (simp_all add: v_def add32_def Let_def ACCESS_FLAG_def u_def)
  have "execute env (mem s (addr s)) (s\<lparr>old_ip := addr s, addr := addr s + 1, rep := 0\<rparr>) = (Next, t)"
    using assms(1,2) alu_add32.value_of [of u "regs s rAX" "regs s rCX"]
    by (simp add: execute_def ops_00_3F_def ops_GO_def GO_def F8_def ld8_def Let_def case_prod_unfold geted_def MODREG_def
        rm_field_def reg_field_def GD_def upd32_def reg32_def t_def v_def u_def)
  then have "step_of env s (t\<lparr>ip := addr t\<rparr>)"
    using assms tf by (intro step_through) (auto simp: is_prefix_def t_def set_reg32_def ACCESS_FLAG_def)
  then show ?thesis
    using f tf by (intro exI [of _ "t\<lparr>ip := addr t\<rparr>"]) (simp add: same_control_def t_def set_reg32_def u_def ACCESS_FLAG_def)
qed

lemma step_dec:
  assumes "mem s (addr s) = 0x49" "df s = d_add32" "\<not> ACCESS_FLAG F_TF s"
  shows "\<exists>t. step_of env s t \<and> same_control s t \<and> addr t = addr s + 1 \<and> df t = d_dec32 \<and>
    regs t = (regs s)(rCX := regs s rCX - 1) \<and> a_ZF (visible_flags t) = (regs s rCX = 1)"
proof -
  define u where "u = s\<lparr>old_ip := addr s, addr := addr s + 1, rep := 0\<rparr>"
  define v where "v = snd (dec32 u (regs s rCX))"
  define t where "t = set_reg32 rCX (regs s rCX - 1) v"
  have f: "mem v = mem u" "regs v = regs u" "addr v = addr u" "quit v = quit u" "fork v = fork u" "uc_link v = uc_link u"
      "unimp v = unimp u" "step v = step u"
    using erase_fields [of v u] by (simp_all add: v_def unary_frame)
  have tf: "ACCESS_FLAG F_TF v = ACCESS_FLAG F_TF s" "df v = d_dec32"
  proof -
    have "ACCESS_FLAG F_TF (UpdateFlags u) = ACCESS_FLAG F_TF u"
      using assms(2) by (simp add: UpdateFlags_tag u_def trap_keeps)
    then show "ACCESS_FLAG F_TF v = ACCESS_FLAG F_TF s" "df v = d_dec32"
      using assms(2) by (simp_all add: v_def dec32_def Let_def CHECK_FLAGS_def u_def) (simp_all add: ACCESS_FLAG_def)
  qed
  have z: "a_ZF (visible_flags v) = (regs s rCX = 1)"
    by (simp add: v_def dec32_flags arch_sub_def)
  have "execute env (mem s (addr s)) u = (Next, t)"
    using assms(1) unary_values [of u]
    by (simp add: execute_def ops_inc_dec_def rm_field_def upd32_def reg32_def Let_def case_prod_unfold t_def v_def) (simp add: u_def)
  then have "step_of env s (t\<lparr>ip := addr t\<rparr>)"
    using assms tf by (intro step_through) (auto simp: is_prefix_def t_def u_def set_reg32_def ACCESS_FLAG_def)
  moreover have "a_ZF (visible_flags (t\<lparr>ip := addr t\<rparr>)) = a_ZF (visible_flags v)"
    using tf by (simp add: t_def set_reg32_def visible_flags_def UpdateFlags_tag uf_dec32_def Let_def status_flags_def flag_simps)
  ultimately show ?thesis
    using f tf z by (intro exI [of _ "t\<lparr>ip := addr t\<rparr>"]) (simp add: same_control_def t_def set_reg32_def u_def ACCESS_FLAG_def)
qed

lemma step_jnz:
  assumes "mem s (addr s) = 0x75" "mem s (addr s + 1) = 0xFB" "df s = d_dec32" "\<not> ACCESS_FLAG F_TF s"
  shows "\<exists>t. step_of env s t \<and> same_control s t \<and> regs t = regs s \<and>
    addr t = (if a_ZF (visible_flags s) then addr s + 2 else addr s - 3)"
proof -
  define u where "u = s\<lparr>old_ip := addr s, rep := 0, addr := 2 + addr s\<rparr>"
  define v where "v = UpdateFlags u"
  define t where "t = (if a_ZF (visible_flags s) then v else v\<lparr>addr := addr s - 3\<rparr>)"
  have f: "mem v = mem u" "regs v = regs u" "addr v = addr u" "quit v = quit u" "fork v = fork u" "uc_link v = uc_link u"
      "unimp v = unimp u" "step v = step u"
    using erase_fields [of v u] by (simp_all add: v_def)
  have tf: "ACCESS_FLAG F_TF v = ACCESS_FLAG F_TF s"
    using assms(3) by (simp add: v_def UpdateFlags_tag u_def trap_keeps) (simp add: ACCESS_FLAG_def)
  have z: "ACCESS_FLAG F_ZF v = a_ZF (visible_flags s)"
    using assms(3) by (simp add: v_def u_def visible_flags_def UpdateFlags_tag uf_dec32_def Let_def status_flags_def flag_simps)
  have u: "addr u - 5 = addr s - 3" by (simp add: u_def)
  have "execute env (mem s (addr s)) (s\<lparr>old_ip := addr s, addr := addr s + 1, rep := 0\<rparr>) = (Next, t)"
    using assms(1,2) z f(3) u
    by (simp add: execute_def Jcc_def cond_def F8S_def ld8_def Let_def case_prod_unfold jump_def t_def flip: u_def v_def)
  then have "step_of env s (t\<lparr>ip := addr t\<rparr>)"
    using assms tf by (intro step_through) (auto simp: is_prefix_def t_def ACCESS_FLAG_def)
  then show ?thesis
    using f tf by (intro exI [of _ "t\<lparr>ip := addr t\<rparr>"]) (auto simp: same_control_def t_def u_def ACCESS_FLAG_def)
qed

definition sum_loop :: "u8 list" where
  "sum_loop = [0x01, 0xC8, 0x49, 0x75, 0xFB, 0xCD, 0x80]"

definition code_at :: "u32 \<Rightarrow> u8 list \<Rightarrow> 'a machine_scheme \<Rightarrow> bool" where
  "code_at p bs s = (\<forall>i < length bs. mem s (p + of_nat i) = bs ! i)"

lemma sum_loop_bytes:
  assumes "code_at p sum_loop s"
  shows "mem s p = 0x01" "mem s (p + 1) = 0xC8" "mem s (p + 2) = 0x49" "mem s (p + 3) = 0x75" "mem s (p + 4) = 0xFB"
    "mem s (p + 5) = 0xCD" "mem s (p + 6) = 0x80"
proof -
  have "mem s (p + of_nat i) = sum_loop ! i" if "i < 7" for i
    using assms that by (simp add: code_at_def sum_loop_def)
  from this [of 0] this [of 1] this [of 2] this [of 3] this [of 4] this [of 5] this [of 6]
  show "mem s p = 0x01" "mem s (p + 1) = 0xC8" "mem s (p + 2) = 0x49" "mem s (p + 3) = 0x75" "mem s (p + 4) = 0xFB"
    "mem s (p + 5) = 0xCD" "mem s (p + 6) = 0x80"
    by (simp_all add: sum_loop_def)
qed

lemma loop_round:
  assumes "code_at (addr s) sum_loop s" "\<not> ACCESS_FLAG F_TF s"
  shows "\<exists>t. reaches env s t \<and> same_control s t \<and> addr t = (if regs s rCX = 1 then addr s + 5 else addr s) \<and>
    regs t = (regs s)(rAX := regs s rAX + regs s rCX, rCX := regs s rCX - 1)"
proof -
  note b = sum_loop_bytes [OF assms(1)]
  obtain t where t: "step_of env s t" "same_control s t" "addr t = addr s + 2" "df t = d_add32"
      "regs t = (regs s)(rAX := regs s rAX + regs s rCX)"
    using step_add [OF b(1,2) assms(2)] by blast
  have m: "mem t = mem s" "\<not> ACCESS_FLAG F_TF t" using t(2) assms(2) by (simp_all add: same_control_def)
  obtain u where u: "step_of env t u" "same_control t u" "addr u = addr t + 1" "df u = d_dec32"
      "regs u = (regs t)(rCX := regs t rCX - 1)" "a_ZF (visible_flags u) = (regs t rCX = 1)"
    using step_dec [of t env] b(3) t m by auto
  have n: "mem u = mem s" "\<not> ACCESS_FLAG F_TF u" using u(2) m by (simp_all add: same_control_def)
  obtain v where v: "step_of env u v" "same_control u v" "regs v = regs u"
      "addr v = (if a_ZF (visible_flags u) then addr u + 2 else addr u - 3)"
    using step_jnz [of u env] b(4,5) u t n by (auto simp: add.assoc)
  have "reaches env s v" using t(1) u(1) v(1) by (blast intro: reaches.intros)
  moreover have "same_control s v" using t(2) u(2) v(2) by (blast intro: same_control_trans)
  ultimately show ?thesis
    using t u v by (intro exI [of _ v]) (auto simp: fun_eq_iff)
qed

lemma loop_rounds:
  assumes "code_at (addr s) sum_loop s" "\<not> ACCESS_FLAG F_TF s" "unat (regs s rCX) = Suc n"
  shows "\<exists>t. reaches env s t \<and> same_control s t \<and> addr t = addr s + 5 \<and>
    regs t = (regs s)(rAX := regs s rAX + of_nat (\<Sum>{..Suc n}), rCX := 0)"
  using assms
proof (induction n arbitrary: s)
  case 0
  then have c: "regs s rCX = 1" by (metis One_nat_def unat_1 unsigned_word_eqI)
  have one: "(of_nat (\<Sum>{..Suc 0}) :: u32) = 1" by simp
  show ?case unfolding one using loop_round [OF 0(1,2), of env] c by (auto simp: fun_upd_def)
next
  case (Suc n)
  obtain t where t: "reaches env s t" "same_control s t" "addr t = (if regs s rCX = 1 then addr s + 5 else addr s)"
      "regs t = (regs s)(rAX := regs s rAX + regs s rCX, rCX := regs s rCX - 1)"
    using loop_round [OF Suc.prems(1,2)] by blast
  have c: "regs s rCX = of_nat (Suc (Suc n))" unfolding Suc.prems(3) [symmetric] by simp
  have k: "unat (regs t rCX) = Suc n"
  proof -
    have "regs s rCX \<noteq> 0" using Suc.prems(3) by auto
    from unat_minus_one [OF this] show ?thesis using Suc.prems(3) t(4) by simp
  qed
  have "regs s rCX \<noteq> 1" using Suc.prems(3) by auto
  then have "addr t = addr s" using t(3) by simp
  have ct: "code_at (addr t) sum_loop t" "\<not> ACCESS_FLAG F_TF t"
    using Suc.prems(1,2) t(2) \<open>addr t = addr s\<close> by (simp_all add: same_control_def code_at_def)
  obtain u where u: "reaches env t u" "same_control t u" "addr u = addr t + 5"
      "regs u = (regs t)(rAX := regs t rAX + of_nat (\<Sum>{..Suc n}), rCX := 0)"
    using Suc.IH [OF ct k] by blast
  have "(of_nat (\<Sum>{..Suc (Suc n)}) :: u32) = of_nat (\<Sum>{..Suc n}) + regs s rCX"
    by (simp add: c)
  then have "regs u = (regs s)(rAX := regs s rAX + of_nat (\<Sum>{..Suc (Suc n)}), rCX := 0)"
    using u(4) t(4) by (simp add: fun_eq_iff algebra_simps)
  moreover have "reaches env s u" by (rule reaches_trans [OF t(1) u(1)])
  moreover have "same_control s u" by (rule same_control_trans [OF t(2) u(2)])
  moreover have "addr u = addr s + 5" using u(3) \<open>addr t = addr s\<close> by simp
  ultimately show ?case by blast
qed

text \<open>What the system call 1 (exit) does, \<open>case 1\<close> of \<open>x86Syscall\<close> in \<open>emu/x86syscall.c\<close>: it ends the run and
  answers with \<open>EBX\<close>. Nothing is said of other numbers.\<close>

definition exit_call :: "(machine \<Rightarrow> machine) \<Rightarrow> bool" where
  "exit_call f = (\<forall>e. regs e rAX = 1 \<longrightarrow> quit (f e) = 1 \<and> regs (f e) = (regs e)(rAX := regs e rBX) \<and>
     mem (f e) = mem e \<and> ip (f e) = ip e \<and> fork (f e) = fork e \<and> uc_link (f e) = uc_link e)"

text \<open>C27. A whole program: the loop ADD EAX,ECX; DEC ECX; JNZ; INT 0x80, run from its first instruction with a
  nonzero \<open>ECX\<close>, with \<open>quit\<close>, \<open>fork\<close>, \<open>uc_link\<close> and the trap flag clear, goes round \<open>ECX\<close> times and reaches the system call
  with \<open>EAX\<close> grown by 1 + 2 + ... + \<open>ECX\<close>, \<open>ECX\<close> 0, every other register and the memory as they were. \<open>EAX\<close> is such at the start that it
  then is 1, the number of exit. If the system call exit does what it does in the source (the hypothesis
  \<open>exit_call\<close>: it sets \<open>quit\<close>, moves \<open>EBX\<close> to \<open>EAX\<close> and leaves the memory, \<open>EIP\<close>, \<open>fork\<close> and
  \<open>uc_link\<close> alone), \<open>Run\<close> returns what it made of that state.\<close>

theorem sum_loop_returns:
  assumes "quit m = 0" "\<not> ACCESS_FLAG F_TF m" "code_at (ip m) sum_loop m" "regs m rCX \<noteq> 0" "fork m = 0" "uc_link m = 0"
    and one: "regs m rAX + of_nat (\<Sum>{..unat (regs m rCX)}) = 1" and exits: "exit_call (x86Syscall env)"
  shows "\<exists>e m'. Run env 0 m = Some m' \<and> m' = x86Syscall env e \<and> mem e = mem m \<and> ip e = ip m + 7 \<and>
    regs e = (regs m)(rAX := regs m rAX + of_nat (\<Sum>{..unat (regs m rCX)}), rCX := 0) \<and>
    quit m' = 1 \<and> mem m' = mem m \<and> ip m' = ip m + 7 \<and> regs m' = (regs m)(rAX := regs m rBX, rCX := 0)"
proof -
  define s where "s = start 0 m"
  have s: "addr s = ip m" "mem s = mem m" "regs s = regs m" "eflags s = eflags m" "\<not> unimp s" "fork s = fork m" "uc_link s = uc_link m"
    by (simp_all add: s_def start_def machine.defs run.defs)
  then have c: "code_at (addr s) sum_loop s" "\<not> ACCESS_FLAG F_TF s"
    using assms(2,3) by (simp_all add: code_at_def ACCESS_FLAG_def)
  obtain n where n: "unat (regs s rCX) = Suc n"
    using assms(4) s by (metis not0_implies_Suc unat_eq_zero)
  obtain t where t: "reaches env s t" "same_control s t" "addr t = ip m + 5"
      "regs t = (regs s)(rAX := regs s rAX + of_nat (\<Sum>{..Suc n}), rCX := 0)"
    using loop_rounds [OF c n] s by auto
  have m: "mem t (addr t) = 0xCD" "mem t (addr t + 1) = 0x80" "\<not> unimp t"
    using sum_loop_bytes [OF c(1)] t(2,3) s by (simp_all add: same_control_def add.assoc)
  define e where "e = machine.truncate (t\<lparr>old_ip := ip t, ip := 2 + addr t\<rparr>)"
  define u where "u = on_machine (x86Syscall env) (t\<lparr>rep := 0, addr := 2 + addr t, old_ip := ip t, ip := 2 + addr t\<rparr>)"
  have u: "machine.truncate u = x86Syscall env e" "\<not> unimp u"
    using m by (simp_all add: u_def e_def)
  have e: "mem e = mem m" "ip e = ip m + 7" "regs e = (regs m)(rAX := regs m rAX + of_nat (\<Sum>{..unat (regs m rCX)}), rCX := 0)"
      "fork e = 0" "uc_link e = 0"
    using t s n assms(5,6) by (simp_all add: e_def same_control_def machine.defs)
  then have x: "quit (x86Syscall env e) = 1" "fork (x86Syscall env e) = 0" "uc_link (x86Syscall env e) = 0"
      "mem (x86Syscall env e) = mem m" "ip (x86Syscall env e) = ip m + 7"
      "regs (x86Syscall env e) = (regs m)(rAX := regs m rBX, rCX := 0)"
    using exits one by (simp_all add: exit_call_def fun_upd_twist)
  then have q: "quit u \<noteq> 0" "fork u = 0" "uc_link u = 0"
    unfolding u(1) [symmetric] by (simp_all add: machine.defs)
  have "execute env 0xCD (t\<lparr>old_ip := addr t, addr := addr t + 1, rep := 0\<rparr>) = (Fini, u\<lparr>addr := ip u\<rparr>)"
    using m q(1) by (simp add: execute_def ops_C2_CF_def INT_Ib_def F8_def ld8_def enter_native_def Let_def u_def)
  then have "instruction env t = Some (Fini, u\<lparr>addr := ip u\<rparr>)"
    using m by (simp add: instruction_plain ld8_def is_prefix_def finish_def)
  moreover have "fini env (u\<lparr>addr := ip u\<rparr>) = (False, u\<lparr>addr := ip u\<rparr>)"
    using q u(2) by (simp add: fini_def Let_def)
  ultimately have "leaves env t (u\<lparr>addr := ip u\<rparr>)" by (auto simp: leaves_iff)
  then have "x86emurun env s = Some (u\<lparr>addr := ip u\<rparr>)"
    using loop_reaches [OF t(1)] loop_leave by metis
  then have "Run env 0 m = Some (x86Syscall env e)"
    using assms(1) u(1) by (simp add: Run_def s_def)
  then show ?thesis using e(1-3) x by blast
qed

theorem sum_loop_returns_witness:
  "\<exists>e. Run (env0\<lparr>x86Syscall := (\<lambda>m. m\<lparr>quit := (if regs m rAX = 1 then 1 else quit m), regs := (regs m)(rAX := regs m rBX)\<rparr>)\<rparr>) 0
      ((machine.truncate (run0 sum_loop))\<lparr>regs := (\<lambda>r. if r = rAX then - 5 else 3)\<rparr>) = Some e \<and> regs e rAX = 3 \<and> quit e = 1"
proof -
  define f where "f = (\<lambda>m :: machine. m\<lparr>quit := (if regs m rAX = 1 then 1 else quit m), regs := (regs m)(rAX := regs m rBX)\<rparr>)"
  define m where "m = (machine.truncate (run0 sum_loop))\<lparr>regs := (\<lambda>r. if r = rAX then - 5 else 3)\<rparr>"
  have c: "code_at (ip m) sum_loop m"
  proof -
    have "unat (of_nat i :: u32) = i" if "i < 7" for i
      using that by (simp add: unat_of_nat)
    then show ?thesis by (simp add: code_at_def m_def run0_def machine.defs sum_loop_def)
  qed
  have six: "(\<Sum>{..unat (3 :: u32)}) = 6"
  proof -
    have "unat (3 :: u32) = Suc (Suc (Suc 0))" by simp
    then show ?thesis by (simp only:) simp
  qed
  have "quit m = 0" "\<not> ACCESS_FLAG F_TF m" "regs m rCX \<noteq> 0" "regs m rCX = 3" "regs m rAX = - 5" "regs m rBX = 3" "fork m = 0" "uc_link m = 0"
    by (simp_all add: m_def run0_def machine.defs ACCESS_FLAG_def)
  moreover have "exit_call (x86Syscall (env0\<lparr>x86Syscall := f\<rparr>))" by (simp add: exit_call_def f_def)
  ultimately show ?thesis
    using sum_loop_returns [of m "env0\<lparr>x86Syscall := f\<rparr>"] c six unfolding m_def [symmetric] f_def [symmetric] by fastforce
qed

end
