(* ===== verification/Callback.thy ===== *)
theory Callback
  imports RunLoop
begin

unbundle bit_operations_syntax

text \<open>
  Native code calling emulated code: \<open>EmuCall\<close> of \<open>src/emu/x86emu.c\<close>, \<open>DynaCall\<close> and
  \<open>DynaRun\<close> of \<open>src/dynarec/dynarec.c\<close>, the callbacks of \<open>src/tools/callback.c\<close>, and the
  functions run at exit (\<open>AddCleanup\<close> and the calls of \<open>src/emu/x86emu.c\<close>). The recompiler is a
  parameter: the lookup of a translated block and its execution. The jump buffers through which signal
  handlers leave a run are not modelled.
\<close>

section \<open>Running until quit\<close>

record dynenv =
  interp :: env
  box86_dynarec :: bool
  DBGetBlock :: "machine \<Rightarrow> u32 option"
  arm_prolog :: "u32 \<Rightarrow> machine \<Rightarrow> machine"

text \<open>What \<open>DynaRun\<close> does after a block or an instruction.\<close>

definition after_block :: "env \<Rightarrow> machine \<Rightarrow> machine" where
  "after_block env m = (let
     m = (if fork m \<noteq> 0 then let
         forktype = fork m;
         m = m\<lparr>quit := 0\<rparr>;
         m = m\<lparr>fork := 0\<rparr>
       in x86emu_fork env forktype m
       else m)
   in if quit m \<noteq> 0 \<and> uc_link m \<noteq> 0 then let
       m = m\<lparr>quit := 0\<rparr>
     in my_setcontext env (uc_link m) m
     else m)"

definition run_block :: "dynenv \<Rightarrow> machine \<Rightarrow> machine option" where
  "run_block D m = (
     if \<not> box86_dynarec D then Run (interp D) 0 m
     else let block = (if ACCESS_FLAG F_TF m then None else DBGetBlock D m) in
       map_option (after_block (interp D)) (case block of None \<Rightarrow> Run (interp D) 1 m | Some b \<Rightarrow> Some (arm_prolog D b m)))"

partial_function (option) DynaRun :: "dynenv \<Rightarrow> machine \<Rightarrow> machine option" where
  "DynaRun D m = (if quit m \<noteq> 0 then Some m
     else case run_block D m of None \<Rightarrow> None | Some m \<Rightarrow> DynaRun D m)"

section \<open>Calls\<close>

text \<open>What both kinds of call restore of the caller's registers.\<close>

definition restore_regs :: "machine \<Rightarrow> machine \<Rightarrow> machine" where
  "restore_regs old m = (let
     m = set_reg32 rBX (reg32 old rBX) m;
     m = set_reg32 rDI (reg32 old rDI) m;
     m = set_reg32 rSI (reg32 old rSI) m;
     m = set_reg32 rBP (reg32 old rBP) m;
     m = set_reg32 rSP (reg32 old rSP) m
   in m\<lparr>ip := ip old\<rparr>)"

definition EmuCall :: "env \<Rightarrow> u32 \<Rightarrow> u32 \<Rightarrow> machine \<Rightarrow> machine option" where
  "EmuCall env exit_bridge a m0 = (let
     m = PushExit exit_bridge m0;
     m = m\<lparr>ip := a\<rparr>;
     m = m\<lparr>df := d_none\<rparr>
   in case Run env 0 m of
        None \<Rightarrow> None
      | Some m \<Rightarrow> Some (let
          m = m\<lparr>quit := 0\<rparr>;
          m = m\<lparr>df := d_none\<rparr>
        in if quitonlongjmp m \<noteq> 0 \<and> longjmp m then
             if quitonlongjmp m = 1 then m\<lparr>longjmp := False\<rparr> else m
           else restore_regs m0 m))"

definition DynaCall :: "dynenv \<Rightarrow> u32 \<Rightarrow> u32 \<Rightarrow> machine \<Rightarrow> machine option" where
  "DynaCall D exit_bridge a m0 = (let
     m = m0\<lparr>uc_link := 0\<rparr>;
     m = PushExit exit_bridge m;
     m = m\<lparr>ip := a\<rparr>;
     m = m\<lparr>df := d_none\<rparr>
   in case DynaRun D m of
        None \<Rightarrow> None
      | Some m \<Rightarrow> Some (let
          m = m\<lparr>quit := 0\<rparr>;
          m = m\<lparr>df := d_none\<rparr>;
          m = m\<lparr>uc_link := uc_link m0\<rparr>
        in if quitonlongjmp m \<noteq> 0 \<and> longjmp m then
             if quitonlongjmp m = 1 then m\<lparr>longjmp := False\<rparr> else m
           else let
             m = m\<lparr>df := df m0\<rparr>;
             m = m\<lparr>op1 := op1 m0\<rparr>;
             m = m\<lparr>op2 := op2 m0\<rparr>;
             m = m\<lparr>res := res m0\<rparr>
           in restore_regs m0 m))"

section \<open>Callbacks\<close>

primrec put_args :: "u32 \<Rightarrow> u32 list \<Rightarrow> 'a machine_scheme \<Rightarrow> 'a machine_scheme" where
  "put_args p [] s = s"
| "put_args p (v # vs) s = put_args (p + 4) vs (st32 p v s)"

definition push_args :: "u32 list \<Rightarrow> 'a machine_scheme \<Rightarrow> 'a machine_scheme" where
  "push_args args m = (let m = set_reg32 rSP (reg32 m rSP - of_nat (length args) * 4) m in put_args (reg32 m rSP) args m)"

definition drop_args :: "u32 list \<Rightarrow> 'a machine_scheme \<Rightarrow> 'a machine_scheme" where
  "drop_args args m = set_reg32 rSP (reg32 m rSP + of_nat (length args) * 4) m"

definition RunFunction :: "dynenv \<Rightarrow> u32 \<Rightarrow> u32 \<Rightarrow> u32 list \<Rightarrow> machine \<Rightarrow> (u32 \<times> machine) option" where
  "RunFunction D exit_bridge fnc args m = (case DynaCall D exit_bridge fnc (push_args args m) of
      None \<Rightarrow> None
    | Some m \<Rightarrow> (let m = drop_args args m in Some (reg32 m rAX, m)))"

definition RunFunction64 :: "dynenv \<Rightarrow> u32 \<Rightarrow> u32 \<Rightarrow> u32 list \<Rightarrow> machine \<Rightarrow> (u64 \<times> machine) option" where
  "RunFunction64 D exit_bridge fnc args m = (case DynaCall D exit_bridge fnc (push_args args m) of
      None \<Rightarrow> None
    | Some m \<Rightarrow> (let m = drop_args args m in Some (ucast (reg32 m rAX) OR push_bit 32 (ucast (reg32 m rDX)), m)))"

definition RunFunctionWithEmu :: "dynenv \<Rightarrow> u32 \<Rightarrow> 2 word \<Rightarrow> u32 \<Rightarrow> u32 list \<Rightarrow> machine \<Rightarrow> (u32 \<times> machine) option" where
  "RunFunctionWithEmu D exit_bridge QuitOnLongJump fnc args m0 = (let
     m = push_args args m0;
     m = m\<lparr>quit := 0\<rparr>;
     m = m\<lparr>quitonlongjmp := QuitOnLongJump\<rparr>
   in case DynaCall D exit_bridge fnc m of
      None \<Rightarrow> None
    | Some m \<Rightarrow> (let
        m = (if ip m0 = ip m then drop_args args m else m);
        m = m\<lparr>quit := quit m0\<rparr>;
        m = m\<lparr>quitonlongjmp := quitonlongjmp m0\<rparr>
      in Some (reg32 m rAX, m)))"

definition save_regs :: "'a machine_scheme \<Rightarrow> 'a machine_scheme" where
  "save_regs m = (let
     m = Push (reg32 m rBP) m;
     m = set_reg32 rBP (reg32 m rSP) m;
     m = Push (reg32 m rDI) m;
     m = Push (reg32 m rSI) m;
     m = Push (reg32 m rDX) m;
     m = Push (reg32 m rCX) m;
     m = Push (reg32 m rBX) m
   in Push (reg32 m rAX) m)"



section \<open>What a callee finds and a caller keeps\<close>

lemma put_args_regs [simp]: "regs (put_args p vs s) = regs s" "ip (put_args p vs s) = ip s"
  "eflags (put_args p vs s) = eflags s" "df (put_args p vs s) = df s"
  by (induction vs arbitrary: p s) simp_all

lemma put_args_control [simp]:
  "op1 (put_args p vs s) = op1 s" "op2 (put_args p vs s) = op2 s" "res (put_args p vs s) = res s"
  "uc_link (put_args p vs s) = uc_link s" "quit (put_args p vs s) = quit s"
  "quitonlongjmp (put_args p vs s) = quitonlongjmp s" "longjmp (put_args p vs s) = longjmp s"
  by (induction vs arbitrary: p s) (simp_all add: st32_def)

lemma st32_commute:
  assumes "apart a b"
  shows "st32 a v (st32 b w s) = st32 b w (st32 a v s)"
proof -
  have "mem (st32 a v (st32 b w s)) x = mem (st32 b w (st32 a v s)) x" for x
    using apart_offset [OF assms, of 0 0] apart_offset [OF assms, of 0 1] apart_offset [OF assms, of 0 2] apart_offset [OF assms, of 0 3]
      apart_offset [OF assms, of 1 0] apart_offset [OF assms, of 1 1] apart_offset [OF assms, of 1 2] apart_offset [OF assms, of 1 3]
      apart_offset [OF assms, of 2 0] apart_offset [OF assms, of 2 1] apart_offset [OF assms, of 2 2] apart_offset [OF assms, of 2 3]
      apart_offset [OF assms, of 3 0] apart_offset [OF assms, of 3 1] apart_offset [OF assms, of 3 2] apart_offset [OF assms, of 3 3]
    by (simp add: st32_def)
  then have "mem (st32 a v (st32 b w s)) = mem (st32 b w (st32 a v s))" by (rule ext)
  then show ?thesis by (simp add: st32_def)
qed

text \<open>Storing the arguments upwards is pushing them from the last to the first.\<close>

lemma put_args_st32:
  "k + length vs < 2 ^ 30 \<Longrightarrow>
    put_args (p + 4 * of_nat (Suc k)) vs (st32 p v s) = st32 p v (put_args (p + 4 * of_nat (Suc k)) vs s)"
proof (induction vs arbitrary: k s)
  case (Cons w vs)
  have a: "apart (p + 4 * of_nat (Suc k)) p"
    using words_apart [of k "p + 4"] Cons.prems by (simp add: algebra_simps)
  have e: "p + 4 * of_nat (Suc k) + 4 = p + 4 * of_nat (Suc (Suc k))" by simp
  show ?case
    unfolding put_args.simps e st32_commute [OF a] using Cons.IH [of "Suc k"] Cons.prems by simp
qed simp

lemma st32_set_regs: "st32 p v (s\<lparr>regs := g\<rparr>) = (st32 p v s)\<lparr>regs := g\<rparr>"
  by (simp add: st32_def)

lemma put_args_set_regs: "put_args p vs (s\<lparr>regs := g\<rparr>) = (put_args p vs s)\<lparr>regs := g\<rparr>"
  by (induction vs arbitrary: p s) (simp_all add: st32_set_regs)

lemma push_args_eq: "length args < 2 ^ 30 \<Longrightarrow> push_args args s = fold Push (rev args) s"
proof (induction args arbitrary: s)
  case Nil
  show ?case by (simp add: push_args_def set_reg32_def reg32_def)
next
  case (Cons v vs)
  define q where "q = regs s rSP - of_nat (length vs) * 4"
  have "fold Push (rev (v # vs)) s = Push v (push_args vs s)"
    using Cons by simp
  also have "\<dots> = st32 (q - 4) v (set_reg32 rSP (q - 4) (put_args q vs s))"
    by (simp add: push_args_def Let_def put_args_set_regs Push_eq reg32_def set_reg32_def q_def)
  also have "\<dots> = put_args q vs (st32 (q - 4) v (set_reg32 rSP (q - 4) s))"
    using put_args_st32 [of 0 vs "q - 4" v "set_reg32 rSP (q - 4) s"] Cons.prems
    by (simp add: put_args_set_regs st32_set_regs set_reg32_def)
  also have "\<dots> = push_args (v # vs) s"
    by (simp add: push_args_def Let_def reg32_def q_def algebra_simps)
  finally show ?case by simp
qed

lemma push_args_words:
  assumes "n + length args < 2 ^ 30"
  shows "stack_words (n + length args) (push_args args s) = args @ stack_words n s"
  using guest_stack.items_pushes [of n "rev args" s] assms push_args_eq [of args s] by simp

text \<open>The state \<open>DynaRun\<close> gets from a call and what the call makes of the state it returns.\<close>

definition entry_state :: "u32 \<Rightarrow> u32 \<Rightarrow> machine \<Rightarrow> machine" where
  "entry_state exit_bridge a m = (PushExit exit_bridge (m\<lparr>uc_link := 0\<rparr>))\<lparr>ip := a, df := d_none\<rparr>"

definition left_by_longjmp :: "machine \<Rightarrow> bool" where
  "left_by_longjmp m = (quitonlongjmp m \<noteq> 0 \<and> longjmp m)"

lemma restore_regs_eq:
  "restore_regs old m = m\<lparr>regs := (regs m)(rBX := regs old rBX, rDI := regs old rDI, rSI := regs old rSI, rBP := regs old rBP,
     rSP := regs old rSP), ip := ip old\<rparr>"
  by (simp add: restore_regs_def Let_def set_reg32_def reg32_def)

lemma DynaCall_normal:
  assumes "DynaRun D (entry_state exit_bridge a m) = Some e'" "\<not> left_by_longjmp e'"
  shows "DynaCall D exit_bridge a m = Some (e'\<lparr>quit := 0, uc_link := uc_link m, df := df m, op1 := op1 m, op2 := op2 m, res := res m,
    regs := (regs e')(rBX := regs m rBX, rDI := regs m rDI, rSI := regs m rSI, rBP := regs m rBP, rSP := regs m rSP),
    ip := ip m\<rparr>)"
proof -
  have "\<not> (quitonlongjmp e' \<noteq> 0 \<and> longjmp e')" using assms(2) by (simp add: left_by_longjmp_def)
  then have "(if quitonlongjmp e' \<noteq> 0 \<and> longjmp e' then x else y) = y" for x y :: machine by (rule if_not_P)
  then show ?thesis
    using assms(1) unfolding DynaCall_def entry_state_def Let_def by (simp del: fun_upd_apply add: restore_regs_eq)
qed

lemma DynaCall_run:
  "DynaCall D exit_bridge a m = None \<longleftrightarrow> DynaRun D (entry_state exit_bridge a m) = None"
  by (simp add: DynaCall_def entry_state_def Let_def split: option.splits)

lemma entry_words:
  assumes "n + length args < 2 ^ 30 - 1"
  shows "stack_words (Suc (n + length args)) (entry_state exit_bridge fnc (push_args args m)) = exit_bridge # args @ stack_words n m"
proof -
  have s: "stack_words k (t\<lparr>ip := a, df := d\<rparr>) = stack_words k t" "stack_words k (t\<lparr>uc_link := u\<rparr>) = stack_words k t"
    for k t a d u by (simp_all add: stack_words_def reg32_def ld32_def)
  show ?thesis
    using guest_stack.items_push [OF assms, of exit_bridge "(push_args args m)\<lparr>uc_link := 0\<rparr>"] push_args_words [of n args m] assms
    by (simp add: entry_state_def PushExit_eq s)
qed

lemma entry_fields:
  "ip (entry_state x fnc m) = fnc" "df (entry_state x fnc m) = d_none" "uc_link (entry_state x fnc m) = 0"
  "regs (entry_state x fnc m) = (regs m)(rSP := regs m rSP - 4)"
  by (simp_all add: entry_state_def PushExit_eq)

lemma put_args_more [simp]: "fork (put_args p vs s) = fork s"
  by (induction vs arbitrary: p s) (simp_all add: st32_def)

lemma Push_more [simp]: "quitonlongjmp (Push v s) = quitonlongjmp s" "longjmp (Push v s) = longjmp s" "uc_link (Push v s) = uc_link s"
  by (simp_all add: Push_def st32_def set_reg32_def Let_def)

lemma call_state_control:
  "quit (entry_state x f m) = quit m" "fork (entry_state x f m) = fork m" "eflags (entry_state x f m) = eflags m"
  "quitonlongjmp (entry_state x f m) = quitonlongjmp m"
  "quit (push_args args m) = quit m" "fork (push_args args m) = fork m" "eflags (push_args args m) = eflags m"
  "quitonlongjmp (push_args args m) = quitonlongjmp m"
  "quit (save_regs m) = quit m" "fork (save_regs m) = fork m" "eflags (save_regs m) = eflags m"
  "quitonlongjmp (save_regs m) = quitonlongjmp m"
  by (simp_all add: entry_state_def PushExit_eq push_args_def save_regs_def Let_def set_reg32_def)

text \<open>C31. A callback hands the emulated function its arguments the way the calling convention wants them: the
  function starts with the exit bridge as return address on top of the stack, the arguments above
  it in order, the caller's stack above them, and no pending flags. When the run ends normally the caller gets
  EAX, its own stack pointer, EBX, ESI, EDI, EBP, \<open>EIP\<close>, pending flags and context link back, and
  \<open>quit\<close> clear.\<close>

theorem callback_frame:
  assumes "n + length args < 2 ^ 30 - 1"
    and "e = entry_state exit_bridge fnc (push_args args m)" "DynaRun D e = Some e'" "\<not> left_by_longjmp e'"
  shows "stack_words (Suc (n + length args)) e = exit_bridge # args @ stack_words n m \<and> ip e = fnc \<and> df e = d_none \<and>
    (\<exists>m'. RunFunction D exit_bridge fnc args m = Some (regs e' rAX, m') \<and>
      regs m' = (regs e')(rBX := regs m rBX, rDI := regs m rDI, rSI := regs m rSI, rBP := regs m rBP, rSP := regs m rSP) \<and>
      ip m' = ip m \<and> quit m' = 0 \<and> uc_link m' = uc_link m \<and>
      df m' = df m \<and> op1 m' = op1 m \<and> op2 m' = op2 m \<and> res m' = res m \<and> mem m' = mem e')"
proof -
  have p: "regs (push_args args m) = (regs m)(rSP := regs m rSP - of_nat (length args) * 4)" "ip (push_args args m) = ip m"
    "df (push_args args m) = df m" "op1 (push_args args m) = op1 m" "op2 (push_args args m) = op2 m" "res (push_args args m) = res m"
    "uc_link (push_args args m) = uc_link m"
    by (simp_all add: push_args_def Let_def reg32_def set_reg32_def)
  show ?thesis
    using entry_words [OF assms(1), of exit_bridge fnc m] assms(2)
      DynaCall_normal [OF assms(3) [unfolded assms(2)] assms(4)] p
    by (simp add: entry_fields RunFunction_def drop_args_def set_reg32_def reg32_def Let_def)
qed

text \<open>A recompiler whose every block sets EAX and quits, for examples.\<close>

definition dyn0 :: dynenv where
  "dyn0 = \<lparr>interp = env0, box86_dynarec = True, DBGetBlock = (\<lambda>m. Some 0),
     arm_prolog = (\<lambda>b m. m\<lparr>regs := (regs m)(rAX := 5), quit := 1\<rparr>)\<rparr>"

lemma dyn0_run:
  assumes "quit m = 0" "fork m = 0" "uc_link m = 0" "\<not> ACCESS_FLAG F_TF m"
  shows "DynaRun dyn0 m = Some (m\<lparr>regs := (regs m)(rAX := 5), quit := 1\<rparr>)"
proof -
  have "run_block dyn0 m = Some (m\<lparr>regs := (regs m)(rAX := 5), quit := 1\<rparr>)"
    using assms by (simp add: run_block_def dyn0_def after_block_def Let_def)
  moreover have "DynaRun dyn0 (m\<lparr>regs := (regs m)(rAX := 5), quit := 1\<rparr>) = Some (m\<lparr>regs := (regs m)(rAX := 5), quit := 1\<rparr>)"
    by (subst DynaRun.simps) simp
  ultimately show ?thesis
    using assms(1) by (subst DynaRun.simps) simp
qed

theorem callback_frame_witness:
  "\<exists>m'. RunFunction dyn0 0x77 0x400 [1, 2] (machine.truncate (run0 [])) = Some (5, m') \<and> regs m' rSP = 0x1000"
proof -
  define m where "m = machine.truncate (run0 [])"
  define e where "e = entry_state 0x77 0x400 (push_args [1, 2] m)"
  have e: "quit e = 0" "fork e = 0" "uc_link e = 0" "\<not> ACCESS_FLAG F_TF e" "quitonlongjmp e = 0"
    by (simp_all add: e_def m_def call_state_control entry_fields ACCESS_FLAG_def run0_def machine.defs)
  have "\<not> left_by_longjmp (e\<lparr>regs := (regs e)(rAX := 5), quit := 1\<rparr>)" using e by (simp add: left_by_longjmp_def)
  moreover have "regs m rSP = 0x1000" by (simp add: m_def run0_def machine.defs)
  ultimately show ?thesis
    using callback_frame [of 0 "[1, 2]" e "0x77" "0x400" m dyn0] dyn0_run [OF e(1-4)] unfolding m_def [symmetric] e_def [symmetric]
    by fastforce
qed

section \<open>Callbacks that save every register\<close>










section \<open>Functions run at exit\<close>

record cleanup =
  clean_f :: u32
  clean_arg :: nat
  clean_a :: u32

definition AddCleanup :: "u32 \<Rightarrow> cleanup list \<Rightarrow> cleanup list" where
  "AddCleanup p L = L @ [\<lparr>clean_f = p, clean_arg = 0, clean_a = 0\<rparr>]"

definition AddCleanup1Arg :: "u32 \<Rightarrow> u32 \<Rightarrow> cleanup list \<Rightarrow> cleanup list" where
  "AddCleanup1Arg p a L = L @ [\<lparr>clean_f = p, clean_arg = 1, clean_a = a\<rparr>]"

text \<open>The call of an entry gets the CPU and the table of the context, to which it may add. The loops go down from the last
  entry; the removal is the \<open>memmove\<close> of the entries above.\<close>

primrec clean_loop :: "(cleanup \<Rightarrow> cleanup list \<times> 's \<Rightarrow> cleanup list \<times> 's) \<Rightarrow> u32 \<Rightarrow> nat \<Rightarrow> cleanup list \<times> 's \<Rightarrow> cleanup list \<times> 's" where
  "clean_loop call p 0 s = s"
| "clean_loop call p (Suc i) s = clean_loop call p i (
     if p = clean_f (fst s ! i) then let
       (L, t) = call (fst s ! i) s
     in (take i L @ drop (Suc i) L, t)
     else s)"

definition CallCleanup :: "(cleanup \<Rightarrow> cleanup list \<times> 's \<Rightarrow> cleanup list \<times> 's) \<Rightarrow> u32 \<Rightarrow> cleanup list \<times> 's \<Rightarrow> cleanup list \<times> 's" where
  "CallCleanup call p s = clean_loop call p (length (fst s)) s"

primrec clean_all_loop :: "(cleanup \<Rightarrow> cleanup list \<times> 's \<Rightarrow> cleanup list \<times> 's) \<Rightarrow> nat \<Rightarrow> cleanup list \<times> 's \<Rightarrow> cleanup list \<times> 's" where
  "clean_all_loop call 0 s = s"
| "clean_all_loop call (Suc i) s = clean_all_loop call i (call (fst s ! i) s)"

definition CallAllCleanup :: "(cleanup \<Rightarrow> cleanup list \<times> 's \<Rightarrow> cleanup list \<times> 's) \<Rightarrow> cleanup list \<times> 's \<Rightarrow> cleanup list \<times> 's" where
  "CallAllCleanup call s = ([], snd (clean_all_loop call (length (fst s)) s))"

lemma clean_loop_eq:
  "i \<le> length L \<Longrightarrow> clean_loop (\<lambda>c (L, t). (L, run c t)) p i (L, t) =
    (filter (\<lambda>c. clean_f c \<noteq> p) (take i L) @ drop i L, fold run (rev (filter (\<lambda>c. clean_f c = p) (take i L))) t)"
proof (induction i arbitrary: L t)
  case (Suc i)
  then have i: "i < length L" by simp
  have t: "take (Suc i) L = take i L @ [L ! i]" and d: "drop i L = L ! i # drop (Suc i) L"
    using i by (simp_all add: take_Suc_conv_app_nth Cons_nth_drop_Suc)
  show ?case
  proof (cases "clean_f (L ! i) = p")
    case True
    then show ?thesis using Suc.IH [of "take i L @ drop (Suc i) L" "run (L ! i) t"] i by (auto simp: t min_def)
  next
    case False
    then show ?thesis using Suc.IH [of L t] i by (auto simp: t d)
  qed
qed simp

lemma clean_all_loop_eq:
  "i \<le> length L \<Longrightarrow> clean_all_loop (\<lambda>c (L, t). (L, run c t)) i (L, t) = (L, fold run (rev (take i L)) t)"
  by (induction i arbitrary: t) (simp_all add: take_Suc_conv_app_nth)

text \<open>The functions registered to run at exit run in the opposite order of their registration: unregistering a library's
  function runs exactly the entries with that function and removes exactly those, keeping the order of the others, and the
  exit of the program runs all entries and empties the table.\<close>

theorem cleanup_order:
  "CallCleanup (\<lambda>c (L, t). (L, run c t)) p (L, t) =
     (filter (\<lambda>c. clean_f c \<noteq> p) L, fold run (rev (filter (\<lambda>c. clean_f c = p) L)) t) \<and>
   CallAllCleanup (\<lambda>c (L, t). (L, run c t)) (L, t) = ([], fold run (rev L) t) \<and>
   CallAllCleanup (\<lambda>c (L, t). (L, run c t)) (AddCleanup1Arg f a L, t) = ([], fold run (rev L) (run \<lparr>clean_f = f, clean_arg = 1, clean_a = a\<rparr> t)) \<and>
   CallAllCleanup (\<lambda>c (L, t). (L, run c t)) (AddCleanup f L, t) = ([], fold run (rev L) (run \<lparr>clean_f = f, clean_arg = 0, clean_a = 0\<rparr> t))"
  by (simp add: CallCleanup_def CallAllCleanup_def clean_loop_eq clean_all_loop_eq AddCleanup_def AddCleanup1Arg_def)

end
