(* ===== verification/Tls.thy ===== *)
theory Tls
  imports Memory
begin

unbundle bit_operations_syntax

text \<open>
  The descriptor table behind segment selectors, \<open>src/emu/x86tls.c\<close>: \<open>set_thread_area\<close>,
  \<open>modify_ldt\<close> and the base address of a selector, and the cache of segment bases in the emulated
  CPU (\<open>GetSegmentBaseEmu\<close> of \<open>src/emu/x86run_private.c\<close>, \<open>ResetSegmentsCache\<close> of
  \<open>src/emu/x86emu.c\<close>). The state is what one thread sees of the context: \<open>segtls\<close>, the
  thread-specific values the C library holds for it, and which of the one-time key allocations have been made.
  \<open>pthread_key_create\<close> is a parameter that names the key it would create, if it can create one.
  \<open>seg33\<close> is the address of the thread's TLS block, the result of \<open>GetSeg33Base\<close>.
\<close>

section \<open>State\<close>

record base_segment =
  base :: u32
  limit :: u32
  present :: bool
  key :: nat

record tls =
  segtls :: "nat \<Rightarrow> base_segment"
  key_once :: "nat \<Rightarrow> bool"
  specific :: "nat \<Rightarrow> u32 option"
  seg33 :: u32

record thread_area =
  entry_number :: int
  base_addr :: u32
  ta_limit :: u32
  seg_32bit :: bool
  contents :: "2 word"
  read_exec_only :: bool
  limit_in_pages :: bool
  seg_not_present :: bool
  useable :: bool

datatype errno = ESRCH | EINVAL | EFAULT | ENOSYS

definition base_segment0 :: base_segment where
  "base_segment0 = \<lparr>base = 0, limit = 0, present = False, key = 0\<rparr>"

section \<open>Thread-specific values\<close>

type_synonym key_create = "(nat \<Rightarrow> u32 option) \<Rightarrow> nat option"

definition pthread_getspecific :: "nat \<Rightarrow> tls \<Rightarrow> u32" where
  "pthread_getspecific k c = (case specific c k of Some v \<Rightarrow> v | None \<Rightarrow> 0)"

definition pthread_setspecific :: "nat \<Rightarrow> u32 \<Rightarrow> tls \<Rightarrow> tls" where
  "pthread_setspecific k v c = (if specific c k = None then c else c\<lparr>specific := (specific c)(k \<mapsto> v)\<rparr>)"

definition thread_key_alloc :: "key_create \<Rightarrow> nat \<Rightarrow> tls \<Rightarrow> tls" where
  "thread_key_alloc create i c = (case create (specific c) of
      None \<Rightarrow> c
    | Some k \<Rightarrow> c\<lparr>specific := (specific c)(k \<mapsto> 0), segtls := (segtls c)(i := (segtls c i)\<lparr>key := k\<rparr>)\<rparr>)"

definition thread_key_once :: "key_create \<Rightarrow> nat \<Rightarrow> tls \<Rightarrow> tls" where
  "thread_key_once create i c = (if key_once c i then c
     else thread_key_alloc create i (c\<lparr>key_once := (key_once c)(i := True)\<rparr>))"

section \<open>Selectors\<close>

definition ResetSegmentsCache :: "'a emu_scheme \<Rightarrow> 'a emu_scheme" where
  "ResetSegmentsCache e = e\<lparr>segs_serial := (\<lambda>i. if i < 6 then 0 else segs_serial e i)\<rparr>"

definition isempty :: "thread_area \<Rightarrow> bool" where
  "isempty td = (read_exec_only td \<and> seg_not_present td \<and> base_addr td = 0 \<and> ta_limit td = 0 \<and> \<not> seg_32bit td \<and>
     contents td = 0 \<and> \<not> limit_in_pages td \<and> \<not> useable td)"

text \<open>The first of the three entries that is not in use.\<close>

definition free_entry :: "tls \<Rightarrow> nat option" where
  "free_entry c = List.find (\<lambda>i. \<not> present (segtls c i)) [0, 1, 2]"

definition set_entry :: "nat \<Rightarrow> u32 \<Rightarrow> u32 \<Rightarrow> bool \<Rightarrow> tls \<Rightarrow> tls" where
  "set_entry i b l p c = c\<lparr>segtls := (segtls c)(i := (segtls c i)\<lparr>base := b, limit := l, present := p\<rparr>)\<rparr>"

definition my_set_thread_area ::
  "key_create \<Rightarrow> thread_area \<Rightarrow> tls \<Rightarrow> 'a emu_scheme \<Rightarrow> (errno + u32) \<times> thread_area \<times> tls \<times> 'a emu_scheme" where
  "my_set_thread_area create td c e = (case (if entry_number td = - 1 then map_option (\<lambda>i. int i + 7) (free_entry c)
       else Some (entry_number td)) of
      None \<Rightarrow> (Inl ESRCH, td, c, e)
    | Some idx \<Rightarrow> (let td' = td\<lparr>entry_number := idx\<rparr> in
        if isempty td \<and> (idx < 7 \<or> 9 < idx) then (Inl EINVAL, td', c, e)
        else if isempty td then (Inr 0, td', c\<lparr>segtls := (segtls c)(nat (idx - 7) := base_segment0)\<rparr>, e)
        else if idx < 7 \<or> 9 < idx then (Inl EINVAL, td', c, e)
        else let
          i = nat (idx - 7);
          c = set_entry i (base_addr td) (ta_limit td) True c;
          c = thread_key_once create i c;
          c = pthread_setspecific (key (segtls c i)) (base (segtls c i)) c
        in (Inr 0, td', c, ResetSegmentsCache e)))"

definition GetSegmentBase :: "u32 \<Rightarrow> tls \<Rightarrow> u32" where
  "GetSegmentBase desc c = (let base = uint (drop_bit 3 desc) in
     if desc = 0 then 0
     else if base = 0xE \<or> base = 0xF then 0
     else if base = 6 then seg33 c
     else let base = (if 0x1FF0 \<le> base then base - 0x1FF0 + 3 + 7 else base) in
       if 6 < base \<and> base < 16 + 3 + 7 \<and> present (segtls c (nat (base - 7))) then
         pthread_getspecific (key (segtls c (nat (base - 7)))) c
       else 0)"

definition my_modify_ldt ::
  "key_create \<Rightarrow> int \<Rightarrow> thread_area option \<Rightarrow> int \<Rightarrow> tls \<Rightarrow> 'a emu_scheme \<Rightarrow> (errno + u32) \<times> thread_area option \<times> tls \<times> 'a emu_scheme" where
  "my_modify_ldt create opn tdp sz c e = (case tdp of
      None \<Rightarrow> (Inl EFAULT, tdp, c, e)
    | Some td \<Rightarrow>
       if opn = 0 \<and> sz = 8 then
         (Inr 8, Some (td\<lparr>entry_number := 6, base_addr := GetSegmentBase (push_bit 3 6) c\<rparr>), c, e)
       else if opn \<noteq> 0x11 then (Inl ENOSYS, tdp, c, e)
       else if \<not> seg_32bit td \<and> base_addr td \<noteq> 0 then (Inl EINVAL, tdp, c, e)
       else let
         idx = (if 0x1FF0 \<le> entry_number td then entry_number td - 0x1FF0 + 3 else entry_number td - 7)
       in if idx < 0 \<or> 16 + 3 - 1 < idx then (Inl EINVAL, tdp, c, e)
       else let
         i = nat idx;
         c = set_entry i (base_addr td) (ta_limit td) (base_addr td \<noteq> 0) c;
         c = (if 0 \<le> idx - 7 \<and> idx - 7 \<le> 18 then thread_key_once create (nat (idx - 7)) c else c);
         c = pthread_setspecific (key (segtls c i)) (base (segtls c i)) c
       in (Inr 0, tdp, c, ResetSegmentsCache e))"

section \<open>The cache of segment bases\<close>

definition GetSegmentBaseEmu :: "tls \<Rightarrow> 3 word \<Rightarrow> 'a machine_scheme \<Rightarrow> u32 \<times> 'a machine_scheme" where
  "GetSegmentBaseEmu c seg s = (let
     s = (if segs_serial s seg \<noteq> sel_serial s then let
         s = s\<lparr>segs_offs := (segs_offs s)(seg := GetSegmentBase (ucast (segs s seg)) c)\<rparr>
       in s\<lparr>segs_serial := (segs_serial s)(seg := sel_serial s)\<rparr>
       else s)
   in (segs_offs s seg, s))"

section \<open>What setting an entry keeps\<close>

text \<open>The selector of an entry of the table, in the form programs load (a requested privilege level of 3).\<close>

definition selector :: "nat \<Rightarrow> u32" where
  "selector i = of_nat (8 * (i + 7) + 3)"

text \<open>Every entry whose key was allocated has a live key of its own, and an entry in use has one.\<close>

definition keys_ok :: "tls \<Rightarrow> bool" where
  "keys_ok c = ((\<forall>i < 19. key_once c i \<longrightarrow> specific c (key (segtls c i)) \<noteq> None) \<and>
     (\<forall>i < 19. \<forall>j < 19. i \<noteq> j \<and> key_once c i \<and> key_once c j \<longrightarrow> key (segtls c i) \<noteq> key (segtls c j)) \<and>
     (\<forall>i < 19. present (segtls c i) \<longrightarrow> key_once c i))"

definition creates_keys :: "key_create \<Rightarrow> bool" where
  "creates_keys create = (\<forall>t k. create t = Some k \<longrightarrow> t k = None)"

lemma base_of_selector:
  assumes "i < 3"
  shows "GetSegmentBase (selector i) c = (if present (segtls c i) then pthread_getspecific (key (segtls c i)) c else 0)"
proof -
  have "i = 0 \<or> i = 1 \<or> i = 2" using assms by auto
  then show ?thesis by (elim disjE) (simp_all add: GetSegmentBase_def selector_def)
qed

lemma once_ok:
  assumes "keys_ok c" "creates_keys create" "create (specific c) \<noteq> None" "i < 19"
    and d_def: "d = thread_key_once create i (set_entry i b l p c)"
  shows "keys_ok d \<and> segtls d i = \<lparr>base = b, limit = l, present = p, key = key (segtls d i)\<rparr> \<and>
    (\<forall>j < 19. j \<noteq> i \<longrightarrow> segtls d j = segtls c j \<and> (present (segtls c j) \<longrightarrow> key (segtls d i) \<noteq> key (segtls c j) \<and>
       specific d (key (segtls c j)) = specific c (key (segtls c j)))) \<and> specific d (key (segtls d i)) \<noteq> None"
proof (cases "key_once c i")
  case True
  then show ?thesis
    using assms(1,4) by (auto simp: d_def thread_key_once_def set_entry_def keys_ok_def)
next
  case False
  obtain k where k: "create (specific c) = Some k" using assms(3) by blast
  then have f: "specific c k = None" using assms(2) by (simp add: creates_keys_def)
  have d: "key_once d = (key_once c)(i := True)" "specific d = (specific c)(k \<mapsto> 0)"
    "segtls d = (segtls c)(i := \<lparr>base = b, limit = l, present = p, key = k\<rparr>)"
    using False k by (cases "segtls c i"; simp add: d_def thread_key_once_def set_entry_def thread_key_alloc_def)+
  have n: "key (segtls c j) \<noteq> k" if "j < 19" "key_once c j" for j
    using that assms(1) f by (auto simp: keys_ok_def)
  have n': "key (segtls c j) \<noteq> k" if "j < 19" "present (segtls c j)" for j
    using n that assms(1) by (simp add: keys_ok_def)
  show ?thesis
    using assms(1) n unfolding keys_ok_def d by (auto simp: d) (metis n')
qed

text \<open>C28. A nonempty descriptor set with \<open>set_thread_area\<close>, at the entry 7, 8 or 9 it names or, for the number -1, at the
  one the call picks, is in force at once, if every entry set up so far has a live key of its own (\<open>keys_ok\<close>: this holds of the initial table and
  is kept, but clearing an entry with an empty descriptor breaks it, see \<open>cleared_entry_loses_base\<close>), the thread library,
  which creates only keys not in use, can create one more, and for -1 one of the three entries is free. Then the selector built from the entry number the call reports has the base address
  that was asked for, every segment base cached in the CPU is dropped, the other entries keep
  theirs, and the table's keys stay distinct and alive.\<close>

theorem set_thread_area_roundtrip:
  assumes "keys_ok c" "creates_keys create" "create (specific c) \<noteq> None" "\<not> isempty td"
    and "entry_number td \<in> {7, 8, 9} \<or> entry_number td = - 1 \<and> free_entry c \<noteq> None"
  shows "\<exists>i c'. i < 3 \<and> (entry_number td \<noteq> - 1 \<longrightarrow> int i + 7 = entry_number td) \<and>
    (entry_number td = - 1 \<longrightarrow> \<not> present (segtls c i)) \<and>
    my_set_thread_area create td c e = (Inr 0, td\<lparr>entry_number := int i + 7\<rparr>, c', ResetSegmentsCache e) \<and>
    GetSegmentBase (selector i) c' = base_addr td \<and>
    (\<forall>j < 3. j \<noteq> i \<longrightarrow> GetSegmentBase (selector j) c' = GetSegmentBase (selector j) c) \<and> keys_ok c'"
proof -
  have "\<exists>i < 3. (if entry_number td = - 1 then map_option (\<lambda>i. int i + 7) (free_entry c) else Some (entry_number td)) = Some (int i + 7) \<and>
      (entry_number td = - 1 \<longrightarrow> \<not> present (segtls c i)) \<and> (entry_number td \<noteq> - 1 \<longrightarrow> int i + 7 = entry_number td)"
  proof (cases "entry_number td = - 1")
    case True
    then obtain i where "free_entry c = Some i" using assms(5) by auto
    then show ?thesis using True by (auto simp: free_entry_def split: if_splits)
  next
    case False
    then have "entry_number td \<in> {7, 8, 9}" using assms(5) by simp
    then show ?thesis using False by (auto intro: exI [of _ "0 :: nat"] exI [of _ "1 :: nat"] exI [of _ "2 :: nat"])
  qed
  then obtain i where i: "i < 3" "entry_number td = - 1 \<longrightarrow> \<not> present (segtls c i)" "entry_number td \<noteq> - 1 \<longrightarrow> int i + 7 = entry_number td"
    and idx: "(if entry_number td = - 1 then map_option (\<lambda>i. int i + 7) (free_entry c) else Some (entry_number td)) = Some (int i + 7)"
    by blast
  define d where "d = thread_key_once create i (set_entry i (base_addr td) (ta_limit td) True c)"
  have "i < 19" using i(1) by simp
  note d = once_ok [OF assms(1-3) this d_def]
  have b: "base (segtls d i) = base_addr td" "present (segtls d i)"
    using d by (metis base_segment.select_convs(1), metis base_segment.select_convs(3))
  obtain v where v: "specific d (key (segtls d i)) = Some v" using d by blast
  define c' where "c' = d\<lparr>specific := (specific d)(key (segtls d i) \<mapsto> base_addr td)\<rparr>"
  have "my_set_thread_area create td c e = (Inr 0, td\<lparr>entry_number := int i + 7\<rparr>, c', ResetSegmentsCache e)"
    using i(1) assms(4) v b
    by (simp add: my_set_thread_area_def idx Let_def d_def [symmetric] pthread_setspecific_def c'_def)
  moreover have "GetSegmentBase (selector i) c' = base_addr td"
    using b by (simp add: base_of_selector i(1) pthread_getspecific_def c'_def)
  moreover have "GetSegmentBase (selector j) c' = GetSegmentBase (selector j) c" if j: "j < 3" "j \<noteq> i" for j
  proof -
    have "j < 19" using j by simp
    then have dj: "segtls d j = segtls c j \<and> (present (segtls c j) \<longrightarrow> key (segtls d i) \<noteq> key (segtls c j) \<and>
        specific d (key (segtls c j)) = specific c (key (segtls c j)))"
      using d j by blast
    then have "present (segtls c j) \<longrightarrow> key (segtls c j) \<noteq> key (segtls d i)" by metis
    then show ?thesis
      using dj j by (simp add: base_of_selector pthread_getspecific_def c'_def)
  qed
  moreover have "keys_ok c'" using d v by (auto simp: keys_ok_def c'_def)
  ultimately show ?thesis using i by blast
qed

text \<open>An empty table, and a library that hands out keys in order, for examples.\<close>

definition tls0 :: tls where
  "tls0 = \<lparr>segtls = (\<lambda>_. base_segment0), key_once = (\<lambda>_. False), specific = (\<lambda>_. None), seg33 = 0x2000\<rparr>"

definition next_key :: key_create where
  "next_key t = List.find (\<lambda>k. t k = None) [1 ..< 32]"

definition td0 :: thread_area where
  "td0 = \<lparr>entry_number = - 1, base_addr = 0x5000, ta_limit = 0xFFFFF, seg_32bit = True, contents = 0, read_exec_only = False,
     limit_in_pages = True, seg_not_present = False, useable = True\<rparr>"

lemma next_key_creates: "creates_keys next_key"
  by (auto simp: creates_keys_def next_key_def find_Some_iff)

theorem set_thread_area_roundtrip_witness:
  "\<exists>i c'. my_set_thread_area next_key td0 tls0 emu0 = (Inr 0, td0\<lparr>entry_number := int i + 7\<rparr>, c', ResetSegmentsCache emu0) \<and>
    GetSegmentBase (selector i) c' = 0x5000"
proof -
  have "keys_ok tls0" "next_key (specific tls0) \<noteq> None" "\<not> isempty td0" "free_entry tls0 \<noteq> None"
    by (simp_all add: keys_ok_def tls0_def base_segment0_def next_key_def upt_rec isempty_def td0_def free_entry_def)
  with set_thread_area_roundtrip [of tls0 next_key td0 emu0] next_key_creates show ?thesis
    by (auto simp: td0_def)
qed

section \<open>Where the table and its keys part\<close>

text \<open>Clearing an entry with an empty descriptor also clears the number of its key, which is not allocated again:
  a descriptor set at that entry later is reported as set, but as long as key 0 is not a live key its selector
  reads as base 0. Clearing also leaves the bases cached in the CPU as they were.\<close>

theorem cleared_entry_loses_base:
  assumes "i < 3" "key_once c i" "specific c 0 = None" "isempty td" "\<not> isempty td'"
    and "entry_number td = int i + 7" "entry_number td' = int i + 7"
  shows "\<exists>d d'. my_set_thread_area create td c e = (Inr 0, td, d, e) \<and>
    my_set_thread_area create td' d e = (Inr 0, td', d', ResetSegmentsCache e) \<and> GetSegmentBase (selector i) d' = 0"
proof -
  define d where "d = c\<lparr>segtls := (segtls c)(i := base_segment0)\<rparr>"
  define d' where "d' = set_entry i (base_addr td') (ta_limit td') True d"
  have t: "td\<lparr>entry_number := int i + 7\<rparr> = td" "td'\<lparr>entry_number := int i + 7\<rparr> = td'"
    using assms(6,7) by simp_all
  have "my_set_thread_area create td c e = (Inr 0, td, d, e)"
    using assms(1,4,6) t by (simp add: my_set_thread_area_def d_def)
  moreover have "my_set_thread_area create td' d e = (Inr 0, td', d', ResetSegmentsCache e)"
    using assms(1,2,3,5,7) t
    by (simp add: my_set_thread_area_def Let_def d'_def thread_key_once_def pthread_setspecific_def)
      (simp add: set_entry_def d_def base_segment0_def)
  moreover have "GetSegmentBase (selector i) d' = 0"
    using assms(1,3) by (simp add: base_of_selector d'_def set_entry_def d_def base_segment0_def pthread_getspecific_def)
  ultimately show ?thesis by blast
qed

text \<open>\<open>modify_ldt\<close> allocates the key of another entry than the one it sets (\<open>idx-7\<close> after \<open>idx\<close> was already
  reduced by 7), none at all for the first seven: the call succeeds, but unless the entry got its
  key from \<open>set_thread_area\<close> its selector reads as base 0.\<close>

theorem modify_ldt_loses_base:
  assumes "i < 3" "key (segtls c i) = 0" "specific c 0 = None" "entry_number td = int i + 7" "seg_32bit td"
  shows "\<exists>c'. my_modify_ldt create 0x11 (Some td) sz c e = (Inr 0, Some td, c', ResetSegmentsCache e) \<and>
    GetSegmentBase (selector i) c' = 0"
proof -
  define d where "d = set_entry i (base_addr td) (ta_limit td) (base_addr td \<noteq> 0) c"
  have "my_modify_ldt create 0x11 (Some td) sz c e = (Inr 0, Some td, d, ResetSegmentsCache e)"
    using assms by (simp add: my_modify_ldt_def Let_def d_def [symmetric] pthread_setspecific_def) (simp add: d_def set_entry_def)
  moreover have "GetSegmentBase (selector i) d = 0"
    using assms by (simp add: base_of_selector d_def set_entry_def pthread_getspecific_def)
  ultimately show ?thesis by blast
qed

end
