(* ===== verification/Emu.thy ===== *)
theory Emu
  imports Interp Tls
begin

unbundle bit_operations_syntax

text \<open>
  Making, copying and inspecting an emulated CPU, \<open>src/emu/x86emu.c\<close>, with \<open>reset_fpu\<close> of
  \<open>src/emu/x87emu_private.c\<close>. A function that works on two CPUs gets both as arguments; the memory
  and the context fields of the machine are shared by all CPUs.
\<close>

section \<open>Making a CPU\<close>

definition TAGS_EMPTY :: u32 where
  "TAGS_EMPTY = 0xFFFF"

definition reset_fpu :: "'a emu_scheme \<Rightarrow> 'a emu_scheme" where
  "reset_fpu e = e\<lparr>fpu := (fpu e)\<lparr>x87 := (\<lambda>_. 0), fpu_ld := (\<lambda>_. \<lparr>ld_lower = 0, ld_upper = 0, ld_uref = 0\<rparr>),
     cw := 0x37F, sw := 0, fpu_top := 0, fpu_stack := 0, fpu_tags := TAGS_EMPTY\<rparr>\<rparr>"

definition internalX86Setup :: "u32 \<Rightarrow> u32 \<Rightarrow> u32 \<Rightarrow> u32 \<Rightarrow> bool \<Rightarrow> 'a machine_scheme \<Rightarrow> 'a machine_scheme" where
  "internalX86Setup ctx start_ip stk stacksize ownstack e = (let
     e = e\<lparr>emu_context := ctx\<rparr>;
     e = e\<lparr>eflags := 0x202\<rparr>;
     e = e\<lparr>stack2free := (if ownstack then stk else 0)\<rparr>;
     e = e\<lparr>init_stack := stk\<rparr>;
     e = e\<lparr>size_stack := stacksize\<rparr>;
     e = e\<lparr>ip := start_ip\<rparr>;
     e = set_reg32 rSP ((stk + stacksize) AND NOT 7) e;
     e = e\<lparr>segs := (segs e)(sCS := 0x73)\<rparr>;
     e = e\<lparr>segs := (segs e)(sSS := 0x7B, sES := 0x7B, sDS := 0x7B)\<rparr>;
     e = e\<lparr>segs := (segs e)(sFS := default_fs e)\<rparr>;
     e = e\<lparr>segs := (segs e)(sGS := 0x33)\<rparr>;
     e = reset_fpu e
   in e\<lparr>fpu := (fpu e)\<lparr>mxcsr := 0x1F80\<rparr>\<rparr>)"

text \<open>\<open>box_calloc\<close>: every field of the new CPU is zero; the shared part is that of the machine given.\<close>

definition calloc_emu :: "machine \<Rightarrow> machine" where
  "calloc_emu m = m\<lparr>regs := (\<lambda>_. 0), eflags := 0, ip := 0, fpu := fpu0, old_ip := 0, df := d_none, op1 := 0, op2 := 0, res := 0,
     segs := (\<lambda>_. 0), segs_offs := (\<lambda>_. 0), segs_serial := (\<lambda>_. 0), quit := 0, err := 0, fork := 0, uc_link := 0,
     quitonlongjmp := 0, longjmp := False, emu_context := 0, stack2free := 0, init_stack := 0, size_stack := 0\<rparr>"

definition NewX86Emu :: "u32 \<Rightarrow> u32 \<Rightarrow> u32 \<Rightarrow> u32 \<Rightarrow> bool \<Rightarrow> machine \<Rightarrow> machine" where
  "NewX86Emu ctx start_ip stk stacksize ownstack m = internalX86Setup ctx start_ip stk stacksize ownstack (calloc_emu m)"

definition NewX86EmuFromStack :: "u32 \<Rightarrow> u32 \<Rightarrow> u32 \<Rightarrow> u32 \<Rightarrow> bool \<Rightarrow> 'a machine_scheme \<Rightarrow> 'a machine_scheme" where
  "NewX86EmuFromStack ctx start_ip stk stacksize ownstack e = internalX86Setup ctx start_ip stk stacksize ownstack e"

section \<open>Copying a CPU\<close>

text \<open>\<open>memcpy\<close> and \<open>memset\<close> of an array of six.\<close>

definition copy6 :: "(3 word \<Rightarrow> 'v) \<Rightarrow> (3 word \<Rightarrow> 'v) \<Rightarrow> 3 word \<Rightarrow> 'v" where
  "copy6 f g = (\<lambda>i. if i < 6 then f i else g i)"

definition CloneEmu :: "'a emu_scheme \<Rightarrow> 'b emu_scheme \<Rightarrow> 'a emu_scheme" where
  "CloneEmu newemu emu = newemu\<lparr>
     regs := regs emu,
     ip := ip emu,
     eflags := eflags emu,
     old_ip := old_ip emu,
     segs := copy6 (segs emu) (segs newemu),
     segs_serial := copy6 (\<lambda>_. 0) (segs_serial newemu),
     fpu := (fpu newemu)\<lparr>x87 := x87 (fpu emu), mmx := mmx (fpu emu), fpu_ld := fpu_ld (fpu emu), fpu_ll := fpu_ll (fpu emu),
       fpu_tags := fpu_tags (fpu emu), cw := cw (fpu emu), sw := sw (fpu emu), fpu_top := fpu_top (fpu emu),
       fpu_stack := fpu_stack (fpu emu), xmm := xmm (fpu emu), mxcsr := mxcsr (fpu emu)\<rparr>,
     df := df emu,
     op1 := op1 emu,
     op2 := op2 emu,
     res := res emu,
     quit := quit emu,
     err := err emu\<rparr>"

definition CopyEmu :: "'a emu_scheme \<Rightarrow> 'b emu_scheme \<Rightarrow> 'a emu_scheme" where
  "CopyEmu newemu emu = newemu\<lparr>
     regs := regs emu,
     ip := ip emu,
     eflags := eflags emu,
     old_ip := old_ip emu,
     segs := copy6 (segs emu) (segs newemu),
     segs_serial := copy6 (segs_serial emu) (segs_serial newemu),
     segs_offs := copy6 (segs_offs emu) (segs_offs newemu),
     fpu := (fpu newemu)\<lparr>x87 := x87 (fpu emu), mmx := mmx (fpu emu), xmm := xmm (fpu emu), fpu_ld := fpu_ld (fpu emu),
       fpu_ll := fpu_ll (fpu emu), fpu_tags := fpu_tags (fpu emu), cw := cw (fpu emu), sw := sw (fpu emu),
       fpu_top := fpu_top (fpu emu), fpu_stack := fpu_stack (fpu emu), mxcsr := mxcsr (fpu emu)\<rparr>,
     df := df emu,
     op1 := op1 emu,
     op2 := op2 emu,
     res := res emu,
     quit := quit emu,
     err := err emu\<rparr>"

section \<open>Inspecting a CPU\<close>

definition GetEAX :: "'a emu_scheme \<Rightarrow> u32" where
  "GetEAX e = reg32 e rAX"

definition GetEDXEAX :: "'a emu_scheme \<Rightarrow> u64" where
  "GetEDXEAX e = ucast (reg32 e rAX) OR push_bit 32 (ucast (reg32 e rDX))"

definition SetEAX :: "'a emu_scheme \<Rightarrow> u32 \<Rightarrow> 'a emu_scheme" where "SetEAX e v = set_reg32 rAX v e"
definition SetEBX :: "'a emu_scheme \<Rightarrow> u32 \<Rightarrow> 'a emu_scheme" where "SetEBX e v = set_reg32 rBX v e"
definition SetECX :: "'a emu_scheme \<Rightarrow> u32 \<Rightarrow> 'a emu_scheme" where "SetECX e v = set_reg32 rCX v e"
definition SetEDX :: "'a emu_scheme \<Rightarrow> u32 \<Rightarrow> 'a emu_scheme" where "SetEDX e v = set_reg32 rDX v e"
definition SetEIP :: "'a emu_scheme \<Rightarrow> u32 \<Rightarrow> 'a emu_scheme" where "SetEIP e v = e\<lparr>ip := v\<rparr>"
definition SetESI :: "'a emu_scheme \<Rightarrow> u32 \<Rightarrow> 'a emu_scheme" where "SetESI e v = set_reg32 rSI v e"
definition SetEDI :: "'a emu_scheme \<Rightarrow> u32 \<Rightarrow> 'a emu_scheme" where "SetEDI e v = set_reg32 rDI v e"
definition SetEBP :: "'a emu_scheme \<Rightarrow> u32 \<Rightarrow> 'a emu_scheme" where "SetEBP e v = set_reg32 rBP v e"
definition SetESP :: "'a emu_scheme \<Rightarrow> u32 \<Rightarrow> 'a emu_scheme" where "SetESP e v = set_reg32 rSP v e"
definition GetESP :: "'a emu_scheme \<Rightarrow> u32" where "GetESP e = reg32 e rSP"
definition SetFS :: "'a emu_scheme \<Rightarrow> u16 \<Rightarrow> 'a emu_scheme" where "SetFS e v = e\<lparr>segs := (segs e)(sFS := v)\<rparr>"
definition GetFS :: "'a emu_scheme \<Rightarrow> u16" where "GetFS e = segs e sFS"
definition ResetFlags :: "'a emu_scheme \<Rightarrow> 'a emu_scheme" where "ResetFlags e = e\<lparr>df := d_none\<rparr>"

section \<open>A new CPU\<close>

lemma align8: "uint (w AND NOT 7) = uint w div 8 * 8" for w :: u32
proof -
  have m: "(7 :: u32) = mask 3" by (simp add: mask_eq_exp_minus_1)
  have "w AND NOT 7 = push_bit 3 (drop_bit 3 w)"
    unfolding m by (rule bit_word_eqI) (auto simp: bit_simps)
  moreover have "uint (push_bit 3 (drop_bit 3 w)) = uint w div 8 * 8"
  proof -
    have "uint (push_bit 3 (drop_bit 3 w)) = take_bit 32 (push_bit 3 (uint (drop_bit 3 w)))"
      by (simp add: unsigned_push_bit_eq)
    also have "\<dots> = (uint w div 8 * 8) mod 2 ^ 32"
      by (simp add: unsigned_drop_bit_eq take_bit_eq_mod push_bit_eq_mult drop_bit_eq_div uint_div_distrib)
    also have "\<dots> = uint w div 8 * 8"
      using uint_lt2p [of w] by (intro mod_pos_pos_trivial) (auto simp: pos_imp_zdiv_nonneg_iff)
    finally show ?thesis .
  qed
  ultimately show ?thesis by simp
qed

text \<open>C29. A new CPU starts at the given address with an empty x87 stack, no pending flags, a flag register whose
  reserved bits are right and no stale segment base, and with \<open>ESP\<close> 8-aligned inside the stack it was given:
  within 7 bytes of the top, and strictly above the bottom if the stack has at least 8 bytes.\<close>

theorem new_emu_ready:
  assumes "uint stk + uint stacksize < 2 ^ 32"
    and e_def: "e = NewX86Emu ctx start_ip stk stacksize ownstack m"
  shows "ip e = start_ip \<and> quit e = 0 \<and> df e = d_none \<and> eflags_wf (eflags e) \<and> mem e = mem m \<and>
    fpu_stack (fpu e) = 0 \<and> fpu_tags (fpu e) = TAGS_EMPTY \<and> (\<forall>i. segs_serial e i = 0) \<and>
    uint (regs e rSP) mod 8 = 0 \<and> uint (regs e rSP) \<le> uint stk + uint stacksize \<and>
    uint stk + uint stacksize < uint (regs e rSP) + 8 \<and>
    (8 \<le> uint stacksize \<longrightarrow> uint stk < uint (regs e rSP)) \<and> stack2free e = (if ownstack then stk else 0)"
proof -
  have sp: "regs e rSP = (stk + stacksize) AND NOT 7"
    by (simp add: e_def NewX86Emu_def internalX86Setup_def Let_def reset_fpu_def set_reg32_def calloc_emu_def)
  have "uint (stk + stacksize) = uint stk + uint stacksize"
    using assms(1) by (simp add: uint_plus_if')
  then have u: "uint (regs e rSP) = (uint stk + uint stacksize) div 8 * 8"
    unfolding sp align8 by simp
  have "uint (regs e rSP) mod 8 = 0 \<and> uint (regs e rSP) \<le> uint stk + uint stacksize \<and>
    uint stk + uint stacksize < uint (regs e rSP) + 8 \<and> (8 \<le> uint stacksize \<longrightarrow> uint stk < uint (regs e rSP))"
    unfolding u by (auto simp: algebra_simps)
  then show ?thesis
    by (simp add: e_def NewX86Emu_def internalX86Setup_def Let_def reset_fpu_def set_reg32_def calloc_emu_def eflags_wf_def)
qed

theorem new_emu_ready_witness:
  "regs (NewX86Emu 0 0x1000 0x8003 0x1000 True (machine.truncate (run0 []))) rSP = 0x9000"
proof -
  define w where "w = regs (NewX86Emu 0 0x1000 0x8003 0x1000 True (machine.truncate (run0 []))) rSP"
  have "uint w mod 8 = 0" "uint w \<le> 0x9003" "0x9003 < uint w + 8"
    using new_emu_ready [of "0x8003" "0x1000" _ 0 "0x1000" True "machine.truncate (run0 [])"] by (simp_all add: w_def)
  then have "uint w = 0x9000" by presburger
  then have "uint w = uint (0x9000 :: u32)" by simp
  then have "w = 0x9000" by (rule unsigned_word_eqI)
  then show ?thesis by (simp add: w_def)
qed

section \<open>The cache of segment bases\<close>

definition seg_cache_ok :: "tls \<Rightarrow> 'a machine_scheme \<Rightarrow> bool" where
  "seg_cache_ok c s = (\<forall>i < 6. segs_serial s i = sel_serial s \<longrightarrow> segs_offs s i = GetSegmentBase (ucast (segs s i)) c)"

text \<open>C30. The cache of segment bases is sound: as long as it is, \<open>GetSegmentBaseEmu\<close> returns the base of the selector in
  the register and leaves the cache sound, and so do POP of a segment
  register, POP CS, the far returns, IRET, MOV to a segment register that exists (register field below 6), LES and LDS of a memory operand, and
  copying or cloning the CPU; dropping the cache makes it sound for any table. Premises: the serial number
  of the context is not 0, and the CPU that is copied into shares it. Far jumps and calls through memory and \<open>SetFS\<close> are
  not among these, they do break the cache (\<open>far_transfer_keeps_stale_base\<close>, \<open>SetFS_keeps_stale_base\<close>).\<close>

theorem segment_cache_sound:
  assumes "seg_cache_ok c s" "sel_serial s \<noteq> 0" "i < 6" "sel_serial n = sel_serial s"
  shows "fst (GetSegmentBaseEmu c i s) = GetSegmentBase (ucast (segs s i)) c \<and>
    seg_cache_ok c (snd (GetSegmentBaseEmu c i s)) \<and>
    seg_cache_ok c (PopSeg i s) \<and> seg_cache_ok c (PopCS s) \<and> seg_cache_ok c (IRET s) \<and>
    seg_cache_ok c (snd (FAR_RET s)) \<and> seg_cache_ok c (snd (FAR_RETN s)) \<and>
    (\<not> MODREG (ld8 s (addr s)) \<longrightarrow> seg_cache_ok c (load_far env i s)) \<and>
    (reg_field (ld8 s (addr s)) < 6 \<longrightarrow> seg_cache_ok c (MOV_seg s)) \<and>
    seg_cache_ok c (CopyEmu n s) \<and> seg_cache_ok c (CloneEmu n s) \<and> seg_cache_ok d (ResetSegmentsCache s)"
proof (intro conjI impI)
  show "fst (GetSegmentBaseEmu c i s) = GetSegmentBase (ucast (segs s i)) c"
    using assms(1,3) by (auto simp: GetSegmentBaseEmu_def seg_cache_ok_def)
  show "seg_cache_ok c (snd (GetSegmentBaseEmu c i s))"
    using assms(1) by (auto simp: GetSegmentBaseEmu_def seg_cache_ok_def Let_def)
  show "seg_cache_ok c (PopSeg i s)"
    using assms by (auto simp: PopSeg_def Let_def case_prod_unfold set_seg_def clear_serial_def seg_cache_ok_def)
  show "seg_cache_ok c (PopCS s)"
    using assms by (auto simp: PopCS_def Let_def case_prod_unfold seg_cache_ok_def)
  show "seg_cache_ok c (IRET s)"
    using assms by (auto simp: IRET_def Let_def case_prod_unfold RESET_FLAGS_def seg_cache_ok_def)
  show "seg_cache_ok c (snd (FAR_RET s))" "seg_cache_ok c (snd (FAR_RETN s))"
    using assms by (auto simp: FAR_RET_def FAR_RETN_def STEP2_def F16_def set_reg32_def PopCS_def Let_def case_prod_unfold seg_cache_ok_def)
  show "seg_cache_ok c (load_far env i s)" if "\<not> MODREG (ld8 s (addr s))"
  proof -
    define t where "t = s\<lparr>addr := addr s + 1\<rparr>"
    obtain ED u where g: "geted (ld8 s (addr s)) t = (ED, u)" by force
    then have u: "u = t\<lparr>addr := addr u\<rparr>"
      using geted_addr [of "ld8 s (addr s)" t] by simp
    have f: "segs u = segs s" "segs_serial u = segs_serial s" "segs_offs u = segs_offs s" "sel_serial u = sel_serial s"
      by (subst u, simp add: t_def)+
    show ?thesis
      using assms that f by (auto simp: load_far_def F8_def g [unfolded t_def] Let_def GD_def set_reg32_def seg_cache_ok_def)
  qed
  show "seg_cache_ok c (MOV_seg s)" if "reg_field (ld8 s (addr s)) < 6"
  proof -
    define t where "t = s\<lparr>addr := addr s + 1\<rparr>"
    obtain EW u where g: "geted (ld8 s (addr s)) t = (EW, u)" by force
    then have u: "u = t\<lparr>addr := addr u\<rparr>"
      using geted_addr [of "ld8 s (addr s)" t] by simp
    have f: "segs u = segs s" "segs_serial u = segs_serial s" "segs_offs u = segs_offs s" "sel_serial u = sel_serial s"
      by (subst u, simp add: t_def)+
    show ?thesis
      using assms that f by (auto simp: MOV_seg_def F8_def g [unfolded t_def] Let_def set_seg_def clear_serial_def seg_cache_ok_def)
  qed
  show "seg_cache_ok c (CopyEmu n s)" "seg_cache_ok c (CloneEmu n s)"
    using assms by (auto simp: CopyEmu_def CloneEmu_def copy6_def seg_cache_ok_def)
  show "seg_cache_ok d (ResetSegmentsCache s)"
    using assms by (auto simp: ResetSegmentsCache_def seg_cache_ok_def)
qed

theorem segment_cache_sound_witness:
  "fst (GetSegmentBaseEmu tls0 sGS ((run0 [])\<lparr>segs := (\<lambda>_. 0x33)\<rparr>)) = 0x2000"
proof -
  have "seg_cache_ok tls0 ((run0 [])\<lparr>segs := (\<lambda>_. 0x33)\<rparr>)" by (simp add: seg_cache_ok_def run0_def)
  then show ?thesis
    using segment_cache_sound [of tls0 "(run0 [])\<lparr>segs := (\<lambda>_. 0x33)\<rparr>" sGS "run0 []"]
    by (simp add: run0_def GetSegmentBase_def tls0_def)
qed

text \<open>Two places load a segment register without dropping its cached base: a far jump or call through memory
  (which sets CS) and \<open>SetFS\<close>, with which a new thread gets the FS of its parent.\<close>

theorem SetFS_keeps_stale_base:
  assumes "segs_serial s sFS = sel_serial s"
  shows "fst (GetSegmentBaseEmu c sFS (SetFS s v)) = segs_offs s sFS"
  using assms by (simp add: GetSegmentBaseEmu_def SetFS_def Let_def)

theorem far_transfer_keeps_stale_base:
  assumes "segs_serial s sCS = sel_serial s"
  shows "fst (GetSegmentBaseEmu c sCS (set_CS v s)) = segs_offs s sCS"
  using assms by (simp add: GetSegmentBaseEmu_def set_CS_def Let_def)

end
