(* ===== verification/Strings.thy ===== *)
theory Strings
  imports InterpStack
begin

unbundle bit_operations_syntax

text \<open>
  The string instructions in closed form: what a repeated STOSB, MOVSB and SCASB leaves in memory and
  in the registers, in both directions, for every count.
\<close>

section \<open>Loops\<close>

lemma advance_eq: "advance r d s = s\<lparr>regs := (regs s)(r := regs s r + d)\<rparr>"
  by (simp add: advance_def set_reg32_def reg32_def)

lemma reg8_regs: "reg8 s r k = get_byte (regs s r) k"
  by (simp add: reg8_def)

lemma stosb_body_eq:
  "stosb_body d s = s\<lparr>mem := (mem s)(regs s rDI := reg8 s rAX 0), regs := (regs s)(rDI := regs s rDI + d)\<rparr>"
  by (simp add: stosb_body_def Let_def st8_def advance_eq reg32_def)

lemma movsb_body_eq:
  "movsb_body d s = s\<lparr>mem := (mem s)(regs s rDI := mem s (regs s rSI)),
     regs := (regs s)(rDI := regs s rDI + d, rSI := regs s rSI + d)\<rparr>"
  by (simp add: movsb_body_def Let_def st8_def advance_eq reg32_def ld8_def)

text \<open>The addresses a loop of \<open>n\<close> steps of size \<open>d\<close> from \<open>a\<close> visits.\<close>

definition visited :: "u32 \<Rightarrow> u32 \<Rightarrow> nat \<Rightarrow> u32 set" where
  "visited a d n = {b. \<exists>k<n. b = a + of_nat k * d}"

lemma visited_0 [simp]: "visited a d 0 = {}"
  by (simp add: visited_def)

lemma visited_Suc: "visited a d (Suc n) = insert a (visited (a + d) d n)"
proof (rule set_eqI)
  fix b
  have "(\<exists>k<Suc n. b = a + of_nat k * d) \<longleftrightarrow> b = a \<or> (\<exists>k<n. b = a + of_nat (Suc k) * d)"
    by (simp only: Ex_less_Suc2) simp
  then show "b \<in> visited a d (Suc n) \<longleftrightarrow> b \<in> insert a (visited (a + d) d n)"
    by (simp add: visited_def algebra_simps)
qed

lemma visited_up: "n \<le> 2 ^ 32 \<Longrightarrow> b \<in> visited a 1 n \<longleftrightarrow> unat (b - a) < n"
proof
  assume n: "n \<le> 2 ^ 32"
  show "unat (b - a) < n" if "b \<in> visited a 1 n"
    using that n by (auto simp: visited_def unat_of_nat)
  show "b \<in> visited a 1 n" if "unat (b - a) < n"
    unfolding visited_def using that by (auto intro!: exI [of _ "unat (b - a)"])
qed

lemma visited_down: "n \<le> 2 ^ 32 \<Longrightarrow> b \<in> visited a (- 1) n \<longleftrightarrow> unat (a - b) < n"
proof
  assume n: "n \<le> 2 ^ 32"
  show "unat (a - b) < n" if "b \<in> visited a (- 1) n"
    using that n by (auto simp: visited_def unat_of_nat)
  show "b \<in> visited a (- 1) n" if "unat (a - b) < n"
    unfolding visited_def using that by (auto intro!: exI [of _ "unat (a - b)"])
qed

section \<open>STOSB\<close>

lemma stosb_loop:
  "while_dec n (stosb_body d) s =
    s\<lparr>mem := \<lambda>b. if b \<in> visited (regs s rDI) d n then reg8 s rAX 0 else mem s b,
      regs := (regs s)(rDI := regs s rDI + of_nat n * d)\<rparr>"
proof (induction n arbitrary: s)
  case (Suc n)
  have r: "reg8 (stosb_body d s) rAX 0 = reg8 s rAX 0" by (simp add: stosb_body_eq reg8_regs)
  show ?case
    unfolding while_dec.simps Suc.IH r by (simp add: stosb_body_eq visited_Suc fun_eq_iff algebra_simps)
qed simp

section \<open>MOVSB\<close>

lemma movsb_loop:
  assumes "\<forall>k. 0 < k \<and> k < n \<longrightarrow> regs s rDI - regs s rSI \<noteq> of_nat k * d"
  shows "while_dec n (movsb_body d) s =
    s\<lparr>mem := \<lambda>b. if b \<in> visited (regs s rDI) d n then mem s (regs s rSI + (b - regs s rDI)) else mem s b,
      regs := (regs s)(rDI := regs s rDI + of_nat n * d, rSI := regs s rSI + of_nat n * d)\<rparr>"
  using assms
proof (induction n arbitrary: s)
  case (Suc n)
  define D S where "D = regs s rDI" and "S = regs s rSI"
  define t where "t = movsb_body d s"
  have t: "regs t rDI = D + d" "regs t rSI = S + d" "mem t = (mem s)(D := mem s S)"
    by (simp_all add: t_def movsb_body_eq D_def S_def)
  have c: "\<forall>k. 0 < k \<and> k < n \<longrightarrow> regs t rDI - regs t rSI \<noteq> of_nat k * d"
    using Suc.prems by (simp add: t D_def S_def)
  have m: "mem t (regs t rSI + (b - regs t rDI)) = mem s (S + (b - D))" if b: "b \<in> visited (D + d) d n" for b
  proof -
    obtain k where k: "k < n" "b = D + d + of_nat k * d" using b by (auto simp: visited_def)
    have "D - S \<noteq> of_nat (Suc k) * d" using Suc.prems k(1) by (auto simp: D_def S_def)
    then have "S + (b - D) \<noteq> D" using k(2) by (simp add: algebra_simps)
    then show ?thesis by (simp add: t)
  qed
  have M: "(\<lambda>b. if b \<in> visited (regs t rDI) d n then mem t (regs t rSI + (b - regs t rDI)) else mem t b) =
      (\<lambda>b. if b \<in> visited D d (Suc n) then mem s (S + (b - D)) else mem s b)"
    using m by (auto simp: visited_Suc t fun_eq_iff)
  have R: "(regs t)(rDI := regs t rDI + of_nat n * d, rSI := regs t rSI + of_nat n * d) =
      (regs s)(rDI := D + of_nat (Suc n) * d, rSI := S + of_nat (Suc n) * d)"
    by (simp add: t fun_eq_iff algebra_simps) (simp add: t_def movsb_body_eq)
  show ?case
    unfolding while_dec.simps t_def [symmetric] Suc.IH [OF c] M R D_def [symmetric] S_def [symmetric]
    by (simp add: t_def movsb_body_eq fun_upd_def)
qed simp

section \<open>SCASB\<close>

text \<open>The first step at which the scan stops, \<open>n\<close> if it does not.\<close>

definition first_stop :: "(nat \<Rightarrow> bool) \<Rightarrow> nat \<Rightarrow> nat" where
  "first_stop P n = length (takeWhile (\<lambda>i. \<not> P i) [0..<n])"

lemma first_stop_0 [simp]: "first_stop P 0 = 0"
  by (simp add: first_stop_def)

lemma first_stop_Suc: "first_stop P (Suc n) = (if P 0 then 0 else Suc (first_stop (\<lambda>i. P (Suc i)) n))"
  by (simp add: first_stop_def upt_conv_Cons map_Suc_upt [symmetric] takeWhile_map comp_def del: upt_Suc)

lemma first_stop_le: "first_stop P n \<le> n"
  by (simp add: first_stop_def order_trans [OF length_takeWhile_le])

lemma first_stop_least:
  "(first_stop P n < n \<longrightarrow> P (first_stop P n)) \<and> (\<forall>i < first_stop P n. \<not> P i)"
proof (induction n arbitrary: P)
  case (Suc n)
  show ?case
    using Suc.IH [of "\<lambda>i. P (Suc i)"] by (auto simp: first_stop_Suc less_Suc_eq_0_disj)
qed simp

lemma scasb_loop_eq:
  defines "hit \<equiv> \<lambda>s d eq i. (reg8 s rAX 0 = mem s (regs s rDI + of_nat i * d)) = eq"
  shows "scasb_loop n eq d t s = (let k = first_stop (hit s d eq) n; v = min (Suc k) n in
    (n - v, if n = 0 then t else mem s (regs s rDI + of_nat (v - 1) * d),
     s\<lparr>regs := (regs s)(rDI := regs s rDI + of_nat v * d)\<rparr>))"
proof (induction n arbitrary: s t)
  case (Suc n)
  define u where "u = advance rDI d s"
  have u: "regs u rDI = regs s rDI + d" "mem u = mem s" "reg8 u rAX 0 = reg8 s rAX 0"
    by (simp_all add: u_def advance_eq reg8_regs)
  have h: "hit u d eq = (\<lambda>i. hit s d eq (Suc i))" by (simp add: hit_def u fun_eq_iff algebra_simps)
  show ?case
  proof (cases "hit s d eq 0")
    case True
    then have m: "min (Suc (first_stop (hit s d eq) (Suc n))) (Suc n) = 1" by (simp add: first_stop_Suc)
    show ?thesis
      using True by (simp only: Let_def m) (simp add: Let_def hit_def reg32_def ld8_def advance_eq reg8_regs)
  next
    case False
    then have "scasb_loop (Suc n) eq d t s = scasb_loop n eq d (mem s (regs s rDI)) u"
      using u by (simp add: Let_def hit_def reg32_def ld8_def u_def [symmetric])
    moreover define w where "w = min (Suc (first_stop (hit u d eq) n)) n"
    moreover have "min (Suc (first_stop (hit s d eq) (Suc n))) (Suc n) = Suc w"
      using False by (simp add: first_stop_Suc h w_def)
    moreover have "(if n = 0 then mem s (regs s rDI) else mem u (regs u rDI + of_nat (w - 1) * d)) = mem s (regs s rDI + of_nat w * d)"
    proof (cases w)
      case 0
      then show ?thesis by (cases n) (simp_all add: w_def)
    next
      case (Suc v)
      then have "n \<noteq> 0" by (auto simp: w_def)
      then show ?thesis using Suc by (simp add: u algebra_simps)
    qed
    moreover have "u\<lparr>regs := (regs u)(rDI := regs u rDI + of_nat w * d)\<rparr> = s\<lparr>regs := (regs s)(rDI := regs s rDI + of_nat (Suc w) * d)\<rparr>"
    proof -
      have "regs u rDI + of_nat w * d = regs s rDI + of_nat (Suc w) * d" by (simp add: u algebra_simps)
      then show ?thesis by (simp only:) (simp add: u_def advance_eq del: of_nat_Suc)
    qed
    ultimately show ?thesis
      by (simp only: Suc.IH Let_def) simp
  qed
qed (simp add: hit_def)

section \<open>The instructions\<close>

lemma end_rep_eq: "rep s \<noteq> 0 \<Longrightarrow> end_rep s = s\<lparr>regs := (regs s)(rCX := 0)\<rparr>"
  by (simp add: end_rep_def set_reg32_def)

lemma rep_update [simp]: "rep (s\<lparr>mem := m\<rparr>) = rep s" "rep (s\<lparr>regs := g\<rparr>) = rep s"
  by simp_all

lemma rep_count_eq: "rep s \<noteq> 0 \<Longrightarrow> rep_count s = unat (regs s rCX)"
  by (simp add: rep_count_def reg32_def)

lemma count_bound: "unat (w :: u32) \<le> 2 ^ 32" "unat w < 2 ^ 32"
proof -
  have "uint w < 2 ^ 32" using uint_lt2p [of w] by simp
  then show "unat w < 2 ^ 32" by (simp only: unat_eq_nat_uint nat_less_iff uint_ge_0) simp
  then show "unat w \<le> 2 ^ 32" by (rule less_imp_le)
qed

text \<open>REP STOSB fills exactly the \<open>ECX\<close> bytes from \<open>EDI\<close> on, upwards or (direction flag set) downwards,
  with \<open>AL\<close>, moves \<open>EDI\<close> past them, clears \<open>ECX\<close> and touches nothing else.\<close>

theorem rep_stosb_fills:
  assumes "rep s \<noteq> 0"
  shows "STOSB s = s\<lparr>
    mem := \<lambda>b. if unat (if ACCESS_FLAG F_DF s then regs s rDI - b else b - regs s rDI) < unat (regs s rCX)
      then reg8 s rAX 0 else mem s b,
    regs := (regs s)(rDI := (if ACCESS_FLAG F_DF s then regs s rDI - regs s rCX else regs s rDI + regs s rCX), rCX := 0)\<rparr>"
proof (cases "ACCESS_FLAG F_DF s")
  case True
  then have d: "dir 1 s = - 1" by (simp add: dir_def)
  show ?thesis
    using assms count_bound(1) [of "regs s rCX"] True
    by (simp add: STOSB_def rep_count_eq stosb_loop end_rep_eq d visited_down)
next
  case False
  then have d: "dir 1 s = 1" by (simp add: dir_def)
  show ?thesis
    using assms count_bound(1) [of "regs s rCX"] False
    by (simp add: STOSB_def rep_count_eq stosb_loop end_rep_eq d visited_up)
qed

theorem rep_stosb_fills_witness:
  "mem (STOSB ((run0 [])\<lparr>rep := 2, regs := (\<lambda>r. if r = rAX then 7 else if r = rCX then 3 else 0x100)\<rparr>)) 0x102 = 7"
  using rep_stosb_fills [of "(run0 [])\<lparr>rep := 2, regs := (\<lambda>r. if r = rAX then 7 else if r = rCX then 3 else 0x100)\<rparr>"]
  by (simp add: run0_def ACCESS_FLAG_def reg8_def get_byte_def)

text \<open>C17. REP MOVSB copies the \<open>ECX\<close> bytes at \<open>ESI\<close> to \<open>EDI\<close>, byte for byte as they were before the
  instruction, whenever the destination does not start inside the part of the source that is still
  to be read (in the direction of the copy); it moves both pointers past the bytes, clears
  \<open>ECX\<close> and touches nothing else.\<close>

theorem rep_movsb_copies:
  assumes "rep s \<noteq> 0"
    and "let e = (if ACCESS_FLAG F_DF s then regs s rSI - regs s rDI else regs s rDI - regs s rSI)
      in e = 0 \<or> regs s rCX \<le> e"
  shows "MOVSB s = s\<lparr>
    mem := \<lambda>b. if unat (if ACCESS_FLAG F_DF s then regs s rDI - b else b - regs s rDI) < unat (regs s rCX)
      then mem s (regs s rSI + (b - regs s rDI)) else mem s b,
    regs := (regs s)(
      rDI := (if ACCESS_FLAG F_DF s then regs s rDI - regs s rCX else regs s rDI + regs s rCX),
      rSI := (if ACCESS_FLAG F_DF s then regs s rSI - regs s rCX else regs s rSI + regs s rCX),
      rCX := 0)\<rparr>"
proof -
  define n where "n = unat (regs s rCX)"
  have n: "n < 2 ^ 32" "of_nat n = regs s rCX" using count_bound by (simp_all add: n_def)
  have c: "regs s rDI - regs s rSI \<noteq> of_nat k * dir 1 s" if k: "0 < k" "k < n" for k
  proof
    assume e: "regs s rDI - regs s rSI = of_nat k * dir 1 s"
    have u: "unat (of_nat k :: u32) = k" using k n by (simp add: unat_of_nat)
    from e have "(if ACCESS_FLAG F_DF s then regs s rSI - regs s rDI else regs s rDI - regs s rSI) = of_nat k"
      by (auto simp: dir_def algebra_simps split: if_splits)
    with assms(2) have "(of_nat k :: u32) = 0 \<or> regs s rCX \<le> of_nat k" by (simp add: Let_def)
    then have "k = 0 \<or> n \<le> k"
      using u by (auto simp: n_def word_le_nat_alt)
    then show False using k by simp
  qed
  show ?thesis
  proof (cases "ACCESS_FLAG F_DF s")
    case True
    then have d: "dir 1 s = - 1" by (simp add: dir_def)
    show ?thesis
      using assms(1) n movsb_loop [of n s "- 1"] c True
      by (simp add: MOVSB_def rep_count_eq n_def [symmetric] end_rep_eq d visited_down less_imp_le)
  next
    case False
    then have d: "dir 1 s = 1" by (simp add: dir_def)
    show ?thesis
      using assms(1) n movsb_loop [of n s 1] c False
      by (simp add: MOVSB_def rep_count_eq n_def [symmetric] end_rep_eq d visited_up less_imp_le)
  qed
qed

theorem rep_movsb_copies_witness:
  "mem (MOVSB ((run0 [1, 2, 3])\<lparr>rep := 2, regs := (\<lambda>r. if r = rDI then 0x100 else if r = rCX then 3 else 0)\<rparr>)) 0x101 = 2"
  using rep_movsb_copies [of "(run0 [1, 2, 3])\<lparr>rep := 2, regs := (\<lambda>r. if r = rDI then 0x100 else if r = rCX then 3 else 0)\<rparr>"]
  by (simp add: run0_def ACCESS_FLAG_def)

lemma scasb_loop_0: "regs s rCX = 0 \<Longrightarrow> scasb_loop (unat (regs s rCX)) eq d t s = (0, t, s)"
  by simp

text \<open>C18. REPNE SCASB (and REPE SCASB) searches the string at \<open>EDI\<close> for the first byte equal to (different
  from) \<open>AL\<close> among the next \<open>ECX\<close>: \<open>EDI\<close> ends one past the byte it stopped at and
  \<open>ECX\<close> counts the bytes left; the flags are those of comparing \<open>AL\<close> with that byte, so ZF
  tells whether the search succeeded. Nothing is written to memory, and a search with
  \<open>ECX\<close> 0 changes nothing, not even the flags.\<close>

theorem rep_scasb_searches:
  assumes "rep s \<noteq> 0"
  shows "let d = (if ACCESS_FLAG F_DF s then - 1 else 1);
      byte = (\<lambda>i. mem s (regs s rDI + of_nat i * d));
      n = unat (regs s rCX);
      k = first_stop (\<lambda>i. (reg8 s rAX 0 = byte i) = (rep s = 1)) n
    in if n = 0 then SCASB s = s
       else erase_flags (SCASB s) = erase_flags (s\<lparr>regs := (regs s)(
              rDI := regs s rDI + of_nat (min (Suc k) n) * d, rCX := regs s rCX - of_nat (min (Suc k) n))\<rparr>) \<and>
            visible_flags (SCASB s) = arch_sub (reg8 s rAX 0) (byte (min (Suc k) n - 1)) False"
proof -
  define n where "n = unat (regs s rCX)"
  define d where "d = dir 1 s"
  define k where "k = first_stop (\<lambda>i. (reg8 s rAX 0 = mem s (regs s rDI + of_nat i * d)) = (rep s = 1)) n"
  define v where "v = min (Suc k) n"
  define t where "t = mem s (regs s rDI + of_nat (v - 1) * d)"
  define u where "u = s\<lparr>regs := (regs s)(rDI := regs s rDI + of_nat v * d)\<rparr>"
  have c: "(of_nat (n - v) :: u32) = regs s rCX - of_nat v"
    using count_bound by (simp add: v_def n_def of_nat_diff)
  have e: "SCASB s = (if n = 0 then set_reg32 rCX 0 s else set_reg32 rCX (of_nat (n - v)) (snd (cmp8 u (reg8 s rAX 0) t)))"
  proof (cases "n = 0")
    case True
    then have "regs s rCX = 0" by (simp add: n_def unat_eq_zero)
    then show ?thesis using assms True by (simp add: SCASB_def reg32_def)
  next
    case False
    then have "regs s rCX \<noteq> 0" by (auto simp: n_def)
    moreover have "scasb_loop n (rep s = 1) d 0 s = (n - v, t, u)"
      unfolding scasb_loop_eq Let_def k_def [symmetric] v_def [symmetric] t_def [symmetric] u_def [symmetric] using False by simp
    ultimately show ?thesis
      using assms False by (simp add: SCASB_def reg32_def n_def [symmetric] d_def [symmetric]) (simp add: u_def reg8_regs)
  qed
  have "if n = 0 then SCASB s = s
       else erase_flags (SCASB s) = erase_flags (s\<lparr>regs := (regs s)(
              rDI := regs s rDI + of_nat v * d, rCX := regs s rCX - of_nat v)\<rparr>) \<and>
            visible_flags (SCASB s) = arch_sub (reg8 s rAX 0) t False"
  proof (cases "n = 0")
    case True
    then have "regs s rCX = 0" by (simp add: n_def unat_eq_zero)
    then have "(regs s)(rCX := 0) = regs s" by (auto simp: fun_eq_iff)
    then show ?thesis using True by (simp add: e set_reg32_def)
  next
    case False
    have "erase_flags (SCASB s) = (erase_flags (snd (cmp8 u (reg8 s rAX 0) t)))\<lparr>regs := (regs (snd (cmp8 u (reg8 s rAX 0) t)))(rCX := of_nat (n - v))\<rparr>"
      using False by (simp add: e set_reg32_def erase_flags_def)
    moreover have "regs (snd (cmp8 u (reg8 s rAX 0) t)) = regs u"
      using arg_cong [OF alu_cmp8.frame_of [of u "reg8 s rAX 0" t], of regs] by (simp add: erase_flags_def)
    moreover have "visible_flags (SCASB s) = visible_flags (snd (cmp8 u (reg8 s rAX 0) t))"
    proof -
      have "df (snd (cmp8 u (reg8 s rAX 0) t)) = d_none" by (simp add: cmp8_def Let_def)
      then show ?thesis using False by (simp add: e set_reg32_def visible_eager) (simp add: status_flags_def ACCESS_FLAG_def)
    qed
    ultimately show ?thesis
      using False c by (simp add: alu_laws u_def) (simp add: erase_flags_def)
  qed
  then show ?thesis
    by (simp only: dir_def [symmetric] Let_def n_def d_def k_def v_def t_def)
qed

theorem rep_scasb_searches_witness:
  "a_ZF (visible_flags (SCASB ((run0 [5, 7, 6])\<lparr>rep := 1, regs := (\<lambda>r. if r = rAX then 7 else if r = rCX then 3 else 0)\<rparr>)))"
proof -
  define s where "s = (run0 [5, 7, 6])\<lparr>rep := 1, regs := (\<lambda>r. if r = rAX then 7 else if r = rCX then 3 else 0)\<rparr>"
  have s: "rep s = 1" "reg8 s rAX 0 = 7" "regs s rDI = 0" "unat (regs s rCX) = 3" "\<not> ACCESS_FLAG F_DF s"
    by (simp_all add: s_def reg8_def get_byte_def run0_def ACCESS_FLAG_def)
  have m: "mem s 0 = 5" "mem s 1 = 7" by (simp_all add: s_def run0_def)
  have k: "first_stop (\<lambda>i. mem s (of_nat i) = 7) 3 = 1"
    unfolding numeral_3_eq_3 by (simp add: first_stop_Suc m)
  have "a_ZF (visible_flags (SCASB s))"
    using rep_scasb_searches [of s] by (simp add: Let_def s k m arch_sub_def)
  then show ?thesis by (simp add: s_def)
qed

end
