(* ===== verification/Vec.thy ===== *)
theory Vec
  imports InterpBase
begin

unbundle bit_operations_syntax

text \<open>
  The MMX and SSE registers of \<open>src/include/regs.h\<close> by their parts, and the operands of packed
  instructions (\<open>GET_EM\<close> and \<open>GET_EX\<close> of \<open>src/emu/modrm.h\<close>). The unions \<open>mmx87_regs_t\<close>
  and \<open>sse_regs_t\<close> are words of 64 and 128 bits; an element \<open>ub[i]\<close>, \<open>uw[i]\<close>, \<open>ud[i]\<close> or \<open>q[i]\<close>
  is a lane of the word, its width given by its type. The locale \<open>packed\<close> states what reading and writing
  elements promises, and gives the closed form of a loop over all of them.
\<close>

section \<open>Elements\<close>

definition lane :: "nat \<Rightarrow> 'a::len word \<Rightarrow> 'b::len word" where
  "lane i w = ucast (drop_bit (LENGTH('b) * i) w)"

definition put_lane :: "nat \<Rightarrow> 'b::len word \<Rightarrow> 'a::len word \<Rightarrow> 'a word" where
  "put_lane i v w = (w AND NOT (push_bit (LENGTH('b) * i) (mask LENGTH('b)))) OR push_bit (LENGTH('b) * i) (ucast v)"

lemma bit_lane: "bit (lane i w :: 'b::len word) k \<longleftrightarrow> k < LENGTH('b) \<and> bit w (LENGTH('b) * i + k)"
  by (auto simp: lane_def bit_simps)

lemma bit_put_lane:
  fixes w :: "'a::len word" and v :: "'b::len word"
  shows "bit (put_lane i v w) k \<longleftrightarrow> k < LENGTH('a) \<and>
    (if LENGTH('b) * i \<le> k \<and> k < LENGTH('b) * i + LENGTH('b) then bit v (k - LENGTH('b) * i) else bit w k)"
  by (auto simp: put_lane_def bit_simps dest: bit_imp_le_length)

lemma lane_positions:
  assumes "i < n" "L * n \<le> (m :: nat)"
  shows "L * i + L \<le> m"
proof -
  have "L * i + L = L * Suc i" by simp
  also have "\<dots> \<le> L * n" using assms(1) by (intro mult_le_mono2) simp
  finally show ?thesis using assms(2) by simp
qed

lemma lane_order: "i < j \<Longrightarrow> L * i + L \<le> L * (j :: nat)"
  using lane_positions [of i j L "L * j"] by simp

lemma lane_put_lane:
  fixes w :: "'a::len word" and v :: "'b::len word"
  assumes "LENGTH('b) * n \<le> LENGTH('a)" "i < n" "j < n"
  shows "lane i (put_lane j v w) = (if i = j then v else lane i w)"
proof -
  define L a b where "L = LENGTH('b)" and "a = LENGTH('b) * i" and "b = LENGTH('b) * j"
  have A: "L * i = a" "L * j = b" by (simp_all add: L_def a_def b_def)
  have m: "a + L \<le> LENGTH('a)" "b + L \<le> LENGTH('a)"
    using lane_positions [OF assms(2,1)] lane_positions [OF assms(3,1)] by (simp_all add: L_def a_def b_def)
  have s: "i = j \<or> a + L \<le> b \<or> b + L \<le> a"
    using lane_order [of i j L] lane_order [of j i L] by (cases i j rule: linorder_cases) (simp_all add: L_def a_def b_def)
  have l: "bit (lane i x :: 'b word) k \<longleftrightarrow> k < L \<and> bit x (a + k)" for x :: "'a word" and k
    unfolding bit_lane L_def [symmetric] A by (rule refl)
  have p: "bit (put_lane j v w) k \<longleftrightarrow> k < LENGTH('a) \<and> (if b \<le> k \<and> k < b + L then bit v (k - b) else bit w k)" for k
    unfolding bit_put_lane L_def [symmetric] A by (rule refl)
  show ?thesis
  proof (cases "i = j")
    case True
    then have "a = b" by (simp add: a_def b_def)
    then show ?thesis using True m l p by (intro bit_word_eqI) (simp add: L_def)
  next
    case False
    have "bit (lane i (put_lane j v w) :: 'b word) k = bit (lane i w :: 'b word) k" for k
      using s False m by (cases "k < L") (simp_all add: l p, linarith)
    then show ?thesis using False by (simp add: bit_word_eqI)
  qed
qed

lemma lanes_eqI:
  fixes v w :: "'a::len word"
  assumes "LENGTH('b) * n = LENGTH('a)" "\<And>i. i < n \<Longrightarrow> (lane i v :: 'b::len word) = lane i w"
  shows "v = w"
proof (rule bit_word_eqI)
  fix k
  assume k: "k < LENGTH('a)"
  define i r where "i = k div LENGTH('b)" and "r = k mod LENGTH('b)"
  have e: "k = LENGTH('b) * i + r" "r < LENGTH('b)" by (simp_all add: i_def r_def)
  have "i < n" using k assms(1) unfolding i_def by (metis less_mult_imp_div_less mult.commute)
  from assms(2) [OF this] have "bit (lane i v :: 'b word) r = bit (lane i w :: 'b word) r" by simp
  then show "bit v k = bit w k" using e by (simp add: bit_lane)
qed

section \<open>The contract of a packed value\<close>

locale packed =
  fixes get :: "nat \<Rightarrow> 's \<Rightarrow> 'v"
    and put :: "nat \<Rightarrow> 'v \<Rightarrow> 's \<Rightarrow> 's"
    and n :: nat
  assumes get_put: "i < n \<Longrightarrow> j < n \<Longrightarrow> get i (put j v s) = (if i = j then v else get i s)"
begin

text \<open>A loop that writes every element, each from a value that no earlier turn changes.\<close>

lemma get_fold:
  assumes "m \<le> n" "\<And>j s'. j < m \<Longrightarrow> (\<And>k. j \<le> k \<Longrightarrow> k < n \<Longrightarrow> get k s' = get k s) \<Longrightarrow> f j s' = g j"
  shows "i < n \<Longrightarrow> get i (fold (\<lambda>j s. put j (f j s) s) [0..<m] s) = (if i < m then g i else get i s)"
  using assms
proof (induction m arbitrary: i)
  case (Suc m)
  define t where "t = fold (\<lambda>j s. put j (f j s) s) [0..<m] s"
  have t: "get k t = (if k < m then g k else get k s)" if "k < n" for k
    unfolding t_def using that Suc.prems(2,3) by (intro Suc.IH) simp_all
  have "f m t = g m" using t by (intro Suc.prems(3)) simp_all
  then show ?case
    using Suc.prems(1,2) t [of i] by (simp add: get_put less_Suc_eq flip: t_def)
qed simp

end

interpretation bytes64: packed lane "put_lane :: nat \<Rightarrow> u8 \<Rightarrow> u64 \<Rightarrow> u64" 8
  by unfold_locales (rule lane_put_lane; simp)

interpretation words64: packed lane "put_lane :: nat \<Rightarrow> u16 \<Rightarrow> u64 \<Rightarrow> u64" 4
  by unfold_locales (rule lane_put_lane; simp)

interpretation dwords64: packed lane "put_lane :: nat \<Rightarrow> u32 \<Rightarrow> u64 \<Rightarrow> u64" 2
  by unfold_locales (rule lane_put_lane; simp)

interpretation dwords128: packed lane "put_lane :: nat \<Rightarrow> u32 \<Rightarrow> 128 word \<Rightarrow> 128 word" 4
  by unfold_locales (rule lane_put_lane; simp)

interpretation qwords128: packed lane "put_lane :: nat \<Rightarrow> u64 \<Rightarrow> 128 word \<Rightarrow> 128 word" 2
  by unfold_locales (rule lane_put_lane; simp)

section \<open>Registers and operands\<close>

definition mm :: "'a emu_scheme \<Rightarrow> 3 word \<Rightarrow> u64" where
  "mm s r = mmx (fpu s) r"

definition set_mm :: "3 word \<Rightarrow> u64 \<Rightarrow> 'a emu_scheme \<Rightarrow> 'a emu_scheme" where
  "set_mm r v s = s\<lparr>fpu := (fpu s)\<lparr>mmx := (mmx (fpu s))(r := v)\<rparr>\<rparr>"

definition xm :: "'a emu_scheme \<Rightarrow> 3 word \<Rightarrow> 128 word" where
  "xm s r = xmm (fpu s) r"

definition set_xm :: "3 word \<Rightarrow> 128 word \<Rightarrow> 'a emu_scheme \<Rightarrow> 'a emu_scheme" where
  "set_xm r v s = s\<lparr>fpu := (fpu s)\<lparr>xmm := (xmm (fpu s))(r := v)\<rparr>\<rparr>"

definition ld64 :: "'a machine_scheme \<Rightarrow> u32 \<Rightarrow> u64" where
  "ld64 s a = ucast (ld32 s a) OR push_bit 32 (ucast (ld32 s (a + 4)))"

definition st64 :: "u32 \<Rightarrow> u64 \<Rightarrow> 'a machine_scheme \<Rightarrow> 'a machine_scheme" where
  "st64 a v s = st32 (a + 4) (ucast (drop_bit 32 v)) (st32 a (ucast v) s)"

definition ld128 :: "'a machine_scheme \<Rightarrow> u32 \<Rightarrow> 128 word" where
  "ld128 s a = ucast (ld64 s a) OR push_bit 64 (ucast (ld64 s (a + 8)))"

definition st128 :: "u32 \<Rightarrow> 128 word \<Rightarrow> 'a machine_scheme \<Rightarrow> 'a machine_scheme" where
  "st128 a v s = st64 (a + 8) (ucast (drop_bit 64 v)) (st64 a (ucast v) s)"

text \<open>What \<open>opem\<close> and \<open>opex\<close> point at.\<close>

datatype vloc = VReg "3 word" | VMem u32

primrec rdm :: "'a machine_scheme \<Rightarrow> vloc \<Rightarrow> u64" where
  "rdm s (VReg r) = mm s r"
| "rdm s (VMem a) = ld64 s a"

primrec wrm :: "vloc \<Rightarrow> u64 \<Rightarrow> 'a machine_scheme \<Rightarrow> 'a machine_scheme" where
  "wrm (VReg r) v s = set_mm r v s"
| "wrm (VMem a) v s = st64 a v s"

primrec rdx :: "'a machine_scheme \<Rightarrow> vloc \<Rightarrow> 128 word" where
  "rdx s (VReg r) = xm s r"
| "rdx s (VMem a) = ld128 s a"

primrec wrx :: "vloc \<Rightarrow> 128 word \<Rightarrow> 'a machine_scheme \<Rightarrow> 'a machine_scheme" where
  "wrx (VReg r) v s = set_xm r v s"
| "wrx (VMem a) v s = st128 a v s"

definition getem :: "u8 \<Rightarrow> run \<Rightarrow> vloc \<times> run" where
  "getem nextop s = (if MODREG nextop then (VReg (rm_field nextop), s)
     else let (a, s) = getecommon nextop s in (VMem a, s))"

definition getex :: "u8 \<Rightarrow> run \<Rightarrow> vloc \<times> run" where
  "getex nextop s = (if MODREG nextop then (VReg (rm_field nextop), s)
     else let (a, s) = getecommon nextop s in (VMem a, s))"

text \<open>An element of an operand, \<open>EM->ub[i]\<close> and the like.\<close>

definition rdml :: "'a machine_scheme \<Rightarrow> vloc \<Rightarrow> nat \<Rightarrow> 'b::len word" where
  "rdml s E i = lane i (rdm s E)"

definition wrml :: "vloc \<Rightarrow> nat \<Rightarrow> 'b::len word \<Rightarrow> 'a machine_scheme \<Rightarrow> 'a machine_scheme" where
  "wrml E i v s = wrm E (put_lane i v (rdm s E)) s"

definition rdxl :: "'a machine_scheme \<Rightarrow> vloc \<Rightarrow> nat \<Rightarrow> 'b::len word" where
  "rdxl s E i = lane i (rdx s E)"

definition wrxl :: "vloc \<Rightarrow> nat \<Rightarrow> 'b::len word \<Rightarrow> 'a machine_scheme \<Rightarrow> 'a machine_scheme" where
  "wrxl E i v s = wrx E (put_lane i v (rdx s E)) s"

text \<open>\<open>for(int i=0; i<n; ++i) GM.[i] = f(GM.[i], EM->[i])\<close>\<close>

definition lanes :: "nat \<Rightarrow> ('b::len word \<Rightarrow> 'b word \<Rightarrow> 'b word) \<Rightarrow> vloc \<Rightarrow> vloc \<Rightarrow> 'a machine_scheme \<Rightarrow> 'a machine_scheme" where
  "lanes n f G E s = fold (\<lambda>i s. wrml G i (f (rdml s G i) (rdml s E i)) s) [0..<n] s"

definition xlanes :: "nat \<Rightarrow> ('b::len word \<Rightarrow> 'b word \<Rightarrow> 'b word) \<Rightarrow> vloc \<Rightarrow> vloc \<Rightarrow> 'a machine_scheme \<Rightarrow> 'a machine_scheme" where
  "xlanes n f G E s = fold (\<lambda>i s. wrxl G i (f (rdxl s G i) (rdxl s E i)) s) [0..<n] s"

end
