(* ===== verification/Mmx.thy ===== *)
theory Mmx
  imports Vec
begin

unbundle bit_operations_syntax

text \<open>
  The MMX instructions of the two-byte opcode map, \<open>src/emu/x86run0f.c\<close>, with the SSSE3 ones of its
  \<open>38\<close> and \<open>3A\<close> pages. An instruction gets the locations of \<open>GM\<close> and \<open>EM\<close>, which may be
  the same register: an element is read from the state that the writes before it have left. C computes on
  elements as on 32-bit integers.
\<close>

section \<open>Saturation\<close>

definition sat_sb :: "u32 \<Rightarrow> u8" where
  "sat_sb t = (if sint t > 127 then 127 else if sint t < - 128 then - 128 else ucast t)"

definition sat_sw :: "u32 \<Rightarrow> u16" where
  "sat_sw t = (if sint t > 32767 then 32767 else if sint t < - 32768 then - 32768 else ucast t)"

section \<open>Sums, differences and comparisons\<close>

definition PADDB :: "vloc \<Rightarrow> vloc \<Rightarrow> run \<Rightarrow> run" where "PADDB = lanes 8 (\<lambda>g e :: u8. g + e)"
definition PADDW :: "vloc \<Rightarrow> vloc \<Rightarrow> run \<Rightarrow> run" where "PADDW = lanes 4 (\<lambda>g e :: u16. g + e)"
definition PADDD :: "vloc \<Rightarrow> vloc \<Rightarrow> run \<Rightarrow> run" where "PADDD = lanes 2 (\<lambda>g e :: u32. g + e)"
definition PADDQ :: "vloc \<Rightarrow> vloc \<Rightarrow> run \<Rightarrow> run" where "PADDQ G E s = wrm G (rdm s G + rdm s E) s"
definition PSUBB :: "vloc \<Rightarrow> vloc \<Rightarrow> run \<Rightarrow> run" where "PSUBB = lanes 8 (\<lambda>g e :: u8. g - e)"
definition PSUBW :: "vloc \<Rightarrow> vloc \<Rightarrow> run \<Rightarrow> run" where "PSUBW = lanes 4 (\<lambda>g e :: u16. g - e)"
definition PSUBD :: "vloc \<Rightarrow> vloc \<Rightarrow> run \<Rightarrow> run" where "PSUBD = lanes 2 (\<lambda>g e :: u32. g - e)"
definition PSUBQ :: "vloc \<Rightarrow> vloc \<Rightarrow> run \<Rightarrow> run" where "PSUBQ G E s = wrm G (rdm s G - rdm s E) s"

definition PADDSB :: "vloc \<Rightarrow> vloc \<Rightarrow> run \<Rightarrow> run" where
  "PADDSB = lanes 8 (\<lambda>g e. let tmp32s = scast g + scast e in sat_sb tmp32s)"

definition PADDSW :: "vloc \<Rightarrow> vloc \<Rightarrow> run \<Rightarrow> run" where
  "PADDSW = lanes 4 (\<lambda>g e. let tmp32s = scast g + scast e in sat_sw tmp32s)"

definition PSUBSB :: "vloc \<Rightarrow> vloc \<Rightarrow> run \<Rightarrow> run" where
  "PSUBSB = lanes 8 (\<lambda>g e. let tmp32s = scast g - scast e in sat_sb tmp32s)"

definition PSUBSW :: "vloc \<Rightarrow> vloc \<Rightarrow> run \<Rightarrow> run" where
  "PSUBSW = lanes 4 (\<lambda>g e. let tmp32s = scast g - scast e in sat_sw tmp32s)"

definition PADDUSB :: "vloc \<Rightarrow> vloc \<Rightarrow> run \<Rightarrow> run" where
  "PADDUSB = lanes 8 (\<lambda>g e :: u8. let tmp32u = ucast g + ucast e :: u32 in if 255 < tmp32u then 255 else ucast tmp32u)"

definition PADDUSW :: "vloc \<Rightarrow> vloc \<Rightarrow> run \<Rightarrow> run" where
  "PADDUSW = lanes 4 (\<lambda>g e :: u16. let tmp32u = ucast g + ucast e :: u32 in if 65535 < tmp32u then 65535 else ucast tmp32u)"

definition PSUBUSB :: "vloc \<Rightarrow> vloc \<Rightarrow> run \<Rightarrow> run" where
  "PSUBUSB = lanes 8 (\<lambda>g e :: u8. let tmp32s = ucast g - ucast e :: u32 in if sint tmp32s < 0 then 0 else ucast tmp32s)"

definition PSUBUSW :: "vloc \<Rightarrow> vloc \<Rightarrow> run \<Rightarrow> run" where
  "PSUBUSW = lanes 4 (\<lambda>g e :: u16. let tmp32s = ucast g - ucast e :: u32 in if sint tmp32s < 0 then 0 else ucast tmp32s)"

definition PAVGB :: "vloc \<Rightarrow> vloc \<Rightarrow> run \<Rightarrow> run" where
  "PAVGB = lanes 8 (\<lambda>g e :: u8. ucast (drop_bit 1 (ucast g + ucast e + 1 :: u32)))"

definition PAVGW :: "vloc \<Rightarrow> vloc \<Rightarrow> run \<Rightarrow> run" where
  "PAVGW = lanes 4 (\<lambda>g e :: u16. ucast (drop_bit 1 (ucast g + ucast e + 1 :: u32)))"

definition PMINUB :: "vloc \<Rightarrow> vloc \<Rightarrow> run \<Rightarrow> run" where "PMINUB = lanes 8 (\<lambda>g e :: u8. if g < e then g else e)"
definition PMAXUB :: "vloc \<Rightarrow> vloc \<Rightarrow> run \<Rightarrow> run" where "PMAXUB = lanes 8 (\<lambda>g e :: u8. if e < g then g else e)"
definition PMINSW :: "vloc \<Rightarrow> vloc \<Rightarrow> run \<Rightarrow> run" where "PMINSW = lanes 4 (\<lambda>g e :: u16. if sint g < sint e then g else e)"
definition PMAXSW :: "vloc \<Rightarrow> vloc \<Rightarrow> run \<Rightarrow> run" where "PMAXSW = lanes 4 (\<lambda>g e :: u16. if sint e < sint g then g else e)"

definition PCMPGTB :: "vloc \<Rightarrow> vloc \<Rightarrow> run \<Rightarrow> run" where "PCMPGTB = lanes 8 (\<lambda>g e :: u8. if sint e < sint g then 0xFF else 0)"
definition PCMPGTW :: "vloc \<Rightarrow> vloc \<Rightarrow> run \<Rightarrow> run" where "PCMPGTW = lanes 4 (\<lambda>g e :: u16. if sint e < sint g then 0xFFFF else 0)"
definition PCMPGTD :: "vloc \<Rightarrow> vloc \<Rightarrow> run \<Rightarrow> run" where "PCMPGTD = lanes 2 (\<lambda>g e :: u32. if sint e < sint g then 0xFFFFFFFF else 0)"
definition PCMPEQB :: "vloc \<Rightarrow> vloc \<Rightarrow> run \<Rightarrow> run" where "PCMPEQB = lanes 8 (\<lambda>g e :: u8. if g = e then 0xFF else 0)"
definition PCMPEQW :: "vloc \<Rightarrow> vloc \<Rightarrow> run \<Rightarrow> run" where "PCMPEQW = lanes 4 (\<lambda>g e :: u16. if g = e then 0xFFFF else 0)"
definition PCMPEQD :: "vloc \<Rightarrow> vloc \<Rightarrow> run \<Rightarrow> run" where "PCMPEQD = lanes 2 (\<lambda>g e :: u32. if g = e then 0xFFFFFFFF else 0)"

definition PAND :: "vloc \<Rightarrow> vloc \<Rightarrow> run \<Rightarrow> run" where "PAND G E s = wrm G (rdm s G AND rdm s E) s"
definition PANDN :: "vloc \<Rightarrow> vloc \<Rightarrow> run \<Rightarrow> run" where "PANDN G E s = wrm G (NOT (rdm s G) AND rdm s E) s"
definition POR :: "vloc \<Rightarrow> vloc \<Rightarrow> run \<Rightarrow> run" where "POR G E s = wrm G (rdm s G OR rdm s E) s"
definition PXOR :: "vloc \<Rightarrow> vloc \<Rightarrow> run \<Rightarrow> run" where "PXOR G E s = wrm G (rdm s G XOR rdm s E) s"

section \<open>Products\<close>

definition PMULLW :: "vloc \<Rightarrow> vloc \<Rightarrow> run \<Rightarrow> run" where
  "PMULLW = lanes 4 (\<lambda>g e :: u16. ucast (scast g * scast e :: u32))"

definition PMULHW :: "vloc \<Rightarrow> vloc \<Rightarrow> run \<Rightarrow> run" where
  "PMULHW = lanes 4 (\<lambda>g e :: u16. ucast (signed_drop_bit 16 (scast g * scast e :: u32) AND 0xFFFF))"

definition PMULHUW :: "vloc \<Rightarrow> vloc \<Rightarrow> run \<Rightarrow> run" where
  "PMULHUW = lanes 4 (\<lambda>g e :: u16. ucast (drop_bit 16 (ucast g * ucast e :: u32) AND 0xFFFF))"

definition PMULHRSW :: "vloc \<Rightarrow> vloc \<Rightarrow> run \<Rightarrow> run" where
  "PMULHRSW = lanes 4 (\<lambda>g e :: u16. let
     tmp32s = signed_drop_bit 1 (signed_drop_bit 14 (scast g * scast e :: u32) + 1) in ucast (tmp32s AND 0xFFFF))"

definition PMULUDQ :: "vloc \<Rightarrow> vloc \<Rightarrow> run \<Rightarrow> run" where
  "PMULUDQ G E s = wrm G (ucast (rdml s G 0 :: u32) * ucast (rdml s E 0 :: u32)) s"

definition PMADDWD :: "vloc \<Rightarrow> vloc \<Rightarrow> run \<Rightarrow> run" where
  "PMADDWD G E s = fold (\<lambda>i s. let
     tmp32s = scast (rdml s G (2 * i) :: u16) * scast (rdml s E (2 * i) :: u16) :: u32;
     tmp32s2 = scast (rdml s G (2 * i + 1) :: u16) * scast (rdml s E (2 * i + 1) :: u16) :: u32
   in wrml G i (tmp32s + tmp32s2) s) [0..<2] s"

definition PMADDUBSW :: "vloc \<Rightarrow> vloc \<Rightarrow> run \<Rightarrow> run" where
  "PMADDUBSW G E s = fold (\<lambda>i s. let
     tmp32s = ucast (rdml s G (2 * i) :: u8) * scast (rdml s E (2 * i) :: u8) +
       ucast (rdml s G (2 * i + 1) :: u8) * scast (rdml s E (2 * i + 1) :: u8) :: u32
   in wrml G i (sat_sw tmp32s) s) [0..<4] s"

definition PSADBW :: "vloc \<Rightarrow> vloc \<Rightarrow> run \<Rightarrow> run" where
  "PSADBW G E s = wrm G (ucast (fold (\<lambda>i tmp32u. let g = rdml s G i :: u8; e = rdml s E i in
     tmp32u + (if e < g then ucast g - ucast e else ucast e - ucast g)) [0..<8] (0 :: u32))) s"

section \<open>Shifts\<close>

text \<open>\<open>for(int i=0; i<n; ++i) GM.[i] = f(GM.[i])\<close>\<close>

definition lanes1 :: "nat \<Rightarrow> ('b::len word \<Rightarrow> 'b word) \<Rightarrow> vloc \<Rightarrow> run \<Rightarrow> run" where
  "lanes1 n f G s = fold (\<lambda>i s. wrml G i (f (rdml s G i)) s) [0..<n] s"

definition PSRLW :: "vloc \<Rightarrow> vloc \<Rightarrow> run \<Rightarrow> run" where
  "PSRLW G E s = (if 15 < rdm s E then wrm G 0 s
     else let tmp8u = rdml s E 0 :: u8 in lanes1 4 (\<lambda>g :: u16. drop_bit (unat tmp8u) g) G s)"

definition PSRLD :: "vloc \<Rightarrow> vloc \<Rightarrow> run \<Rightarrow> run" where
  "PSRLD G E s = (if 31 < rdm s E then wrm G 0 s
     else let tmp8u = rdml s E 0 :: u8 in lanes1 2 (\<lambda>g :: u32. drop_bit (unat tmp8u) g) G s)"

definition PSRLQ :: "vloc \<Rightarrow> vloc \<Rightarrow> run \<Rightarrow> run" where
  "PSRLQ G E s = wrm G (if 63 < rdm s E then 0 else drop_bit (unat (rdm s E)) (rdm s G)) s"

definition PSRAW :: "vloc \<Rightarrow> vloc \<Rightarrow> run \<Rightarrow> run" where
  "PSRAW G E s = (let tmp8u = (if 15 < rdm s E then 16 else rdml s E 0 :: u8) in
     lanes1 4 (\<lambda>g :: u16. ucast (signed_drop_bit (unat tmp8u) (scast g :: u32))) G s)"

definition PSRAD :: "vloc \<Rightarrow> vloc \<Rightarrow> run \<Rightarrow> run" where
  "PSRAD G E s = (if 31 < rdm s E then lanes1 2 (\<lambda>g :: u32. if sint g < 0 then - 1 else 0) G s
     else let tmp8u = rdml s E 0 :: u8 in lanes1 2 (\<lambda>g :: u32. signed_drop_bit (unat tmp8u) g) G s)"

definition PSLLW :: "vloc \<Rightarrow> vloc \<Rightarrow> run \<Rightarrow> run" where
  "PSLLW G E s = (if 15 < rdm s E then wrm G 0 s
     else let tmp8u = rdml s E 0 :: u8 in lanes1 4 (\<lambda>g :: u16. push_bit (unat tmp8u) g) G s)"

definition PSLLD :: "vloc \<Rightarrow> vloc \<Rightarrow> run \<Rightarrow> run" where
  "PSLLD G E s = (if 31 < rdm s E then wrm G 0 s
     else let tmp8u = rdml s E 0 :: u8 in lanes1 2 (\<lambda>g :: u32. push_bit (unat tmp8u) g) G s)"

definition PSLLQ :: "vloc \<Rightarrow> vloc \<Rightarrow> run \<Rightarrow> run" where
  "PSLLQ G E s = wrm G (if 63 < rdm s E then 0 else push_bit (unat (rdml s E 0 :: u8)) (rdm s G)) s"

text \<open>
  The groups with an immediate count. The arithmetic ones do not bound the count: C leaves a shift
  by 32 or more undefined, and the hosts fill with the sign, as here.
\<close>

definition grp_71 :: "u8 \<Rightarrow> vloc \<Rightarrow> u8 \<Rightarrow> run \<Rightarrow> run option" where
  "grp_71 k E tmp8u s = (
     if k = 2 then Some (if 15 < tmp8u then wrm E 0 s else lanes1 4 (\<lambda>e :: u16. drop_bit (unat tmp8u) e) E s)
     else if k = 4 then Some (lanes1 4 (\<lambda>e :: u16. ucast (signed_drop_bit (unat tmp8u) (scast e :: u32))) E s)
     else if k = 6 then Some (if 15 < tmp8u then wrm E 0 s else lanes1 4 (\<lambda>e :: u16. push_bit (unat tmp8u) e) E s)
     else None)"

definition grp_72 :: "u8 \<Rightarrow> vloc \<Rightarrow> u8 \<Rightarrow> run \<Rightarrow> run option" where
  "grp_72 k E tmp8u s = (
     if k = 2 then Some (if 31 < tmp8u then wrm E 0 s else lanes1 2 (\<lambda>e :: u32. drop_bit (unat tmp8u) e) E s)
     else if k = 4 then Some (lanes1 2 (\<lambda>e :: u32. signed_drop_bit (unat tmp8u) e) E s)
     else if k = 6 then Some (if 31 < tmp8u then wrm E 0 s else lanes1 2 (\<lambda>e :: u32. push_bit (unat tmp8u) e) E s)
     else None)"

definition grp_73 :: "u8 \<Rightarrow> vloc \<Rightarrow> u8 \<Rightarrow> run \<Rightarrow> run option" where
  "grp_73 k E tmp8u s = (
     if k = 2 then Some (wrm E (if 63 < tmp8u then 0 else drop_bit (unat tmp8u) (rdm s E)) s)
     else if k = 6 then Some (wrm E (if 63 < tmp8u then 0 else push_bit (unat tmp8u) (rdm s E)) s)
     else None)"

section \<open>Packing and unpacking\<close>

definition PUNPCKLBW :: "vloc \<Rightarrow> vloc \<Rightarrow> run \<Rightarrow> run" where
  "PUNPCKLBW G E s = (let
     s = wrml G 7 (rdml s E 3 :: u8) s;
     s = wrml G 6 (rdml s G 3 :: u8) s;
     s = wrml G 5 (rdml s E 2 :: u8) s;
     s = wrml G 4 (rdml s G 2 :: u8) s;
     s = wrml G 3 (rdml s E 1 :: u8) s;
     s = wrml G 2 (rdml s G 1 :: u8) s
   in wrml G 1 (rdml s E 0 :: u8) s)"

definition PUNPCKLWD :: "vloc \<Rightarrow> vloc \<Rightarrow> run \<Rightarrow> run" where
  "PUNPCKLWD G E s = (let
     s = wrml G 3 (rdml s E 1 :: u16) s;
     s = wrml G 2 (rdml s G 1 :: u16) s
   in wrml G 1 (rdml s E 0 :: u16) s)"

definition PUNPCKLDQ :: "vloc \<Rightarrow> vloc \<Rightarrow> run \<Rightarrow> run" where
  "PUNPCKLDQ G E s = wrml G 1 (rdml s E 0 :: u32) s"

definition PUNPCKHBW :: "vloc \<Rightarrow> vloc \<Rightarrow> run \<Rightarrow> run" where
  "PUNPCKHBW G E s = (let
     s = fold (\<lambda>i s. wrml G (2 * i) (rdml s G (i + 4) :: u8) s) [0..<4] s
   in if E = G then fold (\<lambda>i s. wrml G (2 * i + 1) (rdml s G (2 * i) :: u8) s) [0..<4] s
      else fold (\<lambda>i s. wrml G (2 * i + 1) (rdml s E (i + 4) :: u8) s) [0..<4] s)"

definition PUNPCKHWD :: "vloc \<Rightarrow> vloc \<Rightarrow> run \<Rightarrow> run" where
  "PUNPCKHWD G E s = (let
     s = fold (\<lambda>i s. wrml G (2 * i) (rdml s G (i + 2) :: u16) s) [0..<2] s
   in if E = G then fold (\<lambda>i s. wrml G (2 * i + 1) (rdml s G (2 * i) :: u16) s) [0..<2] s
      else fold (\<lambda>i s. wrml G (2 * i + 1) (rdml s E (i + 2) :: u16) s) [0..<2] s)"

definition PUNPCKHDQ :: "vloc \<Rightarrow> vloc \<Rightarrow> run \<Rightarrow> run" where
  "PUNPCKHDQ G E s = (let s = wrml G 0 (rdml s G 1 :: u32) s in
     if E \<noteq> G then wrml G 1 (rdml s E 1 :: u32) s else s)"

definition PACKSSWB :: "vloc \<Rightarrow> vloc \<Rightarrow> run \<Rightarrow> run" where
  "PACKSSWB G E s = (let
     s = fold (\<lambda>i s. wrml G i (sat_sb (scast (rdml s G i :: u16))) s) [0..<4] s
   in if E = G then wrml G 1 (rdml s G 0 :: u32) s
      else fold (\<lambda>i s. wrml G (4 + i) (sat_sb (scast (rdml s E i :: u16))) s) [0..<4] s)"

definition sat_ub :: "u16 \<Rightarrow> u8" where
  "sat_ub w = (if sint w < 0 then 0 else if sint w > 0xFF then 0xFF else ucast w)"

definition PACKUSWB :: "vloc \<Rightarrow> vloc \<Rightarrow> run \<Rightarrow> run" where
  "PACKUSWB G E s = (let
     s = fold (\<lambda>i s. wrml G i (sat_ub (rdml s G i)) s) [0..<4] s
   in if E = G then wrml G 1 (rdml s G 0 :: u32) s
      else fold (\<lambda>i s. wrml G (4 + i) (sat_ub (rdml s E i)) s) [0..<4] s)"

text \<open>A copy of \<open>EM\<close> is used if it is \<open>GM\<close>; else \<open>EM\<close> does not change.\<close>

definition PACKSSDW :: "vloc \<Rightarrow> vloc \<Rightarrow> run \<Rightarrow> run" where
  "PACKSSDW G E s = (let
     eam1 = rdm s E;
     s = fold (\<lambda>i s. wrml G i (sat_sw (rdml s G i)) s) [0..<2] s
   in fold (\<lambda>i s. wrml G (2 + i) (sat_sw (lane i eam1)) s) [0..<2] s)"

definition PSHUFW :: "u8 \<Rightarrow> vloc \<Rightarrow> vloc \<Rightarrow> run \<Rightarrow> run" where
  "PSHUFW tmp8u G E s = (let eam1 = rdm s E in
     fold (\<lambda>i s. wrml G i (lane (unat (drop_bit (i * 2) tmp8u AND 3)) eam1 :: u16) s) [0..<4] s)"

section \<open>The 38 and 3A pages\<close>

definition PSHUFB :: "vloc \<Rightarrow> vloc \<Rightarrow> run \<Rightarrow> run" where
  "PSHUFB G E s = (let eam1 = rdm s G in
     fold (\<lambda>i s. let e = rdml s E i :: u8 in
       wrml G i (if e AND 128 \<noteq> 0 then 0 else lane (unat (e AND 7)) eam1 :: u8) s) [0..<8] s)"

definition hpairs16 :: "(u16 \<Rightarrow> u16 \<Rightarrow> u16) \<Rightarrow> vloc \<Rightarrow> vloc \<Rightarrow> run \<Rightarrow> run" where
  "hpairs16 f G E s = (let
     s = fold (\<lambda>i s. wrml G i (f (rdml s G (i * 2)) (rdml s G (i * 2 + 1))) s) [0..<2] s
   in if G = E then wrml G 1 (rdml s G 0 :: u32) s
      else fold (\<lambda>i s. wrml G (2 + i) (f (rdml s E (i * 2)) (rdml s E (i * 2 + 1))) s) [0..<2] s)"

definition hpairs32 :: "(u32 \<Rightarrow> u32 \<Rightarrow> u32) \<Rightarrow> vloc \<Rightarrow> vloc \<Rightarrow> run \<Rightarrow> run" where
  "hpairs32 f G E s = (let
     s = wrml G 0 (f (rdml s G 0) (rdml s G 1)) s
   in if G = E then wrml G 1 (rdml s G 0 :: u32) s
      else wrml G 1 (f (rdml s E 0) (rdml s E 1)) s)"

definition PHADDW :: "vloc \<Rightarrow> vloc \<Rightarrow> run \<Rightarrow> run" where "PHADDW = hpairs16 (\<lambda>a b. a + b)"
definition PHADDD :: "vloc \<Rightarrow> vloc \<Rightarrow> run \<Rightarrow> run" where "PHADDD = hpairs32 (\<lambda>a b. a + b)"
definition PHADDSW :: "vloc \<Rightarrow> vloc \<Rightarrow> run \<Rightarrow> run" where "PHADDSW = hpairs16 (\<lambda>a b. sat_sw (scast a + scast b))"
definition PHSUBW :: "vloc \<Rightarrow> vloc \<Rightarrow> run \<Rightarrow> run" where "PHSUBW = hpairs16 (\<lambda>a b. a - b)"
definition PHSUBD :: "vloc \<Rightarrow> vloc \<Rightarrow> run \<Rightarrow> run" where "PHSUBD = hpairs32 (\<lambda>a b. a - b)"
definition PHSUBSW :: "vloc \<Rightarrow> vloc \<Rightarrow> run \<Rightarrow> run" where "PHSUBSW = hpairs16 (\<lambda>a b. sat_sw (scast a - scast b))"

text \<open>An element of \<open>GM\<close> that is kept is not written.\<close>

definition psign :: "'b::len word \<Rightarrow> 'b word \<Rightarrow> 'b word" where
  "psign g e = (if sint e < 0 then - g else if e = 0 then 0 else g)"

definition PSIGNB :: "vloc \<Rightarrow> vloc \<Rightarrow> run \<Rightarrow> run" where "PSIGNB = lanes 8 (psign :: u8 \<Rightarrow> u8 \<Rightarrow> u8)"
definition PSIGNW :: "vloc \<Rightarrow> vloc \<Rightarrow> run \<Rightarrow> run" where "PSIGNW = lanes 4 (psign :: u16 \<Rightarrow> u16 \<Rightarrow> u16)"

definition PABSB :: "vloc \<Rightarrow> vloc \<Rightarrow> run \<Rightarrow> run" where "PABSB = lanes 8 (\<lambda>g e :: u8. ucast (c_abs (scast e :: u32)))"
definition PABSW :: "vloc \<Rightarrow> vloc \<Rightarrow> run \<Rightarrow> run" where "PABSW = lanes 4 (\<lambda>g e :: u16. ucast (c_abs (scast e :: u32)))"
definition PABSD :: "vloc \<Rightarrow> vloc \<Rightarrow> run \<Rightarrow> run" where "PABSD = lanes 2 (\<lambda>g e :: u32. c_abs e)"

definition PALIGNR :: "u8 \<Rightarrow> vloc \<Rightarrow> vloc \<Rightarrow> run \<Rightarrow> run" where
  "PALIGNR tmp8u G E s = (
     if 16 \<le> tmp8u then wrm G 0 s
     else if 8 < tmp8u then let tmp8u = tmp8u - 8 in wrm G (drop_bit (unat tmp8u * 8) (rdm s G)) s
     else if tmp8u = 8 then s
     else if tmp8u = 0 then wrm G (rdm s E) s
     else let s = wrm G (push_bit ((8 - unat tmp8u) * 8) (rdm s G)) s in
       wrm G (rdm s G OR drop_bit (unat tmp8u * 8) (rdm s E)) s)"

section \<open>Moves\<close>

text \<open>\<open>GM.q = ED->dword[0]\<close> extends with zeros.\<close>

definition MOVD_load :: "run \<Rightarrow> run" where
  "MOVD_load s = (let (nextop, s) = F8 s; (ED, s) = geted nextop s in set_mm (reg_field nextop) (ucast (rd32 s ED)) s)"

definition MOVD_store :: "run \<Rightarrow> run" where
  "MOVD_store s = (let (nextop, s) = F8 s; (ED, s) = geted nextop s in wr32 ED (lane 0 (mm s (reg_field nextop))) s)"

definition MOVQ :: "vloc \<Rightarrow> vloc \<Rightarrow> run \<Rightarrow> run" where
  "MOVQ D S s = wrm D (rdm s S) s"

definition PMOVMSKB :: "run \<Rightarrow> run option" where
  "PMOVMSKB s = (let (nextop, s) = F8 s in
     if MODREG nextop then let (EM, s) = getem nextop s; s = wr32 (GD nextop) 0 s in
       Some (fold (\<lambda>i s. if (rdml s EM i :: u8) AND 0x80 \<noteq> 0
         then wr32 (GD nextop) (rd32 s (GD nextop) OR push_bit i 1) s else s) [0..<8] s)
     else None)"

definition MASKMOVQ :: "run \<Rightarrow> run option" where
  "MASKMOVQ s = (let (nextop, s) = F8 s in
     if MODREG nextop then let (EM, s) = getem nextop s in
       Some (fold (\<lambda>i s. if (rdml s EM i :: u8) AND 0x80 \<noteq> 0
         then st8 (reg32 s rDI + of_nat i) (rdml s (VReg (reg_field nextop)) i) s else s) [0..<8] s)
     else None)"

definition MOVNTQ :: "run \<Rightarrow> run option" where
  "MOVNTQ s = (let (nextop, s) = F8 s in
     if MODREG nextop then None
     else let (EM, s) = getem nextop s in Some (MOVQ EM (VReg (reg_field nextop)) s))"

definition PINSRW :: "run \<Rightarrow> run" where
  "PINSRW s = (let (nextop, s) = F8 s; (ED, s) = geted nextop s; (tmp8u, s) = F8 s in
     wrml (VReg (reg_field nextop)) (unat (tmp8u AND 3)) (rd16 s ED) s)"

definition PEXTRW :: "run \<Rightarrow> run" where
  "PEXTRW s = (let (nextop, s) = F8 s; (EM, s) = getem nextop s; (tmp8u, s) = F8 s in
     wr32 (GD nextop) (ucast (rdml s EM (unat (tmp8u AND 3)) :: u16)) s)"

definition EMMS :: "run \<Rightarrow> run" where
  "EMMS s = s\<lparr>fpu := (fpu s)\<lparr>fpu_top := 0, fpu_stack := 0\<rparr>\<rparr>"

end
