(* ===== verification/Int0F.thy ===== *)
theory Int0F
  imports InterpFlow Vec
begin

unbundle bit_operations_syntax

text \<open>
  The integer instructions of the two-byte opcode map, \<open>Run0F\<close> of \<open>src/emu/x86run0f.c\<close>:
  system instructions, conditional moves, jumps and sets, bit tests, double shifts, exchanges,
  extensions and scans. An operation gets the state after its opcode byte and returns the state, or
  \<open>None\<close> where the source returns 0 for an opcode it does not know.
\<close>

section \<open>What the opcode map calls\<close>

text \<open>
  \<open>ReadTSC\<close> is the counter of the host; \<open>my_cpuid\<close>, \<open>applyFlushTo0\<close>, the two state
  images and the invalidation of translated code are functions of other files. The
  floating-point operations are those of the host: its rounding mode and its choice of NaN are not fixed by the code.
\<close>

record env0F =
  ReadTSC :: "machine \<Rightarrow> u64"
  my_cpuid :: "u32 \<Rightarrow> machine \<Rightarrow> machine"
  fpu_fxsave :: "loc \<Rightarrow> machine \<Rightarrow> machine"
  fpu_fxrstor :: "loc \<Rightarrow> machine \<Rightarrow> machine"
  applyFlushTo0 :: "machine \<Rightarrow> machine"
  cleanDB :: "loc \<Rightarrow> machine \<Rightarrow> machine"
  box86_sse_flushto0 :: bool
  box86_dynarec :: bool
  addf :: "u32 \<Rightarrow> u32 \<Rightarrow> u32"
  subf :: "u32 \<Rightarrow> u32 \<Rightarrow> u32"
  mulf :: "u32 \<Rightarrow> u32 \<Rightarrow> u32"
  divf :: "u32 \<Rightarrow> u32 \<Rightarrow> u32"
  sqrtf :: "u32 \<Rightarrow> u32"
  int_float :: "u32 \<Rightarrow> u32"
  float_double :: "u32 \<Rightarrow> u64"
  nearbyintf :: "u32 \<Rightarrow> int"

section \<open>System instructions\<close>

definition grp_00 :: "run \<Rightarrow> run option" where
  "grp_00 s = (let (nextop, s) = F8 s; k = drop_bit 3 nextop AND 7 in
     if k = 0 then let (EW, s) = geted nextop s; s = wr16 EW 0 s in
       Some (if MODREG nextop then wr32 EW (rd32 s EW AND 0xFFFF) s else s)
     else if k = 1 then let (EW, s) = geted nextop s; s = wr16 EW 0x7f s in
       Some (if MODREG nextop then wr32 EW (rd32 s EW AND 0xFFFF) s else s)
     else if k = 4 \<or> k = 5 then let (EW, s) = geted nextop s in
       Some (if rd16 s EW = 0 then CLEAR_FLAG F_ZF s else SET_FLAG F_ZF s)
     else None)"

text \<open>\<open>emit_signal(emu, sig, (void*)R_EIP, 0)\<close>\<close>

definition signal :: "env \<Rightarrow> nat \<Rightarrow> run \<Rightarrow> run" where
  "signal env sig s = on_machine (emit_signal env sig (ip s) 0) s"

primrec words_at :: "u16 list \<Rightarrow> u32 \<Rightarrow> run \<Rightarrow> run" where
  "words_at [] a s = s"
| "words_at (w # ws) a s = words_at ws (a + 2) (st16 a w s)"

definition grp_01 :: "env \<Rightarrow> run \<Rightarrow> run option" where
  "grp_01 env s = (let (nextop, s) = F8 s; (ED, s) = geted nextop s; k = drop_bit 3 nextop AND 7 in
     case ED of
       LReg r i \<Rightarrow>
         if nextop = 0xD0 then Some (signal env SIGILL s)
         else if nextop AND 0xF8 = 0xE0 then Some (wr16 ED 0x11 s)
         else None
     | LMem a \<Rightarrow>
         if k = 0 then Some (words_at [0x7f, 0x000c, 0xd000] a s)
         else if k = 1 then Some (words_at [0xfff, 0, 0] a s)
         else if k = 4 then Some (wr16 ED 0x11 s)
         else None)"

definition decode_only :: "run \<Rightarrow> run" where
  "decode_only s = (let (nextop, s) = F8 s in snd (geted nextop s))"

definition PREFETCHW :: "run \<Rightarrow> run option" where
  "PREFETCHW s = (let (nextop, s) = F8 s in
     if drop_bit 3 nextop AND 7 = 1 then Some (snd (geted nextop s)) else None)"

definition RDTSC :: "env0F \<Rightarrow> run \<Rightarrow> run" where
  "RDTSC h s = (let
     tmp64u = ReadTSC h (machine.truncate s);
     s = set_reg32 rDX (ucast (drop_bit 32 tmp64u)) s
   in set_reg32 rAX (ucast (tmp64u AND 0xFFFFFFFF)) s)"

definition grp_AE :: "env0F \<Rightarrow> run \<Rightarrow> run option" where
  "grp_AE h s = (let (nextop, s) = F8 s; k = drop_bit 3 nextop AND 7 in
     if nextop AND 0xF8 = 0xE8 \<or> nextop AND 0xF8 = 0xF0 \<or> nextop AND 0xF8 = 0xF8 then Some s
     else if k = 0 then let (ED, s) = geted nextop s in Some (on_machine (fpu_fxsave h ED) s)
     else if k = 1 then let (ED, s) = geted nextop s in Some (on_machine (fpu_fxrstor h ED) s)
     else if k = 2 then let (ED, s) = geted nextop s in Some (s\<lparr>fpu := (fpu s)\<lparr>mxcsr := rd32 s ED\<rparr>\<rparr>)
     else if k = 3 then let (ED, s) = geted nextop s; s = wr32 ED (mxcsr (fpu s)) s in
       Some (if box86_sse_flushto0 h then on_machine (applyFlushTo0 h) s else s)
     else if k = 7 then let (ED, s) = geted nextop s in
       Some (if box86_dynarec h then on_machine (cleanDB h ED) s else s)
     else None)"

section \<open>The sixteen conditions\<close>

definition CMOVcc :: "u8 \<Rightarrow> run \<Rightarrow> run" where
  "CMOVcc opcode s = (let
     (nextop, s) = F8 s;
     (ED, s) = geted nextop s;
     s = CHECK_FLAGS s
   in if cond (opcode AND 0xF) s then wr32 (GD nextop) (rd32 s ED) s else s)"

definition STEP3 :: "run \<Rightarrow> run" where
  "STEP3 s = (if step s \<noteq> 0 then s\<lparr>step := step s + 1\<rparr> else s)"

text \<open>
  The macro gives \<open>addr += tmp32s; STEP3;\<close> to an \<open>if\<close> without braces: only the jump is
  conditional.
\<close>

definition Jcc_near :: "u8 \<Rightarrow> run \<Rightarrow> run" where
  "Jcc_near opcode s = (let
     (tmp32s, s) = F32 s;
     s = CHECK_FLAGS s;
     s = (if cond (opcode AND 0xF) s then jump tmp32s s else s)
   in STEP3 s)"

definition SETcc :: "u8 \<Rightarrow> run \<Rightarrow> run" where
  "SETcc opcode s = (let
     (nextop, s) = F8 s;
     s = CHECK_FLAGS s;
     (EB, s) = geteb nextop s
   in wr8 EB (if cond (opcode AND 0xF) s then 1 else 0) s)"

section \<open>Bit tests\<close>

text \<open>\<open>1<<tmp8u\<close>, and the word of a bit string that the index reaches: a register is not left.\<close>

definition bit_of :: "u8 \<Rightarrow> u32" where
  "bit_of tmp8u = push_bit (unat tmp8u) 1"

primrec offset_loc :: "loc \<Rightarrow> u32 \<Rightarrow> loc" where
  "offset_loc (LReg r k) d = LReg r k"
| "offset_loc (LMem a) d = LMem (a + 4 * d)"

definition BT :: "loc \<Rightarrow> u8 \<Rightarrow> run \<Rightarrow> run" where
  "BT ED tmp8u s = (if rd32 s ED AND bit_of tmp8u \<noteq> 0 then SET_FLAG F_CF s else CLEAR_FLAG F_CF s)"

definition BTS :: "loc \<Rightarrow> u8 \<Rightarrow> run \<Rightarrow> run" where
  "BTS ED tmp8u s = (if rd32 s ED AND bit_of tmp8u \<noteq> 0 then SET_FLAG F_CF s
     else CLEAR_FLAG F_CF (wr32 ED (rd32 s ED OR bit_of tmp8u) s))"

definition BTS_Ib :: "loc \<Rightarrow> u8 \<Rightarrow> run \<Rightarrow> run" where
  "BTS_Ib ED tmp8u s = (if rd32 s ED AND bit_of tmp8u \<noteq> 0 then SET_FLAG F_CF s
     else CLEAR_FLAG F_CF (wr32 ED (rd32 s ED XOR bit_of tmp8u) s))"

definition BTR :: "loc \<Rightarrow> u8 \<Rightarrow> run \<Rightarrow> run" where
  "BTR ED tmp8u s = (if rd32 s ED AND bit_of tmp8u \<noteq> 0 then
       let s = SET_FLAG F_CF s in wr32 ED (rd32 s ED XOR bit_of tmp8u) s
     else CLEAR_FLAG F_CF s)"

definition BTC :: "loc \<Rightarrow> u8 \<Rightarrow> run \<Rightarrow> run" where
  "BTC ED tmp8u s = (let
     s = (if rd32 s ED AND bit_of tmp8u \<noteq> 0 then SET_FLAG F_CF s else CLEAR_FLAG F_CF s)
   in wr32 ED (rd32 s ED XOR bit_of tmp8u) s)"

definition bit_op_Gd :: "(loc \<Rightarrow> u8 \<Rightarrow> run \<Rightarrow> run) \<Rightarrow> run \<Rightarrow> run" where
  "bit_op_Gd f s = (let
     s = CHECK_FLAGS s;
     (nextop, s) = F8 s;
     (ED, s) = geted nextop s;
     tmp32s = rd32 s (GD nextop);
     tmp8u = ucast (tmp32s AND 31);
     tmp32s = signed_drop_bit 5 tmp32s;
     ED = offset_loc ED tmp32s
   in f ED tmp8u s)"

definition bit_op_Ib :: "(loc \<Rightarrow> u8 \<Rightarrow> run \<Rightarrow> run) \<Rightarrow> u8 \<Rightarrow> run \<Rightarrow> run" where
  "bit_op_Ib f nextop s = (let
     s = CHECK_FLAGS s;
     (ED, s) = geted nextop s;
     (tmp8u, s) = F8 s
   in f ED (tmp8u AND 31) s)"

definition grp_BA :: "run \<Rightarrow> run option" where
  "grp_BA s = (let (nextop, s) = F8 s; k = drop_bit 3 nextop AND 7 in
     if k = 4 then Some (bit_op_Ib BT nextop s)
     else if k = 5 then Some (bit_op_Ib BTS_Ib nextop s)
     else if k = 6 then Some (bit_op_Ib BTR nextop s)
     else if k = 7 then Some (bit_op_Ib BTC nextop s)
     else None)"

section \<open>Bit scans\<close>

text \<open>
  \<open>while(!(tmp32u&(1<<tmp8u))) ++tmp8u;\<close> on a word that is not 0 stops within 32 turns; the
  recursion is on the turns left.
\<close>

primrec scan_up :: "nat \<Rightarrow> u32 \<Rightarrow> nat \<Rightarrow> nat" where
  "scan_up 0 w i = i"
| "scan_up (Suc n) w i = (if bit w i then i else scan_up n w (i + 1))"

primrec scan_down :: "nat \<Rightarrow> u32 \<Rightarrow> nat \<Rightarrow> nat" where
  "scan_down 0 w i = i"
| "scan_down (Suc n) w i = (if bit w i then i else scan_down n w (i - 1))"

definition BSF :: "run \<Rightarrow> run" where
  "BSF s = (let
     s = CHECK_FLAGS s;
     (nextop, s) = F8 s;
     (ED, s) = geted nextop s;
     tmp32u = rd32 s ED
   in if tmp32u \<noteq> 0 then let
        s = CLEAR_FLAG F_ZF s
      in wr32 (GD nextop) (of_nat (scan_up 32 tmp32u 0)) s
      else SET_FLAG F_ZF s)"

definition BSR :: "run \<Rightarrow> run" where
  "BSR s = (let
     s = CHECK_FLAGS s;
     (nextop, s) = F8 s;
     (ED, s) = geted nextop s;
     tmp32u = rd32 s ED
   in if tmp32u \<noteq> 0 then let
        s = CLEAR_FLAG F_ZF s
      in wr32 (GD nextop) (of_nat (scan_down 32 tmp32u 31)) s
      else SET_FLAG F_ZF s)"

section \<open>Double shifts, products and extensions\<close>

definition SHLD :: "u8 \<Rightarrow> run \<Rightarrow> run" where
  "SHLD opcode s = (let
     (nextop, s) = F8 s;
     (ED, s) = geted nextop s;
     (tmp8u, s) = (if opcode = 0xA4 then F8 s else (reg8 s rCX 0, s))
   in upd32 ED (\<lambda>s d. shld32 s d (rd32 s (GD nextop)) tmp8u) s)"

definition SHRD :: "u8 \<Rightarrow> run \<Rightarrow> run" where
  "SHRD opcode s = (let
     (nextop, s) = F8 s;
     (ED, s) = geted nextop s;
     (tmp8u, s) = (if opcode = 0xAC then F8 s else (reg8 s rCX 0, s))
   in upd32 ED (\<lambda>s d. shrd32 s d (rd32 s (GD nextop)) tmp8u) s)"

definition IMUL_Gd_Ed :: "run \<Rightarrow> run" where
  "IMUL_Gd_Ed s = (let (nextop, s) = F8 s; (ED, s) = geted nextop s in
     upd32 (GD nextop) (\<lambda>s d. imul32 s d (rd32 s ED)) s)"

definition MOVX :: "u8 \<Rightarrow> run \<Rightarrow> run" where
  "MOVX opcode s = (let (nextop, s) = F8 s in
     if opcode = 0xB6 then let (EB, s) = geteb nextop s in wr32 (GD nextop) (ucast (rd8 s EB)) s
     else if opcode = 0xB7 then let (EW, s) = geted nextop s in wr32 (GD nextop) (ucast (rd16 s EW)) s
     else if opcode = 0xBE then let (EB, s) = geteb nextop s in wr32 (GD nextop) (scast (rd8 s EB)) s
     else let (EW, s) = geted nextop s in wr32 (GD nextop) (scast (rd16 s EW)) s)"

section \<open>Exchanges\<close>

definition CMPXCHG_Eb :: "run \<Rightarrow> run" where
  "CMPXCHG_Eb s = (let
     (nextop, s) = F8 s;
     (EB, s) = geteb nextop s;
     s = snd (cmp8 s (reg8 s rAX 0) (rd8 s EB))
   in if ACCESS_FLAG F_ZF s then wr8 EB (rd8 s (GB nextop)) s else set_reg8 rAX 0 (rd8 s EB) s)"

definition CMPXCHG_Ed :: "run \<Rightarrow> run" where
  "CMPXCHG_Ed s = (let
     (nextop, s) = F8 s;
     (ED, s) = geted nextop s;
     s = snd (cmp32 s (reg32 s rAX) (rd32 s ED))
   in if ACCESS_FLAG F_ZF s then wr32 ED (rd32 s (GD nextop)) s else set_reg32 rAX (rd32 s ED) s)"

definition XADD_Eb :: "run \<Rightarrow> run" where
  "XADD_Eb s = (let
     (nextop, s) = F8 s;
     (EB, s) = geteb nextop s;
     (tmp8u, s) = add8 s (rd8 s EB) (rd8 s (GB nextop));
     s = wr8 (GB nextop) (rd8 s EB) s
   in wr8 EB tmp8u s)"

definition XADD_Ed :: "run \<Rightarrow> run" where
  "XADD_Ed s = (let
     (nextop, s) = F8 s;
     (ED, s) = geted nextop s;
     (tmp32u, s) = add32 s (rd32 s ED) (rd32 s (GD nextop));
     s = wr32 (GD nextop) (rd32 s ED) s
   in wr32 ED tmp32u s)"

text \<open>
  \<open>ED->dword[1]\<close>: after an entry of the register file comes the next one, and after the last
  the flag register.
\<close>

primrec rd_dword1 :: "run \<Rightarrow> loc \<Rightarrow> u32" where
  "rd_dword1 s (LReg r k) = (if r = rDI then eflags s else reg32 s (r + 1))"
| "rd_dword1 s (LMem a) = ld32 s (a + 4)"

primrec wr_dword1 :: "loc \<Rightarrow> u32 \<Rightarrow> run \<Rightarrow> run" where
  "wr_dword1 (LReg r k) v s = (if r = rDI then s\<lparr>eflags := v\<rparr> else set_reg32 (r + 1) v s)"
| "wr_dword1 (LMem a) v s = st32 (a + 4) v s"

definition CMPXCHG8B :: "run \<Rightarrow> run option" where
  "CMPXCHG8B s = (let (nextop, s) = F8 s; (ED, s) = geted nextop s in
     if drop_bit 3 nextop AND 7 = 1 then let
       s = CHECK_FLAGS s;
       tmp32u = rd32 s ED;
       tmp32u2 = rd_dword1 s ED
     in Some (if reg32 s rAX = tmp32u \<and> reg32 s rDX = tmp32u2 then let
         s = SET_FLAG F_ZF s;
         s = wr32 ED (reg32 s rBX) s
       in wr_dword1 ED (reg32 s rCX) s
       else let
         s = CLEAR_FLAG F_ZF s;
         s = set_reg32 rAX tmp32u s
       in set_reg32 rDX tmp32u2 s)
     else None)"

definition bswap32 :: "u32 \<Rightarrow> u32" where
  "bswap32 w = push_bit 24 w OR push_bit 8 (w AND 0xFF00) OR (drop_bit 8 w AND 0xFF00) OR drop_bit 24 w"

definition BSWAP :: "u8 \<Rightarrow> run \<Rightarrow> run" where
  "BSWAP opcode s = (let r = rm_field opcode in set_reg32 r (bswap32 (reg32 s r)) s)"

definition MOVBE :: "u8 \<Rightarrow> run \<Rightarrow> run" where
  "MOVBE opcode s = (let (nextop, s) = F8 s; (ED, s) = geted nextop s in
     if opcode = 0xF0 then wr32 (GD nextop) (bswap32 (rd32 s ED)) s
     else wr32 ED (bswap32 (rd32 s (GD nextop))) s)"

definition MOVNTI :: "run \<Rightarrow> run" where
  "MOVNTI s = (let (nextop, s) = F8 s; (ED, s) = geted nextop s in wr32 ED (rd32 s (GD nextop)) s)"

end
