(* ===== verification/Sse0F.thy ===== *)
theory Sse0F
  imports Int0F
begin

unbundle bit_operations_syntax

text \<open>
  The SSE instructions of \<open>Run0F\<close> in \<open>src/emu/x86run0f.c\<close>. The class and the order of single
  precision numbers and their conversion to integers are read off their bits; their arithmetic is that of the host.
\<close>

section \<open>Single precision numbers\<close>

definition isnanf :: "u32 \<Rightarrow> bool" where
  "isnanf f = (0x7F800000 < f AND 0x7FFFFFFF)"

definition isinff :: "u32 \<Rightarrow> bool" where
  "isinff f = (f AND 0x7FFFFFFF = 0x7F800000)"

text \<open>The bits of a number as an integer that orders as the numbers do; both zeros are 0.\<close>

definition fkey :: "u32 \<Rightarrow> int" where
  "fkey f = (if bit f 31 then - uint (f AND 0x7FFFFFFF) else uint f)"

definition isless :: "u32 \<Rightarrow> u32 \<Rightarrow> bool" where
  "isless a b = (\<not> isnanf a \<and> \<not> isnanf b \<and> fkey a < fkey b)"

definition islessequal :: "u32 \<Rightarrow> u32 \<Rightarrow> bool" where
  "islessequal a b = (\<not> isnanf a \<and> \<not> isnanf b \<and> fkey a \<le> fkey b)"

definition feq :: "u32 \<Rightarrow> u32 \<Rightarrow> bool" where
  "feq a b = (\<not> isnanf a \<and> \<not> isnanf b \<and> fkey a = fkey b)"

text \<open>
  A finite number is \<open>fmant f * 2 ^ fexp f\<close>, with the sign of \<open>f\<close>. Its floor, its ceiling and the integer it is
  truncated to; a conversion that does not fit gives the least integer, as on the hosts.
\<close>

definition fmant :: "u32 \<Rightarrow> int" where
  "fmant f = (let m = uint (f AND 0x7FFFFF) + (if f AND 0x7F800000 = 0 then 0 else 0x800000) in if bit f 31 then - m else m)"

definition fexp :: "u32 \<Rightarrow> int" where
  "fexp f = max 1 (uint (drop_bit 23 f AND 0xFF)) - 150"

definition floorf :: "u32 \<Rightarrow> int" where
  "floorf f = (if fexp f < 0 then fmant f div 2 ^ nat (- fexp f) else fmant f * 2 ^ nat (fexp f))"

definition ceilf :: "u32 \<Rightarrow> int" where
  "ceilf f = (if fexp f < 0 then - (- fmant f div 2 ^ nat (- fexp f)) else fmant f * 2 ^ nat (fexp f))"

definition truncf :: "u32 \<Rightarrow> int" where
  "truncf f = (if bit f 31 then ceilf f else floorf f)"

definition to_int32 :: "int \<Rightarrow> u32" where
  "to_int32 i = (if - (2 ^ 31) \<le> i \<and> i < 2 ^ 31 then word_of_int i else 0x80000000)"

text \<open>\<open>f >= (float)0x80000000U\<close> and \<open>f < -(float)0x80000000U\<close>\<close>

definition above_int :: "u32 \<Rightarrow> bool" where
  "above_int f = islessequal 0x4F000000 f"

definition below_int :: "u32 \<Rightarrow> bool" where
  "below_int f = isless f 0xCF000000"

section \<open>Moves and shuffles\<close>

definition MOVAPS :: "vloc \<Rightarrow> vloc \<Rightarrow> run \<Rightarrow> run" where
  "MOVAPS D S s = (let s = wrxl D 0 (rdxl s S 0 :: u64) s in wrxl D 1 (rdxl s S 1 :: u64) s)"

definition MOVUPS :: "vloc \<Rightarrow> vloc \<Rightarrow> run \<Rightarrow> run" where
  "MOVUPS D S s = wrx D (rdx s S) s"

definition MOVLPS_load :: "vloc \<Rightarrow> vloc \<Rightarrow> run \<Rightarrow> run" where
  "MOVLPS_load G E s = (case E of
     VReg r \<Rightarrow> wrxl G 0 (rdxl s E 1 :: u64) s
   | VMem a \<Rightarrow> wrxl G 0 (rdxl s E 0 :: u64) s)"

definition MOVLPS_store :: "vloc \<Rightarrow> vloc \<Rightarrow> run \<Rightarrow> run" where
  "MOVLPS_store G E s = wrxl E 0 (rdxl s G 0 :: u64) s"

definition MOVHPS_load :: "vloc \<Rightarrow> vloc \<Rightarrow> run \<Rightarrow> run" where
  "MOVHPS_load G E s = wrxl G 1 (rdxl s E 0 :: u64) s"

definition MOVHPS_store :: "vloc \<Rightarrow> vloc \<Rightarrow> run \<Rightarrow> run" where
  "MOVHPS_store G E s = wrxl E 0 (rdxl s G 1 :: u64) s"

definition UNPCKLPS :: "vloc \<Rightarrow> vloc \<Rightarrow> run \<Rightarrow> run" where
  "UNPCKLPS G E s = (let
     s = wrxl G 3 (rdxl s E 1 :: u32) s;
     s = wrxl G 2 (rdxl s G 1 :: u32) s
   in wrxl G 1 (rdxl s E 0 :: u32) s)"

definition UNPCKHPS :: "vloc \<Rightarrow> vloc \<Rightarrow> run \<Rightarrow> run" where
  "UNPCKHPS G E s = (let
     s = wrxl G 0 (rdxl s G 2 :: u32) s;
     s = wrxl G 1 (rdxl s E 2 :: u32) s;
     s = wrxl G 2 (rdxl s G 3 :: u32) s
   in wrxl G 3 (rdxl s E 3 :: u32) s)"

definition MOVMSKPS :: "u8 \<Rightarrow> vloc \<Rightarrow> run \<Rightarrow> run" where
  "MOVMSKPS nextop E s = (let s = wr32 (GD nextop) 0 s in
     fold (\<lambda>i s. wr32 (GD nextop) (rd32 s (GD nextop) OR push_bit i (drop_bit 31 (rdxl s E i :: u32) AND 1)) s) [0..<4] s)"

definition SHUFPS :: "u8 \<Rightarrow> vloc \<Rightarrow> vloc \<Rightarrow> run \<Rightarrow> run" where
  "SHUFPS tmp8u G E s = (let
     pick = (\<lambda>i. unat (drop_bit (i * 2) tmp8u AND 3));
     eax1 = fold (\<lambda>i w. put_lane i (rdxl s G (pick i) :: u32) w) [0..<2] (0 :: 128 word);
     eax1 = fold (\<lambda>i w. put_lane i (rdxl s E (pick i) :: u32) w) [2..<4] eax1;
     s = wrxl G 0 (lane 0 eax1 :: u64) s
   in wrxl G 1 (lane 1 eax1 :: u64) s)"

section \<open>Logic and arithmetic\<close>

definition ANDPS :: "vloc \<Rightarrow> vloc \<Rightarrow> run \<Rightarrow> run" where "ANDPS = xlanes 4 (\<lambda>g e :: u32. g AND e)"
definition ANDNPS :: "vloc \<Rightarrow> vloc \<Rightarrow> run \<Rightarrow> run" where "ANDNPS = xlanes 4 (\<lambda>g e :: u32. NOT g AND e)"
definition ORPS :: "vloc \<Rightarrow> vloc \<Rightarrow> run \<Rightarrow> run" where "ORPS = xlanes 4 (\<lambda>g e :: u32. g OR e)"
definition XORPS :: "vloc \<Rightarrow> vloc \<Rightarrow> run \<Rightarrow> run" where "XORPS = xlanes 4 (\<lambda>g e :: u32. g XOR e)"

definition ADDPS :: "env0F \<Rightarrow> vloc \<Rightarrow> vloc \<Rightarrow> run \<Rightarrow> run" where "ADDPS h = xlanes 4 (addf h)"
definition MULPS :: "env0F \<Rightarrow> vloc \<Rightarrow> vloc \<Rightarrow> run \<Rightarrow> run" where "MULPS h = xlanes 4 (mulf h)"
definition SUBPS :: "env0F \<Rightarrow> vloc \<Rightarrow> vloc \<Rightarrow> run \<Rightarrow> run" where "SUBPS h = xlanes 4 (subf h)"
definition DIVPS :: "env0F \<Rightarrow> vloc \<Rightarrow> vloc \<Rightarrow> run \<Rightarrow> run" where "DIVPS h = xlanes 4 (divf h)"
definition SQRTPS :: "env0F \<Rightarrow> vloc \<Rightarrow> vloc \<Rightarrow> run \<Rightarrow> run" where "SQRTPS h = xlanes 4 (\<lambda>g e. sqrtf h e)"
definition RCPPS :: "env0F \<Rightarrow> vloc \<Rightarrow> vloc \<Rightarrow> run \<Rightarrow> run" where "RCPPS h = xlanes 4 (\<lambda>g e. divf h 0x3F800000 e)"
definition CVTDQ2PS :: "env0F \<Rightarrow> vloc \<Rightarrow> vloc \<Rightarrow> run \<Rightarrow> run" where "CVTDQ2PS h = xlanes 4 (\<lambda>g e. int_float h e)"

definition RSQRTPS :: "env0F \<Rightarrow> vloc \<Rightarrow> vloc \<Rightarrow> run \<Rightarrow> run" where
  "RSQRTPS h = xlanes 4 (\<lambda>g e.
     if feq e 0 then divf h 0x3F800000 e
     else if isless e 0 then 0x7FC00000
     else if isnanf e then e
     else if isinff e then 0
     else divf h 0x3F800000 (sqrtf h e))"

definition MINPS :: "vloc \<Rightarrow> vloc \<Rightarrow> run \<Rightarrow> run" where
  "MINPS = xlanes 4 (\<lambda>g e. if isnanf g \<or> isnanf e \<or> isless e g then e else g)"

definition MAXPS :: "vloc \<Rightarrow> vloc \<Rightarrow> run \<Rightarrow> run" where
  "MAXPS = xlanes 4 (\<lambda>g e. if isnanf g \<or> isnanf e \<or> isless g e then e else g)"

definition fcmp :: "u8 \<Rightarrow> u32 \<Rightarrow> u32 \<Rightarrow> bool" where
  "fcmp k g e = (
     if k = 0 then feq g e
     else if k = 1 then isless g e
     else if k = 2 then islessequal g e
     else if k = 3 then isnanf g \<or> isnanf e
     else if k = 4 then \<not> feq g e
     else if k = 5 then isnanf g \<or> isnanf e \<or> islessequal e g
     else if k = 6 then isnanf g \<or> isnanf e \<or> isless e g
     else \<not> isnanf g \<and> \<not> isnanf e)"

definition CMPPS :: "u8 \<Rightarrow> vloc \<Rightarrow> vloc \<Rightarrow> run \<Rightarrow> run" where
  "CMPPS tmp8u = xlanes 4 (\<lambda>g e. if fcmp (tmp8u AND 7) g e then 0xFFFFFFFF else 0)"

definition COMISS :: "vloc \<Rightarrow> vloc \<Rightarrow> run \<Rightarrow> run" where
  "COMISS G E s = (let
     g = rdxl s G 0; e = rdxl s E 0;
     s = (if isnanf g \<or> isnanf e then SET_FLAG F_CF (SET_FLAG F_PF (SET_FLAG F_ZF s))
       else if isless e g then CLEAR_FLAG F_CF (CLEAR_FLAG F_PF (CLEAR_FLAG F_ZF s))
       else if isless g e then SET_FLAG F_CF (CLEAR_FLAG F_PF (CLEAR_FLAG F_ZF s))
       else CLEAR_FLAG F_CF (CLEAR_FLAG F_PF (SET_FLAG F_ZF s)))
   in CLEAR_FLAG F_SF (CLEAR_FLAG F_AF (CLEAR_FLAG F_OF s)))"

section \<open>Conversions\<close>

definition CVTPI2PS :: "env0F \<Rightarrow> vloc \<Rightarrow> vloc \<Rightarrow> run \<Rightarrow> run" where
  "CVTPI2PS h G E s = (let s = wrxl G 0 (int_float h (rdml s E 0)) s in wrxl G 1 (int_float h (rdml s E 1)) s)"

definition CVTPS2PD :: "env0F \<Rightarrow> vloc \<Rightarrow> vloc \<Rightarrow> run \<Rightarrow> run" where
  "CVTPS2PD h G E s = (let s = wrxl G 1 (float_double h (rdxl s E 1)) s in wrxl G 0 (float_double h (rdxl s E 0)) s)"

definition CVTTPS2PI :: "vloc \<Rightarrow> vloc \<Rightarrow> run \<Rightarrow> run" where
  "CVTTPS2PI G E s = (let
     f0 = rdxl s E 0 :: u32; f1 = rdxl s E 1 :: u32;
     s = wrml G 1 (if isnanf f1 \<or> isinff f1 \<or> above_int f1 \<or> below_int f1 then 0x80000000 else to_int32 (truncf f1)) s
   in wrml G 0 (if isnanf f0 \<or> isinff f0 \<or> above_int f0 \<or> below_int f1 then 0x80000000 else to_int32 (truncf f0)) s)"

definition round_mxcsr :: "env0F \<Rightarrow> u32 \<Rightarrow> u32 \<Rightarrow> int" where
  "round_mxcsr h mode f = (
     if mode = 0 then nearbyintf h f
     else if mode = 1 then floorf f
     else if mode = 2 then ceilf f
     else truncf f)"

definition CVTPS2PI :: "env0F \<Rightarrow> vloc \<Rightarrow> vloc \<Rightarrow> run \<Rightarrow> run" where
  "CVTPS2PI h G E s = fold (\<lambda>i s. let f = rdxl s E i :: u32 in
     wrml G i (if isnanf f \<or> isinff f \<or> above_int f \<or> below_int f then 0x80000000
       else to_int32 (round_mxcsr h (drop_bit 13 (mxcsr (fpu s)) AND 3) f)) s) [1, 0] s"

end
