(* ===== verification/Run0F.thy ===== *)
theory Run0F
  imports Mmx Sse0F Interp
begin

unbundle bit_operations_syntax

text \<open>
  The two-byte opcode map: the opcode switch of \<open>Run0F\<close> in \<open>src/emu/x86run0f.c\<close>. An opcode of
  the switch is a row of one of the functions below; an opcode that none of them knows is the source's \<open>return 0\<close>.
\<close>

section \<open>Operands\<close>

abbreviation (input) GM :: "u8 \<Rightarrow> vloc" where "GM nextop \<equiv> VReg (reg_field nextop)"
abbreviation (input) GX :: "u8 \<Rightarrow> vloc" where "GX nextop \<equiv> VReg (reg_field nextop)"

definition Gm_Em :: "(vloc \<Rightarrow> vloc \<Rightarrow> run \<Rightarrow> run) \<Rightarrow> run \<Rightarrow> run option" where
  "Gm_Em f s = (let (nextop, s) = F8 s; (EM, s) = getem nextop s in Some (f (GM nextop) EM s))"

definition Gm_Em_Ib :: "(u8 \<Rightarrow> vloc \<Rightarrow> vloc \<Rightarrow> run \<Rightarrow> run) \<Rightarrow> run \<Rightarrow> run option" where
  "Gm_Em_Ib f s = (let (nextop, s) = F8 s; (EM, s) = getem nextop s; (tmp8u, s) = F8 s in Some (f tmp8u (GM nextop) EM s))"

definition Em_Ib :: "(u8 \<Rightarrow> vloc \<Rightarrow> u8 \<Rightarrow> run \<Rightarrow> run option) \<Rightarrow> run \<Rightarrow> run option" where
  "Em_Ib f s = (let (nextop, s) = F8 s; (EM, s) = getem nextop s; (tmp8u, s) = F8 s in f (drop_bit 3 nextop AND 7) EM tmp8u s)"

definition Gx_Ex :: "(vloc \<Rightarrow> vloc \<Rightarrow> run \<Rightarrow> run) \<Rightarrow> run \<Rightarrow> run option" where
  "Gx_Ex f s = (let (nextop, s) = F8 s; (opex, s) = getex nextop s in Some (f (GX nextop) opex s))"

definition Gx_Ex_Ib :: "(u8 \<Rightarrow> vloc \<Rightarrow> vloc \<Rightarrow> run \<Rightarrow> run) \<Rightarrow> run \<Rightarrow> run option" where
  "Gx_Ex_Ib f s = (let (nextop, s) = F8 s; (opex, s) = getex nextop s; (tmp8u, s) = F8 s in Some (f tmp8u (GX nextop) opex s))"

text \<open>An operand in the other kind of register: \<open>GX\<close> with \<open>EM\<close>, \<open>GM\<close> with \<open>EX\<close>, \<open>GD\<close> with \<open>EX\<close>.\<close>

definition Gd_Ex :: "(u8 \<Rightarrow> vloc \<Rightarrow> run \<Rightarrow> run) \<Rightarrow> run \<Rightarrow> run option" where
  "Gd_Ex f s = (let (nextop, s) = F8 s; (opex, s) = getex nextop s in Some (f nextop opex s))"

section \<open>Rows of the map\<close>

definition ops0F_00 :: "env \<Rightarrow> env0F \<Rightarrow> u8 \<Rightarrow> run \<Rightarrow> run option" where
  "ops0F_00 env h opcode s = (
     if opcode = 0x00 then grp_00 s
     else if opcode = 0x01 then grp_01 env s
     else if opcode = 0x0B \<or> opcode = 0x0E then Some (signal env SIGILL s)
     else if opcode = 0x0D then PREFETCHW s
     else None)"

definition ops0F_10 :: "u8 \<Rightarrow> run \<Rightarrow> run option" where
  "ops0F_10 opcode s = (
     if opcode = 0x10 then Gx_Ex MOVUPS s
     else if opcode = 0x11 then Gx_Ex (\<lambda>G E. MOVUPS E G) s
     else if opcode = 0x12 then Gx_Ex MOVLPS_load s
     else if opcode = 0x13 then Gx_Ex MOVLPS_store s
     else if opcode = 0x14 then Gx_Ex UNPCKLPS s
     else if opcode = 0x15 then Gx_Ex UNPCKHPS s
     else if opcode = 0x16 then Gx_Ex MOVHPS_load s
     else if opcode = 0x17 then Gx_Ex MOVHPS_store s
     else Some (decode_only s))"

definition ops0F_20 :: "env \<Rightarrow> env0F \<Rightarrow> u8 \<Rightarrow> run \<Rightarrow> run option" where
  "ops0F_20 env h opcode s = (
     if opcode < 0x24 then Some (signal env SIGSEGV s)
     else if opcode = 0x28 then Gx_Ex MOVAPS s
     else if opcode = 0x29 \<or> opcode = 0x2B then Gx_Ex (\<lambda>G E. MOVAPS E G) s
     else if opcode = 0x2A then Gm_Em (CVTPI2PS h) s
     else if opcode = 0x2C then Gx_Ex CVTTPS2PI s
     else if opcode = 0x2D then Gx_Ex (CVTPS2PI h) s
     else if opcode = 0x2E \<or> opcode = 0x2F then Gx_Ex COMISS (RESET_FLAGS s)
     else None)"

definition ops0F_38 :: "run \<Rightarrow> run option" where
  "ops0F_38 s = (let (opcode, s) = F8 s in
     if opcode = 0x00 then Gm_Em PSHUFB s
     else if opcode = 0x01 then Gm_Em PHADDW s
     else if opcode = 0x02 then Gm_Em PHADDD s
     else if opcode = 0x03 then Gm_Em PHADDSW s
     else if opcode = 0x04 then Gm_Em PMADDUBSW s
     else if opcode = 0x05 then Gm_Em PHSUBW s
     else if opcode = 0x06 then Gm_Em PHSUBD s
     else if opcode = 0x07 then Gm_Em PHSUBSW s
     else if opcode = 0x08 then Gm_Em PSIGNB s
     else if opcode = 0x09 then Gm_Em PSIGNW s
     else if opcode = 0x0B then Gm_Em PMULHRSW s
     else if opcode = 0x1C then Gm_Em PABSB s
     else if opcode = 0x1D then Gm_Em PABSW s
     else if opcode = 0x1E then Gm_Em PABSD s
     else if opcode = 0xF0 \<or> opcode = 0xF1 then Some (MOVBE opcode s)
     else None)"

definition ops0F_3A :: "run \<Rightarrow> run option" where
  "ops0F_3A s = (let (opcode, s) = F8 s in if opcode = 0x0F then Gm_Em_Ib PALIGNR s else None)"

definition ops0F_30 :: "env \<Rightarrow> env0F \<Rightarrow> u8 \<Rightarrow> run \<Rightarrow> run option" where
  "ops0F_30 env h opcode s = (
     if opcode = 0x31 then Some (RDTSC h s)
     else if opcode = 0x38 then ops0F_38 s
     else if opcode = 0x3A then ops0F_3A s
     else if opcode = 0x3F then Some (signal env SIGILL s)
     else None)"

definition ops0F_50 :: "env0F \<Rightarrow> u8 \<Rightarrow> run \<Rightarrow> run option" where
  "ops0F_50 h opcode s = (
     if opcode = 0x50 then Gd_Ex MOVMSKPS s
     else if opcode = 0x51 then Gx_Ex (SQRTPS h) s
     else if opcode = 0x52 then Gx_Ex (RSQRTPS h) s
     else if opcode = 0x53 then Gx_Ex (RCPPS h) s
     else if opcode = 0x54 then Gx_Ex ANDPS s
     else if opcode = 0x55 then Gx_Ex ANDNPS s
     else if opcode = 0x56 then Gx_Ex ORPS s
     else if opcode = 0x57 then Gx_Ex XORPS s
     else if opcode = 0x58 then Gx_Ex (ADDPS h) s
     else if opcode = 0x59 then Gx_Ex (MULPS h) s
     else if opcode = 0x5A then Gx_Ex (CVTPS2PD h) s
     else if opcode = 0x5B then Gx_Ex (CVTDQ2PS h) s
     else if opcode = 0x5C then Gx_Ex (SUBPS h) s
     else if opcode = 0x5D then Gx_Ex MINPS s
     else if opcode = 0x5E then Gx_Ex (DIVPS h) s
     else Gx_Ex MAXPS s)"

definition ops0F_60 :: "u8 \<Rightarrow> run \<Rightarrow> run option" where
  "ops0F_60 opcode s = (
     if opcode = 0x60 then Gm_Em PUNPCKLBW s
     else if opcode = 0x61 then Gm_Em PUNPCKLWD s
     else if opcode = 0x62 then Gm_Em PUNPCKLDQ s
     else if opcode = 0x63 then Gm_Em PACKSSWB s
     else if opcode = 0x64 then Gm_Em PCMPGTB s
     else if opcode = 0x65 then Gm_Em PCMPGTW s
     else if opcode = 0x66 then Gm_Em PCMPGTD s
     else if opcode = 0x67 then Gm_Em PACKUSWB s
     else if opcode = 0x68 then Gm_Em PUNPCKHBW s
     else if opcode = 0x69 then Gm_Em PUNPCKHWD s
     else if opcode = 0x6A then Gm_Em PUNPCKHDQ s
     else if opcode = 0x6B then Gm_Em PACKSSDW s
     else if opcode = 0x6E then Some (MOVD_load s)
     else if opcode = 0x6F then Gm_Em MOVQ s
     else None)"

definition ops0F_70 :: "u8 \<Rightarrow> run \<Rightarrow> run option" where
  "ops0F_70 opcode s = (
     if opcode = 0x70 then Gm_Em_Ib PSHUFW s
     else if opcode = 0x71 then Em_Ib grp_71 s
     else if opcode = 0x72 then Em_Ib grp_72 s
     else if opcode = 0x73 then Em_Ib grp_73 s
     else if opcode = 0x74 then Gm_Em PCMPEQB s
     else if opcode = 0x75 then Gm_Em PCMPEQW s
     else if opcode = 0x76 then Gm_Em PCMPEQD s
     else if opcode = 0x77 then Some (EMMS s)
     else if opcode = 0x7E then Some (MOVD_store s)
     else if opcode = 0x7F then Gm_Em (\<lambda>G E. MOVQ E G) s
     else None)"

definition ops0F_A0 :: "env0F \<Rightarrow> u8 \<Rightarrow> run \<Rightarrow> run option" where
  "ops0F_A0 h opcode s = (
     if opcode = 0xA0 then Some (PushSeg sFS s)
     else if opcode = 0xA1 then Some (PopSeg sFS s)
     else if opcode = 0xA2 then Some (let tmp32u = reg32 s rAX in on_machine (my_cpuid h tmp32u) s)
     else if opcode = 0xA3 then Some (bit_op_Gd BT s)
     else if opcode = 0xA4 \<or> opcode = 0xA5 then Some (SHLD opcode s)
     else if opcode = 0xA8 then Some (PushSeg sGS s)
     else if opcode = 0xA9 then Some (PopSeg sGS s)
     else if opcode = 0xAB then Some (bit_op_Gd BTS s)
     else if opcode = 0xAC \<or> opcode = 0xAD then Some (SHRD opcode s)
     else if opcode = 0xAE then grp_AE h s
     else if opcode = 0xAF then Some (IMUL_Gd_Ed s)
     else None)"

definition ops0F_B0 :: "u8 \<Rightarrow> run \<Rightarrow> run option" where
  "ops0F_B0 opcode s = (
     if opcode = 0xB0 then Some (CMPXCHG_Eb s)
     else if opcode = 0xB1 then Some (CMPXCHG_Ed s)
     else if opcode = 0xB3 then Some (bit_op_Gd BTR s)
     else if opcode = 0xB6 \<or> opcode = 0xB7 \<or> opcode = 0xBE \<or> opcode = 0xBF then Some (MOVX opcode s)
     else if opcode = 0xBA then grp_BA s
     else if opcode = 0xBB then Some (bit_op_Gd BTC s)
     else if opcode = 0xBC then Some (BSF s)
     else if opcode = 0xBD then Some (BSR s)
     else None)"

definition ops0F_C0 :: "u8 \<Rightarrow> run \<Rightarrow> run option" where
  "ops0F_C0 opcode s = (
     if opcode = 0xC0 then Some (XADD_Eb s)
     else if opcode = 0xC1 then Some (XADD_Ed s)
     else if opcode = 0xC2 then Gx_Ex_Ib CMPPS s
     else if opcode = 0xC3 then Some (MOVNTI s)
     else if opcode = 0xC4 then Some (PINSRW s)
     else if opcode = 0xC5 then Some (PEXTRW s)
     else if opcode = 0xC6 then Gx_Ex_Ib SHUFPS s
     else if opcode = 0xC7 then CMPXCHG8B s
     else Some (BSWAP opcode s))"

definition ops0F_D0 :: "u8 \<Rightarrow> run \<Rightarrow> run option" where
  "ops0F_D0 opcode s = (
     if opcode = 0xD1 then Gm_Em PSRLW s
     else if opcode = 0xD2 then Gm_Em PSRLD s
     else if opcode = 0xD3 then Gm_Em PSRLQ s
     else if opcode = 0xD4 then Gm_Em PADDQ s
     else if opcode = 0xD5 then Gm_Em PMULLW s
     else if opcode = 0xD7 then PMOVMSKB s
     else if opcode = 0xD8 then Gm_Em PSUBUSB s
     else if opcode = 0xD9 then Gm_Em PSUBUSW s
     else if opcode = 0xDA then Gm_Em PMINUB s
     else if opcode = 0xDB then Gm_Em PAND s
     else if opcode = 0xDC then Gm_Em PADDUSB s
     else if opcode = 0xDD then Gm_Em PADDUSW s
     else if opcode = 0xDE then Gm_Em PMAXUB s
     else if opcode = 0xDF then Gm_Em PANDN s
     else None)"

definition ops0F_E0 :: "u8 \<Rightarrow> run \<Rightarrow> run option" where
  "ops0F_E0 opcode s = (
     if opcode = 0xE0 then Gm_Em PAVGB s
     else if opcode = 0xE1 then Gm_Em PSRAW s
     else if opcode = 0xE2 then Gm_Em PSRAD s
     else if opcode = 0xE3 then Gm_Em PAVGW s
     else if opcode = 0xE4 then Gm_Em PMULHUW s
     else if opcode = 0xE5 then Gm_Em PMULHW s
     else if opcode = 0xE7 then MOVNTQ s
     else if opcode = 0xE8 then Gm_Em PSUBSB s
     else if opcode = 0xE9 then Gm_Em PSUBSW s
     else if opcode = 0xEA then Gm_Em PMINSW s
     else if opcode = 0xEB then Gm_Em POR s
     else if opcode = 0xEC then Gm_Em PADDSB s
     else if opcode = 0xED then Gm_Em PADDSW s
     else if opcode = 0xEE then Gm_Em PMAXSW s
     else if opcode = 0xEF then Gm_Em PXOR s
     else None)"

definition ops0F_F0 :: "u8 \<Rightarrow> run \<Rightarrow> run option" where
  "ops0F_F0 opcode s = (
     if opcode = 0xF1 then Gm_Em PSLLW s
     else if opcode = 0xF2 then Gm_Em PSLLD s
     else if opcode = 0xF3 then Gm_Em PSLLQ s
     else if opcode = 0xF4 then Gm_Em PMULUDQ s
     else if opcode = 0xF5 then Gm_Em PMADDWD s
     else if opcode = 0xF6 then Gm_Em PSADBW s
     else if opcode = 0xF7 then MASKMOVQ s
     else if opcode = 0xF8 then Gm_Em PSUBB s
     else if opcode = 0xF9 then Gm_Em PSUBW s
     else if opcode = 0xFA then Gm_Em PSUBD s
     else if opcode = 0xFB then Gm_Em PSUBQ s
     else if opcode = 0xFC then Gm_Em PADDB s
     else if opcode = 0xFD then Gm_Em PADDW s
     else if opcode = 0xFE then Gm_Em PADDD s
     else None)"

section \<open>The switch\<close>

definition execute0F :: "env \<Rightarrow> env0F \<Rightarrow> u8 \<Rightarrow> run \<Rightarrow> run option" where
  "execute0F env h opcode s = (
     if opcode < 0x10 then ops0F_00 env h opcode s
     else if opcode < 0x20 then ops0F_10 opcode s
     else if opcode < 0x30 then ops0F_20 env h opcode s
     else if opcode < 0x40 then ops0F_30 env h opcode s
     else if opcode < 0x50 then Some (CMOVcc opcode s)
     else if opcode < 0x60 then ops0F_50 h opcode s
     else if opcode < 0x70 then ops0F_60 opcode s
     else if opcode < 0x80 then ops0F_70 opcode s
     else if opcode < 0x90 then Some (Jcc_near opcode s)
     else if opcode < 0xA0 then Some (SETcc opcode s)
     else if opcode < 0xB0 then ops0F_A0 h opcode s
     else if opcode < 0xC0 then ops0F_B0 opcode s
     else if opcode < 0xD0 then ops0F_C0 opcode s
     else if opcode < 0xE0 then ops0F_D0 opcode s
     else if opcode < 0xF0 then ops0F_E0 opcode s
     else ops0F_F0 opcode s)"

text \<open>
  \<open>Run0F\<close> as \<open>Run\<close> calls it: the address of the next instruction, or 0, the step counter and the
  machine. Nothing is written before a \<open>return 0\<close>.
\<close>

definition two_byte_map :: "env \<Rightarrow> env0F \<Rightarrow> u32 \<Rightarrow> int \<Rightarrow> machine \<Rightarrow> u32 \<times> int \<times> machine" where
  "two_byte_map env h a st m = (let
     s = machine.extend m (run.fields a 0 0 st False);
     (opcode, s) = F8 s
   in case execute0F env h opcode s of
        None \<Rightarrow> (0, st, m)
      | Some s \<Rightarrow> (addr s, step s, machine.truncate s))"

end
