(* ===== verification/Packed.thy ===== *)
theory Packed
  imports Run0F
begin

unbundle bit_operations_syntax

text \<open>
  What the packed instructions compute. Their loops write \<open>GM\<close> element by element while they read
  \<open>GM\<close> and \<open>EM\<close>, which may be one register. The lemmas give each element of the result from the
  operands as they were before the instruction, and show that nothing else of the state changes.
\<close>

section \<open>A register by its elements\<close>

lemma mm_simps [simp]:
  "mm (set_mm r v s) r' = (if r' = r then v else mm s r')" "set_mm r v (set_mm r w s) = set_mm r v s" "set_mm r (mm s r) s = s"
  "ld8 (set_mm r v s) a = ld8 s a" "ld16 (set_mm r v s) a = ld16 s a" "ld32 (set_mm r v s) a = ld32 s a" "ld64 (set_mm r v s) a = ld64 s a"
  by (simp_all add: mm_def set_mm_def ld8_def ld16_def ld32_def ld64_def)

lemma rdm_set_mm [simp]: "rdm (set_mm g v s) E = (if E = VReg g then v else rdm s E)"
  by (cases E) simp_all

lemma rdml_set_mm [simp]: "rdml (set_mm g v s) E i = (if E = VReg g then lane i v else rdml s E i)"
  by (simp add: rdml_def)

lemma rdml_reg [simp]: "rdml s (VReg g) i = lane i (mm s g)"
  by (simp add: rdml_def)

lemma wrml_reg: "wrml (VReg g) i v s = set_mm g (put_lane i v (mm s g)) s"
  by (simp add: wrml_def)

lemma packed_lanes:
  assumes "LENGTH('b::len) * n \<le> LENGTH('a::len)"
  shows "packed (lane :: nat \<Rightarrow> 'a word \<Rightarrow> 'b word) put_lane n"
  using assms by unfold_locales (rule lane_put_lane)

text \<open>A loop over elements of a register is a loop on the register's word.\<close>

lemma fold_wrml:
  "fold (\<lambda>i s. wrml (VReg g) (p i) (h i s) s) xs s = set_mm g (fold (\<lambda>i w. put_lane (p i) (h i (set_mm g w s)) w) xs (mm s g)) s"
proof (induction xs arbitrary: s)
  case (Cons i xs)
  show ?case unfolding fold_simps comp_def Cons.IH by (simp add: wrml_reg)
qed simp

lemma lanes_loop:
  fixes h :: "nat \<Rightarrow> run \<Rightarrow> 'b::len word"
  assumes "LENGTH('b) * n \<le> LENGTH(64)" "i < n"
    "\<And>j w. j < n \<Longrightarrow> lane j w = (lane j (mm s g) :: 'b word) \<Longrightarrow> h j (set_mm g w s) = v j"
  shows "lane i (mm (fold (\<lambda>i s. wrml (VReg g) i (h i s) s) [0..<n] s) g) = v i"
  using packed.get_fold [OF packed_lanes [OF assms(1)], where m = n and i = i and s = "mm s g" and g = v
      and f = "\<lambda>i w. h i (set_mm g w s)"] assms(2,3)
  unfolding fold_wrml by simp

lemma lanes_elem:
  fixes f :: "'b::len word \<Rightarrow> 'b word \<Rightarrow> 'b word" and s :: run
  assumes "LENGTH('b) * n \<le> LENGTH(64)" "i < n"
  shows "lane i (mm (lanes n f (VReg g) E s) g) = f (lane i (mm s g)) (rdml s E i)"
  unfolding lanes_def
  by (subst lanes_loop [OF assms, where h = "\<lambda>i s. f (rdml s (VReg g) i) (rdml s E i)" and v = "\<lambda>i. f (lane i (mm s g)) (rdml s E i)"]) simp_all

section \<open>Elements of elements, and of words under change\<close>

lemma lane_lane:
  assumes "LENGTH('c::len) * i + LENGTH('c) \<le> LENGTH('b::len)" "LENGTH('b) * k = LENGTH('c) * j"
  shows "lane i (lane k (w :: 'a::len word) :: 'b word) = (lane (j + i) w :: 'c word)"
proof (rule bit_word_eqI)
  fix n
  assume "n < LENGTH('c)"
  then show "bit (lane i (lane k w :: 'b word) :: 'c word) n = bit (lane (j + i) w :: 'c word) n"
    using assms by (simp add: bit_lane algebra_simps)
qed

lemma lane_put_inside:
  assumes "LENGTH('b::len) * i + LENGTH('b) \<le> LENGTH('a::len)" "LENGTH('b) * i = LENGTH('c) * k" "k \<le> j"
    "LENGTH('c::len) * j + LENGTH('c) \<le> LENGTH('b) * i + LENGTH('b)"
  shows "lane j (put_lane i (v :: 'b word) (w :: 'a word)) = (lane (j - k) v :: 'c word)"
proof (rule bit_word_eqI)
  fix n
  assume n: "n < LENGTH('c)"
  have e: "LENGTH('c) * j + n - LENGTH('c) * k = LENGTH('c) * (j - k) + n"
    using mult_le_mono2 [OF assms(3), of "LENGTH('c)"] by (simp add: diff_mult_distrib2)
  have "LENGTH('c) * k \<le> LENGTH('c) * j" using mult_le_mono2 [OF assms(3)] .
  then have "LENGTH('c) * k \<le> LENGTH('c) * j + n" by linarith
  then show "bit (lane j (put_lane i v w) :: 'c word) n = bit (lane (j - k) v :: 'c word) n"
    using n assms by (simp add: bit_lane bit_put_lane e)
qed

lemma lane_put_outside:
  assumes "LENGTH('c::len) * j + LENGTH('c) \<le> LENGTH('b::len) * i \<or> LENGTH('b) * i + LENGTH('b) \<le> LENGTH('c) * j"
    "LENGTH('c) * j + LENGTH('c) \<le> LENGTH('a::len)"
  shows "lane j (put_lane i (v :: 'b word) (w :: 'a word)) = (lane j w :: 'c word)"
proof (rule bit_word_eqI)
  fix n
  assume "n < LENGTH('c)"
  then show "bit (lane j (put_lane i v w) :: 'c word) n = bit (lane j w :: 'c word) n"
    using assms by (auto simp: bit_lane bit_put_lane)
qed

definition elems :: "nat \<Rightarrow> 'a::len word \<Rightarrow> 'b::len word list" where
  "elems n w = map (\<lambda>i. lane i w) [0..<n]"

abbreviation (input) sbytes :: "u64 \<Rightarrow> int list" where "sbytes w \<equiv> map sint (elems 8 w :: u8 list)"
abbreviation (input) ubytes :: "u64 \<Rightarrow> int list" where "ubytes w \<equiv> map uint (elems 8 w :: u8 list)"
abbreviation (input) swords :: "u64 \<Rightarrow> int list" where "swords w \<equiv> map sint (elems 4 w :: u16 list)"
abbreviation (input) uwords :: "u64 \<Rightarrow> int list" where "uwords w \<equiv> map uint (elems 4 w :: u16 list)"
abbreviation (input) sdwords :: "u64 \<Rightarrow> int list" where "sdwords w \<equiv> map sint (elems 2 w :: u32 list)"
abbreviation (input) udwords :: "u64 \<Rightarrow> int list" where "udwords w \<equiv> map uint (elems 2 w :: u32 list)"

lemma lanes_elems:
  fixes f :: "'b::len word \<Rightarrow> 'b word \<Rightarrow> 'b word" and s :: run
  assumes "LENGTH('b) * n \<le> LENGTH(64)"
  shows "elems n (mm (lanes n f (VReg g) E s) g) = map2 f (elems n (mm s g)) (elems n (rdm s E))"
  using assms by (intro nth_equalityI) (simp_all add: elems_def lanes_elem rdml_def)

lemma lanes_read:
  fixes f :: "'b::len word \<Rightarrow> 'b word \<Rightarrow> 'b word" and s :: run
  assumes "LENGTH('b) * n \<le> LENGTH(64)" "\<And>x y. r (f x y) = F (r x) (r y)"
  shows "map r (elems n (mm (lanes n f (VReg g) E s) g)) = map2 F (map r (elems n (mm s g))) (map r (elems n (rdm s E)))"
  using assms(2) by (simp add: lanes_elems [OF assms(1)] zip_map_map case_prod_unfold)

section \<open>Saturation\<close>

definition clip :: "int \<Rightarrow> int \<Rightarrow> int \<Rightarrow> int" where
  "clip l h x = max l (min h x)"

lemma word_intI:
  fixes z :: u32
  assumes "z = word_of_int x"
  shows "- 2147483648 \<le> x \<Longrightarrow> x < 2147483648 \<Longrightarrow> sint z = x" "0 \<le> x \<Longrightarrow> x < 4294967296 \<Longrightarrow> uint z = x"
  by (simp_all add: assms signed_of_int signed_take_bit_int_eq_self unsigned_of_int take_bit_int_eq_self)

lemma ucast_sint: "LENGTH('b::len) \<le> LENGTH('a::len) \<Longrightarrow> (ucast (t :: 'a word) :: 'b word) = word_of_int (sint t)"
  by (rule bit_word_eqI) (simp add: bit_simps)

lemma narrow:
  fixes t :: "'a::len word"
  assumes "LENGTH('b::len) \<le> LENGTH('a)"
  shows "- (2 ^ (LENGTH('b) - 1)) \<le> sint t \<Longrightarrow> sint t < 2 ^ (LENGTH('b) - 1) \<Longrightarrow> sint (ucast t :: 'b word) = sint t"
    "0 \<le> sint t \<Longrightarrow> sint t < 2 ^ LENGTH('b) \<Longrightarrow> uint (ucast t :: 'b word) = sint t"
  unfolding ucast_sint [OF assms] signed_of_int unsigned_of_int
  by (simp_all add: signed_take_bit_int_eq_self take_bit_int_eq_self)

lemma sint_sat:
  "sint (sat_sb t) = clip (- 128) 127 (sint t)" "sint (sat_sw t) = clip (- 32768) 32767 (sint t)"
  by (simp_all add: sat_sb_def sat_sw_def clip_def narrow min_def max_def)

lemma uint_sat: "uint (sat_ub w) = clip 0 255 (sint w)"
  by (simp add: sat_ub_def clip_def narrow min_def max_def)

lemma element_bounds:
  "- 128 \<le> sint (b :: u8)" "sint b < 128" "- 32768 \<le> sint (w :: u16)" "sint w < 32768" "uint b < 256" "uint w < 65536" "0 \<le> uint b" "0 \<le> uint w"
  using sint_ge [of b] sint_lt [of b] sint_ge [of w] sint_lt [of w] uint_lt2p [of b] uint_lt2p [of w] by simp_all

lemma byte_sums:
  fixes b b' :: u8
  shows "sint (scast b + scast b' :: u32) = sint b + sint b'" "sint (scast b - scast b' :: u32) = sint b - sint b'"
    "uint (ucast b + ucast b' :: u32) = uint b + uint b'" "sint (ucast b - ucast b' :: u32) = uint b - uint b'"
    "uint (ucast b + ucast b' + 1 :: u32) = uint b + uint b' + 1"
  by (rule word_intI, simp, insert element_bounds(1,2,5,7) [of b] element_bounds(1,2,5,7) [of b'], linarith, linarith)+

lemma word_sums:
  fixes w w' :: u16
  shows "sint (scast w + scast w' :: u32) = sint w + sint w'" "sint (scast w - scast w' :: u32) = sint w - sint w'"
    "uint (ucast w + ucast w' :: u32) = uint w + uint w'" "sint (ucast w - ucast w' :: u32) = uint w - uint w'"
    "uint (ucast w + ucast w' + 1 :: u32) = uint w + uint w' + 1"
  by (rule word_intI, simp, insert element_bounds(3,4,6,8) [of w] element_bounds(3,4,6,8) [of w'], linarith, linarith)+

lemma word_product_bounds:
  fixes w w' :: u16
  shows "\<bar>sint w * sint w'\<bar> \<le> 2 ^ 30" "uint w * uint w' \<le> 4294836225"
proof -
  have "\<bar>sint w\<bar> * \<bar>sint w'\<bar> \<le> 32768 * 32768" "uint w * uint w' \<le> 65535 * 65535"
    using element_bounds(3,4,6) [of w] element_bounds(3,4,6) [of w'] by (intro mult_mono; simp)+
  then show "\<bar>sint w * sint w'\<bar> \<le> 2 ^ 30" "uint w * uint w' \<le> 4294836225" by (simp_all add: abs_mult)
qed

lemma word_products:
  fixes w w' :: u16
  shows "sint (scast w * scast w' :: u32) = sint w * sint w'" "uint (ucast w * ucast w' :: u32) = uint w * uint w'"
  by (rule word_intI, simp; use word_product_bounds [of w w'] in \<open>simp add: abs_le_iff\<close>)+

section \<open>Element-wise instructions\<close>

lemma narrow_unsigned:
  fixes t :: u32
  shows "uint t < 256 \<Longrightarrow> uint (ucast t :: u8) = uint t" "uint t < 65536 \<Longrightarrow> uint (ucast t :: u16) = uint t"
  by (simp_all add: unsigned_ucast_eq take_bit_int_eq_self)

lemma signed_wraps:
  fixes b b' :: "'b::len word"
  shows "uint (b + b') = (uint b + uint b') mod 2 ^ LENGTH('b)" "uint (b - b') = (uint b - uint b') mod 2 ^ LENGTH('b)"
  by (simp_all add: uint_word_ariths)

lemma ucast_low: "(ucast (t AND 0xFFFF) :: u16) = ucast (t :: u32)"
proof (rule bit_word_eqI)
  fix n
  assume "n < LENGTH(16)"
  then show "bit (ucast (t AND 0xFFFF) :: u16) n = bit (ucast t :: u16) n"
    using low_mask_bits(2) [of n] by (simp only: bit_ucast_iff bit_and_iff) simp
qed

lemma uint_drop: "uint (drop_bit k (t :: u32)) = uint t div 2 ^ k"
proof -
  have "take_bit 32 (uint t) = uint t" using take_bit_length_uint [of t] by simp
  then show ?thesis by (simp only: unsigned_drop_bit_eq) (simp add: drop_bit_eq_div)
qed

text \<open>One element of each instruction, on integers.\<close>

lemma byte_saturation:
  fixes x y :: u8
  shows "sint (sat_sb (scast x + scast y)) = clip (- 128) 127 (sint x + sint y)" "sint (sat_sb (scast x - scast y)) = clip (- 128) 127 (sint x - sint y)"
    "uint (if 255 < ucast x + (ucast y :: u32) then 255 else ucast (ucast x + ucast y :: u32) :: u8) = clip 0 255 (uint x + uint y)"
    "uint (if sint (ucast x - ucast y :: u32) < 0 then 0 else ucast (ucast x - ucast y :: u32) :: u8) = clip 0 255 (uint x - uint y)"
    "uint (ucast (drop_bit 1 (ucast x + ucast y + 1 :: u32)) :: u8) = (uint x + uint y + 1) div 2"
proof -
  note b = element_bounds(5,7) [of x] element_bounds(5,7) [of y]
  define p d a where "p = (ucast x + ucast y :: u32)" and "d = (ucast x - ucast y :: u32)" and "a = drop_bit 1 (ucast x + ucast y + 1 :: u32)"
  have u: "uint p = uint x + uint y" "sint d = uint x - uint y" "uint a = (uint x + uint y + 1) div 2"
    by (simp_all only: p_def d_def a_def byte_sums uint_drop) simp
  have p: "uint (if 255 < p then 255 else ucast p :: u8) = clip 0 255 (uint x + uint y)"
    using b u(1) by (simp add: word_less_def narrow_unsigned clip_def)
  have d: "uint (if sint d < 0 then 0 else ucast d :: u8) = clip 0 255 (uint x - uint y)"
  proof -
    have "uint x - uint y < 256" using b by linarith
    then show ?thesis using u(2) by (simp add: narrow clip_def)
  qed
  have a: "uint (ucast a :: u8) = (uint x + uint y + 1) div 2"
    using b u(3) by (simp add: narrow_unsigned)
  show "sint (sat_sb (scast x + scast y)) = clip (- 128) 127 (sint x + sint y)" "sint (sat_sb (scast x - scast y)) = clip (- 128) 127 (sint x - sint y)"
    by (simp_all only: sint_sat byte_sums)
  show "uint (if 255 < ucast x + (ucast y :: u32) then 255 else ucast (ucast x + ucast y :: u32) :: u8) = clip 0 255 (uint x + uint y)"
    "uint (if sint (ucast x - ucast y :: u32) < 0 then 0 else ucast (ucast x - ucast y :: u32) :: u8) = clip 0 255 (uint x - uint y)"
    "uint (ucast (drop_bit 1 (ucast x + ucast y + 1 :: u32)) :: u8) = (uint x + uint y + 1) div 2"
    using p d a by (simp_all only: p_def d_def a_def)
qed

lemma word_saturation:
  fixes x y :: u16
  shows "sint (sat_sw (scast x + scast y)) = clip (- 32768) 32767 (sint x + sint y)" "sint (sat_sw (scast x - scast y)) = clip (- 32768) 32767 (sint x - sint y)"
    "uint (if 65535 < ucast x + (ucast y :: u32) then 65535 else ucast (ucast x + ucast y :: u32) :: u16) = clip 0 65535 (uint x + uint y)"
    "uint (if sint (ucast x - ucast y :: u32) < 0 then 0 else ucast (ucast x - ucast y :: u32) :: u16) = clip 0 65535 (uint x - uint y)"
    "uint (ucast (drop_bit 1 (ucast x + ucast y + 1 :: u32)) :: u16) = (uint x + uint y + 1) div 2"
proof -
  note b = element_bounds(6,8) [of x] element_bounds(6,8) [of y]
  define p d a where "p = (ucast x + ucast y :: u32)" and "d = (ucast x - ucast y :: u32)" and "a = drop_bit 1 (ucast x + ucast y + 1 :: u32)"
  have u: "uint p = uint x + uint y" "sint d = uint x - uint y" "uint a = (uint x + uint y + 1) div 2"
    by (simp_all only: p_def d_def a_def word_sums uint_drop) simp
  have p: "uint (if 65535 < p then 65535 else ucast p :: u16) = clip 0 65535 (uint x + uint y)"
    using b u(1) by (simp add: word_less_def narrow_unsigned clip_def)
  have d: "uint (if sint d < 0 then 0 else ucast d :: u16) = clip 0 65535 (uint x - uint y)"
  proof -
    have "uint x - uint y < 65536" using b by linarith
    then show ?thesis using u(2) by (simp add: narrow clip_def)
  qed
  have a: "uint (ucast a :: u16) = (uint x + uint y + 1) div 2"
    using b u(3) by (simp add: narrow_unsigned)
  show "sint (sat_sw (scast x + scast y)) = clip (- 32768) 32767 (sint x + sint y)" "sint (sat_sw (scast x - scast y)) = clip (- 32768) 32767 (sint x - sint y)"
    by (simp_all only: sint_sat word_sums)
  show "uint (if 65535 < ucast x + (ucast y :: u32) then 65535 else ucast (ucast x + ucast y :: u32) :: u16) = clip 0 65535 (uint x + uint y)"
    "uint (if sint (ucast x - ucast y :: u32) < 0 then 0 else ucast (ucast x - ucast y :: u32) :: u16) = clip 0 65535 (uint x - uint y)"
    "uint (ucast (drop_bit 1 (ucast x + ucast y + 1 :: u32)) :: u16) = (uint x + uint y + 1) div 2"
    using p d a by (simp_all only: p_def d_def a_def)
qed

lemma word_product_parts:
  fixes x y :: u16
  shows "sint (ucast (signed_drop_bit 16 (scast x * scast y :: u32) AND 0xFFFF) :: u16) = sint x * sint y div 65536"
    "uint (ucast (drop_bit 16 (ucast x * ucast y :: u32) AND 0xFFFF) :: u16) = uint x * uint y div 65536"
    "(ucast (scast x * scast y :: u32) :: u16) = x * y"
proof -
  define p q where "p = signed_drop_bit 16 (scast x * scast y :: u32)" and "q = drop_bit 16 (ucast x * ucast y :: u32)"
  have p: "sint p = sint x * sint y div 65536" and q: "uint q = uint x * uint y div 65536"
    by (simp_all only: p_def q_def sint_signed_drop_bit_eq uint_drop word_products) (simp_all add: drop_bit_eq_div)
  have b: "\<bar>sint x * sint y\<bar> \<le> 2 ^ 30" "uint x * uint y \<le> 4294836225"
    using word_product_bounds by blast+
  have "- 32768 \<le> sint p" "sint p < 32768" "uint q < 65536"
    using b unfolding p q by (simp_all add: abs_le_iff; linarith)+
  then show "sint (ucast (p AND 0xFFFF) :: u16) = sint x * sint y div 65536" "uint (ucast (q AND 0xFFFF) :: u16) = uint x * uint y div 65536"
    by (simp_all add: ucast_low narrow narrow_unsigned p q)
  have "(ucast (scast x * scast y :: u32) :: u16) = word_of_int (sint (scast x * scast y :: u32))" by (simp add: ucast_sint)
  also have "\<dots> = word_of_int (sint x) * word_of_int (sint y)" by (simp only: word_products wi_hom_mult)
  finally show "(ucast (scast x * scast y :: u32) :: u16) = x * y" by simp
qed

lemma byte_elements:
  fixes x y :: u8
  shows "uint (if x < y then x else y) = min (uint x) (uint y)" "uint (if y < x then x else y) = max (uint x) (uint y)"
    "sint (if sint y < sint x then 0xFF else 0 :: u8) = (if sint y < sint x then - 1 else 0)"
    "sint (if x = y then 0xFF else 0 :: u8) = (if sint x = sint y then - 1 else 0)"
    "uint (x + y) = (uint x + uint y) mod 256" "uint (x - y) = (uint x - uint y) mod 256"
  by (simp_all add: word_less_def uint_word_ariths min_def max_def flip: word_eq_iff_signed)

lemma word_elements:
  fixes x y :: u16
  shows "sint (if sint x < sint y then x else y) = min (sint x) (sint y)" "sint (if sint y < sint x then x else y) = max (sint x) (sint y)"
    "sint (if sint y < sint x then 0xFFFF else 0 :: u16) = (if sint y < sint x then - 1 else 0)"
    "sint (if x = y then 0xFFFF else 0 :: u16) = (if sint x = sint y then - 1 else 0)"
    "uint (x + y) = (uint x + uint y) mod 65536" "uint (x - y) = (uint x - uint y) mod 65536" "uint (x * y) = (uint x * uint y) mod 65536"
  by (simp_all add: uint_word_ariths flip: word_eq_iff_signed)

lemma element_abs:
  fixes b :: u8 and w :: u16
  shows "uint (ucast (c_abs (scast b :: u32)) :: u8) = \<bar>sint b\<bar>" "uint (ucast (c_abs (scast w :: u32)) :: u16) = \<bar>sint w\<bar>"
proof -
  have "sint (scast b :: u32) = sint b" "sint (- scast b :: u32) = - sint b" "sint (scast w :: u32) = sint w" "sint (- scast w :: u32) = - sint w"
    by (rule word_intI; use element_bounds(1,2) [of b] element_bounds(3,4) [of w] in simp)+
  then have "sint (c_abs (scast b :: u32)) = \<bar>sint b\<bar>" "sint (c_abs (scast w :: u32)) = \<bar>sint w\<bar>"
    by (simp_all only: c_abs_def) simp_all
  then show "uint (ucast (c_abs (scast b :: u32)) :: u8) = \<bar>sint b\<bar>" "uint (ucast (c_abs (scast w :: u32)) :: u16) = \<bar>sint w\<bar>"
    using element_bounds(1,2) [of b] element_bounds(3,4) [of w] by (simp_all add: narrow abs_le_iff)
qed

text \<open>The instructions, on the elements of whole registers.\<close>

lemma packed_bytes:
  "ubytes (mm (PADDB (VReg g) E s) g) = map2 (\<lambda>x y. (x + y) mod 256) (ubytes (mm s g)) (ubytes (rdm s E))"
  "ubytes (mm (PSUBB (VReg g) E s) g) = map2 (\<lambda>x y. (x - y) mod 256) (ubytes (mm s g)) (ubytes (rdm s E))"
  "sbytes (mm (PADDSB (VReg g) E s) g) = map2 (\<lambda>x y. clip (- 128) 127 (x + y)) (sbytes (mm s g)) (sbytes (rdm s E))"
  "sbytes (mm (PSUBSB (VReg g) E s) g) = map2 (\<lambda>x y. clip (- 128) 127 (x - y)) (sbytes (mm s g)) (sbytes (rdm s E))"
  "ubytes (mm (PADDUSB (VReg g) E s) g) = map2 (\<lambda>x y. clip 0 255 (x + y)) (ubytes (mm s g)) (ubytes (rdm s E))"
  "ubytes (mm (PSUBUSB (VReg g) E s) g) = map2 (\<lambda>x y. clip 0 255 (x - y)) (ubytes (mm s g)) (ubytes (rdm s E))"
  "ubytes (mm (PAVGB (VReg g) E s) g) = map2 (\<lambda>x y. (x + y + 1) div 2) (ubytes (mm s g)) (ubytes (rdm s E))"
  "ubytes (mm (PMINUB (VReg g) E s) g) = map2 min (ubytes (mm s g)) (ubytes (rdm s E))"
  "ubytes (mm (PMAXUB (VReg g) E s) g) = map2 max (ubytes (mm s g)) (ubytes (rdm s E))"
  "sbytes (mm (PCMPGTB (VReg g) E s) g) = map2 (\<lambda>x y. if y < x then - 1 else 0) (sbytes (mm s g)) (sbytes (rdm s E))"
  "sbytes (mm (PCMPEQB (VReg g) E s) g) = map2 (\<lambda>x y. if x = y then - 1 else 0) (sbytes (mm s g)) (sbytes (rdm s E))"
  unfolding PADDB_def PSUBB_def PADDSB_def PSUBSB_def PADDUSB_def PSUBUSB_def PAVGB_def PMINUB_def PMAXUB_def PCMPGTB_def PCMPEQB_def
    Let_def by (rule lanes_read, simp, (rule byte_saturation byte_elements))+

lemma packed_words:
  "uwords (mm (PADDW (VReg g) E s) g) = map2 (\<lambda>x y. (x + y) mod 65536) (uwords (mm s g)) (uwords (rdm s E))"
  "uwords (mm (PSUBW (VReg g) E s) g) = map2 (\<lambda>x y. (x - y) mod 65536) (uwords (mm s g)) (uwords (rdm s E))"
  "swords (mm (PADDSW (VReg g) E s) g) = map2 (\<lambda>x y. clip (- 32768) 32767 (x + y)) (swords (mm s g)) (swords (rdm s E))"
  "swords (mm (PSUBSW (VReg g) E s) g) = map2 (\<lambda>x y. clip (- 32768) 32767 (x - y)) (swords (mm s g)) (swords (rdm s E))"
  "uwords (mm (PADDUSW (VReg g) E s) g) = map2 (\<lambda>x y. clip 0 65535 (x + y)) (uwords (mm s g)) (uwords (rdm s E))"
  "uwords (mm (PSUBUSW (VReg g) E s) g) = map2 (\<lambda>x y. clip 0 65535 (x - y)) (uwords (mm s g)) (uwords (rdm s E))"
  "uwords (mm (PAVGW (VReg g) E s) g) = map2 (\<lambda>x y. (x + y + 1) div 2) (uwords (mm s g)) (uwords (rdm s E))"
  "swords (mm (PMINSW (VReg g) E s) g) = map2 min (swords (mm s g)) (swords (rdm s E))"
  "swords (mm (PMAXSW (VReg g) E s) g) = map2 max (swords (mm s g)) (swords (rdm s E))"
  "swords (mm (PCMPGTW (VReg g) E s) g) = map2 (\<lambda>x y. if y < x then - 1 else 0) (swords (mm s g)) (swords (rdm s E))"
  "swords (mm (PCMPEQW (VReg g) E s) g) = map2 (\<lambda>x y. if x = y then - 1 else 0) (swords (mm s g)) (swords (rdm s E))"
  "uwords (mm (PMULLW (VReg g) E s) g) = map2 (\<lambda>x y. x * y mod 65536) (uwords (mm s g)) (uwords (rdm s E))"
  "swords (mm (PMULHW (VReg g) E s) g) = map2 (\<lambda>x y. x * y div 65536) (swords (mm s g)) (swords (rdm s E))"
  "uwords (mm (PMULHUW (VReg g) E s) g) = map2 (\<lambda>x y. x * y div 65536) (uwords (mm s g)) (uwords (rdm s E))"
  unfolding PADDW_def PSUBW_def PADDSW_def PSUBSW_def PADDUSW_def PSUBUSW_def PAVGW_def PMINSW_def PMAXSW_def PCMPGTW_def PCMPEQW_def
    PMULLW_def PMULHW_def PMULHUW_def Let_def word_product_parts(3)
  by (rule lanes_read, simp, (rule word_saturation word_elements word_product_parts))+

section \<open>Instructions across elements\<close>

lemma upts: "[0..<2] = [0, 1]" "[0..<4] = [0, 1, 2, 3]" "[0..<8] = [0, 1, 2, 3, 4, 5, 6, 7 :: nat]"
  by code_simp+

text \<open>Elements of two widths in one register.\<close>

lemma lane_parts:
  "i < 4 \<Longrightarrow> lane i (lane k (w :: u64) :: u32) = (lane (4 * k + i) w :: u8)"
  "i < 2 \<Longrightarrow> lane i (lane k (w :: u64) :: u32) = (lane (2 * k + i) w :: u16)"
  by (rule lane_lane; simp)+

lemma lane_put_parts:
  "i < 2 \<Longrightarrow> j < 8 \<Longrightarrow> lane j (put_lane i (v :: u32) (w :: u64)) = (if 4 * i \<le> j \<and> j < 4 * i + 4 then lane (j - 4 * i) v else lane j w :: u8)"
  "i < 2 \<Longrightarrow> j < 4 \<Longrightarrow> lane j (put_lane i (v :: u32) (w :: u64)) = (if 2 * i \<le> j \<and> j < 2 * i + 2 then lane (j - 2 * i) v else lane j w :: u16)"
  by (auto simp: lane_put_inside [of i "4 * i"] lane_put_inside [of i "2 * i"] intro!: lane_put_outside)

lemma lane_put_other:
  "i < 8 \<Longrightarrow> j < 4 \<Longrightarrow> i div 2 \<noteq> j \<Longrightarrow> lane j (put_lane i (v :: u8) (w :: u64)) = (lane j w :: u16)"
  "i < 4 \<Longrightarrow> j < 2 \<Longrightarrow> i div 2 \<noteq> j \<Longrightarrow> lane j (put_lane i (x :: u16) (w :: u64)) = (lane j w :: u32)"
  by (auto intro!: lane_put_outside)

lemmas lane_simps = elems_def upts rdml_def wrml_reg numeral_2_eq_2 [symmetric]
  lane_put_lane [where 'a = 64 and 'b = 8 and n = 8, simplified] lane_put_lane [where 'a = 64 and 'b = 16 and n = 4, simplified]
  lane_put_lane [where 'a = 64 and 'b = 32 and n = 2, simplified]

definition interleave :: "'v list \<Rightarrow> 'v list \<Rightarrow> 'v list" where
  "interleave xs ys = concat (map2 (\<lambda>x y. [x, y]) xs ys)"

lemma unpack_elems:
  "elems 8 (mm (PUNPCKLBW (VReg g) E s) g) = (interleave (take 4 (elems 8 (mm s g))) (take 4 (elems 8 (rdm s E))) :: u8 list)"
  "elems 8 (mm (PUNPCKHBW (VReg g) E s) g) = (interleave (drop 4 (elems 8 (mm s g))) (drop 4 (elems 8 (rdm s E))) :: u8 list)"
  "elems 4 (mm (PUNPCKLWD (VReg g) E s) g) = (interleave (take 2 (elems 4 (mm s g))) (take 2 (elems 4 (rdm s E))) :: u16 list)"
  "elems 4 (mm (PUNPCKHWD (VReg g) E s) g) = (interleave (drop 2 (elems 4 (mm s g))) (drop 2 (elems 4 (rdm s E))) :: u16 list)"
  "elems 2 (mm (PUNPCKLDQ (VReg g) E s) g) = (interleave (take 1 (elems 2 (mm s g))) (take 1 (elems 2 (rdm s E))) :: u32 list)"
  "elems 2 (mm (PUNPCKHDQ (VReg g) E s) g) = (interleave (drop 1 (elems 2 (mm s g))) (drop 1 (elems 2 (rdm s E))) :: u32 list)"
  by (cases "E = VReg g"; simp add: lane_simps interleave_def PUNPCKLBW_def)
    (cases "E = VReg g"; simp add: lane_simps interleave_def PUNPCKHBW_def PUNPCKLWD_def PUNPCKHWD_def PUNPCKLDQ_def PUNPCKHDQ_def)+

lemma pack_elems:
  "sbytes (mm (PACKSSWB (VReg g) E s) g) = map (clip (- 128) 127) (swords (mm s g) @ swords (rdm s E))"
  "ubytes (mm (PACKUSWB (VReg g) E s) g) = map (clip 0 255) (swords (mm s g) @ swords (rdm s E))"
  "swords (mm (PACKSSDW (VReg g) E s) g) = map (clip (- 32768) 32767) (sdwords (mm s g) @ sdwords (rdm s E))"
proof -
  have x: "sint (sat_sb (scast w)) = clip (- 128) 127 (sint w)" for w :: u16
    using word_sums(1) [of w 0] by (simp add: sint_sat)
  show "sbytes (mm (PACKSSWB (VReg g) E s) g) = map (clip (- 128) 127) (swords (mm s g) @ swords (rdm s E))"
    by (cases "E = VReg g") (simp_all add: lane_simps lane_parts lane_put_parts lane_put_other x PACKSSWB_def)
  show "ubytes (mm (PACKUSWB (VReg g) E s) g) = map (clip 0 255) (swords (mm s g) @ swords (rdm s E))"
    by (cases "E = VReg g") (simp_all add: lane_simps lane_parts lane_put_parts lane_put_other uint_sat PACKUSWB_def)
  show "swords (mm (PACKSSDW (VReg g) E s) g) = map (clip (- 32768) 32767) (sdwords (mm s g) @ sdwords (rdm s E))"
    unfolding PACKSSDW_def Let_def by (cases "E = VReg g") (simp_all add: lane_simps lane_put_other sint_sat)
qed

lemma elems_nth [simp]: "length (elems n w) = n" "k < n \<Longrightarrow> elems n w ! k = lane k w"
  by (simp_all add: elems_def)

lemma shuffle_elems:
  "elems 4 (mm (PSHUFW tmp8u (VReg g) E s) g) = (map (\<lambda>i. elems 4 (rdm s E) ! unat (drop_bit (i * 2) tmp8u AND 3)) [0..<4] :: u16 list)"
  "elems 8 (mm (PSHUFB (VReg g) E s) g) = (map (\<lambda>m :: u8. if m AND 128 \<noteq> 0 then 0 else elems 8 (mm s g) ! unat (m AND 7)) (elems 8 (rdm s E)) :: u8 list)"
proof -
  have b: "unat (m AND 3) < 4" "unat (m AND 7) < 8" for m :: u8
    using word_and_le1 [of m 3] word_and_le1 [of m 7] by (simp_all add: word_le_nat_alt)
  show "elems 4 (mm (PSHUFW tmp8u (VReg g) E s) g) = (map (\<lambda>i. elems 4 (rdm s E) ! unat (drop_bit (i * 2) tmp8u AND 3)) [0..<4] :: u16 list)"
    unfolding PSHUFW_def Let_def by (intro nth_equalityI) (simp_all add: b lanes_loop)
  show "elems 8 (mm (PSHUFB (VReg g) E s) g) = (map (\<lambda>m :: u8. if m AND 128 \<noteq> 0 then 0 else elems 8 (mm s g) ! unat (m AND 7)) (elems 8 (rdm s E)) :: u8 list)"
    unfolding PSHUFB_def Let_def
    by (intro nth_equalityI) (simp_all add: b rdml_def lanes_loop [where v = "\<lambda>i. if lane i (rdm s E) AND (128 :: u8) \<noteq> 0 then 0 else lane (unat (lane i (rdm s E) AND (7 :: u8))) (mm s g)"])
qed

lemma horizontal_elems:
  "elems 4 (mm (hpairs16 f (VReg g) E s) g) = (let x = elems 4 (mm s g); y = elems 4 (rdm s E) in [f (x ! 0) (x ! 1), f (x ! 2) (x ! 3), f (y ! 0) (y ! 1), f (y ! 2) (y ! 3)])"
  "elems 2 (mm (hpairs32 h (VReg g) E s) g) = (let x = elems 2 (mm s g); y = elems 2 (rdm s E) in [h (x ! 0) (x ! 1), h (y ! 0) (y ! 1)])"
  unfolding hpairs16_def hpairs32_def Let_def
  by (cases "E = VReg g"; simp add: lane_simps lane_parts lane_put_parts lane_put_other)+

text \<open>The pairs of neighbours in a list.\<close>

fun neighbours :: "'a list \<Rightarrow> ('a \<times> 'a) list" where
  "neighbours (x # y # zs) = (x, y) # neighbours zs"
| "neighbours _ = []"

lemma horizontal_sums:
  "uwords (mm (PHADDW (VReg g) E s) g) = map (\<lambda>(x, y). (x + y) mod 65536) (neighbours (uwords (mm s g) @ uwords (rdm s E)))"
  "uwords (mm (PHSUBW (VReg g) E s) g) = map (\<lambda>(x, y). (x - y) mod 65536) (neighbours (uwords (mm s g) @ uwords (rdm s E)))"
  "udwords (mm (PHADDD (VReg g) E s) g) = map (\<lambda>(x, y). (x + y) mod 2 ^ 32) (neighbours (udwords (mm s g) @ udwords (rdm s E)))"
  "udwords (mm (PHSUBD (VReg g) E s) g) = map (\<lambda>(x, y). (x - y) mod 2 ^ 32) (neighbours (udwords (mm s g) @ udwords (rdm s E)))"
  "swords (mm (PHADDSW (VReg g) E s) g) = map (\<lambda>(x, y). clip (- 32768) 32767 (x + y)) (neighbours (swords (mm s g) @ swords (rdm s E)))"
  "swords (mm (PHSUBSW (VReg g) E s) g) = map (\<lambda>(x, y). clip (- 32768) 32767 (x - y)) (neighbours (swords (mm s g) @ swords (rdm s E)))"
  unfolding PHADDW_def PHSUBW_def PHADDD_def PHSUBD_def PHADDSW_def PHSUBSW_def
  by (simp_all only: horizontal_elems Let_def)
    (simp_all add: elems_def upts word_saturation uint_word_ariths)

lemma packed_dwords:
  "udwords (mm (PADDD (VReg g) E s) g) = map2 (\<lambda>x y. (x + y) mod 2 ^ 32) (udwords (mm s g)) (udwords (rdm s E))"
  "udwords (mm (PSUBD (VReg g) E s) g) = map2 (\<lambda>x y. (x - y) mod 2 ^ 32) (udwords (mm s g)) (udwords (rdm s E))"
  "sdwords (mm (PCMPGTD (VReg g) E s) g) = map2 (\<lambda>x y. if y < x then - 1 else 0) (sdwords (mm s g)) (sdwords (rdm s E))"
  "sdwords (mm (PCMPEQD (VReg g) E s) g) = map2 (\<lambda>x y. if x = y then - 1 else 0) (sdwords (mm s g)) (sdwords (rdm s E))"
  unfolding PADDD_def PSUBD_def PCMPGTD_def PCMPEQD_def
  by (rule lanes_read, simp, simp add: uint_word_ariths flip: word_eq_iff_signed)+

lemma PMADDWD_elems:
  "udwords (mm (PMADDWD (VReg g) E s) g) = (let p = map2 (*) (swords (mm s g)) (swords (rdm s E)) in
     [(p ! 0 + p ! 1) mod 2 ^ 32, (p ! 2 + p ! 3) mod 2 ^ 32])"
proof -
  have p: "uint (scast a * scast b + scast c * scast d :: u32) = (sint a * sint b + sint c * sint d) mod 2 ^ 32" for a b c d :: u16
  proof -
    have "(scast a * scast b + scast c * scast d :: u32) = word_of_int (sint a * sint b + sint c * sint d)" by simp
    then show ?thesis by (simp only: unsigned_of_int) (simp add: take_bit_eq_mod)
  qed
  show ?thesis
    unfolding PMADDWD_def Let_def by (cases "E = VReg g") (simp_all add: lane_simps lane_put_parts p)
qed

lemma PSADBW_sum: "uint (mm (PSADBW (VReg g) E s) g) = (\<Sum>p\<leftarrow>zip (ubytes (mm s g)) (ubytes (rdm s E)). \<bar>fst p - snd p\<bar>)"
proof -
  have t: "(if e < c then ucast c - ucast e else ucast e - ucast c) = (word_of_int \<bar>uint c - uint e\<bar> :: u32)" for c e :: u8
    by (auto simp: word_less_def)
  have f: "fold (\<lambda>i z. z + word_of_int (h i)) xs (word_of_int a :: u32) = word_of_int (a + sum_list (map h xs))" for h :: "nat \<Rightarrow> int" and xs a
  proof (induction xs arbitrary: a)
    case (Cons i xs)
    show ?case using Cons.IH [of "a + h i"] by (simp add: add.assoc)
  qed simp
  have b: "0 \<le> sum_list (map h xs) \<and> sum_list (map h xs) \<le> 255 * int (length xs)" if "\<And>i. 0 \<le> h i \<and> h i \<le> 255" for h :: "nat \<Rightarrow> int" and xs
  proof (induction xs)
    case (Cons i xs)
    then show ?case using that [of i] by simp
  qed simp
  define h where "h = (\<lambda>i. \<bar>uint (lane i (mm s g) :: u8) - uint (lane i (rdm s E) :: u8)\<bar>)"
  have "0 \<le> h i \<and> h i \<le> 255" for i
    unfolding h_def using element_bounds(5,7) [of "lane i (mm s g)"] element_bounds(5,7) [of "lane i (rdm s E)"] by (simp add: abs_le_iff; linarith)
  then have r: "0 \<le> sum_list (map h [0..<8]) \<and> sum_list (map h [0..<8]) \<le> 255 * 8"
    using b [of h "[0..<8]"] by simp
  have "uint (mm (PSADBW (VReg g) E s) g) = uint (ucast (word_of_int (sum_list (map h [0..<8])) :: u32) :: u64)"
    using f [of h "[0..<8]" 0] by (simp add: PSADBW_def t rdml_def Let_def h_def)
  also have "\<dots> = sum_list (map h [0..<8])"
    using r by (simp add: unsigned_ucast_eq unsigned_of_int take_bit_int_eq_self)
  finally show ?thesis by (simp add: h_def elems_def upts)
qed

text \<open>\<open>PALIGNR\<close> shifts the destination before it reads the source: with one register for both, the
  result is wrong for the counts 1 to 7.\<close>

lemma lane_shifts:
  fixes v w :: u64
  shows "lane i (drop_bit (n * 8) w) = (lane (i + n) w :: u8)"
    "i < 8 \<Longrightarrow> lane i (push_bit (n * 8) w) = (if n \<le> i then lane (i - n) w else 0 :: u8)"
    "lane i (v OR w) = (lane i v OR lane i w :: u8)" "8 \<le> i \<Longrightarrow> lane i w = (0 :: u8)"
proof -
  show "lane i (drop_bit (n * 8) w) = (lane (i + n) w :: u8)"
  proof (rule bit_word_eqI)
    fix k
    have e: "n * 8 + (8 * i + k) = 8 * (i + n) + k" by simp
    have "bit (lane i (drop_bit (n * 8) w) :: u8) k \<longleftrightarrow> k < 8 \<and> bit w (n * 8 + (8 * i + k))" by (simp add: bit_lane bit_drop_bit_eq)
    also have "\<dots> \<longleftrightarrow> k < 8 \<and> bit w (8 * (i + n) + k)" by (simp only: e)
    also have "\<dots> \<longleftrightarrow> bit (lane (i + n) w :: u8) k" by (simp add: bit_lane)
    finally show "bit (lane i (drop_bit (n * 8) w) :: u8) k = bit (lane (i + n) w :: u8) k" .
  qed
  show "i < 8 \<Longrightarrow> lane i (push_bit (n * 8) w) = (if n \<le> i then lane (i - n) w else 0 :: u8)"
  proof (rule bit_word_eqI)
    fix k
    assume a: "i < 8" "k < LENGTH(8)"
    then have "8 * i + k < 64" "n * 8 \<le> 8 * i + k \<longleftrightarrow> n \<le> i" by auto
    moreover have "8 * i + k - n * 8 = 8 * (i - n) + k" if "n \<le> i" using that by (simp add: diff_mult_distrib2)
    ultimately show "bit (lane i (push_bit (n * 8) w) :: u8) k = bit (if n \<le> i then lane (i - n) w else 0 :: u8) k"
      using a by (simp add: bit_lane bit_push_bit_iff)
  qed
  show "lane i (v OR w) = (lane i v OR lane i w :: u8)"
    by (rule bit_word_eqI) (simp add: bit_lane bit_or_iff)
  show "8 \<le> i \<Longrightarrow> lane i w = (0 :: u8)"
    by (rule bit_word_eqI) (auto simp: bit_lane dest: bit_imp_le_length)
qed

lemma PALIGNR_lane:
  assumes "E \<noteq> VReg g" "i < 8" "k = unat n"
  shows "lane i (mm (PALIGNR n (VReg g) E s) g) =
    (if i + k < 8 then lane (i + k) (rdm s E) else if i + k < 16 then lane (i + k - 8) (mm s g) else (0 :: u8))"
proof -
  have c: "16 \<le> n \<longleftrightarrow> 16 \<le> k" "8 < n \<longleftrightarrow> 8 < k" "n = 8 \<longleftrightarrow> k = 8" "n = 0 \<longleftrightarrow> k = 0" "8 < n \<Longrightarrow> unat (n - 8) = k - 8"
    by (simp_all add: assms(3) word_le_nat_alt word_less_nat_alt unat_sub word_unat_eq_iff)
  consider "16 \<le> k" | "8 < k" "k < 16" | "k = 8" | "k = 0" | "0 < k" "k < 8" by linarith
  then show ?thesis
  proof cases
    case 1
    then show ?thesis using c by (simp add: PALIGNR_def lane_def)
  next
    case 2
    then have "mm (PALIGNR n (VReg g) E s) g = drop_bit ((k - 8) * 8) (mm s g)" using c by (simp add: PALIGNR_def)
    moreover have "i + (k - 8) = i + k - 8" using 2 by simp
    ultimately show ?thesis using 2 assms(2) by (simp add: lane_shifts)
  next
    case 3
    then show ?thesis using c assms(2) by (simp add: PALIGNR_def)
  next
    case 4
    then show ?thesis using c assms(2) by (simp add: PALIGNR_def)
  next
    case 5
    then have "mm (PALIGNR n (VReg g) E s) g = push_bit ((8 - k) * 8) (mm s g) OR drop_bit (k * 8) (rdm s E)"
      using c assms(1,3) by (simp add: PALIGNR_def)
    moreover have "8 - k \<le> i \<longleftrightarrow> 8 \<le> i + k" "8 - k \<le> i \<Longrightarrow> i - (8 - k) = i + k - 8" using 5 by auto
    ultimately show ?thesis using 5 assms(2) by (auto simp: lane_shifts)
  qed
qed

lemma PALIGNR_elems:
  assumes "E \<noteq> VReg g"
  shows "elems 8 (mm (PALIGNR n (VReg g) E s) g) = take 8 (drop (unat n) (elems 8 (rdm s E) @ elems 8 (mm s g) @ replicate 256 (0 :: u8)))"
proof (rule nth_equalityI)
  fix i
  define k where "k = unat n"
  have k: "k < 256" using unsigned_less [where 'a = nat, of n] by (simp add: k_def)
  assume "i < length (elems 8 (mm (PALIGNR n (VReg g) E s) g) :: u8 list)"
  then have i: "i < 8" by simp
  define A B :: "u8 list" where "A = elems 8 (rdm s E)" and "B = elems 8 (mm s g)"
  have l: "length A = 8" "length B = 8" "\<And>j. j < 8 \<Longrightarrow> A ! j = lane j (rdm s E)" "\<And>j. j < 8 \<Longrightarrow> B ! j = lane j (mm s g)"
    by (simp_all add: A_def B_def)
  define L where "L = A @ B @ replicate 256 0"
  have "L ! (k + i) = (if i + k < 8 then lane (i + k) (rdm s E) else if i + k < 16 then lane (i + k - 8) (mm s g) else 0)"
    using i k l by (cases "i + k < 8"; cases "i + k < 16") (auto simp: L_def nth_append add.commute)
  moreover have "take 8 (drop k L) ! i = L ! (k + i)"
  proof -
    have "k \<le> length L" using k by (simp add: L_def)
    then show ?thesis using i by simp
  qed
  ultimately show "elems 8 (mm (PALIGNR n (VReg g) E s) g) ! i = take 8 (drop (unat n) (elems 8 (rdm s E) @ elems 8 (mm s g) @ replicate 256 (0 :: u8))) ! i"
    using i PALIGNR_lane [OF assms i k_def] by (simp only: A_def [symmetric] B_def [symmetric] k_def [symmetric] L_def [symmetric] elems_nth)
qed (use unsigned_less [where 'a = nat, of n] in \<open>simp only: length_take length_drop length_append elems_nth length_replicate min_def; simp\<close>)

lemma PALIGNR_same_register: "mm s g = 0x0807060504030201 \<Longrightarrow> mm (PALIGNR 1 (VReg g) (VReg g) s) g = 0x0101000000000000"
  by (simp add: PALIGNR_def Let_def word_le_nat_alt)

section \<open>What the instructions promise\<close>

text \<open>C22. The packed arithmetic of MMX, on every pair of operands, one register for both included: each element of
  the result is the integer sum, difference, product, average, minimum, maximum or comparison of the elements the
  operands had before, reduced or saturated to the element's range; PMADDWD and PSADBW add up neighbours.\<close>

theorem packed_arithmetic:
  "(let G = mm s g; E = rdm s e; R = (\<lambda>f. mm (f (VReg g) e s) g) in
    ubytes (R PADDB) = map2 (\<lambda>x y. (x + y) mod 256) (ubytes G) (ubytes E) \<and>
    ubytes (R PSUBB) = map2 (\<lambda>x y. (x - y) mod 256) (ubytes G) (ubytes E) \<and>
    uwords (R PADDW) = map2 (\<lambda>x y. (x + y) mod 65536) (uwords G) (uwords E) \<and>
    uwords (R PSUBW) = map2 (\<lambda>x y. (x - y) mod 65536) (uwords G) (uwords E) \<and>
    udwords (R PADDD) = map2 (\<lambda>x y. (x + y) mod 2 ^ 32) (udwords G) (udwords E) \<and>
    udwords (R PSUBD) = map2 (\<lambda>x y. (x - y) mod 2 ^ 32) (udwords G) (udwords E) \<and>
    sbytes (R PADDSB) = map2 (\<lambda>x y. clip (- 128) 127 (x + y)) (sbytes G) (sbytes E) \<and>
    sbytes (R PSUBSB) = map2 (\<lambda>x y. clip (- 128) 127 (x - y)) (sbytes G) (sbytes E) \<and>
    ubytes (R PADDUSB) = map2 (\<lambda>x y. clip 0 255 (x + y)) (ubytes G) (ubytes E) \<and>
    ubytes (R PSUBUSB) = map2 (\<lambda>x y. clip 0 255 (x - y)) (ubytes G) (ubytes E) \<and>
    swords (R PADDSW) = map2 (\<lambda>x y. clip (- 32768) 32767 (x + y)) (swords G) (swords E) \<and>
    swords (R PSUBSW) = map2 (\<lambda>x y. clip (- 32768) 32767 (x - y)) (swords G) (swords E) \<and>
    uwords (R PADDUSW) = map2 (\<lambda>x y. clip 0 65535 (x + y)) (uwords G) (uwords E) \<and>
    uwords (R PSUBUSW) = map2 (\<lambda>x y. clip 0 65535 (x - y)) (uwords G) (uwords E) \<and>
    ubytes (R PAVGB) = map2 (\<lambda>x y. (x + y + 1) div 2) (ubytes G) (ubytes E) \<and>
    uwords (R PAVGW) = map2 (\<lambda>x y. (x + y + 1) div 2) (uwords G) (uwords E) \<and>
    ubytes (R PMINUB) = map2 min (ubytes G) (ubytes E) \<and> ubytes (R PMAXUB) = map2 max (ubytes G) (ubytes E) \<and>
    swords (R PMINSW) = map2 min (swords G) (swords E) \<and> swords (R PMAXSW) = map2 max (swords G) (swords E) \<and>
    sbytes (R PCMPGTB) = map2 (\<lambda>x y. if y < x then - 1 else 0) (sbytes G) (sbytes E) \<and>
    swords (R PCMPGTW) = map2 (\<lambda>x y. if y < x then - 1 else 0) (swords G) (swords E) \<and>
    sdwords (R PCMPGTD) = map2 (\<lambda>x y. if y < x then - 1 else 0) (sdwords G) (sdwords E) \<and>
    sbytes (R PCMPEQB) = map2 (\<lambda>x y. if x = y then - 1 else 0) (sbytes G) (sbytes E) \<and>
    swords (R PCMPEQW) = map2 (\<lambda>x y. if x = y then - 1 else 0) (swords G) (swords E) \<and>
    sdwords (R PCMPEQD) = map2 (\<lambda>x y. if x = y then - 1 else 0) (sdwords G) (sdwords E) \<and>
    uwords (R PMULLW) = map2 (\<lambda>x y. x * y mod 65536) (uwords G) (uwords E) \<and>
    swords (R PMULHW) = map2 (\<lambda>x y. x * y div 65536) (swords G) (swords E) \<and>
    uwords (R PMULHUW) = map2 (\<lambda>x y. x * y div 65536) (uwords G) (uwords E) \<and>
    udwords (R PMADDWD) = (let p = map2 (*) (swords G) (swords E) in [(p ! 0 + p ! 1) mod 2 ^ 32, (p ! 2 + p ! 3) mod 2 ^ 32]) \<and>
    uint (R PSADBW) = (\<Sum>p\<leftarrow>zip (ubytes G) (ubytes E). \<bar>fst p - snd p\<bar>))"
  unfolding Let_def
  by (intro conjI packed_bytes packed_words packed_dwords PMADDWD_elems [unfolded Let_def] PSADBW_sum)

text \<open>C23. The instructions that move elements between positions give, also when both operands are one register,
  what the order-free description says: interleaved halves, saturated halves side by side, elements picked by an
  index, sums and differences of neighbours, of the one operand and then of the other, reduced or (PHADDSW, PHSUBSW) saturated to the
  element's range. PALIGNR does so for two registers or memory.\<close>

theorem packed_rearrangement:
  assumes "E' \<noteq> VReg g"
  shows "(let G = mm s g; E = rdm s e; R = (\<lambda>f. mm (f (VReg g) e s) g) in
    elems 8 (R PUNPCKLBW) = (interleave (take 4 (elems 8 G)) (take 4 (elems 8 E)) :: u8 list) \<and>
    elems 8 (R PUNPCKHBW) = (interleave (drop 4 (elems 8 G)) (drop 4 (elems 8 E)) :: u8 list) \<and>
    elems 4 (R PUNPCKLWD) = (interleave (take 2 (elems 4 G)) (take 2 (elems 4 E)) :: u16 list) \<and>
    elems 4 (R PUNPCKHWD) = (interleave (drop 2 (elems 4 G)) (drop 2 (elems 4 E)) :: u16 list) \<and>
    elems 2 (R PUNPCKLDQ) = (interleave (take 1 (elems 2 G)) (take 1 (elems 2 E)) :: u32 list) \<and>
    elems 2 (R PUNPCKHDQ) = (interleave (drop 1 (elems 2 G)) (drop 1 (elems 2 E)) :: u32 list) \<and>
    sbytes (R PACKSSWB) = map (clip (- 128) 127) (swords G @ swords E) \<and>
    ubytes (R PACKUSWB) = map (clip 0 255) (swords G @ swords E) \<and>
    swords (R PACKSSDW) = map (clip (- 32768) 32767) (sdwords G @ sdwords E) \<and>
    elems 4 (R (PSHUFW n)) = (map (\<lambda>i. elems 4 E ! unat (drop_bit (i * 2) n AND 3)) [0..<4] :: u16 list) \<and>
    elems 8 (R PSHUFB) = (map (\<lambda>m :: u8. if m AND 128 \<noteq> 0 then 0 else elems 8 G ! unat (m AND 7)) (elems 8 E) :: u8 list) \<and>
    uwords (R PHADDW) = map (\<lambda>(x, y). (x + y) mod 65536) (neighbours (uwords G @ uwords E)) \<and>
    uwords (R PHSUBW) = map (\<lambda>(x, y). (x - y) mod 65536) (neighbours (uwords G @ uwords E)) \<and>
    udwords (R PHADDD) = map (\<lambda>(x, y). (x + y) mod 2 ^ 32) (neighbours (udwords G @ udwords E)) \<and>
    udwords (R PHSUBD) = map (\<lambda>(x, y). (x - y) mod 2 ^ 32) (neighbours (udwords G @ udwords E)) \<and>
    swords (R PHADDSW) = map (\<lambda>(x, y). clip (- 32768) 32767 (x + y)) (neighbours (swords G @ swords E)) \<and>
    swords (R PHSUBSW) = map (\<lambda>(x, y). clip (- 32768) 32767 (x - y)) (neighbours (swords G @ swords E)) \<and>
    elems 8 (mm (PALIGNR n (VReg g) E' s) g) = take 8 (drop (unat n) (elems 8 (rdm s E') @ elems 8 G @ replicate 256 (0 :: u8))))"
  unfolding Let_def by (intro conjI unpack_elems pack_elems shuffle_elems horizontal_sums PALIGNR_elems [OF assms])

theorem packed_rearrangement_witness:
  "elems 8 (mm (PALIGNR 3 (VReg 0) (VReg 1) (set_mm 1 0x0807060504030201 (set_mm 0 0x100F0E0D0C0B0A09 (run0 [])))) 0) = [4, 5, 6, 7, 8, 9, 10, 11 :: u8]"
  using packed_rearrangement [of "VReg 1" 0 "set_mm 1 0x0807060504030201 (set_mm 0 0x100F0E0D0C0B0A09 (run0 []))" "VReg 1" 3]
  by (simp add: elems_def upts lane_def)

end
