(* ===== verification/Laws0F.thy ===== *)
theory Laws0F
  imports Run0F
begin

unbundle bit_operations_syntax

text \<open>
  What the integer instructions of the two-byte opcode map do: bit strings in memory, bit scans, the
  compare-and-exchange instructions and the byte swaps.
\<close>

section \<open>Bit strings\<close>

text \<open>Bit \<open>d\<close> of the bit string at \<open>a\<close>; \<open>d\<close> may be negative.\<close>

definition string_bit :: "'a machine_scheme \<Rightarrow> u32 \<Rightarrow> int \<Rightarrow> bool" where
  "string_bit s a d = bit (ld8 s (a + word_of_int (d div 8))) (nat (d mod 8))"

lemma small_byte: "i < 4 \<longleftrightarrow> i = 0 \<or> i = 1 \<or> i = 2 \<or> i = (3 :: nat)"
  by auto

lemma bit_ld32:
  assumes "i < 4" "j < 8"
  shows "bit (ld32 s a) (8 * i + j) = bit (ld8 s (a + of_nat i)) j"
proof -
  have n: "\<not> bit (x :: u8) n" if "8 \<le> n" for x n using that by (auto dest: bit_imp_le_length)
  consider "i = 0" | "i = 1" | "i = 2" | "i = 3" using assms(1) by linarith
  then show ?thesis
    by cases (use assms(2) in \<open>simp_all add: ld32_def ld8_def bit_or_iff bit_push_bit_iff bit_unsigned_iff n\<close>)
qed

lemma ld8_st32:
  assumes "i < 4"
  shows "ld8 (st32 a v s) (a + of_nat i) = ucast (drop_bit (8 * i) v)"
  using assms by (auto simp: small_byte ld8_def st32_def)

lemma ld8_st32_other:
  assumes "\<And>i. i < 4 \<Longrightarrow> b \<noteq> a + of_nat i"
  shows "ld8 (st32 a v s) b = ld8 s b"
  using assms [of 0] assms [of 1] assms [of 2] assms [of 3] by (simp add: ld8_def st32_def)

text \<open>A write to a word that changes only bit \<open>k\<close> changes one bit of memory.\<close>

lemma st32_one_bit:
  assumes "k < 32" "\<And>j. j < 32 \<Longrightarrow> j \<noteq> k \<Longrightarrow> bit v j = bit (ld32 s a) j" "j < 8"
  shows "bit (ld8 (st32 a v s) b) j = (if b = a + of_nat (k div 8) \<and> j = k mod 8 then bit v k else bit (ld8 s b) j)"
proof (cases "\<exists>i<4. b = a + of_nat i")
  case True
  then obtain i where i: "i < 4" "b = a + of_nat i" by blast
  have e: "(of_nat i :: u32) = of_nat (k div 8) \<longleftrightarrow> i = k div 8"
  proof -
    have "k div 8 < 4" using assms(1) by simp
    then show ?thesis using i(1) unfolding small_byte by (elim disjE) simp_all
  qed
  have "bit (ld8 (st32 a v s) b) j = bit v (8 * i + j)"
    using i assms(3) by (simp add: ld8_st32 bit_simps)
  moreover have "8 * i + j < 32" "8 * i + j = k \<longleftrightarrow> i = k div 8 \<and> j = k mod 8" using i(1) assms(3) by auto
  ultimately show ?thesis
    using assms(2) [of "8 * i + j"] i e bit_ld32 [OF i(1) assms(3), of s a] by auto
next
  case False
  moreover have "k div 8 < 4" using assms(1) by simp
  ultimately show ?thesis by (auto simp: ld8_st32_other)
qed

text \<open>Where an index of 32 bits leads.\<close>

lemma bit_index:
  fixes w a :: u32
  shows "a + 4 * signed_drop_bit 5 w + of_nat (unat (ucast (w AND 31) :: u8) div 8) = a + word_of_int (sint w div 8)"
    "unat (ucast (w AND 31) :: u8) mod 8 = nat (sint w mod 8)" "unat (ucast (w AND 31) :: u8) < 32"
proof -
  have "w AND 31 = take_bit 5 w" by (simp add: take_bit_eq_mask mask_eq_exp_minus_1)
  then have "uint (w AND 31) = take_bit 5 (uint w)" by (simp only: unsigned_take_bit_eq)
  also have "\<dots> = take_bit 5 (sint w)" by (simp add: sint_uint take_bit_signed_take_bit)
  finally have u: "uint (w AND 31) = sint w mod 32" by (simp add: take_bit_eq_mod)
  have "uint (ucast (w AND 31) :: u8) = sint w mod 32"
    unfolding unsigned_ucast_eq u by (simp add: take_bit_int_eq_self_iff)
  then have k: "unat (ucast (w AND 31) :: u8) = nat (sint w mod 32)" by (simp only: unat_eq_nat_uint)
  show "unat (ucast (w AND 31) :: u8) < 32" unfolding k by simp
  show "unat (ucast (w AND 31) :: u8) mod 8 = nat (sint w mod 8)" unfolding k
    using nat_mod_distrib [of "sint w mod 32" 8] by (simp add: mod_mod_cancel)
  have "word_of_int (sint (signed_drop_bit 5 w)) = (word_of_int (sint w div 32) :: u32)"
    by (simp only: sint_signed_drop_bit_eq) (simp add: drop_bit_eq_div)
  then have d: "signed_drop_bit 5 w = word_of_int (sint w div 32)" by simp
  have n: "(of_nat (nat (sint w mod 32) div 8) :: u32) = word_of_int (sint w mod 32 div 8)"
  proof -
    have "nat (sint w mod 32) div 8 = nat (sint w mod 32 div 8)" by (simp add: nat_div_distrib)
    then show ?thesis by (simp only:) (simp add: of_nat_nat pos_imp_zdiv_nonneg_iff)
  qed
  have "4 * (sint w div 32) + sint w mod 32 div 8 = sint w div 8"
  proof -
    have "sint w mod (8 * 4) = 8 * (sint w div 8 mod 4) + sint w mod 8" "sint w div (8 * 4) = sint w div 8 div 4"
      by (rule zmod_zmult2_eq zdiv_zmult2_eq; simp)+
    then have "sint w mod 32 div 8 = sint w div 8 mod 4" "sint w div 32 = sint w div 8 div 4" by simp_all
    then show ?thesis using mult_div_mod_eq [of 4 "sint w div 8"] by simp
  qed
  moreover have "(4 * word_of_int (sint w div 32) + word_of_int (sint w mod 32 div 8) :: u32) = word_of_int (4 * (sint w div 32) + sint w mod 32 div 8)"
    by simp
  ultimately have "(4 * word_of_int (sint w div 32) + word_of_int (sint w mod 32 div 8) :: u32) = word_of_int (sint w div 8)"
    by (simp only:)
  then show "a + 4 * signed_drop_bit 5 w + of_nat (unat (ucast (w AND 31) :: u8) div 8) = a + word_of_int (sint w div 8)"
    unfolding k d n by (simp add: add.assoc)
qed

lemma ld8_flags [simp]: "ld8 (SET_FLAG f s) b = ld8 s b" "ld8 (CLEAR_FLAG f s) b = ld8 s b" "ld32 (SET_FLAG f s) b = ld32 s b" "ld32 (CLEAR_FLAG f s) b = ld32 s b"
  by (simp_all add: SET_FLAG_def CLEAR_FLAG_def)

lemma bit_of_bits: "bit (bit_of k) j \<longleftrightarrow> j = unat k \<and> j < 32" "rd AND bit_of k \<noteq> 0 \<longleftrightarrow> bit rd (unat k)"
  by (auto simp: bit_of_def bit_exp_iff) (simp_all add: bit_iff_and_push_bit_not_eq_0)

lemma ACCESS_FLAG_st32 [simp]: "ACCESS_FLAG f (st32 a v s) = ACCESS_FLAG f s"
  by (simp add: ACCESS_FLAG_def)

definition string_op :: "(loc \<Rightarrow> u8 \<Rightarrow> run \<Rightarrow> run) \<Rightarrow> u32 \<Rightarrow> u32 \<Rightarrow> run \<Rightarrow> run" where
  "string_op f a w = f (offset_loc (LMem a) (signed_drop_bit 5 w)) (ucast (w AND 31))"

lemma string_op_laws:
  "ACCESS_FLAG F_CF (string_op BT a w s) = string_bit s a (sint w)" "ld8 (string_op BT a w s) b = ld8 s b"
  "ACCESS_FLAG F_CF (string_op BTS a w s) = string_bit s a (sint w)"
  "j < 8 \<Longrightarrow> bit (ld8 (string_op BTS a w s) b) j = (b = a + word_of_int (sint w div 8) \<and> j = nat (sint w mod 8) \<or> bit (ld8 s b) j)"
  "ACCESS_FLAG F_CF (string_op BTR a w s) = string_bit s a (sint w)"
  "j < 8 \<Longrightarrow> bit (ld8 (string_op BTR a w s) b) j = (\<not> (b = a + word_of_int (sint w div 8) \<and> j = nat (sint w mod 8)) \<and> bit (ld8 s b) j)"
  "ACCESS_FLAG F_CF (string_op BTC a w s) = string_bit s a (sint w)"
  "j < 8 \<Longrightarrow> bit (ld8 (string_op BTC a w s) b) j = ((b = a + word_of_int (sint w div 8) \<and> j = nat (sint w mod 8)) \<noteq> bit (ld8 s b) j)"
proof -
  define A k where "A = a + 4 * signed_drop_bit 5 w" and "k = (ucast (w AND 31) :: u8)"
  have k: "unat k < 32" "A + of_nat (unat k div 8) = a + word_of_int (sint w div 8)" "unat k mod 8 = nat (sint w mod 8)"
    using bit_index(1) [of a w] bit_index(2,3) [of w] by (simp_all add: k_def A_def)
  have o: "string_op f a w s = f (LMem A) k s" for f by (simp add: string_op_def A_def k_def)
  have t: "bit (ld32 s A) (unat k) = string_bit s a (sint w)"
  proof -
    have "unat k div 8 < 4" "unat k mod 8 < 8" using k(1) by simp_all
    moreover have "8 * (unat k div 8) + nat (sint w mod 8) = unat k" using mult_div_mod_eq [of 8 "unat k"] k(3) by simp
    ultimately show ?thesis using bit_ld32 [of "unat k div 8" "unat k mod 8" s A] by (simp only: string_bit_def k(2,3))
  qed
  have h: "string_bit s a (sint w) = bit (ld8 s b) j" if "b = a + word_of_int (sint w div 8)" "j = nat (sint w mod 8)" for b j
    by (simp add: string_bit_def that)
  have w: "bit (ld8 (st32 A v s') b) j = (if b = a + word_of_int (sint w div 8) \<and> j = nat (sint w mod 8) then bit v (unat k) else bit (ld8 s' b) j)"
    if "\<And>i. i < 32 \<Longrightarrow> i \<noteq> unat k \<Longrightarrow> bit v i = bit (ld32 s' A) i" "j < 8" for v j b and s' :: run
    using st32_one_bit [OF k(1) that] unfolding k .
  show "ACCESS_FLAG F_CF (string_op BT a w s) = string_bit s a (sint w)" "ld8 (string_op BT a w s) b = ld8 s b"
    "ACCESS_FLAG F_CF (string_op BTS a w s) = string_bit s a (sint w)" "ACCESS_FLAG F_CF (string_op BTR a w s) = string_bit s a (sint w)"
    "ACCESS_FLAG F_CF (string_op BTC a w s) = string_bit s a (sint w)"
    by (simp_all add: o BT_def BTS_def BTR_def BTC_def bit_of_bits t Let_def)
  assume "j < 8"
  then show "bit (ld8 (string_op BTS a w s) b) j = (b = a + word_of_int (sint w div 8) \<and> j = nat (sint w mod 8) \<or> bit (ld8 s b) j)"
    "bit (ld8 (string_op BTR a w s) b) j = (\<not> (b = a + word_of_int (sint w div 8) \<and> j = nat (sint w mod 8)) \<and> bit (ld8 s b) j)"
    "bit (ld8 (string_op BTC a w s) b) j = ((b = a + word_of_int (sint w div 8) \<and> j = nat (sint w mod 8)) \<noteq> bit (ld8 s b) j)"
    using k(1) h [of b j] by (auto simp: o BTS_def BTR_def BTC_def bit_of_bits t Let_def w bit_simps)
qed

section \<open>Bit scans\<close>

lemma scan_up_least: "i \<le> m \<Longrightarrow> m < i + n \<Longrightarrow> bit w m \<Longrightarrow> (\<And>j. i \<le> j \<Longrightarrow> j < m \<Longrightarrow> \<not> bit w j) \<Longrightarrow> scan_up n w i = m"
proof (induction n arbitrary: i)
  case (Suc n)
  then show ?case by (cases "i = m") auto
qed simp

lemma scan_down_greatest: "m \<le> i \<Longrightarrow> i < m + n \<Longrightarrow> bit w m \<Longrightarrow> (\<And>j. m < j \<Longrightarrow> j \<le> i \<Longrightarrow> \<not> bit w j) \<Longrightarrow> scan_down n w i = m"
proof (induction n arbitrary: i)
  case (Suc n)
  then show ?case by (cases "i = m") auto
qed simp

lemma set_bits_u32:
  fixes w :: u32
  assumes "w \<noteq> 0"
  shows "{i. bit w i} \<noteq> {}" "finite {i. bit w i}" "{i. bit w i} \<subseteq> {..<32}"
proof -
  show "{i. bit w i} \<noteq> {}" using assms by (auto simp: bit_eq_iff)
  show s: "{i. bit w i} \<subseteq> {..<32}" by (auto dest: bit_imp_le_length)
  show "finite {i. bit w i}" using s finite_subset by blast
qed

lemma scan_up_Min:
  assumes "w \<noteq> 0"
  shows "scan_up 32 w 0 = Min {i. bit w i}"
proof (rule scan_up_least)
  have "Min {i. bit w i} \<in> {i. bit w i}" using set_bits_u32 [OF assms] by (intro Min_in)
  then show "bit w (Min {i. bit w i})" "Min {i. bit w i} < 0 + 32" using set_bits_u32(3) [OF assms] by auto
  show "\<not> bit w j" if "j < Min {i. bit w i}" for j
    using Min_le [OF set_bits_u32(2) [OF assms], of j] that by (metis mem_Collect_eq not_le)
qed simp

lemma scan_down_Max:
  assumes "w \<noteq> 0"
  shows "scan_down 32 w 31 = Max {i. bit w i}"
proof (rule scan_down_greatest)
  have "Max {i. bit w i} \<in> {i. bit w i}" using set_bits_u32 [OF assms] by (intro Max_in)
  then show "bit w (Max {i. bit w i})" "Max {i. bit w i} \<le> 31" "31 < Max {i. bit w i} + 32" using set_bits_u32(3) [OF assms] by auto
  show "\<not> bit w j" if "Max {i. bit w i} < j" for j
    using Max_ge [OF set_bits_u32(2) [OF assms], of j] that by (metis mem_Collect_eq not_le)
qed

section \<open>Byte order\<close>

lemma second_byte_bits: "bit (65280 :: int) n \<longleftrightarrow> 8 \<le> n \<and> n < 16"
proof -
  have e: "(65280 :: int) = push_bit 8 (mask 8)" by (simp add: mask_eq_exp_minus_1 push_bit_eq_mult)
  show ?thesis unfolding e bit_push_bit_iff bit_mask_iff by auto
qed

lemma get_byte_bswap32:
  assumes "k < 4"
  shows "get_byte (bswap32 w) k = get_byte w (3 - k)"
proof (rule bit_word_eqI)
  fix n
  assume n: "n < LENGTH(8)"
  consider "k = 0" | "k = 1" | "k = 2" | "k = 3" using assms by linarith
  then show "bit (get_byte (bswap32 w) k) n = bit (get_byte w (3 - k)) n"
    by cases (use n in \<open>auto simp: get_byte_def bswap32_def bit_simps second_byte_bits byte_mask_bits dest: bit_imp_le_length\<close>)
qed

lemma u32_bytes_eqI:
  assumes "\<And>k. k < 4 \<Longrightarrow> get_byte v k = get_byte w k"
  shows "v = w"
proof (rule lanes_eqI [where 'b = 8 and n = 4])
  show "(lane i v :: u8) = lane i w" if "i < 4" for i
    using assms [OF that] unfolding get_byte_def lane_def len_of_numeral_defs by simp
qed simp

lemma bswap32_bswap32: "bswap32 (bswap32 w) = w"
  by (rule u32_bytes_eqI) (simp add: get_byte_bswap32)

section \<open>The instructions\<close>

definition decode_Ed :: "run \<Rightarrow> u8 \<times> loc \<times> run" where
  "decode_Ed s = (let (nextop, s) = F8 s; (ED, s) = geted nextop s in (nextop, ED, s))"

lemma decoded:
  assumes "decode_Ed s = (nextop, ED, t)"
  shows "nextop = fst (F8 s)" "geted nextop (snd (F8 s)) = (ED, t)"
  using assms by (auto simp: decode_Ed_def Let_def case_prod_unfold)

lemma evaluated [simp]:
  "regs (UpdateFlags s) = regs s" "mem (UpdateFlags s) = mem s" "addr (UpdateFlags t) = addr t"
  using arg_cong [OF UpdateFlags_frame [of s], of regs] arg_cong [OF UpdateFlags_frame [of s], of mem]
    arg_cong [OF UpdateFlags_frame [of t], of addr] by (simp_all add: erase_flags_def)

lemma evaluated_operands [simp]:
  "reg32 (UpdateFlags s) r = reg32 s r" "ld8 (UpdateFlags s) a = ld8 s a" "ld32 (UpdateFlags s) a = ld32 s a" "ld64 (UpdateFlags s) a = ld64 s a"
  by (simp_all add: reg32_def ld8_def ld32_def ld64_def)

lemma frames:
  "regs (set_reg32 r v e) = (regs e)(r := v)" "mem (set_reg32 r v s) = mem s"
  "regs (SET_FLAG f e) = regs e" "mem (SET_FLAG f s) = mem s" "regs (CLEAR_FLAG f e) = regs e" "mem (CLEAR_FLAG f s) = mem s"
  "regs (snd (F8 t)) = regs t" "mem (snd (F8 t)) = mem t" "regs (snd (geted n t)) = regs t" "mem (snd (geted n t)) = mem t"
  "ACCESS_FLAG f (set_reg32 r v e) = ACCESS_FLAG f e"
  by (simp_all add: set_reg32_def SET_FLAG_def CLEAR_FLAG_def F8_def geted_def getecommon_def Let_def case_prod_unfold F32_def F8S_def ACCESS_FLAG_def)

lemma cmp32_frames:
  "regs (snd (cmp32 e d v)) = regs e" "mem (snd (cmp32 s d v)) = mem s" "ACCESS_FLAG F_ZF (snd (cmp32 e d v)) = (d = v)"
  by (simp_all add: cmp32_def Let_def CONDITIONAL_SET_FLAG_def frames RESET_FLAGS_def)

text \<open>C19. BT, BTS, BTR and BTC with a register index address a bit string in memory: the index is signed and
  its whole range is used, the carry flag gets the bit, and exactly that bit is set, cleared or inverted.\<close>

theorem bit_strings:
  assumes "decode_Ed (CHECK_FLAGS s) = (nextop, LMem a, t)" "d = sint (rd32 t (GD nextop))"
  defines "here \<equiv> \<lambda>b j. b = a + word_of_int (d div 8) \<and> j = nat (d mod 8)"
  shows "ACCESS_FLAG F_CF (bit_op_Gd BT s) = string_bit t a d \<and> (\<forall>b. ld8 (bit_op_Gd BT s) b = ld8 t b) \<and>
    ACCESS_FLAG F_CF (bit_op_Gd BTS s) = string_bit t a d \<and> (\<forall>b j. bit (ld8 (bit_op_Gd BTS s) b) j = (here b j \<or> bit (ld8 t b) j)) \<and>
    ACCESS_FLAG F_CF (bit_op_Gd BTR s) = string_bit t a d \<and> (\<forall>b j. bit (ld8 (bit_op_Gd BTR s) b) j = (\<not> here b j \<and> bit (ld8 t b) j)) \<and>
    ACCESS_FLAG F_CF (bit_op_Gd BTC s) = string_bit t a d \<and> (\<forall>b j. bit (ld8 (bit_op_Gd BTC s) b) j = (here b j \<noteq> bit (ld8 t b) j))"
proof -
  have o: "bit_op_Gd f s = string_op f a (rd32 t (GD nextop)) t" for f
    using decoded [OF assms(1)] by (simp add: bit_op_Gd_def string_op_def Let_def case_prod_unfold)
  have j: "\<not> bit (x :: u8) j \<and> j \<noteq> nat (d mod 8)" if "\<not> j < 8" for x j
    using that by (auto dest: bit_imp_le_length)
  note l = string_op_laws [where a = a and w = "rd32 t (GD nextop)" and s = t, folded assms(2)]
  have "bit (ld8 (string_op BTS a (rd32 t (GD nextop)) t) b) j = (here b j \<or> bit (ld8 t b) j)"
    "bit (ld8 (string_op BTR a (rd32 t (GD nextop)) t) b) j = (\<not> here b j \<and> bit (ld8 t b) j)"
    "bit (ld8 (string_op BTC a (rd32 t (GD nextop)) t) b) j = (here b j \<noteq> bit (ld8 t b) j)" for b j
    using l(4,6,8) [of j b] j [of j] unfolding here_def by (cases "j < 8"; blast)+
  then show ?thesis unfolding o using l by blast
qed

text \<open>A byte of 0x10 at address 0x1000 - 5, and \<open>BTS [ecx], eax\<close> with \<open>ecx = 0x1000\<close> and \<open>eax = -36\<close>: bit 4 of that byte.\<close>

theorem bit_strings_witness:
  "\<exists>s. ACCESS_FLAG F_CF (bit_op_Gd BTS s) \<and> \<not> bit (ld8 (bit_op_Gd BTR s) 0xFFB) 4"
proof -
  define s where "s = (run0 [0x01])\<lparr>regs := (\<lambda>r. if r = rCX then 0x1000 else - 36), mem := (mem (run0 [0x01]))(0xFFB := 0x10)\<rparr>"
  define t where "t = s\<lparr>addr := 1\<rparr>"
  have "df s = d_none" by (simp add: s_def run0_def)
  then have "CHECK_FLAGS s = s" by (simp add: UpdateFlags_def)
  then have d: "decode_Ed (CHECK_FLAGS s) = (1, LMem 0x1000, t)"
    by (simp add: decode_Ed_def F8_def geted_def getecommon_def MODREG_def ld8_def s_def t_def run0_def reg32_def rm_field_def)
  have g: "sint (rd32 t (GD 1)) = - 36" by (simp add: GD_def reg_field_def t_def s_def reg32_def)
  have "string_bit t 0x1000 (- 36)" by (simp add: string_bit_def ld8_def t_def s_def)
  then show ?thesis using bit_strings [OF d g [symmetric]] by (intro exI [of _ s]) simp
qed

text \<open>A flag written after the pending ones have been evaluated, in a state that has moved on in the code.\<close>

lemma write_ZF:
  fixes s u :: run
  assumes "u = (UpdateFlags s)\<lparr>addr := a\<rparr>"
  shows "visible_flags (SET_FLAG F_ZF u) = (visible_flags s)\<lparr>a_ZF := True\<rparr>"
    "visible_flags (set_reg32 r v (CLEAR_FLAG F_ZF u)) = (visible_flags s)\<lparr>a_ZF := False\<rparr>"
    "erase_flags u = (erase_flags s)\<lparr>addr := a, regs := regs s\<rparr>"
    "erase_flags (set_reg32 r v (CLEAR_FLAG F_ZF u)) = (erase_flags s)\<lparr>addr := a, regs := (regs s)(r := v)\<rparr>"
proof -
  have d: "df u = d_none" "df (CLEAR_FLAG F_ZF u) = d_none" "df (SET_FLAG F_ZF u) = d_none"
    by (simp_all add: assms)
  then have "df (set_reg32 r v (CLEAR_FLAG F_ZF u)) = d_none" by (simp add: set_reg32_def)
  with d show "visible_flags (SET_FLAG F_ZF u) = (visible_flags s)\<lparr>a_ZF := True\<rparr>"
    "visible_flags (set_reg32 r v (CLEAR_FLAG F_ZF u)) = (visible_flags s)\<lparr>a_ZF := False\<rparr>"
    by (simp_all add: visible_eager visible_flags_def [of s] status_flags_def assms set_reg32_def flag_simps)
      (simp_all add: ACCESS_FLAG_def)
  have e: "erase_flags u = (erase_flags s)\<lparr>addr := a\<rparr>"
  proof -
    have "erase_flags (x\<lparr>addr := a\<rparr>) = (erase_flags x)\<lparr>addr := a\<rparr>" for x :: run
      by (rule run.equality) (simp_all add: erase_flags_def)
    then show ?thesis by (simp add: assms UpdateFlags_frame)
  qed
  have "erase_flags (set_reg32 r v (CLEAR_FLAG F_ZF u)) = (erase_flags u)\<lparr>regs := (regs s)(r := v)\<rparr>"
    by (simp_all add: erase_flags_def SET_FLAG_def CLEAR_FLAG_def set_reg32_def assms)
  then show "erase_flags u = (erase_flags s)\<lparr>addr := a, regs := regs s\<rparr>"
    "erase_flags (set_reg32 r v (CLEAR_FLAG F_ZF u)) = (erase_flags s)\<lparr>addr := a, regs := (regs s)(r := v)\<rparr>"
    unfolding e by (simp_all add: erase_flags_def)
qed

lemma decode_Ed_addr: "decode_Ed s = (nextop, ED, t) \<Longrightarrow> t = s\<lparr>addr := addr t\<rparr>"
  using geted_addr [of nextop "snd (F8 s)"] by (auto simp: decode_Ed_def F8_def Let_def case_prod_unfold)

text \<open>C20. BSF gives the lowest and BSR the highest bit set of its operand; of zero they leave the
  destination as it is. The zero flag says whether the operand was zero. Every other flag a program can see keeps
  its value, pending or not, and outside the flags nothing changes but the destination and the position
  in the code, which is behind the operand.\<close>

theorem bit_scans:
  "(let (nextop, ED, t) = decode_Ed (CHECK_FLAGS s); w = rd32 t ED; g = reg_field nextop in
     regs (BSF s) = (if w = 0 then regs t else (regs t)(g := of_nat (Min {i. bit w i}))) \<and>
     regs (BSR s) = (if w = 0 then regs t else (regs t)(g := of_nat (Max {i. bit w i}))) \<and>
     ACCESS_FLAG F_ZF (BSF s) = (w = 0) \<and> ACCESS_FLAG F_ZF (BSR s) = (w = 0) \<and>
     mem (BSF s) = mem s \<and> mem (BSR s) = mem s \<and>
     visible_flags (BSF s) = (visible_flags s)\<lparr>a_ZF := (w = 0)\<rparr> \<and>
     visible_flags (BSR s) = (visible_flags s)\<lparr>a_ZF := (w = 0)\<rparr> \<and>
     erase_flags (BSF s) = (erase_flags s)\<lparr>addr := addr t, regs := regs (BSF s)\<rparr> \<and>
     erase_flags (BSR s) = (erase_flags s)\<lparr>addr := addr t, regs := regs (BSR s)\<rparr>)"
proof -
  obtain nextop ED t where d: "decode_Ed (CHECK_FLAGS s) = (nextop, ED, t)" by (metis prod_cases3)
  have t: "t = (UpdateFlags s)\<lparr>addr := addr t\<rparr>" using decode_Ed_addr [OF d] by simp
  obtain u where o: "F8 (CHECK_FLAGS s) = (nextop, u)" "geted nextop u = (ED, t)"
    using decoded [OF d] by (metis prod.collapse)
  have r: "regs t = regs s" "mem t = mem s" by (subst t, simp)+
  have b: "BSF s = (if rd32 t ED = 0 then SET_FLAG F_ZF t else set_reg32 (reg_field nextop) (of_nat (Min {i. bit (rd32 t ED) i})) (CLEAR_FLAG F_ZF t))"
    "BSR s = (if rd32 t ED = 0 then SET_FLAG F_ZF t else set_reg32 (reg_field nextop) (of_nat (Max {i. bit (rd32 t ED) i})) (CLEAR_FLAG F_ZF t))"
    using o by (simp_all add: BSF_def BSR_def Let_def scan_up_Min scan_down_Max GD_def)
  show ?thesis
    unfolding d Let_def prod.case b by (simp add: write_ZF [OF t] r frames)
qed

lemma ld64_cat: "ld64 s a = word_cat (ld32 s (a + 4)) (ld32 s a)"
  by (rule bit_word_eqI) (auto simp: ld64_def bit_word_cat_iff bit_simps dest: bit_imp_le_length)

lemma apart_4: "apart a (a + 4)"
  by (simp add: apart_def)

lemma halves:
  fixes a b :: u32
  shows "(ucast (word_cat a b :: u64) :: u32) = b" "(ucast (drop_bit 32 (word_cat a b :: u64)) :: u32) = a"
  by (rule bit_word_eqI, auto simp: bit_word_cat_iff bit_simps)+

lemma cat_eq_iff: "(word_cat a b :: u64) = word_cat c d \<longleftrightarrow> a = (c :: u32) \<and> b = (d :: u32)"
  using halves [of a b] halves [of c d] by metis

lemma cmp32_reads: "ld32 (snd (cmp32 s d v)) a = ld32 s a" "reg32 (snd (cmp32 e d v)) r = reg32 e r"
  by (simp_all add: ld32_def reg32_def cmp32_frames)

lemma CMPXCHG_Ed_mem:
  assumes "decode_Ed s = (nextop, LMem a, t)"
  shows "ACCESS_FLAG F_ZF (CMPXCHG_Ed s) = (reg32 t rAX = ld32 t a)" "regs (CMPXCHG_Ed s) = (regs t)(rAX := ld32 t a)"
    "mem (CMPXCHG_Ed s) = (if reg32 t rAX = ld32 t a then mem (st32 a (rd32 t (GD nextop)) t) else mem t)"
  using decoded [OF assms]
  by (auto simp: CMPXCHG_Ed_def Let_def case_prod_unfold cmp32_frames cmp32_reads frames GD_def)
    (auto simp: st32_def cmp32_frames reg32_def)

text \<open>C21. CMPXCHG and CMPXCHG8B on memory: the zero flag says whether the memory held the expected value, the
  accumulator (\<open>EDX:EAX\<close> for the 8-byte form) gets what it held, and it changes to the new value only if it did.\<close>

theorem compare_exchange:
  assumes "decode_Ed s = (nextop, LMem a, t)" "decode_Ed s' = (nextop', LMem a', t')" "drop_bit 3 nextop' AND 7 = 1"
  shows "ACCESS_FLAG F_ZF (CMPXCHG_Ed s) = (reg32 t rAX = ld32 t a) \<and>
    regs (CMPXCHG_Ed s) = (regs t)(rAX := ld32 t a) \<and>
    mem (CMPXCHG_Ed s) = (if reg32 t rAX = ld32 t a then mem (st32 a (rd32 t (GD nextop)) t) else mem t) \<and>
    (\<exists>u. CMPXCHG8B s' = Some u \<and>
      ACCESS_FLAG F_ZF u = (word_cat (reg32 t' rDX) (reg32 t' rAX) = ld64 t' a') \<and>
      regs u = (regs t')(rAX := ld32 t' a', rDX := ld32 t' (a' + 4)) \<and>
      mem u = (if word_cat (reg32 t' rDX) (reg32 t' rAX) = ld64 t' a' then mem (st64 a' (word_cat (reg32 t' rCX) (reg32 t' rBX)) t') else mem t'))"
proof -
  have c: "word_cat (reg32 t' rDX) (reg32 t' rAX) = ld64 t' a' \<longleftrightarrow> reg32 t' rDX = ld32 t' (a' + 4) \<and> reg32 t' rAX = ld32 t' a'"
    by (simp add: ld64_cat cat_eq_iff)
  have d: "geted (fst (F8 s')) (snd (F8 s')) = (LMem a', t')" "drop_bit 3 (fst (F8 s')) AND 7 = 1"
    using decoded [OF assms(2)] assms(3) by simp_all
  define v where "v = UpdateFlags t'"
  have "CMPXCHG8B s' = Some (if reg32 t' rAX = ld32 t' a' \<and> reg32 t' rDX = ld32 t' (a' + 4)
      then st32 (a' + 4) (reg32 t' rCX) (st32 a' (reg32 t' rBX) (SET_FLAG F_ZF v))
      else set_reg32 rDX (ld32 t' (a' + 4)) (set_reg32 rAX (ld32 t' a') (CLEAR_FLAG F_ZF v)))"
    by (simp add: CMPXCHG8B_def d Let_def case_prod_unfold v_def) (simp add: reg32_def frames)
  moreover have "mem v = mem t'" "regs v = regs t'" by (simp_all add: v_def)
  ultimately show ?thesis unfolding c using CMPXCHG_Ed_mem [OF assms(1)]
    by (auto simp: frames st64_def halves) (auto simp: st32_def reg32_def frames)
qed

theorem compare_exchange_witness:
  "\<exists>s. ACCESS_FLAG F_ZF (CMPXCHG_Ed s) \<and> (\<exists>u. CMPXCHG8B s = Some u \<and> ACCESS_FLAG F_ZF u \<and> regs u rDX = 0)"
proof -
  define s where "s = (run0 [0x09])\<lparr>regs := (\<lambda>r. if r = rCX then 0x1000 else 0)\<rparr>"
  define t where "t = s\<lparr>addr := 1\<rparr>"
  have d: "decode_Ed s = (0x09, LMem 0x1000, t)"
    by (simp add: decode_Ed_def F8_def geted_def getecommon_def MODREG_def ld8_def s_def t_def run0_def reg32_def rm_field_def)
  have z: "ld32 t 0x1000 = 0" "ld32 t 0x1004 = 0" "reg32 t rAX = 0" "reg32 t rDX = 0"
    by (simp_all add: t_def s_def run0_def ld32_def reg32_def)
  have "ld64 t 0x1000 = word_cat (reg32 t rDX) (reg32 t rAX)" by (simp add: ld64_cat z)
  then show ?thesis using compare_exchange [OF d d] z by (intro exI [of _ s]) auto
qed

end
