(* ===== verification/Flags0F.thy ===== *)
theory Flags0F
  imports Invariant Run0F
begin

unbundle bit_operations_syntax

text \<open>
  The two-byte opcode map in place of the parameter of the interpreter: it keeps the reserved bits of the flag
  register, with the one exception of a compare-and-exchange whose operand is the last register.
\<close>

section \<open>Operations on registers and operands\<close>

lemma reserved_vector_register [simp]:
  "reserved (s\<lparr>fpu := g\<rparr>) = reserved s" "reserved (set_mm r v64 s) = reserved s" "reserved (set_xm r v128 s) = reserved s"
  by (simp_all add: reserved_def set_mm_def set_xm_def)

lemma reserved_vector_store [simp]: "reserved (st64 a v64 m) = reserved m" "reserved (st128 a v128 m) = reserved m"
  by (simp_all add: st64_def st128_def)

lemma reserved_vector_operand [simp]:
  "reserved (wrm E v64 m) = reserved m" "reserved (wrx E v128 m) = reserved m"
  by (cases E; simp)+

lemma reserved_vector_element [simp]:
  "reserved (wrml E i x m) = reserved m" "reserved (wrxl E i x m) = reserved m"
  "reserved (snd (getem n t)) = reserved t" "reserved (snd (getex n t)) = reserved t"
  by (simp_all add: wrml_def wrxl_def getem_def getex_def Let_def case_prod_unfold)

lemma reserved_fold [simp]: "(\<And>x s. reserved (f x s) = reserved s) \<Longrightarrow> reserved (fold f xs s) = reserved s"
  by (induction xs arbitrary: s) simp_all

lemma reserved_lanes [simp]:
  "reserved (lanes n f G E s) = reserved s" "reserved (xlanes n f G E s) = reserved s" "reserved (lanes1 n h G t) = reserved t"
  by (simp_all add: lanes_def xlanes_def lanes1_def)

lemma reserved_mmx [simp]:
  "reserved (PADDB G E s) = reserved s" "reserved (PADDW G E s) = reserved s" "reserved (PADDD G E s) = reserved s"
  "reserved (PADDQ G E s) = reserved s" "reserved (PSUBB G E s) = reserved s" "reserved (PSUBW G E s) = reserved s"
  "reserved (PSUBD G E s) = reserved s" "reserved (PSUBQ G E s) = reserved s" "reserved (PADDSB G E s) = reserved s"
  "reserved (PADDSW G E s) = reserved s" "reserved (PSUBSB G E s) = reserved s" "reserved (PSUBSW G E s) = reserved s"
  "reserved (PADDUSB G E s) = reserved s" "reserved (PADDUSW G E s) = reserved s" "reserved (PSUBUSB G E s) = reserved s"
  "reserved (PSUBUSW G E s) = reserved s" "reserved (PAVGB G E s) = reserved s" "reserved (PAVGW G E s) = reserved s"
  "reserved (PMINUB G E s) = reserved s" "reserved (PMAXUB G E s) = reserved s" "reserved (PMINSW G E s) = reserved s"
  "reserved (PMAXSW G E s) = reserved s" "reserved (PCMPGTB G E s) = reserved s" "reserved (PCMPGTW G E s) = reserved s"
  "reserved (PCMPGTD G E s) = reserved s" "reserved (PCMPEQB G E s) = reserved s" "reserved (PCMPEQW G E s) = reserved s"
  "reserved (PCMPEQD G E s) = reserved s" "reserved (PAND G E s) = reserved s" "reserved (PANDN G E s) = reserved s"
  "reserved (POR G E s) = reserved s" "reserved (PXOR G E s) = reserved s" "reserved (PMULLW G E s) = reserved s"
  "reserved (PMULHW G E s) = reserved s" "reserved (PMULHUW G E s) = reserved s" "reserved (PMULHRSW G E s) = reserved s"
  "reserved (PMULUDQ G E s) = reserved s" "reserved (PMADDWD G E s) = reserved s" "reserved (PMADDUBSW G E s) = reserved s"
  "reserved (PSADBW G E s) = reserved s" "reserved (PSRLW G E s) = reserved s" "reserved (PSRLD G E s) = reserved s"
  "reserved (PSRLQ G E s) = reserved s" "reserved (PSRAW G E s) = reserved s" "reserved (PSRAD G E s) = reserved s"
  "reserved (PSLLW G E s) = reserved s" "reserved (PSLLD G E s) = reserved s" "reserved (PSLLQ G E s) = reserved s"
  "reserved (PUNPCKLBW G E s) = reserved s" "reserved (PUNPCKLWD G E s) = reserved s" "reserved (PUNPCKLDQ G E s) = reserved s"
  "reserved (PUNPCKHBW G E s) = reserved s" "reserved (PUNPCKHWD G E s) = reserved s" "reserved (PUNPCKHDQ G E s) = reserved s"
  "reserved (PACKSSWB G E s) = reserved s" "reserved (PACKUSWB G E s) = reserved s" "reserved (PACKSSDW G E s) = reserved s"
  "reserved (PSHUFW n G E s) = reserved s" "reserved (PSHUFB G E s) = reserved s" "reserved (PHADDW G E s) = reserved s"
  "reserved (PHADDD G E s) = reserved s" "reserved (PHADDSW G E s) = reserved s" "reserved (PHSUBW G E s) = reserved s"
  "reserved (PHSUBD G E s) = reserved s" "reserved (PHSUBSW G E s) = reserved s" "reserved (PSIGNB G E s) = reserved s"
  "reserved (PSIGNW G E s) = reserved s" "reserved (PABSB G E s) = reserved s" "reserved (PABSW G E s) = reserved s"
  "reserved (PABSD G E s) = reserved s" "reserved (PALIGNR n G E s) = reserved s" "reserved (MOVD_load s) = reserved s"
  "reserved (MOVD_store s) = reserved s" "reserved (MOVQ G E s) = reserved s" "reserved (PINSRW s) = reserved s"
  "reserved (PEXTRW s) = reserved s" "reserved (EMMS s) = reserved s"
  by (simp_all add: PADDB_def PADDW_def PADDD_def PADDQ_def PSUBB_def PSUBW_def PSUBD_def PSUBQ_def PADDSB_def PADDSW_def PSUBSB_def PSUBSW_def PADDUSB_def PADDUSW_def PSUBUSB_def PSUBUSW_def PAVGB_def PAVGW_def PMINUB_def PMAXUB_def PMINSW_def PMAXSW_def PCMPGTB_def PCMPGTW_def PCMPGTD_def PCMPEQB_def PCMPEQW_def PCMPEQD_def PAND_def PANDN_def POR_def PXOR_def PMULLW_def PMULHW_def PMULHUW_def PMULHRSW_def PMULUDQ_def PMADDWD_def PMADDUBSW_def PSADBW_def PSRLW_def PSRLD_def PSRLQ_def PSRAW_def PSRAD_def PSLLW_def PSLLD_def PSLLQ_def grp_71_def grp_72_def grp_73_def PUNPCKLBW_def PUNPCKLWD_def PUNPCKLDQ_def PUNPCKHBW_def PUNPCKHWD_def PUNPCKHDQ_def PACKSSWB_def PACKUSWB_def PACKSSDW_def PSHUFW_def PSHUFB_def PHADDW_def PHADDD_def PHADDSW_def PHSUBW_def PHSUBD_def PHSUBSW_def PSIGNB_def PSIGNW_def PABSB_def PABSW_def PABSD_def PALIGNR_def MOVD_load_def MOVD_store_def MOVQ_def PMOVMSKB_def MASKMOVQ_def MOVNTQ_def PINSRW_def PEXTRW_def EMMS_def hpairs16_def hpairs32_def bit_op_Gd_def bit_op_Ib_def Let_def case_prod_unfold split: vloc.split)

lemma reserved_mmx_option:
  "grp_71 n G k s = Some t \<Longrightarrow> reserved t = reserved s" "grp_72 n G k s = Some t \<Longrightarrow> reserved t = reserved s" "grp_73 n G k s = Some t \<Longrightarrow> reserved t = reserved s"
  "PMOVMSKB s = Some t \<Longrightarrow> reserved t = reserved s" "MASKMOVQ s = Some t \<Longrightarrow> reserved t = reserved s" "MOVNTQ s = Some t \<Longrightarrow> reserved t = reserved s"
  by (auto simp: grp_71_def grp_72_def grp_73_def MOVQ_def PMOVMSKB_def MASKMOVQ_def MOVNTQ_def Let_def case_prod_unfold split: if_splits)

lemma reserved_sse [simp]:
  "reserved (MOVAPS G E s) = reserved s" "reserved (MOVUPS G E s) = reserved s" "reserved (MOVLPS_load G E s) = reserved s"
  "reserved (MOVLPS_store G E s) = reserved s" "reserved (MOVHPS_load G E s) = reserved s" "reserved (MOVHPS_store G E s) = reserved s"
  "reserved (UNPCKLPS G E s) = reserved s" "reserved (UNPCKHPS G E s) = reserved s" "reserved (MOVMSKPS n G s) = reserved s"
  "reserved (SHUFPS n G E s) = reserved s" "reserved (ANDPS G E s) = reserved s" "reserved (ANDNPS G E s) = reserved s"
  "reserved (ORPS G E s) = reserved s" "reserved (XORPS G E s) = reserved s" "reserved (ADDPS h G E s) = reserved s"
  "reserved (MULPS h G E s) = reserved s" "reserved (SUBPS h G E s) = reserved s" "reserved (DIVPS h G E s) = reserved s"
  "reserved (SQRTPS h G E s) = reserved s" "reserved (RCPPS h G E s) = reserved s" "reserved (CVTDQ2PS h G E s) = reserved s"
  "reserved (RSQRTPS h G E s) = reserved s" "reserved (MINPS G E s) = reserved s" "reserved (MAXPS G E s) = reserved s"
  "reserved (CMPPS n G E s) = reserved s" "reserved (COMISS G E s) = reserved s" "reserved (CVTPI2PS h G E s) = reserved s"
  "reserved (CVTPS2PD h G E s) = reserved s" "reserved (CVTTPS2PI G E s) = reserved s" "reserved (CVTPS2PI h G E s) = reserved s"
  by (simp_all add: MOVAPS_def MOVUPS_def MOVLPS_load_def MOVLPS_store_def MOVHPS_load_def MOVHPS_store_def UNPCKLPS_def UNPCKHPS_def MOVMSKPS_def SHUFPS_def ANDPS_def ANDNPS_def ORPS_def XORPS_def ADDPS_def MULPS_def SUBPS_def DIVPS_def SQRTPS_def RCPPS_def CVTDQ2PS_def RSQRTPS_def MINPS_def MAXPS_def CMPPS_def COMISS_def CVTPI2PS_def CVTPS2PD_def CVTTPS2PI_def CVTPS2PI_def hpairs16_def hpairs32_def bit_op_Gd_def bit_op_Ib_def Let_def case_prod_unfold split: vloc.split)

lemma reserved_int [simp]:
  "reserved (decode_only s) = reserved s" "reserved (CMOVcc n s) = reserved s" "reserved (STEP3 s) = reserved s"
  "reserved (Jcc_near n s) = reserved s" "reserved (SETcc n s) = reserved s" "reserved (BT L n s) = reserved s"
  "reserved (BTS L n s) = reserved s" "reserved (BTS_Ib L n s) = reserved s" "reserved (BTR L n s) = reserved s"
  "reserved (BTC L n s) = reserved s" "reserved (BSF s) = reserved s" "reserved (BSR s) = reserved s"
  "reserved (SHLD n s) = reserved s" "reserved (SHRD n s) = reserved s" "reserved (IMUL_Gd_Ed s) = reserved s"
  "reserved (MOVX n s) = reserved s" "reserved (CMPXCHG_Eb s) = reserved s" "reserved (CMPXCHG_Ed s) = reserved s"
  "reserved (XADD_Eb s) = reserved s" "reserved (XADD_Ed s) = reserved s" "reserved (BSWAP n s) = reserved s"
  "reserved (MOVBE n s) = reserved s" "reserved (MOVNTI s) = reserved s"
  by (simp_all add: grp_00_def decode_only_def PREFETCHW_def CMOVcc_def STEP3_def Jcc_near_def SETcc_def BT_def BTS_def BTS_Ib_def BTR_def BTC_def grp_BA_def BSF_def BSR_def SHLD_def SHRD_def IMUL_Gd_Ed_def MOVX_def CMPXCHG_Eb_def CMPXCHG_Ed_def XADD_Eb_def XADD_Ed_def BSWAP_def MOVBE_def MOVNTI_def hpairs16_def hpairs32_def bit_op_Gd_def bit_op_Ib_def Let_def case_prod_unfold split: vloc.split)

lemma reserved_int_option:
  "grp_00 s = Some t \<Longrightarrow> reserved t = reserved s" "PREFETCHW s = Some t \<Longrightarrow> reserved t = reserved s" "grp_BA s = Some t \<Longrightarrow> reserved t = reserved s"
  by (auto simp: grp_00_def PREFETCHW_def grp_BA_def bit_op_Ib_def Let_def case_prod_unfold split: if_splits)

lemma reserved_bit_op [simp]:
  assumes "\<And>L n s. reserved (f L n s) = reserved s"
  shows "reserved (bit_op_Gd f s) = reserved s"
  by (simp add: bit_op_Gd_def Let_def case_prod_unfold assms)

section \<open>Calls\<close>

definition host_flags_wf :: "env0F \<Rightarrow> bool" where
  "host_flags_wf h = ((\<forall>n. keeps_flags_wf (my_cpuid h n)) \<and> (\<forall>L. keeps_flags_wf (fpu_fxsave h L)) \<and>
     (\<forall>L. keeps_flags_wf (fpu_fxrstor h L)) \<and> keeps_flags_wf (applyFlushTo0 h) \<and> (\<forall>L. keeps_flags_wf (cleanDB h L)))"

lemma calls0F_wf:
  assumes "\<forall>n a c. keeps_flags_wf (emit_signal env n a c)" "host_flags_wf h" "reserved s = 2"
  shows "reserved (signal env n s) = 2" "reserved (RDTSC h s) = 2" "grp_01 env s = Some t \<Longrightarrow> reserved t = 2" "grp_AE h s = Some t \<Longrightarrow> reserved t = 2"
    "reserved (on_machine (my_cpuid h c) s) = 2"
proof -
  have w: "reserved (words_at ws a u) = reserved u" for ws a u by (induction ws arbitrary: a u) simp_all
  have c: "reserved (on_machine (emit_signal env n a c) u) = 2" "reserved (on_machine (my_cpuid h x) u) = 2"
    "reserved (on_machine (fpu_fxsave h L) u) = 2" "reserved (on_machine (fpu_fxrstor h L) u) = 2"
    "reserved (on_machine (applyFlushTo0 h) u) = 2" "reserved (on_machine (cleanDB h L) u) = 2" if "reserved u = 2" for u n a c x L
    using assms(1,2) that by (simp_all add: host_flags_wf_def on_machine_wf)
  show "reserved (signal env n s) = 2" "reserved (RDTSC h s) = 2" "reserved (on_machine (my_cpuid h c) s) = 2"
    using assms(3) c by (simp_all add: signal_def RDTSC_def Let_def)
  show "grp_01 env s = Some t \<Longrightarrow> reserved t = 2"
    using assms(3) c by (auto simp: grp_01_def signal_def w Let_def case_prod_unfold split: loc.splits if_splits)
  show "grp_AE h s = Some t \<Longrightarrow> reserved t = 2"
    using assms(3) c by (auto simp: grp_AE_def Let_def case_prod_unfold split: if_splits)
qed

section \<open>The map\<close>

lemma operand_forms_wf:
  "(\<And>G E s. reserved (f G E s) = reserved s) \<Longrightarrow> Gm_Em f s = Some t \<Longrightarrow> reserved t = reserved s"
  "(\<And>n G E s. reserved (fi n G E s) = reserved s) \<Longrightarrow> Gm_Em_Ib fi s = Some t \<Longrightarrow> reserved t = reserved s"
  "(\<And>k E n s t. g k E n s = Some t \<Longrightarrow> reserved t = reserved s) \<Longrightarrow> Em_Ib g s = Some t \<Longrightarrow> reserved t = reserved s"
  "(\<And>G E s. reserved (f G E s) = reserved s) \<Longrightarrow> Gx_Ex f s = Some t \<Longrightarrow> reserved t = reserved s"
  "(\<And>n G E s. reserved (fi n G E s) = reserved s) \<Longrightarrow> Gx_Ex_Ib fi s = Some t \<Longrightarrow> reserved t = reserved s"
  "(\<And>n E s. reserved (fd n E s) = reserved s) \<Longrightarrow> Gd_Ex fd s = Some t \<Longrightarrow> reserved t = reserved s"
  by (auto simp: Gm_Em_def Gm_Em_Ib_def Em_Ib_def Gx_Ex_def Gx_Ex_Ib_def Gd_Ex_def Let_def case_prod_unfold)

lemmas forms_elims = operand_forms_wf(1) [rotated] operand_forms_wf(2) [rotated] operand_forms_wf(3) [rotated]
  operand_forms_wf(4) [rotated] operand_forms_wf(5) [rotated] operand_forms_wf(6) [rotated]

lemma rows_wf:
  "ops0F_10 n s = Some t \<Longrightarrow> reserved t = reserved s" "ops0F_38 s = Some t \<Longrightarrow> reserved t = reserved s"
  "ops0F_3A s = Some t \<Longrightarrow> reserved t = reserved s" "ops0F_50 h n s = Some t \<Longrightarrow> reserved t = reserved s"
  "ops0F_60 n s = Some t \<Longrightarrow> reserved t = reserved s" "ops0F_70 n s = Some t \<Longrightarrow> reserved t = reserved s"
  "ops0F_B0 n s = Some t \<Longrightarrow> reserved t = reserved s" "ops0F_D0 n s = Some t \<Longrightarrow> reserved t = reserved s"
  "ops0F_E0 n s = Some t \<Longrightarrow> reserved t = reserved s" "ops0F_F0 n s = Some t \<Longrightarrow> reserved t = reserved s"
proof -
  have "reserved t = reserved (snd (F8 s))" if "ops0F_38 s = Some t \<or> ops0F_3A s = Some t"
    using that by (auto simp: ops0F_38_def ops0F_3A_def Let_def case_prod_unfold split: if_splits elim!: forms_elims simp del: reserved_fetch)
  then show "ops0F_38 s = Some t \<Longrightarrow> reserved t = reserved s" "ops0F_3A s = Some t \<Longrightarrow> reserved t = reserved s" by simp_all
  show "ops0F_10 n s = Some t \<Longrightarrow> reserved t = reserved s" 
    by (auto simp: ops0F_10_def split: if_splits elim!: forms_elims)
  show "ops0F_50 h n s = Some t \<Longrightarrow> reserved t = reserved s"
    by (auto simp: ops0F_50_def split: if_splits elim!: forms_elims)
  show  "ops0F_60 n s = Some t \<Longrightarrow> reserved t = reserved s" "ops0F_70 n s = Some t \<Longrightarrow> reserved t = reserved s"
    by (auto simp: ops0F_60_def ops0F_70_def split: if_splits elim!: forms_elims dest: reserved_mmx_option)
  show "ops0F_B0 n s = Some t \<Longrightarrow> reserved t = reserved s" "ops0F_D0 n s = Some t \<Longrightarrow> reserved t = reserved s"
  "ops0F_E0 n s = Some t \<Longrightarrow> reserved t = reserved s" "ops0F_F0 n s = Some t \<Longrightarrow> reserved t = reserved s"
    by (auto simp: ops0F_B0_def ops0F_D0_def ops0F_E0_def ops0F_F0_def split: if_splits elim!: forms_elims dest: reserved_mmx_option reserved_int_option)
qed

lemma COMISS_wf: "Gx_Ex COMISS (RESET_FLAGS s) = Some t \<Longrightarrow> reserved t = reserved s"
  using operand_forms_wf(4) [of COMISS "RESET_FLAGS s" t] by simp

lemma CMPXCHG8B_wf: "CMPXCHG8B s = Some t \<Longrightarrow> \<not> MODREG (fst (F8 s)) \<Longrightarrow> reserved t = reserved s"
  by (auto simp: CMPXCHG8B_def geted_def Let_def case_prod_unfold split: if_splits)

lemma execute0F_wf:
  assumes "\<forall>n a c. keeps_flags_wf (emit_signal env n a c)" "host_flags_wf h" "reserved s = 2" "execute0F env h n s = Some t"
    "n = 0xC7 \<Longrightarrow> \<not> MODREG (fst (F8 s))"
  shows "reserved t = 2"
proof -
  note c = calls0F_wf [OF assms(1-3)]
  have "ops0F_00 env h n s = Some t \<Longrightarrow> reserved t = 2"
    using assms(3) by (auto simp: ops0F_00_def c(1) split: if_splits dest: c(3) reserved_int_option)
  moreover have "ops0F_20 env h n s = Some t \<Longrightarrow> reserved t = 2"
  proof (cases "n < 0x24")
    case False
    then have "ops0F_20 env h n s = Some t \<Longrightarrow> reserved t = reserved s"
      by (auto simp: ops0F_20_def split: if_splits elim!: forms_elims dest: COMISS_wf)
    then show "ops0F_20 env h n s = Some t \<Longrightarrow> reserved t = 2" using assms(3) by simp
  qed (auto simp: ops0F_20_def c(1))
  moreover have "ops0F_30 env h n s = Some t \<Longrightarrow> reserved t = 2"
    using assms(3) by (auto simp: ops0F_30_def c(1,2) split: if_splits dest: rows_wf)
  moreover have "ops0F_A0 h n s = Some t \<Longrightarrow> reserved t = 2"
    using assms(3) by (auto simp: ops0F_A0_def Let_def c(5) split: if_splits dest: c(4))
  moreover have "ops0F_C0 n s = Some t \<Longrightarrow> reserved t = reserved s"
    using assms(5) by (auto simp: ops0F_C0_def split: if_splits elim!: forms_elims dest: CMPXCHG8B_wf)
  ultimately show ?thesis
    using assms(3,4) by (auto simp: execute0F_def split: if_splits dest: rows_wf)
qed

text \<open>C24. The two-byte opcode map keeps the reserved bits of the flag register, for every opcode and any operands, if
  the functions it calls do; the one instruction left out is a compare-and-exchange of 8 bytes on a register.\<close>

theorem two_byte_flags_wf:
  assumes "\<forall>n a c. keeps_flags_wf (emit_signal env n a c)" "host_flags_wf h" "eflags_wf (eflags m)"
    "\<not> (mem m a = 0xC7 \<and> MODREG (mem m (a + 1)))"
  shows "eflags_wf (eflags (snd (snd (two_byte_map env h a st m))))"
proof -
  define s where "s = machine.extend m (run.fields a 0 0 st False)"
  have s: "reserved s = 2" "fst (F8 s) = mem m a" "fst (F8 (snd (F8 s))) = mem m (a + 1)"
    using assms(3) by (simp_all add: s_def F8_def ld8_def reserved_def eflags_wf_def machine.defs run.defs)
  then have r: "reserved (snd (F8 s)) = 2" by simp
  show ?thesis
  proof (cases "execute0F env h (fst (F8 s)) (snd (F8 s))")
    case None
    then show ?thesis using assms(3) by (simp add: two_byte_map_def Let_def case_prod_unfold s_def)
  next
    case (Some t)
    then have "reserved t = 2" using execute0F_wf [OF assms(1,2) r] assms(4) s(2,3) by auto
    then show ?thesis using Some by (simp add: two_byte_map_def Let_def case_prod_unfold s_def reserved_wf machine.defs reserved_def eflags_wf_def)
  qed
qed

definition host0 :: env0F where
  "host0 = \<lparr>ReadTSC = (\<lambda>_. 0), my_cpuid = (\<lambda>_ m. m), fpu_fxsave = (\<lambda>_ m. m), fpu_fxrstor = (\<lambda>_ m. m), applyFlushTo0 = (\<lambda>m. m),
     cleanDB = (\<lambda>_ m. m), box86_sse_flushto0 = False, box86_dynarec = False, addf = (\<lambda>a b. a), subf = (\<lambda>a b. a), mulf = (\<lambda>a b. a),
     divf = (\<lambda>a b. a), sqrtf = (\<lambda>a. a), int_float = (\<lambda>a. a), float_double = ucast, nearbyintf = (\<lambda>a. 0)\<rparr>"

theorem two_byte_flags_wf_witness:
  "eflags_wf (eflags (snd (snd (two_byte_map env0 host0 0 0 (machine.truncate (run0 [0xA2]))))))"
  by (rule two_byte_flags_wf)
    (simp_all add: env0_def host0_def keeps_flags_wf_def host_flags_wf_def eflags_wf_def run0_def machine.defs)

text \<open>With \<open>EDI\<close> as its operand, \<open>CMPXCHG8B\<close> takes the flag register for the upper half: it writes \<open>ECX\<close> there.\<close>

lemma CMPXCHG8B_register_writes_flags:
  assumes "ld8 s (addr s) = 0xCF" "df s = d_none" "regs s rAX = regs s rDI" "regs s rDX = eflags s"
  shows "map_option eflags (CMPXCHG8B s) = Some (regs s rCX)"
  using assms by (simp add: CMPXCHG8B_def F8_def geted_def MODREG_def Let_def rm_field_def UpdateFlags_def reg32_def set_reg32_def SET_FLAG_def)

end
