(* ===== verification/Rbtree.thy ===== *)
theory Rbtree
  imports Prelude "HOL-Library.Monad_Syntax"
begin

text \<open>
  The interval tree of \<open>tools/rbtree.c\<close>: a red-black tree of disjoint ranges with a value each, linked by
  pointers to children and parents. The nodes a tree owns are a partial map from addresses to
  records; address 0 is \<open>NULL\<close>. An operation returns \<open>None\<close> where it
  would dereference \<open>NULL\<close> or a node that has been freed, or would not return. The allocator
  of the nodes is the argument \<open>al\<close>, and its state the field \<open>arena\<close>. Warnings are left out.
\<close>

section \<open>State\<close>

record rbnode =
  left :: u32
  right :: u32
  parent :: u32
  start :: u32
  stop :: u32
  data :: u32
  meta :: u8

record rbtree =
  nodes :: "u32 \<Rightarrow> rbnode option"
  root :: u32
  is_unstable :: u32

record 'h rbstate = rbtree +
  arena :: 'h

record 'h allocator =
  rbtreeMalloc :: "'h \<Rightarrow> (u32 \<times> 'h) option"
  rbtreeFree :: "u32 \<Rightarrow> 'h \<Rightarrow> 'h"

definition IS_LEFT :: u8 where "IS_LEFT = 1"
definition IS_BLACK :: u8 where "IS_BLACK = 2"

definition init_rbtree :: "'h \<Rightarrow> 'h rbstate" where
  "init_rbtree a = \<lparr>nodes = Map.empty, root = 0, is_unstable = 0, arena = a\<rparr>"

text \<open>\<open>p->f\<close> and the assignment to it; \<open>stop\<close> is the field \<open>end\<close>.\<close>

definition fld :: "(rbnode \<Rightarrow> 'b) \<Rightarrow> u32 \<Rightarrow> 'a rbtree_scheme \<Rightarrow> 'b option" where
  "fld f p s = map_option f (nodes s p)"

definition set_fld :: "(rbnode \<Rightarrow> rbnode) \<Rightarrow> u32 \<Rightarrow> 'a rbtree_scheme \<Rightarrow> 'a rbtree_scheme option" where
  "set_fld f p s = map_option (\<lambda>n. s\<lparr>nodes := (nodes s)(p \<mapsto> f n)\<rparr>) (nodes s p)"

definition free_node :: "'h allocator \<Rightarrow> u32 \<Rightarrow> 'h rbstate \<Rightarrow> 'h rbstate option" where
  "free_node al p s = (if nodes s p = None then None
     else Some (s\<lparr>nodes := (nodes s)(p := None), arena := rbtreeFree al p (arena s)\<rparr>))"

definition now_stable :: "'a rbtree_scheme \<Rightarrow> 'a rbtree_scheme" where
  "now_stable s = s\<lparr>is_unstable := 0\<rparr>"

definition now_unstable :: "'a rbtree_scheme \<Rightarrow> 'a rbtree_scheme" where
  "now_unstable s = s\<lparr>is_unstable := 1\<rparr>"

text \<open>The structure \<open>rbtree\<close> itself, the root and the flag, is not one of the areas of the arena.\<close>

partial_function (option) delete_rbnode :: "'h allocator \<Rightarrow> u32 \<Rightarrow> 'h rbstate \<Rightarrow> 'h rbstate option" where
  [code]: "delete_rbnode al p s = (if p = 0 then Some s else do {
     l \<leftarrow> fld left p s;
     s \<leftarrow> delete_rbnode al l s;
     r \<leftarrow> fld right p s;
     s \<leftarrow> delete_rbnode al r s;
     free_node al p s
   })"

definition delete_rbtree :: "'h allocator \<Rightarrow> 'h rbstate \<Rightarrow> 'h rbstate option" where
  "delete_rbtree al s = delete_rbnode al (root s) s"

text \<open>\<open>p && !(p->meta & IS_BLACK)\<close>\<close>

definition red_ptr :: "u32 \<Rightarrow> 'a rbtree_scheme \<Rightarrow> bool option" where
  "red_ptr p s = (if p = 0 then Some False else do {
     m \<leftarrow> fld meta p s;
     Some (m AND IS_BLACK = 0)
   })"

section \<open>Rotations\<close>

text \<open>
  The rotations are written out eight times in the source. Each of them links \<open>y\<close> to the parent of \<open>z\<close>
  (\<open>link1\<close> where there is one, \<open>link\<close> where \<open>z\<close> may be the root), gives \<open>y\<close> the colour and side of \<open>z\<close> and \<open>z\<close> the flags
  \<open>m\<close>, and moves the subtree between them.
\<close>

definition link1 :: "u32 \<Rightarrow> u32 \<Rightarrow> 'a rbtree_scheme \<Rightarrow> 'a rbtree_scheme option" where
  "link1 y z s = do {
     m \<leftarrow> fld meta z s;
     p \<leftarrow> fld parent z s;
     if m AND IS_LEFT \<noteq> 0 then set_fld (left_update (\<lambda>_. y)) p s else set_fld (right_update (\<lambda>_. y)) p s
   }"

definition link :: "u32 \<Rightarrow> u32 \<Rightarrow> 'a rbtree_scheme \<Rightarrow> 'a rbtree_scheme option" where
  "link y z s = do {
     p \<leftarrow> fld parent z s;
     if p \<noteq> 0 then link1 y z s else Some s
   }"

definition rotate_left :: "u32 \<Rightarrow> u32 \<Rightarrow> u8 \<Rightarrow> 'a rbtree_scheme \<Rightarrow> 'a rbtree_scheme option" where
  "rotate_left y z m s = do {
     mz \<leftarrow> fld meta z s;
     s \<leftarrow> set_fld (meta_update (\<lambda>_. mz)) y s;
     s \<leftarrow> set_fld (meta_update (\<lambda>_. m)) z s;
     pz \<leftarrow> fld parent z s;
     s \<leftarrow> set_fld (parent_update (\<lambda>_. pz)) y s;
     s \<leftarrow> set_fld (parent_update (\<lambda>_. y)) z s;
     l \<leftarrow> fld left y s;
     s \<leftarrow> set_fld (right_update (\<lambda>_. l)) z s;
     s \<leftarrow> set_fld (left_update (\<lambda>_. z)) y s;
     r \<leftarrow> fld right z s;
     if r \<noteq> 0 then do {
       s \<leftarrow> set_fld (meta_update (\<lambda>m. m AND NOT IS_LEFT)) r s;
       set_fld (parent_update (\<lambda>_. z)) r s
     } else Some s
   }"

definition rotate_right :: "u32 \<Rightarrow> u32 \<Rightarrow> u8 \<Rightarrow> 'a rbtree_scheme \<Rightarrow> 'a rbtree_scheme option" where
  "rotate_right y z m s = do {
     mz \<leftarrow> fld meta z s;
     s \<leftarrow> set_fld (meta_update (\<lambda>_. mz)) y s;
     s \<leftarrow> set_fld (meta_update (\<lambda>_. m)) z s;
     pz \<leftarrow> fld parent z s;
     s \<leftarrow> set_fld (parent_update (\<lambda>_. pz)) y s;
     s \<leftarrow> set_fld (parent_update (\<lambda>_. y)) z s;
     r \<leftarrow> fld right y s;
     s \<leftarrow> set_fld (left_update (\<lambda>_. r)) z s;
     s \<leftarrow> set_fld (right_update (\<lambda>_. z)) y s;
     l \<leftarrow> fld left z s;
     if l \<noteq> 0 then do {
       s \<leftarrow> set_fld (meta_update (\<lambda>m. m OR IS_LEFT)) l s;
       set_fld (parent_update (\<lambda>_. z)) l s
     } else Some s
   }"

text \<open>\<open>if (!y->parent) tree->root = y;\<close>\<close>

definition root_if :: "u32 \<Rightarrow> 'a rbtree_scheme \<Rightarrow> 'a rbtree_scheme option" where
  "root_if y s = do {
     p \<leftarrow> fld parent y s;
     Some (if p = 0 then s\<lparr>root := y\<rparr> else s)
   }"

definition blacken :: "u32 \<Rightarrow> 'a rbtree_scheme \<Rightarrow> 'a rbtree_scheme option" where
  "blacken p s = set_fld (meta_update (\<lambda>m. m OR IS_BLACK)) p s"

definition redden :: "u32 \<Rightarrow> 'a rbtree_scheme \<Rightarrow> 'a rbtree_scheme option" where
  "redden p s = set_fld (meta_update (\<lambda>m. m AND NOT IS_BLACK)) p s"

section \<open>Insertion\<close>

text \<open>
  One turn of the loop of \<open>add_range_next_to\<close>: \<open>Inl\<close> leaves the function with a value, \<open>Inr\<close> goes on
  with another node.
\<close>

definition add_step_left :: "u32 \<Rightarrow> u32 \<Rightarrow> u32 \<Rightarrow> 'a rbtree_scheme \<Rightarrow> ((int + u32) \<times> 'a rbtree_scheme) option" where
  "add_step_left node p g s = do {
     u \<leftarrow> fld right g s;
     red \<leftarrow> red_ptr u s;
     if red then do {
       s \<leftarrow> blacken p s;
       s \<leftarrow> redden g s;
       u \<leftarrow> fld right g s;
       s \<leftarrow> blacken u s;
       Some (Inr g, s)
     } else do {
       m \<leftarrow> fld meta node s;
       (node, s) \<leftarrow> (if m AND IS_LEFT = 0 then do {
           z \<leftarrow> fld parent node s;
           s \<leftarrow> link1 node z s;
           s \<leftarrow> rotate_left node z IS_LEFT s;
           Some (z, s)
         } else Some (node, s));
       y \<leftarrow> fld parent node s;
       z \<leftarrow> fld parent y s;
       s \<leftarrow> link y z s;
       s \<leftarrow> rotate_right y z 0 s;
       s \<leftarrow> root_if y s;
       Some (Inl 0, now_stable s)
     }
   }"

definition add_step_right :: "u32 \<Rightarrow> u32 \<Rightarrow> u32 \<Rightarrow> 'a rbtree_scheme \<Rightarrow> ((int + u32) \<times> 'a rbtree_scheme) option" where
  "add_step_right node p g s = do {
     u \<leftarrow> fld left g s;
     red \<leftarrow> red_ptr u s;
     if red then do {
       s \<leftarrow> blacken p s;
       s \<leftarrow> redden g s;
       u \<leftarrow> fld left g s;
       s \<leftarrow> blacken u s;
       Some (Inr g, s)
     } else do {
       m \<leftarrow> fld meta node s;
       (node, s) \<leftarrow> (if m AND IS_LEFT \<noteq> 0 then do {
           z \<leftarrow> fld parent node s;
           s \<leftarrow> link1 node z s;
           s \<leftarrow> rotate_right node z 0 s;
           Some (z, s)
         } else Some (node, s));
       y \<leftarrow> fld parent node s;
       z \<leftarrow> fld parent y s;
       s \<leftarrow> link y z s;
       s \<leftarrow> rotate_left y z IS_LEFT s;
       s \<leftarrow> root_if y s;
       Some (Inl 0, now_stable s)
     }
   }"

definition add_step :: "u32 \<Rightarrow> 'a rbtree_scheme \<Rightarrow> ((int + u32) \<times> 'a rbtree_scheme) option" where
  "add_step node s = do {
     m \<leftarrow> fld meta node s;
     p \<leftarrow> fld parent node s;
     if m AND IS_BLACK \<noteq> 0 then Some (Inl (- 1), now_stable s)
     else if p = 0 then do {
       s \<leftarrow> set_fld (meta_update (\<lambda>_. IS_BLACK)) node s;
       Some (Inl 0, now_stable (s\<lparr>root := node\<rparr>))
     } else do {
       mp \<leftarrow> fld meta p s;
       g \<leftarrow> fld parent p s;
       if mp AND IS_BLACK \<noteq> 0 then Some (Inl 0, now_stable s)
       else if g = 0 then Some (Inl 0, now_stable s)
       else if mp AND IS_LEFT \<noteq> 0 then add_step_left node p g s
       else add_step_right node p g s
     }
   }"

partial_function (option) add_loop :: "u32 \<Rightarrow> 'a rbtree_scheme \<Rightarrow> (int \<times> 'a rbtree_scheme) option" where
  [code]: "add_loop node s = do {
     (r, s) \<leftarrow> add_step node s;
     case r of Inl v \<Rightarrow> Some (v, s) | Inr n \<Rightarrow> add_loop n s
   }"

text \<open>
  The links and flags of a new node are set before they are read: the zeros stand for the undefined
  contents of fresh memory.
\<close>

definition new_node :: "u32 \<Rightarrow> u32 \<Rightarrow> u32 \<Rightarrow> rbnode" where
  "new_node st en d = \<lparr>left = 0, right = 0, parent = 0, start = st, stop = en, data = d, meta = 0\<rparr>"

definition add_range_next_to :: "'h allocator \<Rightarrow> u32 \<Rightarrow> u32 \<Rightarrow> u32 \<Rightarrow> u32 \<Rightarrow> 'h rbstate \<Rightarrow> (int \<times> 'h rbstate) option" where
  "add_range_next_to al prev st en d s = do {
     (node, a) \<leftarrow> rbtreeMalloc al (arena s);
     let s = s\<lparr>arena := a\<rparr>;
     if node = 0 then Some (- 1, s)
     else do {
       let s = now_unstable (s\<lparr>nodes := (nodes s)(node \<mapsto> new_node st en d)\<rparr>);
       if root s = 0 then do {
         s \<leftarrow> set_fld (parent_update (\<lambda>_. 0)) node s;
         s \<leftarrow> set_fld (meta_update (\<lambda>_. IS_BLACK)) node s;
         Some (0, now_stable (s\<lparr>root := node\<rparr>))
       } else do {
         s \<leftarrow> set_fld (parent_update (\<lambda>_. prev)) node s;
         ps \<leftarrow> fld start prev s;
         s \<leftarrow> (if ps < st then do {
             s \<leftarrow> set_fld (right_update (\<lambda>_. node)) prev s;
             set_fld (meta_update (\<lambda>_. 0)) node s
           } else do {
             s \<leftarrow> set_fld (left_update (\<lambda>_. node)) prev s;
             set_fld (meta_update (\<lambda>_. IS_LEFT)) node s
           });
         add_loop node s
       }
     }
   }"

partial_function (option) insertion_point :: "u32 \<Rightarrow> u32 \<Rightarrow> u32 \<Rightarrow> 'a rbtree_scheme \<Rightarrow> u32 option" where
  [code]: "insertion_point st cur prev s = (if cur = 0 then Some prev else do {
     cs \<leftarrow> fld start cur s;
     next \<leftarrow> (if cs < st then fld right cur s else fld left cur s);
     insertion_point st next cur s
   })"

definition add_range :: "'h allocator \<Rightarrow> u32 \<Rightarrow> u32 \<Rightarrow> u32 \<Rightarrow> 'h rbstate \<Rightarrow> (int \<times> 'h rbstate) option" where
  "add_range al st en d s = do {
     prev \<leftarrow> insertion_point st (root s) 0 s;
     add_range_next_to al prev st en d s
   }"

section \<open>Searches\<close>

partial_function (option) find_from :: "u32 \<Rightarrow> u32 \<Rightarrow> 'a rbtree_scheme \<Rightarrow> u32 option" where
  [code]: "find_from addr node s = (if node = 0 then Some 0 else do {
     st \<leftarrow> fld start node s;
     en \<leftarrow> fld stop node s;
     if st \<le> addr \<and> addr < en then Some node
     else do {
       next \<leftarrow> (if addr < st then fld left node s else fld right node s);
       find_from addr next s
     }
   })"

definition find_addr :: "u32 \<Rightarrow> 'a rbtree_scheme \<Rightarrow> u32 option" where
  "find_addr addr s = find_from addr (root s) s"

partial_function (option) leftmost :: "u32 \<Rightarrow> u32 \<Rightarrow> 'a rbtree_scheme \<Rightarrow> u32 option" where
  [code]: "leftmost node prev s = (if node = 0 then Some prev else do {
     l \<leftarrow> fld left node s;
     leftmost l node s
   })"

definition first_node :: "'a rbtree_scheme \<Rightarrow> u32 option" where
  "first_node s = leftmost (root s) (root s) s"

text \<open>\<open>while (node->right) node = node->right;\<close> and its mirror image.\<close>

partial_function (option) descend :: "(rbnode \<Rightarrow> u32) \<Rightarrow> u32 \<Rightarrow> 'a rbtree_scheme \<Rightarrow> u32 option" where
  [code]: "descend f node s = do {
     next \<leftarrow> fld f node s;
     if next \<noteq> 0 then descend f next s else Some node
   }"

text \<open>\<open>while (node->parent && node->meta & IS_LEFT) node = node->parent; return node->parent;\<close>\<close>

partial_function (option) ascend :: "bool \<Rightarrow> u32 \<Rightarrow> 'a rbtree_scheme \<Rightarrow> u32 option" where
  [code]: "ascend from_left node s = do {
     p \<leftarrow> fld parent node s;
     m \<leftarrow> fld meta node s;
     if p \<noteq> 0 \<and> (m AND IS_LEFT \<noteq> 0) = from_left then ascend from_left p s else Some p
   }"

definition pred_node :: "u32 \<Rightarrow> 'a rbtree_scheme \<Rightarrow> u32 option" where
  "pred_node node s = (if node = 0 then Some 0 else do {
     l \<leftarrow> fld left node s;
     if l \<noteq> 0 then descend right l s else ascend True node s
   })"

definition succ_node :: "u32 \<Rightarrow> 'a rbtree_scheme \<Rightarrow> u32 option" where
  "succ_node node s = (if node = 0 then Some 0 else do {
     r \<leftarrow> fld right node s;
     if r \<noteq> 0 then descend left r s else ascend False node s
   })"

section \<open>Removal\<close>

text \<open>
  The first part of \<open>remove_node\<close>: a node with two children trades places with its successor \<open>prev\<close>, found in
  the right subtree. The link from the parent of \<open>prev\<close> is left for the removal to overwrite.
\<close>

definition swap_links :: "u32 \<Rightarrow> u32 \<Rightarrow> 'a rbtree_scheme \<Rightarrow> 'a rbtree_scheme option" where
  "swap_links node prev s = do {
     tmp8 \<leftarrow> fld meta node s;
     mp \<leftarrow> fld meta prev s;
     s \<leftarrow> set_fld (meta_update (\<lambda>_. mp)) node s;
     s \<leftarrow> set_fld (meta_update (\<lambda>_. tmp8)) prev s;
     l \<leftarrow> fld left node s;
     s \<leftarrow> set_fld (left_update (\<lambda>_. l)) prev s;
     s \<leftarrow> set_fld (left_update (\<lambda>_. 0)) node s;
     s \<leftarrow> (if l \<noteq> 0 then set_fld (parent_update (\<lambda>_. prev)) l s else Some s);
     s \<leftarrow> (if mp AND IS_LEFT \<noteq> 0 then do {
         cur \<leftarrow> fld parent node s;
         pp \<leftarrow> fld parent prev s;
         s \<leftarrow> set_fld (parent_update (\<lambda>_. pp)) node s;
         s \<leftarrow> set_fld (parent_update (\<lambda>_. cur)) prev s;
         cur \<leftarrow> fld right node s;
         pr \<leftarrow> fld right prev s;
         s \<leftarrow> set_fld (right_update (\<lambda>_. pr)) node s;
         s \<leftarrow> set_fld (right_update (\<lambda>_. cur)) prev s;
         if cur \<noteq> 0 then set_fld (parent_update (\<lambda>_. prev)) cur s else Some s
       } else do {
         pr \<leftarrow> fld right prev s;
         s \<leftarrow> set_fld (right_update (\<lambda>_. pr)) node s;
         s \<leftarrow> set_fld (right_update (\<lambda>_. node)) prev s;
         np \<leftarrow> fld parent node s;
         s \<leftarrow> set_fld (parent_update (\<lambda>_. np)) prev s;
         set_fld (parent_update (\<lambda>_. prev)) node s
       });
     r \<leftarrow> fld right node s;
     if r \<noteq> 0 then set_fld (parent_update (\<lambda>_. node)) r s else Some s
   }"

definition swap_nodes :: "u32 \<Rightarrow> u32 \<Rightarrow> 'a rbtree_scheme \<Rightarrow> 'a rbtree_scheme option" where
  "swap_nodes node prev s = do {
     s \<leftarrow> swap_links node prev s;
     pp \<leftarrow> fld parent prev s;
     m \<leftarrow> fld meta prev s;
     if pp = 0 then Some (s\<lparr>root := prev\<rparr>)
     else if m AND IS_LEFT \<noteq> 0 then set_fld (left_update (\<lambda>_. prev)) pp s
     else set_fld (right_update (\<lambda>_. prev)) pp s
   }"

definition swap_successor :: "u32 \<Rightarrow> 'a rbtree_scheme \<Rightarrow> 'a rbtree_scheme option" where
  "swap_successor node s = do {
     l \<leftarrow> fld left node s;
     r \<leftarrow> fld right node s;
     if l \<noteq> 0 \<and> r \<noteq> 0 then do {
       prev \<leftarrow> leftmost r r s;
       swap_nodes node prev s
     } else Some s
   }"

text \<open>
  The second part: the one child, if any, takes the place of the node. A node that is the root and has a child is not
  freed. \<open>Inl\<close> returns, \<open>Inr\<close> goes on with \<open>child\<close> and \<open>parent\<close>.
\<close>

definition unlink_node :: "'h allocator \<Rightarrow> u32 \<Rightarrow> 'h rbstate \<Rightarrow> ((int + u32 \<times> u32) \<times> 'h rbstate) option" where
  "unlink_node al node s = do {
     l \<leftarrow> fld left node s;
     r \<leftarrow> fld right node s;
     let child = (if l \<noteq> 0 then l else r);
     p \<leftarrow> fld parent node s;
     m \<leftarrow> fld meta node s;
     if child \<noteq> 0 then do {
       s \<leftarrow> set_fld (parent_update (\<lambda>_. p)) child s;
       if p = 0 then do {
         s \<leftarrow> blacken child (s\<lparr>root := child\<rparr>);
         Some (Inl 0, now_stable s)
       } else if m AND IS_LEFT \<noteq> 0 then do {
         s \<leftarrow> set_fld (meta_update (\<lambda>m. m OR IS_LEFT)) child s;
         s \<leftarrow> set_fld (left_update (\<lambda>_. child)) p s;
         Some (Inr (child, p), s)
       } else do {
         s \<leftarrow> set_fld (meta_update (\<lambda>m. m AND NOT IS_LEFT)) child s;
         s \<leftarrow> set_fld (right_update (\<lambda>_. child)) p s;
         Some (Inr (child, p), s)
       }
     } else if p = 0 then do {
       s \<leftarrow> free_node al node (s\<lparr>root := 0\<rparr>);
       Some (Inl 0, now_stable s)
     } else if m AND IS_LEFT \<noteq> 0 then do {
       s \<leftarrow> set_fld (left_update (\<lambda>_. 0)) p s;
       Some (Inr (0, p), s)
     } else do {
       s \<leftarrow> set_fld (right_update (\<lambda>_. 0)) p s;
       Some (Inr (0, p), s)
     }
   }"

text \<open>The code at the labels \<open>case4_l\<close> and \<open>case4_r\<close>.\<close>

definition case4_l :: "u32 \<Rightarrow> u32 \<Rightarrow> 'a rbtree_scheme \<Rightarrow> ((int + u32 \<times> u32) \<times> 'a rbtree_scheme) option" where
  "case4_l node p s = do {
     s \<leftarrow> link node p s;
     s \<leftarrow> rotate_left node p (IS_BLACK OR IS_LEFT) s;
     s \<leftarrow> root_if node s;
     r \<leftarrow> fld right node s;
     s \<leftarrow> blacken r s;
     Some (Inl 0, now_stable s)
   }"

definition case4_r :: "u32 \<Rightarrow> 'a rbtree_scheme \<Rightarrow> ((int + u32 \<times> u32) \<times> 'a rbtree_scheme) option" where
  "case4_r node s = do {
     z \<leftarrow> fld parent node s;
     s \<leftarrow> link node z s;
     s \<leftarrow> rotate_right node z IS_BLACK s;
     s \<leftarrow> root_if node s;
     l \<leftarrow> fld left node s;
     s \<leftarrow> blacken l s;
     Some (Inl 0, now_stable s)
   }"

text \<open>
  One turn of the loop that restores the black heights: the subtree at \<open>child\<close>, below \<open>p\<close>, is one black
  node short. \<open>node\<close> is its sibling, which the first part makes black.
\<close>

definition del_left_black :: "u32 \<Rightarrow> u32 \<Rightarrow> 'a rbtree_scheme \<Rightarrow> ((int + u32 \<times> u32) \<times> 'a rbtree_scheme) option" where
  "del_left_black node p s = do {
     r \<leftarrow> fld right node s;
     rr \<leftarrow> red_ptr r s;
     if rr then case4_l node p s
     else do {
       l \<leftarrow> fld left node s;
       lr \<leftarrow> red_ptr l s;
       if \<not> lr then do {
         pp \<leftarrow> fld parent p s;
         s \<leftarrow> redden node s;
         Some (Inr (p, pp), s)
       } else do {
         s \<leftarrow> link1 l node s;
         s \<leftarrow> rotate_right l node 0 s;
         case4_l l p s
       }
     }
   }"

definition del_left :: "u32 \<Rightarrow> 'a rbtree_scheme \<Rightarrow> ((int + u32 \<times> u32) \<times> 'a rbtree_scheme) option" where
  "del_left p s = do {
     node \<leftarrow> fld right p s;
     m \<leftarrow> fld meta node s;
     (node, s) \<leftarrow> (if m AND IS_BLACK = 0 then do {
         zp \<leftarrow> fld parent p s;
         s \<leftarrow> (if zp \<noteq> 0 then link1 node p s else Some (s\<lparr>root := node\<rparr>));
         s \<leftarrow> rotate_left node p IS_LEFT s;
         node \<leftarrow> fld right p s;
         Some (node, s)
       } else Some (node, s));
     del_left_black node p s
   }"

definition del_right_black :: "u32 \<Rightarrow> u32 \<Rightarrow> 'a rbtree_scheme \<Rightarrow> ((int + u32 \<times> u32) \<times> 'a rbtree_scheme) option" where
  "del_right_black node p s = do {
     l \<leftarrow> fld left node s;
     lr \<leftarrow> red_ptr l s;
     if lr then case4_r node s
     else do {
       r \<leftarrow> fld right node s;
       rr \<leftarrow> red_ptr r s;
       if \<not> rr then do {
         pp \<leftarrow> fld parent p s;
         s \<leftarrow> redden node s;
         Some (Inr (p, pp), s)
       } else do {
         s \<leftarrow> link1 r node s;
         s \<leftarrow> rotate_left r node IS_LEFT s;
         case4_r r s
       }
     }
   }"

definition del_right :: "u32 \<Rightarrow> 'a rbtree_scheme \<Rightarrow> ((int + u32 \<times> u32) \<times> 'a rbtree_scheme) option" where
  "del_right p s = do {
     node \<leftarrow> fld left p s;
     m \<leftarrow> fld meta node s;
     (node, s) \<leftarrow> (if m AND IS_BLACK = 0 then do {
         s \<leftarrow> link node p s;
         s \<leftarrow> rotate_right node p 0 s;
         s \<leftarrow> root_if node s;
         node \<leftarrow> fld left p s;
         Some (node, s)
       } else Some (node, s));
     del_right_black node p s
   }"

definition del_step :: "u32 \<Rightarrow> u32 \<Rightarrow> 'a rbtree_scheme \<Rightarrow> ((int + u32 \<times> u32) \<times> 'a rbtree_scheme) option" where
  "del_step child p s = do {
     red \<leftarrow> red_ptr child s;
     if p \<noteq> 0 \<and> \<not> red then do {
       m \<leftarrow> (if child \<noteq> 0 then fld meta child s else Some 0);
       l \<leftarrow> fld left p s;
       if child \<noteq> 0 \<and> m AND IS_LEFT \<noteq> 0 \<or> child = 0 \<and> l = 0 then del_left p s else del_right p s
     } else do {
       s \<leftarrow> (if child \<noteq> 0 then blacken child s else Some s);
       Some (Inl 0, now_stable s)
     }
   }"

partial_function (option) del_loop :: "u32 \<Rightarrow> u32 \<Rightarrow> 'a rbtree_scheme \<Rightarrow> (int \<times> 'a rbtree_scheme) option" where
  [code]: "del_loop child p s = do {
     (r, s) \<leftarrow> del_step child p s;
     case r of Inl v \<Rightarrow> Some (v, s) | Inr (c, q) \<Rightarrow> del_loop c q s
   }"

definition remove_node :: "'h allocator \<Rightarrow> u32 \<Rightarrow> 'h rbstate \<Rightarrow> (int \<times> 'h rbstate) option" where
  "remove_node al node s = do {
     s \<leftarrow> swap_successor node (now_unstable s);
     (r, s) \<leftarrow> unlink_node al node s;
     case r of Inl v \<Rightarrow> Some (v, s)
     | Inr (child, p) \<Rightarrow> do {
         m \<leftarrow> fld meta node s;
         s \<leftarrow> free_node al node s;
         if m AND IS_BLACK = 0 then Some (0, now_stable s) else del_loop child p s
       }
   }"

section \<open>Ranges\<close>

definition rb_get :: "u32 \<Rightarrow> 'a rbtree_scheme \<Rightarrow> u32 option" where
  "rb_get addr s = do {
     node \<leftarrow> find_addr addr s;
     if node \<noteq> 0 then fld data node s else Some 0
   }"

text \<open>The value returned, \<open>val\<close> and \<open>end\<close>.\<close>

partial_function (option) get_end_from :: "u32 \<Rightarrow> u32 \<Rightarrow> u32 \<Rightarrow> 'a rbtree_scheme \<Rightarrow> (int \<times> u32 \<times> u32) option" where
  [code]: "get_end_from addr node next s = (if node = 0 then
       if next \<noteq> 0 then do {
         e \<leftarrow> fld start next s;
         Some (0, 0, e)
       } else Some (0, 0, - 1)
     else do {
       st \<leftarrow> fld start node s;
       en \<leftarrow> fld stop node s;
       if st \<le> addr \<and> addr < en then do {
         d \<leftarrow> fld data node s;
         Some (1, d, en)
       } else if en \<le> addr then do {
         r \<leftarrow> fld right node s;
         get_end_from addr r next s
       } else do {
         l \<leftarrow> fld left node s;
         get_end_from addr l node s
       }
     })"

definition rb_get_end :: "u32 \<Rightarrow> 'a rbtree_scheme \<Rightarrow> (int \<times> u32 \<times> u32) option" where
  "rb_get_end addr s = get_end_from addr (root s) 0 s"

text \<open>
  The search at the head of \<open>rb_set\<close> and of \<open>rb_unset\<close>: the node that starts at \<open>st\<close>, the last node that starts
  before it and the first that starts after it.
\<close>

partial_function (option) seek :: "u32 \<Rightarrow> u32 \<Rightarrow> u32 \<Rightarrow> u32 \<Rightarrow> 'a rbtree_scheme \<Rightarrow> (u32 \<times> u32 \<times> u32) option" where
  [code]: "seek st node prev lst s = (if node = 0 then Some (0, prev, lst) else do {
     ns \<leftarrow> fld start node s;
     if ns < st then do {
       r \<leftarrow> fld right node s;
       seek st r node lst s
     } else if ns = st then do {
       l \<leftarrow> fld left node s;
       prev \<leftarrow> (if l \<noteq> 0 then descend right l s else Some prev);
       r \<leftarrow> fld right node s;
       lst \<leftarrow> (if r \<noteq> 0 then descend left r s else Some lst);
       Some (node, prev, lst)
     } else do {
       l \<leftarrow> fld left node s;
       seek st l prev node s
     }
   })"

text \<open>The loop that removes the nodes from \<open>last\<close> on that lie before \<open>en\<close>.\<close>

partial_function (option) sweep :: "'h allocator \<Rightarrow> u32 \<Rightarrow> u32 \<Rightarrow> 'h rbstate \<Rightarrow> (u32 \<times> 'h rbstate) option" where
  [code]: "sweep al en lst s = (if lst = 0 then Some (0, s) else do {
     ls \<leftarrow> fld start lst s;
     le \<leftarrow> fld stop lst s;
     if ls < en \<and> le \<le> en then do {
       next \<leftarrow> succ_node lst s;
       (r, s) \<leftarrow> remove_node al lst s;
       sweep al en next s
     } else Some (lst, s)
   })"

definition starts_before :: "u32 \<Rightarrow> u32 \<Rightarrow> 'a rbtree_scheme \<Rightarrow> bool option" where
  "starts_before en lst s = (if lst = 0 then Some False else do {
     ls \<leftarrow> fld start lst s;
     Some (ls < en)
   })"

text \<open>\<open>last && last->start <= end && last->data == data\<close>\<close>

definition joins :: "u32 \<Rightarrow> u32 \<Rightarrow> u32 \<Rightarrow> 'a rbtree_scheme \<Rightarrow> bool option" where
  "joins en d lst s = (if lst = 0 then Some False else do {
     ls \<leftarrow> fld start lst s;
     ld \<leftarrow> fld data lst s;
     Some (ls \<le> en \<and> ld = d)
   })"

definition cut_start :: "u32 \<Rightarrow> u32 \<Rightarrow> 'a rbtree_scheme \<Rightarrow> 'a rbtree_scheme option" where
  "cut_start en lst s = do {
     b \<leftarrow> starts_before en lst s;
     if b then set_fld (start_update (\<lambda>_. en)) lst s else Some s
   }"

text \<open>\<open>rb_set\<close>, the range continues the node \<open>prev\<close> before it.\<close>

definition set_merge_prev :: "'h allocator \<Rightarrow> u32 \<Rightarrow> u32 \<Rightarrow> u32 \<Rightarrow> u32 \<Rightarrow> u32 \<Rightarrow> 'h rbstate \<Rightarrow> (int \<times> 'h rbstate) option" where
  "set_merge_prev al en d node prev lst s = do {
     pe \<leftarrow> fld stop prev s;
     if en \<le> pe then Some (0, s)
     else do {
       ne \<leftarrow> (if node \<noteq> 0 then fld stop node s else Some 0);
       if node \<noteq> 0 \<and> en < ne then do {
         s \<leftarrow> set_fld (start_update (\<lambda>_. en)) node s;
         s \<leftarrow> set_fld (stop_update (\<lambda>_. en)) prev s;
         Some (0, s)
       } else if node \<noteq> 0 \<and> ne = en then do {
         (r, s) \<leftarrow> remove_node al node s;
         s \<leftarrow> set_fld (stop_update (\<lambda>_. en)) prev s;
         Some (0, s)
       } else do {
         (r, s) \<leftarrow> (if node \<noteq> 0 then remove_node al node s else Some (0, s));
         (lst, s) \<leftarrow> sweep al en lst s;
         j \<leftarrow> joins en d lst s;
         if j then do {
           le \<leftarrow> fld stop lst s;
           s \<leftarrow> set_fld (stop_update (\<lambda>_. le)) prev s;
           (r, s) \<leftarrow> remove_node al lst s;
           Some (0, s)
         } else do {
           s \<leftarrow> cut_start en lst s;
           s \<leftarrow> set_fld (stop_update (\<lambda>_. en)) prev s;
           Some (0, s)
         }
       }
     }
   }"

text \<open>\<open>rb_set\<close>, the range lies inside the node \<open>prev\<close>, which is split in three.\<close>

definition set_split :: "'h allocator \<Rightarrow> u32 \<Rightarrow> u32 \<Rightarrow> u32 \<Rightarrow> u32 \<Rightarrow> u32 \<Rightarrow> 'h rbstate \<Rightarrow> (int \<times> 'h rbstate) option" where
  "set_split al st en d prev lst s = do {
     r \<leftarrow> fld right prev s;
     pe \<leftarrow> fld stop prev s;
     pd \<leftarrow> fld data prev s;
     (ret, s) \<leftarrow> add_range_next_to al (if r \<noteq> 0 then lst else prev) en pe pd s;
     (ret, s) \<leftarrow> (if ret \<noteq> 0 then Some (ret, s) else do {
         r \<leftarrow> fld right prev s;
         next \<leftarrow> (if r \<noteq> 0 then succ_node prev s else Some prev);
         add_range_next_to al next st en d s
       });
     s \<leftarrow> set_fld (stop_update (\<lambda>_. st)) prev s;
     Some (ret, s)
   }"

text \<open>\<open>rb_set\<close>, a node starts where the range starts: it is cut, or overwritten and extended.\<close>

definition set_node :: "'h allocator \<Rightarrow> u32 \<Rightarrow> u32 \<Rightarrow> u32 \<Rightarrow> u32 \<Rightarrow> u32 \<Rightarrow> 'h rbstate \<Rightarrow> (int \<times> 'h rbstate) option" where
  "set_node al st en d node lst s = do {
     ne \<leftarrow> fld stop node s;
     nd \<leftarrow> fld data node s;
     if en \<le> ne \<and> nd = d then Some (0, s)
     else if en < ne then do {
       r \<leftarrow> fld right node s;
       (ret, s) \<leftarrow> add_range_next_to al (if r \<noteq> 0 then lst else node) en ne nd s;
       s \<leftarrow> set_fld (stop_update (\<lambda>_. en)) node s;
       s \<leftarrow> set_fld (data_update (\<lambda>_. d)) node s;
       Some (ret, s)
     } else do {
       (lst, s) \<leftarrow> sweep al en lst s;
       j \<leftarrow> joins en d lst s;
       if j then do {
         (r, s) \<leftarrow> remove_node al node s;
         s \<leftarrow> set_fld (start_update (\<lambda>_. st)) lst s;
         Some (0, s)
       } else do {
         s \<leftarrow> cut_start en lst s;
         ne \<leftarrow> fld stop node s;
         s \<leftarrow> (if ne < en then set_fld (stop_update (\<lambda>_. en)) node s else Some s);
         s \<leftarrow> set_fld (data_update (\<lambda>_. d)) node s;
         Some (0, s)
       }
     }
   }"

text \<open>\<open>rb_set\<close>, no node starts where the range starts.\<close>

definition set_fresh :: "'h allocator \<Rightarrow> u32 \<Rightarrow> u32 \<Rightarrow> u32 \<Rightarrow> u32 \<Rightarrow> u32 \<Rightarrow> 'h rbstate \<Rightarrow> (int \<times> 'h rbstate) option" where
  "set_fresh al st en d prev lst s = do {
     (lst, s) \<leftarrow> sweep al en lst s;
     if lst = 0 then add_range_next_to al prev st en d s
     else do {
       j \<leftarrow> joins en d lst s;
       if j then do {
         s \<leftarrow> set_fld (start_update (\<lambda>_. st)) lst s;
         Some (0, s)
       } else do {
         s \<leftarrow> cut_start en lst s;
         l \<leftarrow> fld left lst s;
         next \<leftarrow> (if l \<noteq> 0 then pred_node lst s else Some lst);
         add_range_next_to al next st en d s
       }
     }
   }"

definition rb_set :: "'h allocator \<Rightarrow> u32 \<Rightarrow> u32 \<Rightarrow> u32 \<Rightarrow> 'h rbstate \<Rightarrow> (int \<times> 'h rbstate) option" where
  "rb_set al st en d s = (if root s = 0 then add_range al st en d s else do {
     (node, prev, lst) \<leftarrow> seek st (root s) 0 0 s;
     pe \<leftarrow> (if prev \<noteq> 0 then fld stop prev s else Some 0);
     pd \<leftarrow> (if prev \<noteq> 0 then fld data prev s else Some 0);
     if prev \<noteq> 0 \<and> st \<le> pe \<and> pd = d then set_merge_prev al en d node prev lst s
     else if prev \<noteq> 0 \<and> st < pe \<and> en < pe then set_split al st en d prev lst s
     else do {
       s \<leftarrow> (if prev \<noteq> 0 \<and> st < pe then set_fld (stop_update (\<lambda>_. st)) prev s else Some s);
       if node \<noteq> 0 then set_node al st en d node lst s else set_fresh al st en d prev lst s
     }
   })"

definition unset_tail :: "'h allocator \<Rightarrow> u32 \<Rightarrow> u32 \<Rightarrow> 'h rbstate \<Rightarrow> (int \<times> 'h rbstate) option" where
  "unset_tail al en next s = do {
     (next, s) \<leftarrow> sweep al en next s;
     s \<leftarrow> cut_start en next s;
     Some (0, s)
   }"

definition rb_unset :: "'h allocator \<Rightarrow> u32 \<Rightarrow> u32 \<Rightarrow> 'h rbstate \<Rightarrow> (int \<times> 'h rbstate) option" where
  "rb_unset al st en s = (if root s = 0 then Some (0, s) else do {
     (node, prev, next) \<leftarrow> seek st (root s) 0 0 s;
     if node \<noteq> 0 then do {
       ne \<leftarrow> fld stop node s;
       if en < ne then do {
         s \<leftarrow> set_fld (start_update (\<lambda>_. en)) node s;
         Some (0, s)
       } else do {
         (r, s) \<leftarrow> remove_node al node s;
         if ne = en then Some (0, s) else unset_tail al en next s
       }
     } else do {
       pe \<leftarrow> (if prev \<noteq> 0 then fld stop prev s else Some 0);
       if prev \<noteq> 0 \<and> st < pe \<and> en < pe then do {
         r \<leftarrow> fld right prev s;
         pd \<leftarrow> fld data prev s;
         (ret, s) \<leftarrow> add_range_next_to al (if r \<noteq> 0 then next else prev) en pe pd s;
         s \<leftarrow> set_fld (stop_update (\<lambda>_. st)) prev s;
         Some (ret, s)
       } else if prev \<noteq> 0 \<and> st < pe \<and> pe = en then do {
         s \<leftarrow> set_fld (stop_update (\<lambda>_. st)) prev s;
         Some (0, s)
       } else unset_tail al en next s
     }
   })"

end
