(* ===== verification/RbShape.thy ===== *)
theory RbShape
  imports Rbtree
begin

text \<open>
  The pointer structure of \<open>Rbtree\<close> as an algebraic tree. \<open>shape\<close> relates the memory of nodes to a tree whose entries
  carry the addresses; \<open>around\<close> does so for a path from a subtree up to the root, and \<open>zip_at\<close> for a tree
  split into a subtree and its path. Each rotation and recolouring of the code is an
  operation on that split.
\<close>

section \<open>Trees and paths\<close>

datatype entry = Entry (ptr: u32) (first: u32) (bound: u32) (val: u32)

datatype ptree = Tip | Node bool ptree entry ptree

datatype step = InLeft bool entry ptree | InRight bool ptree entry

type_synonym path = "step list"

fun inorder :: "ptree \<Rightarrow> entry list" where
  "inorder Tip = []"
| "inorder (Node b l x r) = inorder l @ x # inorder r"

fun rootp :: "ptree \<Rightarrow> u32" where
  "rootp Tip = 0"
| "rootp (Node b l x r) = ptr x"

fun black :: "ptree \<Rightarrow> bool" where
  "black Tip = True"
| "black (Node b l x r) = b"

fun plug :: "ptree \<Rightarrow> path \<Rightarrow> ptree" where
  "plug t [] = t"
| "plug t (InLeft b x r # c) = plug (Node b t x r) c"
| "plug t (InRight b l x # c) = plug (Node b l x t) c"

fun before :: "path \<Rightarrow> entry list" where
  "before [] = []"
| "before (InLeft b x r # c) = before c"
| "before (InRight b l x # c) = before c @ inorder l @ [x]"

fun after :: "path \<Rightarrow> entry list" where
  "after [] = []"
| "after (InLeft b x r # c) = x # inorder r @ after c"
| "after (InRight b l x # c) = after c"

fun up :: "path \<Rightarrow> u32" where
  "up [] = 0"
| "up (InLeft b x r # c) = ptr x"
| "up (InRight b l x # c) = ptr x"

fun side :: "bool \<Rightarrow> path \<Rightarrow> bool" where
  "side sd [] = sd"
| "side sd (InLeft b x r # c) = True"
| "side sd (InRight b l x # c) = False"

lemma inorder_plug [simp]: "inorder (plug t c) = before c @ inorder t @ after c"
  by (induction t c rule: plug.induct) simp_all

lemma plug_append: "plug t (c @ d) = plug (plug t c) d"
  by (induction t c rule: plug.induct) simp_all

lemma before_append [simp]: "before (c @ d) = before d @ before c"
  by (induction c rule: before.induct) simp_all

lemma after_append [simp]: "after (c @ d) = after c @ after d"
  by (induction c rule: after.induct) simp_all

abbreviation addrs :: "entry list \<Rightarrow> u32 set" where
  "addrs xs \<equiv> ptr ` set xs"

section \<open>The memory of a tree\<close>

definition flags :: "bool \<Rightarrow> bool \<Rightarrow> u8" where
  "flags b l = (if b then IS_BLACK else 0) OR (if l then IS_LEFT else 0)"

lemma flags_simps [simp]:
  "flags b l AND IS_BLACK = 0 \<longleftrightarrow> \<not> b" "flags b l AND IS_LEFT = 0 \<longleftrightarrow> \<not> l"
  "flags b l OR IS_BLACK = flags True l" "flags b l AND NOT IS_BLACK = flags False l"
  "flags b l OR IS_LEFT = flags b True" "flags b l AND NOT IS_LEFT = flags b False"
  by (cases b; cases l; simp add: flags_def IS_LEFT_def IS_BLACK_def)+

lemma flags_consts: "0 = flags False False" "IS_LEFT = flags False True" "IS_BLACK = flags True False"
    "IS_BLACK OR IS_LEFT = flags True True"
  by (simp_all add: flags_def)

definition cell :: "bool \<Rightarrow> bool \<Rightarrow> u32 \<Rightarrow> u32 \<Rightarrow> entry \<Rightarrow> u32 \<Rightarrow> rbnode" where
  "cell b l pa lp x rp = \<lparr>left = lp, right = rp, parent = pa, start = first x, stop = bound x, data = val x, meta = flags b l\<rparr>"

lemma cell_simps [simp]:
  "left (cell b l pa lp x rp) = lp" "right (cell b l pa lp x rp) = rp" "parent (cell b l pa lp x rp) = pa"
  "start (cell b l pa lp x rp) = first x" "stop (cell b l pa lp x rp) = bound x" "data (cell b l pa lp x rp) = val x"
  "meta (cell b l pa lp x rp) = flags b l"
  "left_update f (cell b l pa lp x rp) = cell b l pa (f lp) x rp"
  "right_update f (cell b l pa lp x rp) = cell b l pa lp x (f rp)"
  "parent_update f (cell b l pa lp x rp) = cell b l (f pa) lp x rp"
  by (simp_all add: cell_def)

lemma meta_cell: "f (flags b l) = flags b' l' \<Longrightarrow> meta_update f (cell b l pa lp x rp) = cell b' l' pa lp x rp"
  by (simp add: cell_def)

lemma meta_cell_simps [simp]:
  "meta_update (\<lambda>_. flags b' l') (cell b l pa lp x rp) = cell b' l' pa lp x rp"
  "meta_update (\<lambda>m. m OR IS_BLACK) (cell b l pa lp x rp) = cell True l pa lp x rp"
  "meta_update (\<lambda>m. m AND NOT IS_BLACK) (cell b l pa lp x rp) = cell False l pa lp x rp"
  "meta_update (\<lambda>m. m OR IS_LEFT) (cell b l pa lp x rp) = cell b True pa lp x rp"
  "meta_update (\<lambda>m. m AND NOT IS_LEFT) (cell b l pa lp x rp) = cell b False pa lp x rp"
  by (simp_all add: meta_cell)

type_synonym store = "u32 \<Rightarrow> rbnode option"

fun shape :: "store \<Rightarrow> u32 \<Rightarrow> bool \<Rightarrow> ptree \<Rightarrow> bool" where
  "shape h pa sd Tip = True"
| "shape h pa sd (Node b l x r) = (ptr x \<noteq> 0 \<and> h (ptr x) = Some (cell b sd pa (rootp l) x (rootp r)) \<and>
     shape h (ptr x) True l \<and> shape h (ptr x) False r)"

fun around :: "store \<Rightarrow> bool \<Rightarrow> u32 \<Rightarrow> path \<Rightarrow> bool" where
  "around h sd q [] = True"
| "around h sd q (InLeft b x r # c) = (ptr x \<noteq> 0 \<and> h (ptr x) = Some (cell b (side sd c) (up c) q x (rootp r)) \<and>
     shape h (ptr x) False r \<and> around h sd (ptr x) c)"
| "around h sd q (InRight b l x # c) = (ptr x \<noteq> 0 \<and> h (ptr x) = Some (cell b (side sd c) (up c) (rootp l) x q) \<and>
     shape h (ptr x) True l \<and> around h sd (ptr x) c)"

lemma shape_plug: "shape h 0 sd (plug t c) \<longleftrightarrow> shape h (up c) (side sd c) t \<and> around h sd (rootp t) c"
  by (induction t c rule: plug.induct) auto

lemma shape_cong: "(\<And>p. p \<in> addrs (inorder t) \<Longrightarrow> h' p = h p) \<Longrightarrow> shape h' pa sd t = shape h pa sd t"
  by (induction t arbitrary: pa sd) (auto simp: image_Un)

lemma around_cong:
  "(\<And>p. p \<in> addrs (before c) \<union> addrs (after c) \<Longrightarrow> h' p = h p) \<Longrightarrow> around h' sd q c = around h sd q c"
proof (induction c arbitrary: q)
  case (Cons f c)
  have "around h' sd p c = around h sd p c" for p
    by (rule Cons.IH, rule Cons.prems, cases f) auto
  moreover have "shape h' pa b t = shape h pa b t" if "addrs (inorder t) \<subseteq> addrs (before (f # c)) \<union> addrs (after (f # c))" for pa b t
    by (rule shape_cong, rule Cons.prems) (use that in blast)
  ultimately show ?case using Cons.prems by (cases f) (auto simp: image_Un)
qed simp

lemma shape_upd [simp]: "q \<notin> addrs (inorder t) \<Longrightarrow> shape (h(q := v)) pa sd t = shape h pa sd t"
  by (rule shape_cong) auto

lemma around_upd [simp]:
  "q \<notin> addrs (before c) \<Longrightarrow> q \<notin> addrs (after c) \<Longrightarrow> around (h(q := v)) sd p c = around h sd p c"
  by (rule around_cong) auto

text \<open>The first node of a subtree under another parent or on another side.\<close>

lemma shape_move:
  assumes "shape h pa sd (Node b l x r)" "distinct (map ptr (inorder (Node b l x r)))"
  shows "shape (h(ptr x := Some (cell b' sd' pa' (rootp l) x (rootp r)))) pa' sd' (Node b' l x r)"
  using assms by (auto simp: image_iff)

definition zip_at :: "store \<Rightarrow> u32 \<Rightarrow> ptree \<Rightarrow> path \<Rightarrow> bool" where
  "zip_at h q t c \<longleftrightarrow> (\<exists>sd. shape h (up c) (side sd c) t \<and> around h sd (rootp t) c) \<and>
     distinct (map ptr (before c @ inorder t @ after c)) \<and> q = rootp (plug t c)"

lemma rootp_plug: "c \<noteq> [] \<Longrightarrow> rootp (plug t c) = rootp (plug t' c)"
proof (induction t c arbitrary: t' rule: plug.induct)
  case (2 t b x r c)
  show ?case using "2.IH" [of "Node b t' x r"] by (cases "c = []") simp_all
next
  case (3 t b l x c)
  show ?case using "3.IH" [of "Node b l x t'"] by (cases "c = []") simp_all
qed simp

section \<open>Steps of the code on a split tree\<close>

lemma fld_store [simp]: "nodes s p = Some n \<Longrightarrow> fld f p s = Some (f n)"
  by (simp add: fld_def)

lemma set_fld_store [simp]: "nodes s p = Some n \<Longrightarrow> set_fld f p s = Some (s\<lparr>nodes := (nodes s)(p \<mapsto> f n)\<rparr>)"
  by (simp add: set_fld_def)

lemma nodes_inject [simp]: "s\<lparr>nodes := h\<rparr> = s\<lparr>nodes := h'\<rparr> \<longleftrightarrow> h = h'" for s :: "'a rbtree_scheme"
  by (metis rbtree.select_convs(1) rbtree.surjective rbtree.update_convs(1))

lemma root_before_nodes [simp]: "s\<lparr>root := q, nodes := h\<rparr> = s\<lparr>nodes := h, root := q\<rparr>" for s :: "'a rbtree_scheme"
  by simp

lemma unstable_before_nodes [simp]: "s\<lparr>is_unstable := i, nodes := h\<rparr> = s\<lparr>nodes := h, is_unstable := i\<rparr>" for s :: "'a rbtree_scheme"
  by simp

text \<open>Linking another node to the parent.\<close>

lemma link1_around:
  assumes "around h sd p c" "c \<noteq> []" "h z = Some (cell b (side sd c) (up c) lp x rp)" "nodes s = h"
    "distinct (map ptr (before c @ after c))"
  shows "\<exists>h'. link1 y z s = Some (s\<lparr>nodes := h'\<rparr>) \<and> dom h' = dom h \<and> around h' sd y c \<and> (\<forall>p. p \<noteq> up c \<longrightarrow> h' p = h p)"
proof (cases c)
  case Nil
  then show ?thesis using assms(2) by simp
next
  case (Cons f d)
  show ?thesis
  proof (cases f)
    case (InLeft b' x' r)
    then have "h (ptr x') = Some (cell b' (side sd d) (up d) p x' (rootp r))" using assms(1) Cons by simp
    then show ?thesis using assms Cons InLeft by (auto simp: link1_def image_iff)
  next
    case (InRight b' l x')
    then have "h (ptr x') = Some (cell b' (side sd d) (up d) (rootp l) x' p)" using assms(1) Cons by simp
    then show ?thesis using assms Cons InRight by (auto simp: link1_def image_iff)
  qed
qed

lemma rotate_left_shape:
  assumes "shape h pa sd (Node b a z (Node b' l y r))" "distinct (map ptr (inorder (Node b a z (Node b' l y r))))"
  shows "\<exists>h'. rotate_left (ptr y) (ptr z) (flags bm True) (s\<lparr>nodes := h\<rparr>) = Some (s\<lparr>nodes := h'\<rparr>) \<and> dom h' = dom h \<and>
    shape h' pa sd (Node b (Node bm a z l) y r) \<and> (\<forall>p. p \<notin> addrs (inorder (Node b a z (Node b' l y r))) \<longrightarrow> h' p = h p)"
proof (cases l)
  case Tip
  then show ?thesis using assms by (auto simp: rotate_left_def image_iff)
next
  case (Node bl ll xl rl)
  then show ?thesis using assms by (auto simp: rotate_left_def image_iff)
qed

lemma rotate_right_shape:
  assumes "shape h pa sd (Node b (Node b' l y r) z a)" "distinct (map ptr (inorder (Node b (Node b' l y r) z a)))"
  shows "\<exists>h'. rotate_right (ptr y) (ptr z) (flags bm False) (s\<lparr>nodes := h\<rparr>) = Some (s\<lparr>nodes := h'\<rparr>) \<and> dom h' = dom h \<and>
    shape h' pa sd (Node b l y (Node bm r z a)) \<and> (\<forall>p. p \<notin> addrs (inorder (Node b (Node b' l y r) z a)) \<longrightarrow> h' p = h p)"
proof (cases r)
  case Tip
  then show ?thesis using assms by (auto simp: rotate_right_def image_iff)
next
  case (Node bl ll xl rl)
  then show ?thesis using assms by (auto simp: rotate_right_def image_iff)
qed

text \<open>Replacing the subtree of a split tree by another with the same entries, after its link from above has been made.\<close>

lemma zip_replace:
  assumes "shape h (up c) (side sd c) t" "around h1 sd (rootp t) c" "distinct (map ptr (before c @ inorder t' @ after c))"
    "inorder t = inorder t'" "\<forall>p. p \<notin> addrs (inorder t') \<longrightarrow> h p = h1 p"
  shows "zip_at h (rootp (plug t c)) t c"
proof -
  have "(addrs (before c) \<union> addrs (after c)) \<inter> addrs (inorder t') = {}" using assms(3) by auto
  then have "around h sd (rootp t) c = around h1 sd (rootp t) c" using assms(5) by (intro around_cong) blast
  then show ?thesis using assms(1-4) unfolding zip_at_def by auto
qed

lemma up_not_0: "around h sd q c \<Longrightarrow> c \<noteq> [] \<Longrightarrow> up c \<noteq> 0"
  by (cases "(h, sd, q, c)" rule: around.cases) auto

lemma up_in: "c \<noteq> [] \<Longrightarrow> up c \<in> addrs (before c) \<union> addrs (after c)"
  by (cases c rule: up.cases) auto

lemma zip_facts:
  assumes "zip_at h q t c"
  obtains sd where "shape h (up c) (side sd c) t" "around h sd (rootp t) c" "distinct (map ptr (before c @ inorder t @ after c))"
    "distinct (map ptr (inorder t))" "distinct (map ptr (before c @ after c))" "q = rootp (plug t c)"
    "c \<noteq> [] \<Longrightarrow> up c \<notin> addrs (inorder t)"
  using assms up_in [of c] unfolding zip_at_def by fastforce

lemma zip_distinct: "zip_at h q t c \<Longrightarrow> distinct (map ptr (before c @ inorder t @ after c))"
  and zip_distinct_sub: "zip_at h q t c \<Longrightarrow> distinct (map ptr (inorder t))"
  and zip_root: "zip_at h q t c \<Longrightarrow> q = rootp (plug t c)"
  by (simp_all add: zip_at_def)

lemma zip_link1:
  assumes "zip_at (nodes s) q (Node b l x r) c" "c \<noteq> []"
  obtains h sd where "link1 y (ptr x) s = Some (s\<lparr>nodes := h\<rparr>)" "dom h = dom (nodes s)" "around h sd y c"
    "shape h (up c) (side sd c) (Node b l x r)"
proof -
  obtain sd where z: "shape (nodes s) (up c) (side sd c) (Node b l x r)" "around (nodes s) sd (ptr x) c"
    "distinct (map ptr (before c @ after c))" "up c \<notin> addrs (inorder (Node b l x r))"
    by (rule zip_facts [OF assms(1)]) (use assms(2) in auto)
  from z(1) have "nodes s (ptr x) = Some (cell b (side sd c) (up c) (rootp l) x (rootp r))" by simp
  from link1_around [OF z(2) assms(2) this refl z(3), of y] obtain h where
    h: "link1 y (ptr x) s = Some (s\<lparr>nodes := h\<rparr>)" "dom h = dom (nodes s)" "around h sd y c" "\<forall>p. p \<noteq> up c \<longrightarrow> h p = nodes s p" by blast
  have "h p = nodes s p" if "p \<in> addrs (inorder (Node b l x r))" for p using h(4) z(4) that by metis
  then have "shape h (up c) (side sd c) (Node b l x r)" using z(1) by (simp only: shape_cong [of "Node b l x r" h "nodes s"])
  then show thesis using that h by blast
qed

text \<open>
  A turn of the node \<open>x\<close>, for a rotation \<open>rot\<close> that takes the tree \<open>t\<close> at \<open>x\<close> to \<open>u\<close>: below a parent, at the root, and
  with the code that handles both.
\<close>

definition turns :: "('a rbtree_scheme \<Rightarrow> 'a rbtree_scheme option) \<Rightarrow> 'a rbtree_scheme \<Rightarrow> ptree \<Rightarrow> ptree \<Rightarrow> bool" where
  "turns rot s t u \<longleftrightarrow> inorder u = inorder t \<and> (\<forall>h pa sd. shape h pa sd t \<longrightarrow> (\<exists>h'. rot (s\<lparr>nodes := h\<rparr>) = Some (s\<lparr>nodes := h'\<rparr>) \<and>
     dom h' = dom h \<and> shape h' pa sd u \<and> (\<forall>p. p \<notin> addrs (inorder t) \<longrightarrow> h' p = h p)))"

lemma turnsE:
  assumes "turns rot s t u" "shape h pa sd t"
  obtains h' where "rot (s\<lparr>nodes := h\<rparr>) = Some (s\<lparr>nodes := h'\<rparr>)" "dom h' = dom h" "shape h' pa sd u"
    "\<forall>p. p \<notin> addrs (inorder u) \<longrightarrow> h' p = h p"
  using assms unfolding turns_def by metis

lemma turn1:
  assumes "zip_at (nodes s) q t c" "c \<noteq> []" "turns rot s t u" "t = Node b l x r"
  obtains s1 h where "link1 (rootp u) (ptr x) s = Some s1" "rot s1 = Some (s\<lparr>nodes := h\<rparr>)"
    "dom h = dom (nodes s)" "zip_at h q u c"
proof -
  obtain h1 sd where 1: "link1 (rootp u) (ptr x) s = Some (s\<lparr>nodes := h1\<rparr>)" "dom h1 = dom (nodes s)" "around h1 sd (rootp u) c"
    "shape h1 (up c) (side sd c) t" using zip_link1 [OF assms(1) [unfolded assms(4)] assms(2)] assms(4) by metis
  obtain h where 2: "rot (s\<lparr>nodes := h1\<rparr>) = Some (s\<lparr>nodes := h\<rparr>)" "dom h = dom h1"
      "shape h (up c) (side sd c) u" "\<forall>p. p \<notin> addrs (inorder u) \<longrightarrow> h p = h1 p" by (rule turnsE [OF assms(3) 1(4)])
  have i: "inorder u = inorder t" using assms(3) by (simp add: turns_def)
  have "zip_at h (rootp (plug u c)) u c"
    by (rule zip_replace [OF 2(3) 1(3) _ refl 2(4)]) (use zip_distinct [OF assms(1)] i in simp)
  then show thesis using that [OF 1(1) 2(1)] 1(2) 2(2) zip_root [OF assms(1)] rootp_plug [OF assms(2)] by metis
qed

lemma turn0:
  assumes "zip_at (nodes s) q t []" "turns rot (s\<lparr>root := p\<rparr>) t u"
  obtains h where "rot (s\<lparr>root := p\<rparr>) = Some (s\<lparr>nodes := h, root := p\<rparr>)" "dom h = dom (nodes s)" "zip_at h (rootp u) u []"
proof -
  obtain sd where 1: "shape (nodes s) 0 sd t" "distinct (map ptr (inorder t))"
    using assms(1) by (auto simp: zip_at_def)
  obtain h where 2: "rot ((s\<lparr>root := p\<rparr>)\<lparr>nodes := nodes s\<rparr>) = Some ((s\<lparr>root := p\<rparr>)\<lparr>nodes := h\<rparr>)" "dom h = dom (nodes s)"
    "shape h 0 sd u" by (rule turnsE [OF assms(2) 1(1)])
  have "inorder u = inorder t" using assms(2) by (simp add: turns_def)
  then have "zip_at h (rootp u) u []" using 1(2) 2(3) by (auto simp: zip_at_def)
  then show thesis using that 2 by simp
qed

lemma zip_parent:
  assumes "zip_at (nodes s) q (Node b l x r) c"
  shows "nodes s (ptr x) \<noteq> None" "fld parent (ptr x) s = Some (up c)" "c \<noteq> [] \<Longrightarrow> up c \<noteq> 0"
  using assms up_not_0 by (auto simp: zip_at_def)

lemma turn:
  assumes "zip_at (nodes s) (root s) t c" "turns rot s t u" "t = Node b l x r" "u = Node b' l' y r'"
  obtains s1 s2 h q where "link (ptr y) (ptr x) s = Some s1" "rot s1 = Some s2" "root_if (ptr y) s2 = Some (s\<lparr>nodes := h, root := q\<rparr>)"
    "dom h = dom (nodes s)" "zip_at h q u c"
proof (cases "c = []")
  case True
  obtain h where h: "rot s = Some (s\<lparr>nodes := h\<rparr>)" "dom h = dom (nodes s)" "zip_at h (ptr y) u []"
    using turn0 [of s "root s" t rot "root s" u] assms(1,2,4) True by auto
  have "root_if (ptr y) (s\<lparr>nodes := h\<rparr>) = Some (s\<lparr>nodes := h, root := ptr y\<rparr>)"
    using zip_parent(2) [of "s\<lparr>nodes := h\<rparr>" "ptr y" b' l' y r' "[]"] h(3) assms(4) by (simp add: root_if_def)
  moreover have "link (ptr y) (ptr x) s = Some s"
    using zip_parent(2) [OF assms(1) [unfolded assms(3)]] True by (simp add: link_def)
  ultimately show thesis using that h True by metis
next
  case False
  obtain s1 h where h: "link1 (ptr y) (ptr x) s = Some s1" "rot s1 = Some (s\<lparr>nodes := h\<rparr>)" "dom h = dom (nodes s)" "zip_at h (root s) u c"
    using turn1 [OF assms(1) False assms(2,3)] assms(4) by auto
  have "root_if (ptr y) (s\<lparr>nodes := h\<rparr>) = Some (s\<lparr>nodes := h, root := root s\<rparr>)"
    using zip_parent(2,3) [of "s\<lparr>nodes := h\<rparr>" "root s" b' l' y r' c] h(4) assms(4) False by (simp add: root_if_def)
  moreover have "link (ptr y) (ptr x) s = Some s1"
    using zip_parent(2,3) [OF assms(1) [unfolded assms(3)]] False h(1) by (simp add: link_def)
  ultimately show thesis using that h by metis
qed

lemma turns_left:
  assumes "distinct (map ptr (inorder (Node b a z (Node b' l y r))))" "m = flags bm True"
  shows "turns (rotate_left (ptr y) (ptr z) m) s (Node b a z (Node b' l y r)) (Node b (Node bm a z l) y r)"
  unfolding turns_def using rotate_left_shape [OF _ assms(1), of _ _ _ bm s] assms(2) by auto

lemma turns_right:
  assumes "distinct (map ptr (inorder (Node b (Node b' l y r) z a)))" "m = flags bm False"
  shows "turns (rotate_right (ptr y) (ptr z) m) s (Node b (Node b' l y r) z a) (Node b l y (Node bm r z a))"
  unfolding turns_def using rotate_right_shape [OF _ assms(1), of _ _ _ bm s] assms(2) by auto

end
