(* ===== verification/RbInsert.thy ===== *)
theory RbInsert
  imports RbShape
begin

text \<open>
  Red-black trees and the insertion of \<open>Rbtree\<close>: from a well-formed tree, \<open>add_range_next_to\<close> gives one with the new
  entry next to its neighbour, if the neighbour has room for a child there.
\<close>

section \<open>Red-black trees\<close>

fun bh :: "ptree \<Rightarrow> nat" where
  "bh Tip = 0"
| "bh (Node b l x r) = (if b then Suc (bh l) else bh l)"

fun ok :: "ptree \<Rightarrow> bool" where
  "ok Tip = True"
| "ok (Node b l x r) = (ok l \<and> ok r \<and> bh l = bh r \<and> (b \<or> black l \<and> black r))"

definition wf_tree :: "ptree \<Rightarrow> bool" where
  "wf_tree t \<longleftrightarrow> ok t \<and> black t"

fun parent_black :: "path \<Rightarrow> bool" where
  "parent_black [] = False"
| "parent_black (InLeft b x r # c) = b"
| "parent_black (InRight b l x # c) = b"

text \<open>A path into which a subtree of black height \<open>k\<close> fits.\<close>

fun fits :: "path \<Rightarrow> nat \<Rightarrow> bool" where
  "fits [] k = True"
| "fits (InLeft b x r # c) k = (ok r \<and> bh r = k \<and> (b \<or> black r \<and> parent_black c) \<and> fits c (if b then Suc k else k))"
| "fits (InRight b l x # c) k = (ok l \<and> bh l = k \<and> (b \<or> black l \<and> parent_black c) \<and> fits c (if b then Suc k else k))"

lemma wf_plug: "wf_tree (plug t c) \<longleftrightarrow> ok t \<and> fits c (bh t) \<and> (black t \<or> parent_black c)"
  by (induction t c rule: plug.induct) (auto simp: wf_tree_def)

definition tree_at :: "'a rbtree_scheme \<Rightarrow> ptree \<Rightarrow> bool" where
  "tree_at s t \<longleftrightarrow> zip_at (nodes s) (root s) t [] \<and> wf_tree t"

lemma zip_plug: "zip_at h q (plug t c) [] = zip_at h q t c"
  by (auto simp: zip_at_def shape_plug)

lemma zip_local:
  assumes "zip_at h q t c" "around h sd (rootp t) c" "shape h' (up c) (side sd c) u" "inorder u = inorder t" "rootp u = rootp t"
    "\<forall>p. p \<notin> addrs (inorder u) \<longrightarrow> h' p = h p"
  shows "zip_at h' q u c"
proof -
  have "zip_at h' (rootp (plug u c)) u c"
    by (rule zip_replace [OF assms(3) _ _ refl assms(6)]) (use assms(2,4,5) zip_distinct [OF assms(1)] in simp_all)
  moreover have "rootp (plug u c) = q" using zip_root [OF assms(1)] rootp_plug [of c u t] assms(5) by (cases "c = []") simp_all
  ultimately show ?thesis by simp
qed

lemma red_ptr_shape: "shape (nodes s) pa sd t \<Longrightarrow> red_ptr (rootp t) s = Some (\<not> black t)"
  by (cases t) (auto simp: red_ptr_def)

section \<open>The loop after an insertion\<close>

text \<open>What a piece of code leaves behind: the same entries in a well-formed tree.\<close>

definition rebuilt :: "'a rbtree_scheme \<Rightarrow> entry list \<Rightarrow> 'a rbtree_scheme \<Rightarrow> bool" where
  "rebuilt s xs s' \<longleftrightarrow> (\<exists>h q t. s' = now_stable (s\<lparr>nodes := h, root := q\<rparr>) \<and> dom h = dom (nodes s) \<and> tree_at s' t \<and> inorder t = xs)"

lemma rebuiltI:
  assumes "zip_at h q t c" "dom h = dom (nodes s)" "wf_tree (plug t c)" "before c @ inorder t @ after c = xs"
  shows "rebuilt s xs (now_stable (s\<lparr>nodes := h, root := q\<rparr>))"
  unfolding rebuilt_def tree_at_def using assms zip_plug [of h q t c]
  by (intro exI [of _ h] exI [of _ q] exI [of _ "plug t c"]) (simp add: now_stable_def)

lemma add_left_outer:
  assumes z: "zip_at (nodes s) (root s) (Node False (Node False l x r) p w) (InLeft True g u # c)"
    and u: "black u" and f: "ok (Node False l x r)" "ok w" "black w" "bh w = bh l" "ok u" "bh u = bh l" "fits c (Suc (bh l))"
  shows "\<exists>s'. add_step_left (ptr x) (ptr p) (ptr g) s = Some (Inl 0, s') \<and>
    rebuilt s (before c @ inorder l @ x # inorder r @ p # inorder w @ g # inorder u @ after c) s'"
proof -
  from z have z: "zip_at (nodes s) (root s) (Node True (Node False (Node False l x r) p w) g u) c" (is "zip_at _ _ ?t c")
    by (auto simp: zip_at_def)
  obtain sd where S: "shape (nodes s) (up c) (side sd c) ?t" by (rule zip_facts [OF z])
  obtain s1 s2 h q where T: "link (ptr p) (ptr g) s = Some s1" "rotate_right (ptr p) (ptr g) 0 s1 = Some s2"
    "root_if (ptr p) s2 = Some (s\<lparr>nodes := h, root := q\<rparr>)" "dom h = dom (nodes s)"
    "zip_at h q (Node True (Node False l x r) p (Node False w g u)) c"
    by (rule turn [OF z turns_right [OF zip_distinct_sub [OF z] flags_consts(1)] refl refl])
  have "red_ptr (rootp u) s = Some False" using S u red_ptr_shape [of s "ptr g" False u] by simp
  then have "add_step_left (ptr x) (ptr p) (ptr g) s = Some (Inl 0, now_stable (s\<lparr>nodes := h, root := q\<rparr>))"
    using S u T(1-3) by (simp add: add_step_left_def)
  moreover have "rebuilt s (before c @ inorder l @ x # inorder r @ p # inorder w @ g # inorder u @ after c) (now_stable (s\<lparr>nodes := h, root := q\<rparr>))"
    by (rule rebuiltI [OF T(5,4)]) (use u f in \<open>simp_all add: wf_plug\<close>)
  ultimately show ?thesis by blast
qed

lemma add_left_inner:
  assumes z: "zip_at (nodes s) (root s) (Node False w p (Node False l x r)) (InLeft True g u # c)"
    and u: "black u" and f: "ok (Node False l x r)" "ok w" "black w" "bh w = bh l" "ok u" "bh u = bh l" "fits c (Suc (bh l))"
  shows "\<exists>s'. add_step_left (ptr x) (ptr p) (ptr g) s = Some (Inl 0, s') \<and>
    rebuilt s (before c @ inorder w @ p # inorder l @ x # inorder r @ g # inorder u @ after c) s'"
proof -
  obtain s0 h0 where R: "link1 (ptr x) (ptr p) s = Some s0" "rotate_left (ptr x) (ptr p) IS_LEFT s0 = Some (s\<lparr>nodes := h0\<rparr>)" "dom h0 = dom (nodes s)"
    "zip_at h0 (root s) (Node False (Node False w p l) x r) (InLeft True g u # c)"
    using turn1 [OF z _ turns_left [OF zip_distinct_sub [OF z] flags_consts(2)] refl] by auto
  let ?s = "s\<lparr>nodes := h0\<rparr>" and ?t = "Node True (Node False (Node False w p l) x r) g u"
  from R(4) have y: "zip_at (nodes ?s) (root ?s) ?t c" by (auto simp: zip_at_def)
  obtain sd where S: "shape (nodes s) (ptr g) True (Node False w p (Node False l x r))" "shape (nodes s) (ptr g) False u"
    "nodes s (ptr g) = Some (cell True (side sd c) (up c) (ptr p) g (rootp u))"
    using z by (auto simp: zip_at_def)
  obtain sd' where S': "shape (nodes ?s) (up c) (side sd' c) ?t" by (rule zip_facts [OF y])
  obtain s1 s2 h q where T: "link (ptr x) (ptr g) ?s = Some s1" "rotate_right (ptr x) (ptr g) 0 s1 = Some s2"
    "root_if (ptr x) s2 = Some (?s\<lparr>nodes := h, root := q\<rparr>)" "dom h = dom (nodes ?s)"
    "zip_at h q (Node True (Node False w p l) x (Node False r g u)) c"
    by (rule turn [OF y turns_right [OF zip_distinct_sub [OF y] flags_consts(1)] refl refl])
  have "red_ptr (rootp u) s = Some False" using S u red_ptr_shape [of s "ptr g" False u] by simp
  then have "add_step_left (ptr x) (ptr p) (ptr g) s = Some (Inl 0, now_stable (s\<lparr>nodes := h, root := q\<rparr>))"
    using S S' u R(1,2) T(1-3) by (simp add: add_step_left_def)
  moreover have "rebuilt s (before c @ inorder w @ p # inorder l @ x # inorder r @ g # inorder u @ after c) (now_stable (s\<lparr>nodes := h, root := q\<rparr>))"
    by (rule rebuiltI [OF T(5)]) (use u f R(3) T(4) in \<open>simp_all add: wf_plug\<close>)
  ultimately show ?thesis by blast
qed

lemma add_right_outer:
  assumes z: "zip_at (nodes s) (root s) (Node False w p (Node False l x r)) (InRight True u g # c)"
    and u: "black u" and f: "ok (Node False l x r)" "ok w" "black w" "bh w = bh l" "ok u" "bh u = bh l" "fits c (Suc (bh l))"
  shows "\<exists>s'. add_step_right (ptr x) (ptr p) (ptr g) s = Some (Inl 0, s') \<and>
    rebuilt s (before c @ inorder u @ g # inorder w @ p # inorder l @ x # inorder r @ after c) s'"
proof -
  from z have z: "zip_at (nodes s) (root s) (Node True u g (Node False w p (Node False l x r))) c" (is "zip_at _ _ ?t c")
    by (auto simp: zip_at_def)
  obtain sd where S: "shape (nodes s) (up c) (side sd c) ?t" by (rule zip_facts [OF z])
  obtain s1 s2 h q where T: "link (ptr p) (ptr g) s = Some s1" "rotate_left (ptr p) (ptr g) IS_LEFT s1 = Some s2"
    "root_if (ptr p) s2 = Some (s\<lparr>nodes := h, root := q\<rparr>)" "dom h = dom (nodes s)"
    "zip_at h q (Node True (Node False u g w) p (Node False l x r)) c"
    by (rule turn [OF z turns_left [OF zip_distinct_sub [OF z] flags_consts(2)] refl refl])
  have "red_ptr (rootp u) s = Some False" using S u red_ptr_shape [of s "ptr g" True u] by simp
  then have "add_step_right (ptr x) (ptr p) (ptr g) s = Some (Inl 0, now_stable (s\<lparr>nodes := h, root := q\<rparr>))"
    using S u T(1-3) by (simp add: add_step_right_def)
  moreover have "rebuilt s (before c @ inorder u @ g # inorder w @ p # inorder l @ x # inorder r @ after c) (now_stable (s\<lparr>nodes := h, root := q\<rparr>))"
    by (rule rebuiltI [OF T(5,4)]) (use u f in \<open>simp_all add: wf_plug\<close>)
  ultimately show ?thesis by blast
qed

lemma add_right_inner:
  assumes z: "zip_at (nodes s) (root s) (Node False (Node False l x r) p w) (InRight True u g # c)"
    and u: "black u" and f: "ok (Node False l x r)" "ok w" "black w" "bh w = bh l" "ok u" "bh u = bh l" "fits c (Suc (bh l))"
  shows "\<exists>s'. add_step_right (ptr x) (ptr p) (ptr g) s = Some (Inl 0, s') \<and>
    rebuilt s (before c @ inorder u @ g # inorder l @ x # inorder r @ p # inorder w @ after c) s'"
proof -
  obtain s0 h0 where R: "link1 (ptr x) (ptr p) s = Some s0" "rotate_right (ptr x) (ptr p) 0 s0 = Some (s\<lparr>nodes := h0\<rparr>)" "dom h0 = dom (nodes s)"
    "zip_at h0 (root s) (Node False l x (Node False r p w)) (InRight True u g # c)"
    using turn1 [OF z _ turns_right [OF zip_distinct_sub [OF z] flags_consts(1)] refl] by auto
  let ?s = "s\<lparr>nodes := h0\<rparr>" and ?t = "Node True u g (Node False l x (Node False r p w))"
  from R(4) have y: "zip_at (nodes ?s) (root ?s) ?t c" by (auto simp: zip_at_def)
  obtain sd where S: "shape (nodes s) (ptr g) False (Node False (Node False l x r) p w)" "shape (nodes s) (ptr g) True u"
    "nodes s (ptr g) = Some (cell True (side sd c) (up c) (rootp u) g (ptr p))"
    using z by (auto simp: zip_at_def)
  obtain sd' where S': "shape (nodes ?s) (up c) (side sd' c) ?t" by (rule zip_facts [OF y])
  obtain s1 s2 h q where T: "link (ptr x) (ptr g) ?s = Some s1" "rotate_left (ptr x) (ptr g) IS_LEFT s1 = Some s2"
    "root_if (ptr x) s2 = Some (?s\<lparr>nodes := h, root := q\<rparr>)" "dom h = dom (nodes ?s)"
    "zip_at h q (Node True (Node False u g l) x (Node False r p w)) c"
    by (rule turn [OF y turns_left [OF zip_distinct_sub [OF y] flags_consts(2)] refl refl])
  have "red_ptr (rootp u) s = Some False" using S u red_ptr_shape [of s "ptr g" True u] by simp
  then have "add_step_right (ptr x) (ptr p) (ptr g) s = Some (Inl 0, now_stable (s\<lparr>nodes := h, root := q\<rparr>))"
    using S S' u R(1,2) T(1-3) by (simp add: add_step_right_def)
  moreover have "rebuilt s (before c @ inorder u @ g # inorder l @ x # inorder r @ p # inorder w @ after c) (now_stable (s\<lparr>nodes := h, root := q\<rparr>))"
    by (rule rebuiltI [OF T(5)]) (use u f R(3) T(4) in \<open>simp_all add: wf_plug\<close>)
  ultimately show ?thesis by blast
qed

text \<open>A red uncle: the three nodes change colour and the loop goes on with the grandparent.\<close>

lemma blacken_store [simp]: "nodes s p = Some n \<Longrightarrow> blacken p s = Some (s\<lparr>nodes := (nodes s)(p \<mapsto> meta_update (\<lambda>m. m OR IS_BLACK) n)\<rparr>)"
  and redden_store [simp]: "nodes s p = Some n \<Longrightarrow> redden p s = Some (s\<lparr>nodes := (nodes s)(p \<mapsto> meta_update (\<lambda>m. m AND NOT IS_BLACK) n)\<rparr>)"
  by (simp_all add: blacken_def redden_def)

lemma add_left_red:
  assumes z: "zip_at (nodes s) (root s) (Node False pl p pr) (InLeft True g (Node False ul y ur) # c)"
  shows "\<exists>h. add_step_left x (ptr p) (ptr g) s = Some (Inr (ptr g), s\<lparr>nodes := h\<rparr>) \<and> dom h = dom (nodes s) \<and>
    zip_at h (root s) (Node False (Node True pl p pr) g (Node True ul y ur)) c"
proof -
  let ?t = "Node True (Node False pl p pr) g (Node False ul y ur)"
  from z have z: "zip_at (nodes s) (root s) ?t c" by (auto simp: zip_at_def)
  obtain sd where S: "shape (nodes s) (up c) (side sd c) ?t" "around (nodes s) sd (ptr g) c" by (rule zip_facts [OF z]) simp
  have d: "distinct (map ptr (inorder ?t))" by (rule zip_distinct_sub [OF z])
  define h where "h = (nodes s)(ptr p \<mapsto> cell True True (ptr g) (rootp pl) p (rootp pr),
    ptr g \<mapsto> cell False (side sd c) (up c) (ptr p) g (ptr y), ptr y \<mapsto> cell True False (ptr g) (rootp ul) y (rootp ur))"
  have "red_ptr (ptr y) s = Some True" using S red_ptr_shape [of s "ptr g" False "Node False ul y ur"] by simp
  then have "add_step_left x (ptr p) (ptr g) s = Some (Inr (ptr g), s\<lparr>nodes := h\<rparr>)"
    using S d by (auto simp: add_step_left_def h_def)
  moreover have "dom h = dom (nodes s)" using S by (auto simp: h_def)
  moreover have "zip_at h (root s) (Node False (Node True pl p pr) g (Node True ul y ur)) c"
    by (rule zip_local [OF z]) (use S d in \<open>auto simp: h_def image_iff\<close>)
  ultimately show ?thesis by blast
qed

lemma add_right_red:
  assumes z: "zip_at (nodes s) (root s) (Node False pl p pr) (InRight True (Node False ul y ur) g # c)"
  shows "\<exists>h. add_step_right x (ptr p) (ptr g) s = Some (Inr (ptr g), s\<lparr>nodes := h\<rparr>) \<and> dom h = dom (nodes s) \<and>
    zip_at h (root s) (Node False (Node True ul y ur) g (Node True pl p pr)) c"
proof -
  let ?t = "Node True (Node False ul y ur) g (Node False pl p pr)"
  from z have z: "zip_at (nodes s) (root s) ?t c" by (auto simp: zip_at_def)
  obtain sd where S: "shape (nodes s) (up c) (side sd c) ?t" "around (nodes s) sd (ptr g) c" by (rule zip_facts [OF z]) simp
  have d: "distinct (map ptr (inorder ?t))" by (rule zip_distinct_sub [OF z])
  define h where "h = (nodes s)(ptr p \<mapsto> cell True False (ptr g) (rootp pl) p (rootp pr),
    ptr g \<mapsto> cell False (side sd c) (up c) (ptr y) g (ptr p), ptr y \<mapsto> cell True True (ptr g) (rootp ul) y (rootp ur))"
  have "red_ptr (ptr y) s = Some True" using S red_ptr_shape [of s "ptr g" True "Node False ul y ur"] by simp
  then have "add_step_right x (ptr p) (ptr g) s = Some (Inr (ptr g), s\<lparr>nodes := h\<rparr>)"
    using S d by (auto simp: add_step_right_def h_def)
  moreover have "dom h = dom (nodes s)" using S by (auto simp: h_def)
  moreover have "zip_at h (root s) (Node False (Node True ul y ur) g (Node True pl p pr)) c"
    by (rule zip_local [OF z]) (use S d in \<open>auto simp: h_def image_iff\<close>)
  ultimately show ?thesis by blast
qed

lemma red_parent_cases:
  assumes "fits c k"
  obtains "c = []" | "parent_black c" | p w g u d where "c = InLeft False p w # InLeft True g u # d"
    | p w g u d where "c = InRight False w p # InLeft True g u # d" | p w g u d where "c = InLeft False p w # InRight True u g # d"
    | p w g u d where "c = InRight False w p # InRight True u g # d"
proof (cases c)
  case (Cons f e)
  show ?thesis
  proof (cases "parent_black c")
    case False
    then have "parent_black e" using assms Cons by (cases f) auto
    then obtain e1 d where e: "e = e1 # d" by (cases e) auto
    with \<open>parent_black e\<close> show ?thesis using that Cons False by (cases f; cases e1) auto
  qed (rule that)
qed (rule that)

text \<open>The whole step, for a red node whose path fits its black height.\<close>

definition pending_add :: "'a rbtree_scheme \<Rightarrow> ptree \<Rightarrow> path \<Rightarrow> bool" where
  "pending_add s t c \<longleftrightarrow> zip_at (nodes s) (root s) t c \<and> \<not> black t \<and> ok t \<and> fits c (bh t)"

definition add_goal :: "'a rbtree_scheme \<Rightarrow> ((int + u32) \<times> 'a rbtree_scheme) option \<Rightarrow> entry list \<Rightarrow> nat \<Rightarrow> bool" where
  "add_goal s r xs n \<longleftrightarrow> (\<exists>s'. r = Some (Inl 0, s') \<and> rebuilt s xs s') \<or>
    (\<exists>h t d. r = Some (Inr (rootp t), s\<lparr>nodes := h\<rparr>) \<and> dom h = dom (nodes s) \<and> pending_add (s\<lparr>nodes := h\<rparr>) t d \<and>
       length d < n \<and> before d @ inorder t @ after d = xs)"

lemma add_step_left_cases:
  assumes z: "zip_at (nodes s) (root s) (Node False pl p pr) (InLeft True g u # c)"
    and x: "pl = Node False l x r \<and> black pr \<and> ok pr \<and> bh pr = bh l \<or> pr = Node False l x r \<and> black pl \<and> ok pl \<and> bh pl = bh l"
    and f: "ok (Node False l x r)" "ok u" "bh u = bh l" "fits c (Suc (bh l))" "Suc (length c) < n"
  shows "add_goal s (add_step_left (ptr x) (ptr p) (ptr g) s) (before c @ inorder pl @ p # inorder pr @ g # inorder u @ after c) n"
proof (cases "black u")
  case True
  from x show ?thesis unfolding add_goal_def
    using add_left_outer [of s l x r p pr g u c] add_left_inner [of s pl p l x r g u c] z f True by auto
next
  case False
  then obtain ul y ur where u: "u = Node False ul y ur" by (cases u) auto
  obtain h where "add_step_left (ptr x) (ptr p) (ptr g) s = Some (Inr (ptr g), s\<lparr>nodes := h\<rparr>)" "dom h = dom (nodes s)"
    "zip_at h (root s) (Node False (Node True pl p pr) g (Node True ul y ur)) c"
    using add_left_red [OF z [unfolded u]] by blast
  then show ?thesis unfolding add_goal_def using u x f
    by (intro disjI2 exI [of _ h] exI [of _ "Node False (Node True pl p pr) g (Node True ul y ur)"] exI [of _ c]) (auto simp: pending_add_def)
qed

lemma add_step_right_cases:
  assumes z: "zip_at (nodes s) (root s) (Node False pl p pr) (InRight True u g # c)"
    and x: "pl = Node False l x r \<and> black pr \<and> ok pr \<and> bh pr = bh l \<or> pr = Node False l x r \<and> black pl \<and> ok pl \<and> bh pl = bh l"
    and f: "ok (Node False l x r)" "ok u" "bh u = bh l" "fits c (Suc (bh l))" "Suc (length c) < n"
  shows "add_goal s (add_step_right (ptr x) (ptr p) (ptr g) s) (before c @ inorder u @ g # inorder pl @ p # inorder pr @ after c) n"
proof (cases "black u")
  case True
  from x show ?thesis unfolding add_goal_def
    using add_right_inner [of s l x r p pr u g c] add_right_outer [of s pl p l x r u g c] z f True by auto
next
  case False
  then obtain ul y ur where u: "u = Node False ul y ur" by (cases u) auto
  obtain h where "add_step_right (ptr x) (ptr p) (ptr g) s = Some (Inr (ptr g), s\<lparr>nodes := h\<rparr>)" "dom h = dom (nodes s)"
    "zip_at h (root s) (Node False (Node True ul y ur) g (Node True pl p pr)) c"
    using add_right_red [OF z [unfolded u]] by blast
  then show ?thesis unfolding add_goal_def using u x f
    by (intro disjI2 exI [of _ h] exI [of _ "Node False (Node True ul y ur) g (Node True pl p pr)"] exI [of _ c]) (auto simp: pending_add_def)
qed

lemma add_step_at:
  assumes "zip_at (nodes s) (root s) (Node False l x r) (f # c)" "f = InLeft False p w \<or> f = InRight False w p" "c \<noteq> []"
  shows "add_step (ptr x) s = (if side True c then add_step_left (ptr x) (ptr p) (up c) s else add_step_right (ptr x) (ptr p) (up c) s)"
proof -
  obtain sd where "shape (nodes s) (up (f # c)) (side sd (f # c)) (Node False l x r)" "around (nodes s) sd (ptr x) (f # c)"
    by (rule zip_facts [OF assms(1)]) simp
  moreover have "side sd c = side True c" using assms(3) by (cases c rule: up.cases) simp_all
  ultimately show ?thesis using assms(2,3) up_not_0 [of "nodes s" sd "ptr p" c] by (auto simp: add_step_def)
qed

lemma add_step_cases:
  assumes "pending_add s (Node False l x r) c"
  shows "add_goal s (add_step (ptr x) s) (before c @ inorder l @ x # inorder r @ after c) (length c)"
proof -
  let ?t = "Node False l x r"
  have z: "zip_at (nodes s) (root s) ?t c" and o: "ok ?t" "fits c (bh l)" using assms unfolding pending_add_def by auto
  obtain sd where S: "shape (nodes s) (up c) (side sd c) ?t" "around (nodes s) sd (ptr x) c" by (rule zip_facts [OF z]) simp
  have m: "zip_at (nodes s) (root s) (plug ?t d) e" if "c = d @ e" for d e
    using z that by (metis zip_plug plug_append)
  from o(2) show ?thesis
  proof (cases rule: red_parent_cases)
    case 1
    let ?h = "(nodes s)(ptr x \<mapsto> cell True False 0 (rootp l) x (rootp r))"
    have "meta_update (\<lambda>_. IS_BLACK) (cell False sd 0 (rootp l) x (rootp r)) = cell True False 0 (rootp l) x (rootp r)"
      using flags_consts(3) by simp
    then have "add_step (ptr x) s = Some (Inl 0, now_stable (s\<lparr>nodes := ?h, root := ptr x\<rparr>))"
      using S 1 by (auto simp: add_step_def)
    moreover have "shape ?h 0 False (Node True l x r)" using S 1 zip_distinct_sub [OF z] by (auto simp: image_iff)
    then have "zip_at ?h (ptr x) (Node True l x r) []" using zip_distinct_sub [OF z] unfolding zip_at_def by (auto intro: exI [of _ False])
    then have "rebuilt s (before [] @ inorder (Node True l x r) @ after []) (now_stable (s\<lparr>nodes := ?h, root := ptr x\<rparr>))"
      by (rule rebuiltI) (use S 1 o in \<open>auto simp: wf_tree_def\<close>)
    ultimately show ?thesis unfolding add_goal_def using 1 by auto
  next
    case 2
    have "add_step (ptr x) s = Some (Inl 0, now_stable s)"
      using S 2 by (cases c rule: parent_black.cases) (auto simp: add_step_def)
    moreover have "rebuilt s (before c @ inorder ?t @ after c) (now_stable (s\<lparr>nodes := nodes s, root := root s\<rparr>))"
      by (rule rebuiltI [OF z]) (use 2 o in \<open>auto simp: wf_plug\<close>)
    ultimately show ?thesis unfolding add_goal_def by auto
  next
    case (3 p w g u d)
    have "zip_at (nodes s) (root s) (Node False ?t p w) (InLeft True g u # d)" using m [of "[InLeft False p w]"] 3 by simp
    from add_step_left_cases [OF this, of l x r "length c"] show ?thesis using add_step_at [OF z [unfolded 3]] o 3 by auto
  next
    case (4 p w g u d)
    have "zip_at (nodes s) (root s) (Node False w p ?t) (InLeft True g u # d)" using m [of "[InRight False w p]"] 4 by simp
    from add_step_left_cases [OF this, of l x r "length c"] show ?thesis using add_step_at [OF z [unfolded 4]] o 4 by auto
  next
    case (5 p w g u d)
    have "zip_at (nodes s) (root s) (Node False ?t p w) (InRight True u g # d)" using m [of "[InLeft False p w]"] 5 by simp
    from add_step_right_cases [OF this, of l x r "length c"] show ?thesis using add_step_at [OF z [unfolded 5]] o 5 by auto
  next
    case (6 p w g u d)
    have "zip_at (nodes s) (root s) (Node False w p ?t) (InRight True u g # d)" using m [of "[InRight False w p]"] 6 by simp
    from add_step_right_cases [OF this, of l x r "length c"] show ?thesis using add_step_at [OF z [unfolded 6]] o 6 by auto
  qed
qed

lemma rebuilt_trans:
  assumes "rebuilt (s\<lparr>nodes := h\<rparr>) xs s'" "dom h = dom (nodes s)"
  shows "rebuilt s xs s'"
  using assms unfolding rebuilt_def by simp

lemma add_loop_rebuilds:
  "pending_add s t c \<Longrightarrow> \<exists>s'. add_loop (rootp t) s = Some (0, s') \<and> rebuilt s (before c @ inorder t @ after c) s'"
proof (induction "length c" arbitrary: s t c rule: less_induct)
  case less
  obtain l x r where t: "t = Node False l x r" using less.prems by (cases t) (auto simp: pending_add_def)
  from add_step_cases [OF less.prems [unfolded t]] consider
      s' where "add_step (ptr x) s = Some (Inl 0, s')" "rebuilt s (before c @ inorder l @ x # inorder r @ after c) s'"
    | h u d where "add_step (ptr x) s = Some (Inr (rootp u), s\<lparr>nodes := h\<rparr>)" "dom h = dom (nodes s)" "pending_add (s\<lparr>nodes := h\<rparr>) u d"
       "length d < length c" "before d @ inorder u @ after d = before c @ inorder l @ x # inorder r @ after c"
    unfolding add_goal_def by blast
  then show ?case
  proof cases
    case 1
    then show ?thesis by (subst add_loop.simps) (simp add: t)
  next
    case 2
    from less.hyps [OF 2(4,3)] obtain s' where "add_loop (rootp u) (s\<lparr>nodes := h\<rparr>) = Some (0, s')"
      "rebuilt (s\<lparr>nodes := h\<rparr>) (before d @ inorder u @ after d) s'" by blast
    then show ?thesis using 2 rebuilt_trans [where s = s and h = h and s' = s'] by (subst add_loop.simps) (simp add: t)
  qed
qed

section \<open>Adding a node\<close>

text \<open>
  \<open>grown s s' p a xs\<close>: the code has taken the node \<open>p\<close> from the allocator, whose state is now \<open>a\<close>, and the tree holds the
  entries \<open>xs\<close>.
\<close>

definition grown :: "'h rbstate \<Rightarrow> 'h rbstate \<Rightarrow> u32 \<Rightarrow> 'h \<Rightarrow> entry list \<Rightarrow> bool" where
  "grown s s' p a xs \<longleftrightarrow> (\<exists>t. tree_at s' t \<and> inorder t = xs) \<and> dom (nodes s') = insert p (dom (nodes s)) \<and> arena s' = a"

lemma rebuilt_grown:
  assumes "rebuilt u xs s'" "dom (nodes u) = insert p (dom (nodes s))" "arena u = a"
  shows "grown s s' p a xs"
proof -
  obtain h q t where h: "s' = now_stable (u\<lparr>nodes := h, root := q\<rparr>)" "dom h = dom (nodes u)" "tree_at s' t" "inorder t = xs"
    using assms(1) unfolding rebuilt_def by blast
  then have "nodes s' = h" "arena s' = arena u" by (simp_all add: now_stable_def)
  then show ?thesis unfolding grown_def using h assms(2,3) by metis
qed

lemma new_node_cell: "new_node st en d = cell False False 0 0 (Entry p st en d) 0"
  by (simp add: new_node_def cell_def flags_consts(1) [symmetric])

lemma tree_zip:
  assumes "tree_at s (plug t c)"
  shows "zip_at (nodes s) (root s) t c" "ok t" "fits c (bh t)" "black t \<or> parent_black c"
  using assms by (simp_all add: tree_at_def zip_plug wf_plug)

lemma add_first:
  assumes "tree_at s Tip" "rbtreeMalloc al (arena s) = Some (p, a)" "p \<noteq> 0" "p \<notin> dom (nodes s)"
  shows "\<exists>s'. add_range_next_to al prev st en d s = Some (0, s') \<and> grown s s' p a [Entry p st en d]"
proof -
  let ?x = "Entry p st en d"
  let ?s = "now_stable (now_unstable (s\<lparr>arena := a, nodes := (nodes s)(p \<mapsto> cell True False 0 0 ?x 0), root := p\<rparr>))"
  have r: "root s = 0" using assms(1) by (simp add: tree_at_def zip_at_def)
  have m: "meta_update (\<lambda>_. IS_BLACK) (cell False False 0 0 ?x 0) = cell True False 0 0 ?x 0" using flags_consts(3) by simp
  have "add_range_next_to al prev st en d s = Some (0, ?s)"
    using assms r m new_node_cell [of st en d p] by (simp add: add_range_next_to_def Let_def now_unstable_def now_stable_def)
  moreover have "tree_at ?s (Node True Tip ?x Tip)"
    using assms(3) by (auto simp: tree_at_def zip_at_def wf_tree_def now_stable_def now_unstable_def)
  then have "grown s ?s p a [?x]"
    unfolding grown_def by (intro conjI exI [of _ "Node True Tip ?x Tip"]) (simp_all add: now_stable_def now_unstable_def)
  ultimately show ?thesis by blast
qed

lemma shape_dom: "shape h pa sd t \<Longrightarrow> y \<in> set (inorder t) \<Longrightarrow> ptr y \<in> dom h \<and> ptr y \<noteq> 0"
  by (induction t arbitrary: pa sd) (auto simp: domIff)

lemma zip_dom:
  assumes "zip_at h q t c" "y \<in> set (before c @ inorder t @ after c)"
  shows "ptr y \<in> dom h \<and> ptr y \<noteq> 0"
proof -
  obtain sd where "shape h 0 sd (plug t c)" using assms(1) by (auto simp: zip_at_def shape_plug)
  then show ?thesis by (rule shape_dom) (use assms(2) in simp)
qed

lemma fresh_addr: "zip_at h q t c \<Longrightarrow> p \<notin> dom h \<Longrightarrow> p \<notin> addrs (before c @ inorder t @ after c)"
  using zip_dom by fastforce

lemma root_0: "tree_at s t \<Longrightarrow> root s = 0 \<longleftrightarrow> t = Tip"
  by (cases t) (auto simp: tree_at_def zip_at_def)

lemma plug_Node: "plug (Node b l x r) c \<noteq> Tip"
  by (metis append_is_Nil_conv inorder.simps inorder_plug list.distinct(1))

lemma add_after:
  assumes T: "tree_at s (plug (Node b l y Tip) c)" and M: "rbtreeMalloc al (arena s) = Some (p, a)" "p \<noteq> 0" "p \<notin> dom (nodes s)"
    and y: "first y < st"
  shows "\<exists>s'. add_range_next_to al (ptr y) st en d s = Some (0, s') \<and>
    grown s s' p a (before c @ inorder l @ y # Entry p st en d # after c)"
proof -
  let ?x = "Entry p st en d"
  note z = tree_zip [OF T]
  obtain sd where S: "shape (nodes s) (up c) (side sd c) (Node b l y Tip)" "around (nodes s) sd (ptr y) c"
    by (rule zip_facts [OF z(1)]) simp
  have f: "p \<notin> addrs (before c @ inorder (Node b l y Tip) @ after c)" by (rule fresh_addr [OF z(1) M(3)])
  have r: "root s \<noteq> 0" using root_0 [OF T] plug_Node by simp
  define h where "h = (nodes s)(ptr y \<mapsto> cell b (side sd c) (up c) (rootp l) y p, p \<mapsto> cell False False (ptr y) 0 ?x 0)"
  let ?s = "now_unstable (s\<lparr>arena := a, nodes := h\<rparr>)"
  have m: "meta_update (\<lambda>_. 0) (cell False False (ptr y) 0 ?x 0) = cell False False (ptr y) 0 ?x 0" using flags_consts(1) by simp
  have "add_range_next_to al (ptr y) st en d s = add_loop p ?s"
    using M S r y f m new_node_cell [of st en d p]
    by (auto simp: add_range_next_to_def Let_def now_unstable_def h_def)
  moreover have "pending_add ?s (Node False Tip ?x Tip) (InRight b l y # c)"
  proof -
    have "shape h (ptr y) False (Node False Tip ?x Tip)" "around h sd p (InRight b l y # c)"
      using S f M(2) zip_distinct [OF z(1)] by (auto simp: h_def image_iff)
    then have "zip_at h (root s) (Node False Tip ?x Tip) (InRight b l y # c)"
      using zip_distinct [OF z(1)] f zip_root [OF z(1)] rootp_plug [of "InRight b l y # c" Tip "Node False Tip ?x Tip"]
      unfolding zip_at_def by (auto intro!: exI [of _ sd])
    then show ?thesis using z(2-4) by (auto simp: pending_add_def now_unstable_def)
  qed
  moreover have "dom (nodes ?s) = insert p (dom (nodes s))" using S by (auto simp: h_def now_unstable_def)
  ultimately show ?thesis
    using add_loop_rebuilds [of ?s "Node False Tip ?x Tip" "InRight b l y # c"] rebuilt_grown [where u = ?s and a = a]
    by (fastforce simp: now_unstable_def)
qed

lemma add_before:
  assumes T: "tree_at s (plug (Node b Tip y r) c)" and M: "rbtreeMalloc al (arena s) = Some (p, a)" "p \<noteq> 0" "p \<notin> dom (nodes s)"
    and y: "\<not> first y < st"
  shows "\<exists>s'. add_range_next_to al (ptr y) st en d s = Some (0, s') \<and>
    grown s s' p a (before c @ Entry p st en d # y # inorder r @ after c)"
proof -
  let ?x = "Entry p st en d"
  note z = tree_zip [OF T]
  obtain sd where S: "shape (nodes s) (up c) (side sd c) (Node b Tip y r)" "around (nodes s) sd (ptr y) c"
    by (rule zip_facts [OF z(1)]) simp
  have f: "p \<notin> addrs (before c @ inorder (Node b Tip y r) @ after c)" by (rule fresh_addr [OF z(1) M(3)])
  have r: "root s \<noteq> 0" using root_0 [OF T] plug_Node by simp
  define h where "h = (nodes s)(ptr y \<mapsto> cell b (side sd c) (up c) p y (rootp r), p \<mapsto> cell False True (ptr y) 0 ?x 0)"
  let ?s = "now_unstable (s\<lparr>arena := a, nodes := h\<rparr>)"
  have m: "meta_update (\<lambda>_. IS_LEFT) (cell False False (ptr y) 0 ?x 0) = cell False True (ptr y) 0 ?x 0" using flags_consts(2) by simp
  have "add_range_next_to al (ptr y) st en d s = add_loop p ?s"
    using M S r y f m new_node_cell [of st en d p]
    by (auto simp: add_range_next_to_def Let_def now_unstable_def h_def)
  moreover have "pending_add ?s (Node False Tip ?x Tip) (InLeft b y r # c)"
  proof -
    have "shape h (ptr y) True (Node False Tip ?x Tip)" "around h sd p (InLeft b y r # c)"
      using S f M(2) zip_distinct [OF z(1)] by (auto simp: h_def image_iff)
    then have "zip_at h (root s) (Node False Tip ?x Tip) (InLeft b y r # c)"
      using zip_distinct [OF z(1)] f zip_root [OF z(1)] rootp_plug [of "InLeft b y r # c" Tip "Node False Tip ?x Tip"]
      unfolding zip_at_def by (auto intro!: exI [of _ sd])
    then show ?thesis using z(2-4) by (auto simp: pending_add_def now_unstable_def)
  qed
  moreover have "dom (nodes ?s) = insert p (dom (nodes s))" using S by (auto simp: h_def now_unstable_def)
  ultimately show ?thesis
    using add_loop_rebuilds [of ?s "Node False Tip ?x Tip" "InLeft b y r # c"] rebuilt_grown [where u = ?s and a = a]
    by (fastforce simp: now_unstable_def)
qed

end
