(* ===== verification/RbRemove.thy ===== *)
theory RbRemove
  imports RbInsert
begin

text \<open>
  The removal of \<open>Rbtree\<close>: \<open>remove_node\<close> of a node of a well-formed tree returns, without reaching for a missing
  node, and leaves a well-formed tree with the other entries in their order.
\<close>

section \<open>The loop that restores the black heights\<close>

fun paint :: "ptree \<Rightarrow> ptree" where
  "paint Tip = Tip"
| "paint (Node b l x r) = Node True l x r"

lemma paint_simps [simp]: "inorder (paint t) = inorder t" "rootp (paint t) = rootp t" "black (paint t)" "black t \<Longrightarrow> paint t = t"
  by (cases t; simp)+

lemma zip_InLeft: "zip_at h q t (InLeft b x r # c) = zip_at h q (Node b t x r) c"
  and zip_InRight: "zip_at h q t (InRight b l x # c) = zip_at h q (Node b l x t) c"
  using zip_plug [of h q t "InLeft b x r # c"] zip_plug [of h q "Node b t x r" c]
    zip_plug [of h q t "InRight b l x # c"] zip_plug [of h q "Node b l x t" c] by simp_all

lemma recolour:
  assumes "zip_at (nodes s) q (Node b l x r) c"
  shows "\<exists>h. blacken (ptr x) s = Some (s\<lparr>nodes := h\<rparr>) \<and> dom h = dom (nodes s) \<and> zip_at h q (Node True l x r) c"
    "\<exists>h. redden (ptr x) s = Some (s\<lparr>nodes := h\<rparr>) \<and> dom h = dom (nodes s) \<and> zip_at h q (Node False l x r) c"
proof -
  obtain sd where S: "shape (nodes s) (up c) (side sd c) (Node b l x r)" "around (nodes s) sd (ptr x) c"
    by (rule zip_facts [OF assms]) simp
  have "zip_at ((nodes s)(ptr x \<mapsto> cell b' (side sd c) (up c) (rootp l) x (rootp r))) q (Node b' l x r) c" for b'
    by (rule zip_local [OF assms]) (use S zip_distinct_sub [OF assms] in \<open>auto simp: image_iff\<close>)
  moreover have "dom ((nodes s)(ptr x \<mapsto> v)) = dom (nodes s)" for v using S by auto
  ultimately show "\<exists>h. blacken (ptr x) s = Some (s\<lparr>nodes := h\<rparr>) \<and> dom h = dom (nodes s) \<and> zip_at h q (Node True l x r) c"
    "\<exists>h. redden (ptr x) s = Some (s\<lparr>nodes := h\<rparr>) \<and> dom h = dom (nodes s) \<and> zip_at h q (Node False l x r) c"
    using S by (simp_all only: shape.simps blacken_store redden_store meta_cell_simps) blast+
qed

definition short :: "'a rbtree_scheme \<Rightarrow> ptree \<Rightarrow> path \<Rightarrow> bool" where
  "short s t c \<longleftrightarrow> zip_at (nodes s) (root s) t c \<and> ok (paint t) \<and> fits c (Suc (bh t))"

definition del_goal :: "'a rbtree_scheme \<Rightarrow> ((int + u32 \<times> u32) \<times> 'a rbtree_scheme) option \<Rightarrow> entry list \<Rightarrow> nat \<Rightarrow> bool" where
  "del_goal s r xs n \<longleftrightarrow> (\<exists>s'. r = Some (Inl 0, s') \<and> rebuilt s xs s') \<or>
    (\<exists>h q t d. r = Some (Inr (rootp t, up d), s\<lparr>nodes := h, root := q\<rparr>) \<and> dom h = dom (nodes s) \<and>
       short (s\<lparr>nodes := h, root := q\<rparr>) t d \<and> 2 * length d + (if black t then 1 else 0) < n \<and> before d @ inorder t @ after d = xs)"

lemma case4_l_rebuilds:
  assumes z: "zip_at (nodes s) (root s) (Node b t z (Node b' l y (Node False rl x rr))) c"
    and w: "ok t" "ok l" "ok rl" "ok rr" "bh l = bh t" "bh rl = bh t" "bh rr = bh t" "fits c (if b then Suc (Suc (bh t)) else Suc (bh t))"
      "b \<or> parent_black c"
  shows "\<exists>s'. case4_l (ptr y) (ptr z) s = Some (Inl 0, s') \<and>
    rebuilt s (before c @ inorder t @ z # inorder l @ y # inorder rl @ x # inorder rr @ after c) s'"
proof -
  obtain s1 s2 h q where T: "link (ptr y) (ptr z) s = Some s1" "rotate_left (ptr y) (ptr z) (IS_BLACK OR IS_LEFT) s1 = Some s2"
    "root_if (ptr y) s2 = Some (s\<lparr>nodes := h, root := q\<rparr>)" "dom h = dom (nodes s)"
    "zip_at h q (Node b (Node True t z l) y (Node False rl x rr)) c"
    by (rule turn [OF z turns_left [OF zip_distinct_sub [OF z] flags_consts(4)] refl refl])
  let ?s = "s\<lparr>nodes := h, root := q\<rparr>"
  obtain sd where S: "shape h (up c) (side sd c) (Node b (Node True t z l) y (Node False rl x rr))" by (rule zip_facts [OF T(5)])
  obtain h' where B: "blacken (ptr x) ?s = Some (?s\<lparr>nodes := h'\<rparr>)" "dom h' = dom (nodes ?s)"
    "zip_at h' q (Node True rl x rr) (InRight b (Node True t z l) y # c)"
    using recolour(1) [of ?s q False rl x rr "InRight b (Node True t z l) y # c"] T(5) by (auto simp: zip_InRight)
  have "case4_l (ptr y) (ptr z) s = Some (Inl 0, now_stable (s\<lparr>nodes := h', root := q\<rparr>))"
    using T(1-3) S B(1) by (simp add: case4_l_def)
  moreover have "rebuilt s (before c @ inorder t @ z # inorder l @ y # inorder rl @ x # inorder rr @ after c) (now_stable (s\<lparr>nodes := h', root := q\<rparr>))"
    by (rule rebuiltI [OF B(3)]) (use w B(2) T(4) in \<open>auto simp: wf_plug\<close>)
  ultimately show ?thesis by blast
qed

lemma case4_r_rebuilds:
  assumes z: "zip_at (nodes s) (root s) (Node b (Node b' (Node False rl x rr) y l) z t) c"
    and w: "ok t" "ok l" "ok rl" "ok rr" "bh l = bh t" "bh rl = bh t" "bh rr = bh t" "fits c (if b then Suc (Suc (bh t)) else Suc (bh t))"
      "b \<or> parent_black c"
  shows "\<exists>s'. case4_r (ptr y) s = Some (Inl 0, s') \<and>
    rebuilt s (before c @ inorder rl @ x # inorder rr @ y # inorder l @ z # inorder t @ after c) s'"
proof -
  obtain sd' where S': "shape (nodes s) (up c) (side sd' c) (Node b (Node b' (Node False rl x rr) y l) z t)" by (rule zip_facts [OF z])
  obtain s1 s2 h q where T: "link (ptr y) (ptr z) s = Some s1" "rotate_right (ptr y) (ptr z) IS_BLACK s1 = Some s2"
    "root_if (ptr y) s2 = Some (s\<lparr>nodes := h, root := q\<rparr>)" "dom h = dom (nodes s)"
    "zip_at h q (Node b (Node False rl x rr) y (Node True l z t)) c"
    by (rule turn [OF z turns_right [OF zip_distinct_sub [OF z] flags_consts(3)] refl refl])
  let ?s = "s\<lparr>nodes := h, root := q\<rparr>"
  obtain sd where S: "shape h (up c) (side sd c) (Node b (Node False rl x rr) y (Node True l z t))" by (rule zip_facts [OF T(5)])
  obtain h' where B: "blacken (ptr x) ?s = Some (?s\<lparr>nodes := h'\<rparr>)" "dom h' = dom (nodes ?s)"
    "zip_at h' q (Node True rl x rr) (InLeft b y (Node True l z t) # c)"
    using recolour(1) [of ?s q False rl x rr "InLeft b y (Node True l z t) # c"] T(5) by (auto simp: zip_InLeft)
  have "case4_r (ptr y) s = Some (Inl 0, now_stable (s\<lparr>nodes := h', root := q\<rparr>))"
    using T(1-3) S S' B(1) by (simp add: case4_r_def)
  moreover have "rebuilt s (before c @ inorder rl @ x # inorder rr @ y # inorder l @ z # inorder t @ after c) (now_stable (s\<lparr>nodes := h', root := q\<rparr>))"
    by (rule rebuiltI [OF B(3)]) (use w B(2) T(4) in \<open>auto simp: wf_plug\<close>)
  ultimately show ?thesis by blast
qed

lemma red_ptr_at:
  assumes "zip_at (nodes s) q (Node b l x r) c"
  shows "fld left (ptr x) s = Some (rootp l)" "fld right (ptr x) s = Some (rootp r)"
    "red_ptr (rootp l) s = Some (\<not> black l)" "red_ptr (rootp r) s = Some (\<not> black r)"
    "fld parent (ptr x) s = Some (up c)" "fld meta (ptr x) s = Some m \<Longrightarrow> m AND IS_BLACK = 0 \<longleftrightarrow> \<not> b"
proof -
  obtain sd where S: "shape (nodes s) (up c) (side sd c) (Node b l x r)" by (rule zip_facts [OF assms])
  then show "fld left (ptr x) s = Some (rootp l)" "fld right (ptr x) s = Some (rootp r)" "fld parent (ptr x) s = Some (up c)"
    "fld meta (ptr x) s = Some m \<Longrightarrow> m AND IS_BLACK = 0 \<longleftrightarrow> \<not> b" by auto
  show "red_ptr (rootp l) s = Some (\<not> black l)" "red_ptr (rootp r) s = Some (\<not> black r)"
    using S red_ptr_shape [of s "ptr x" True l] red_ptr_shape [of s "ptr x" False r] by simp_all
qed

lemma del_left_black_goal:
  assumes z: "zip_at (nodes s) (root s) (Node b t z (Node True l y r)) c"
    and w: "ok t" "ok l" "ok r" "bh l = bh t" "bh r = bh t" "fits c (if b then Suc (Suc (bh t)) else Suc (bh t))" "b \<or> parent_black c"
    and n: "2 * length c + (if b then 1 else 0) < n" and k: "black t"
  shows "del_goal s (del_left_black (ptr y) (ptr z) s) (before c @ inorder t @ z # inorder l @ y # inorder r @ after c) n"
proof -
  have zy: "zip_at (nodes s) (root s) (Node True l y r) (InRight b t z # c)" using z by (simp add: zip_InRight)
  note ry = red_ptr_at [OF zy] and rz = red_ptr_at [OF z]
  consider (case4) "\<not> black r" | (case2) "black r" "black l" | (case3) "black r" "\<not> black l" by blast
  then show ?thesis
  proof cases
    case case4
    then obtain rl x rr where r: "r = Node False rl x rr" by (cases r) auto
    have "del_left_black (ptr y) (ptr z) s = case4_l (ptr y) (ptr z) s" using ry r by (simp add: del_left_black_def)
    then show ?thesis unfolding del_goal_def
      using case4_l_rebuilds [OF z [unfolded r]] w r by auto
  next
    case case2
    obtain h where h: "redden (ptr y) s = Some (s\<lparr>nodes := h\<rparr>)" "dom h = dom (nodes s)" "zip_at h (root s) (Node False l y r) (InRight b t z # c)"
      using recolour(2) [OF zy] by blast
    have "del_left_black (ptr y) (ptr z) s = Some (Inr (ptr z, up c), s\<lparr>nodes := h, root := root s\<rparr>)"
      using ry rz h(1) case2 by (simp add: del_left_black_def)
    moreover have "short (s\<lparr>nodes := h, root := root s\<rparr>) (Node b t z (Node False l y r)) c"
      using h(3) w case2 by (cases b) (simp_all add: short_def zip_InRight)
    ultimately show ?thesis unfolding del_goal_def using h(2) n
      by (intro disjI2 exI [of _ h] exI [of _ "root s"] exI [of _ "Node b t z (Node False l y r)"] exI [of _ c]) auto
  next
    case case3
    then obtain a x e where l: "l = Node False a x e" by (cases l) auto
    obtain s1 h where R: "link1 (ptr x) (ptr y) s = Some s1" "rotate_right (ptr x) (ptr y) 0 s1 = Some (s\<lparr>nodes := h\<rparr>)"
      "dom h = dom (nodes s)" "zip_at h (root s) (Node True a x (Node False e y r)) (InRight b t z # c)"
      using turn1 [OF zy _ turns_right [OF zip_distinct_sub [OF zy [unfolded l]] flags_consts(1), folded l] refl] by auto
    have "del_left_black (ptr y) (ptr z) s = case4_l (ptr x) (ptr z) (s\<lparr>nodes := h\<rparr>)"
      using ry case3 R(1,2) l by (simp add: del_left_black_def)
    moreover have "zip_at (nodes (s\<lparr>nodes := h\<rparr>)) (root (s\<lparr>nodes := h\<rparr>)) (Node b t z (Node True a x (Node False e y r))) c"
      using R(4) by (simp add: zip_InRight)
    note case4_l_rebuilds [OF this]
    ultimately show ?thesis unfolding del_goal_def
      using w l case3 R(3) rebuilt_trans [where s = s and h = h] by fastforce
  qed
qed

lemma del_right_black_goal:
  assumes z: "zip_at (nodes s) (root s) (Node b (Node True r y l) z t) c"
    and w: "ok t" "ok l" "ok r" "bh l = bh t" "bh r = bh t" "fits c (if b then Suc (Suc (bh t)) else Suc (bh t))" "b \<or> parent_black c"
    and n: "2 * length c + (if b then 1 else 0) < n" and k: "black t"
  shows "del_goal s (del_right_black (ptr y) (ptr z) s) (before c @ inorder r @ y # inorder l @ z # inorder t @ after c) n"
proof -
  have zy: "zip_at (nodes s) (root s) (Node True r y l) (InLeft b z t # c)" using z by (simp add: zip_InLeft)
  note ry = red_ptr_at [OF zy] and rz = red_ptr_at [OF z]
  consider (case4) "\<not> black r" | (case2) "black r" "black l" | (case3) "black r" "\<not> black l" by blast
  then show ?thesis
  proof cases
    case case4
    then obtain rl x rr where r: "r = Node False rl x rr" by (cases r) auto
    have "del_right_black (ptr y) (ptr z) s = case4_r (ptr y) s" using ry r by (simp add: del_right_black_def)
    then show ?thesis unfolding del_goal_def
      using case4_r_rebuilds [OF z [unfolded r]] w r by auto
  next
    case case2
    obtain h where h: "redden (ptr y) s = Some (s\<lparr>nodes := h\<rparr>)" "dom h = dom (nodes s)" "zip_at h (root s) (Node False r y l) (InLeft b z t # c)"
      using recolour(2) [OF zy] by blast
    have "del_right_black (ptr y) (ptr z) s = Some (Inr (ptr z, up c), s\<lparr>nodes := h, root := root s\<rparr>)"
      using ry rz h(1) case2 by (simp add: del_right_black_def)
    moreover have "short (s\<lparr>nodes := h, root := root s\<rparr>) (Node b (Node False r y l) z t) c"
      using h(3) w case2 by (cases b) (simp_all add: short_def zip_InLeft)
    ultimately show ?thesis unfolding del_goal_def using h(2) n
      by (intro disjI2 exI [of _ h] exI [of _ "root s"] exI [of _ "Node b (Node False r y l) z t"] exI [of _ c]) auto
  next
    case case3
    then obtain a x e where l: "l = Node False e x a" by (cases l) auto
    obtain s1 h where R: "link1 (ptr x) (ptr y) s = Some s1" "rotate_left (ptr x) (ptr y) IS_LEFT s1 = Some (s\<lparr>nodes := h\<rparr>)"
      "dom h = dom (nodes s)" "zip_at h (root s) (Node True (Node False r y e) x a) (InLeft b z t # c)"
      using turn1 [OF zy _ turns_left [OF zip_distinct_sub [OF zy [unfolded l]] flags_consts(2), folded l] refl] by auto
    have "del_right_black (ptr y) (ptr z) s = case4_r (ptr x) (s\<lparr>nodes := h\<rparr>)"
      using ry case3 R(1,2) l by (simp add: del_right_black_def)
    moreover have "zip_at (nodes (s\<lparr>nodes := h\<rparr>)) (root (s\<lparr>nodes := h\<rparr>)) (Node b (Node True (Node False r y e) x a) z t) c"
      using R(4) by (simp add: zip_InLeft)
    note case4_r_rebuilds [OF this]
    ultimately show ?thesis unfolding del_goal_def
      using w l case3 R(3) rebuilt_trans [where s = s and h = h] by fastforce
  qed
qed

lemma del_goal_trans:
  assumes "del_goal (s\<lparr>nodes := h, root := q\<rparr>) r xs n" "dom h = dom (nodes s)"
  shows "del_goal s r xs n"
  using assms unfolding del_goal_def rebuilt_def by simp

lemma black_pos:
  assumes "bh t = Suc k"
  obtains b l x r where "t = Node b l x r"
  using assms by (cases t) auto

lemma del_left_goal:
  assumes z: "zip_at (nodes s) (root s) (Node b t z u) c"
    and w: "ok t" "black t" "ok u" "bh u = Suc (bh t)" "fits c (if b then Suc (Suc (bh t)) else Suc (bh t))" "b \<or> black u \<and> parent_black c"
    and n: "2 * length c + 2 < n"
  shows "del_goal s (del_left (ptr z) s) (before c @ inorder t @ z # inorder u @ after c) n"
proof -
  obtain b2 l y r where u: "u = Node b2 l y r" using w(4) by (rule black_pos)
  have zu: "zip_at (nodes s) (root s) (Node b2 l y r) (InRight b t z # c)" using z u by (simp add: zip_InRight)
  note rz = red_ptr_at [OF z] and ry = red_ptr_at [OF zu]
  obtain m where m: "fld meta (ptr y) s = Some m" using zip_parent(1) [OF zu] by (auto simp: fld_def)
  show ?thesis
  proof (cases b2)
    case True
    have "del_left (ptr z) s = del_left_black (ptr y) (ptr z) s" using rz ry(6) [OF m] m u True by (simp add: del_left_def)
    moreover have "zip_at (nodes s) (root s) (Node b t z (Node True l y r)) c" using z u True by simp
    note del_left_black_goal [OF this]
    ultimately show ?thesis using w n u True by (cases b) auto
  next
    case False
    then have b: b and l: "bh l = Suc (bh t)" "black l" using w(3,4,6) u by auto
    obtain l1 y1 r1 where l: "l = Node True l1 y1 r1" using black_pos [OF l(1)] l(2) by (metis black.simps(2))
    have t: "turns (rotate_left (ptr y) (ptr z) IS_LEFT) s' (Node b t z u) (Node True (Node False t z l) y r)" for s' :: "'a rbtree_scheme"
      using turns_left [OF zip_distinct_sub [OF z [unfolded u]] flags_consts(2)] b u by simp
    obtain s1 h q where R: "(if up c \<noteq> 0 then link1 (ptr y) (ptr z) s else Some (s\<lparr>root := ptr y\<rparr>)) = Some s1"
      "rotate_left (ptr y) (ptr z) IS_LEFT s1 = Some (s\<lparr>nodes := h, root := q\<rparr>)" "dom h = dom (nodes s)"
      "zip_at h q (Node True (Node False t z l) y r) c"
    proof (cases "c = []")
      case True
      obtain h where "rotate_left (ptr y) (ptr z) IS_LEFT (s\<lparr>root := ptr y\<rparr>) = Some (s\<lparr>nodes := h, root := ptr y\<rparr>)" "dom h = dom (nodes s)"
        "zip_at h (ptr y) (Node True (Node False t z l) y r) []"
        using turn0 [OF z [unfolded True] t] by (metis rootp.simps(2))
      then show thesis using that True by simp
    next
      case False
      have "link1 (ptr y) (ptr z) s = Some s1 \<Longrightarrow> rotate_left (ptr y) (ptr z) IS_LEFT s1 = Some (s\<lparr>nodes := h\<rparr>) \<Longrightarrow> dom h = dom (nodes s) \<Longrightarrow>
        zip_at h (root s) (Node True (Node False t z l) y r) c \<Longrightarrow> thesis" for s1 h
        using that [of s1 "root s" h] zip_parent(3) [OF z False] by simp
      then show thesis using turn1 [OF z False t refl] by auto
    qed
    let ?s = "s\<lparr>nodes := h, root := q\<rparr>"
    have Z: "zip_at (nodes ?s) (root ?s) (Node False t z (Node True l1 y1 r1)) (InLeft True y r # c)"
      using R(4) l by (simp add: zip_InLeft)
    have "del_left (ptr z) s = del_left_black (ptr y1) (ptr z) ?s"
      using rz ry(6) [OF m] m u False R(1,2) red_ptr_at(2) [OF Z] by (simp add: del_left_def)
    moreover have "del_goal ?s (del_left_black (ptr y1) (ptr z) ?s)
      (before (InLeft True y r # c) @ inorder t @ z # inorder l1 @ y1 # inorder r1 @ after (InLeft True y r # c)) n"
      by (rule del_left_black_goal [OF Z]) (use w n u l b False in auto)
    ultimately show ?thesis using del_goal_trans [OF _ R(3)] u l by fastforce
  qed
qed

lemma del_right_goal:
  assumes z: "zip_at (nodes s) (root s) (Node b u z t) c"
    and w: "ok t" "black t" "ok u" "bh u = Suc (bh t)" "fits c (if b then Suc (Suc (bh t)) else Suc (bh t))" "b \<or> black u \<and> parent_black c"
    and n: "2 * length c + 2 < n"
  shows "del_goal s (del_right (ptr z) s) (before c @ inorder u @ z # inorder t @ after c) n"
proof -
  obtain b2 l y r where u: "u = Node b2 r y l" using w(4) by (rule black_pos)
  have zu: "zip_at (nodes s) (root s) (Node b2 r y l) (InLeft b z t # c)" using z u by (simp add: zip_InLeft)
  note rz = red_ptr_at [OF z] and ry = red_ptr_at [OF zu]
  obtain m where m: "fld meta (ptr y) s = Some m" using zip_parent(1) [OF zu] by (auto simp: fld_def)
  show ?thesis
  proof (cases b2)
    case True
    have "del_right (ptr z) s = del_right_black (ptr y) (ptr z) s" using rz ry(6) [OF m] m u True by (simp add: del_right_def)
    moreover have "zip_at (nodes s) (root s) (Node b (Node True r y l) z t) c" using z u True by simp
    note del_right_black_goal [OF this]
    ultimately show ?thesis using w n u True by (cases b) auto
  next
    case False
    then have b: b and l: "bh l = Suc (bh t)" "black l" using w(3,4,6) u by auto
    obtain l1 y1 r1 where l: "l = Node True r1 y1 l1" using black_pos [OF l(1)] l(2) by (metis black.simps(2))
    obtain s1 s2 h q where R: "link (ptr y) (ptr z) s = Some s1" "rotate_right (ptr y) (ptr z) 0 s1 = Some s2"
      "root_if (ptr y) s2 = Some (s\<lparr>nodes := h, root := q\<rparr>)" "dom h = dom (nodes s)"
      "zip_at h q (Node True r y (Node False l z t)) c"
      by (rule turn [OF z turns_right [OF zip_distinct_sub [OF z [unfolded u]] flags_consts(1), of s, folded u] refl refl]) (use b in simp)
    let ?s = "s\<lparr>nodes := h, root := q\<rparr>"
    have Z: "zip_at (nodes ?s) (root ?s) (Node False (Node True r1 y1 l1) z t) (InRight True r y # c)"
      using R(5) l by (simp add: zip_InRight)
    have "del_right (ptr z) s = del_right_black (ptr y1) (ptr z) ?s"
      using rz ry(6) [OF m] m u False R(1-3) red_ptr_at(1) [OF Z] by (simp add: del_right_def)
    moreover have "del_goal ?s (del_right_black (ptr y1) (ptr z) ?s)
      (before (InRight True r y # c) @ inorder r1 @ y1 # inorder l1 @ z # inorder t @ after (InRight True r y # c)) n"
      by (rule del_right_black_goal [OF Z]) (use w n u l b False in auto)
    ultimately show ?thesis using del_goal_trans [OF _ R(4)] u l by fastforce
  qed
qed

lemma del_step_goal:
  assumes "short s t c"
  shows "del_goal s (del_step (rootp t) (up c) s) (before c @ inorder t @ after c) (2 * length c + (if black t then 1 else 0))"
proof -
  have z: "zip_at (nodes s) (root s) t c" and o: "ok (paint t)" "fits c (Suc (bh t))" using assms by (simp_all add: short_def)
  obtain sd where S: "shape (nodes s) (up c) (side sd c) t" "around (nodes s) sd (rootp t) c" by (rule zip_facts [OF z])
  have r: "red_ptr (rootp t) s = Some (\<not> black t)" by (rule red_ptr_shape [OF S(1)])
  show ?thesis
  proof (cases "black t \<and> c \<noteq> []")
    case True
    then have u: "up c \<noteq> 0" using up_not_0 [OF S(2)] by simp
    from True have t: "ok t" "black t" using o(1) by simp_all
    show ?thesis
    proof (cases c)
      case (Cons f d)
      show ?thesis
      proof (cases f)
        case (InLeft b x v)
        have Z: "zip_at (nodes s) (root s) (Node b t x v) d" using z Cons InLeft by (simp add: zip_InLeft)
        have "del_step (rootp t) (up c) s = del_left (ptr x) s"
          using r u True S Cons InLeft red_ptr_at(1) [OF Z] by (cases t) (auto simp: del_step_def)
        moreover have "fits d (if b then Suc (Suc (bh t)) else Suc (bh t))" using o(2) Cons InLeft by (cases b) simp_all
        ultimately show ?thesis using del_left_goal [OF Z] t o(2) Cons InLeft by auto
      next
        case (InRight b v x)
        have Z: "zip_at (nodes s) (root s) (Node b v x t) d" using z Cons InRight by (simp add: zip_InRight)
        have v: "bh v = Suc (bh t)" using o(2) Cons InRight by simp
        then have "rootp v \<noteq> 0" using S(2) Cons InRight by (cases v) auto
        then have "del_step (rootp t) (up c) s = del_right (ptr x) s"
          using r u True S Cons InRight red_ptr_at(1) [OF Z] by (cases t) (auto simp: del_step_def)
        moreover have "fits d (if b then Suc (Suc (bh t)) else Suc (bh t))" using o(2) Cons InRight by (cases b) simp_all
        ultimately show ?thesis using del_right_goal [OF Z] t o(2) Cons InRight by auto
      qed
    qed (use True in simp)
  next
    case False
    have "\<exists>h. del_step (rootp t) (up c) s = Some (Inl 0, now_stable (s\<lparr>nodes := h, root := root s\<rparr>)) \<and> dom h = dom (nodes s) \<and>
      zip_at h (root s) (paint t) c"
    proof (cases t)
      case Tip
      then show ?thesis using False z r by (intro exI [of _ "nodes s"]) (auto simp: del_step_def)
    next
      case (Node b l x v)
      obtain h where "blacken (ptr x) s = Some (s\<lparr>nodes := h\<rparr>)" "dom h = dom (nodes s)" "zip_at h (root s) (Node True l x v) c"
        using recolour(1) [OF z [unfolded Node]] by blast
      moreover have "\<not> (up c \<noteq> 0 \<and> black t)" using False by auto
      ultimately show ?thesis using r Node S(1) by (auto simp: del_step_def)
    qed
    then obtain h where h: "del_step (rootp t) (up c) s = Some (Inl 0, now_stable (s\<lparr>nodes := h, root := root s\<rparr>))"
      "dom h = dom (nodes s)" "zip_at h (root s) (paint t) c" by blast
    have "bh (paint t) = Suc (bh t)" if "\<not> black t" using that by (cases t) auto
    then have "wf_tree (plug (paint t) c)" using o False by (cases "c = []") (simp add: wf_tree_def, auto simp: wf_plug)
    then have "rebuilt s (before c @ inorder t @ after c) (now_stable (s\<lparr>nodes := h, root := root s\<rparr>))"
      by (intro rebuiltI [OF h(3,2)]) simp_all
    then show ?thesis unfolding del_goal_def using h(1) by blast
  qed
qed

lemma del_loop_rebuilds:
  "short s t c \<Longrightarrow> \<exists>s'. del_loop (rootp t) (up c) s = Some (0, s') \<and> rebuilt s (before c @ inorder t @ after c) s'"
proof (induction "2 * length c + (if black t then 1 else 0)" arbitrary: s t c rule: less_induct)
  case less
  from del_step_goal [OF less.prems] consider
      s' where "del_step (rootp t) (up c) s = Some (Inl 0, s')" "rebuilt s (before c @ inorder t @ after c) s'"
    | h q u d where "del_step (rootp t) (up c) s = Some (Inr (rootp u, up d), s\<lparr>nodes := h, root := q\<rparr>)" "dom h = dom (nodes s)"
       "short (s\<lparr>nodes := h, root := q\<rparr>) u d" "2 * length d + (if black u then 1 else 0) < 2 * length c + (if black t then 1 else 0)"
       "before d @ inorder u @ after d = before c @ inorder t @ after c"
    unfolding del_goal_def by blast
  then show ?case
  proof cases
    case 1
    then show ?thesis by (subst del_loop.simps) simp
  next
    case 2
    from less.hyps [OF 2(4,3)] obtain s' where "del_loop (rootp u) (up d) (s\<lparr>nodes := h, root := q\<rparr>) = Some (0, s')"
      "rebuilt (s\<lparr>nodes := h, root := q\<rparr>) (before d @ inorder u @ after d) s'" by blast
    moreover from this(2) have "rebuilt s (before d @ inorder u @ after d) s'" using 2(2) unfolding rebuilt_def by simp
    ultimately show ?thesis using 2 by (subst del_loop.simps) simp
  qed
qed

end
