(* ===== verification/RbSwap.thy ===== *)
theory RbSwap
  imports RbRemove
begin

text \<open>
  The head of \<open>remove_node\<close>: the exchange of a node with its successor and the removal of a node with at most one child,
  and with the loop of \<open>RbRemove\<close> the whole function.
\<close>

section \<open>Segments of a path\<close>

text \<open>A path that ends below a node \<open>u\<close> instead of at the root.\<close>

fun upto :: "u32 \<Rightarrow> path \<Rightarrow> u32" where
  "upto u [] = u"
| "upto u (InLeft b x r # c) = ptr x"
| "upto u (InRight b l x # c) = ptr x"

fun spine :: "store \<Rightarrow> bool \<Rightarrow> u32 \<Rightarrow> u32 \<Rightarrow> path \<Rightarrow> bool" where
  "spine h sd u q [] = True"
| "spine h sd u q (InLeft b x r # c) = (ptr x \<noteq> 0 \<and> h (ptr x) = Some (cell b (side sd c) (upto u c) q x (rootp r)) \<and>
     shape h (ptr x) False r \<and> spine h sd u (ptr x) c)"
| "spine h sd u q (InRight b l x # c) = (ptr x \<noteq> 0 \<and> h (ptr x) = Some (cell b (side sd c) (upto u c) (rootp l) x q) \<and>
     shape h (ptr x) True l \<and> spine h sd u (ptr x) c)"

lemma up_append: "up (e @ d) = upto (up d) e"
  by (cases e rule: up.cases) simp_all

lemma side_append: "side sd (e @ d) = side (side sd d) e"
  by (cases e rule: up.cases) simp_all

lemma around_append:
  "around h sd q (e @ d) \<longleftrightarrow> spine h (side sd d) (up d) q e \<and> around h sd (if e = [] then q else rootp (plug Tip e)) d"
proof (induction e arbitrary: q)
  case (Cons f e)
  show ?case
  proof (cases f)
    case (InLeft b x r)
    then show ?thesis using Cons.IH [of "ptr x"] rootp_plug [of e "Node b Tip x r" Tip] by (cases "e = []") (auto simp: up_append side_append)
  next
    case (InRight b l x)
    then show ?thesis using Cons.IH [of "ptr x"] rootp_plug [of e "Node b l x Tip" Tip] by (cases "e = []") (auto simp: up_append side_append)
  qed
qed simp

lemma shape_plug_spine: "shape h u sd (plug t c) \<longleftrightarrow> shape h (upto u c) (side sd c) t \<and> spine h sd u (rootp t) c"
  by (induction t c rule: plug.induct) auto

lemma spine_cong:
  "(\<And>p. p \<in> addrs (before c) \<union> addrs (after c) \<Longrightarrow> h' p = h p) \<Longrightarrow> spine h' sd u q c = spine h sd u q c"
proof (induction c arbitrary: q)
  case (Cons f c)
  have "spine h' sd u p c = spine h sd u p c" for p
    by (rule Cons.IH, rule Cons.prems, cases f) auto
  moreover have "shape h' pa b t = shape h pa b t" if "addrs (inorder t) \<subseteq> addrs (before (f # c)) \<union> addrs (after (f # c))" for pa b t
    by (rule shape_cong, rule Cons.prems) (use that in blast)
  ultimately show ?case using Cons.prems by (cases f) (auto simp: image_Un)
qed simp

lemma spine_upd [simp]: "p \<notin> addrs (before c) \<Longrightarrow> p \<notin> addrs (after c) \<Longrightarrow> spine (h(p := v)) sd u q c = spine h sd u q c"
  by (rule spine_cong) auto

lemma rootp_in: "e \<noteq> [] \<Longrightarrow> rootp (plug t e) \<in> addrs (before e) \<union> addrs (after e)"
proof (induction t e rule: plug.induct)
  case (2 t b x r c)
  then show ?case by (cases "c = []") auto
next
  case (3 t b l x c)
  then show ?case by (cases "c = []") auto
qed simp

text \<open>The outermost node of a segment under another parent.\<close>

lemma spine_parent:
  assumes "spine h sd u q e" "e \<noteq> []" "distinct (map ptr (before e @ after e))" "p = rootp (plug t e)"
  shows "\<exists>n. h p = Some n \<and> spine (h(p \<mapsto> parent_update (\<lambda>_. v) n)) sd v q e"
  using assms
proof (induction t e arbitrary: q rule: plug.induct)
  case (2 t b x r c)
  show ?case
  proof (cases "c = []")
    case True
    then show ?thesis using "2.prems" by (intro exI [of _ "cell b sd u q x (rootp r)"]) (simp del: fun_upd_apply, simp)
  next
    case False
    have "distinct (map ptr (before c @ after c))" using "2.prems"(3) by auto
    from "2.IH" [OF _ False this, of "ptr x"] "2.prems" obtain n where
      n: "h p = Some n" "spine (h(p \<mapsto> parent_update (\<lambda>_. v) n)) sd v (ptr x) c" by (auto simp del: fun_upd_apply)
    have "p \<in> addrs (before c) \<union> addrs (after c)" using rootp_in [OF False] "2.prems"(4) by simp
    moreover have "upto v c = upto u c" using False by (cases c rule: up.cases) auto
    moreover from calculation(1) have "p \<noteq> ptr x" "p \<notin> addrs (inorder r)" using "2.prems"(3) by auto
    ultimately show ?thesis using n "2.prems" by (intro exI [of _ n]) (simp del: fun_upd_apply, simp)
  qed
next
  case (3 t b l x c)
  show ?case
  proof (cases "c = []")
    case True
    then show ?thesis using "3.prems" by (intro exI [of _ "cell b sd u (rootp l) x q"]) (simp del: fun_upd_apply, simp)
  next
    case False
    have "distinct (map ptr (before c @ after c))" using "3.prems"(3) by auto
    from "3.IH" [OF _ False this, of "ptr x"] "3.prems" obtain n where
      n: "h p = Some n" "spine (h(p \<mapsto> parent_update (\<lambda>_. v) n)) sd v (ptr x) c" by (auto simp del: fun_upd_apply)
    have "p \<in> addrs (before c) \<union> addrs (after c)" using rootp_in [OF False] "3.prems"(4) by simp
    moreover have "upto v c = upto u c" using False by (cases c rule: up.cases) auto
    moreover from calculation(1) have "p \<noteq> ptr x" "p \<notin> addrs (inorder l)" using "3.prems"(3) by auto
    ultimately show ?thesis using n "3.prems" by (intro exI [of _ n]) (simp del: fun_upd_apply, simp)
  qed
qed simp

section \<open>The successor in the right subtree\<close>

lemma leftmost_shape: "shape (nodes s) pa sd t \<Longrightarrow> leftmost (rootp t) prev s = Some (if t = Tip then prev else ptr (hd (inorder t)))"
proof (induction t arbitrary: pa sd prev)
  case (Node b l x r)
  then show ?case by (subst leftmost.simps) (cases l; auto simp: hd_append)
qed (simp add: leftmost.simps)

text \<open>A tree split at its first node.\<close>

lemma first_split:
  assumes "t \<noteq> Tip"
  obtains b w r e where "t = plug (Node b Tip w r) e" "before e = []" "\<And>sd. side sd e = (e \<noteq> [] \<or> sd)"
proof -
  have "\<exists>b w r e. t = plug (Node b Tip w r) e \<and> before e = [] \<and> (\<forall>sd. side sd e = (e \<noteq> [] \<or> sd))" using assms
  proof (induction t)
    case (Node b l x r)
    show ?case
    proof (cases "l = Tip")
      case True
      then show ?thesis by (intro exI [of _ b] exI [of _ x] exI [of _ r] exI [of _ "[]"]) simp
    next
      case False
      then obtain b' w r' e where e: "l = plug (Node b' Tip w r') e" "before e = []" "\<And>sd. side sd e = (e \<noteq> [] \<or> sd)"
        using Node.IH(1) by blast
      have "side sd (e @ [InLeft b x r])" for sd using e(3) by (simp add: side_append)
      then show ?thesis using e
        by (intro exI [of _ b'] exI [of _ w] exI [of _ r'] exI [of _ "e @ [InLeft b x r]"]) (simp add: plug_append)
    qed
  qed simp
  then show thesis using that by blast
qed

section \<open>The exchange\<close>

lemma zip_disjoint: "zip_at h q t c \<Longrightarrow> (addrs (before c) \<union> addrs (after c)) \<inter> addrs (inorder t) = {}"
  unfolding zip_at_def by auto

definition loose :: "'a rbtree_scheme \<Rightarrow> ptree \<Rightarrow> path \<Rightarrow> bool" where
  "loose s t c \<longleftrightarrow> (\<exists>sd q. shape (nodes s) (up c) (side sd c) t \<and> around (nodes s) sd q c) \<and>
     distinct (map ptr (before c @ inorder t @ after c)) \<and> (c \<noteq> [] \<longrightarrow> root s = rootp (plug t c))"

text \<open>
  The memory after the links of the two nodes have been exchanged, all but the one from above: \<open>w\<close> is where \<open>x\<close>
  was, and \<open>x\<close> where \<open>w\<close> was.
\<close>

definition swapped :: "store \<Rightarrow> bool \<Rightarrow> ptree \<Rightarrow> entry \<Rightarrow> bool \<Rightarrow> entry \<Rightarrow> ptree \<Rightarrow> path \<Rightarrow> bool \<Rightarrow> u32 \<Rightarrow> bool" where
  "swapped h b l x bp w wr e sd pa \<longleftrightarrow> (\<exists>q. spine h False (ptr w) q e \<and>
     h (ptr x) = Some (cell bp (e \<noteq> []) (upto (ptr w) e) 0 x (rootp wr)) \<and> shape h (ptr x) False wr \<and>
     h (ptr w) = Some (cell b sd pa (rootp l) w (if e = [] then q else rootp (plug Tip e))) \<and> shape h (ptr w) True l)"

lemma swap_direct:
  assumes S: "shape (nodes s) pa sd (Node b l x (Node bp Tip w wr))" and l: "l \<noteq> Tip"
    and d: "distinct (map ptr (inorder (Node b l x (Node bp Tip w wr))))"
  shows "\<exists>h. swap_links (ptr x) (ptr w) s = Some (s\<lparr>nodes := h\<rparr>) \<and> dom h = dom (nodes s) \<and> swapped h b l x bp w wr [] sd pa \<and>
    (\<forall>p. p \<notin> addrs (inorder (Node b l x (Node bp Tip w wr))) \<longrightarrow> h p = nodes s p)"
proof -
  obtain bl ll y lr where l: "l = Node bl ll y lr" using l by (cases l) auto
  show ?thesis
  proof (cases wr)
    case Tip
    then show ?thesis using S d l by (auto simp: swap_links_def swapped_def image_iff)
  next
    case (Node br rl v rr)
    then show ?thesis using S d l by (auto simp: swap_links_def swapped_def image_iff)
  qed
qed

lemma swap_far:
  assumes S: "shape (nodes s) pa sd (Node b l x r)" and r: "r = plug (Node bp Tip w wr) e" "before e = []" "side False e" "e \<noteq> []"
    and l: "l \<noteq> Tip" and d: "distinct (map ptr (inorder (Node b l x r)))"
  shows "\<exists>h. swap_links (ptr x) (ptr w) s = Some (s\<lparr>nodes := h\<rparr>) \<and> dom h = dom (nodes s) \<and> swapped h b l x bp w wr e sd pa \<and>
    (\<forall>p. p \<notin> addrs (inorder (Node b l x r)) \<longrightarrow> h p = nodes s p)"
proof -
  obtain bl ll y lr where l: "l = Node bl ll y lr" using l by (cases l) auto
  let ?z = "rootp r"
  have R: "shape (nodes s) (upto (ptr x) e) True (Node bp Tip w wr)" "spine (nodes s) False (ptr x) (ptr w) e"
    using S r(1,3) by (simp_all add: shape_plug_spine)
  have de: "distinct (map ptr (before e @ after e))" using d r by auto
  obtain n where n: "nodes s ?z = Some n" "spine ((nodes s)(?z \<mapsto> parent_update (\<lambda>_. ptr w) n)) False (ptr w) (ptr w) e"
    using spine_parent [OF R(2) r(4) de, of ?z "Node bp Tip w wr"] r(1) by blast
  have z: "?z \<in> addrs (after e)" using rootp_in [OF r(4), of "Node bp Tip w wr"] r(1,2) by simp
  then obtain zx where "zx \<in> set (inorder r)" "?z = ptr zx" using r(1) by auto
  then have z0: "?z \<noteq> 0" using shape_dom [of "nodes s" "ptr x" False r zx] S by simp
  have z': "?z \<noteq> ptr x" "?z \<noteq> ptr w" "?z \<notin> addrs (inorder l)" "?z \<notin> addrs (inorder wr)"
    using z d r(1,2) by (auto simp del: plug.simps)
  have u: "upto (ptr w) e = upto (ptr x) e" using r(4) by (cases e rule: up.cases) simp_all
  have q: "?z = rootp (plug Tip e)" using r(1,4) rootp_plug by metis
  define vs where "vs = (if wr = Tip then {} else {rootp wr})"
  have "\<exists>h. swap_links (ptr x) (ptr w) s = Some (s\<lparr>nodes := h\<rparr>) \<and> dom h = dom (nodes s) \<and>
    h (ptr x) = Some (cell bp True (upto (ptr x) e) 0 x (rootp wr)) \<and> shape h (ptr x) False wr \<and>
    h (ptr w) = Some (cell b sd pa (rootp l) w ?z) \<and> shape h (ptr w) True l \<and> h ?z = Some (parent_update (\<lambda>_. ptr w) n) \<and>
    (\<forall>p. p \<notin> {ptr x, ptr w, ptr y, ?z} \<union> vs \<longrightarrow> h p = nodes s p)"
  proof (cases wr)
    case Tip
    then show ?thesis using S R(1) d l r(1,2) n(1) z0 z' by (auto simp: swap_links_def image_iff vs_def)
  next
    case (Node br rl v rr)
    then show ?thesis using S R(1) d l r(1,2) n(1) z0 z' by (auto simp: swap_links_def image_iff vs_def)
  qed
  then obtain h where h: "swap_links (ptr x) (ptr w) s = Some (s\<lparr>nodes := h\<rparr>)" "dom h = dom (nodes s)"
    "h (ptr x) = Some (cell bp True (upto (ptr x) e) 0 x (rootp wr))" "shape h (ptr x) False wr"
    "h (ptr w) = Some (cell b sd pa (rootp l) w ?z)" "shape h (ptr w) True l" "h ?z = Some (parent_update (\<lambda>_. ptr w) n)"
    "\<forall>p. p \<notin> {ptr x, ptr w, ptr y, ?z} \<union> vs \<longrightarrow> h p = nodes s p" by blast
  have v: "vs \<subseteq> addrs (inorder wr)" by (cases wr) (auto simp: vs_def)
  have "spine h False (ptr w) (ptr w) e = spine ((nodes s)(?z \<mapsto> parent_update (\<lambda>_. ptr w) n)) False (ptr w) (ptr w) e"
  proof (rule spine_cong)
    fix p
    assume "p \<in> addrs (before e) \<union> addrs (after e)"
    then have "p \<notin> {ptr x, ptr w, ptr y} \<union> vs" using d v l r(1,2) by (auto simp: image_iff)
    then show "h p = ((nodes s)(?z \<mapsto> parent_update (\<lambda>_. ptr w) n)) p" using h(7,8) by (auto simp: fun_upd_def)
  qed
  then have "swapped h b l x bp w wr e sd pa" unfolding swapped_def by (intro exI [of _ "ptr w"] conjI) (use n(2) h(3-6) u q r(4) in simp_all)
  moreover have "h p = nodes s p" if "p \<notin> addrs (inorder (Node b l x r))" for p
    using h(8) that z v l r(1,2) by (auto simp: image_iff)
  ultimately show ?thesis using h(1,2) by blast
qed

lemma swapped_cong:
  assumes "swapped h b l x bp w wr e sd pa" "before e = []"
    "\<And>p. p \<in> addrs (inorder (Node b l x (plug (Node bp Tip w wr) e))) \<Longrightarrow> h' p = h p"
  shows "swapped h' b l x bp w wr e sd pa"
proof -
  have "shape h' pb sb t = shape h pb sb t" if "addrs (inorder t) \<subseteq> addrs (inorder (Node b l x (plug (Node bp Tip w wr) e)))" for pb sb t
    by (rule shape_cong, rule assms(3)) (use that in blast)
  moreover have "spine h' sb u q e = spine h sb u q e" for sb u q
    by (rule spine_cong, rule assms(3)) (use assms(2) in auto)
  moreover from calculation(1) have "shape h' (ptr x) False wr = shape h (ptr x) False wr" "shape h' (ptr w) True l = shape h (ptr w) True l"
    by (auto simp: image_Un)
  ultimately show ?thesis using assms(1,2) assms(3) [of "ptr x"] assms(3) [of "ptr w"] unfolding swapped_def by simp
qed

lemma swapped_loose:
  assumes "swapped h b l x bp w wr e (side sd c) (up c)" "around h sd (ptr w) c" "side False e = (e \<noteq> [])" "before e = []"
    "ptr x \<noteq> 0" "ptr w \<noteq> 0" "distinct (map ptr (before c @ inorder (Node b l x (plug (Node bp Tip w wr) e)) @ after c))"
    "nodes s = h" "root s = rootp (plug (Node b l w Tip) c)"
  shows "loose s (Node bp Tip x wr) (e @ InRight b l w # c)"
proof -
  obtain q where q: "spine h False (ptr w) q e" "h (ptr x) = Some (cell bp (e \<noteq> []) (upto (ptr w) e) 0 x (rootp wr))" "shape h (ptr x) False wr"
    "h (ptr w) = Some (cell b (side sd c) (up c) (rootp l) w (if e = [] then q else rootp (plug Tip e)))" "shape h (ptr w) True l"
    using assms(1) unfolding swapped_def by blast
  have "around h sd q (e @ InRight b l w # c)" using q assms(2,6) by (simp add: around_append)
  moreover have "shape h (up (e @ InRight b l w # c)) (side sd (e @ InRight b l w # c)) (Node bp Tip x wr)"
    using q assms(3,5) by (simp add: up_append side_append)
  moreover have "rootp (plug (Node bp Tip x wr) (e @ InRight b l w # c)) = rootp (plug (Node b l w Tip) c)"
    by (cases "c = []") (simp_all add: plug_append, metis rootp_plug)
  ultimately show ?thesis using assms(4,7-9) unfolding loose_def by (auto simp: image_iff)
qed

lemma swap_nodes_loose:
  assumes z: "zip_at (nodes s) (root s) (Node b l x r) c" and l: "l \<noteq> Tip"
    and r: "r = plug (Node bp Tip w wr) e" "before e = []" "side False e = (e \<noteq> [])"
  shows "\<exists>h q. swap_nodes (ptr x) (ptr w) s = Some (s\<lparr>nodes := h, root := q\<rparr>) \<and> dom h = dom (nodes s) \<and>
    loose (s\<lparr>nodes := h, root := q\<rparr>) (Node bp Tip x wr) (e @ InRight b l w # c)"
proof -
  obtain sd where S: "shape (nodes s) (up c) (side sd c) (Node b l x r)" "around (nodes s) sd (ptr x) c"
    by (rule zip_facts [OF z]) simp
  note d = zip_distinct_sub [OF z] and D = zip_distinct [OF z]
  have "\<exists>h. swap_links (ptr x) (ptr w) s = Some (s\<lparr>nodes := h\<rparr>) \<and> dom h = dom (nodes s) \<and> swapped h b l x bp w wr e (side sd c) (up c) \<and>
    (\<forall>p. p \<notin> addrs (inorder (Node b l x r)) \<longrightarrow> h p = nodes s p)"
    using swap_direct [of s "up c" "side sd c" b l x bp w wr] swap_far [OF S(1) r(1,2) _ _ l d] S(1) l d r by (cases "e = []") auto
  then obtain h where h: "swap_links (ptr x) (ptr w) s = Some (s\<lparr>nodes := h\<rparr>)" "dom h = dom (nodes s)"
    "swapped h b l x bp w wr e (side sd c) (up c)" "\<forall>p. p \<notin> addrs (inorder (Node b l x r)) \<longrightarrow> h p = nodes s p" by blast
  have "around h sd (ptr x) c = around (nodes s) sd (ptr x) c"
  proof (rule around_cong)
    fix p
    assume "p \<in> addrs (before c) \<union> addrs (after c)"
    then have "p \<notin> addrs (inorder (Node b l x r))" using zip_disjoint [OF z] by blast
    then show "h p = nodes s p" using h(4) by blast
  qed
  with S(2) have A: "around h sd (ptr x) c" by simp
  obtain q where w: "h (ptr w) = Some (cell b (side sd c) (up c) (rootp l) w q)" using h(3) unfolding swapped_def by blast
  have n0: "ptr x \<noteq> 0" "ptr w \<noteq> 0" using shape_dom [OF S(1)] r by auto
  show ?thesis
  proof (cases "c = []")
    case True
    have "swap_nodes (ptr x) (ptr w) s = Some (s\<lparr>nodes := h, root := ptr w\<rparr>)"
      using h(1) w True by (simp add: swap_nodes_def)
    moreover have "loose (s\<lparr>nodes := h, root := ptr w\<rparr>) (Node bp Tip x wr) (e @ InRight b l w # c)"
      by (rule swapped_loose [OF h(3)]) (use True r n0 D in simp_all)
    ultimately show ?thesis using h(2) by blast
  next
    case False
    have dc: "distinct (map ptr (before c @ after c))" "up c \<notin> addrs (inorder (Node b l x r))"
      by (rule zip_facts [OF z], assumption, rule zip_facts [OF z], use False in blast)
    obtain h' where h': "link1 (ptr w) (ptr w) (s\<lparr>nodes := h\<rparr>) = Some (s\<lparr>nodes := h'\<rparr>)" "dom h' = dom h" "around h' sd (ptr w) c"
      "\<forall>p. p \<noteq> up c \<longrightarrow> h' p = h p"
      using link1_around [OF A False w, of "s\<lparr>nodes := h\<rparr>" "ptr w"] dc(1) by auto
    have "swap_nodes (ptr x) (ptr w) s = Some (s\<lparr>nodes := h', root := root s\<rparr>)"
      using h(1) w h'(1) up_not_0 [OF A False] by (simp add: swap_nodes_def link1_def)
    moreover have "swapped h' b l x bp w wr e (side sd c) (up c)"
      by (rule swapped_cong [OF h(3) r(2)]) (use h'(4) dc(2) r(1) in metis)
    then have "loose (s\<lparr>nodes := h', root := root s\<rparr>) (Node bp Tip x wr) (e @ InRight b l w # c)"
      by (rule swapped_loose [OF _ h'(3)]) (use r n0 D zip_root [OF z] rootp_plug [OF False] in simp_all)
    ultimately show ?thesis using h(2) h'(2) by metis
  qed
qed

section \<open>The removal of a node with at most one child\<close>

lemma unlink_below:
  assumes L: "loose s (Node b l x r) c" and c: "c \<noteq> []" and lr: "l = Tip \<and> ch = r \<or> r = Tip \<and> ch = l"
  shows "\<exists>h. unlink_node al (ptr x) s = Some (Inr (rootp ch, up c), s\<lparr>nodes := h\<rparr>) \<and> dom h = dom (nodes s) \<and>
    h (ptr x) = nodes s (ptr x) \<and> zip_at (h(ptr x := None)) (root s) ch c"
proof -
  obtain sd q where S: "shape (nodes s) (up c) (side sd c) (Node b l x r)" "around (nodes s) sd q c"
    and D: "distinct (map ptr (before c @ inorder (Node b l x r) @ after c))" and R: "root s = rootp (plug (Node b l x r) c)"
    using L c unfolding loose_def by auto
  have dc: "distinct (map ptr (before c @ after c))" and dis: "(addrs (before c) \<union> addrs (after c)) \<inter> addrs (inorder (Node b l x r)) = {}"
    and di: "distinct (map ptr (inorder (Node b l x r)))" using D by auto
  have u: "up c \<notin> addrs (inorder (Node b l x r))" "up c \<noteq> 0" using up_in [OF c] dis up_not_0 [OF S(2) c] by auto
  have dx: "ptr x \<notin> addrs (inorder ch)" "addrs (inorder ch) \<subseteq> addrs (inorder (Node b l x r))" using di lr by auto
  define h1 where "h1 = (case ch of Tip \<Rightarrow> nodes s | Node b' l' y r' \<Rightarrow> (nodes s)(ptr y \<mapsto> cell b' (side sd c) (up c) (rootp l') y (rootp r')))"
  have h1: "h1 (ptr x) = nodes s (ptr x)" "shape h1 (up c) (side sd c) ch" "dom h1 = dom (nodes s)"
  proof -
    obtain sy where "shape (nodes s) (ptr x) sy ch" using S(1) lr by auto
    moreover have "distinct (map ptr (inorder ch))" using di lr by auto
    ultimately show "h1 (ptr x) = nodes s (ptr x)" "shape h1 (up c) (side sd c) ch" "dom h1 = dom (nodes s)"
      using dx(1) unfolding h1_def by (cases ch; auto simp: image_iff)+
  qed
  have f1: "h1 p = nodes s p" if "p \<notin> addrs (inorder ch)" for p using that by (cases ch) (auto simp: h1_def)
  have "around h1 sd q c = around (nodes s) sd q c"
  proof (rule around_cong)
    fix p
    assume "p \<in> addrs (before c) \<union> addrs (after c)"
    then have "p \<notin> addrs (inorder ch)" using dis dx(2) by blast
    then show "h1 p = nodes s p" by (rule f1)
  qed
  with S(2) have A: "around h1 sd q c" by simp
  have cx: "h1 (ptr x) = Some (cell b (side sd c) (up c) (rootp l) x (rootp r))" using S(1) h1(1) by simp
  obtain h where h: "link1 (rootp ch) (ptr x) (s\<lparr>nodes := h1\<rparr>) = Some (s\<lparr>nodes := h\<rparr>)" "dom h = dom h1" "around h sd (rootp ch) c"
      "\<forall>p. p \<noteq> up c \<longrightarrow> h p = h1 p"
    using link1_around [OF A c cx, of "s\<lparr>nodes := h1\<rparr>" "rootp ch"] dc by auto
  have "unlink_node al (ptr x) s = Some (Inr (rootp ch, up c), s\<lparr>nodes := h\<rparr>)"
  proof (cases ch)
    case Tip
    then show ?thesis using S(1) lr h(1) u(2) by (auto simp: unlink_node_def link1_def h1_def)
  next
    case (Node b' l' y r')
    have "ptr y \<noteq> ptr x" "ptr y \<noteq> 0" using dx(1) S(1) lr Node by auto
    then show ?thesis using S(1) lr h(1) u(2) Node
      by (cases "side sd c") (auto simp: unlink_node_def link1_def h1_def)
  qed
  moreover have "h (ptr x) = nodes s (ptr x)" using h(4) h1(1) u(1) by auto
  moreover have "zip_at (h(ptr x := None)) (root s) ch c"
  proof -
    have "shape h (up c) (side sd c) ch = shape h1 (up c) (side sd c) ch"
    proof (rule shape_cong)
      fix p
      assume "p \<in> addrs (inorder ch)"
      then have "p \<noteq> up c" using u(1) dx(2) by blast
      then show "h p = h1 p" using h(4) by blast
    qed
    then have "shape (h(ptr x := None)) (up c) (side sd c) ch" using h1(2) dx(1) by simp
    moreover have "around (h(ptr x := None)) sd (rootp ch) c" using h(3) dis by (subst around_upd) auto
    moreover have "distinct (map ptr (before c @ inorder ch @ after c))" using D lr by auto
    moreover have "root s = rootp (plug ch c)" using R rootp_plug [OF c] by metis
    ultimately show ?thesis unfolding zip_at_def by blast
  qed
  ultimately show ?thesis using h(2) h1(3) by metis
qed

lemma unlink_root_leaf:
  assumes "loose s (Node b Tip x Tip) []"
  shows "unlink_node al (ptr x) s = Some (Inl 0, now_stable (s\<lparr>nodes := (nodes s)(ptr x := None), root := 0, arena := rbtreeFree al (ptr x) (arena s)\<rparr>))"
  using assms by (auto simp: loose_def unlink_node_def free_node_def)

lemma unlink_root_child:
  assumes L: "loose s (Node b l x r) []" and lr: "l = Tip \<and> ch = r \<or> r = Tip \<and> ch = l" and ch: "ch \<noteq> Tip"
  shows "\<exists>h. unlink_node al (ptr x) s = Some (Inl 0, now_stable (s\<lparr>nodes := h, root := rootp ch\<rparr>)) \<and> dom h = dom (nodes s) \<and>
    zip_at h (rootp ch) (paint ch) []"
proof -
  obtain sd where S: "shape (nodes s) 0 sd (Node b l x r)" and d: "distinct (map ptr (inorder (Node b l x r)))"
    using L unfolding loose_def by auto
  obtain b' l' y r' where y: "ch = Node b' l' y r'" using ch by (cases ch) auto
  have hx: "nodes s (ptr x) = Some (cell b sd 0 (rootp l) x (rootp r))" using S by simp
  obtain sy where "shape (nodes s) (ptr x) sy ch" using S lr by auto
  then have sy: "nodes s (ptr y) = Some (cell b' sy (ptr x) (rootp l') y (rootp r'))" "shape (nodes s) (ptr y) True l'"
    "shape (nodes s) (ptr y) False r'" "ptr y \<noteq> 0" using y by simp_all
  have "ptr x \<notin> addrs (inorder ch)" "distinct (map ptr (inorder ch))" using d lr by auto
  then have d: "ptr y \<noteq> ptr x" "ptr y \<notin> addrs (inorder l')" "ptr y \<notin> addrs (inorder r')" "distinct (map ptr (inorder ch))" using y by auto
  let ?h = "(nodes s)(ptr y \<mapsto> cell True sy 0 (rootp l') y (rootp r'))"
  have "unlink_node al (ptr x) s = Some (Inl 0, now_stable (s\<lparr>nodes := ?h, root := ptr y\<rparr>))"
    using hx lr y sy d(1) by (auto simp: unlink_node_def Let_def)
  moreover have "zip_at ?h (ptr y) (Node True l' y r') []"
    using sy d y unfolding zip_at_def by (auto intro!: exI [of _ sy])
  moreover have "dom ?h = dom (nodes s)" using sy(1) by auto
  ultimately show ?thesis using y by (intro exI [of _ ?h]) simp
qed

section \<open>The whole function\<close>

text \<open>
  \<open>shrunk s s' x xs\<close>: the tree holds the entries \<open>xs\<close>, and the node of \<open>x\<close> has been freed, or it has not, which is the
  case of a root with one child.
\<close>

definition shrunk :: "'h allocator \<Rightarrow> 'h rbstate \<Rightarrow> 'h rbstate \<Rightarrow> u32 \<Rightarrow> entry list \<Rightarrow> bool" where
  "shrunk al s s' p xs \<longleftrightarrow> (\<exists>t. tree_at s' t \<and> inorder t = xs) \<and>
     (dom (nodes s') = dom (nodes s) - {p} \<and> arena s' = rbtreeFree al p (arena s) \<or> dom (nodes s') = dom (nodes s) \<and> arena s' = arena s)"

lemma shape_paint_Tip: "tree_at s Tip \<longleftrightarrow> root s = 0"
  by (auto simp: tree_at_def zip_at_def wf_tree_def)

lemma remove_loose:
  assumes L: "loose s (Node b l x r) c" and lr: "l = Tip \<and> ch = r \<or> r = Tip \<and> ch = l" and w: "wf_tree (plug (Node b l x r) c)"
    and sw: "swap_successor (ptr x) (now_unstable s0) = Some s" and s0: "dom (nodes s) = dom (nodes s0)" "arena s = arena s0"
  shows "\<exists>s'. remove_node al (ptr x) s0 = Some (0, s') \<and> shrunk al s0 s' (ptr x) (before c @ inorder ch @ after c)"
proof -
  have o: "ok (Node b l x r)" "fits c (bh (Node b l x r))" "b \<or> parent_black c" using w by (auto simp: wf_plug)
  have och: "ok ch" "bh ch = bh l" "bh ch = bh r" "\<not> b \<Longrightarrow> black ch" using o(1) lr by auto
  have px: "ok (paint ch)" using och(1) by (cases ch) auto
  show ?thesis
  proof (cases "c = []")
    case True
    show ?thesis
    proof (cases "ch = Tip")
      case True
      then have t: "l = Tip" "r = Tip" using lr och by (cases l; cases r; auto)+
      let ?s = "now_stable (s\<lparr>nodes := (nodes s)(ptr x := None), root := 0, arena := rbtreeFree al (ptr x) (arena s)\<rparr>)"
      have "remove_node al (ptr x) s0 = Some (0, ?s)"
        using sw unlink_root_leaf [of s b x al] L t \<open>c = []\<close> by (simp add: remove_node_def)
      moreover have "shrunk al s0 ?s (ptr x) []"
        unfolding shrunk_def using s0 by (auto intro!: exI [of _ Tip] simp: shape_paint_Tip now_stable_def)
      ultimately show ?thesis using True \<open>c = []\<close> by auto
    next
      case False
      obtain h where h: "unlink_node al (ptr x) s = Some (Inl 0, now_stable (s\<lparr>nodes := h, root := rootp ch\<rparr>))" "dom h = dom (nodes s)"
        "zip_at h (rootp ch) (paint ch) []" using unlink_root_child [OF L [unfolded True] lr False] by blast
      let ?s = "now_stable (s\<lparr>nodes := h, root := rootp ch\<rparr>)"
      have "remove_node al (ptr x) s0 = Some (0, ?s)" using sw h(1) by (simp add: remove_node_def)
      moreover have "shrunk al s0 ?s (ptr x) (inorder ch)"
        unfolding shrunk_def using s0 h px by (auto intro!: exI [of _ "paint ch"] simp: tree_at_def wf_tree_def now_stable_def)
      ultimately show ?thesis using True by auto
    qed
  next
    case False
    obtain h where h: "unlink_node al (ptr x) s = Some (Inr (rootp ch, up c), s\<lparr>nodes := h\<rparr>)" "dom h = dom (nodes s)"
      "h (ptr x) = nodes s (ptr x)" "zip_at (h(ptr x := None)) (root s) ch c" using unlink_below [OF L False lr] by blast
    obtain sd where S: "shape (nodes s) (up c) (side sd c) (Node b l x r)" using L unfolding loose_def by blast
    let ?s = "s\<lparr>nodes := h(ptr x := None), arena := rbtreeFree al (ptr x) (arena s)\<rparr>"
    have f: "free_node al (ptr x) (s\<lparr>nodes := h\<rparr>) = Some ?s" using S h(3) by (simp add: free_node_def)
    have d: "dom (nodes ?s) = dom (nodes s0) - {ptr x}" using h(2) s0(1) by auto
    have g: "shrunk al s0 s' (ptr x) xs" if "rebuilt ?s xs s'" for s' xs
    proof -
      obtain h' q t where "s' = now_stable (?s\<lparr>nodes := h', root := q\<rparr>)" "dom h' = dom (nodes ?s)" "tree_at s' t" "inorder t = xs"
        using \<open>rebuilt ?s xs s'\<close> unfolding rebuilt_def by blast
      moreover from this(1) have "nodes s' = h'" "arena s' = arena ?s" by (simp_all add: now_stable_def)
      ultimately show ?thesis unfolding shrunk_def using d s0(2) by (simp del: fun_upd_apply) blast
    qed
    have m: "fld meta (ptr x) (s\<lparr>nodes := h\<rparr>) = Some (flags b (side sd c))" using S h(3) by (simp add: fld_def)
    show ?thesis
    proof (cases b)
      case False
      have "remove_node al (ptr x) s0 = Some (0, now_stable ?s)" using sw h(1) f m False by (simp add: remove_node_def)
      moreover have "rebuilt ?s (before c @ inorder ch @ after c) (now_stable (?s\<lparr>nodes := h(ptr x := None), root := root s\<rparr>))"
        by (rule rebuiltI [OF h(4)]) (use o och False in \<open>simp_all add: wf_plug\<close>)
      moreover have "?s\<lparr>nodes := h(ptr x := None), root := root s\<rparr> = ?s" by simp
      ultimately show ?thesis using g by metis
    next
      case True
      have "short ?s ch c" using h(4) px o(2) och True by (simp add: short_def)
      from del_loop_rebuilds [OF this] obtain s' where
        "del_loop (rootp ch) (up c) ?s = Some (0, s')" "rebuilt ?s (before c @ inorder ch @ after c) s'" by blast
      then show ?thesis using sw h(1) f m True g by (simp add: remove_node_def)
    qed
  qed
qed

lemma rootp_0: "shape h pa sd t \<Longrightarrow> rootp t = 0 \<longleftrightarrow> t = Tip"
  by (cases t) simp_all

lemma plug_colours:
  assumes "ok t = ok u" "bh t = bh u" "black t = black u"
  shows "ok (plug t c) = ok (plug u c) \<and> bh (plug t c) = bh (plug u c) \<and> black (plug t c) = black (plug u c)"
  using assms
proof (induction c arbitrary: t u)
  case (Cons f c)
  show ?case
  proof (cases f)
    case (InLeft b x r)
    then show ?thesis using Cons.IH [of "Node b t x r" "Node b u x r"] Cons.prems by simp
  next
    case (InRight b l x)
    then show ?thesis using Cons.IH [of "Node b l x t" "Node b l x u"] Cons.prems by simp
  qed
qed simp

lemma remove_shrinks:
  assumes "tree_at s (plug (Node b l x r) c)"
  shows "\<exists>s'. remove_node al (ptr x) s = Some (0, s') \<and> shrunk al s s' (ptr x) (before c @ inorder l @ inorder r @ after c)"
proof -
  let ?s = "now_unstable s"
  have w: "wf_tree (plug (Node b l x r) c)" using assms by (simp add: tree_at_def)
  have z: "zip_at (nodes ?s) (root ?s) (Node b l x r) c" using tree_zip(1) [OF assms] by (simp add: now_unstable_def)
  obtain sd where S: "shape (nodes ?s) (up c) (side sd c) (Node b l x r)" by (rule zip_facts [OF z])
  note e = red_ptr_at(1,2) [OF z]
  have n0: "rootp l = 0 \<longleftrightarrow> l = Tip" "rootp r = 0 \<longleftrightarrow> r = Tip"
    using S rootp_0 [of "nodes ?s" "ptr x" True l] rootp_0 [of "nodes ?s" "ptr x" False r] by simp_all
  show ?thesis
  proof (cases "l = Tip \<or> r = Tip")
    case True
    have "swap_successor (ptr x) ?s = Some ?s" using e n0 True by (auto simp: swap_successor_def)
    moreover have "loose ?s (Node b l x r) c" using z unfolding loose_def zip_at_def by blast
    moreover have "dom (nodes ?s) = dom (nodes s)" "arena ?s = arena s" by (simp_all add: now_unstable_def)
    ultimately have R: "l = Tip \<and> ch = r \<or> r = Tip \<and> ch = l \<Longrightarrow>
        \<exists>s'. remove_node al (ptr x) s = Some (0, s') \<and> shrunk al s s' (ptr x) (before c @ inorder ch @ after c)" for ch
      using remove_loose [OF _ _ w] by blast
    show ?thesis using R [of r] R [of l] True by (cases "l = Tip") simp_all
  next
    case False
    then obtain bp v wr p where r: "r = plug (Node bp Tip v wr) p" "before p = []" "\<And>sd. side sd p = (p \<noteq> [] \<or> sd)"
      using first_split by metis
    obtain h q where h: "swap_nodes (ptr x) (ptr v) ?s = Some (?s\<lparr>nodes := h, root := q\<rparr>)" "dom h = dom (nodes ?s)"
      "loose (?s\<lparr>nodes := h, root := q\<rparr>) (Node bp Tip x wr) (p @ InRight b l v # c)"
      using swap_nodes_loose [OF z _ r(1,2)] r(3) False by auto
    have "leftmost (rootp r) (rootp r) ?s = Some (ptr v)"
      using leftmost_shape [of ?s "ptr x" False r] S False r(1,2) by simp
    then have "swap_successor (ptr x) ?s = Some (?s\<lparr>nodes := h, root := q\<rparr>)"
      using e n0 False h(1) by (simp add: swap_successor_def)
    moreover have "wf_tree (plug (Node bp Tip x wr) (p @ InRight b l v # c))"
    proof -
      have "ok (plug (Node bp Tip v wr) p) = ok (plug (Node bp Tip x wr) p) \<and> bh (plug (Node bp Tip v wr) p) = bh (plug (Node bp Tip x wr) p) \<and>
        black (plug (Node bp Tip v wr) p) = black (plug (Node bp Tip x wr) p)" by (rule plug_colours) simp_all
      then show ?thesis using w r(1) by (simp add: plug_append wf_plug)
    qed
    moreover have "dom (nodes (?s\<lparr>nodes := h, root := q\<rparr>)) = dom (nodes s)" "arena (?s\<lparr>nodes := h, root := q\<rparr>) = arena s"
      using h(2) by (simp_all add: now_unstable_def)
    ultimately show ?thesis using remove_loose [OF h(3), of wr s al] r(1,2) by auto
  qed
qed

end
