(* ===== verification/RbList.thy ===== *)
theory RbList
  imports RbSwap
begin

text \<open>
  The tree of \<open>Rbtree\<close> as the list of its entries: what reading, updating, walking, removing and adding do to
  that list, with the shape of the tree hidden.
\<close>

definition holds :: "'a rbtree_scheme \<Rightarrow> entry list \<Rightarrow> bool" where
  "holds s xs \<longleftrightarrow> (\<exists>t. tree_at s t \<and> inorder t = xs)"

lemma inorder_Nil [simp]: "inorder t = [] \<longleftrightarrow> t = Tip"
  by (cases t) simp_all

lemma split_tree:
  assumes "inorder t = xs @ y # ys"
  obtains b l r c where "t = plug (Node b l y r) c" "xs = before c @ inorder l" "ys = inorder r @ after c"
proof -
  have "\<exists>b l r c. t = plug (Node b l y r) c \<and> xs = before c @ inorder l \<and> ys = inorder r @ after c" using assms
  proof (induction t arbitrary: xs ys)
    case (Node b l x r)
    from Node.prems consider zs where "inorder l = xs @ y # zs" "ys = zs @ x # inorder r"
      | "xs = inorder l" "y = x" "ys = inorder r"
      | zs where "inorder r = zs @ y # ys" "xs = inorder l @ x # zs"
      by (auto simp: append_eq_append_conv2 append_eq_Cons_conv Cons_eq_append_conv)
    then show ?case
    proof cases
      case 1
      from Node.IH(1) [OF 1(1)] obtain b' l' r' c where "l = plug (Node b' l' y r') c" "xs = before c @ inorder l'" "zs = inorder r' @ after c" by blast
      then show ?thesis using 1(2)
        by (intro exI [of _ b'] exI [of _ l'] exI [of _ r'] exI [of _ "c @ [InLeft b x r]"]) (simp add: plug_append)
    next
      case 2
      then show ?thesis by (intro exI [of _ b] exI [of _ l] exI [of _ r] exI [of _ "[]"]) simp
    next
      case 3
      from Node.IH(2) [OF 3(1)] obtain b' l' r' c where "r = plug (Node b' l' y r') c" "zs = before c @ inorder l'" "ys = inorder r' @ after c" by blast
      then show ?thesis using 3(2)
        by (intro exI [of _ b'] exI [of _ l'] exI [of _ r'] exI [of _ "c @ [InRight b l x]"]) (simp add: plug_append)
    qed
  qed simp
  then show thesis using that by blast
qed

lemma holds_split:
  assumes "holds s (xs @ y # ys)"
  obtains b l r c where "tree_at s (plug (Node b l y r) c)" "xs = before c @ inorder l" "ys = inorder r @ after c"
  using assms unfolding holds_def by (auto elim!: split_tree)

lemma holds_node:
  assumes "holds s (xs @ y # ys)"
  obtains n where "nodes s (ptr y) = Some n" "start n = first y" "stop n = bound y" "data n = val y" "ptr y \<noteq> 0"
proof -
  obtain b l r c where T: "tree_at s (plug (Node b l y r) c)" by (rule holds_split [OF assms])
  obtain sd where "shape (nodes s) (up c) (side sd c) (Node b l y r)" by (rule zip_facts [OF tree_zip(1) [OF T]])
  then show thesis using that [of "cell b (side sd c) (up c) (rootp l) y (rootp r)"] by simp
qed

lemma holds_fld:
  assumes "holds s (xs @ y # ys)"
  shows "fld start (ptr y) s = Some (first y)" "fld stop (ptr y) s = Some (bound y)" "fld data (ptr y) s = Some (val y)" "ptr y \<noteq> 0"
    "ptr y \<in> dom (nodes s)"
proof -
  obtain n where "nodes s (ptr y) = Some n" "start n = first y" "stop n = bound y" "data n = val y" "ptr y \<noteq> 0"
    by (rule holds_node [OF assms])
  then show "fld start (ptr y) s = Some (first y)" "fld stop (ptr y) s = Some (bound y)" "fld data (ptr y) s = Some (val y)" "ptr y \<noteq> 0"
    "ptr y \<in> dom (nodes s)" by auto
qed

lemma holds_distinct: "holds s xs \<Longrightarrow> distinct (map ptr xs)"
  unfolding holds_def tree_at_def zip_at_def by auto

lemma holds_Nil: "holds s [] \<longleftrightarrow> root s = 0"
  unfolding holds_def inorder_Nil by (auto simp: shape_paint_Tip)

lemma holds_cong: "nodes s' = nodes s \<Longrightarrow> root s' = root s \<Longrightarrow> holds s' xs = holds s xs"
  by (simp add: holds_def tree_at_def)

section \<open>Updating an entry\<close>

lemma set_entry:
  assumes "holds s (xs @ y # ys)" "ptr y' = ptr y"
    "\<And>b sd pa lp rp. f (cell b sd pa lp y rp) = cell b sd pa lp y' rp"
  shows "\<exists>h. set_fld f (ptr y) s = Some (s\<lparr>nodes := h\<rparr>) \<and> dom h = dom (nodes s) \<and> holds (s\<lparr>nodes := h\<rparr>) (xs @ y' # ys)"
proof -
  obtain b l r c where T: "tree_at s (plug (Node b l y r) c)" "xs = before c @ inorder l" "ys = inorder r @ after c"
    by (rule holds_split [OF assms(1)])
  note z = tree_zip(1) [OF T(1)]
  obtain sd where S: "shape (nodes s) (up c) (side sd c) (Node b l y r)" "around (nodes s) sd (ptr y) c" by (rule zip_facts [OF z]) simp
  let ?h = "(nodes s)(ptr y \<mapsto> cell b (side sd c) (up c) (rootp l) y' (rootp r))"
  note D = zip_distinct [OF z]
  have di: "(addrs (before c) \<union> addrs (after c)) \<inter> addrs (inorder (Node b l y r)) = {}" by (rule zip_disjoint [OF z])
  have "shape ?h (up c) (side sd c) (Node b l y' r)" using S(1) D assms(2) by auto
  moreover have "around ?h sd (ptr y') c" using S(2) di assms(2) by (subst around_upd) auto
  moreover have "distinct (map ptr (before c @ inorder (Node b l y' r) @ after c))" using D assms(2) by simp
  moreover have "root s = rootp (plug (Node b l y' r) c)"
    using zip_root [OF z] assms(2) rootp_plug [of c "Node b l y r" "Node b l y' r"] by (cases "c = []") simp_all
  ultimately have "zip_at ?h (root s) (Node b l y' r) c" unfolding zip_at_def rootp.simps by blast
  moreover have "wf_tree (plug (Node b l y' r) c)" using T(1) by (simp add: tree_at_def wf_plug)
  ultimately have "tree_at (s\<lparr>nodes := ?h\<rparr>) (plug (Node b l y' r) c)" by (simp add: tree_at_def zip_plug)
  then have "holds (s\<lparr>nodes := ?h\<rparr>) (xs @ y' # ys)"
    unfolding holds_def by (intro exI [of _ "plug (Node b l y' r) c"]) (simp add: T(2,3))
  moreover have "set_fld f (ptr y) s = Some (s\<lparr>nodes := ?h\<rparr>)" using S(1) assms(3) by simp
  moreover have "dom ?h = dom (nodes s)" using S(1) by auto
  ultimately show ?thesis by blast
qed

lemma set_start: "holds s (xs @ y # ys) \<Longrightarrow> \<exists>h. set_fld (start_update (\<lambda>_. v)) (ptr y) s = Some (s\<lparr>nodes := h\<rparr>) \<and> dom h = dom (nodes s) \<and>
    holds (s\<lparr>nodes := h\<rparr>) (xs @ Entry (ptr y) v (bound y) (val y) # ys)"
  and set_stop: "holds s (xs @ y # ys) \<Longrightarrow> \<exists>h. set_fld (stop_update (\<lambda>_. v)) (ptr y) s = Some (s\<lparr>nodes := h\<rparr>) \<and> dom h = dom (nodes s) \<and>
    holds (s\<lparr>nodes := h\<rparr>) (xs @ Entry (ptr y) (first y) v (val y) # ys)"
  and set_data: "holds s (xs @ y # ys) \<Longrightarrow> \<exists>h. set_fld (data_update (\<lambda>_. v)) (ptr y) s = Some (s\<lparr>nodes := h\<rparr>) \<and> dom h = dom (nodes s) \<and>
    holds (s\<lparr>nodes := h\<rparr>) (xs @ Entry (ptr y) (first y) (bound y) v # ys)"
  by (rule set_entry, assumption, simp, simp add: cell_def)+

section \<open>Walking\<close>

lemma descend_right: "shape (nodes s) pa sd t \<Longrightarrow> t \<noteq> Tip \<Longrightarrow> descend right (rootp t) s = Some (ptr (last (inorder t)))"
proof (induction t arbitrary: pa sd)
  case (Node b l x r)
  then show ?case by (subst descend.simps) (cases r; auto)
qed simp

lemma descend_left: "shape (nodes s) pa sd t \<Longrightarrow> t \<noteq> Tip \<Longrightarrow> descend left (rootp t) s = Some (ptr (hd (inorder t)))"
proof (induction t arbitrary: pa sd)
  case (Node b l x r)
  then show ?case by (subst descend.simps) (cases l; auto simp: hd_append)
qed simp

definition ptr_hd :: "entry list \<Rightarrow> u32" where
  "ptr_hd xs = (case xs of [] \<Rightarrow> 0 | x # _ \<Rightarrow> ptr x)"

definition ptr_last :: "entry list \<Rightarrow> u32" where
  "ptr_last xs = (if xs = [] then 0 else ptr (last xs))"

lemma ptr_hd_simps [simp]: "ptr_hd [] = 0" "ptr_hd (x # xs) = ptr x"
  by (simp_all add: ptr_hd_def)

lemma ptr_hd_append: "ptr_hd (xs @ ys) = (if xs = [] then ptr_hd ys else ptr (hd xs))"
  by (cases xs) simp_all

lemma ptr_last_simps [simp]: "ptr_last [] = 0" "ptr_last (xs @ [x]) = ptr x"
  by (simp_all add: ptr_last_def)

lemma ascend_right:
  assumes "shape (nodes s) (up c) (side sd c) (Node b l x r)" "around (nodes s) sd (ptr x) c"
  shows "ascend False (ptr x) s = Some (ptr_hd (after c))"
  using assms
proof (induction c arbitrary: b l x r)
  case Nil
  then show ?case by (subst ascend.simps) simp
next
  case (Cons f c)
  show ?case
  proof (cases f)
    case (InLeft b' y r')
    then show ?thesis using Cons.prems by (subst ascend.simps) auto
  next
    case (InRight b' l' y)
    have "ascend False (ptr y) s = Some (ptr_hd (after c))"
      by (rule Cons.IH [of b' l' y "Node b l x r"]) (use Cons.prems InRight in auto)
    then show ?thesis using Cons.prems InRight by (subst ascend.simps) auto
  qed
qed

lemma ascend_left:
  assumes "shape (nodes s) (up c) (side sd c) (Node b l x r)" "around (nodes s) sd (ptr x) c"
  shows "ascend True (ptr x) s = Some (ptr_last (before c))"
  using assms
proof (induction c arbitrary: b l x r)
  case Nil
  then show ?case by (subst ascend.simps) simp
next
  case (Cons f c)
  show ?case
  proof (cases f)
    case (InRight b' l' y)
    then show ?thesis using Cons.prems by (subst ascend.simps) (auto simp: ptr_last_def)
  next
    case (InLeft b' y r')
    have "ascend True (ptr y) s = Some (ptr_last (before c))"
      by (rule Cons.IH [of b' "Node b l x r" y r']) (use Cons.prems InLeft in auto)
    then show ?thesis using Cons.prems InLeft by (subst ascend.simps) auto
  qed
qed

lemma succ_next:
  assumes "holds s (xs @ y # ys)"
  shows "succ_node (ptr y) s = Some (ptr_hd ys)"
proof -
  obtain b l r c where T: "tree_at s (plug (Node b l y r) c)" "ys = inorder r @ after c" using holds_split [OF assms] by metis
  obtain sd where S: "shape (nodes s) (up c) (side sd c) (Node b l y r)" "around (nodes s) sd (ptr y) c"
    by (rule zip_facts [OF tree_zip(1) [OF T(1)]]) simp
  have y: "ptr y \<noteq> 0" "fld right (ptr y) s = Some (rootp r)" using S by simp_all
  show ?thesis
  proof (cases r)
    case Tip
    then show ?thesis using ascend_right [OF S] y T(2) by (simp add: succ_node_def)
  next
    case (Node b' l' x r')
    then have r: "shape (nodes s) (ptr y) False r" "r \<noteq> Tip" "rootp r \<noteq> 0" using S by auto
    then show ?thesis using descend_left [OF r(1,2)] y T(2) by (simp add: succ_node_def ptr_hd_append)
  qed
qed

lemma pred_prev:
  assumes "holds s (xs @ y # ys)"
  shows "pred_node (ptr y) s = Some (ptr_last xs)"
proof -
  obtain b l r c where T: "tree_at s (plug (Node b l y r) c)" "xs = before c @ inorder l" using holds_split [OF assms] by metis
  obtain sd where S: "shape (nodes s) (up c) (side sd c) (Node b l y r)" "around (nodes s) sd (ptr y) c"
    by (rule zip_facts [OF tree_zip(1) [OF T(1)]]) simp
  have y: "ptr y \<noteq> 0" "fld left (ptr y) s = Some (rootp l)" using S by simp_all
  show ?thesis
  proof (cases l)
    case Tip
    then show ?thesis using ascend_left [OF S] y T(2) by (simp add: pred_node_def)
  next
    case (Node b' l' x r')
    then have r: "shape (nodes s) (ptr y) True l" "l \<noteq> Tip" "rootp l \<noteq> 0" using S by auto
    then show ?thesis using descend_right [OF r(1,2)] y T(2) Node by (auto simp: pred_node_def ptr_last_def)
  qed
qed

text \<open>Two neighbours do not both have a child between them; the first entry has none before it, the last none after it.\<close>

lemma gap:
  assumes "holds s (xs @ y # ys)" "fld right (ptr y) s = Some q" "q \<noteq> 0"
  obtains z zs where "ys = z # zs" "fld left (ptr z) s = Some 0"
proof -
  obtain b l r c where T: "tree_at s (plug (Node b l y r) c)" "ys = inorder r @ after c" using holds_split [OF assms(1)] by metis
  obtain sd where S: "shape (nodes s) (up c) (side sd c) (Node b l y r)" by (rule zip_facts [OF tree_zip(1) [OF T(1)]])
  then have "r \<noteq> Tip" using assms(2,3) by auto
  then obtain b' w r' e where r: "r = plug (Node b' Tip w r') e" "before e = []" using first_split by metis
  have "shape (nodes s) (ptr y) False (plug (Node b' Tip w r') e)" using S r(1) by simp
  then have "fld left (ptr w) s = Some 0" unfolding shape_plug_spine by auto
  then show thesis using that T(2) r by simp
qed

lemma gap_last:
  assumes "holds s (xs @ [y])"
  shows "fld right (ptr y) s = Some 0"
proof -
  obtain n where "nodes s (ptr y) = Some n" using holds_node [OF assms] by blast
  then obtain q where q: "fld right (ptr y) s = Some q" by (simp add: fld_def)
  then show ?thesis using gap [OF assms q] by (cases "q = 0") auto
qed

lemma gap_before:
  assumes "holds s (xs @ y # ys)" "fld left (ptr y) s = Some q" "q \<noteq> 0"
  obtains z zs where "xs = zs @ [z]" "fld right (ptr z) s = Some 0"
proof -
  obtain b l r c where T: "tree_at s (plug (Node b l y r) c)" "xs = before c @ inorder l" using holds_split [OF assms(1)] by metis
  obtain sd where S: "shape (nodes s) (up c) (side sd c) (Node b l y r)" by (rule zip_facts [OF tree_zip(1) [OF T(1)]])
  then have "l \<noteq> Tip" using assms(2,3) by auto
  then obtain zs z where z: "xs = zs @ [z]" using T(2) by (metis append_is_Nil_conv inorder_Nil rev_exhaust)
  then have h: "holds s (zs @ z # y # ys)" using assms(1) by simp
  obtain n where "nodes s (ptr z) = Some n" using holds_node [OF h] by blast
  then obtain q' where q': "fld right (ptr z) s = Some q'" by (simp add: fld_def)
  have "q' = 0"
  proof (rule ccontr)
    assume "q' \<noteq> 0"
    then have "fld left (ptr y) s = Some 0" using gap [OF h q'] by auto
    then show False using assms(2,3) by simp
  qed
  then show thesis using that z q' by simp
qed

end
