(* ===== verification/RbSearch.thy ===== *)
theory RbSearch
  imports RbList
begin

text \<open>
  The entries of the tree of \<open>Rbtree\<close> as a map from addresses to values, and the searches: each finds in the tree what it
  should find in the ordered list of ranges.
\<close>

section \<open>Ranges\<close>

definition ranges :: "entry list \<Rightarrow> bool" where
  "ranges xs \<longleftrightarrow> sorted_wrt (\<lambda>x y. bound x \<le> first y) xs \<and> (\<forall>x \<in> set xs. first x < bound x)"

definition covers :: "u32 \<Rightarrow> entry \<Rightarrow> bool" where
  "covers a x \<longleftrightarrow> first x \<le> a \<and> a < bound x"

fun content :: "entry list \<Rightarrow> u32 \<Rightarrow> u32 option" where
  "content [] a = None"
| "content (x # xs) a = (if covers a x then Some (val x) else content xs a)"

lemma ranges_simps [simp]:
  "ranges []"
  "ranges (x # xs) \<longleftrightarrow> first x < bound x \<and> (\<forall>y \<in> set xs. bound x \<le> first y) \<and> ranges xs"
  "ranges (xs @ ys) \<longleftrightarrow> ranges xs \<and> ranges ys \<and> (\<forall>x \<in> set xs. \<forall>y \<in> set ys. bound x \<le> first y)"
  by (auto simp: ranges_def sorted_wrt_append)

lemma ranges_first: "ranges xs \<Longrightarrow> x \<in> set xs \<Longrightarrow> first x < bound x"
  by (simp add: ranges_def)

lemma content_append: "content (xs @ ys) a = (case content xs a of None \<Rightarrow> content ys a | Some d \<Rightarrow> Some d)"
  by (induction xs) simp_all

lemma content_None: "content xs a = None \<longleftrightarrow> (\<forall>x \<in> set xs. \<not> covers a x)"
  by (induction xs) auto

lemma content_below: "\<forall>x \<in> set xs. a < first x \<Longrightarrow> content xs a = None"
  by (auto simp: content_None covers_def)

lemma content_above: "\<forall>x \<in> set xs. bound x \<le> a \<Longrightarrow> content xs a = None"
  by (auto simp: content_None covers_def)

lemma content_find: "content xs a = map_option val (List.find (covers a) xs)"
  by (induction xs) auto

section \<open>Finding an address\<close>

lemma find_right:
  assumes "ranges (xs @ x # ys)" "\<not> a < first x" "\<not> covers a x"
  shows "List.find (covers a) (xs @ x # ys) = List.find (covers a) ys" "content (xs @ x # ys) a = content ys a"
proof -
  have "\<not> covers a y" if "y \<in> set xs" for y
    using assms that by (auto simp: covers_def dest!: bspec) 
  then have n: "List.find (covers a) xs = None" by (auto simp: find_None_iff)
  show f: "List.find (covers a) (xs @ x # ys) = List.find (covers a) ys" using n assms(3) by (induction xs) (auto split: if_splits)
  then show "content (xs @ x # ys) a = content ys a" by (simp add: content_find)
qed

lemma find_left:
  assumes "ranges (xs @ x # ys)" "a < first x"
  shows "List.find (covers a) (xs @ x # ys) = List.find (covers a) xs" "content (xs @ x # ys) a = content xs a"
proof -
  have "\<not> covers a y" if "y \<in> set ys" for y
    using assms that by (auto simp: covers_def dest!: bspec)
  then have n: "List.find (covers a) ys = None" by (auto simp: find_None_iff)
  show f: "List.find (covers a) (xs @ x # ys) = List.find (covers a) xs" using n assms(2)
    by (induction xs) (auto simp: covers_def)
  then show "content (xs @ x # ys) a = content xs a" by (simp add: content_find)
qed

lemma find_hit:
  assumes "ranges (xs @ x # ys)" "covers a x"
  shows "List.find (covers a) (xs @ x # ys) = Some x"
proof -
  have "\<not> covers a y" if "y \<in> set xs" for y
    using assms that by (auto simp: covers_def dest!: bspec)
  then show ?thesis using assms(2) by (induction xs) auto
qed

lemma find_from_finds:
  assumes "shape (nodes s) pa sd t" "ranges (inorder t)"
  shows "find_from a (rootp t) s = Some (case List.find (covers a) (inorder t) of None \<Rightarrow> 0 | Some x \<Rightarrow> ptr x)"
  using assms
proof (induction t arbitrary: pa sd)
  case (Node b l x r)
  have c: "first x \<le> a \<and> a < bound x \<longleftrightarrow> covers a x" by (simp add: covers_def)
  consider "covers a x" | "a < first x" "\<not> covers a x" | "\<not> a < first x" "\<not> covers a x" by auto
  then show ?case
  proof cases
    case 1
    then show ?thesis using Node.prems find_hit [of "inorder l" x "inorder r"]
      by (subst find_from.simps) (auto simp: covers_def)
  next
    case 2
    then show ?thesis using Node.prems c Node.IH(1) [of "ptr x" True] find_left [of "inorder l" x "inorder r" a]
      by (subst find_from.simps) auto
  next
    case 3
    then show ?thesis using Node.prems c Node.IH(2) [of "ptr x" False] find_right [of "inorder l" x "inorder r" a]
      by (subst find_from.simps) auto
  qed
qed (simp add: find_from.simps)

lemma holds_shape:
  assumes "holds s xs"
  obtains t sd where "shape (nodes s) 0 sd t" "inorder t = xs" "root s = rootp t"
proof -
  obtain t where t: "zip_at (nodes s) (root s) t []" "inorder t = xs" using assms unfolding holds_def tree_at_def by blast
  obtain sd where "shape (nodes s) 0 sd t" using zip_facts [OF t(1)] by auto
  moreover have "root s = rootp t" using zip_root [OF t(1)] by simp
  ultimately show thesis using that t(2) by blast
qed

lemma find_addr_finds:
  assumes "holds s xs" "ranges xs"
  shows "find_addr a s = Some (case List.find (covers a) xs of None \<Rightarrow> 0 | Some x \<Rightarrow> ptr x)"
  using find_from_finds assms unfolding find_addr_def by (metis holds_shape)

lemma rb_get_content:
  assumes "holds s xs" "ranges xs"
  shows "rb_get a s = Some (case content xs a of None \<Rightarrow> 0 | Some d \<Rightarrow> d)"
proof (cases "List.find (covers a) xs")
  case None
  then show ?thesis using find_addr_finds [OF assms, of a] by (simp add: rb_get_def content_find)
next
  case (Some x)
  then obtain us vs where "xs = us @ x # vs" by (auto simp: find_Some_iff in_set_conv_decomp dest!: nth_mem)
  then show ?thesis using find_addr_finds [OF assms, of a] holds_fld(3,4) [of s us x vs] assms(1) Some
    by (simp add: rb_get_def content_find)
qed

text \<open>The end of what is found at an address: of the range that covers it, or of the gap there.\<close>

fun gap_end :: "u32 \<Rightarrow> u32 \<Rightarrow> entry list \<Rightarrow> u32" where
  "gap_end a e [] = e"
| "gap_end a e (x # xs) = (if covers a x then bound x else if a < first x then first x else gap_end a e xs)"

lemma gap_end_right: "ranges (xs @ x # ys) \<Longrightarrow> bound x \<le> a \<Longrightarrow> gap_end a e (xs @ x # ys) = gap_end a e ys"
  by (induction xs) (auto simp: covers_def dest!: bspec)

lemma gap_end_left: "ranges (xs @ x # ys) \<Longrightarrow> a < first x \<Longrightarrow> gap_end a e (xs @ x # ys) = gap_end a (first x) xs"
  by (induction xs) (auto simp: covers_def)

lemma gap_end_hit: "ranges (xs @ x # ys) \<Longrightarrow> covers a x \<Longrightarrow> gap_end a e (xs @ x # ys) = bound x"
  by (induction xs) (auto simp: covers_def dest!: bspec)

lemma get_end_from_finds:
  assumes "shape (nodes s) pa sd t" "ranges (inorder t)" "next \<noteq> 0 \<longrightarrow> fld start next s = Some e" "next = 0 \<longrightarrow> e = - 1"
  shows "get_end_from a (rootp t) next s =
    Some (case content (inorder t) a of None \<Rightarrow> 0 | Some d \<Rightarrow> 1, case content (inorder t) a of None \<Rightarrow> 0 | Some d \<Rightarrow> d, gap_end a e (inorder t))"
  using assms
proof (induction t arbitrary: pa sd "next" e)
  case (Node b l x r)
  have w: "first x < bound x" using Node.prems(2) by simp
  then consider "covers a x" | "a < first x" | "bound x \<le> a" unfolding covers_def by (metis not_le)
  then show ?case
  proof cases
    case 1
    then show ?thesis using Node.prems gap_end_hit [of "inorder l" x "inorder r"] find_hit [of "inorder l" x "inorder r" a]
      by (subst get_end_from.simps) (auto simp: covers_def content_find)
  next
    case 2
    then have c: "\<not> (first x \<le> a \<and> a < bound x)" "\<not> bound x \<le> a" using w by auto
    have "get_end_from a (rootp l) (ptr x) s = Some (case content (inorder l) a of None \<Rightarrow> 0 | Some d \<Rightarrow> 1,
        case content (inorder l) a of None \<Rightarrow> 0 | Some d \<Rightarrow> d, gap_end a (first x) (inorder l))"
      by (rule Node.IH(1) [of "ptr x" True]) (use Node.prems in auto)
    then show ?thesis using 2 Node.prems c find_left [of "inorder l" x "inorder r" a] gap_end_left [of "inorder l" x "inorder r"]
      by (subst get_end_from.simps) auto
  next
    case 3
    then have c: "\<not> (first x \<le> a \<and> a < bound x)" "\<not> a < first x" "\<not> covers a x" using w by (auto simp: covers_def)
    show ?thesis using 3 Node.prems c Node.IH(2) [of "ptr x" False "next" e] find_right [of "inorder l" x "inorder r" a]
        gap_end_right [of "inorder l" x "inorder r"]
      by (subst get_end_from.simps) auto
  qed
qed (auto simp: get_end_from.simps)

lemma rb_get_end_content:
  assumes "holds s xs" "ranges xs"
  shows "rb_get_end a s =
    Some (case content xs a of None \<Rightarrow> 0 | Some d \<Rightarrow> 1, case content xs a of None \<Rightarrow> 0 | Some d \<Rightarrow> d, gap_end a (- 1) xs)"
proof -
  obtain t sd where "shape (nodes s) 0 sd t" "inorder t = xs" "root s = rootp t" by (rule holds_shape [OF assms(1)])
  then show ?thesis using get_end_from_finds [of s 0 sd t 0 "- 1" a] assms(2) by (simp add: rb_get_end_def)
qed

section \<open>The search of \<open>rb_set\<close> and \<open>rb_unset\<close>\<close>

lemma ranges_ascending: "ranges (xs @ x # ys) \<Longrightarrow> (\<forall>y \<in> set xs. first y < first x) \<and> (\<forall>y \<in> set ys. first x < first y)"
proof -
  assume r: "ranges (xs @ x # ys)"
  have "first y < first x" if "y \<in> set xs" for y
    using r that ranges_first [OF r, of y] by (auto intro: less_le_trans)
  moreover have "first x < first y" if "y \<in> set ys" for y
    using r that by (auto intro: less_le_trans)
  ultimately show ?thesis by blast
qed

text \<open>The parts of an ordered list before and after the place where \<open>st\<close> starts.\<close>

definition starting_before :: "u32 \<Rightarrow> entry list \<Rightarrow> entry list" where
  "starting_before st xs = filter (\<lambda>x. first x < st) xs"

definition starting_after :: "u32 \<Rightarrow> entry list \<Rightarrow> entry list" where
  "starting_after st xs = filter (\<lambda>x. st < first x) xs"

definition starting_at :: "u32 \<Rightarrow> entry list \<Rightarrow> entry list" where
  "starting_at st xs = filter (\<lambda>x. first x = st) xs"

lemma split_right:
  assumes "ranges (xs @ x # ys)" "first x < st"
  shows "starting_before st (xs @ x # ys) = xs @ x # starting_before st ys" "starting_after st (xs @ x # ys) = starting_after st ys" "starting_at st (xs @ x # ys) = starting_at st ys"
proof -
  have "\<forall>y \<in> set xs. first y < st" using ranges_ascending [OF assms(1)] assms(2) by auto
  then show "starting_before st (xs @ x # ys) = xs @ x # starting_before st ys" "starting_after st (xs @ x # ys) = starting_after st ys" "starting_at st (xs @ x # ys) = starting_at st ys"
    using assms(2) by (auto simp: starting_before_def starting_after_def starting_at_def filter_empty_conv)
qed

lemma split_left:
  assumes "ranges (xs @ x # ys)" "st < first x"
  shows "starting_before st (xs @ x # ys) = starting_before st xs" "starting_after st (xs @ x # ys) = starting_after st xs @ x # ys" "starting_at st (xs @ x # ys) = starting_at st xs"
proof -
  have "\<forall>y \<in> set ys. st < first y" using ranges_ascending [OF assms(1)] assms(2) by auto
  then show "starting_before st (xs @ x # ys) = starting_before st xs" "starting_after st (xs @ x # ys) = starting_after st xs @ x # ys" "starting_at st (xs @ x # ys) = starting_at st xs"
    using assms(2) by (auto simp: starting_before_def starting_after_def starting_at_def filter_empty_conv)
qed

lemma split_here:
  assumes "ranges (xs @ x # ys)"
  shows "starting_before (first x) (xs @ x # ys) = xs" "starting_after (first x) (xs @ x # ys) = ys"
    "starting_at (first x) (xs @ x # ys) = [x]"
proof -
  note o = ranges_ascending [OF assms]
  then show "starting_before (first x) (xs @ x # ys) = xs" "starting_after (first x) (xs @ x # ys) = ys"
    by (auto simp: starting_before_def starting_after_def filter_empty_conv filter_id_conv)
  have "first y \<noteq> first x" if "y \<in> set xs \<or> y \<in> set ys" for y using o that by auto
  then show "starting_at (first x) (xs @ x # ys) = [x]" by (simp add: starting_at_def filter_empty_conv)
qed

lemma split_all: "ranges xs \<Longrightarrow> starting_before st xs @ starting_at st xs @ starting_after st xs = xs"
proof (induction xs)
  case (Cons x xs)
  then have "ranges ([] @ x # xs)" "starting_before st xs @ starting_at st xs @ starting_after st xs = xs" by simp_all
  then show ?case using split_right [of "[]" x xs st] split_left [of "[]" x xs st] split_here [of "[]" x xs]
    by (cases "first x" st rule: linorder_cases) (auto simp: starting_before_def starting_after_def starting_at_def)
qed (simp add: starting_before_def starting_after_def starting_at_def)

lemma seek_splits:
  assumes "shape (nodes s) pa sd t" "ranges (inorder t)"
  shows "seek st (rootp t) prev lst s = Some (ptr_hd (starting_at st (inorder t)),
    if starting_before st (inorder t) = [] then prev else ptr_last (starting_before st (inorder t)),
    if starting_after st (inorder t) = [] then lst else ptr_hd (starting_after st (inorder t)))"
  using assms
proof (induction t arbitrary: pa sd prev lst)
  case Tip
  then show ?case by (simp add: seek.simps starting_before_def starting_after_def starting_at_def)
next
  case (Node b l x r)
  have e: "ranges (inorder l @ x # inorder r)" "ranges (inorder l)" "ranges (inorder r)" using Node.prems(2) by simp_all
  have h: "ptr_hd xs = ptr (hd xs)" if "xs \<noteq> []" for xs using that by (cases xs) simp_all
  consider "first x < st" | "first x = st" | "st < first x" by (rule linorder_cases)
  then show ?case
  proof cases
    case 1
    then show ?thesis using Node.prems(1) Node.IH(2) [of "ptr x" False "ptr x" lst] split_right [OF e(1) 1] e(3)
      by (subst seek.simps) (auto simp: ptr_last_def)
  next
    case 3
    then show ?thesis using Node.prems(1) Node.IH(1) [of "ptr x" True prev "ptr x"] split_left [OF e(1) 3] e(2)
      by (subst seek.simps) (auto simp: h)
  next
    case 2
    have l: "rootp l = 0 \<longleftrightarrow> l = Tip" "l \<noteq> Tip \<Longrightarrow> descend right (rootp l) s = Some (ptr (last (inorder l)))"
      using Node.prems(1) rootp_0 [of "nodes s" "ptr x" True l] descend_right [of s "ptr x" True l] by simp_all
    have r: "rootp r = 0 \<longleftrightarrow> r = Tip" "r \<noteq> Tip \<Longrightarrow> descend left (rootp r) s = Some (ptr (hd (inorder r)))"
      using Node.prems(1) rootp_0 [of "nodes s" "ptr x" False r] descend_left [of s "ptr x" False r] by simp_all
    show ?thesis using Node.prems(1) l r split_here [OF e(1)] 2
      by (subst seek.simps) (auto simp: ptr_last_def h)
  qed
qed

lemma seek_finds:
  assumes "holds s xs" "ranges xs"
  shows "seek st (root s) 0 0 s = Some (ptr_hd (starting_at st xs), ptr_last (starting_before st xs), ptr_hd (starting_after st xs))"
proof -
  obtain t sd where "shape (nodes s) 0 sd t" "inorder t = xs" "root s = rootp t" by (rule holds_shape [OF assms(1)])
  then show ?thesis using seek_splits [of s 0 sd t st 0 0] assms(2) by simp
qed

end
