(* ===== verification/RbRange.thy ===== *)
theory RbRange
  imports RbSearch
begin

text \<open>
  What \<open>rb_set\<close> and \<open>rb_unset\<close> do to the map that the tree of \<open>Rbtree\<close> represents. The tree relies on its allocator
  through the locale \<open>node_allocator\<close>: a node it hands out is not in use, and giving one back takes no other away.
\<close>

section \<open>The allocator of the nodes\<close>

locale node_allocator =
  fixes al :: "'h allocator" and live :: "'h \<Rightarrow> u32 set" and ready :: "nat \<Rightarrow> 'h \<Rightarrow> bool" and fails :: bool
  assumes malloc: "ready (Suc n) a \<Longrightarrow> \<exists>p a'. rbtreeMalloc al a = Some (p, a') \<and> ready n a' \<and>
      (p = 0 \<and> fails \<and> live a' = live a \<or> p \<noteq> 0 \<and> p \<notin> live a \<and> live a' = insert p (live a))"
    and less: "ready (Suc n) a \<Longrightarrow> ready n a"
    and free: "ready n a \<Longrightarrow> p \<in> live a \<Longrightarrow> ready n (rbtreeFree al p a) \<and> live (rbtreeFree al p a) = live a - {p}"

text \<open>
  The tree holds the entries \<open>xs\<close> in nodes of its own, \<open>R\<close> are the areas of others, and the allocator has answers
  for \<open>n\<close> more nodes.
\<close>

definition repr :: "('h \<Rightarrow> u32 set) \<Rightarrow> (nat \<Rightarrow> 'h \<Rightarrow> bool) \<Rightarrow> nat \<Rightarrow> u32 set \<Rightarrow> 'h rbstate \<Rightarrow> entry list \<Rightarrow> bool" where
  "repr live ready n R s xs \<longleftrightarrow> holds s xs \<and> live (arena s) = R \<union> dom (nodes s) \<and> R \<inter> dom (nodes s) = {} \<and> ready n (arena s)"

lemma repr_holds: "repr live ready n R s xs \<Longrightarrow> holds s xs"
  by (simp add: repr_def)

text \<open>Where a new entry between \<open>xs\<close> and \<open>ys\<close> may be attached.\<close>

definition next_to :: "'a rbtree_scheme \<Rightarrow> entry list \<Rightarrow> u32 \<Rightarrow> entry list \<Rightarrow> u32 \<Rightarrow> bool" where
  "next_to s xs st ys q \<longleftrightarrow> xs = [] \<and> ys = [] \<or>
     (\<exists>y zs. xs = zs @ [y] \<and> q = ptr y \<and> first y < st \<and> fld right q s = Some 0) \<or>
     (\<exists>y zs. ys = y # zs \<and> q = ptr y \<and> \<not> first y < st \<and> fld left q s = Some 0)"

text \<open>The room beside a neighbour, where the source looks at one link only to choose.\<close>

lemma next_to_right:
  assumes "holds s (xs @ y # ys)" "first y < st" "\<forall>z \<in> set ys. \<not> first z < st" "fld right (ptr y) s = Some r"
  shows "next_to s (xs @ [y]) st ys (if r \<noteq> 0 then ptr_hd ys else ptr y)"
proof (cases "r = 0")
  case False
  then obtain z zs where "ys = z # zs" "fld left (ptr z) s = Some 0" using gap [OF assms(1,4)] by blast
  then show ?thesis using False assms(3) by (simp add: next_to_def)
qed (use assms in \<open>simp add: next_to_def\<close>)

lemma next_to_left:
  assumes "holds s (xs @ y # ys)" "\<not> first y < st" "\<forall>z \<in> set xs. first z < st" "fld left (ptr y) s = Some l"
  shows "next_to s xs st (y # ys) (if l \<noteq> 0 then ptr_last xs else ptr y)"
proof (cases "l = 0")
  case False
  then obtain z zs where "xs = zs @ [z]" "fld right (ptr z) s = Some 0" using gap_before [OF assms(1,4)] by blast
  then show ?thesis using False assms(3) by (simp add: next_to_def)
qed (use assms in \<open>simp add: next_to_def\<close>)

lemma next_to_end: "holds s xs \<Longrightarrow> \<forall>z \<in> set xs. first z < st \<Longrightarrow> next_to s xs st [] (ptr_last xs)"
  using gap_last [of s "butlast xs" "last xs"] unfolding next_to_def
  by (cases xs rule: rev_cases) (auto simp del: append_butlast_last_id)

lemma holds_right: "holds s (xs @ y # ys) \<Longrightarrow> \<exists>r. fld right (ptr y) s = Some r"
  and holds_left: "holds s (xs @ y # ys) \<Longrightarrow> \<exists>l. fld left (ptr y) s = Some l"
  using holds_fld(5) by (fastforce simp: fld_def)+

lemma attach:
  assumes "holds s (xs @ ys)" "next_to s xs st ys q" "rbtreeMalloc al (arena s) = Some (p, a)" "p \<noteq> 0" "p \<notin> dom (nodes s)"
  shows "\<exists>s'. add_range_next_to al q st en d s = Some (0, s') \<and> grown s s' p a (xs @ Entry p st en d # ys)"
proof -
  from assms(2) consider "xs = []" "ys = []"
    | y zs where "xs = zs @ [y]" "q = ptr y" "first y < st" "fld right q s = Some 0"
    | y zs where "ys = y # zs" "q = ptr y" "\<not> first y < st" "fld left q s = Some 0"
    unfolding next_to_def by blast
  then show ?thesis
  proof cases
    case 1
    then have "tree_at s Tip" using assms(1) by (simp add: holds_Nil shape_paint_Tip)
    then show ?thesis using add_first [OF _ assms(3-5)] 1 by simp
  next
    case 2
    then have "holds s (zs @ y # ys)" using assms(1) by simp
    then obtain b l r c where T: "tree_at s (plug (Node b l y r) c)" "zs = before c @ inorder l" "ys = inorder r @ after c"
      by (rule holds_split)
    obtain sd where "shape (nodes s) (up c) (side sd c) (Node b l y r)" by (rule zip_facts [OF tree_zip(1) [OF T(1)]])
    then have "r = Tip" using 2(2,4) rootp_0 [of "nodes s" "ptr y" False r] by simp
    then show ?thesis using add_after [of s b l y c] T assms(3-5) 2 by simp
  next
    case 3
    then have "holds s (xs @ y # zs)" using assms(1) by simp
    then obtain b l r c where T: "tree_at s (plug (Node b l y r) c)" "xs = before c @ inorder l" "zs = inorder r @ after c"
      by (rule holds_split)
    obtain sd where "shape (nodes s) (up c) (side sd c) (Node b l y r)" by (rule zip_facts [OF tree_zip(1) [OF T(1)]])
    then have "l = Tip" using 3(2,4) rootp_0 [of "nodes s" "ptr y" True l] by simp
    then show ?thesis using add_before [of s b y r c] T assms(3-5) 3 by simp
  qed
qed

section \<open>The list after the removal of what a range covers\<close>

definition covered :: "u32 \<Rightarrow> entry \<Rightarrow> bool" where
  "covered en x \<longleftrightarrow> first x < en \<and> bound x \<le> en"

fun cut_hd :: "u32 \<Rightarrow> entry list \<Rightarrow> entry list" where
  "cut_hd en [] = []"
| "cut_hd en (x # xs) = (if first x < en then Entry (ptr x) en (bound x) (val x) # xs else x # xs)"

text \<open>The list that the loop leaves, for a range that ends at \<open>en\<close>.\<close>

definition swept :: "u32 \<Rightarrow> entry list \<Rightarrow> bool" where
  "swept en xs \<longleftrightarrow> (\<forall>x \<in> set xs. en < bound x) \<and> (\<forall>x \<in> set (tl xs). en \<le> first x)"

lemma swept_dropWhile:
  assumes "ranges xs"
  shows "swept en (dropWhile (covered en) xs)" "\<And>a. en \<le> a \<Longrightarrow> content (dropWhile (covered en) xs) a = content xs a"
proof -
  show "swept en (dropWhile (covered en) xs)" using assms
  proof (induction xs)
    case (Cons x xs)
    show ?case
    proof (cases "covered en x")
      case False
      then have b: "en < bound x" using Cons.prems unfolding covered_def by (auto intro: le_less_trans)
      have "en \<le> first y \<and> en < bound y" if "y \<in> set xs" for y
        using b Cons.prems that ranges_first [of xs y] by (auto intro: less_imp_le le_less_trans less_le_trans)
      then show ?thesis using False b by (simp add: swept_def)
    qed (use Cons in simp)
  qed (simp add: swept_def)
  show "content (dropWhile (covered en) xs) a = content xs a" if "en \<le> a" for a
    using that by (induction xs) (auto simp: covered_def covers_def)
qed

lemma ranges_dropWhile: "ranges xs \<Longrightarrow> ranges (dropWhile P xs)"
  by (induction xs) auto

lemma cut_swept:
  assumes "swept en xs" "ranges xs"
  shows "ranges (cut_hd en xs)" "\<forall>x \<in> set (cut_hd en xs). en \<le> first x"
    "\<And>a. content (cut_hd en xs) a = (if a < en then None else content xs a)"
proof -
  show 1: "\<forall>x \<in> set (cut_hd en xs). en \<le> first x" using assms(1) by (cases xs) (auto simp: swept_def)
  show "ranges (cut_hd en xs)" using assms by (cases xs) (auto simp: swept_def)
  show "content (cut_hd en xs) a = (if a < en then None else content xs a)" for a
  proof (cases "a < en")
    case True
    then show ?thesis using 1 content_below [of "cut_hd en xs" a] by (auto intro: less_le_trans)
  next
    case False
    then show ?thesis by (cases xs) (auto simp: covers_def)
  qed
qed

section \<open>The operations on the list\<close>

lemma repr_update:
  assumes "repr live ready n R s xs" "\<exists>h. f = Some (s\<lparr>nodes := h\<rparr>) \<and> dom h = dom (nodes s) \<and> holds (s\<lparr>nodes := h\<rparr>) ys"
  shows "\<exists>s'. f = Some s' \<and> repr live ready n R s' ys"
  using assms unfolding repr_def by fastforce

lemma repr_start: "repr live ready n R s (xs @ y # ys) \<Longrightarrow> \<exists>s'. set_fld (start_update (\<lambda>_. v)) (ptr y) s = Some s' \<and>
    repr live ready n R s' (xs @ Entry (ptr y) v (bound y) (val y) # ys)"
  and repr_stop: "repr live ready n R s (xs @ y # ys) \<Longrightarrow> \<exists>s'. set_fld (stop_update (\<lambda>_. v)) (ptr y) s = Some s' \<and>
    repr live ready n R s' (xs @ Entry (ptr y) (first y) v (val y) # ys)"
  and repr_data: "repr live ready n R s (xs @ y # ys) \<Longrightarrow> \<exists>s'. set_fld (data_update (\<lambda>_. v)) (ptr y) s = Some s' \<and>
    repr live ready n R s' (xs @ Entry (ptr y) (first y) (bound y) v # ys)"
  by (rule repr_update, assumption, rule set_start set_stop set_data, erule repr_holds)+

lemma repr_cut:
  assumes "repr live ready n R s (xs @ ys)"
  shows "\<exists>s'. cut_start en (ptr_hd ys) s = Some s' \<and> repr live ready n R s' (xs @ cut_hd en ys)"
proof (cases ys)
  case (Cons y zs)
  then show ?thesis using assms repr_start [of live ready n R s xs y zs en] holds_fld [OF repr_holds, of live ready n R s xs y zs]
    by (auto simp: cut_start_def starts_before_def)
qed (use assms in \<open>simp add: cut_start_def starts_before_def\<close>)

lemma joins_hd:
  assumes "holds s (xs @ ys)"
  shows "joins en d (ptr_hd ys) s = Some (ys \<noteq> [] \<and> first (hd ys) \<le> en \<and> val (hd ys) = d)"
  using assms holds_fld [of s xs "hd ys" "tl ys"] by (cases ys) (simp_all add: joins_def)

context node_allocator
begin

lemma remove_entry:
  assumes "repr live ready n R s (xs @ y # ys)"
  shows "\<exists>s'. remove_node al (ptr y) s = Some (0, s') \<and> repr live ready n R s' (xs @ ys)"
proof -
  note h = assms [unfolded repr_def]
  obtain b l r c where T: "tree_at s (plug (Node b l y r) c)" "xs = before c @ inorder l" "ys = inorder r @ after c"
    by (rule holds_split) (use h in blast)
  obtain s' where s': "remove_node al (ptr y) s = Some (0, s')" "shrunk al s s' (ptr y) (xs @ ys)"
    using remove_shrinks [OF T(1), of al] T(2,3) by auto
  have p: "ptr y \<in> dom (nodes s)" by (rule holds_fld(5)) (use h in blast)
  then have f: "ready n (rbtreeFree al (ptr y) (arena s))" "live (rbtreeFree al (ptr y) (arena s)) = live (arena s) - {ptr y}"
    using free [of n "arena s" "ptr y"] h by auto
  have "repr live ready n R s' (xs @ ys)" using s'(2) h f p unfolding shrunk_def repr_def holds_def by (elim conjE disjE) auto
  then show ?thesis using s'(1) by blast
qed

lemma add_entry:
  assumes "repr live ready (Suc n) R s (xs @ ys)" "next_to s xs st ys q"
  shows "\<exists>r s'. add_range_next_to al q st en d s = Some (r, s') \<and>
    (r = 0 \<and> (\<exists>p. repr live ready n R s' (xs @ Entry p st en d # ys)) \<or> r = - 1 \<and> fails \<and> repr live ready n R s' (xs @ ys))"
proof -
  note h = assms(1) [unfolded repr_def]
  obtain p a where m: "rbtreeMalloc al (arena s) = Some (p, a)" "ready n a"
    "p = 0 \<and> fails \<and> live a = live (arena s) \<or> p \<noteq> 0 \<and> p \<notin> live (arena s) \<and> live a = insert p (live (arena s))"
    using malloc [of n "arena s"] h by blast
  show ?thesis
  proof (cases "p = 0")
    case True
    then have "add_range_next_to al q st en d s = Some (- 1, s\<lparr>arena := a\<rparr>)" using m(1) by (simp add: add_range_next_to_def)
    moreover have "repr live ready n R (s\<lparr>arena := a\<rparr>) (xs @ ys)"
      using h m True holds_cong [of "s\<lparr>arena := a\<rparr>" s] by (simp add: repr_def)
    moreover have fails using m(3) True by simp
    ultimately show ?thesis by blast
  next
    case False
    then have f: "p \<notin> dom (nodes s)" using m(3) h by auto
    obtain s' where s': "add_range_next_to al q st en d s = Some (0, s')" "grown s s' p a (xs @ Entry p st en d # ys)"
      using attach [OF _ assms(2) m(1) False f, where en = en and d = d] h by blast
    have "repr live ready n R s' (xs @ Entry p st en d # ys)"
      using s'(2) h m(2,3) False unfolding grown_def repr_def holds_def by auto
    then show ?thesis using s'(1) by blast
  qed
qed

lemma sweep_entries:
  assumes "repr live ready n R s (xs @ ys)"
  shows "\<exists>s'. sweep al en (ptr_hd ys) s = Some (ptr_hd (dropWhile (covered en) ys), s') \<and>
    repr live ready n R s' (xs @ dropWhile (covered en) ys)"
  using assms
proof (induction ys arbitrary: s)
  case Nil
  then show ?case by (simp add: sweep.simps)
next
  case (Cons y ys)
  note f = holds_fld [OF repr_holds [OF Cons.prems]] succ_next [OF repr_holds [OF Cons.prems]]
  have c: "first y < en \<and> bound y \<le> en \<longleftrightarrow> covered en y" by (simp add: covered_def)
  show ?case
  proof (cases "covered en y")
    case True
    obtain s' where s': "remove_node al (ptr y) s = Some (0, s')" "repr live ready n R s' (xs @ ys)"
      using remove_entry [OF Cons.prems] by blast
    then show ?thesis using Cons.IH [OF s'(2)] f True c by (subst sweep.simps) simp
  next
    case False
    then show ?thesis using Cons.prems f False c by (subst sweep.simps) auto
  qed
qed

lemma repr_less: "repr live ready (Suc n) R s xs \<Longrightarrow> repr live ready n R s xs"
  using less by (simp add: repr_def)

end

section \<open>Writing a range\<close>

definition overwrite :: "u32 \<Rightarrow> u32 \<Rightarrow> u32 option \<Rightarrow> (u32 \<Rightarrow> u32 option) \<Rightarrow> u32 \<Rightarrow> u32 option" where
  "overwrite st en v m a = (if st \<le> a \<and> a < en then v else m a)"

text \<open>
  \<open>result live ready fails n R m r s'\<close>: the tree is a tree of ranges again and represents \<open>m\<close>; or the allocator has run out of memory and
  the map has holes.
\<close>

definition result :: "('h \<Rightarrow> u32 set) \<Rightarrow> (nat \<Rightarrow> 'h \<Rightarrow> bool) \<Rightarrow> bool \<Rightarrow> nat \<Rightarrow> u32 set \<Rightarrow> (u32 \<Rightarrow> u32 option) \<Rightarrow> int \<Rightarrow> 'h rbstate \<Rightarrow> bool" where
  "result live ready fails n R m r s \<longleftrightarrow> (\<exists>xs. repr live ready n R s xs \<and> ranges xs \<and>
     (r = 0 \<and> content xs = m \<or> r = - 1 \<and> fails \<and> (\<forall>a. content xs a = m a \<or> content xs a = None)))"

lemma resultI: "repr live ready n R s xs \<Longrightarrow> ranges xs \<Longrightarrow> (\<And>a. content xs a = m a) \<Longrightarrow> result live ready fails n R m 0 s"
  unfolding result_def by blast

lemma content_left: "ranges (xs @ x # ys) \<Longrightarrow> content xs a = None \<or> a < first x"
  by (rule disjCI, rule content_above) (auto simp: not_less intro: order_trans)

lemma content_right: "ranges (xs @ x # ys) \<Longrightarrow> content ys a = None \<or> bound x \<le> a"
  by (rule disjCI, rule content_below) (auto simp: not_le intro: less_le_trans)

text \<open>The list in which an entry before \<open>ys\<close> is widened, and what the loop and the cut have left of \<open>ys\<close>.\<close>

lemma ranges_widen:
  assumes "ranges (zs @ v # ys)" "ptr v' = ptr v" "first v' = first v" "first v < en" "bound v' = en" "ranges us" "\<forall>x \<in> set us. en \<le> first x"
  shows "ranges (zs @ v' # us)"
proof -
  have "bound z \<le> first x" if "z \<in> set zs" "x \<in> set us" for z x
    using assms that by (fastforce intro: order_trans less_imp_le)
  then show ?thesis using assms by auto
qed

context node_allocator
begin

text \<open>The entry before the range has its value and reaches it: an entry that starts with the range is cut or removed.\<close>

lemma merge_prev_cuts:
  assumes "repr live ready n R s (zs @ v # x # post)" "ranges (zs @ v # x # post)" "st < en" "first v < st" "st \<le> bound v" "val v = d"
    "first x = st" "en \<le> bound x"
  shows "\<exists>s'. set_merge_prev al en d (ptr x) (ptr v) l s = Some (0, s') \<and>
    result live ready fails n R (overwrite st en (Some d) (content (zs @ v # x # post))) 0 s'"
proof -
  have x: "repr live ready n R s ((zs @ [v]) @ x # post)" using assms(1) by simp
  note f = holds_fld [OF repr_holds [OF assms(1)]] holds_fld [OF repr_holds [OF x]]
  have c: "content zs a = None \<or> a < first v" "content (x # post) a = None \<or> bound v \<le> a" for a
    using content_left [OF assms(2)] content_right [OF assms(2)] .
  have e: "bound v = st" using assms(2,5,7) by auto
  have ne: "\<not> en \<le> bound v" using e assms(3) by simp
  show ?thesis
  proof (cases "en < bound x")
    case True
    let ?xs = "zs @ Entry (ptr v) (first v) en (val v) # Entry (ptr x) en (bound x) (val x) # post"
    obtain u where u: "set_fld (start_update (\<lambda>_. en)) (ptr x) s = Some u"
      "repr live ready n R u (zs @ v # Entry (ptr x) en (bound x) (val x) # post)" using repr_start [OF x] by auto
    obtain s' where s': "set_fld (stop_update (\<lambda>_. en)) (ptr v) u = Some s'" "repr live ready n R s' ?xs"
      using repr_stop [OF u(2)] by blast
    have "content ?xs a = overwrite st en (Some d) (content (zs @ v # x # post)) a" for a
      using True e assms(2-7) c [of a] by (auto simp: overwrite_def content_append covers_def split: option.splits)
    moreover have "ranges ?xs"
      by (rule ranges_widen [OF assms(2)]) (use True assms in \<open>auto intro: less_imp_le order_trans\<close>)
    ultimately show ?thesis using resultI [OF s'(2)] True ne f u(1) s'(1) by (simp add: set_merge_prev_def)
  next
    case False
    let ?xs = "zs @ Entry (ptr v) (first v) en (val v) # post"
    have b: "bound x = en" using False assms(8) by simp
    obtain u where u: "remove_node al (ptr x) s = Some (0, u)" "repr live ready n R u (zs @ v # post)" using remove_entry [OF x] by auto
    obtain s' where s': "set_fld (stop_update (\<lambda>_. en)) (ptr v) u = Some s'" "repr live ready n R s' ?xs"
      using repr_stop [OF u(2)] by blast
    have "content ?xs a = overwrite st en (Some d) (content (zs @ v # x # post)) a" for a
      using b e assms(2-7) c [of a] by (auto simp: overwrite_def content_append covers_def split: option.splits)
    moreover have "ranges ?xs" by (rule ranges_widen [OF assms(2)]) (use b assms in auto)
    ultimately show ?thesis using resultI [OF s'(2)] b ne f u(1) s'(1) by (simp add: set_merge_prev_def)
  qed
qed

text \<open>The end of that branch, when the loop has removed what lies inside the range.\<close>

lemma merge_prev_widens:
  assumes "repr live ready n R s (zs @ v # rest)" "ranges (zs @ v # rest)" "swept en rest" "first v < en"
    "\<And>a. m a = (if a < first v then content zs a else if a < en then Some (val v) else content rest a)"
  shows "\<exists>s'. do {
      j \<leftarrow> joins en (val v) (ptr_hd rest) s;
      if j then do {
        le \<leftarrow> fld stop (ptr_hd rest) s;
        s \<leftarrow> set_fld (stop_update (\<lambda>_. le)) (ptr v) s;
        (r, s) \<leftarrow> remove_node al (ptr_hd rest) s;
        Some (0, s)
      } else do {
        s \<leftarrow> cut_start en (ptr_hd rest) s;
        s \<leftarrow> set_fld (stop_update (\<lambda>_. en)) (ptr v) s;
        Some (0, s)
      }
    } = Some (0::int, s') \<and> result live ready fails n R m 0 s'"
proof -
  have a1: "repr live ready n R s ((zs @ [v]) @ rest)" and r: "ranges rest" using assms(1,2) by auto
  note j = joins_hd [OF repr_holds [OF a1], of en "val v"]
  have c: "content zs a = None \<or> a < first v" for a using content_left [OF assms(2)] .
  show ?thesis
  proof (cases "rest \<noteq> [] \<and> first (hd rest) \<le> en \<and> val (hd rest) = val v")
    case True
    then obtain y ys where y: "rest = y # ys" "first y \<le> en" "val y = val v" by (cases rest) auto
    let ?xs = "zs @ Entry (ptr v) (first v) (bound y) (val v) # ys"
    have g: "fld stop (ptr y) s = Some (bound y)" using holds_fld(2) [OF repr_holds [OF a1 [unfolded y(1)]]] .
    obtain u where u: "set_fld (stop_update (\<lambda>_. bound y)) (ptr v) s = Some u"
      "repr live ready n R u ((zs @ [Entry (ptr v) (first v) (bound y) (val v)]) @ y # ys)"
      using repr_stop [OF assms(1), of "bound y"] y(1) by auto
    obtain s' where s': "remove_node al (ptr y) u = Some (0, s')" "repr live ready n R s' ?xs" using remove_entry [OF u(2)] by auto
    have b: "en < bound y" using assms(3) y(1) by (simp add: swept_def)
    have n: "content ys a = None \<or> bound y \<le> a" for a using content_right [of "[]" y ys a] r y(1) by simp
    have "content ?xs a = m a" for a
      using c [of a] n [of a] b assms(4) y by (auto simp: assms(5) content_append covers_def split: option.splits)
    moreover have "ranges ?xs" by (rule ranges_widen [OF assms(2), where en = "bound y"]) (use b r y(1) assms(4) in auto)
    ultimately have "result live ready fails n R m 0 s'" using resultI [OF s'(2)] by blast
    then show ?thesis using y g u(1) s'(1) j by simp
  next
    case False
    let ?xs = "zs @ Entry (ptr v) (first v) en (val v) # cut_hd en rest"
    obtain u where u: "cut_start en (ptr_hd rest) s = Some u" "repr live ready n R u (zs @ v # cut_hd en rest)"
      using repr_cut [OF a1] by auto
    obtain s' where s': "set_fld (stop_update (\<lambda>_. en)) (ptr v) u = Some s'" "repr live ready n R s' ?xs" using repr_stop [OF u(2)] by blast
    note ct = cut_swept [OF assms(3) r]
    have "content ?xs a = m a" for a
      using c [of a] assms(4) by (auto simp: assms(5) ct(3) content_append covers_def split: option.splits)
    moreover have "ranges ?xs" by (rule ranges_widen [OF assms(2)]) (use ct(1,2) assms(4) in auto)
    ultimately have "result live ready fails n R m 0 s'" using resultI [OF s'(2)] by blast
    then show ?thesis using u(1) s'(1) False j by auto
  qed
qed

lemma merge_prev_sets:
  assumes "repr live ready n R s (zs @ v # ns @ post)" "ranges (zs @ v # ns @ post)" "st < en" "first v < st" "st \<le> bound v" "val v = d"
    "ns = [] \<or> (\<exists>x. ns = [x] \<and> first x = st)" "\<forall>x \<in> set post. st < first x"
  shows "\<exists>s'. set_merge_prev al en d (ptr_hd ns) (ptr v) (ptr_hd post) s = Some (0, s') \<and>
    result live ready fails n R (overwrite st en (Some d) (content (zs @ v # ns @ post))) 0 s'"
proof -
  let ?m = "overwrite st en (Some d) (content (zs @ v # ns @ post))"
  note f = holds_fld [OF repr_holds [OF assms(1)]]
  have c: "content zs a = None \<or> a < first v" "content (ns @ post) a = None \<or> bound v \<le> a" for a
    using content_left [OF assms(2)] content_right [OF assms(2)] .
  consider "en \<le> bound v" | x where "ns = [x]" "first x = st" "en \<le> bound x" | "\<not> en \<le> bound v" "\<forall>x \<in> set ns. bound x < en"
    using assms(7) by fastforce
  then show ?thesis
  proof cases
    case 1
    have "content (zs @ v # ns @ post) a = ?m a" for a
      using 1 assms(4-6) c(1) [of a] by (auto simp: overwrite_def content_append covers_def split: option.splits)
    then show ?thesis using resultI [OF assms(1,2)] 1 f by (simp add: set_merge_prev_def)
  next
    case 2
    have "repr live ready n R s (zs @ v # x # post)" "ranges (zs @ v # x # post)" using assms(1,2) 2(1) by simp_all
    from merge_prev_cuts [OF this assms(3-6) 2(2,3)] show ?thesis using 2(1) by simp
  next
    case 3
    have nx: "ns \<noteq> [] \<Longrightarrow> ptr_hd ns \<noteq> 0 \<and> fld stop (ptr_hd ns) s = Some (bound (hd ns)) \<and> bound (hd ns) < en"
      using 3 assms(1,7) holds_fld [OF repr_holds, of live ready n R s "zs @ [v]" "hd ns" post] by auto
    obtain s1 where s1: "(if ptr_hd ns \<noteq> 0 then remove_node al (ptr_hd ns) s else Some (0, s)) = Some (0, s1)"
      "repr live ready n R s1 ((zs @ [v]) @ post)"
      using assms(1,7) nx remove_entry [of n R s "zs @ [v]" "hd ns" post] by auto
    define rest where "rest = dropWhile (covered en) post"
    obtain s2 where s2: "sweep al en (ptr_hd post) s1 = Some (ptr_hd rest, s2)" "repr live ready n R s2 (zs @ v # rest)"
      using sweep_entries [OF s1(2)] unfolding rest_def by auto
    have r: "ranges post" "ranges (zs @ v # rest)"
      using assms(2) ranges_dropWhile [of post] set_dropWhileD by (fastforce simp: rest_def)+
    note sw = swept_dropWhile [OF r(1), of en, folded rest_def]
    have "content ns a = None" if "en \<le> a" for a by (rule content_above) (use that 3(2) in \<open>auto intro: less_imp_le less_le_trans\<close>)
    moreover have "content (ns @ post) a = None" if "a < st" for a by (rule content_below) (use that assms(7,8) in auto)
    ultimately have "?m a = (if a < first v then content zs a else if a < en then Some (val v) else content rest a)" for a
      using c(1) [of a] sw(2) [of a] 3(1) assms(3-6)
      by (cases "a < st") (auto simp: overwrite_def content_append covers_def split: option.splits)
    from merge_prev_widens [OF s2(2) r(2) sw(1) _ this] show ?thesis
      using f(2) 3(1) nx s1(1) s2(1) assms(3,4,6) by (cases "ns = []") (auto simp: set_merge_prev_def)
  qed
qed

end

end
