(* ===== verification/RbSet.thy ===== *)
theory RbSet
  imports RbRange
begin

text \<open>
  \<open>rb_set\<close> branch by branch, and as a whole: it overwrites the map that the tree of ranges represents on the range it is given.
\<close>

section \<open>A range inside an entry\<close>

lemma resultI': "repr live ready n R s xs \<Longrightarrow> ranges xs \<Longrightarrow> fails \<Longrightarrow> (\<And>a. content xs a = m a \<or> content xs a = None) \<Longrightarrow> result live ready fails n R m (- 1) s"
  unfolding result_def by blast

text \<open>Cutting the entry before an address, whatever has become of what follows.\<close>

lemma stop_early:
  assumes "repr live ready n R s (zs @ v # us)" "ranges (zs @ v # ys)" "first v < st" "st \<le> bound v" "ranges us" "\<forall>x \<in> set us. st \<le> first x"
  obtains s' xs where "set_fld (stop_update (\<lambda>_. st)) (ptr v) s = Some s'" "repr live ready n R s' xs" "ranges xs"
    "\<And>a. content xs a = (if a < st then content (zs @ v # ys) a else content us a)"
    "xs = zs @ Entry (ptr v) (first v) st (val v) # us"
proof -
  let ?v = "Entry (ptr v) (first v) st (val v)"
  obtain s' where "set_fld (stop_update (\<lambda>_. st)) (ptr v) s = Some s'" "repr live ready n R s' (zs @ ?v # us)"
    using repr_stop [OF assms(1)] by blast
  moreover have "content (zs @ ?v # us) a = (if a < st then content (zs @ v # ys) a else content us a)" for a
  proof -
    have "content zs a = None \<or> a < first v" "content ys a = None \<or> bound v \<le> a"
      using content_left [OF assms(2)] content_right [OF assms(2)] .
    moreover have "content us a = None \<or> st \<le> a" using content_below [of us a] assms(6) by force
    ultimately show ?thesis using assms(3,4) by (auto simp: content_append covers_def split: option.splits)
  qed
  moreover have "ranges (zs @ ?v # us)" by (rule ranges_widen [OF assms(2) _ _ assms(3) _ assms(5,6)]) simp_all
  ultimately show thesis using that by blast
qed

context node_allocator
begin

text \<open>Adding an entry adds one or, when there is no memory, none.\<close>

lemma added:
  assumes "repr live ready (Suc n) R s (xs @ ys)" "next_to s xs st ys q"
  obtains r s' us where "add_range_next_to al q st en d s = Some (r, s')" "repr live ready n R s' (xs @ us @ ys)"
    "r = 0 \<and> (\<exists>p. us = [Entry p st en d]) \<or> r = - 1 \<and> us = [] \<and> fails"
  using add_entry [OF assms, of en d] by (metis append_Cons append_Nil)

lemma split_sets:
  assumes "repr live ready (Suc (Suc n)) R s (zs @ v # post)" "ranges (zs @ v # post)" "st < en" "first v < st" "en < bound v"
  shows "\<exists>r s'. set_split al st en d (ptr v) (ptr_hd post) s = Some (r, s') \<and>
    result live ready fails n R (overwrite st en (Some d) (content (zs @ v # post))) r s'"
proof -
  let ?m = "overwrite st en (Some d) (content (zs @ v # post))"
  note f = holds_fld [OF repr_holds [OF assms(1)]]
  have o: "st \<le> bound v" "first v < en" using assms(3-5) by auto
  have "bound v \<le> first z" if "z \<in> set post" for z using assms(2) that by simp
  then have b: "\<forall>z \<in> set post. bound v \<le> first z \<and> en \<le> first z \<and> st \<le> first z" using assms(5) o(1) by fastforce
  then have p: "\<forall>z \<in> set post. \<not> first z < en" by (simp add: not_less)
  have m: "?m a = (if a < st then content (zs @ v # post) a else if a < en then Some d else if a < bound v then Some (val v) else content post a)" for a
    using content_left [OF assms(2), of a] assms(4) by (auto simp: overwrite_def content_append covers_def split: option.splits)
  obtain x where x: "fld right (ptr v) s = Some x" using holds_right [OF repr_holds [OF assms(1)]] by blast
  have a1: "repr live ready (Suc (Suc n)) R s ((zs @ [v]) @ post)" using assms(1) by simp
  from add_entry [OF a1 next_to_right [OF repr_holds [OF assms(1)] o(2) p(1) x], of "bound v" "val v"] obtain r u where
    u: "add_range_next_to al (if x \<noteq> 0 then ptr_hd post else ptr v) en (bound v) (val v) s = Some (r, u)"
    "r = 0 \<and> (\<exists>p. repr live ready (Suc n) R u (zs @ v # Entry p en (bound v) (val v) # post)) \<or>
     r = - 1 \<and> fails \<and> repr live ready (Suc n) R u (zs @ v # post)" by auto
  from u(2) show ?thesis
  proof (elim disjE conjE exE)
    assume h: "r = - 1" fails "repr live ready (Suc n) R u (zs @ v # post)"
    obtain s' xs where s': "set_fld (stop_update (\<lambda>_. st)) (ptr v) u = Some s'" "repr live ready n R s' xs" "ranges xs"
      "\<And>a. content xs a = (if a < st then content (zs @ v # post) a else content post a)"
      by (rule stop_early [OF repr_less [OF h(3)] assms(2,4) o(1)]) (use assms(2) b in auto)
    have "content xs a = ?m a \<or> content xs a = None" for a
      using content_right [OF assms(2), of a] assms(3,5) unfolding m s'(4) by auto
    then show ?thesis using resultI' [OF s'(2,3) h(2)] x f u(1) h(1) s'(1) by (auto simp: set_split_def)
  next
    fix p'
    let ?e = "Entry p' en (bound v) (val v)"
    assume h: "r = 0" "repr live ready (Suc n) R u (zs @ v # ?e # post)"
    have a2: "repr live ready (Suc n) R u ((zs @ [v]) @ ?e # post)" using h(2) by simp
    obtain y where y: "fld right (ptr v) u = Some y" using holds_right [OF repr_holds [OF h(2)]] by blast
    have "\<forall>z \<in> set (?e # post). \<not> first z < st" using b assms(3) by (auto simp: not_less)
    from add_entry [OF a2 next_to_right [OF repr_holds [OF h(2)] assms(4) this y], of en d] obtain t w us where
      w: "add_range_next_to al (if y \<noteq> 0 then ptr_hd (?e # post) else ptr v) st en d u = Some (t, w)"
      "repr live ready n R w (zs @ v # us @ ?e # post)" "(t = 0 \<and> (\<exists>p. us = [Entry p st en d])) \<or> (t = - 1 \<and> us = [] \<and> fails)"
      by (metis append_Cons append_Nil append_assoc)
    obtain s' xs where s': "set_fld (stop_update (\<lambda>_. st)) (ptr v) w = Some s'" "repr live ready n R s' xs" "ranges xs"
      "\<And>a. content xs a = (if a < st then content (zs @ v # post) a else content (us @ ?e # post) a)"
      by (rule stop_early [OF w(2) assms(2,4) o(1)]) (use w(3) assms(2,3,5) b in \<open>auto intro: less_imp_le\<close>)
    have "result live ready fails n R ?m t s'" using w(3)
    proof (elim disjE conjE exE)
      fix p
      assume k: "t = 0" "us = [Entry p st en d]"
      have "content xs a = ?m a" for a using content_right [OF assms(2), of a] assms(3,5) unfolding m s'(4) k by (auto simp: covers_def)
      then show "result live ready fails n R ?m t s'" unfolding k by (rule resultI [OF s'(2,3)])
    next
      assume k: "t = - 1" "us = []" fails
      have "content xs a = ?m a \<or> content xs a = None" for a using content_right [OF assms(2), of a] assms(3,5) unfolding m s'(4) k by (auto simp: covers_def)
      then show "result live ready fails n R ?m t s'" unfolding k(1) by (rule resultI' [OF s'(2,3) k(3)])
    qed
    then show ?thesis using x y f u(1) h(1) w(1) s'(1) succ_next [OF repr_holds [OF h(2)]] by (auto simp: set_split_def)
  qed
qed

end

section \<open>A range that starts where an entry starts\<close>

lemma prefix_kept:
  assumes "\<forall>z \<in> set zs. bound z \<le> st" "ranges zs" "ranges us" "\<forall>x \<in> set us. st \<le> first x"
  shows "ranges (zs @ us)" "content (zs @ us) a = (if a < st then content zs a else content us a)"
proof -
  show "ranges (zs @ us)" using assms by (auto intro: order_trans)
  have "content zs a = None \<or> a < st" by (rule disjCI, rule content_above) (use assms(1) in \<open>auto simp: not_less intro: order_trans\<close>)
  moreover have "content us a = None \<or> st \<le> a" by (rule disjCI, rule content_below) (use assms(4) in \<open>auto simp: not_le intro: less_le_trans\<close>)
  ultimately show "content (zs @ us) a = (if a < st then content zs a else content us a)"
    by (auto simp: content_append split: option.splits)
qed

text \<open>The map after a range has been written to a list cut at its start.\<close>

lemma overwrite_prefix:
  assumes "\<forall>z \<in> set zs. bound z \<le> st" "ranges (zs @ us)" "\<forall>x \<in> set us. st \<le> first x"
  shows "overwrite st en v (content (zs @ us)) a = (if a < st then content zs a else if a < en then v else content us a)"
  using prefix_kept(2) [OF assms(1) _ _ assms(3), of a] assms(2) by (auto simp: overwrite_def)

text \<open>The entries a range may reach, after the loop: joined with it, or cut.\<close>

lemma swept_tl: "swept en (y # ys) \<Longrightarrow> ranges (y # ys) \<Longrightarrow> content ys a = None \<or> bound y \<le> a"
  using content_right [of "[]" y ys a] by simp

context node_allocator
begin

lemma node_cut:
  assumes "repr live ready (Suc n) R s (zs @ x # post)" "ranges (zs @ x # post)" "first x < en" "en < bound x" "val x \<noteq> d"
  shows "\<exists>r s'. set_node al (first x) en d (ptr x) (ptr_hd post) s = Some (r, s') \<and>
    result live ready fails n R (overwrite (first x) en (Some d) (content (zs @ x # post))) r s'"
proof -
  let ?m = "overwrite (first x) en (Some d) (content (zs @ x # post))"
  let ?x = "Entry (ptr x) (first x) en d"
  note f = holds_fld [OF repr_holds [OF assms(1)]]
  have z: "\<forall>z \<in> set zs. bound z \<le> first x" "\<forall>y \<in> set (x # post). first x \<le> first y" "ranges zs" "ranges post"
    using assms(2) ranges_ascending [OF assms(2)] by (auto intro: less_imp_le)
  note m = overwrite_prefix [OF z(1) assms(2) z(2), of en "Some d"]
  have b: "\<forall>y \<in> set post. bound x \<le> first y \<and> en \<le> first y \<and> \<not> first y < en" using assms(2,4) by fastforce
  obtain q where q: "fld right (ptr x) s = Some q" using holds_right [OF repr_holds [OF assms(1)]] by blast
  have a1: "repr live ready (Suc n) R s ((zs @ [x]) @ post)" using assms(1) by simp
  have "\<forall>y \<in> set post. \<not> first y < en" using b by simp
  from added [OF a1 next_to_right [OF repr_holds [OF assms(1)] assms(3) this q], of "bound x" "val x"] obtain r u us where
    u: "add_range_next_to al (if q \<noteq> 0 then ptr_hd post else ptr x) en (bound x) (val x) s = Some (r, u)"
    "repr live ready n R u (zs @ x # us @ post)" "r = 0 \<and> (\<exists>p. us = [Entry p en (bound x) (val x)]) \<or> r = - 1 \<and> us = [] \<and> fails"
    by auto
  obtain v where v: "set_fld (stop_update (\<lambda>_. en)) (ptr x) u = Some v"
    "repr live ready n R v (zs @ Entry (ptr x) (first x) en (val x) # us @ post)" using repr_stop [OF u(2)] by blast
  obtain s' where s': "set_fld (data_update (\<lambda>_. d)) (ptr x) v = Some s'" "repr live ready n R s' (zs @ ?x # us @ post)"
    using repr_data [OF v(2), of d] by auto
  have r: "ranges (?x # us @ post)" "\<forall>y \<in> set (?x # us @ post). first x \<le> first y" using u(3) b assms(2-4) z(2,4) by (auto intro: less_imp_le)
  note k = prefix_kept [OF z(1,3) r]
  have c: "content post a = None \<or> bound x \<le> a" for a using content_right [OF assms(2)] .
  have "set_node al (first x) en d (ptr x) (ptr_hd post) s = Some (r, s')"
    using f q u(1) v(1) s'(1) assms(4,5) by (simp add: set_node_def less_imp_le)
  moreover have "result live ready fails n R ?m r s'" using u(3)
  proof (elim disjE conjE exE)
    fix p
    assume e: "r = 0" "us = [Entry p en (bound x) (val x)]"
    have "content (zs @ ?x # us @ post) a = ?m a" for a
      using c [of a] assms(3,4) k(2) [of a] m [of a] e(2) by (auto simp: covers_def)
    then show ?thesis unfolding e(1) by (rule resultI [OF s'(2) k(1)])
  next
    assume e: "r = - 1" "us = []" fails
    have "content (zs @ ?x # us @ post) a = ?m a \<or> content (zs @ ?x # us @ post) a = None" for a
      using c [of a] assms(3,4) k(2) [of a] m [of a] e(2) by (auto simp: covers_def)
    then show ?thesis unfolding e(1) by (rule resultI' [OF s'(2) k(1) e(3)])
  qed
  ultimately show ?thesis by blast
qed

lemma node_sets:
  assumes "repr live ready (Suc n) R s (zs @ x # post)" "ranges (zs @ x # post)" "first x < en"
  shows "\<exists>r s'. set_node al (first x) en d (ptr x) (ptr_hd post) s = Some (r, s') \<and>
    result live ready fails n R (overwrite (first x) en (Some d) (content (zs @ x # post))) r s'"
proof -
  let ?m = "overwrite (first x) en (Some d) (content (zs @ x # post))"
  note f = holds_fld [OF repr_holds [OF assms(1)]]
  have z: "\<forall>z \<in> set zs. bound z \<le> first x" "\<forall>y \<in> set (x # post). first x \<le> first y" "ranges zs" "ranges post"
    using assms(2) ranges_ascending [OF assms(2)] by (auto intro: less_imp_le)
  note m = overwrite_prefix [OF z(1) assms(2) z(2), of en "Some d"]
  have c: "content post a = None \<or> bound x \<le> a" for a using content_right [OF assms(2)] .
  consider "en \<le> bound x" "val x = d" | "en < bound x" "val x \<noteq> d" | "bound x \<le> en" "\<not> (en \<le> bound x \<and> val x = d)" by fastforce
  then show ?thesis
  proof cases
    case 1
    have "content (zs @ x # post) a = ?m a" for a
      using 1 c [of a] assms(3) prefix_kept(2) [OF z(1,3) _ z(2), of a] assms(2) by (auto simp: m covers_def)
    then show ?thesis using resultI [OF repr_less [OF assms(1)] assms(2)] f 1 by (simp add: set_node_def)
  next
    case 2
    then show ?thesis using node_cut [OF assms] by blast
  next
    case 3
    define rest where "rest = dropWhile (covered en) post"
    have a1: "repr live ready (Suc n) R s ((zs @ [x]) @ post)" using assms(1) by simp
    obtain u where u: "sweep al en (ptr_hd post) s = Some (ptr_hd rest, u)" "repr live ready n R u ((zs @ [x]) @ rest)"
      using sweep_entries [OF a1] repr_less unfolding rest_def by blast
    have u': "repr live ready n R u (zs @ x # rest)" using u(2) by simp
    note g = holds_fld [OF repr_holds [OF u']]
    note j = joins_hd [OF repr_holds [OF u(2)], of en d]
    have r: "ranges rest" using z(4) ranges_dropWhile by (auto simp: rest_def)
    note sw = swept_dropWhile [OF z(4), of en, folded rest_def]
    have e: "a < en \<or> content rest a = content post a" for a using sw(2) [of a] by (simp add: disj_imp not_less)
    show ?thesis
    proof (cases "rest \<noteq> [] \<and> first (hd rest) \<le> en \<and> val (hd rest) = d")
      case True
      then obtain y ys where y: "rest = y # ys" "first y \<le> en" "val y = d" by (cases rest) auto
      let ?us = "Entry (ptr y) (first x) (bound y) d # ys"
      obtain v where v: "remove_node al (ptr x) u = Some (0, v)" "repr live ready n R v (zs @ y # ys)" using remove_entry [OF u'] y(1) by auto
      obtain s' where s': "set_fld (start_update (\<lambda>_. first x)) (ptr y) v = Some s'" "repr live ready n R s' (zs @ ?us)"
        using repr_start [OF v(2), of "first x"] y(3) by auto
      have b: "en < bound y" using sw(1) y(1) by (simp add: swept_def)
      have us: "ranges ?us" "\<forall>w \<in> set ?us. first x \<le> first w"
        using r y(1) b assms(3) by (auto intro: less_trans less_imp_le less_le_trans order_trans)
      note k = prefix_kept [OF z(1,3) us]
      have "content (zs @ ?us) a = ?m a" for a
        using k(2) [of a] m [of a] e [of a] content_right [of "[]" y ys a] r y b assms(3) 3(1) by (auto simp: covers_def split: if_splits)
      then have "result live ready fails n R ?m 0 s'" by (rule resultI [OF s'(2) k(1)])
      then show ?thesis using f u(1) j y v(1) s'(1) 3 by (auto simp: set_node_def)
    next
      case False
      let ?us = "Entry (ptr x) (first x) en d # cut_hd en rest"
      obtain v where v: "cut_start en (ptr_hd rest) u = Some v" "repr live ready n R v (zs @ x # cut_hd en rest)"
        using repr_cut [OF u(2)] by auto
      obtain w where w: "(if bound x < en then set_fld (stop_update (\<lambda>_. en)) (ptr x) v else Some v) = Some w"
        "repr live ready n R w (zs @ Entry (ptr x) (first x) en (val x) # cut_hd en rest)"
        using repr_stop [OF v(2), of en] v(2) 3(1) by (cases "bound x < en") auto
      obtain s' where s': "set_fld (data_update (\<lambda>_. d)) (ptr x) w = Some s'" "repr live ready n R s' (zs @ ?us)"
        using repr_data [OF w(2), of d] by auto
      note ct = cut_swept [OF sw(1) r]
      have us: "ranges ?us" "\<forall>w \<in> set ?us. first x \<le> first w" using ct(1,2) assms(3) by (auto intro: less_imp_le less_le_trans)
      note k = prefix_kept [OF z(1,3) us]
      have "content (zs @ ?us) a = ?m a" for a
        using k(2) [of a] m [of a] e [of a] ct(3) [of a] assms(3) 3(1) by (auto simp: covers_def)
      then have "result live ready fails n R ?m 0 s'" by (rule resultI [OF s'(2) k(1)])
      moreover have "fld stop (ptr x) v = Some (bound x)" using holds_fld(2) [OF repr_holds [OF v(2)]] .
      ultimately show ?thesis using f u(1) j v(1) w(1) s'(1) 3 False by (auto simp: set_node_def)
    qed
  qed
qed

end

section \<open>A range that starts elsewhere, and the function\<close>

lemma holds_root: "holds s xs \<Longrightarrow> root s = 0 \<Longrightarrow> xs = []"
  by (auto simp: holds_def root_0)

context node_allocator
begin

text \<open>No entry starts with the range, and those before it have been cut.\<close>

lemma fresh_sets:
  assumes "repr live ready (Suc n) R s (zs @ post)" "ranges (zs @ post)" "\<forall>z \<in> set zs. bound z \<le> st" "\<forall>y \<in> set post. st < first y" "st < en"
  shows "\<exists>r s'. set_fresh al st en d (ptr_last zs) (ptr_hd post) s = Some (r, s') \<and>
    result live ready fails n R (overwrite st en (Some d) (content (zs @ post))) r s'"
proof -
  let ?m = "overwrite st en (Some d) (content (zs @ post))"
  have z: "\<forall>y \<in> set post. st \<le> first y" "ranges zs" "ranges post" "\<forall>z \<in> set zs. first z < st"
    using assms(2-4) ranges_first [of zs] by (auto intro: less_imp_le less_le_trans)
  note m = overwrite_prefix [OF assms(3,2) z(1), of en "Some d"]
  define rest where "rest = dropWhile (covered en) post"
  obtain u where u: "sweep al en (ptr_hd post) s = Some (ptr_hd rest, u)" "repr live ready (Suc n) R u (zs @ rest)"
    using sweep_entries [OF assms(1)] unfolding rest_def by blast
  note j = joins_hd [OF repr_holds [OF u(2)], of en d]
  have r: "ranges rest" "\<forall>y \<in> set rest. st < first y" using z(3) assms(4) ranges_dropWhile set_dropWhileD by (fastforce simp: rest_def)+
  note sw = swept_dropWhile [OF z(3), of en, folded rest_def]
  have e: "a < en \<or> content rest a = content post a" for a using sw(2) [of a] by (simp add: disj_imp not_less)
  note ct = cut_swept [OF sw(1) r(1)]
  have A: "\<exists>t s'. add_range_next_to al q st en d w = Some (t, s') \<and> result live ready fails n R ?m t s'"
    if w: "repr live ready (Suc n) R w (zs @ cut_hd en rest)" and q: "next_to w zs st (cut_hd en rest) q" for q w
  proof -
    obtain t s' us where t: "add_range_next_to al q st en d w = Some (t, s')" "repr live ready n R s' (zs @ us @ cut_hd en rest)"
      "t = 0 \<and> (\<exists>p. us = [Entry p st en d]) \<or> t = - 1 \<and> us = [] \<and> fails" by (rule added [OF w q])
    have us: "ranges (us @ cut_hd en rest)" "\<forall>y \<in> set (us @ cut_hd en rest). st \<le> first y"
      using ct(1,2) t(3) assms(5) by (auto intro: less_imp_le less_le_trans)
    note k = prefix_kept [OF assms(3) z(2) us]
    from t(3) have "result live ready fails n R ?m t s'"
    proof (elim disjE conjE exE)
      fix p
      assume h: "t = 0" "us = [Entry p st en d]"
      have "content (zs @ us @ cut_hd en rest) a = ?m a" for a
        using k(2) [of a] m [of a] e [of a] ct(3) [of a] h(2) assms(5) by (auto simp: covers_def)
      then show ?thesis unfolding h(1) by (rule resultI [OF t(2) k(1)])
    next
      assume h: "t = - 1" "us = []" fails
      have "content (zs @ us @ cut_hd en rest) a = ?m a \<or> content (zs @ us @ cut_hd en rest) a = None" for a
        using k(2) [of a] m [of a] e [of a] ct(3) [of a] h(2) assms(5) by auto
      then show ?thesis unfolding h(1) by (rule resultI' [OF t(2) k(1) h(3)])
    qed
    then show ?thesis using t(1) by blast
  qed
  show ?thesis
  proof (cases rest)
    case Nil
    have q: "next_to u zs st [] (ptr_last zs)" using next_to_end [OF _ z(4)] repr_holds [OF u(2)] Nil by simp
    show ?thesis using A [of u "ptr_last zs"] u q Nil by (simp add: set_fresh_def)
  next
    case (Cons y ys)
    have p: "ptr y \<noteq> 0" using holds_fld(4) [OF repr_holds [OF u(2) [unfolded Cons]]] .
    show ?thesis
    proof (cases "first y \<le> en \<and> val y = d")
      case True
      let ?us = "Entry (ptr y) st (bound y) d # ys"
      obtain s' where s': "set_fld (start_update (\<lambda>_. st)) (ptr y) u = Some s'" "repr live ready (Suc n) R s' (zs @ ?us)"
        using repr_start [OF u(2) [unfolded Cons], of st] True by auto
      have b: "en < bound y" using sw(1) Cons by (simp add: swept_def)
      have us: "ranges ?us" "\<forall>w \<in> set ?us. st \<le> first w"
        using r Cons b assms(5) by (auto intro: less_trans less_imp_le less_le_trans order_trans)
      note k = prefix_kept [OF assms(3) z(2) us]
      have "content (zs @ ?us) a = ?m a" for a
        using k(2) [of a] m [of a] e [of a] content_right [of "[]" y ys a] r Cons b assms(5) True
        by (auto simp: covers_def split: if_splits)
      then have "result live ready fails n R ?m 0 s'" by (rule resultI [OF repr_less [OF s'(2)] k(1)])
      then show ?thesis using u(1) j Cons True s'(1) p by (simp add: set_fresh_def)
    next
      case False
      obtain y' ys' where y': "cut_hd en rest = y' # ys'" "ptr y' = ptr y" "\<not> first y' < st"
        using Cons assms(5) r(2) by (cases "first y < en") auto
      obtain v where v: "cut_start en (ptr_hd rest) u = Some v" "repr live ready (Suc n) R v (zs @ y' # ys')"
        using repr_cut [OF u(2), of en] y'(1) by auto
      obtain l where l: "fld left (ptr y') v = Some l" using holds_left [OF repr_holds [OF v(2)]] by blast
      note q = next_to_left [OF repr_holds [OF v(2)] y'(3) z(4) l]
      note pp = pred_prev [OF repr_holds [OF v(2)]]
      show ?thesis using A [of v "if l \<noteq> 0 then ptr_last zs else ptr y'"] q v y'(1,2) l pp u(1) j Cons False p
        by (cases "l = 0") (auto simp: set_fresh_def)
    qed
  qed
qed

lemma starting_at_one: "ranges xs \<Longrightarrow> starting_at st xs = [] \<or> (\<exists>x. starting_at st xs = [x] \<and> first x = st)"
proof (cases "starting_at st xs")
  case (Cons x ys)
  assume r: "ranges xs"
  have "x \<in> set (starting_at st xs)" using Cons by simp
  then have "x \<in> set xs" "first x = st" by (simp_all add: starting_at_def)
  then obtain us vs where "xs = us @ x # vs" by (meson split_list)
  then have "starting_at st xs = [x]" using split_here(3) [of us x vs] r \<open>first x = st\<close> by simp
  then show ?thesis using \<open>first x = st\<close> by blast
qed simp

lemma rb_set_sets:
  assumes "repr live ready (Suc (Suc n)) R s xs" "ranges xs" "st < en"
  shows "\<exists>r s'. rb_set al st en d s = Some (r, s') \<and> result live ready fails n R (overwrite st en (Some d) (content xs)) r s'"
proof (cases "root s = 0")
  case True
  then have x: "xs = []" by (rule holds_root [OF repr_holds [OF assms(1)]])
  have "next_to s [] st [] 0" by (simp add: next_to_def)
  then obtain r s' us where u: "add_range_next_to al 0 st en d s = Some (r, s')" "repr live ready (Suc n) R s' us"
    "r = 0 \<and> (\<exists>p. us = [Entry p st en d]) \<or> r = - 1 \<and> us = [] \<and> fails"
    using added [of "Suc n" R s "[]" "[]"] assms(1) x by (metis append_Nil append_Nil2)
  have "rb_set al st en d s = Some (r, s')" using True u(1) by (simp add: rb_set_def add_range_def insertion_point.simps)
  moreover have "result live ready fails n R (overwrite st en (Some d) (content xs)) r s'"
    using u(3) resultI [OF repr_less [OF u(2)]] resultI' [OF repr_less [OF u(2)]] assms(3) x by (auto simp: overwrite_def covers_def)
  ultimately show ?thesis by blast
next
  case False
  define pre ns post where "pre = starting_before st xs" and "ns = starting_at st xs" and "post = starting_after st xs"
  have xs: "pre @ ns @ post = xs" using split_all [OF assms(2)] by (simp add: pre_def ns_def post_def)
  have b: "\<forall>x \<in> set pre. first x < st" "\<forall>x \<in> set post. st < first x" by (auto simp: pre_def post_def starting_before_def starting_after_def)
  have n: "ns = [] \<or> (\<exists>x. ns = [x] \<and> first x = st)" using starting_at_one [OF assms(2)] by (simp add: ns_def)
  note sk = seek_finds [OF repr_holds [OF assms(1)] assms(2), of st, folded pre_def ns_def post_def]
  define G where "G u p = (if ptr_hd ns \<noteq> 0 then set_node al st en d (ptr_hd ns) (ptr_hd post) u else set_fresh al st en d p (ptr_hd post) u)"
    for u p
  have T: "\<exists>r s'. G u (ptr_last us) = Some (r, s') \<and>
      result live ready fails n R (overwrite st en (Some d) (content (us @ ns @ post))) r s'"
    if u: "repr live ready (Suc (Suc n)) R u (us @ ns @ post)" "ranges (us @ ns @ post)" "\<forall>z \<in> set us. bound z \<le> st" for us u
    using n
  proof (elim disjE exE conjE)
    assume "ns = []"
    then show ?thesis using fresh_sets [of n R u us post st en d] repr_less [OF u(1)] u(2,3) b(2) assms(3) by (simp add: G_def)
  next
    fix x
    assume x: "ns = [x]" "first x = st"
    then have "ptr x \<noteq> 0" using holds_fld(4) [OF repr_holds, of live ready _ R u us x post] u(1) by auto
    then show ?thesis using node_sets [of n R u us x post en d] repr_less [OF u(1)] u(2) assms(3) x by (simp add: G_def)
  qed
  show ?thesis
  proof (cases pre rule: rev_cases)
    case Nil
    have "rb_set al st en d s = G s (ptr_last [])" using False sk Nil by (simp add: rb_set_def G_def)
    moreover have "xs = ns @ post" using xs Nil by simp
    ultimately show ?thesis using T [of s "[]"] assms(1,2) by simp
  next
    case (snoc zs v)
    have a: "repr live ready (Suc (Suc n)) R s (zs @ v # ns @ post)" "ranges (zs @ v # ns @ post)" "first v < st"
      using assms(1,2) xs snoc b(1) by auto
    note f = holds_fld [OF repr_holds [OF a(1)]]
    have xs': "xs = zs @ v # ns @ post" using xs snoc by simp
    have q: "rb_set al st en d s = (if st \<le> bound v \<and> val v = d then set_merge_prev al en d (ptr_hd ns) (ptr v) (ptr_hd post) s
      else if st < bound v \<and> en < bound v then set_split al st en d (ptr v) (ptr_hd post) s
      else do {
        s \<leftarrow> (if st < bound v then set_fld (stop_update (\<lambda>_. st)) (ptr v) s else Some s);
        G s (ptr v)
      })"
      using False sk snoc f by (simp add: rb_set_def G_def)
    consider "st \<le> bound v" "val v = d" | "\<not> (st \<le> bound v \<and> val v = d)" "st < bound v" "en < bound v"
      | "\<not> (st \<le> bound v \<and> val v = d)" "st < bound v" "\<not> en < bound v" | "\<not> (st \<le> bound v \<and> val v = d)" "\<not> st < bound v"
      by fastforce
    then show ?thesis
    proof cases
      case 1
      then show ?thesis using merge_prev_sets [OF repr_less [OF repr_less [OF a(1)]] a(2) assms(3) a(3) 1 n b(2)] q xs' by auto
    next
      case 2
      have "ns = []" using n a(2) 2(2) by auto
      then show ?thesis using split_sets [of n R s zs v post st en d] a assms(3) 2 q xs' by simp
    next
      case 3
      obtain u us where u: "set_fld (stop_update (\<lambda>_. st)) (ptr v) s = Some u" "repr live ready (Suc (Suc n)) R u us" "ranges us"
        "\<And>a. content us a = (if a < st then content (zs @ v # ns @ post) a else content (ns @ post) a)"
        "us = zs @ Entry (ptr v) (first v) st (val v) # ns @ post"
        by (rule stop_early [OF a(1-3)]) (use 3 n b(2) a(2) in \<open>auto intro: less_imp_le\<close>)
      let ?us = "zs @ [Entry (ptr v) (first v) st (val v)]"
      have "\<forall>z \<in> set ?us. bound z \<le> st" using a(2,3) by (auto intro: less_imp_le order_trans)
      then have "\<exists>r s'. G u (ptr v) = Some (r, s') \<and> result live ready fails n R (overwrite st en (Some d) (content us)) r s'"
        using T [of u ?us] u(2,3,5) by simp
      moreover have "overwrite st en (Some d) (content us) = overwrite st en (Some d) (content xs)"
      proof
        fix a
        show "overwrite st en (Some d) (content us) a = overwrite st en (Some d) (content xs) a"
          using content_left [OF a(2), of a] 3 a(3) assms(3)
          by (auto simp: overwrite_def u(4) xs' content_append covers_def split: option.splits)
      qed
      ultimately show ?thesis using q u(1) 3 by auto
    next
      case 4
      then have "\<forall>z \<in> set (zs @ [v]). bound z \<le> st" using a(2,3) by (auto intro: less_imp_le order_trans)
      moreover have "rb_set al st en d s = G s (ptr v)" using q 4 by auto
      ultimately show ?thesis using T [of s "zs @ [v]"] a(1,2) xs' by simp
    qed
  qed
qed

end

end
