(* ===== verification/RbUnset.thy ===== *)
theory RbUnset
  imports RbSet
begin

text \<open>
  \<open>rb_unset\<close>: it clears the map that the tree of ranges represents on the range it is given, but for what an
  entry that starts before the range and ends inside it covers.
\<close>

section \<open>Removing a range\<close>

text \<open>
  \<open>rb_unset\<close> leaves one thing that is in the range: what is covered by an entry that starts before the range and ends inside it,
  since the source has no branch for such an entry.
\<close>

definition spared :: "u32 \<Rightarrow> u32 \<Rightarrow> entry list \<Rightarrow> u32 \<Rightarrow> bool" where
  "spared st en xs a \<longleftrightarrow> (\<exists>x \<in> set xs. first x < st \<and> st \<le> a \<and> a < bound x \<and> bound x < en)"

definition unset_range :: "u32 \<Rightarrow> u32 \<Rightarrow> entry list \<Rightarrow> u32 \<Rightarrow> u32 option" where
  "unset_range st en xs a = (if spared st en xs a then content xs a else overwrite st en None (content xs) a)"

context node_allocator
begin

lemma tail_unsets:
  assumes "repr live ready n R s (us @ post)" "ranges (us @ post)" "\<forall>z \<in> set us. bound z \<le> en"
  shows "\<exists>s'. unset_tail al en (ptr_hd post) s = Some (0, s') \<and>
    result live ready fails n R (\<lambda>a. if a < en then content us a else content post a) 0 s'"
proof -
  define rest where "rest = dropWhile (covered en) post"
  obtain u where u: "sweep al en (ptr_hd post) s = Some (ptr_hd rest, u)" "repr live ready n R u (us @ rest)"
    using sweep_entries [OF assms(1)] unfolding rest_def by blast
  obtain s' where s': "cut_start en (ptr_hd rest) u = Some s'" "repr live ready n R s' (us @ cut_hd en rest)"
    using repr_cut [OF u(2)] by blast
  have r: "ranges us" "ranges post" "ranges rest" using assms(2) ranges_dropWhile by (auto simp: rest_def)
  note sw = swept_dropWhile [OF r(2), of en, folded rest_def]
  note ct = cut_swept [OF sw(1) r(3)]
  note k = prefix_kept [OF assms(3) r(1) ct(1,2)]
  have "content (us @ cut_hd en rest) a = (if a < en then content us a else content post a)" for a
    using k(2) [of a] ct(3) [of a] sw(2) [of a] by (auto simp: not_less)
  from resultI [where m = "\<lambda>a. if a < en then content us a else content post a", OF s'(2) k(1) this]
  show ?thesis using u(1) s'(1) by (simp add: unset_tail_def)
qed

lemma node_unsets:
  assumes "repr live ready n R s (zs @ x # post)" "ranges (zs @ x # post)" "first x < en"
  shows "\<exists>s'. do {
      ne \<leftarrow> fld stop (ptr x) s;
      if en < ne then do {
        s \<leftarrow> set_fld (start_update (\<lambda>_. en)) (ptr x) s;
        Some (0, s)
      } else do {
        (r, s) \<leftarrow> remove_node al (ptr x) s;
        if ne = en then Some (0, s) else unset_tail al en (ptr_hd post) s
      }
    } = Some (0::int, s') \<and> result live ready fails n R (overwrite (first x) en None (content (zs @ x # post))) 0 s'"
proof -
  let ?m = "overwrite (first x) en None (content (zs @ x # post))"
  note f = holds_fld [OF repr_holds [OF assms(1)]]
  have z: "\<forall>z \<in> set zs. bound z \<le> first x" "\<forall>y \<in> set (x # post). first x \<le> first y" "ranges zs" "ranges post"
    using assms(2) ranges_ascending [OF assms(2)] by (auto intro: less_imp_le)
  note m = overwrite_prefix [OF z(1) assms(2) z(2), of en None]
  have c: "content post a = None \<or> bound x \<le> a" "content zs a = None \<or> a < first x" for a
    using content_right [OF assms(2)] content_left [OF assms(2)] .
  show ?thesis
  proof (cases "en < bound x")
    case True
    let ?us = "Entry (ptr x) en (bound x) (val x) # post"
    obtain s' where s': "set_fld (start_update (\<lambda>_. en)) (ptr x) s = Some s'" "repr live ready n R s' (zs @ ?us)"
      using repr_start [OF assms(1)] by blast
    have us: "ranges ?us" "\<forall>y \<in> set ?us. first x \<le> first y" using True assms(2,3) z(2) by auto
    note k = prefix_kept [OF z(1,3) us]
    have "content (zs @ ?us) a = ?m a" for a
      using k(2) [of a] m [of a] c(1) [of a] True assms(3) by (auto simp: covers_def)
    then show ?thesis using resultI [OF s'(2) k(1), of ?m] f(2) s'(1) True by auto
  next
    case False
    obtain u where u: "remove_node al (ptr x) s = Some (0, u)" "repr live ready n R u (zs @ post)" using remove_entry [OF assms(1)] by blast
    have r: "ranges (zs @ post)" using assms(2) by simp
    show ?thesis
    proof (cases "bound x = en")
      case True
      have "content (zs @ post) a = ?m a" for a
        using m [of a] c [of a] True assms(3) by (auto simp: content_append covers_def split: option.splits)
      then show ?thesis using resultI [OF u(2) r, of ?m] f(2) u(1) True by auto
    next
      case nb: False
      have "\<forall>z \<in> set zs. bound z \<le> en" using z(1) assms(3) by auto
      from tail_unsets [OF u(2) r this] obtain s' where s': "unset_tail al en (ptr_hd post) u = Some (0, s')"
        "result live ready fails n R (\<lambda>a. if a < en then content zs a else content post a) 0 s'" by blast
      have "(\<lambda>a. if a < en then content zs a else content post a) = ?m"
      proof
        fix a
        show "(if a < en then content zs a else content post a) = ?m a"
          using m [of a] c [of a] False assms(3) by (auto simp: covers_def)
      qed
      then show ?thesis using s' f(2) u(1) False nb by simp
    qed
  qed
qed

lemma rb_unset_unsets:
  assumes "repr live ready (Suc n) R s xs" "ranges xs" "st < en"
  shows "\<exists>r s'. rb_unset al st en s = Some (r, s') \<and> result live ready fails n R (unset_range st en xs) r s'"
proof (cases "root s = 0")
  case True
  then have x: "xs = []" by (rule holds_root [OF repr_holds [OF assms(1)]])
  then have "content xs a = unset_range st en xs a" for a by (simp add: unset_range_def overwrite_def)
  from resultI [OF repr_less [OF assms(1)] assms(2) this] show ?thesis using True by (auto simp: rb_unset_def)
next
  case False
  define pre ns post where "pre = starting_before st xs" and "ns = starting_at st xs" and "post = starting_after st xs"
  have xs: "xs = pre @ ns @ post" using split_all [OF assms(2)] by (simp add: pre_def ns_def post_def)
  have b: "\<forall>x \<in> set pre. first x < st" "\<forall>x \<in> set post. st < first x" by (auto simp: pre_def post_def starting_before_def starting_after_def)
  note sk = seek_finds [OF repr_holds [OF assms(1)] assms(2), of st, folded pre_def ns_def post_def]
  have un: "unset_range st en xs = overwrite st en None (content xs)" if "\<forall>x \<in> set pre. bound x \<le> st \<or> en \<le> bound x"
  proof -
    have "\<not> spared st en xs a" for a
    proof
      assume "spared st en xs a"
      then obtain x where "x \<in> set pre \<union> set ns \<union> set post" "first x < st" "st \<le> a" "a < bound x" "bound x < en"
        by (auto simp: spared_def xs)
      moreover have "\<forall>x \<in> set ns. first x = st" by (simp add: ns_def starting_at_def)
      ultimately show False using that b(2) by (auto dest!: bspec)
    qed
    then show ?thesis by (auto simp: unset_range_def)
  qed
  from starting_at_one [OF assms(2), of st, folded ns_def] show ?thesis
  proof (elim disjE exE conjE)
    fix x
    assume x: "ns = [x]" "first x = st"
    have a: "repr live ready n R s (pre @ x # post)" "ranges (pre @ x # post)" "first x < en"
      using repr_less [OF assms(1)] assms(2,3) xs x by auto
    have "ptr x \<noteq> 0" using holds_fld(4) [OF repr_holds [OF a(1)]] .
    moreover have "\<forall>y \<in> set pre. bound y \<le> st \<or> en \<le> bound y" using a(2) x(2) by auto
    ultimately show ?thesis using node_unsets [OF a] un False sk x xs by (auto simp: rb_unset_def)
  next
    assume n: "ns = []"
    show ?thesis
    proof (cases pre rule: rev_cases)
      case Nil
      then have "\<exists>s'. unset_tail al en (ptr_hd post) s = Some (0, s') \<and>
          result live ready fails n R (\<lambda>a. if a < en then content [] a else content post a) 0 s'"
        using tail_unsets [of n R s "[]" post en] repr_less [OF assms(1)] assms(2) xs n by simp
      moreover have "(\<lambda>a. if a < en then content [] a else content post a) = unset_range st en xs"
      proof
        fix a
        have "content post a = None \<or> st < a" using content_below [of post a] b(2) by force
        then show "(if a < en then content [] a else content post a) = unset_range st en xs a"
          using un Nil n xs assms(3) by (auto simp: overwrite_def)
      qed
      ultimately show ?thesis using False sk n Nil by (auto simp: rb_unset_def)
    next
      case (snoc zs v)
      have a: "repr live ready (Suc n) R s (zs @ v # post)" "ranges (zs @ v # post)" "first v < st"
        using assms(1,2) xs snoc b(1) n by auto
      note f = holds_fld [OF repr_holds [OF a(1)]]
      have c: "content zs a = None \<or> a < first v" "content post a = None \<or> bound v \<le> a" for a
        using content_left [OF a(2)] content_right [OF a(2)] .
      have xs': "xs = zs @ v # post" using xs snoc n by simp
      have p: "content post a = None \<or> st < a" for a using content_below [of post a] b(2) by force
      have q: "rb_unset al st en s = (if st < bound v \<and> en < bound v then do {
          r \<leftarrow> fld right (ptr v) s;
          (ret, s) \<leftarrow> add_range_next_to al (if r \<noteq> 0 then ptr_hd post else ptr v) en (bound v) (val v) s;
          s \<leftarrow> set_fld (stop_update (\<lambda>_. st)) (ptr v) s;
          Some (ret, s)
        } else if st < bound v \<and> bound v = en then do {
          s \<leftarrow> set_fld (stop_update (\<lambda>_. st)) (ptr v) s;
          Some (0, s)
        } else unset_tail al en (ptr_hd post) s)"
        using False sk n snoc f by (auto simp: rb_unset_def)
      have zs: "\<forall>z \<in> set zs. bound z \<le> st" using a(2,3) by (auto intro: less_imp_le order_trans)
      have p': "ranges post" "\<forall>y \<in> set post. st \<le> first y" using a(2) b(2) by (auto intro: less_imp_le)
      consider "st < bound v" "en < bound v" | "st < bound v" "bound v = en" | "\<not> (st < bound v \<and> en \<le> bound v)" by fastforce
      then show ?thesis
      proof cases
        case 1
        have u: "unset_range st en xs = overwrite st en None (content xs)" by (rule un) (use zs snoc 1 in auto)
        obtain x where x: "fld right (ptr v) s = Some x" using holds_right [OF repr_holds [OF a(1)]] by blast
        have a1: "repr live ready (Suc n) R s ((zs @ [v]) @ post)" using a(1) by simp
        have e: "first v < en" "\<forall>z \<in> set post. \<not> first z < en \<and> en \<le> first z" using a(2,3) 1(2) assms(3) by fastforce+
        then have "\<forall>z \<in> set post. \<not> first z < en" by blast
        from added [OF a1 next_to_right [OF repr_holds [OF a(1)] e(1) this x], of "bound v" "val v"] obtain r w us where
          w: "add_range_next_to al (if x \<noteq> 0 then ptr_hd post else ptr v) en (bound v) (val v) s = Some (r, w)"
          "repr live ready n R w (zs @ v # us @ post)" "r = 0 \<and> (\<exists>p. us = [Entry p en (bound v) (val v)]) \<or> r = - 1 \<and> us = [] \<and> fails" by auto
        have k: "st \<le> bound v" "ranges (us @ post)" "\<forall>y \<in> set (us @ post). st \<le> first y"
          using 1 a(2) assms(3) w(3) e(2) p' by (auto intro: less_imp_le)
        obtain s' xs2 where s': "set_fld (stop_update (\<lambda>_. st)) (ptr v) w = Some s'" "repr live ready n R s' xs2" "ranges xs2"
          "\<And>a. content xs2 a = (if a < st then content (zs @ v # post) a else content (us @ post) a)"
          by (rule stop_early [OF w(2) a(2,3) k]) blast
        have "result live ready fails n R (unset_range st en xs) r s'" using w(3)
        proof (elim disjE conjE exE)
          fix p
          assume h: "r = 0" "us = [Entry p en (bound v) (val v)]"
          have "content xs2 b = unset_range st en xs b" for b
            using c [of b] p [of b] 1 a(3) assms(3) unfolding u s'(4) h(2)
            by (auto simp: xs' overwrite_def content_append covers_def split: option.splits)
          then show ?thesis unfolding h(1) by (rule resultI [OF s'(2,3)])
        next
          assume h: "r = - 1" "us = []" fails
          have "content xs2 b = unset_range st en xs b \<or> content xs2 b = None" for b
            using c [of b] p [of b] 1 a(3) assms(3) unfolding u s'(4) h(2)
            by (auto simp: xs' overwrite_def content_append covers_def split: option.splits)
          then show ?thesis unfolding h(1) by (rule resultI' [OF s'(2,3) h(3)])
        qed
        then show ?thesis using q 1 x w(1) s'(1) by auto
      next
        case 2
        have u: "unset_range st en xs = overwrite st en None (content xs)" by (rule un) (use zs snoc 2 in auto)
        obtain s' xs2 where s': "set_fld (stop_update (\<lambda>_. st)) (ptr v) s = Some s'" "repr live ready n R s' xs2" "ranges xs2"
          "\<And>a. content xs2 a = (if a < st then content (zs @ v # post) a else content post a)"
          by (rule stop_early [OF repr_less [OF a(1)] a(2,3) less_imp_le [OF 2(1)] p']) blast
        have "content xs2 b = unset_range st en xs b" for b
          using c [of b] p [of b] 2 a(3) assms(3) unfolding u s'(4)
          by (auto simp: xs' overwrite_def content_append covers_def split: option.splits)
        then show ?thesis using resultI [OF s'(2,3)] q 2 s'(1) by auto
      next
        case 3
        have h: "repr live ready n R s ((zs @ [v]) @ post)" "ranges ((zs @ [v]) @ post)" "\<forall>z \<in> set (zs @ [v]). bound z \<le> en"
          using repr_less [OF a(1)] a(2) zs 3 assms(3) by (auto intro: less_imp_le order_trans)
        have sp: "spared st en xs b \<longleftrightarrow> st \<le> b \<and> b < bound v \<and> bound v < en" for b
          using zs b(2) a(3) 3 unfolding spared_def xs' by fastforce
        have "(\<lambda>b. if b < en then content (zs @ [v]) b else content post b) = unset_range st en xs"
        proof
          fix b
          show "(if b < en then content (zs @ [v]) b else content post b) = unset_range st en xs b"
            using c [of b] p [of b] 3 a(3) assms(3) unfolding unset_range_def sp
            by (auto simp: xs' overwrite_def content_append covers_def split: option.splits)
        qed
        then show ?thesis using tail_unsets [OF h] q 3 by auto
      qed
    qed
  qed
qed

end

end
