(* ===== verification/CustomMem.thy ===== *)
theory CustomMem
  imports Prelude
begin

unbundle bit_operations_syntax

text \<open>
  The allocator of \<open>src/custommem.c\<close> for the emulator's own data: blocks of memory cut into
  sub-blocks, each preceded by a mark with the size and state of the sub-block before and of the one
  after it. The memory is a map from the addresses of marks to marks and, apart from it, the bytes of the
  sub-blocks: no mark is written through a byte or read as one. The mutex, the statistics, the page
  protection and the log are not modelled. A loop along the marks ends only on a well-formed block, so
  the loops are partial functions.
\<close>

section \<open>Marks\<close>

text \<open>\<open>mark_t\<close> is a 31-bit size and a fill bit; \<open>x32\<close> is 0 if both are.\<close>

record blockmark =
  prev_size :: "31 word"
  prev_fill :: bool
  next_size :: "31 word"
  next_fill :: bool

type_synonym marks = "u32 \<Rightarrow> blockmark"

definition SIZEOF_MARK :: u32 where "SIZEOF_MARK = 8"
definition THRESHOLD :: u32 where "THRESHOLD = 128 - 2 * SIZEOF_MARK"
definition MMAPSIZE :: u32 where "MMAPSIZE = 64 * 1024"

definition next_x32 :: "blockmark \<Rightarrow> bool" where
  "next_x32 m = (next_size m \<noteq> 0 \<or> next_fill m)"

definition prev_x32 :: "blockmark \<Rightarrow> bool" where
  "prev_x32 m = (prev_size m \<noteq> 0 \<or> prev_fill m)"

definition NEXT_BLOCK :: "marks \<Rightarrow> u32 \<Rightarrow> u32" where
  "NEXT_BLOCK H b = b + ucast (next_size (H b)) + SIZEOF_MARK"

definition PREV_BLOCK :: "marks \<Rightarrow> u32 \<Rightarrow> u32" where
  "PREV_BLOCK H b = b - ucast (prev_size (H b)) - SIZEOF_MARK"

definition LAST_BLOCK :: "u32 \<Rightarrow> u32 \<Rightarrow> u32" where
  "LAST_BLOCK b s = b + s - SIZEOF_MARK"

definition set_next_fill :: "u32 \<Rightarrow> bool \<Rightarrow> marks \<Rightarrow> marks" where
  "set_next_fill b f H = H(b := (H b)\<lparr>next_fill := f\<rparr>)"

definition set_prev_fill :: "u32 \<Rightarrow> bool \<Rightarrow> marks \<Rightarrow> marks" where
  "set_prev_fill b f H = H(b := (H b)\<lparr>prev_fill := f\<rparr>)"

definition set_next_size :: "u32 \<Rightarrow> u32 \<Rightarrow> marks \<Rightarrow> marks" where
  "set_next_size b s H = H(b := (H b)\<lparr>next_size := ucast s\<rparr>)"

definition set_prev_size :: "u32 \<Rightarrow> u32 \<Rightarrow> marks \<Rightarrow> marks" where
  "set_prev_size b s H = H(b := (H b)\<lparr>prev_size := ucast s\<rparr>)"

section \<open>Searching a block\<close>

partial_function (option) first_block_from :: "marks \<Rightarrow> u32 \<Rightarrow> u32 \<Rightarrow> (u32 \<times> u32) option option" where
  "first_block_from H maxsize m = (
     if next_x32 (H m) then
       if \<not> next_fill (H m) \<and> maxsize \<le> ucast (next_size (H m)) then Some (Some (m, ucast (next_size (H m))))
       else first_block_from H maxsize (NEXT_BLOCK H m)
     else Some None)"

definition getFirstBlock :: "marks \<Rightarrow> u32 \<Rightarrow> u32 \<Rightarrow> u32 \<Rightarrow> (u32 \<times> u32) option option" where
  "getFirstBlock H block maxsize start = first_block_from H maxsize (if start \<noteq> 0 then start else block)"

partial_function (option) getNextFreeBlock :: "marks \<Rightarrow> u32 \<Rightarrow> u32 option" where
  "getNextFreeBlock H m = (if next_fill (H m) then getNextFreeBlock H (NEXT_BLOCK H m) else Some m)"

partial_function (option) getPrevFreeBlock :: "marks \<Rightarrow> u32 \<Rightarrow> u32 option" where
  "getPrevFreeBlock H m = (let m = PREV_BLOCK H m in if next_fill (H m) then getPrevFreeBlock H m else Some m)"

definition large_enough :: "u32 \<Rightarrow> u32" where
  "large_enough maxsize = (if SIZEOF_MARK \<le> maxsize then maxsize else 0)"

partial_function (option) max_free_from :: "marks \<Rightarrow> u32 \<Rightarrow> u32 \<Rightarrow> u32 option" where
  "max_free_from H maxsize m = (
     if next_x32 (H m) then let
       maxsize = (if \<not> next_fill (H m) \<and> maxsize < ucast (next_size (H m)) then ucast (next_size (H m)) else maxsize)
     in max_free_from H maxsize (NEXT_BLOCK H m)
     else Some (large_enough maxsize))"

partial_function (option) max_free_to :: "marks \<Rightarrow> u32 \<Rightarrow> u32 \<Rightarrow> u32 \<Rightarrow> u32 option" where
  "max_free_to H block maxsize m = (
     if prev_x32 (H m) then
       if \<not> prev_fill (H m) \<and> maxsize < ucast (prev_size (H m)) then let
         maxsize = ucast (prev_size (H m))
       in if m < block + maxsize then Some (large_enough maxsize)
          else max_free_to H block maxsize (PREV_BLOCK H m)
       else max_free_to H block maxsize (PREV_BLOCK H m)
     else Some (large_enough maxsize))"

definition getMaxFreeBlock :: "marks \<Rightarrow> u32 \<Rightarrow> u32 \<Rightarrow> u32 \<Rightarrow> u32 option" where
  "getMaxFreeBlock H block block_size start = (
     if start \<noteq> 0 then max_free_from H 0 start else max_free_to H block 0 (LAST_BLOCK block block_size))"

section \<open>Taking and giving back\<close>

text \<open>The last argument is the value behind \<open>pstart\<close>, or \<open>None\<close> for a null pointer.\<close>

definition allocBlock :: "marks \<Rightarrow> u32 \<Rightarrow> u32 \<Rightarrow> u32 option \<Rightarrow> (u32 \<times> marks \<times> u32 option) option" where
  "allocBlock H sub sz pstart = (let
     s = sub;
     n = NEXT_BLOCK H s;
     H = set_next_fill s True H;
     (n, H) = (if sz + 2 * SIZEOF_MARK + THRESHOLD < ucast (next_size (H s)) then let
         old_size = ucast (next_size (H s));
         H = set_next_size s sz H;
         m = NEXT_BLOCK H s;
         H = set_prev_fill m True H;
         H = set_prev_size m (ucast (next_size (H s))) H;
         H = set_next_fill m False H;
         H = set_next_size m (old_size - (sz + SIZEOF_MARK)) H;
         H = set_prev_fill n False H;
         H = set_prev_size n (ucast (next_size (H m))) H
       in (m, H)
       else (n, set_prev_fill n True H))
   in if pstart = Some sub then case getNextFreeBlock H n of
          None \<Rightarrow> None
        | Some n \<Rightarrow> Some (sub + SIZEOF_MARK, H, Some n)
      else Some (sub + SIZEOF_MARK, H, pstart))"

definition freeBlock :: "marks \<Rightarrow> u32 \<Rightarrow> u32 \<Rightarrow> u32 option \<Rightarrow> u32 \<times> marks \<times> u32 option" where
  "freeBlock H block sub pstart = (let
     m = block;
     s = sub;
     n = NEXT_BLOCK H s;
     m = (if block \<noteq> sub then PREV_BLOCK H s else m);
     H = set_next_fill s False H;
     H = set_prev_fill n False H;
     (s, H) = (if m \<noteq> s \<and> prev_x32 (H s) \<and> \<not> prev_fill (H s) then let
         H = set_next_size m (ucast (next_size (H m)) + (ucast (next_size (H s)) + SIZEOF_MARK)) H;
         H = set_prev_size n (ucast (next_size (H m))) H
       in (m, H)
       else (s, H));
     H = (if next_x32 (H n) \<and> \<not> next_fill (H n) then let
         n2 = NEXT_BLOCK H n;
         H = set_next_size s (ucast (next_size (H s)) + (ucast (next_size (H n)) + SIZEOF_MARK)) H
       in set_prev_size n2 (ucast (next_size (H s))) H
       else H);
     pstart = (case pstart of None \<Rightarrow> None | Some p \<Rightarrow> Some (if s < p then s else p))
   in (ucast (next_size (H s)), H, pstart))"

text \<open>The guard reads the fill bit of the sub-block itself, which is set, where its comment speaks of the next one.\<close>

definition expandBlock :: "marks \<Rightarrow> u32 \<Rightarrow> u32 \<Rightarrow> bool \<times> marks" where
  "expandBlock H sub newsize = (let
     newsize = (newsize + 3) AND NOT 3;
     s = sub;
     n = NEXT_BLOCK H s
   in if newsize \<le> ucast (next_size (H s)) then (True, H)
      else if next_fill (H s) then (False, H)
      else if ucast (next_size (H s)) + ucast (next_size (H n)) + SIZEOF_MARK < newsize then (False, H)
      else let
        H = (if (ucast (next_size (H s)) + ucast (next_size (H n)) + SIZEOF_MARK) - newsize < THRESHOLD + 2 * SIZEOF_MARK
          then set_next_size s (ucast (next_size (H s)) + (ucast (next_size (H n)) + SIZEOF_MARK)) H
          else set_next_size s (newsize + SIZEOF_MARK) H);
        m = NEXT_BLOCK H s;
        H = set_prev_fill m True H;
        H = set_prev_size m (ucast (next_size (H s))) H;
        H = (if n \<noteq> m then let
            H = set_prev_fill m True H;
            H = set_prev_size m (ucast (next_size (H s))) H;
            H = set_next_fill m False H;
            H = set_next_size m (n - m) H;
            H = set_prev_fill n False H
          in set_prev_size n (ucast (next_size (H m))) H
          else H)
      in (True, H))"

definition sizeBlock :: "marks \<Rightarrow> u32 \<Rightarrow> u32" where
  "sizeBlock H sub = ucast (next_size (H sub))"

definition roundSize :: "u32 \<Rightarrow> u32" where
  "roundSize sz = (if sz = 0 then sz
     else let sz = (sz + 7) AND NOT 7 in if sz < THRESHOLD then THRESHOLD else sz)"

section \<open>The list of blocks\<close>

record blocklist =
  block :: u32
  maxfree :: u32
  block_size :: u32
  first_free :: u32

record cheap =
  p_blocks :: "blocklist list"
  marks :: marks
  bytes :: "u32 \<Rightarrow> u8"

definition setup_marks :: "u32 \<Rightarrow> u32 \<Rightarrow> marks \<Rightarrow> marks" where
  "setup_marks p allocsize H = (let
     H = (\<lambda>a. if a - p < allocsize then \<lparr>prev_size = 0, prev_fill = False, next_size = 0, next_fill = False\<rparr> else H a);
     m = p;
     H = H(m := (H m)\<lparr>prev_size := 0, prev_fill := False\<rparr>);
     H = set_next_fill m False H;
     H = set_next_size m (allocsize - 2 * SIZEOF_MARK) H;
     n = NEXT_BLOCK H m;
     H = H(n := (H n)\<lparr>next_size := 0, next_fill := False\<rparr>);
     H = set_prev_fill n False H
   in set_prev_size n (ucast (next_size (H m))) H)"

text \<open>The first block with room: its index, the sub-block and its size.\<close>

fun find_fit :: "marks \<Rightarrow> u32 \<Rightarrow> nat \<Rightarrow> blocklist list \<Rightarrow> (nat \<times> u32 \<times> u32) option option" where
  "find_fit H sz i [] = Some None"
| "find_fit H sz i (B # Bs) = (if sz \<le> maxfree B then case getFirstBlock H (block B) sz (first_free B) of
        None \<Rightarrow> None
      | Some None \<Rightarrow> find_fit H sz (Suc i) Bs
      | Some (Some (sub, rsize)) \<Rightarrow> Some (Some (i, sub, rsize))
    else find_fit H sz (Suc i) Bs)"

text \<open>\<open>mmap\<close> is the kernel's answer to a request of a size in bytes; the code does not test it for \<open>MAP_FAILED\<close>.\<close>

definition new_block :: "(u32 \<Rightarrow> u32) \<Rightarrow> u32 \<Rightarrow> cheap \<Rightarrow> (u32 \<times> cheap) option" where
  "new_block mmap sz S = (let
     fullsize = sz + 2 * SIZEOF_MARK;
     allocsize = (if MMAPSIZE < fullsize then fullsize else MMAPSIZE);
     p = mmap allocsize;
     H = setup_marks p allocsize (marks S);
     bytes' = (\<lambda>a. if a - p < allocsize then 0 else bytes S a)
   in case allocBlock H p sz (Some p) of
        Some (ret, H, Some first) \<Rightarrow> (case getMaxFreeBlock H p allocsize first of
          Some mx \<Rightarrow> Some (ret, \<lparr>p_blocks = p_blocks S @ [\<lparr>block = p, maxfree = mx, block_size = allocsize, first_free = first\<rparr>],
            marks = H, bytes = bytes'\<rparr>)
        | None \<Rightarrow> None)
      | _ \<Rightarrow> None)"

definition customMalloc :: "(u32 \<Rightarrow> u32) \<Rightarrow> u32 \<Rightarrow> cheap \<Rightarrow> (u32 \<times> cheap) option" where
  "customMalloc mmap sz S = (let sz = roundSize sz in case find_fit (marks S) sz 0 (p_blocks S) of
       None \<Rightarrow> None
     | Some None \<Rightarrow> new_block mmap sz S
     | Some (Some (i, sub, rsize)) \<Rightarrow> let
         B = p_blocks S ! i;
         sz = (if rsize - sz < THRESHOLD then rsize else sz)
       in case allocBlock (marks S) sub sz (Some (first_free B)) of
            Some (ret, H, Some first) \<Rightarrow> let
              B = B\<lparr>first_free := first\<rparr>;
              mx = (if rsize = maxfree B then getMaxFreeBlock H (block B) (block_size B) first else Some (maxfree B))
            in (case mx of
                Some mx \<Rightarrow> Some (ret, S\<lparr>p_blocks := (p_blocks S)[i := B\<lparr>maxfree := mx\<rparr>], marks := H\<rparr>)
              | None \<Rightarrow> None)
          | _ \<Rightarrow> None)"

definition in_block :: "u32 \<Rightarrow> blocklist \<Rightarrow> bool" where
  "in_block a B = (block B < a \<and> a < block B + block_size B)"

fun find_block :: "u32 \<Rightarrow> nat \<Rightarrow> blocklist list \<Rightarrow> nat option" where
  "find_block a i [] = None"
| "find_block a i (B # Bs) = (if in_block a B then Some i else find_block a (Suc i) Bs)"

definition customFree :: "u32 \<Rightarrow> cheap \<Rightarrow> cheap" where
  "customFree p S = (if p = 0 then S else case find_block p 0 (p_blocks S) of
       None \<Rightarrow> S
     | Some i \<Rightarrow> let
         B = p_blocks S ! i;
         sub = p - SIZEOF_MARK;
         (newfree, H, first) = freeBlock (marks S) (block B) sub (Some (first_free B));
         B = B\<lparr>first_free := the first\<rparr>;
         B = (if maxfree B < newfree then B\<lparr>maxfree := newfree\<rparr> else B)
       in S\<lparr>p_blocks := (p_blocks S)[i := B], marks := H\<rparr>)"

definition customCalloc :: "(u32 \<Rightarrow> u32) \<Rightarrow> u32 \<Rightarrow> u32 \<Rightarrow> cheap \<Rightarrow> (u32 \<times> cheap) option" where
  "customCalloc mmap n sz S = (let newsize = roundSize (n * sz) in case customMalloc mmap newsize S of
       None \<Rightarrow> None
     | Some (ret, S) \<Rightarrow> Some (ret, S\<lparr>bytes := (\<lambda>a. if a - ret < newsize then 0 else bytes S a)\<rparr>))"

text \<open>\<open>memcpy\<close> between areas that do not overlap.\<close>

definition memcpy :: "u32 \<Rightarrow> u32 \<Rightarrow> u32 \<Rightarrow> (u32 \<Rightarrow> u8) \<Rightarrow> u32 \<Rightarrow> u8" where
  "memcpy dst src n M = (\<lambda>a. if a - dst < n then M (src + (a - dst)) else M a)"

definition customRealloc :: "(u32 \<Rightarrow> u32) \<Rightarrow> u32 \<Rightarrow> u32 \<Rightarrow> cheap \<Rightarrow> (u32 \<times> cheap) option" where
  "customRealloc mmap p sz S = (if p = 0 then customMalloc mmap sz S else let sz = roundSize sz in
     case find_block p 0 (p_blocks S) of
       None \<Rightarrow> customMalloc mmap sz S
     | Some i \<Rightarrow> let
         B = p_blocks S ! i;
         sub = p - SIZEOF_MARK;
         (expanded, H) = expandBlock (marks S) sub sz
       in if expanded then let
           first = (if sub < first_free B \<and> first_free B \<le> p + sz + SIZEOF_MARK then getNextFreeBlock H sub else Some (first_free B))
         in (case first of
               None \<Rightarrow> None
             | Some first \<Rightarrow> (case getMaxFreeBlock H (block B) (block_size B) first of
                 None \<Rightarrow> None
               | Some mx \<Rightarrow> Some (p, S\<lparr>p_blocks := (p_blocks S)[i := B\<lparr>first_free := first, maxfree := mx\<rparr>], marks := H\<rparr>)))
         else case customMalloc mmap sz S of
             None \<Rightarrow> None
           | Some (newp, S) \<Rightarrow> Some (newp, customFree p (S\<lparr>bytes := memcpy newp p (sizeBlock (marks S) sub) (bytes S)\<rparr>)))"

end
