(* ===== verification/CustomMemSpec.thy ===== *)
theory CustomMemSpec
  imports CustomMem
begin

unbundle bit_operations_syntax

text \<open>
  What the allocator promises for one block. The specification of a block is the list of its sub-blocks, each a size
  and whether it is in use; \<open>layout\<close> says that the marks in memory represent such a list. Searching,
  taking and giving back are proved to be the obvious functions on the list.
\<close>

section \<open>Addresses in a block\<close>

definition at :: "u32 \<Rightarrow> nat \<Rightarrow> u32" where
  "at b k = b + of_nat k"

lemma at_inj: "k < 2 ^ 32 \<Longrightarrow> l < 2 ^ 32 \<Longrightarrow> at b k = at b l \<longleftrightarrow> k = l"
  by (simp add: at_def word_of_nat_eq_iff take_bit_nat_eq_self)

lemma at_next: "at b k + of_nat s + SIZEOF_MARK = at b (k + s + 8)"
  by (simp add: at_def SIZEOF_MARK_def)

lemma at_prev: "at b (k + s + 8) - of_nat s - SIZEOF_MARK = at b k"
  by (simp add: at_def SIZEOF_MARK_def)

lemma ucast_size: "s < 2 ^ 31 \<Longrightarrow> ucast (of_nat s :: 31 word) = (of_nat s :: u32)"
  by (simp add: unsigned_of_nat take_bit_nat_eq_self word_eq_iff_unsigned [where ?'a = nat])

section \<open>Layout\<close>

type_synonym subs = "(nat \<times> bool) list"

definition span :: "subs \<Rightarrow> nat" where
  "span xs = (\<Sum>(s, f)\<leftarrow>xs. s + 8)"

lemma span_simps [simp]: "span [] = 0" "span ((s, f) # xs) = s + 8 + span xs" "span (xs @ ys) = span xs + span ys"
  by (simp_all add: span_def)

primrec seg :: "marks \<Rightarrow> u32 \<Rightarrow> nat \<Rightarrow> subs \<Rightarrow> bool" where
  "seg H b k [] = True"
| "seg H b k (x # xs) = (next_size (H (at b k)) = of_nat (fst x) \<and> next_fill (H (at b k)) = snd x \<and>
     prev_size (H (at b (k + fst x + 8))) = of_nat (fst x) \<and> prev_fill (H (at b (k + fst x + 8))) = snd x \<and>
     seg H b (k + fst x + 8) xs)"

text \<open>No two free sub-blocks are neighbours, and a free one is not empty.\<close>

definition coalesced :: "subs \<Rightarrow> bool" where
  "coalesced xs = (successively (\<lambda>x y. snd x \<or> snd y) xs \<and> (\<forall>x \<in> set xs. snd x \<or> 0 < fst x))"

definition layout :: "marks \<Rightarrow> u32 \<Rightarrow> subs \<Rightarrow> bool" where
  "layout H b xs = (seg H b 0 xs \<and> \<not> prev_x32 (H b) \<and> \<not> next_x32 (H (at b (span xs))) \<and>
     span xs < 2 ^ 31 \<and> unat b + span xs + 8 \<le> 2 ^ 32 \<and> b \<noteq> 0 \<and> coalesced xs)"

lemma seg_append: "seg H b k (xs @ ys) \<longleftrightarrow> seg H b k xs \<and> seg H b (k + span xs) ys"
proof (induction xs arbitrary: k)
  case (Cons x xs)
  then show ?case by (cases x) (simp add: add.assoc add.left_commute)
qed simp

lemma seg_cong:
  assumes "\<forall>j. k < j \<and> j < k + span xs \<longrightarrow> H' (at b j) = H (at b j)"
    and "next_size (H' (at b k)) = next_size (H (at b k)) \<and> next_fill (H' (at b k)) = next_fill (H (at b k)) \<or> xs = []"
    and "prev_size (H' (at b (k + span xs))) = prev_size (H (at b (k + span xs))) \<and>
      prev_fill (H' (at b (k + span xs))) = prev_fill (H (at b (k + span xs))) \<or> xs = []"
  shows "seg H' b k xs = seg H b k xs"
  using assms
proof (induction xs arbitrary: k)
  case (Cons x xs)
  obtain s f where x: "x = (s, f)" by force
  show ?case
  proof (cases "xs = []")
    case True
    then show ?thesis using Cons.prems x by (simp add: add.assoc)
  next
    case False
    then have p: "0 < span xs" by (cases xs) (auto simp: neq_Nil_conv)
    then have m: "H' (at b (k + s + 8)) = H (at b (k + s + 8))"
      using Cons.prems(1) x by simp
    have "seg H' b (k + s + 8) xs = seg H b (k + s + 8) xs"
      using Cons.prems x m False by (intro Cons.IH) (auto simp: add.assoc)
    then show ?thesis using Cons.prems(2) x m by simp
  qed
qed simp

section \<open>Searching\<close>

text \<open>The first free sub-block of at least \<open>mx\<close> bytes: its offset and size.\<close>

fun first_fit :: "nat \<Rightarrow> nat \<Rightarrow> subs \<Rightarrow> (nat \<times> nat) option" where
  "first_fit mx k [] = None"
| "first_fit mx k ((s, f) # xs) = (if \<not> f \<and> mx \<le> s then Some (k, s) else first_fit mx (k + s + 8) xs)"

definition max_free :: "subs \<Rightarrow> nat" where
  "max_free xs = (let m = fold max (map fst (filter (\<lambda>x. \<not> snd x) xs)) 0 in if 8 \<le> m then m else 0)"

lemma of_nat_le_u32: "s < 2 ^ 32 \<Longrightarrow> t < 2 ^ 32 \<Longrightarrow> (of_nat s :: u32) \<le> of_nat t \<longleftrightarrow> s \<le> t"
  by (simp add: word_le_nat_alt unsigned_of_nat take_bit_nat_eq_self)

lemma of_nat_less_u32: "s < 2 ^ 32 \<Longrightarrow> t < 2 ^ 32 \<Longrightarrow> (of_nat s :: u32) < of_nat t \<longleftrightarrow> s < t"
  by (simp add: word_less_nat_alt unsigned_of_nat take_bit_nat_eq_self)

text \<open>What the marks at a sub-block say.\<close>

lemma mark_next:
  assumes "seg H b k ((s, f) # xs)" "s < 2 ^ 31"
  shows "ucast (next_size (H (at b k))) = (of_nat s :: u32)" "next_fill (H (at b k)) = f" "NEXT_BLOCK H (at b k) = at b (k + s + 8)"
  using assms by (simp_all add: NEXT_BLOCK_def at_next ucast_size)

lemma mark_live:
  assumes "seg H b k ((s, f) # xs)" "s < 2 ^ 31" "f \<or> 0 < s"
  shows "next_x32 (H (at b k))"
proof -
  have "(of_nat s :: 31 word) \<noteq> 0 \<or> f"
    using assms(2,3) by (auto simp: word_of_nat_eq_iff take_bit_nat_eq_self word_eq_iff_unsigned [where ?'a = nat] unsigned_of_nat)
  then show ?thesis using assms(1) by (simp add: next_x32_def)
qed

lemma first_block_from_fit:
  assumes "seg H b k xs" "\<not> next_x32 (H (at b (k + span xs)))" "k + span xs < 2 ^ 31" "\<forall>x \<in> set xs. snd x \<or> 0 < fst x"
    and "mx < 2 ^ 32"
  shows "first_block_from H (of_nat mx) (at b k) = Some (map_option (\<lambda>(k, s). (at b k, of_nat s)) (first_fit mx k xs))"
  using assms(1-4)
proof (induction xs arbitrary: k)
  case Nil
  then show ?case by (subst first_block_from.simps) simp
next
  case (Cons x xs)
  obtain s f where x: "x = (s, f)" by force
  have s: "s < 2 ^ 31" using Cons.prems(3) x by simp
  note m = mark_next [of H b k s f xs] mark_live [of H b k s f xs]
  have "next_x32 (H (at b k))" using m(4) Cons.prems(1,4) x s by auto
  moreover have "(of_nat mx :: u32) \<le> of_nat s \<longleftrightarrow> mx \<le> s" using assms(5) s by (simp add: of_nat_le_u32)
  moreover have "first_block_from H (of_nat mx) (at b (k + s + 8)) =
      Some (map_option (\<lambda>(k, s). (at b k, of_nat s)) (first_fit mx (k + s + 8) xs))"
    using Cons.prems x by (intro Cons.IH) (simp_all add: add.assoc)
  ultimately show ?case
    using m(1-3) Cons.prems(1) x s by (subst first_block_from.simps) simp
qed

lemma next_free_from:
  assumes "seg H b k xs" "\<not> next_x32 (H (at b (k + span xs)))" "k + span xs < 2 ^ 31"
  shows "getNextFreeBlock H (at b k) = Some (at b (k + span (takeWhile snd xs)))"
  using assms
proof (induction xs arbitrary: k)
  case Nil
  then show ?case by (subst getNextFreeBlock.simps) (simp add: next_x32_def)
next
  case (Cons x xs)
  obtain s f where x: "x = (s, f)" by force
  have "getNextFreeBlock H (at b (k + s + 8)) = Some (at b (k + s + 8 + span (takeWhile snd xs)))"
    using Cons.prems x by (intro Cons.IH) (simp_all add: add.assoc)
  then show ?case
    using mark_next [of H b k s f xs] Cons.prems x by (subst getNextFreeBlock.simps) (simp add: add.assoc)
qed

lemma max_free_from_fold:
  assumes "seg H b k xs" "\<not> next_x32 (H (at b (k + span xs)))" "k + span xs < 2 ^ 31" "\<forall>x \<in> set xs. snd x \<or> 0 < fst x" "m < 2 ^ 31"
  shows "max_free_from H (of_nat m) (at b k) = Some (large_enough (of_nat (fold max (map fst (filter (\<lambda>x. \<not> snd x) xs)) m)))"
  using assms
proof (induction xs arbitrary: k m)
  case Nil
  then show ?case by (subst max_free_from.simps) simp
next
  case (Cons x xs)
  obtain s f where x: "x = (s, f)" by force
  have s: "s < 2 ^ 31" using Cons.prems(3) x by simp
  note m = mark_next [of H b k s f xs] mark_live [of H b k s f xs]
  have "next_x32 (H (at b k))" using m(4) Cons.prems(1,4) x s by auto
  moreover have "(of_nat m :: u32) < of_nat s \<longleftrightarrow> m < s" using Cons.prems(5) s by (simp add: of_nat_less_u32)
  moreover have "max_free_from H (of_nat m') (at b (k + s + 8)) =
      Some (large_enough (of_nat (fold max (map fst (filter (\<lambda>x. \<not> snd x) xs)) m')))" if "m' < 2 ^ 31" for m'
    using Cons.prems x that by (intro Cons.IH) (simp_all add: add.assoc)
  ultimately show ?case
    using m(1-3) Cons.prems(1,5) x s by (subst max_free_from.simps) (auto simp: Let_def max_def)
qed

text \<open>Marks outside a block of \<open>n + 8\<close> bytes are left alone.\<close>

definition outside_kept :: "u32 \<Rightarrow> nat \<Rightarrow> marks \<Rightarrow> marks \<Rightarrow> bool" where
  "outside_kept b n H H' = (\<forall>a. (\<forall>j < n + 8. a \<noteq> at b j) \<longrightarrow> H' a = H a)"

lemma outside_kept_trans: "outside_kept b n H G \<Longrightarrow> outside_kept b n G K \<Longrightarrow> outside_kept b n H K"
  by (simp add: outside_kept_def)

lemma outside_kept_refl [simp]: "outside_kept b n H H"
  by (simp add: outside_kept_def)

section \<open>Taking\<close>

text \<open>Taking a free sub-block cuts off what is left over if it is worth a mark.\<close>

definition take_sub :: "nat \<Rightarrow> nat \<Rightarrow> subs" where
  "take_sub sz s = (if sz + 128 < s then [(sz, True), (s - sz - 8, False)] else [(s, True)])"

lemma span_take_sub: "sz \<le> s \<Longrightarrow> span (take_sub sz s) = s + 8"
  by (simp add: take_sub_def)

lemma coalesced_take:
  assumes "coalesced (ys @ (s, False) # zs)"
  shows "coalesced (ys @ take_sub sz s @ zs)"
proof -
  have "zs = [] \<or> snd (hd zs)" "ys = [] \<or> snd (last ys)"
    using assms by (auto simp: coalesced_def successively_append_iff successively_Cons)
  then show ?thesis
    using assms by (auto simp: coalesced_def take_sub_def successively_append_iff successively_Cons)
qed

lemma set_field_simps:
  "next_size (set_next_fill a f H c) = next_size (H c)" "next_fill (set_next_fill a f H c) = (if c = a then f else next_fill (H c))"
  "prev_size (set_next_fill a f H c) = prev_size (H c)" "prev_fill (set_next_fill a f H c) = prev_fill (H c)"
  "next_size (set_prev_fill a f H c) = next_size (H c)" "next_fill (set_prev_fill a f H c) = next_fill (H c)"
  "prev_size (set_prev_fill a f H c) = prev_size (H c)" "prev_fill (set_prev_fill a f H c) = (if c = a then f else prev_fill (H c))"
  "next_size (set_next_size a v H c) = (if c = a then ucast v else next_size (H c))" "next_fill (set_next_size a v H c) = next_fill (H c)"
  "prev_size (set_next_size a v H c) = prev_size (H c)" "prev_fill (set_next_size a v H c) = prev_fill (H c)"
  "next_size (set_prev_size a v H c) = next_size (H c)" "next_fill (set_prev_size a v H c) = next_fill (H c)"
  "prev_size (set_prev_size a v H c) = (if c = a then ucast v else prev_size (H c))" "prev_fill (set_prev_size a v H c) = prev_fill (H c)"
  by (simp_all add: set_next_fill_def set_prev_fill_def set_next_size_def set_prev_size_def)

text \<open>The marks after taking: those of the sub-block, of the remainder if there is one, and of the sub-block after it.\<close>

definition alloc_small :: "u32 \<Rightarrow> nat \<Rightarrow> nat \<Rightarrow> marks \<Rightarrow> marks" where
  "alloc_small b k e H = set_prev_fill (at b e) True (set_next_fill (at b k) True H)"

definition alloc_split :: "u32 \<Rightarrow> nat \<Rightarrow> nat \<Rightarrow> nat \<Rightarrow> nat \<Rightarrow> marks \<Rightarrow> marks" where
  "alloc_split b k m e r H = set_prev_size (at b e) (of_nat r) (set_prev_fill (at b e) False (set_next_size (at b m) (of_nat r)
     (set_next_fill (at b m) False (set_prev_size (at b m) (of_nat (m - k - 8)) (set_prev_fill (at b m) True
       (set_next_size (at b k) (of_nat (m - k - 8)) (set_next_fill (at b k) True H)))))))"

lemma alloc_outside:
  assumes "k \<le> n" "m \<le> n" "e \<le> n"
  shows "outside_kept b n H (alloc_small b k e H)" "outside_kept b n H (alloc_split b k m e r H)"
  using assms by (simp_all add: outside_kept_def alloc_small_def alloc_split_def
      set_next_fill_def set_prev_fill_def set_next_size_def set_prev_size_def)

lemma allocBlock_eq:
  assumes "next_size (H (at b k)) = of_nat s" "k + s + 8 < 2 ^ 31" "sz \<le> s"
  defines "e \<equiv> k + s + 8" and "m \<equiv> k + sz + 8"
  shows "allocBlock H (at b k) (of_nat sz) p = (let
      n = (if sz + 128 < s then m else e);
      H' = (if sz + 128 < s then alloc_split b k m e (s - sz - 8) H else alloc_small b k e H)
    in if p = Some (at b k) then case getNextFreeBlock H' (at b n) of None \<Rightarrow> None | Some n \<Rightarrow> Some (at b k + SIZEOF_MARK, H', Some n)
       else Some (at b k + SIZEOF_MARK, H', p))"
proof -
  have u: "ucast (next_size (H (at b k))) = (of_nat s :: u32)" using assms(1,2) by (simp add: ucast_size)
  have z: "ucast (of_nat sz :: 31 word) = (of_nat sz :: u32)" "ucast (of_nat sz :: u32) = (of_nat sz :: 31 word)"
    using assms(2,3) by (simp_all add: unsigned_of_nat take_bit_nat_eq_self)
  have n: "NEXT_BLOCK H (at b k) = at b e" by (simp add: NEXT_BLOCK_def u at_next e_def)
  have c: "(of_nat sz + 2 * SIZEOF_MARK + THRESHOLD < (of_nat s :: u32)) = (sz + 128 < s)"
  proof -
    have "of_nat sz + 2 * SIZEOF_MARK + THRESHOLD = (of_nat (sz + 128) :: u32)" by (simp add: SIZEOF_MARK_def THRESHOLD_def)
    then show ?thesis using assms(2,3) by (simp only:) (rule of_nat_less_u32, auto)
  qed
  show ?thesis
  proof (cases "sz + 128 < s")
    case False
    then show ?thesis by (simp add: allocBlock_def Let_def u n c set_field_simps alloc_small_def)
  next
    case True
    define t where "t = s - sz - 8"
    have t: "s = sz + 8 + t" "t < 2 ^ 31" using True assms(2) by (simp_all add: t_def)
    have d: "m - k - 8 = sz" by (simp add: m_def)
    have r: "of_nat s - (of_nat sz + SIZEOF_MARK) = (of_nat t :: u32)"
      by (simp add: t(1) SIZEOF_MARK_def)
    have rz: "ucast (of_nat t :: 31 word) = (of_nat t :: u32)" "ucast (of_nat t :: u32) = (of_nat t :: 31 word)"
      using t(2) by (simp_all add: unsigned_of_nat take_bit_nat_eq_self)
    have "m < 2 ^ 32" "k < 2 ^ 32" "e < 2 ^ 32" "m \<noteq> k" "m \<noteq> e" using assms(2,3) t by (simp_all add: m_def e_def)
    then show ?thesis
      using True unfolding alloc_split_def d t_def [symmetric]
      by (simp add: allocBlock_def Let_def u n c set_field_simps NEXT_BLOCK_def at_next z r rz at_inj flip: m_def e_def)
  qed
qed

text \<open>Replacing a stretch of sub-blocks by another of the same length.\<close>

lemma seg_replace:
  assumes "seg H b 0 (ys @ old @ zs)" "span new = span old"
    and "seg G b (span ys) new"
    and "\<forall>j. j < span ys \<or> span (ys @ old) < j \<and> j \<le> span (ys @ old @ zs) \<longrightarrow> G (at b j) = H (at b j)"
    and "prev_size (G (at b (span ys))) = prev_size (H (at b (span ys)))" "prev_fill (G (at b (span ys))) = prev_fill (H (at b (span ys)))"
    and "next_size (G (at b (span (ys @ old)))) = next_size (H (at b (span (ys @ old))))"
      "next_fill (G (at b (span (ys @ old)))) = next_fill (H (at b (span (ys @ old))))"
  shows "seg G b 0 (ys @ new @ zs)"
proof -
  have pos: "xs \<noteq> [] \<Longrightarrow> 0 < span xs" for xs by (cases xs) auto
  have g: "seg H b 0 ys" "seg H b (span (ys @ old)) zs" using assms(1) by (simp_all add: seg_append)
  have "seg G b 0 ys"
    using g(1) assms(4-6) pos [of ys] by (subst seg_cong [of 0 ys G b H]) auto
  moreover have "seg G b (span (ys @ old)) zs"
    using g(2) assms(4,7,8) pos [of zs] by (subst seg_cong [of "span (ys @ old)" zs G b H]) auto
  ultimately show ?thesis
    using assms(2,3) by (simp add: seg_append)
qed

lemma seg_take:
  assumes "seg H b 0 (ys @ (s, False) # zs)" "span (ys @ (s, False) # zs) < 2 ^ 31" "sz \<le> s"
  defines "k \<equiv> span ys" and "e \<equiv> span ys + s + 8" and "m \<equiv> span ys + sz + 8"
  defines "G \<equiv> if sz + 128 < s then alloc_split b k m e (s - sz - 8) H else alloc_small b k e H"
  shows "seg G b 0 (ys @ take_sub sz s @ zs) \<and> prev_x32 (G (at b k)) = prev_x32 (H (at b k)) \<and>
    next_x32 (G (at b e)) = next_x32 (H (at b e)) \<and> (\<forall>j < k. G (at b j) = H (at b j)) \<and>
    (\<forall>j < 2 ^ 31. e < j \<longrightarrow> G (at b j) = H (at b j))"
proof -
  have lt: "e < 2 ^ 31" "k < e" "k < m" "e + span zs < 2 ^ 31" using assms(2) by (simp_all add: e_def k_def m_def)
  have me: "m < e" if "sz + 128 < s" using that by (simp add: m_def e_def)
  have o: "G (at b j) = H (at b j)" if "j < 2 ^ 31" "j < k \<or> e < j" for j
    using that lt me
    by (auto simp: G_def alloc_small_def alloc_split_def set_prev_fill_def set_next_fill_def set_next_size_def set_prev_size_def at_inj)
  have P: "prev_size (G (at b k)) = prev_size (H (at b k))" "prev_fill (G (at b k)) = prev_fill (H (at b k))"
      "next_size (G (at b e)) = next_size (H (at b e))" "next_fill (G (at b e)) = next_fill (H (at b e))"
    using lt me by (auto simp: G_def alloc_small_def alloc_split_def set_field_simps at_inj)
  have "seg G b k (take_sub sz s)"
  proof (cases "sz + 128 < s")
    case False
    then show ?thesis
      using assms(1) lt by (simp add: G_def alloc_small_def set_field_simps take_sub_def seg_append at_inj e_def k_def add.assoc)
  next
    case True
    define t where "t = s - sz - 8"
    have t: "t < 2 ^ 31" "sz < 2 ^ 31" "m + t + 8 = e" "m - k - 8 = sz" "k + sz + 8 = m" "m \<noteq> e" "k \<noteq> e" "k \<noteq> m"
      using True lt by (simp_all add: t_def m_def k_def e_def)
    have u: "ucast (of_nat n :: u32) = (of_nat n :: 31 word)" if "n < 2 ^ 31" for n
      using that by (simp add: unsigned_of_nat take_bit_nat_eq_self)
    have G: "G = alloc_split b k m e t H" and T: "take_sub sz s = [(sz, True), (t, False)]" using True by (simp_all add: G_def take_sub_def t_def)
    show ?thesis
      unfolding G T alloc_split_def t(4)
      using lt t by (simp add: set_field_simps at_inj u)
  qed
  then have "seg G b 0 (ys @ take_sub sz s @ zs)"
    using assms(1,3) o P lt
    by (intro seg_replace [of H b ys "[(s, False)]" zs "take_sub sz s" G]) (auto simp: span_take_sub k_def e_def add.assoc)
  then show ?thesis using o P lt by (auto simp: prev_x32_def next_x32_def)
qed

lemma coalesced_free: "coalesced xs \<Longrightarrow> \<forall>x \<in> set xs. snd x \<or> 0 < fst x"
  by (simp add: coalesced_def)

lemma at_0 [simp]: "at b 0 = b"
  by (simp add: at_def)

text \<open>
  Taking \<open>sz\<close> bytes from a free sub-block of at least that size turns it, in the specification of the block, into a
  used one of that size and a free remainder if that is worth its marks, and into a used one as a whole
  otherwise; the marks are again those of a well-formed block without neighbouring free sub-blocks, the
  pointer returned is the one behind the sub-block's mark, and a hint at the first free sub-block stays right.\<close>

lemma allocBlock_refines:
  assumes "layout H b (ys @ (s, False) # zs)" "sz \<le> s" "p = Some (at b (span (takeWhile snd (ys @ (s, False) # zs)))) \<or> p = None"
  defines "xs' \<equiv> ys @ take_sub sz s @ zs"
  shows "\<exists>H'. allocBlock H (at b (span ys)) (of_nat sz) p =
      Some (at b (span ys) + SIZEOF_MARK, H', map_option (\<lambda>_. at b (span (takeWhile snd xs'))) p) \<and> layout H' b xs' \<and> outside_kept b (span xs') H H'"
proof -
  define k e m where "k = span ys" and "e = span ys + s + 8" and "m = span ys + sz + 8"
  define G where "G = (if sz + 128 < s then alloc_split b k m e (s - sz - 8) H else alloc_small b k e H)"
  define n where "n = (if sz + 128 < s then m else e)"
  have l: "seg H b 0 (ys @ (s, False) # zs)" "span (ys @ (s, False) # zs) < 2 ^ 31" "\<not> prev_x32 (H b)"
      "\<not> next_x32 (H (at b (e + span zs)))" "coalesced (ys @ (s, False) # zs)"
    using assms(1) by (simp_all add: layout_def e_def add.assoc)
  note S = seg_take [OF l(1,2) assms(2), folded k_def e_def m_def, folded G_def]
  then have S1: "seg G b 0 xs'" and S2: "prev_x32 (G (at b k)) = prev_x32 (H (at b k))" and S3: "next_x32 (G (at b e)) = next_x32 (H (at b e))"
    and S4: "\<And>j. j < k \<Longrightarrow> G (at b j) = H (at b j)" and S5: "\<And>j. j < 2 ^ 31 \<Longrightarrow> e < j \<Longrightarrow> G (at b j) = H (at b j)"
    by (simp_all add: xs'_def)
  have sp: "span xs' = e + span zs" using assms(2) by (simp add: xs'_def span_take_sub e_def)
  have L: "layout G b xs'"
  proof -
    have "prev_x32 (G b) = prev_x32 (H b)"
      using S2 S4 [of 0] by (cases "k = 0") simp_all
    moreover have "next_x32 (G (at b (e + span zs))) = next_x32 (H (at b (e + span zs)))"
      using S3 S5 [of "e + span zs"] l(2) by (cases "span zs = 0") (simp_all add: e_def)
    moreover have "unat b + (e + span zs) + 8 \<le> 2 ^ 32" "b \<noteq> 0" "e + span zs < 2 ^ 31"
      using assms(1) by (simp_all add: layout_def e_def add.assoc)
    moreover have "coalesced xs'" using coalesced_take [OF l(5)] by (simp add: xs'_def)
    ultimately show ?thesis
      using S1 l(3,4) unfolding layout_def sp by simp
  qed
  have a: "allocBlock H (at b k) (of_nat sz) p = (if p = Some (at b k) then case getNextFreeBlock G (at b n) of
      None \<Rightarrow> None | Some n \<Rightarrow> Some (at b k + SIZEOF_MARK, G, Some n) else Some (at b k + SIZEOF_MARK, G, p))"
  proof -
    have "next_size (H (at b k)) = of_nat s" "k + s + 8 < 2 ^ 31" using l(1,2) by (simp_all add: seg_append k_def)
    from allocBlock_eq [of H b k s sz p, OF this assms(2)] show ?thesis
      by (simp only: Let_def G_def n_def e_def m_def k_def)
  qed
  have seg: "seg G b 0 xs'" "\<not> next_x32 (G (at b (span xs')))" "span xs' < 2 ^ 31" using L by (simp_all add: layout_def)
  have O: "outside_kept b (span xs') H G"
    using alloc_outside [of k "span xs'" m e b H] assms(2) unfolding sp by (simp add: G_def k_def m_def e_def)
  have len: "span (takeWhile snd ys) < k" if "takeWhile snd ys \<noteq> ys"
  proof -
    have "ys = takeWhile snd ys @ dropWhile snd ys" by simp
    then have "k = span (takeWhile snd ys) + span (dropWhile snd ys)" unfolding k_def by (metis span_simps(3))
    moreover have "dropWhile snd ys \<noteq> []" using that by (metis append_Nil2 takeWhile_dropWhile_id)
    then have "0 < span (dropWhile snd ys)" by (cases "dropWhile snd ys") auto
    ultimately show ?thesis by simp
  qed
  show ?thesis
  proof (cases "takeWhile snd ys = ys")
    case False
    then have t: "takeWhile snd (ys @ us) = takeWhile snd ys" for us by (metis takeWhile_append takeWhile_eq_all_conv)
    have "at b (span (takeWhile snd ys)) \<noteq> at b k"
      using len [OF False] seg(3) sp by (simp add: at_inj e_def k_def)
    then show ?thesis
      using a L O assms(3) by (auto simp: t xs'_def k_def)
  next
    case True
    then have all: "\<forall>y \<in> set ys. snd y" by (simp add: takeWhile_eq_all_conv)
    have f: "span (takeWhile snd (ys @ (s, False) # zs)) = k" using all by (simp add: k_def)
    have "getNextFreeBlock G (at b n) = Some (at b (span (takeWhile snd xs')))"
    proof (cases "sz + 128 < s")
      case True
      have "next_fill (G (at b m)) = False"
        using seg(1) True by (simp add: xs'_def take_sub_def seg_append m_def add.assoc)
      then show ?thesis
        using True all by (subst getNextFreeBlock.simps) (simp add: n_def xs'_def take_sub_def m_def add.assoc)
    next
      case False
      then have "seg G b e zs" using seg(1) by (simp add: xs'_def take_sub_def seg_append e_def add.assoc)
      then show ?thesis
        using next_free_from [of G b e zs] False seg(2,3) all sp by (simp add: n_def xs'_def take_sub_def e_def add.assoc)
    qed
    then show ?thesis
      using a L O assms(3) f by (auto simp: k_def)
  qed
qed

section \<open>Giving back\<close>

text \<open>Giving back merges the sub-block with a free one before it and a free one after it.\<close>

fun merge_prev :: "subs \<Rightarrow> nat \<Rightarrow> subs \<times> nat" where
  "merge_prev ys s = (if ys \<noteq> [] \<and> \<not> snd (last ys) then (butlast ys, fst (last ys) + s + 8) else (ys, s))"

fun merge_next :: "nat \<Rightarrow> subs \<Rightarrow> nat \<times> subs" where
  "merge_next s ((t, False) # zs) = (s + t + 8, zs)"
| "merge_next s zs = (s, zs)"

definition free_sub :: "subs \<Rightarrow> nat \<Rightarrow> subs \<Rightarrow> subs" where
  "free_sub ys s zs = (let (ys', s') = merge_prev ys s; (s'', zs') = merge_next s' zs in ys' @ (s'', False) # zs')"

definition merge_marks :: "u32 \<Rightarrow> nat \<Rightarrow> nat \<Rightarrow> marks \<Rightarrow> marks" where
  "merge_marks b k v H = set_prev_size (at b (k + v + 8)) (of_nat v) (set_next_size (at b k) (of_nat v) H)"

definition release_marks :: "u32 \<Rightarrow> nat \<Rightarrow> nat \<Rightarrow> marks \<Rightarrow> marks" where
  "release_marks b k s H = set_prev_fill (at b (k + s + 8)) False (set_next_fill (at b k) False H)"

lemma ucast_down: "n < 2 ^ 31 \<Longrightarrow> ucast (of_nat n :: u32) = (of_nat n :: 31 word)"
  by (simp add: unsigned_of_nat take_bit_nat_eq_self)

lemma seg_merge:
  assumes "seg H b 0 (ys @ (p, False) # (s, False) # zs)" "span (ys @ (p, False) # (s, False) # zs) < 2 ^ 31"
  defines "k \<equiv> span ys" and "v \<equiv> p + s + 8"
  shows "seg (merge_marks b k v H) b 0 (ys @ (v, False) # zs) \<and>
    (\<forall>j < 2 ^ 31. prev_x32 (merge_marks b k v H (at b j)) = prev_x32 (H (at b j)) \<or> j = k + v + 8) \<and>
    (\<forall>j < 2 ^ 31. next_x32 (merge_marks b k v H (at b j)) = next_x32 (H (at b j)) \<or> j = k)"
proof -
  have lt: "k + v + 8 < 2 ^ 31" "k + v + 8 + span zs < 2 ^ 31" "v < 2 ^ 31" using assms(2) by (simp_all add: k_def v_def)
  define E where "E = k + v + 8"
  define G where "G = merge_marks b k v H"
  have E: "span (ys @ [(p, False), (s, False)]) = E" "k + p + 8 + s + 8 = E" by (simp_all add: E_def k_def v_def)
  have h: "\<not> next_fill (H (at b k))" "\<not> prev_fill (H (at b E))"
    using assms(1) unfolding E(2) [symmetric] by (simp_all add: seg_append k_def)
  have ne: "at b k \<noteq> at b E" "at b E \<noteq> at b k" using lt(1) by (simp_all add: at_inj E_def)
  have g: "next_size (G (at b k)) = of_nat v" "next_fill (G (at b k)) = next_fill (H (at b k))" "prev_size (G (at b E)) = of_nat v"
    "prev_fill (G (at b E)) = prev_fill (H (at b E))" "prev_size (G (at b k)) = prev_size (H (at b k))"
    "prev_fill (G (at b k)) = prev_fill (H (at b k))" "next_size (G (at b E)) = next_size (H (at b E))"
    "next_fill (G (at b E)) = next_fill (H (at b E))"
    using ne ucast_down [OF lt(3)] by (simp_all add: G_def merge_marks_def set_field_simps flip: E_def)
  have o: "G (at b j) = H (at b j)" if "j < 2 ^ 31" "j \<noteq> k" "j \<noteq> E" for j
    using that lt by (simp add: G_def merge_marks_def set_prev_size_def set_next_size_def at_inj E_def)
  have "seg G b 0 (ys @ [(v, False)] @ zs)"
  proof (rule seg_replace [of H b ys "[(p, False), (s, False)]"])
    show "seg G b (span ys) [(v, False)]" using g h by (simp add: E_def k_def)
    show "\<forall>j. j < span ys \<or> span (ys @ [(p, False), (s, False)]) < j \<and> j \<le> span (ys @ [(p, False), (s, False)] @ zs) \<longrightarrow>
        G (at b j) = H (at b j)"
      using assms(2) lt(1) unfolding E by (auto intro!: o simp: k_def E_def)
  qed (use assms(1) g E in \<open>simp_all add: k_def v_def\<close>)
  then have "seg (merge_marks b k v H) b 0 (ys @ [(v, False)] @ zs)" by (simp only: G_def)
  then show ?thesis
    using lt by (auto simp: merge_marks_def prev_x32_def next_x32_def set_field_simps at_inj)
qed

lemma seg_release:
  assumes "seg H b 0 (ys @ (s, True) # zs)" "span (ys @ (s, True) # zs) < 2 ^ 31"
  defines "k \<equiv> span ys"
  shows "seg (release_marks b k s H) b 0 (ys @ (s, False) # zs) \<and>
    (\<forall>j < 2 ^ 31. prev_x32 (release_marks b k s H (at b j)) = prev_x32 (H (at b j)) \<or> j = k + s + 8) \<and>
    (\<forall>j < 2 ^ 31. next_x32 (release_marks b k s H (at b j)) = next_x32 (H (at b j)) \<or> j = k)"
proof -
  have lt: "k + s + 8 < 2 ^ 31" "k + s + 8 + span zs < 2 ^ 31" using assms(2) by (simp_all add: k_def)
  have "seg (release_marks b k s H) b 0 (ys @ [(s, False)] @ zs)"
    using assms(1) lt
    by (intro seg_replace [of H b ys "[(s, True)]" zs "[(s, False)]" "release_marks b k s H"])
      (auto simp: release_marks_def seg_append set_field_simps at_inj k_def add.assoc set_prev_fill_def set_next_fill_def)
  then show ?thesis
    using lt by (auto simp: release_marks_def prev_x32_def next_x32_def set_field_simps at_inj)
qed

text \<open>The two merges as the code makes them.\<close>

lemma merge_as_coded:
  assumes "seg H b 0 (ys @ (p, f) # (s, g) # zs)" "span (ys @ (p, f) # (s, g) # zs) < 2 ^ 31"
  defines "k \<equiv> span ys" and "v \<equiv> p + s + 8" and "n \<equiv> span ys + p + 8"
  defines "G \<equiv> set_next_size (at b k) (ucast (next_size (H (at b k))) + (ucast (next_size (H (at b n))) + SIZEOF_MARK)) H"
  shows "set_prev_size (at b (k + v + 8)) (ucast (next_size (G (at b k)))) G = merge_marks b k v H"
    "ucast (next_size (merge_marks b k v H (at b k))) = (of_nat v :: u32)"
proof -
  have lt: "p < 2 ^ 31" "s < 2 ^ 31" "v < 2 ^ 31" using assms(2) by (simp_all add: v_def)
  have "next_size (H (at b k)) = of_nat p" "next_size (H (at b n)) = of_nat s"
    using assms(1) by (simp_all add: seg_append k_def n_def add.assoc)
  then have "ucast (next_size (H (at b k))) + (ucast (next_size (H (at b n))) + SIZEOF_MARK) = (of_nat v :: u32)"
    using lt by (simp add: ucast_size v_def SIZEOF_MARK_def)
  then have G: "G = set_next_size (at b k) (of_nat v) H" by (simp add: G_def)
  have u: "ucast (ucast (of_nat v :: u32) :: 31 word) = (of_nat v :: u32)" using lt(3) by (simp add: ucast_down ucast_size)
  show "set_prev_size (at b (k + v + 8)) (ucast (next_size (G (at b k)))) G = merge_marks b k v H"
    by (simp add: G set_field_simps u merge_marks_def)
  show "ucast (next_size (merge_marks b k v H (at b k))) = (of_nat v :: u32)"
    by (simp add: merge_marks_def set_field_simps u)
qed

lemma stage_next:
  assumes "seg H b 0 (ys @ (s, False) # zs)" "span (ys @ (s, False) # zs) < 2 ^ 31" "\<not> next_x32 (H (at b (span (ys @ (s, False) # zs))))"
    and "\<forall>x \<in> set zs. snd x \<or> 0 < fst x"
  defines "k \<equiv> span ys" and "n \<equiv> at b (span ys + s + 8)"
  defines "K \<equiv> if next_x32 (H n) \<and> \<not> next_fill (H n) then let
         n2 = NEXT_BLOCK H n;
         H = set_next_size (at b k) (ucast (next_size (H (at b k))) + (ucast (next_size (H n)) + SIZEOF_MARK)) H
       in set_prev_size n2 (ucast (next_size (H (at b k)))) H
       else H"
  shows "K = (if fst (merge_next s zs) = s then H else merge_marks b k (fst (merge_next s zs)) H) \<and>
    ucast (next_size (K (at b k))) = (of_nat (fst (merge_next s zs)) :: u32)"
proof (cases zs)
  case Nil
  have "ucast (next_size (H (at b k))) = (of_nat s :: u32)"
    using assms(1,2) by (simp add: seg_append k_def ucast_size)
  then show ?thesis using Nil assms(3) by (simp add: K_def n_def add.assoc)
next
  case (Cons x zs')
  obtain t g where x: "x = (t, g)" by force
  have sg: "seg H b (k + s + 8) ((t, g) # zs')" "t < 2 ^ 31"
    using assms(1,2) Cons x by (simp_all add: seg_append k_def add.assoc)
  note m = mark_next [OF sg] mark_live [OF sg]
  have u: "ucast (next_size (H (at b k))) = (of_nat s :: u32)"
    using assms(1,2) by (simp add: seg_append k_def ucast_size)
  show ?thesis
  proof (cases g)
    case True
    then show ?thesis using m(2) Cons x u by (simp add: K_def n_def k_def)
  next
    case False
    have "next_x32 (H n)" using m(4) assms(4) Cons x False by (simp add: n_def k_def)
    moreover have "k + (s + t + 8) + 8 = k + s + 8 + t + 8" by simp
    ultimately show ?thesis
      using m(2,3) Cons x False merge_as_coded [of H b ys s False t g zs'] assms(1,2)
      by (simp add: K_def n_def k_def Let_def add.assoc add.commute add.left_commute)
  qed
qed

lemma merge_next_cases: "merge_next s zs = (if zs \<noteq> [] \<and> \<not> snd (hd zs) then (s + fst (hd zs) + 8, tl zs) else (s, zs))"
  by (cases "(s, zs)" rule: merge_next.cases) auto

lemma coalesced_parts:
  "coalesced (ys @ x # zs) \<longleftrightarrow> coalesced ys \<and> coalesced zs \<and> (snd x \<or> 0 < fst x) \<and>
    (snd x \<or> (ys = [] \<or> snd (last ys)) \<and> (zs = [] \<or> snd (hd zs)))"
  by (auto simp: coalesced_def successively_append_iff successively_Cons)

lemma coalesced_free_sub:
  assumes "coalesced (ys @ (s, True) # zs)" "0 < s"
  shows "coalesced (free_sub ys s zs)"
proof -
  have c: "coalesced ys" "coalesced zs" using assms(1) by (simp_all add: coalesced_parts)
  have p: "coalesced (fst (merge_prev ys s)) \<and> (fst (merge_prev ys s) = [] \<or> snd (last (fst (merge_prev ys s))))"
    using c(1) by (cases ys rule: rev_cases) (auto simp: coalesced_parts)
  have n: "coalesced (snd (merge_next t zs)) \<and> (snd (merge_next t zs) = [] \<or> snd (hd (snd (merge_next t zs))))" for t
    using c(2) coalesced_parts [of "[]"] by (cases zs) (auto simp: merge_next_cases)
  have "0 < fst (merge_next (snd (merge_prev ys s)) zs)"
    using assms(2) by (simp add: merge_next_cases)
  then show ?thesis
    using p n by (simp add: free_sub_def Let_def case_prod_unfold coalesced_parts del: merge_prev.simps)
qed

lemma span_merge_prev: "span (fst (merge_prev ys s)) + snd (merge_prev ys s) = span ys + s"
proof (cases ys rule: rev_cases)
  case (snoc ys' x)
  then show ?thesis by (cases x) simp
qed simp

lemma span_merge_next: "fst (merge_next t zs) + span (snd (merge_next t zs)) = t + span zs"
  by (cases "(t, zs)" rule: merge_next.cases) auto

lemma span_free_sub: "span (free_sub ys s zs) = span ys + s + 8 + span zs"
  using span_merge_prev [of ys s] span_merge_next [of "snd (merge_prev ys s)" zs]
  by (simp add: free_sub_def Let_def case_prod_unfold del: merge_prev.simps)

text \<open>A block with its two end marks, whether or not free neighbours are merged.\<close>

definition lay :: "marks \<Rightarrow> u32 \<Rightarrow> subs \<Rightarrow> bool" where
  "lay H b xs = (seg H b 0 xs \<and> \<not> prev_x32 (H (at b 0)) \<and> \<not> next_x32 (H (at b (span xs))) \<and> span xs < 2 ^ 31)"

lemma lay_release:
  assumes "lay H b (ys @ (s, True) # zs)"
  shows "lay (release_marks b (span ys) s H) b (ys @ (s, False) # zs)"
proof -
  have l: "seg H b 0 (ys @ (s, True) # zs)" "span (ys @ (s, True) # zs) < 2 ^ 31" "\<not> prev_x32 (H (at b 0))"
      "\<not> next_x32 (H (at b (span (ys @ (s, True) # zs))))"
    using assms by (simp_all add: lay_def)
  have lt: "(0::nat) < 2 ^ 31" "span ys + (s + 8 + span zs) \<noteq> span ys" "0 \<noteq> span ys + s + 8" by simp_all
  show ?thesis
    using seg_release [OF l(1,2)] l(2-4) lt unfolding lay_def by (metis span_simps(2,3))
qed

lemma lay_merge:
  assumes "lay H b (ys @ (p, False) # (s, False) # zs)"
  shows "lay (merge_marks b (span ys) (p + s + 8) H) b (ys @ (p + s + 8, False) # zs)"
proof -
  have l: "seg H b 0 (ys @ (p, False) # (s, False) # zs)" "span (ys @ (p, False) # (s, False) # zs) < 2 ^ 31" "\<not> prev_x32 (H (at b 0))"
      "\<not> next_x32 (H (at b (span (ys @ (p, False) # (s, False) # zs))))"
    using assms by (simp_all add: lay_def)
  have e: "span (ys @ (p, False) # (s, False) # zs) = span (ys @ (p + s + 8, False) # zs)" by simp
  have lt: "(0::nat) < 2 ^ 31" "span (ys @ (p + s + 8, False) # zs) \<noteq> span ys" "0 \<noteq> span ys + (p + s + 8) + 8" by simp_all
  show ?thesis
    using seg_merge [OF l(1,2)] l(2-4) lt unfolding lay_def e by metis
qed

lemma lay_merge_prev:
  assumes "lay H b (ys @ (s, False) # zs)"
  shows "lay (if snd (merge_prev ys s) = s then H else merge_marks b (span (fst (merge_prev ys s))) (snd (merge_prev ys s)) H) b
    (fst (merge_prev ys s) @ (snd (merge_prev ys s), False) # zs)"
proof (cases ys rule: rev_cases)
  case (snoc ys' x)
  then show ?thesis using assms lay_merge [of H b ys' "fst x" s zs] by (cases x) auto
qed (use assms in simp)

lemma lay_merge_next:
  assumes "lay H b (ys @ (s, False) # zs)"
  shows "lay (if fst (merge_next s zs) = s then H else merge_marks b (span ys) (fst (merge_next s zs)) H) b
    (ys @ (fst (merge_next s zs), False) # snd (merge_next s zs))"
  using assms lay_merge [of H b ys s "fst (hd zs)" "tl zs"]
  by (cases "(s, zs)" rule: merge_next.cases) auto

lemma stage_prev:
  assumes "seg H b 0 (ys @ (s, False) # zs)" "span (ys @ (s, False) # zs) < 2 ^ 31" "\<forall>x \<in> set ys. snd x \<or> 0 < fst x"
    and "k = span ys" "n = at b (k + s + 8)" "m = (if b \<noteq> at b k then PREV_BLOCK H (at b k) else b)"
  shows "(if m \<noteq> at b k \<and> prev_x32 (H (at b k)) \<and> \<not> prev_fill (H (at b k)) then let
         H = set_next_size m (ucast (next_size (H m)) + (ucast (next_size (H (at b k))) + SIZEOF_MARK)) H;
         H = set_prev_size n (ucast (next_size (H m))) H
       in (m, H)
       else (at b k, H)) = (at b (span (fst (merge_prev ys s))),
         if snd (merge_prev ys s) = s then H else merge_marks b (span (fst (merge_prev ys s))) (snd (merge_prev ys s)) H)"
proof (cases ys rule: rev_cases)
  case Nil
  then show ?thesis using assms(4,6) by (simp add: at_def)
next
  case (snoc ys' x)
  obtain p g where x: "x = (p, g)" by force
  have p: "prev_size (H (at b k)) = of_nat p" "prev_fill (H (at b k)) = g" "p < 2 ^ 31" "k = span ys' + p + 8"
    using assms(1,2,4) snoc x by (simp_all add: seg_append add.assoc)
  have kb: "at b k \<noteq> b" using at_inj [of k 0 b] p(4) assms(2,4) by (simp add: at_def)
  have m: "m = at b (span ys')" using p kb assms(6) by (simp add: PREV_BLOCK_def ucast_size at_prev)
  have mk: "m \<noteq> at b k" using at_inj [of "span ys'" k b] p(4) assms(2,4) unfolding m by simp
  have x32: "prev_x32 (H (at b k))"
  proof -
    have "(of_nat p :: 31 word) \<noteq> 0 \<or> g"
      using assms(3) snoc x p(3) by (auto simp: word_eq_iff_unsigned [where ?'a = nat] unsigned_of_nat take_bit_nat_eq_self)
    then show ?thesis using p by (simp add: prev_x32_def)
  qed
  show ?thesis
  proof (cases g)
    case True
    then show ?thesis using p(2) snoc x assms(4) by simp
  next
    case False
    have "n = at b (span ys' + (p + s + 8) + 8)" using assms(5) p(4) by (simp add: ac_simps)
    then show ?thesis
      using False mk x32 p(2,4) snoc x m merge_as_coded(1) [of H b ys' p False s False zs] assms(1,2)
      by (simp add: Let_def add.assoc)
  qed
qed

lemma merge_outside: "k + v + 8 \<le> n \<Longrightarrow> outside_kept b n H (merge_marks b k v H)"
  by (simp add: outside_kept_def merge_marks_def set_next_size_def set_prev_size_def)

lemma release_outside: "k + s + 8 \<le> n \<Longrightarrow> outside_kept b n H (release_marks b k s H)"
  by (simp add: outside_kept_def release_marks_def set_next_fill_def set_prev_fill_def)

lemma freeBlock_eq:
  assumes "lay H b (ys @ (s, True) # zs)" "\<forall>x \<in> set ys. snd x \<or> 0 < fst x" "\<forall>x \<in> set zs. snd x \<or> 0 < fst x"
  shows "\<exists>H'. freeBlock H b (at b (span ys)) p = (of_nat (fst (merge_next (snd (merge_prev ys s)) zs)), H',
      map_option (\<lambda>p. min (at b (span (fst (merge_prev ys s)))) p) p) \<and> lay H' b (free_sub ys s zs) \<and>
      outside_kept b (span (ys @ (s, True) # zs)) H H'"
proof -
  define k ys' s' where "k = span ys" and "ys' = fst (merge_prev ys s)" and "s' = snd (merge_prev ys s)"
  define F where "F = release_marks b k s H"
  define J where "J = (if s' = s then F else merge_marks b (span ys') s' F)"
  define m where "m = (if b \<noteq> at b k then PREV_BLOCK H (at b k) else b)"
  have lF: "lay F b (ys @ (s, False) # zs)" using lay_release [OF assms(1)] by (simp add: F_def k_def)
  then have segF: "seg F b 0 (ys @ (s, False) # zs)" "span (ys @ (s, False) # zs) < 2 ^ 31" by (simp_all add: lay_def)
  have lJ: "lay J b (ys' @ (s', False) # zs)" using lay_merge_prev [OF lF] by (simp only: J_def ys'_def s'_def)
  then have segJ: "seg J b 0 (ys' @ (s', False) # zs)" "span (ys' @ (s', False) # zs) < 2 ^ 31"
      "\<not> next_x32 (J (at b (span (ys' @ (s', False) # zs))))" by (simp_all add: lay_def)
  have "ucast (next_size (H (at b k))) = (of_nat s :: u32)"
    using assms(1) by (simp add: lay_def seg_append k_def ucast_size)
  then have n: "NEXT_BLOCK H (at b k) = at b (k + s + 8)" by (simp add: NEXT_BLOCK_def at_next)
  have m': "m = (if b \<noteq> at b k then PREV_BLOCK F (at b k) else b)"
    by (simp add: m_def PREV_BLOCK_def F_def release_marks_def set_field_simps)
  have n': "span ys' + s' + 8 = k + s + 8" using span_merge_prev [of ys s] by (simp add: ys'_def s'_def k_def)
  note P = stage_prev [OF segF assms(2) k_def refl m', folded ys'_def s'_def, folded J_def]
  note N = stage_next [OF segJ assms(3), unfolded n']
  define K where "K = (if fst (merge_next s' zs) = s' then J else merge_marks b (span ys') (fst (merge_next s' zs)) J)"
  have "freeBlock H b (at b k) p = (ucast (next_size (K (at b (span ys')))), K,
      case p of None \<Rightarrow> None | Some p \<Rightarrow> Some (if at b (span ys') < p then at b (span ys') else p))"
    using N unfolding freeBlock_def Let_def n m_def [symmetric] F_def [unfolded release_marks_def, symmetric]
      P [unfolded Let_def] prod.case K_def [symmetric] by simp
  moreover have "lay K b (free_sub ys s zs)"
    using lay_merge_next [OF lJ] unfolding K_def [symmetric]
    by (simp add: free_sub_def Let_def case_prod_unfold flip: ys'_def s'_def del: merge_prev.simps)
  moreover have "ucast (next_size (K (at b (span ys')))) = (of_nat (fst (merge_next s' zs)) :: u32)"
    using N [THEN conjunct2, unfolded N [THEN conjunct1], folded K_def] .
  moreover have "outside_kept b (span (ys @ (s, True) # zs)) H K"
  proof -
    have "outside_kept b (span (ys @ (s, True) # zs)) H F" unfolding F_def by (rule release_outside) (simp add: k_def)
    moreover have "outside_kept b (span (ys @ (s, True) # zs)) F J"
      unfolding J_def using n' by (auto intro!: merge_outside simp: k_def)
    moreover have "outside_kept b (span (ys @ (s, True) # zs)) J K"
      unfolding K_def using n' span_merge_next [of s' zs] by (auto intro!: merge_outside simp: k_def)
    ultimately show ?thesis by (meson outside_kept_trans)
  qed
  ultimately show ?thesis
    by (auto simp: k_def ys'_def s'_def min_def split: option.split)
qed

text \<open>Addresses in a block are ordered like the offsets, since the block does not wrap.\<close>

lemma at_min: "unat b + i < 2 ^ 32 \<Longrightarrow> unat b + j < 2 ^ 32 \<Longrightarrow> min (at b i) (at b j) = at b (min i j)"
  by (auto simp: min_def at_def word_le_nat_alt unat_word_ariths(1) unsigned_of_nat take_bit_eq_mod mod_add_right_eq)

lemma takeWhile_all: "(\<forall>x \<in> set xs. snd x) \<Longrightarrow> takeWhile snd (xs @ ys) = xs @ takeWhile snd ys"
  by simp

lemma takeWhile_some: "\<not> (\<forall>x \<in> set xs. snd x) \<Longrightarrow> takeWhile snd (xs @ ys) = takeWhile snd xs"
  by auto

lemma span_takeWhile: "span (takeWhile f xs) \<le> span xs"
  by (metis le_add1 span_simps(3) takeWhile_dropWhile_id)

lemma first_free_sub:
  "span (takeWhile snd (free_sub ys s zs)) = min (span (fst (merge_prev ys s))) (span (takeWhile snd (ys @ (s, True) # zs)))"
proof -
  define vs where "vs = fst (merge_prev ys s)"
  have f: "free_sub ys s zs = vs @ (fst (merge_next (snd (merge_prev ys s)) zs), False) # snd (merge_next (snd (merge_prev ys s)) zs)"
    by (simp add: free_sub_def Let_def case_prod_unfold vs_def del: merge_prev.simps)
  have "\<exists>us. ys = vs @ us" by (cases ys rule: rev_cases) (auto simp: vs_def)
  then obtain us where us: "ys = vs @ us" ..
  show ?thesis
  proof (cases "\<forall>x \<in> set vs. snd x")
    case True
    have "takeWhile snd (ys @ (s, True) # zs) = vs @ takeWhile snd (us @ (s, True) # zs)"
      unfolding us append_assoc by (rule takeWhile_all [OF True])
    then show ?thesis
      using True unfolding vs_def [symmetric] f by simp
  next
    case False
    have "takeWhile snd (ys @ (s, True) # zs) = takeWhile snd vs"
      unfolding us append_assoc by (rule takeWhile_some [OF False])
    then show ?thesis
      using takeWhile_some [OF False] span_takeWhile [of snd vs] unfolding vs_def [symmetric] f by simp
  qed
qed

text \<open>
  On a block of sub-blocks \<open>xs\<close>, freeing a used sub-block merges it with a free one before it and a free one after
  it, leaves the marks of a well-formed block of the same length in which no two free sub-blocks are
  neighbours, returns the size of the merged sub-block, and keeps a hint at the first free sub-block right.
\<close>

lemma freeBlock_refines:
  assumes "layout H b (ys @ (s, True) # zs)" "0 < s" "p = Some (at b (span (takeWhile snd (ys @ (s, True) # zs)))) \<or> p = None"
  defines "xs' \<equiv> free_sub ys s zs"
  shows "\<exists>H'. freeBlock H b (at b (span ys)) p = (of_nat (fst (merge_next (snd (merge_prev ys s)) zs)), H',
      map_option (\<lambda>_. at b (span (takeWhile snd xs'))) p) \<and> layout H' b xs' \<and> span xs' = span (ys @ (s, True) # zs) \<and>
      outside_kept b (span xs') H H'"
proof -
  have l: "lay H b (ys @ (s, True) # zs)" "unat b + span (ys @ (s, True) # zs) + 8 \<le> 2 ^ 32" "b \<noteq> 0" "coalesced (ys @ (s, True) # zs)"
    using assms(1) by (simp_all add: layout_def lay_def at_def)
  then have "\<forall>x \<in> set ys. snd x \<or> 0 < fst x" "\<forall>x \<in> set zs. snd x \<or> 0 < fst x" by (auto simp: coalesced_def)
  from freeBlock_eq [OF l(1) this, of p] obtain H' where
    H': "freeBlock H b (at b (span ys)) p = (of_nat (fst (merge_next (snd (merge_prev ys s)) zs)), H',
      map_option (\<lambda>p. min (at b (span (fst (merge_prev ys s)))) p) p)" "lay H' b xs'" "outside_kept b (span (ys @ (s, True) # zs)) H H'"
    unfolding xs'_def by blast
  have sp: "span xs' = span (ys @ (s, True) # zs)" by (simp add: xs'_def span_free_sub)
  have "span (fst (merge_prev ys s)) \<le> span (ys @ (s, True) # zs)"
    by (cases ys rule: rev_cases) auto
  then have "min (at b (span (fst (merge_prev ys s)))) (at b (span (takeWhile snd (ys @ (s, True) # zs)))) =
      at b (span (takeWhile snd xs'))"
    unfolding xs'_def first_free_sub using l(2) span_takeWhile [of snd "ys @ (s, True) # zs"]
    by (intro at_min) linarith+
  moreover have "layout H' b xs'"
    using H'(2) l(2,3) coalesced_free_sub [OF l(4) assms(2)] sp by (simp add: layout_def lay_def at_def flip: xs'_def)
  ultimately show ?thesis using H'(1,3) assms(3) sp by (auto simp del: merge_prev.simps)
qed

end
