(* ===== verification/CustomHeap.thy ===== *)
theory CustomHeap
  imports CustomMemSpec
begin

unbundle bit_operations_syntax

text \<open>
  The allocator as its callers see it. The contract is over the set of allocated areas, each a block, an
  offset and a size: \<open>customMalloc\<close> adds an area that was not there, \<open>customFree\<close> removes the one it is
  given, \<open>customRealloc\<close> moves one with its contents. The invariant \<open>heap_ok\<close> relates that set to the marks
  and to what the list of blocks caches of them: the first free sub-block and the largest free size.
\<close>

section \<open>Allocated areas\<close>

primrec used_from :: "nat \<Rightarrow> subs \<Rightarrow> (nat \<times> nat) set" where
  "used_from k [] = {}"
| "used_from k (x # xs) = (if snd x then {(k, fst x)} else {}) \<union> used_from (k + fst x + 8) xs"

lemma used_from_append: "used_from k (xs @ ys) = used_from k xs \<union> used_from (k + span xs) ys"
proof (induction xs arbitrary: k)
  case (Cons x xs)
  then show ?case by (cases x) (simp add: add.assoc add.left_commute Un_assoc)
qed simp

lemma used_from_bounds: "(j, s) \<in> used_from k xs \<Longrightarrow> k \<le> j \<and> j + s + 8 \<le> k + span xs"
proof (induction xs arbitrary: k)
  case (Cons x xs)
  then show ?case by (cases x) (fastforce split: if_splits)
qed simp

lemma used_from_split:
  assumes "(j, s) \<in> used_from k xs"
  obtains ys zs where "xs = ys @ (s, True) # zs" "j = k + span ys"
  using assms
proof (induction xs arbitrary: k thesis)
  case (Cons x xs)
  obtain t f where x: "x = (t, f)" by force
  show ?case
  proof (cases "f \<and> j = k \<and> s = t")
    case True
    then show ?thesis using Cons.prems(1) [of "[]" xs] x by simp
  next
    case False
    then have "(j, s) \<in> used_from (k + t + 8) xs" using Cons.prems(2) x by (auto split: if_splits)
    from Cons.IH [OF _ this] obtain ys zs where "xs = ys @ (s, True) # zs" "j = k + t + 8 + span ys" .
    then show ?thesis using Cons.prems(1) [of "x # ys" zs] x by simp
  qed
qed simp

text \<open>The allocated areas of a heap: index of the block, offset of the mark, size.\<close>

definition allocs :: "subs list \<Rightarrow> (nat \<times> nat \<times> nat) set" where
  "allocs xss = {(i, k, s). i < length xss \<and> (k, s) \<in> used_from 0 (xss ! i)}"

lemma allocs_update:
  assumes "i < length xss"
  shows "allocs (xss[i := xs]) = {(j, x) \<in> allocs xss. j \<noteq> i} \<union> Pair i ` used_from 0 xs"
  using assms by (auto simp: allocs_def nth_list_update split: if_splits)

lemma allocs_snoc: "allocs (xss @ [xs]) = allocs xss \<union> Pair (length xss) ` used_from 0 xs"
  by (auto simp: allocs_def nth_append less_Suc_eq split: if_splits)

lemma used_take:
  assumes "sz \<le> s"
  shows "used_from 0 (ys @ take_sub sz s @ zs) = insert (span ys, if sz + 128 < s then sz else s) (used_from 0 (ys @ (s, False) # zs))"
    and "(span ys, t) \<notin> used_from 0 (ys @ (s, False) # zs)"
proof -
  show "used_from 0 (ys @ take_sub sz s @ zs) = insert (span ys, if sz + 128 < s then sz else s) (used_from 0 (ys @ (s, False) # zs))"
    using assms by (auto simp: used_from_append take_sub_def span_take_sub ac_simps)
  show "(span ys, t) \<notin> used_from 0 (ys @ (s, False) # zs)"
    using used_from_bounds [of "span ys" t 0 ys] used_from_bounds [of "span ys" t "span ys + s + 8" zs]
    by (auto simp: used_from_append)
qed

lemma used_free:
  shows "used_from 0 (free_sub ys s zs) = used_from 0 (ys @ (s, True) # zs) - {(span ys, s)}"
proof -
  define ys' s' where "ys' = fst (merge_prev ys s)" and "s' = snd (merge_prev ys s)"
  have p: "used_from 0 ys' = used_from 0 ys" unfolding ys'_def
    by (cases ys rule: rev_cases) (auto simp: used_from_append)
  have n: "used_from (k + fst (merge_next t zs)) (snd (merge_next t zs)) = used_from (k + t) zs" for k t
    by (cases "(t, zs)" rule: merge_next.cases) (auto simp: ac_simps)
  have e: "span ys' + s' = span ys + s" unfolding ys'_def s'_def by (rule span_merge_prev)
  have e': "s' + (span ys' + 8) = s + (span ys + 8)" using e by simp
  have f: "free_sub ys s zs = ys' @ (fst (merge_next s' zs), False) # snd (merge_next s' zs)"
    by (simp add: free_sub_def Let_def case_prod_unfold ys'_def s'_def del: merge_prev.simps)
  have "used_from 0 (free_sub ys s zs) = used_from 0 ys \<union> used_from (span ys + s + 8) zs"
    using n [of "span ys' + 8" s'] p e' unfolding f by (simp add: used_from_append ac_simps)
  moreover have "(span ys, s) \<notin> used_from 0 ys" "(span ys, s) \<notin> used_from (span ys + s + 8) zs"
    using used_from_bounds [of "span ys" s 0 ys] used_from_bounds [of "span ys" s "span ys + s + 8" zs] by auto
  ultimately show ?thesis by (auto simp: used_from_append)
qed

section \<open>The largest free size\<close>

lemma max_free_Max: "max_free xs = (let m = Max (insert 0 (fst ` {x \<in> set xs. \<not> snd x})) in if 8 \<le> m then m else 0)"
proof -
  have "fold max (map fst (filter (\<lambda>x. \<not> snd x) xs)) 0 = Max (insert 0 (fst ` {x \<in> set xs. \<not> snd x}))"
    using Max.set_eq_fold [of "0::nat" "map fst (filter (\<lambda>x. \<not> snd x) xs)"] by (simp add: image_def) 
  then show ?thesis by (simp only: max_free_def)
qed

lemma max_free_eq:
  assumes "\<forall>x \<in> set xs. 112 \<le> fst x"
  shows "max_free xs = m \<longleftrightarrow> (m = 0 \<or> (m, False) \<in> set xs) \<and> (\<forall>s. (s, False) \<in> set xs \<longrightarrow> s \<le> m)"
proof -
  define M where "M = Max (insert 0 (fst ` {x \<in> set xs. \<not> snd x}))"
  have fin: "finite (insert 0 (fst ` {x \<in> set xs. \<not> snd x}))" by simp
  have M: "M = 0 \<or> (M, False) \<in> set xs" using Max_in [OF fin] by (auto simp: M_def)
  have le: "s \<le> M" if "(s, False) \<in> set xs" for s
    unfolding M_def using that by (intro Max_ge [OF fin]) force
  have "max_free xs = M" using M assms by (fastforce simp: max_free_Max Let_def M_def)
  then show ?thesis using M le by (auto intro: le_antisym)
qed

lemma getMaxFreeBlock_max:
  assumes "layout H b xs"
  shows "getMaxFreeBlock H b n (at b (span (takeWhile snd xs))) = Some (of_nat (max_free xs))"
proof -
  define k where "k = span (takeWhile snd xs)"
  have l: "seg H b 0 xs" "\<not> next_x32 (H (at b (span xs)))" "span xs < 2 ^ 31" "unat b + span xs + 8 \<le> 2 ^ 32" "b \<noteq> 0" "coalesced xs"
    using assms by (simp_all add: layout_def)
  have sp: "k + span (dropWhile snd xs) = span xs" by (metis k_def span_simps(3) takeWhile_dropWhile_id)
  have sd: "seg H b k (dropWhile snd xs)" using l(1) seg_append [of H b 0 "takeWhile snd xs" "dropWhile snd xs"] by (simp add: k_def)
  have pos: "\<forall>x \<in> set (dropWhile snd xs). snd x \<or> 0 < fst x" using l(6) set_dropWhileD by (fastforce simp: coalesced_def)
  have f: "filter (\<lambda>x. \<not> snd x) (dropWhile snd xs) = filter (\<lambda>x. \<not> snd x) xs" by (induction xs) auto
  define m where "m = fold max (map fst (filter (\<lambda>x. \<not> snd x) xs)) 0"
  have m31: "m < 2 ^ 31"
  proof -
    have "m = Max (insert 0 (fst ` {x \<in> set xs. \<not> snd x}))"
      using Max.set_eq_fold [of "0::nat" "map fst (filter (\<lambda>x. \<not> snd x) xs)"] by (simp add: image_def m_def)
    moreover have "fst x \<le> span xs" if "x \<in> set xs" for x
      using that by (induction xs) (auto simp: span_def)
    ultimately have "m \<le> span xs" by (simp add: image_iff)
    then show ?thesis using l(3) by simp
  qed
  have nz: "at b k \<noteq> 0"
  proof
    assume "at b k = 0"
    then have "unat (b + of_nat k) = 0" by (simp add: at_def)
    moreover have "unat (b + of_nat k) = unat b + k"
      using l(4) sp by (simp add: unat_word_ariths(1) unsigned_of_nat take_bit_eq_mod)
    ultimately show False using l(5) by (simp add: unat_eq_zero)
  qed
  have "max_free_from H (of_nat 0) (at b k) = Some (large_enough (of_nat m))"
    using max_free_from_fold [OF sd, of 0] l(2,3) sp pos by (simp add: f m_def)
  moreover have "large_enough (of_nat m) = of_nat (if 8 \<le> m then m else 0)"
    using m31 by (simp add: large_enough_def SIZEOF_MARK_def word_le_nat_alt unsigned_of_nat take_bit_nat_eq_self)
  ultimately show ?thesis
    using nz by (simp add: getMaxFreeBlock_def max_free_def m_def flip: k_def)
qed

section \<open>The invariant\<close>

definition block_ok :: "marks \<Rightarrow> blocklist \<Rightarrow> subs \<Rightarrow> bool" where
  "block_ok H B xs = (layout H (block B) xs \<and> unat (block B) + span xs + 8 < 2 ^ 32 \<and> (\<forall>x \<in> set xs. 112 \<le> fst x) \<and> block_size B = of_nat (span xs + 8) \<and>
     first_free B = at (block B) (span (takeWhile snd xs)) \<and> maxfree B = of_nat (max_free xs))"

definition apart :: "u32 \<Rightarrow> nat \<Rightarrow> u32 \<Rightarrow> nat \<Rightarrow> bool" where
  "apart b m c n = (unat b + m \<le> unat c \<or> unat c + n \<le> unat b)"

definition heap_ok :: "subs list \<Rightarrow> cheap \<Rightarrow> bool" where
  "heap_ok xss S = (list_all2 (block_ok (marks S)) (p_blocks S) xss \<and>
     (\<forall>i < length xss. \<forall>j < length xss. i \<noteq> j \<longrightarrow>
       apart (block (p_blocks S ! i)) (span (xss ! i) + 8) (block (p_blocks S ! j)) (span (xss ! j) + 8)))"

lemma unat_at: "unat b + k < 2 ^ 32 \<Longrightarrow> unat (at b k) = unat b + k"
  by (simp add: at_def unat_word_ariths(1) unsigned_of_nat take_bit_eq_mod mod_add_right_eq)

lemma layout_cong: "(\<And>j. j \<le> span xs \<Longrightarrow> H' (at b j) = H (at b j)) \<Longrightarrow> layout H' b xs = layout H b xs"
proof -
  assume h: "\<And>j. j \<le> span xs \<Longrightarrow> H' (at b j) = H (at b j)"
  from h [of 0] have "H' b = H b" by (simp add: at_def)
  then show ?thesis using seg_cong [of 0 xs H' b H] h by (simp add: layout_def)
qed

lemma outside_other:
  assumes "outside_kept b m H H'" "apart b (m + 8) c (n + 8)" "unat b + m + 8 \<le> 2 ^ 32" "unat c + n + 8 \<le> 2 ^ 32" "j \<le> n"
  shows "H' (at c j) = H (at c j)"
proof -
  have "at c j \<noteq> at b i" if "i < m + 8" for i
  proof
    assume "at c j = at b i"
    then have "unat c + j = unat b + i" using unat_at [of c j] unat_at [of b i] assms(3-5) that by simp
    then show False using assms(2,5) that by (auto simp: apart_def)
  qed
  then show ?thesis using assms(1) by (simp add: outside_kept_def)
qed

lemma block_ok_other:
  assumes "block_ok H C ys" "outside_kept b m H H'" "apart b (m + 8) (block C) (span ys + 8)" "unat b + m + 8 \<le> 2 ^ 32"
  shows "block_ok H' C ys"
proof -
  have "unat (block C) + span ys + 8 \<le> 2 ^ 32" using assms(1) by (simp add: block_ok_def layout_def)
  from outside_other [OF assms(2-4) this] show ?thesis
    using assms(1) layout_cong [of ys H' "block C" H] by (simp add: block_ok_def)
qed

lemma heap_ok_length: "heap_ok xss S \<Longrightarrow> length (p_blocks S) = length xss"
  unfolding heap_ok_def by (blast dest: list_all2_lengthD)

lemma heap_ok_nth: "heap_ok xss S \<Longrightarrow> i < length xss \<Longrightarrow> block_ok (marks S) (p_blocks S ! i) (xss ! i)"
  by (auto simp: heap_ok_def list_all2_conv_all_nth)

lemma block_ok_range: "block_ok H B xs \<Longrightarrow> unat (block B) + span xs + 8 \<le> 2 ^ 32"
  by (simp add: block_ok_def layout_def)

text \<open>Changing one block to another of the same place and length.\<close>

lemma heap_ok_update:
  assumes "heap_ok xss S" "i < length xss" "block_ok H B xs" "block B = block (p_blocks S ! i)" "span xs = span (xss ! i)"
    and "outside_kept (block B) (span xs) (marks S) H"
  shows "heap_ok (xss[i := xs]) (S\<lparr>p_blocks := (p_blocks S)[i := B], marks := H\<rparr>)"
proof -
  have len: "length (p_blocks S) = length xss" using heap_ok_length [OF assms(1)] .
  have "block_ok H (p_blocks S ! j) (xss ! j)" if "j < length xss" "j \<noteq> i" for j
  proof -
    have "apart (block B) (span xs + 8) (block (p_blocks S ! j)) (span (xss ! j) + 8)"
      using assms(1,2,4,5) that by (auto simp: heap_ok_def)
    then show ?thesis
      using block_ok_other [OF heap_ok_nth [OF assms(1) that(1)] assms(6)] block_ok_range [OF assms(3)] by simp
  qed
  moreover have "block ((p_blocks S)[i := B] ! j) = block (p_blocks S ! j)" for j
    using assms(2,4) len by (cases "j = i") simp_all
  moreover have "span (xss[i := xs] ! j) = span (xss ! j)" for j
    using assms(2,5) by (cases "j = i") simp_all
  ultimately show ?thesis
    using assms(1-3) len by (auto simp: heap_ok_def list_all2_conv_all_nth nth_list_update)
qed

lemma heap_ok_snoc:
  assumes "heap_ok xss S" "block_ok H B xs" "outside_kept (block B) (span xs) (marks S) H"
    and "\<forall>i < length xss. apart (block B) (span xs + 8) (block (p_blocks S ! i)) (span (xss ! i) + 8)"
  shows "heap_ok (xss @ [xs]) \<lparr>p_blocks = p_blocks S @ [B], marks = H, bytes = M\<rparr>"
proof -
  have len: "length (p_blocks S) = length xss" using heap_ok_length [OF assms(1)] .
  have "block_ok H (p_blocks S ! j) (xss ! j)" if "j < length xss" for j
    using block_ok_other [OF heap_ok_nth [OF assms(1) that] assms(3)] block_ok_range [OF assms(2)] assms(4) that by simp
  moreover have "apart b m c n = apart c n b m" for b m c n by (auto simp: apart_def)
  ultimately show ?thesis
    using assms(1,2,4) len by (auto simp: heap_ok_def list_all2_conv_all_nth nth_append less_Suc_eq)
qed

section \<open>Finding room\<close>

lemma first_fit_split:
  assumes "first_fit mx k xs = Some (j, s)"
  obtains ys zs where "xs = ys @ (s, False) # zs" "j = k + span ys" "mx \<le> s"
  using assms
proof (induction xs arbitrary: k thesis)
  case (Cons x xs)
  obtain t f where x: "x = (t, f)" by force
  show ?case
  proof (cases "\<not> f \<and> mx \<le> t")
    case True
    then show ?thesis using Cons.prems(1) [of "[]" xs] Cons.prems(2) x by simp
  next
    case False
    then have "first_fit mx (k + t + 8) xs = Some (j, s)" using Cons.prems(2) x by (auto split: if_splits)
    from Cons.IH [OF _ this] obtain ys zs where "xs = ys @ (s, False) # zs" "j = k + t + 8 + span ys" "mx \<le> s" .
    then show ?thesis using Cons.prems(1) [of "x # ys" zs] x by simp
  qed
qed simp

lemma first_fit_None: "first_fit mx k xs = None \<longleftrightarrow> (\<forall>s. (s, False) \<in> set xs \<longrightarrow> s < mx)"
  by (induction xs arbitrary: k) (auto simp: not_le split: if_splits)

lemma first_fit_skip: "first_fit mx k xs = first_fit mx (k + span (takeWhile snd xs)) (dropWhile snd xs)"
  by (induction xs arbitrary: k) (auto simp: add.assoc)

lemma getFirstBlock_fit:
  assumes "layout H b xs" "mx < 2 ^ 31"
  shows "getFirstBlock H b (of_nat mx) (at b (span (takeWhile snd xs))) =
    Some (map_option (\<lambda>(k, s). (at b k, of_nat s)) (first_fit mx 0 xs))"
proof -
  define k where "k = span (takeWhile snd xs)"
  have l: "seg H b 0 xs" "\<not> next_x32 (H (at b (span xs)))" "span xs < 2 ^ 31" "unat b + span xs + 8 \<le> 2 ^ 32" "b \<noteq> 0" "coalesced xs"
    using assms(1) by (simp_all add: layout_def)
  have sp: "k + span (dropWhile snd xs) = span xs" by (metis k_def span_simps(3) takeWhile_dropWhile_id)
  have sd: "seg H b k (dropWhile snd xs)" using l(1) seg_append [of H b 0 "takeWhile snd xs" "dropWhile snd xs"] by (simp add: k_def)
  have pos: "\<forall>x \<in> set (dropWhile snd xs). snd x \<or> 0 < fst x" using l(6) set_dropWhileD by (fastforce simp: coalesced_def)
  have "unat (at b k) = unat b + k" using l(4) sp by (intro unat_at) simp
  then have "at b k \<noteq> 0" using l(5) unat_eq_zero by force
  then show ?thesis
    using first_block_from_fit [OF sd, of mx] l(2,3) sp pos assms(2) first_fit_skip [of mx 0 xs]
    by (simp add: getFirstBlock_def k_def)
qed

lemma find_fit_finds:
  assumes "list_all2 (block_ok H) Bs xss" "0 < sz" "sz < 2 ^ 31"
  shows "find_fit H (of_nat sz) i Bs = Some None \<and> (\<forall>xs \<in> set xss. first_fit sz 0 xs = None) \<or>
    (\<exists>n < length xss. \<exists>k s. first_fit sz 0 (xss ! n) = Some (k, s) \<and>
      find_fit H (of_nat sz) i Bs = Some (Some (i + n, at (block (Bs ! n)) k, of_nat s)))"
  using assms(1)
proof (induction arbitrary: i rule: list_all2_induct)
  case (Cons B Bs xs xss)
  have b: "layout H (block B) xs" "\<forall>x \<in> set xs. 112 \<le> fst x" "first_free B = at (block B) (span (takeWhile snd xs))"
    "maxfree B = of_nat (max_free xs)" "span xs < 2 ^ 31"
    using Cons.hyps(1) by (simp_all add: block_ok_def layout_def)
  have mx: "max_free xs = 0 \<or> (max_free xs, False) \<in> set xs" "\<And>s. (s, False) \<in> set xs \<Longrightarrow> s \<le> max_free xs"
    using max_free_eq [OF b(2), of "max_free xs"] by auto
  have "s \<le> span xs" if "(s, f) \<in> set xs" for s f using that by (induction xs) auto
  then have "max_free xs < 2 ^ 31" using mx(1) b(5) by fastforce
  then have c: "of_nat sz \<le> maxfree B \<longleftrightarrow> sz \<le> max_free xs"
    using assms(3) by (simp add: b(4) of_nat_le_u32)
  have g: "getFirstBlock H (block B) (of_nat sz) (first_free B) = Some (map_option (\<lambda>(k, s). (at (block B) k, of_nat s)) (first_fit sz 0 xs))"
    using getFirstBlock_fit [OF b(1) assms(3)] by (simp add: b(3))
  show ?case
  proof (cases "first_fit sz 0 xs")
    case None
    have "find_fit H (of_nat sz) i (B # Bs) = find_fit H (of_nat sz) (Suc i) Bs" using g None by simp
    then show ?thesis
      using Cons.IH [of "Suc i"] None by (auto simp: less_Suc_eq_0_disj simp del: find_fit.simps)
  next
    case (Some x)
    obtain k s where x: "x = (k, s)" by force
    have "sz \<le> max_free xs" using Some x mx(2) by (auto elim!: first_fit_split intro: order_trans)
    then have "find_fit H (of_nat sz) i (B # Bs) = Some (Some (i + 0, at (block ((B # Bs) ! 0)) k, of_nat s))"
      using g Some x c by simp
    then show ?thesis using Some x by (intro disjI2 exI [of _ 0]) auto
  qed
qed simp

section \<open>Rounding\<close>

lemma and_not_mask_diff: "(w :: 'a::len word) AND NOT (mask n) = w - take_bit n w"
proof -
  have "NOT w AND take_bit n w = 0" by (rule bit_word_eqI) (auto simp: bit_simps)
  then have "w - take_bit n w = w AND NOT (take_bit n w)" by (rule disjunctive_diff_eq_and_not)
  also have "\<dots> = w AND NOT (mask n)" by (rule bit_word_eqI) (auto simp: bit_simps)
  finally show ?thesis by simp
qed

lemma align_down_nat: "m < 2 ^ 32 \<Longrightarrow> (of_nat m :: u32) AND NOT 7 = of_nat (m div 8 * 8)"
proof -
  assume m: "m < 2 ^ 32"
  have "(of_nat m :: u32) AND NOT 7 = of_nat m - take_bit 3 (of_nat m)"
    using and_not_mask_diff [of "of_nat m :: u32" 3] by (simp add: mask_eq_exp_minus_1)
  also have "take_bit 3 (of_nat m :: u32) = of_nat (m mod 8)"
    by (simp only: take_bit_of_nat) (simp add: take_bit_eq_mod)
  also have "(of_nat m :: u32) - of_nat (m mod 8) = of_nat (m - m mod 8)" by (simp add: of_nat_diff)
  also have "m - m mod 8 = m div 8 * 8" by (rule minus_mod_eq_div_mult)
  finally show ?thesis .
qed

definition rounded :: "nat \<Rightarrow> nat" where
  "rounded sz = max 112 ((sz + 7) div 8 * 8)"

lemma roundSize_rounded: "0 < sz \<Longrightarrow> sz \<le> 2 ^ 30 \<Longrightarrow> roundSize (of_nat sz) = of_nat (rounded sz)"
proof -
  assume sz: "0 < sz" "sz \<le> 2 ^ 30"
  have nz: "(of_nat sz :: u32) \<noteq> 0"
    using sz by (simp add: word_eq_iff_unsigned [where ?'a = nat] unsigned_of_nat take_bit_nat_eq_self)
  have r: "((of_nat sz :: u32) + 7) AND NOT 7 = of_nat ((sz + 7) div 8 * 8)"
    using align_down_nat [of "sz + 7"] sz by (simp add: add.commute)
  have "(sz + 7) div 8 * 8 \<le> sz + 7" by simp
  then have lt: "(sz + 7) div 8 * 8 < 2 ^ 32" using sz by simp
  have "(of_nat ((sz + 7) div 8 * 8) :: u32) < of_nat 112 \<longleftrightarrow> (sz + 7) div 8 * 8 < 112"
    using lt by (intro of_nat_less_u32) simp_all
  then show ?thesis
    using nz r by (simp add: roundSize_def Let_def THRESHOLD_def SIZEOF_MARK_def rounded_def max_def del: of_nat_mult)
qed

text \<open>A request near the top of the address space wraps to a small one.\<close>

lemma roundSize_wraps: "roundSize 0xFFFFFFFF = 112"
  by (simp add: roundSize_def Let_def THRESHOLD_def SIZEOF_MARK_def)

text \<open>An empty free sub-block reads as the end of the block: what lies behind it is not found.\<close>

lemma empty_free_hides: "next_size (H m) = 0 \<Longrightarrow> \<not> next_fill (H m) \<Longrightarrow> first_block_from H sz m = Some None"
  by (subst first_block_from.simps) (simp add: next_x32_def)

lemma rounded_bounds: "112 \<le> rounded sz" "sz \<le> rounded sz" "rounded sz \<le> sz + 112"
  by (auto simp: rounded_def)

section \<open>One block\<close>

lemma sizes_take: "\<forall>x \<in> set (ys @ (s, False) # zs). 112 \<le> fst x \<Longrightarrow> 112 \<le> sz \<Longrightarrow> \<forall>x \<in> set (ys @ take_sub sz s @ zs). 112 \<le> fst x"
  by (auto simp: take_sub_def)

lemma max_free_take:
  assumes "\<forall>x \<in> set (ys @ (s, False) # zs). 112 \<le> fst x" "112 \<le> sz" "s \<noteq> max_free (ys @ (s, False) # zs)"
  shows "max_free (ys @ take_sub sz s @ zs) = max_free (ys @ (s, False) # zs)"
proof -
  define m where "m = max_free (ys @ (s, False) # zs)"
  have m: "m = 0 \<or> (m, False) \<in> set (ys @ (s, False) # zs)" "\<And>t. (t, False) \<in> set (ys @ (s, False) # zs) \<Longrightarrow> t \<le> m"
    using max_free_eq [OF assms(1), of m] by (auto simp: m_def)
  have "max_free (ys @ take_sub sz s @ zs) = m"
    unfolding max_free_eq [OF sizes_take [OF assms(1,2)]]
    using m assms(3) by (auto simp: take_sub_def m_def [symmetric] intro: order_trans [OF _ m(2) [of s]])
  then show ?thesis by (simp add: m_def)
qed

lemma max_free_free:
  assumes "\<forall>x \<in> set (ys @ (s, True) # zs). 112 \<le> fst x"
  defines "v \<equiv> fst (merge_next (snd (merge_prev ys s)) zs)"
  shows "\<forall>x \<in> set (free_sub ys s zs). 112 \<le> fst x"
    and "max_free (free_sub ys s zs) = max (max_free (ys @ (s, True) # zs)) v"
proof -
  define ys' s' zs' where "ys' = fst (merge_prev ys s)" and "s' = snd (merge_prev ys s)" and "zs' = snd (merge_next s' zs)"
  have f: "free_sub ys s zs = ys' @ (v, False) # zs'"
    by (simp add: free_sub_def Let_def case_prod_unfold ys'_def s'_def v_def zs'_def del: merge_prev.simps)
  have y: "ys' = ys \<and> s' = s \<or> (\<exists>p. ys = ys' @ [(p, False)] \<and> s' = p + s + 8)"
    unfolding ys'_def s'_def by (cases ys rule: rev_cases) auto
  have z: "zs' = zs \<and> v = s' \<or> (\<exists>t. zs = (t, False) # zs' \<and> v = s' + t + 8)"
    unfolding zs'_def v_def s'_def by (cases "(snd (merge_prev ys s), zs)" rule: merge_next.cases) auto
  have sub: "set ys' \<subseteq> set ys" "set zs' \<subseteq> set zs" using y z by auto
  show sizes: "\<forall>x \<in> set (free_sub ys s zs). 112 \<le> fst x"
    using assms(1) sub y z unfolding f by auto
  define m where "m = max_free (ys @ (s, True) # zs)"
  have m: "m = 0 \<or> (m, False) \<in> set (ys @ (s, True) # zs)" "\<And>t. (t, False) \<in> set (ys @ (s, True) # zs) \<Longrightarrow> t \<le> m"
    using max_free_eq [OF assms(1), of m] by (auto simp: m_def)
  have "m = 0 \<or> m \<le> v \<or> (m, False) \<in> set ys' \<or> (m, False) \<in> set zs'" using m(1) y z by auto
  then have "max m v = 0 \<or> (max m v, False) \<in> set (ys' @ (v, False) # zs')" by (auto simp: max_def)
  moreover have "t \<le> max m v" if "(t, False) \<in> set (ys' @ (v, False) # zs')" for t
    using that m(2) sub by (auto simp: le_max_iff_disj)
  ultimately show "max_free (free_sub ys s zs) = max (max_free (ys @ (s, True) # zs)) v"
    unfolding max_free_eq [OF sizes] unfolding f m_def by blast
qed

lemma block_okI:
  assumes "layout H (block B) xs" "unat (block B) + span xs + 8 < 2 ^ 32" "\<forall>x \<in> set xs. 112 \<le> fst x" "block_size B = of_nat (span xs + 8)"
  shows "block_ok H (B\<lparr>first_free := at (block B) (span (takeWhile snd xs)), maxfree := of_nat (max_free xs)\<rparr>) xs"
  using assms by (simp add: block_ok_def)

lemma alloc_in_block:
  assumes "block_ok H B (ys @ (s, False) # zs)" "112 \<le> sz" "sz \<le> s"
  defines "xs' \<equiv> ys @ take_sub sz s @ zs"
  defines "f \<equiv> at (block B) (span (takeWhile snd xs'))"
  shows "\<exists>H'. allocBlock H (at (block B) (span ys)) (of_nat sz) (Some (first_free B)) = Some (at (block B) (span ys + 8), H', Some f) \<and>
    block_ok H' (B\<lparr>first_free := f, maxfree := of_nat (max_free xs')\<rparr>) xs' \<and>
    getMaxFreeBlock H' (block B) (block_size B) f = Some (of_nat (max_free xs')) \<and> outside_kept (block B) (span xs') H H'"
proof -
  have b: "layout H (block B) (ys @ (s, False) # zs)" "\<forall>x \<in> set (ys @ (s, False) # zs). 112 \<le> fst x"
    "first_free B = at (block B) (span (takeWhile snd (ys @ (s, False) # zs)))" "block_size B = of_nat (span (ys @ (s, False) # zs) + 8)"
    "unat (block B) + span (ys @ (s, False) # zs) + 8 < 2 ^ 32"
    using assms(1) unfolding block_ok_def by auto
  have sp: "span xs' = span (ys @ (s, False) # zs)" using assms(3) by (simp add: xs'_def span_take_sub)
  have bs: "block_size B = of_nat (span xs' + 8)" unfolding sp by (rule b(4))
  have p: "Some (first_free B) = Some (at (block B) (span (takeWhile snd (ys @ (s, False) # zs)))) \<or> Some (first_free B) = None"
    using b(3) by simp
  from allocBlock_refines [OF b(1) assms(3) p] obtain H' where
    H': "allocBlock H (at (block B) (span ys)) (of_nat sz) (Some (first_free B)) = Some (at (block B) (span ys) + SIZEOF_MARK, H', Some f)"
      "layout H' (block B) xs'" "outside_kept (block B) (span xs') H H'"
    unfolding xs'_def f_def by auto
  have "at (block B) (span ys) + SIZEOF_MARK = at (block B) (span ys + 8)" by (simp add: at_def SIZEOF_MARK_def)
  then show ?thesis
    using H' block_okI [OF H'(2) b(5) [folded sp] _ bs] sizes_take [OF b(2) assms(2)] getMaxFreeBlock_max [OF H'(2)]
    by (simp add: f_def xs'_def)
qed

lemma free_in_block:
  assumes "block_ok H B (ys @ (s, True) # zs)"
  defines "xs' \<equiv> free_sub ys s zs" and "v \<equiv> fst (merge_next (snd (merge_prev ys s)) zs)"
  defines "f \<equiv> at (block B) (span (takeWhile snd xs'))"
  shows "\<exists>H'. freeBlock H (block B) (at (block B) (span ys)) (Some (first_free B)) = (of_nat v, H', Some f) \<and>
    block_ok H' (B\<lparr>first_free := f, maxfree := (if maxfree B < of_nat v then of_nat v else maxfree B)\<rparr>) xs' \<and>
    outside_kept (block B) (span xs') H H' \<and> span xs' = span (ys @ (s, True) # zs)"
proof -
  have b: "layout H (block B) (ys @ (s, True) # zs)" "\<forall>x \<in> set (ys @ (s, True) # zs). 112 \<le> fst x"
    "first_free B = at (block B) (span (takeWhile snd (ys @ (s, True) # zs)))" "block_size B = of_nat (span (ys @ (s, True) # zs) + 8)"
    "maxfree B = of_nat (max_free (ys @ (s, True) # zs))" "unat (block B) + span (ys @ (s, True) # zs) + 8 < 2 ^ 32"
    using assms(1) unfolding block_ok_def by auto
  have p: "Some (first_free B) = Some (at (block B) (span (takeWhile snd (ys @ (s, True) # zs)))) \<or> Some (first_free B) = None"
    using b(3) by simp
  have s: "0 < s" using b(2) by fastforce
  from freeBlock_refines [OF b(1) s p] obtain H' where
    H': "freeBlock H (block B) (at (block B) (span ys)) (Some (first_free B)) = (of_nat v, H', Some f)"
      "layout H' (block B) xs'" "span xs' = span (ys @ (s, True) # zs)" "outside_kept (block B) (span xs') H H'"
    unfolding xs'_def f_def v_def by auto
  have bs: "block_size B = of_nat (span xs' + 8)" unfolding H'(3) by (rule b(4))
  have M: "\<forall>x \<in> set xs'. 112 \<le> fst x" "max_free xs' = max (max_free (ys @ (s, True) # zs)) v"
    using max_free_free [OF b(2)] by (simp_all only: xs'_def v_def)
  have le: "t \<le> span us" if "(t, g) \<in> set us" for t g us using that by (induction us) auto
  have "(v, False) \<in> set xs'"
    by (simp add: xs'_def v_def free_sub_def Let_def case_prod_unfold del: merge_prev.simps)
  then have v: "v < 2 ^ 32" using le H'(2) by (fastforce simp: layout_def)
  have "max_free (ys @ (s, True) # zs) = 0 \<or> (max_free (ys @ (s, True) # zs), False) \<in> set (ys @ (s, True) # zs)"
    using max_free_eq [OF b(2)] by blast
  then have "max_free (ys @ (s, True) # zs) < 2 ^ 32" using le b(1) by (fastforce simp: layout_def)
  then have "(if maxfree B < of_nat v then of_nat v else maxfree B) = (of_nat (max_free xs') :: u32)"
    using v by (auto simp: b(5) M(2) of_nat_less_u32 max_def)
  then show ?thesis
    using H' block_okI [OF H'(2) b(6) [folded H'(3)] M(1) bs] by (auto simp: f_def)
qed

section \<open>A new block\<close>

lemma setup_layout:
  assumes "p \<noteq> 0" "unat p + n \<le> 2 ^ 32" "128 \<le> n" "n < 2 ^ 31"
  shows "layout (setup_marks p (of_nat n) H) p [(n - 16, False)]"
    and "outside_kept p (n - 8) H (setup_marks p (of_nat n) H)"
proof -
  define d where "d = n - 16"
  have n: "n = d + 16" using assms(3) by (simp add: d_def)
  have lt: "d < 2 ^ 31" "0 < d" using assms(3,4) n by simp_all
  have x: "(of_nat n :: u32) - 2 * SIZEOF_MARK = of_nat d" by (simp add: n SIZEOF_MARK_def)
  have u: "ucast (of_nat d :: u32) = (of_nat d :: 31 word)" "ucast (of_nat d :: 31 word) = (of_nat d :: u32)"
    using lt by (simp_all add: ucast_down ucast_size)
  have e: "p + of_nat d + SIZEOF_MARK = at p (d + 8)" by (simp add: at_def SIZEOF_MARK_def)
  have ne: "at p (d + 8) \<noteq> p" "p \<noteq> at p (d + 8)" using at_inj [of "d + 8" 0 p] lt by (auto simp: at_def)
  have i: "p - p < of_nat n" "at p (d + 8) - p < of_nat n"
    using assms(3,4) by (simp_all add: at_def n word_less_nat_alt unsigned_of_nat take_bit_nat_eq_self flip: of_nat_add)
  have nz: "(of_nat d :: 31 word) \<noteq> 0"
    using lt by (simp add: word_eq_iff_unsigned [where ?'a = nat] unsigned_of_nat take_bit_nat_eq_self)
  define Z where "Z = (\<lambda>a. if a - p < of_nat n then \<lparr>prev_size = 0, prev_fill = False, next_size = 0, next_fill = False\<rparr> else H a)"
  define G where "G = set_next_size p (of_nat d) (set_next_fill p False (Z(p := (Z p)\<lparr>prev_size := 0, prev_fill := False\<rparr>)))"
  have G: "next_size (G p) = of_nat d" by (simp add: G_def set_field_simps u)
  have N: "NEXT_BLOCK G p = at p (d + 8)" by (simp add: NEXT_BLOCK_def G u e)
  have "setup_marks p (of_nat n) H = set_prev_size (at p (d + 8)) (of_nat d) (set_prev_fill (at p (d + 8)) False
      (G(at p (d + 8) := (G (at p (d + 8)))\<lparr>next_size := 0, next_fill := False\<rparr>)))"
    using N G ne u unfolding setup_marks_def Let_def x Z_def [symmetric] G_def [symmetric] by (simp add: set_field_simps)
  then have S: "setup_marks p (of_nat n) H = (\<lambda>a. if a = p then \<lparr>prev_size = 0, prev_fill = False, next_size = of_nat d, next_fill = False\<rparr>
      else if a = at p (d + 8) then \<lparr>prev_size = of_nat d, prev_fill = False, next_size = 0, next_fill = False\<rparr>
      else if a - p < of_nat n then \<lparr>prev_size = 0, prev_fill = False, next_size = 0, next_fill = False\<rparr> else H a)"
    using ne i by (simp add: G_def Z_def fun_eq_iff u set_next_fill_def set_next_size_def set_prev_fill_def set_prev_size_def)
  show "layout (setup_marks p (of_nat n) H) p [(n - 16, False)]"
    using assms ne nz lt unfolding S d_def [symmetric]
    by (simp add: layout_def at_def [of p 0] prev_x32_def next_x32_def coalesced_def n)
  show "outside_kept p (n - 8) H (setup_marks p (of_nat n) H)"
    unfolding outside_kept_def
  proof (intro allI impI)
    fix a
    assume a: "\<forall>j < n - 8 + 8. a \<noteq> at p j"
    have "a = at p (unat (a - p))" by (simp add: at_def)
    then have "\<not> unat (a - p) < n" using a assms(3) by fastforce
    then have "\<not> a - p < of_nat n"
      using assms(4) by (simp add: word_less_nat_alt unsigned_of_nat take_bit_nat_eq_self)
    moreover have "a \<noteq> p" "a \<noteq> at p (d + 8)"
      using a [rule_format, of 0] a [rule_format, of "d + 8"] by (auto simp: at_def n)
    ultimately show "setup_marks p (of_nat n) H a = H a" unfolding S by simp
  qed
qed

section \<open>Pointers and contents\<close>

definition pointer :: "cheap \<Rightarrow> nat \<times> nat \<times> nat \<Rightarrow> u32" where
  "pointer S = (\<lambda>(i, k, s). at (block (p_blocks S ! i)) (k + 8))"

definition contents :: "cheap \<Rightarrow> nat \<times> nat \<times> nat \<Rightarrow> u8 list" where
  "contents S = (\<lambda>(i, k, s). map (\<lambda>j. bytes S (at (block (p_blocks S ! i)) (k + 8 + j))) [0..<s])"

lemma length_contents [simp]: "length (contents S (i, k, s)) = s"
  by (simp add: contents_def)

lemma used_from_disjoint:
  "(j, s) \<in> used_from k xs \<Longrightarrow> (l, t) \<in> used_from k xs \<Longrightarrow> (j, s) = (l, t) \<or> j + s + 8 \<le> l \<or> l + t + 8 \<le> j"
proof (induction xs arbitrary: k)
  case (Cons x xs)
  obtain u f where x: "x = (u, f)" by force
  have a: "(m, r) \<in> used_from k (x # xs) \<Longrightarrow> m = k \<and> r = u \<or> (m, r) \<in> used_from (k + u + 8) xs" for m r
    using x by (auto split: if_splits)
  have b: "(m, r) \<in> used_from (k + u + 8) xs \<Longrightarrow> k + u + 8 \<le> m" for m r
    using used_from_bounds by blast
  show ?case
    using a [OF Cons.prems(1)] a [OF Cons.prems(2)] b [of j s] b [of l t] Cons.IH [of "k + u + 8"] by auto
qed simp

text \<open>An allocated area, its mark included, as an interval of addresses that does not wrap.\<close>

lemma area_bounds:
  assumes "heap_ok xss S" "(i, k, s) \<in> allocs xss"
  shows "i < length xss" "k + s + 8 \<le> span (xss ! i)" "unat (block (p_blocks S ! i)) + span (xss ! i) + 8 \<le> 2 ^ 32"
proof -
  have i: "i < length xss" "(k, s) \<in> used_from 0 (xss ! i)" using assms(2) by (simp_all add: allocs_def)
  show "i < length xss" "k + s + 8 \<le> span (xss ! i)" "unat (block (p_blocks S ! i)) + span (xss ! i) + 8 \<le> 2 ^ 32"
    using i used_from_bounds [OF i(2)] block_ok_range [OF heap_ok_nth [OF assms(1) i(1)]] by simp_all
qed

lemma area_unat:
  assumes "heap_ok xss S" "(i, k, s) \<in> allocs xss" "j \<le> s"
  shows "unat (at (block (p_blocks S ! i)) (k + 8 + j)) = unat (block (p_blocks S ! i)) + k + 8 + j"
  using unat_at [of "block (p_blocks S ! i)" "k + 8 + j"] area_bounds [OF assms(1,2)] assms(3) by simp

lemma areas_disjoint:
  assumes "heap_ok xss S" "(i, k, s) \<in> allocs xss" "(j, l, t) \<in> allocs xss" "(i, k, s) \<noteq> (j, l, t)"
  shows "unat (block (p_blocks S ! i)) + k + s + 8 \<le> unat (block (p_blocks S ! j)) + l \<or>
    unat (block (p_blocks S ! j)) + l + t + 8 \<le> unat (block (p_blocks S ! i)) + k"
proof (cases "i = j")
  case True
  then show ?thesis
    using used_from_disjoint [of k s 0 "xss ! i" l t] assms(2-4) by (auto simp: allocs_def)
next
  case False
  then have "apart (block (p_blocks S ! i)) (span (xss ! i) + 8) (block (p_blocks S ! j)) (span (xss ! j) + 8)"
    using assms(1) area_bounds(1) [OF assms(1,2)] area_bounds(1) [OF assms(1,3)] by (auto simp: heap_ok_def)
  then show ?thesis
    using area_bounds(2) [OF assms(1,2)] area_bounds(2) [OF assms(1,3)] by (auto simp: apart_def)
qed

lemma pointer_inj:
  assumes "heap_ok xss S" "x \<in> allocs xss" "y \<in> allocs xss" "pointer S x = pointer S y"
  shows "x = y"
proof (rule ccontr)
  assume "x \<noteq> y"
  obtain i k s where x: "x = (i, k, s)" by (cases x)
  obtain j l t where y: "y = (j, l, t)" by (cases y)
  have "unat (block (p_blocks S ! i)) + k + 8 = unat (block (p_blocks S ! j)) + l + 8"
    using area_unat [of xss S i k s 0] area_unat [of xss S j l t 0] assms x y by (simp add: pointer_def)
  then show False
    using areas_disjoint [of xss S i k s j l t] assms(1-3) x y \<open>x \<noteq> y\<close> by auto
qed

definition fresh_area :: "cheap \<Rightarrow> u32 \<Rightarrow> nat \<Rightarrow> bool" where
  "fresh_area S p n = (p \<noteq> 0 \<and> unat p + n < 2 ^ 32 \<and> (\<forall>B \<in> set (p_blocks S). apart p n (block B) (unat (block_size B))))"

lemma block_size_nat: "block_ok H B xs \<Longrightarrow> unat (block_size B) = span xs + 8"
  by (simp add: block_ok_def layout_def unsigned_of_nat take_bit_nat_eq_self flip: of_nat_add)

lemma in_area: "unat p + n \<le> 2 ^ 32 \<Longrightarrow> n < 2 ^ 32 \<Longrightarrow> (a :: u32) - p < of_nat n \<longleftrightarrow> unat p \<le> unat a \<and> unat a < unat p + n"
proof
  assume h: "unat p + n \<le> 2 ^ 32" "n < 2 ^ 32" "a - p < of_nat n"
  then have "unat (a - p) < n" by (simp add: word_less_nat_alt unsigned_of_nat take_bit_nat_eq_self)
  moreover have "a = at p (unat (a - p))" by (simp add: at_def)
  ultimately show "unat p \<le> unat a \<and> unat a < unat p + n" using h(1) unat_at [of p "unat (a - p)"] by simp
next
  assume h: "unat p + n \<le> 2 ^ 32" "n < 2 ^ 32" "unat p \<le> unat a \<and> unat a < unat p + n"
  then have "unat (a - p) = unat a - unat p" by (intro unat_sub) (simp add: word_le_nat_alt)
  moreover have "unat a - unat p < n" using h(3) by linarith
  ultimately show "a - p < of_nat n" using h(2) by (simp add: word_less_nat_alt unsigned_of_nat take_bit_nat_eq_self)
qed

section \<open>Taking and giving back areas\<close>

lemma malloc_new:
  assumes "heap_ok xss S" "112 \<le> r" "r < 2 ^ 31 - 16" "fresh_area S (mmap (of_nat n)) n" "n = max 65536 (r + 16)"
  defines "i \<equiv> length xss" and "s \<equiv> if r + 128 < n - 16 then r else n - 16"
  shows "\<exists>ret S' xss'. new_block mmap (of_nat r) S = Some (ret, S') \<and> heap_ok xss' S' \<and> ret = pointer S' (i, 0, s) \<and>
    allocs xss' = insert (i, 0, s) (allocs xss) \<and> (\<forall>x \<in> allocs xss. pointer S' x = pointer S x \<and> contents S' x = contents S x)"
proof -
  define p where "p = mmap (of_nat n)"
  define B where "B = \<lparr>block = p, maxfree = of_nat (n - 16), block_size = of_nat n, first_free = p\<rparr>"
  define Z where "Z = setup_marks p (of_nat n) (marks S)"
  have n: "128 \<le> n" "n < 2 ^ 31" "r \<le> n - 16" using assms(2,3,5) by auto
  have p: "p \<noteq> 0" "unat p + n \<le> 2 ^ 32" "unat p + n < 2 ^ 32" "\<forall>B \<in> set (p_blocks S). apart p n (block B) (unat (block_size B))"
    using assms(4) by (simp_all add: fresh_area_def p_def)
  define xs where "xs = take_sub r (n - 16)"
  have Z: "layout Z p [(n - 16, False)]" "outside_kept p (n - 8) (marks S) Z"
    using setup_layout [OF p(1,2) n(1,2)] by (simp_all add: Z_def)
  have "max_free [(n - 16, False)] = n - 16" using n(1) by (simp add: max_free_def Let_def)
  then have "block_ok Z B ([] @ (n - 16, False) # [])"
    using Z(1) n(1) p(3) by (simp add: block_ok_def B_def at_def)
  from alloc_in_block [OF this assms(2) n(3)] obtain H f where
    H: "allocBlock Z p (of_nat r) (Some p) = Some (at p 8, H, Some f)" "block_ok H (B\<lparr>first_free := f, maxfree := of_nat (max_free xs)\<rparr>) xs"
      "getMaxFreeBlock H p (of_nat n) f = Some (of_nat (max_free xs))" "outside_kept p (span xs) Z H"
    by (auto simp: B_def xs_def at_def)
  have sp: "span xs = n - 8" using n by (simp add: xs_def span_take_sub)
  define B' where "B' = B\<lparr>first_free := f, maxfree := of_nat (max_free xs)\<rparr>"
  define M where "M = (\<lambda>a. if a - p < of_nat n then 0 else bytes S a)"
  have len: "length (p_blocks S) = length xss" using heap_ok_length [OF assms(1)] .
  have ap: "apart p n (block (p_blocks S ! j)) (span (xss ! j) + 8)" if "j < length xss" for j
    using p(4) that block_size_nat [OF heap_ok_nth [OF assms(1) that]] len by (metis nth_mem)
  have "heap_ok (xss @ [xs]) \<lparr>p_blocks = p_blocks S @ [B'], marks = H, bytes = M\<rparr>"
    using H(2) outside_kept_trans [OF Z(2) H(4) [unfolded sp]] ap n(1)
    by (intro heap_ok_snoc [OF assms(1)]) (auto simp: B'_def B_def sp)
  moreover have "(if MMAPSIZE < of_nat r + 2 * SIZEOF_MARK then of_nat r + 2 * SIZEOF_MARK else MMAPSIZE) = (of_nat n :: u32)"
  proof -
    have "of_nat r + 2 * SIZEOF_MARK = (of_nat (r + 16) :: u32)" "MMAPSIZE = of_nat 65536" by (simp_all add: SIZEOF_MARK_def MMAPSIZE_def)
    moreover have "(of_nat 65536 :: u32) < of_nat (r + 16) \<longleftrightarrow> 65536 < r + 16" using assms(3) by (intro of_nat_less_u32) simp_all
    ultimately show ?thesis unfolding assms(5) by (simp only: max_def) (simp split: if_splits)
  qed
  then have "new_block mmap (of_nat r) S = Some (at p 8, \<lparr>p_blocks = p_blocks S @ [B'], marks = H, bytes = M\<rparr>)"
    unfolding new_block_def Let_def by (simp add: H(1,3) B'_def B_def M_def flip: p_def Z_def)
  moreover have "allocs (xss @ [xs]) = insert (i, 0, s) (allocs xss)"
    by (simp add: allocs_snoc xs_def take_sub_def i_def s_def)
  moreover have "M (at (block (p_blocks S ! a)) (k + 8 + j)) = bytes S (at (block (p_blocks S ! a)) (k + 8 + j))"
    if x: "(a, k, t) \<in> allocs xss" and j: "j < t" for a k t j
  proof -
    have "unat (at (block (p_blocks S ! a)) (k + 8 + j)) = unat (block (p_blocks S ! a)) + k + 8 + j"
      using area_unat [OF assms(1) x] j by simp
    then show ?thesis
      using in_area [OF p(2)] n(2) ap [OF area_bounds(1) [OF assms(1) x]] area_bounds(2) [OF assms(1) x] j
      by (auto simp: M_def apart_def)
  qed
  ultimately show ?thesis
    using len area_bounds(1) [OF assms(1)]
    by (intro exI [of _ "at p 8"] exI [of _ "\<lparr>p_blocks = p_blocks S @ [B'], marks = H, bytes = M\<rparr>"] exI [of _ "xss @ [xs]"])
      (auto simp: pointer_def contents_def nth_append i_def B'_def B_def)
qed

text \<open>
  \<open>room_kept r xss yss\<close>: of each free sub-block of \<open>xss\<close> that is larger than \<open>r\<close> by more than two marks and the threshold,
  \<open>yss\<close> still has all but \<open>r\<close> bytes and a mark.
\<close>

definition room_kept :: "nat \<Rightarrow> subs list \<Rightarrow> subs list \<Rightarrow> bool" where
  "room_kept r xss yss \<longleftrightarrow> (\<forall>xs \<in> set xss. \<forall>u. (u, False) \<in> set xs \<longrightarrow> r + 128 < u \<longrightarrow>
     (\<exists>ys \<in> set yss. \<exists>w. (w, False) \<in> set ys \<and> u \<le> w + r + 8))"

lemma room_kept_update:
  assumes "i < length xss" "\<And>u. (u, False) \<in> set (xss ! i) \<Longrightarrow> r + 128 < u \<Longrightarrow> \<exists>w. (w, False) \<in> set xs' \<and> u \<le> w + r + 8"
  shows "room_kept r xss (xss[i := xs'])"
  unfolding room_kept_def
proof (intro ballI allI impI)
  fix xs u
  assume h: "xs \<in> set xss" "(u, False) \<in> set xs" "r + 128 < u"
  obtain j where j: "j < length xss" "xs = xss ! j" using h(1) by (metis in_set_conv_nth)
  show "\<exists>ys \<in> set (xss[i := xs']). \<exists>w. (w, False) \<in> set ys \<and> u \<le> w + r + 8"
  proof (cases "j = i")
    case True
    have "xs' \<in> set (xss[i := xs'])" using assms(1) by (rule set_update_memI)
    then show ?thesis using assms(2) [of u] h j True by blast
  next
    case False
    then have "xss[i := xs'] ! j = xs" using j by simp
    then have "xs \<in> set (xss[i := xs'])" using j(1) by (metis length_list_update nth_mem)
    then show ?thesis using h(2) by (intro bexI [of _ xs] exI [of _ u]) simp_all
  qed
qed

lemma malloc_fit:
  assumes "heap_ok xss S" "112 \<le> r" "r < 2 ^ 31" "i < length xss" "first_fit r 0 (xss ! i) = Some (k, s)"
    and "find_fit (marks S) (roundSize (of_nat sz)) 0 (p_blocks S) = Some (Some (i, at (block (p_blocks S ! i)) k, of_nat s))"
    and "roundSize (of_nat sz) = of_nat r"
  shows "\<exists>ret S' xss' t. customMalloc mmap (of_nat sz) S = Some (ret, S') \<and> heap_ok xss' S' \<and> ret = pointer S' (i, k, t) \<and>
    r \<le> t \<and> (i, k, t) \<notin> allocs xss \<and> allocs xss' = insert (i, k, t) (allocs xss) \<and>
    (\<forall>x \<in> allocs xss. pointer S' x = pointer S x \<and> contents S' x = contents S x) \<and> room_kept r xss xss'"
proof -
  define B where "B = p_blocks S ! i"
  obtain ys zs where xs: "xss ! i = ys @ (s, False) # zs" "k = span ys" "r \<le> s"
    using first_fit_split [OF assms(5)] by auto
  have b: "block_ok (marks S) B (ys @ (s, False) # zs)" using heap_ok_nth [OF assms(1,4)] xs by (simp add: B_def)
  have sizes: "\<forall>x \<in> set (ys @ (s, False) # zs). 112 \<le> fst x" and mxB: "maxfree B = of_nat (max_free (ys @ (s, False) # zs))"
    and lt: "span (ys @ (s, False) # zs) < 2 ^ 31" using b by (simp_all add: block_ok_def layout_def)
  define s' where "s' = (if s - r < 112 then s else r)"
  have s': "112 \<le> s'" "s' \<le> s" "r \<le> s'" using xs(3) assms(2) by (auto simp: s'_def)
  define xs' where "xs' = ys @ take_sub s' s @ zs"
  define f where "f = at (block B) (span (takeWhile snd xs'))"
  from alloc_in_block [OF b s'(1,2)] obtain H where
    H: "allocBlock (marks S) (at (block B) k) (of_nat s') (Some (first_free B)) = Some (at (block B) (k + 8), H, Some f)"
      "block_ok H (B\<lparr>first_free := f, maxfree := of_nat (max_free xs')\<rparr>) xs'"
      "getMaxFreeBlock H (block B) (block_size B) f = Some (of_nat (max_free xs'))" "outside_kept (block B) (span xs') (marks S) H"
    unfolding xs'_def f_def xs(2) by auto
  have szw: "(if of_nat s - of_nat r < THRESHOLD then of_nat s else of_nat r) = (of_nat s' :: u32)"
  proof -
    have "of_nat s - of_nat r = (of_nat (s - r) :: u32)" using xs(3) by (simp add: of_nat_diff)
    moreover have "(of_nat (s - r) :: u32) < of_nat 112 \<longleftrightarrow> s - r < 112" using lt xs by (intro of_nat_less_u32) simp_all
    ultimately show ?thesis by (simp add: s'_def THRESHOLD_def SIZEOF_MARK_def)
  qed
  define B' where "B' = B\<lparr>first_free := f, maxfree := of_nat (max_free xs')\<rparr>"
  define S' where "S' = S\<lparr>p_blocks := (p_blocks S)[i := B'], marks := H\<rparr>"
  have len: "length (p_blocks S) = length xss" using heap_ok_length [OF assms(1)] .
  have "heap_ok (xss[i := xs']) S'" unfolding S'_def
    using H(2,4) s'(2) by (intro heap_ok_update [OF assms(1,4)]) (simp_all add: B'_def B_def xs'_def xs(1) span_take_sub)
  moreover have "B\<lparr>first_free := f\<rparr> = B'" if "of_nat s \<noteq> maxfree B"
  proof -
    have "max_free xs' = max_free (ys @ (s, False) # zs)"
      unfolding xs'_def using that mxB by (intro max_free_take [OF sizes s'(1)]) auto
    then show ?thesis using mxB by (simp add: B'_def)
  qed
  then have "customMalloc mmap (of_nat sz) S = Some (at (block B) (k + 8), S')"
    using H(1,3) unfolding customMalloc_def Let_def assms(7)
    by (simp add: assms(6) [unfolded assms(7)] szw S'_def B'_def B_def)
  moreover define t where "t = (if s' + 128 < s then s' else s)"
  have "allocs (xss[i := xs']) = insert (i, k, t) (allocs xss)"
    unfolding allocs_update [OF assms(4)] xs'_def used_take(1) [OF s'(2)] xs(2) t_def [symmetric]
    using assms(4) by (auto simp: allocs_def xs(1))
  moreover have "(i, k, t) \<notin> allocs xss" using used_take(2) [OF s'(2)] xs by (simp add: allocs_def)
  moreover have "block (p_blocks S' ! j) = block (p_blocks S ! j)" for j
    using assms(4) len by (cases "j = i") (simp_all add: S'_def B'_def B_def)
  moreover have "bytes S' = bytes S" by (simp add: S'_def)
  moreover have "room_kept r xss (xss[i := xs'])"
    by (rule room_kept_update [OF assms(4)]) (auto simp: xs(1) xs'_def take_sub_def s'_def)
  ultimately show ?thesis
    using s' xs(3) by (intro exI [of _ "at (block B) (k + 8)"] exI [of _ S'] exI [of _ "xss[i := xs']"] exI [of _ t])
      (auto simp: pointer_def contents_def B_def t_def)
qed

lemma malloc_adds:
  assumes "heap_ok xss S" "0 < sz" "sz \<le> 2 ^ 30" "n = max 65536 (rounded sz + 16)" "fresh_area S (mmap (of_nat n)) n"
  shows "\<exists>ret S' xss' x. customMalloc mmap (of_nat sz) S = Some (ret, S') \<and> heap_ok xss' S' \<and> ret = pointer S' x \<and>
    sz \<le> length (contents S' x) \<and> x \<notin> allocs xss \<and> allocs xss' = insert x (allocs xss) \<and>
    (\<forall>x \<in> allocs xss. pointer S' x = pointer S x \<and> contents S' x = contents S x)"
proof -
  note r = roundSize_rounded [OF assms(2,3)] rounded_bounds [of sz]
  have r31: "rounded sz < 2 ^ 31 - 16" "0 < rounded sz" using r(2,4) assms(3) by simp_all
  have bs: "list_all2 (block_ok (marks S)) (p_blocks S) xss" using assms(1) by (simp add: heap_ok_def)
  from find_fit_finds [OF bs r31(2), of 0] r31(1) consider
    (new) "find_fit (marks S) (of_nat (rounded sz)) 0 (p_blocks S) = Some None" |
    (fit) i k s where "i < length xss" "first_fit (rounded sz) 0 (xss ! i) = Some (k, s)"
      "find_fit (marks S) (of_nat (rounded sz)) 0 (p_blocks S) = Some (Some (i, at (block (p_blocks S ! i)) k, of_nat s))"
    by auto
  then show ?thesis
  proof cases
    case new
    define s where "s = (if rounded sz + 128 < n - 16 then rounded sz else n - 16)"
    from malloc_new [where mmap = mmap and n = n, OF assms(1) r(2) r31(1) assms(5,4)] obtain ret S' xss' where
      n: "new_block mmap (of_nat (rounded sz)) S = Some (ret, S')" "heap_ok xss' S'" "ret = pointer S' (length xss, 0, s)"
        "allocs xss' = insert (length xss, 0, s) (allocs xss)" "\<forall>x \<in> allocs xss. pointer S' x = pointer S x \<and> contents S' x = contents S x"
      unfolding s_def by blast
    have "customMalloc mmap (of_nat sz) S = Some (ret, S')"
      unfolding customMalloc_def Let_def r(1) new by (simp add: n(1))
    moreover have "sz \<le> s" using r(3) assms(4) by (auto simp: s_def)
    moreover have "(length xss, 0, s) \<notin> allocs xss" by (simp add: allocs_def)
    ultimately show ?thesis
      using n(2-5) by (intro exI [of _ ret] exI [of _ S'] exI [of _ xss'] exI [of _ "(length xss, 0, s)"]) simp
  next
    case fit
    have "rounded sz < 2 ^ 31" using r31(1) by simp
    from malloc_fit [where mmap = mmap, OF assms(1) r(2) this fit(1,2) fit(3) [folded r(1)] r(1)] obtain ret S' xss' t where
      "customMalloc mmap (of_nat sz) S = Some (ret, S')" "heap_ok xss' S'" "ret = pointer S' (i, k, t)" "rounded sz \<le> t"
      "(i, k, t) \<notin> allocs xss" "allocs xss' = insert (i, k, t) (allocs xss)"
      "\<forall>x \<in> allocs xss. pointer S' x = pointer S x \<and> contents S' x = contents S x"
      by blast
    then show ?thesis
      using r(3) by (intro exI [of _ ret] exI [of _ S'] exI [of _ xss'] exI [of _ "(i, k, t)"]) simp
  qed
qed

lemma find_block_unique:
  assumes "heap_ok xss S" "i < length xss" "in_block a (p_blocks S ! i)" "\<And>j. j < length xss \<Longrightarrow> in_block a (p_blocks S ! j) \<Longrightarrow> j = i"
  shows "find_block a 0 (p_blocks S) = Some i"
proof -
  have "find_block a n Bs = Some (n + i)"
    if "i < length Bs" "in_block a (Bs ! i)" "\<And>j. j < i \<Longrightarrow> \<not> in_block a (Bs ! j)" for n i Bs
    using that
  proof (induction Bs arbitrary: n i)
    case (Cons B Bs)
    show ?case
    proof (cases i)
      case 0
      then show ?thesis using Cons.prems by simp
    next
      case (Suc l)
      have "find_block a (Suc n) Bs = Some (Suc n + l)"
        using Cons.prems Suc by (intro Cons.IH) fastforce+
      then show ?thesis using Cons.prems(3) [of 0] Suc by simp
    qed
  qed simp
  then have "find_block a 0 (p_blocks S) = Some (0 + i)"
    using assms heap_ok_length [OF assms(1)] by (metis less_trans less_irrefl)
  then show ?thesis by simp
qed

lemma in_block_unat:
  assumes "block_ok H B xs"
  shows "in_block a B \<longleftrightarrow> unat (block B) < unat a \<and> unat a < unat (block B) + span xs + 8"
proof -
  have r: "unat (block B) + span xs + 8 < 2 ^ 32" "block_size B = of_nat (span xs + 8)"
    using assms by (simp_all add: block_ok_def)
  have "unat (at (block B) (span xs + 8)) = unat (block B) + (span xs + 8)" using r(1) by (intro unat_at) simp
  then show ?thesis by (simp add: in_block_def word_less_nat_alt r(2) at_def add.assoc)
qed

lemma pointer_block:
  assumes "heap_ok xss S" "(i, k, s) \<in> allocs xss"
  shows "find_block (pointer S (i, k, s)) 0 (p_blocks S) = Some i" "pointer S (i, k, s) \<noteq> 0"
    "pointer S (i, k, s) - SIZEOF_MARK = at (block (p_blocks S ! i)) k"
proof -
  note b = area_bounds [OF assms]
  have u: "unat (pointer S (i, k, s)) = unat (block (p_blocks S ! i)) + k + 8"
    using area_unat [OF assms, of 0] by (simp add: pointer_def)
  have "j = i" if "j < length xss" "in_block (pointer S (i, k, s)) (p_blocks S ! j)" for j
  proof (rule ccontr)
    assume "j \<noteq> i"
    then have "apart (block (p_blocks S ! j)) (span (xss ! j) + 8) (block (p_blocks S ! i)) (span (xss ! i) + 8)"
      using assms(1) that(1) b(1) by (simp add: heap_ok_def)
    then show False
      using that(2) u b(2) unfolding in_block_unat [OF heap_ok_nth [OF assms(1) that(1)]] by (auto simp: apart_def)
  qed
  moreover have "in_block (pointer S (i, k, s)) (p_blocks S ! i)"
    unfolding in_block_unat [OF heap_ok_nth [OF assms(1) b(1)]] using u b(2) by simp
  ultimately show "find_block (pointer S (i, k, s)) 0 (p_blocks S) = Some i"
    using find_block_unique [OF assms(1) b(1)] by blast
  show "pointer S (i, k, s) \<noteq> 0" using u by auto
  show "pointer S (i, k, s) - SIZEOF_MARK = at (block (p_blocks S ! i)) k"
    by (simp add: pointer_def at_def SIZEOF_MARK_def)
qed

lemma free_sub_room: "(u, False) \<in> set (ys @ (s, True) # zs) \<Longrightarrow> \<exists>w. (w, False) \<in> set (free_sub ys s zs) \<and> u \<le> w"
  by (cases ys rule: rev_cases; cases "(s, zs)" rule: merge_next.cases)
    (auto simp: free_sub_def Let_def split: if_splits)

lemma free_removes:
  assumes "heap_ok xss S" "x \<in> allocs xss"
  shows "\<exists>xss'. heap_ok xss' (customFree (pointer S x) S) \<and> allocs xss' = allocs xss - {x} \<and>
    (\<forall>y. pointer (customFree (pointer S x) S) y = pointer S y \<and> contents (customFree (pointer S x) S) y = contents S y) \<and>
    (\<forall>xs \<in> set xss. \<forall>u. (u, False) \<in> set xs \<longrightarrow> (\<exists>ys \<in> set xss'. \<exists>w. (w, False) \<in> set ys \<and> u \<le> w))"
proof -
  obtain i k s where x: "x = (i, k, s)" by (cases x)
  have a: "(i, k, s) \<in> allocs xss" using assms(2) x by simp
  note P = pointer_block [OF assms(1) a] and i = area_bounds(1) [OF assms(1) a]
  define B where "B = p_blocks S ! i"
  obtain ys zs where xs: "xss ! i = ys @ (s, True) # zs" "k = span ys"
    using a used_from_split [of k s 0 "xss ! i"] by (auto simp: allocs_def)
  have b: "block_ok (marks S) B (ys @ (s, True) # zs)" using heap_ok_nth [OF assms(1) i] xs by (simp add: B_def)
  define v where "v = fst (merge_next (snd (merge_prev ys s)) zs)"
  define xs' where "xs' = free_sub ys s zs"
  define f where "f = at (block B) (span (takeWhile snd xs'))"
  define B' where "B' = B\<lparr>first_free := f, maxfree := (if maxfree B < of_nat v then of_nat v else maxfree B)\<rparr>"
  from free_in_block [OF b] obtain H where
    H: "freeBlock (marks S) (block B) (at (block B) k) (Some (first_free B)) = (of_nat v, H, Some f)"
      "block_ok H B' xs'" "outside_kept (block B) (span xs') (marks S) H" "span xs' = span (ys @ (s, True) # zs)"
    unfolding xs'_def f_def v_def B'_def xs(2) by blast
  define S' where "S' = S\<lparr>p_blocks := (p_blocks S)[i := B'], marks := H\<rparr>"
  have len: "length (p_blocks S) = length xss" using heap_ok_length [OF assms(1)] .
  have "(if maxfree (B\<lparr>first_free := f\<rparr>) < of_nat v then B\<lparr>first_free := f, maxfree := of_nat v\<rparr> else B\<lparr>first_free := f\<rparr>) = B'"
    by (simp add: B'_def)
  then have c: "customFree (pointer S x) S = S'"
    using P H(1) unfolding x customFree_def Let_def by (cases "maxfree B < of_nat v") (simp_all add: S'_def flip: B_def)
  have "heap_ok (xss[i := xs']) S'" unfolding S'_def
    using H(2-4) by (intro heap_ok_update [OF assms(1) i]) (simp_all add: B'_def B_def xs(1))
  moreover have "allocs (xss[i := xs']) = allocs xss - {x}"
    unfolding allocs_update [OF i] xs'_def used_free using i xs by (auto simp: allocs_def x)
  moreover have "block (p_blocks S' ! j) = block (p_blocks S ! j)" for j
    using i len by (cases "j = i") (simp_all add: S'_def B'_def B_def)
  moreover have "bytes S' = bytes S" by (simp add: S'_def)
  moreover have "\<exists>zs \<in> set (xss[i := xs']). \<exists>w. (w, False) \<in> set zs \<and> u \<le> w" if h: "us \<in> set xss" "(u, False) \<in> set us" for us u
  proof -
    obtain j where j: "j < length xss" "us = xss ! j" using h(1) by (metis in_set_conv_nth)
    show ?thesis
    proof (cases "j = i")
      case True
      have "xs' \<in> set (xss[i := xs'])" using i by (rule set_update_memI)
      moreover have "(u, False) \<in> set (ys @ (s, True) # zs)" using h(2) j(2) True xs(1) by simp
      ultimately show ?thesis using free_sub_room unfolding xs'_def by blast
    next
      case False
      then have "xss[i := xs'] ! j = us" using j by simp
      then have "us \<in> set (xss[i := xs'])" using j(1) by (metis length_list_update nth_mem)
      then show ?thesis using h(2) by blast
    qed
  qed
  ultimately show ?thesis unfolding c
    by (intro exI [of _ "xss[i := xs']"]) (auto simp: pointer_def contents_def)
qed

section \<open>Growing an area\<close>

text \<open>A used sub-block never grows: \<open>expandBlock\<close> reads its fill bit where its comment speaks of the next one.\<close>

lemma expandBlock_used:
  assumes "next_fill (H sub)"
  shows "expandBlock H sub sz = ((sz + 3) AND NOT 3 \<le> ucast (next_size (H sub)), H)"
  using assms by (simp add: expandBlock_def Let_def)

lemma rounded_8: "rounded sz mod 8 = 0"
  by (simp add: rounded_def max_def)

lemma rounded_idem: "rounded (rounded sz) = rounded sz"
proof -
  obtain q where q: "rounded sz = 8 * q" using rounded_8 [of sz] by (metis mod_0_imp_dvd dvdE)
  moreover have "14 \<le> q" using rounded_bounds(1) [of sz] q by simp
  moreover have "(8 * q + 7) div 8 = q" by simp
  ultimately show ?thesis unfolding q by (simp add: rounded_def max_def)
qed

lemma align_4: "m < 2 ^ 31 \<Longrightarrow> m mod 4 = 0 \<Longrightarrow> ((of_nat m :: u32) + 3) AND NOT 3 = of_nat m"
proof -
  assume m: "m < 2 ^ 31" "m mod 4 = 0"
  have "((of_nat (m + 3) :: u32)) AND NOT 3 = of_nat (m + 3) - take_bit 2 (of_nat (m + 3))"
    using and_not_mask_diff [of "of_nat (m + 3) :: u32" 2] by (simp add: mask_eq_exp_minus_1)
  also have "take_bit 2 (of_nat (m + 3) :: u32) = of_nat ((m + 3) mod 4)"
    by (simp only: take_bit_of_nat) (simp add: take_bit_eq_mod)
  also have "(m + 3) mod 4 = 3" using m(2) by presburger
  finally show ?thesis by (simp add: add.commute)
qed

text \<open>What the marks say of an allocated area.\<close>

lemma area_marks:
  assumes "heap_ok xss S" "(i, k, s) \<in> allocs xss"
  shows "next_fill (marks S (at (block (p_blocks S ! i)) k))" "ucast (next_size (marks S (at (block (p_blocks S ! i)) k))) = (of_nat s :: u32)"
proof -
  have i: "i < length xss" using area_bounds(1) [OF assms] .
  obtain ys zs where xs: "xss ! i = ys @ (s, True) # zs" "k = span ys"
    using assms(2) used_from_split [of k s 0 "xss ! i"] by (auto simp: allocs_def)
  have "layout (marks S) (block (p_blocks S ! i)) (ys @ (s, True) # zs)"
    using heap_ok_nth [OF assms(1) i] xs by (simp add: block_ok_def)
  then have "seg (marks S) (block (p_blocks S ! i)) k ((s, True) # zs)" "s < 2 ^ 31"
    by (auto simp: layout_def seg_append xs(2))
  from mark_next [OF this] show "next_fill (marks S (at (block (p_blocks S ! i)) k))"
    "ucast (next_size (marks S (at (block (p_blocks S ! i)) k))) = (of_nat s :: u32)" by simp_all
qed

lemma next_free_behind:
  assumes "block_ok H B (ys @ (s, True) # zs)" "at (block B) (span ys) < first_free B"
  shows "getNextFreeBlock H (at (block B) (span ys)) = Some (first_free B)"
proof -
  have b: "seg H (block B) 0 (ys @ (s, True) # zs)" "\<not> next_x32 (H (at (block B) (span (ys @ (s, True) # zs))))"
    "span (ys @ (s, True) # zs) < 2 ^ 31" "unat (block B) + span (ys @ (s, True) # zs) + 8 < 2 ^ 32"
    "first_free B = at (block B) (span (takeWhile snd (ys @ (s, True) # zs)))"
    using assms(1) by (simp_all add: block_ok_def layout_def)
  have "\<forall>x \<in> set ys. snd x"
  proof (rule ccontr)
    assume "\<not> (\<forall>x \<in> set ys. snd x)"
    then have "takeWhile snd (ys @ (s, True) # zs) = takeWhile snd ys" by (rule takeWhile_some)
    then have "unat (first_free B) \<le> unat (at (block B) (span ys))"
      using b(4,5) span_takeWhile [of snd ys] unat_at [of "block B" "span ys"] unat_at [of "block B" "span (takeWhile snd ys)"] by simp
    then show False using assms(2) by (simp add: word_less_nat_alt)
  qed
  then have "takeWhile snd (ys @ (s, True) # zs) = ys @ takeWhile snd ((s, True) # zs)" by (rule takeWhile_all)
  moreover have "seg H (block B) (span ys) ((s, True) # zs)" using b(1) by (simp add: seg_append)
  ultimately show ?thesis
    using next_free_from [of H "block B" "span ys" "(s, True) # zs"] b(2,3,5) by simp
qed

lemma realloc_stays:
  assumes "heap_ok xss S" "(i, k, s) \<in> allocs xss" "roundSize (of_nat sz) = of_nat r" "r \<le> s" "r mod 8 = 0"
  shows "customRealloc mmap (pointer S (i, k, s)) (of_nat sz) S = Some (pointer S (i, k, s), S)"
proof -
  define B where "B = p_blocks S ! i"
  note P = pointer_block [OF assms(1,2)] and M = area_marks [OF assms(1,2)] and i = area_bounds(1) [OF assms(1,2)]
  obtain ys zs where xs: "xss ! i = ys @ (s, True) # zs" "k = span ys"
    using assms(2) used_from_split [of k s 0 "xss ! i"] by (auto simp: allocs_def)
  have b: "block_ok (marks S) B (ys @ (s, True) # zs)" using heap_ok_nth [OF assms(1) i] xs by (simp add: B_def)
  then have l: "layout (marks S) (block B) (ys @ (s, True) # zs)" "s < 2 ^ 31" "maxfree B = of_nat (max_free (ys @ (s, True) # zs))"
    "first_free B = at (block B) (span (takeWhile snd (ys @ (s, True) # zs)))"
    by (simp_all add: block_ok_def layout_def)
  have "r mod 4 = 0" using assms(5) by presburger
  then have e: "expandBlock (marks S) (at (block B) k) (of_nat r) = (True, marks S)"
    using M align_4 [of r] assms(4) l(2) by (simp add: expandBlock_used B_def of_nat_le_u32)
  have n: "getNextFreeBlock (marks S) (at (block B) k) = Some (first_free B)" if "at (block B) k < first_free B"
    using next_free_behind [OF b] that by (simp add: xs(2))
  have m: "getMaxFreeBlock (marks S) (block B) (block_size B) (first_free B) = Some (maxfree B)"
    using getMaxFreeBlock_max [OF l(1)] by (simp only: l(3,4))
  have "(p_blocks S)[i := B] = p_blocks S" by (simp add: B_def)
  moreover have "S\<lparr>p_blocks := p_blocks S, marks := marks S\<rparr> = S" by simp
  ultimately show ?thesis
    using P e n m unfolding customRealloc_def Let_def assms(3) by (simp flip: B_def)
qed

lemma memcpy_area:
  assumes "unat q + n \<le> 2 ^ 32" "n < 2 ^ 32"
  shows "j < n \<Longrightarrow> memcpy q p (of_nat n) M (q + of_nat j) = M (p + of_nat j)"
    and "unat a < unat q \<or> unat q + n \<le> unat a \<Longrightarrow> memcpy q p (of_nat n) M a = M a"
proof -
  show "j < n \<Longrightarrow> memcpy q p (of_nat n) M (q + of_nat j) = M (p + of_nat j)"
    using assms by (simp add: memcpy_def of_nat_less_u32)
  show "unat a < unat q \<or> unat q + n \<le> unat a \<Longrightarrow> memcpy q p (of_nat n) M a = M a"
    using in_area [OF assms, of a] by (auto simp: memcpy_def)
qed

lemma heap_ok_bytes: "heap_ok xss (S\<lparr>bytes := M\<rparr>) = heap_ok xss S"
  by (simp add: heap_ok_def)

lemma pointer_bytes [simp]: "pointer (S\<lparr>bytes := M\<rparr>) x = pointer S x"
  by (cases x) (simp add: pointer_def)

lemma contents_memcpy:
  assumes "heap_ok xss S" "(i, k, t) \<in> allocs xss" "(j, l, s) \<in> allocs xss" "(j, l, s) \<noteq> (i, k, t)" "s \<le> t"
  defines "S' \<equiv> S\<lparr>bytes := memcpy (pointer S (i, k, t)) (pointer S (j, l, s)) (of_nat s) (bytes S)\<rparr>"
  shows "take s (contents S' (i, k, t)) = contents S (j, l, s)"
    and "z \<in> allocs xss \<Longrightarrow> z \<noteq> (i, k, t) \<Longrightarrow> contents S' z = contents S z"
proof -
  define b c where "b = block (p_blocks S ! i)" and "c = block (p_blocks S ! j)"
  note B = area_bounds [OF assms(1,2)]
  have q: "unat (at b (k + 8)) = unat b + k + 8" using area_unat [OF assms(1,2), of 0] by (simp add: b_def)
  have r: "unat (at b (k + 8)) + s \<le> 2 ^ 32" "s < 2 ^ 32" using q B assms(5) by (simp_all add: b_def)
  note M = memcpy_area [OF r]
  have P: "pointer S (i, k, t) = at b (k + 8)" "pointer S (j, l, s) = at c (l + 8)" by (simp_all add: pointer_def b_def c_def)
  have "bytes S' (at b (k + 8 + m)) = bytes S (at c (l + 8 + m))" if "m < s" for m
    using M(1) [OF that, of "at c (l + 8)" "bytes S"] by (simp add: S'_def P at_def add.assoc)
  then show "take s (contents S' (i, k, t)) = contents S (j, l, s)"
    using assms(5) by (auto simp: contents_def take_map b_def c_def S'_def intro!: map_cong)
  assume z: "z \<in> allocs xss" "z \<noteq> (i, k, t)"
  obtain a m u where x: "z = (a, m, u)" by (cases z)
  have "bytes S' (at (block (p_blocks S ! a)) (m + 8 + d)) = bytes S (at (block (p_blocks S ! a)) (m + 8 + d))" if "d < u" for d
  proof -
    have "unat (at (block (p_blocks S ! a)) (m + 8 + d)) = unat (block (p_blocks S ! a)) + m + 8 + d"
      using area_unat [OF assms(1) z(1) [unfolded x], of d] that by simp
    then have "unat (at (block (p_blocks S ! a)) (m + 8 + d)) < unat (at b (k + 8)) \<or>
        unat (at b (k + 8)) + s \<le> unat (at (block (p_blocks S ! a)) (m + 8 + d))"
      using areas_disjoint [OF assms(1,2) z(1) [unfolded x]] z(2) q assms(5) that unfolding x b_def by auto
    from M(2) [OF this] show ?thesis by (simp add: S'_def P)
  qed
  then show "contents S' z = contents S z" by (simp add: contents_def x S'_def)
qed

lemma realloc_moves:
  assumes "heap_ok xss S" "x \<in> allocs xss" "0 < sz" "sz \<le> 2 ^ 30 - 112" "n = max 65536 (rounded sz + 16)" "fresh_area S (mmap (of_nat n)) n"
  shows "\<exists>q S' xss' y. customRealloc mmap (pointer S x) (of_nat sz) S = Some (q, S') \<and> heap_ok xss' S' \<and> q = pointer S' y \<and>
    sz \<le> length (contents S' y) \<and> (y = x \<or> y \<notin> allocs xss) \<and> allocs xss' = insert y (allocs xss - {x}) \<and>
    take (length (contents S x)) (contents S' y) = contents S x \<and>
    (\<forall>z \<in> allocs xss - {x}. pointer S' z = pointer S z \<and> contents S' z = contents S z)"
proof -
  obtain i k s where x: "x = (i, k, s)" by (cases x)
  have a: "(i, k, s) \<in> allocs xss" using assms(2) x by simp
  have rs: "roundSize (of_nat sz) = of_nat (rounded sz)" using assms(3,4) by (intro roundSize_rounded) simp_all
  show ?thesis
  proof (cases "rounded sz \<le> s")
    case True
    have "insert x (allocs xss - {x}) = allocs xss" using assms(2) by blast
    then show ?thesis
      using realloc_stays [OF assms(1) a rs True rounded_8] rounded_bounds(2) [of sz] True assms(1)
      by (intro exI [of _ "pointer S x"] exI [of _ S] exI [of _ xss] exI [of _ x]) (simp add: x)
  next
    case False
    have r: "0 < rounded sz" "rounded sz \<le> 2 ^ 30" "n = max 65536 (rounded (rounded sz) + 16)"
      using rounded_bounds [of sz] assms(3-5) by (simp_all add: rounded_idem)
    from malloc_adds [where mmap = mmap and n = n, OF assms(1) r assms(6)] obtain q S1 xss1 y where
      S1: "customMalloc mmap (of_nat (rounded sz)) S = Some (q, S1)" "heap_ok xss1 S1" "q = pointer S1 y"
        "rounded sz \<le> length (contents S1 y)" "y \<notin> allocs xss" "allocs xss1 = insert y (allocs xss)"
        "\<forall>z \<in> allocs xss. pointer S1 z = pointer S z \<and> contents S1 z = contents S z" by blast
    obtain j l t where y: "y = (j, l, t)" by (cases y)
    have in1: "(j, l, t) \<in> allocs xss1" "(i, k, s) \<in> allocs xss1" "(i, k, s) \<noteq> (j, l, t)" "s \<le> t"
      using S1(4-6) a y False by auto
    define S2 where "S2 = S1\<lparr>bytes := memcpy q (pointer S1 x) (of_nat s) (bytes S1)\<rparr>"
    note C = contents_memcpy [OF S1(2) in1, folded x y, folded S1(3), folded S2_def]
    have ok2: "heap_ok xss1 S2" using S1(2) by (simp add: S2_def heap_ok_bytes)
    have "x \<in> allocs xss1" using S1(6) assms(2) by simp
    from free_removes [OF ok2 this] obtain xss2 where
      S3: "heap_ok xss2 (customFree (pointer S2 x) S2)" "allocs xss2 = allocs xss1 - {x}"
        "\<forall>z. pointer (customFree (pointer S2 x) S2) z = pointer S2 z \<and> contents (customFree (pointer S2 x) S2) z = contents S2 z" by blast
    have px: "pointer S2 x = pointer S x" "pointer S1 x = pointer S x" using S1(7) assms(2) by (simp_all add: S2_def)
    have "rounded sz mod 4 = 0" using rounded_8 [of sz] by presburger
    then have "expandBlock (marks S) (at (block (p_blocks S ! i)) k) (of_nat (rounded sz)) = (False, marks S)"
      using area_marks [OF assms(1) a] align_4 [of "rounded sz"] False r(2) area_bounds [OF assms(1) a]
      by (simp add: expandBlock_used of_nat_le_u32)
    moreover have "sizeBlock (marks S1) (at (block (p_blocks S ! i)) k) = of_nat s"
    proof -
      have "at (block (p_blocks S1 ! i)) k = pointer S1 x - SIZEOF_MARK" "at (block (p_blocks S ! i)) k = pointer S x - SIZEOF_MARK"
        by (simp_all add: pointer_def x at_def SIZEOF_MARK_def)
      then show ?thesis using area_marks(2) [OF S1(2) in1(2)] by (simp add: px sizeBlock_def)
    qed
    ultimately have "customRealloc mmap (pointer S x) (of_nat sz) S = Some (q, customFree (pointer S x) S2)"
      using pointer_block [OF assms(1) a] S1(1) px
      unfolding customRealloc_def Let_def rs x S2_def by simp
    moreover have "allocs xss2 = insert y (allocs xss - {x})" using S3(2) S1(6) in1(3) x y by auto
    moreover define F where "F = customFree (pointer S x) S2"
    have F: "pointer F z = pointer S1 z" "contents F z = contents S2 z" for z
    proof -
      have "pointer S2 z = pointer S1 z" by (simp add: S2_def)
      then show "pointer F z = pointer S1 z" "contents F z = contents S2 z"
        using S3(3) [rule_format, of z] unfolding px(1) F_def by simp_all
    qed
    have "q = pointer F y" "sz \<le> length (contents F y)"
      using S1(3,4) rounded_bounds(2) [of sz] by (simp_all add: F y)
    moreover have "take (length (contents S x)) (contents F y) = contents S x"
      using C(1) S1(7) assms(2) by (simp add: F x)
    moreover have "pointer F z = pointer S z \<and> contents F z = contents S z" if "z \<in> allocs xss" for z
      using C(2) [of z] S1(5-7) that by (metis F insertCI)
    moreover have "heap_ok xss2 F" using S3(1) px by (simp add: F_def)
    ultimately show ?thesis
      using S1(5) unfolding F_def [symmetric] by blast
  qed
qed

end
