(* ===== verification/HeapSpec.thy ===== *)
theory HeapSpec
  imports CustomHeap
begin

text \<open>
  The allocator as a map from the pointers in use to the bytes behind them. Taking an area adds a pointer that was
  not there, giving one back removes it, and no other area changes; reallocation moves the bytes along.
  The first block of the heap comes from \<open>mmap\<close>, as every later one does.
\<close>

section \<open>The abstract heap\<close>

type_synonym aheap = "u32 \<Rightarrow> u8 list option"

definition heap_rep :: "aheap \<Rightarrow> cheap \<Rightarrow> bool" where
  "heap_rep A S = (\<exists>xss. heap_ok xss S \<and> (\<forall>p cs. A p = Some cs \<longleftrightarrow> (\<exists>x \<in> allocs xss. pointer S x = p \<and> contents S x = cs)))"

lemma heap_repE:
  assumes "heap_rep A S"
  obtains xss where "heap_ok xss S" "\<And>x. x \<in> allocs xss \<Longrightarrow> A (pointer S x) = Some (contents S x)"
    "\<And>p cs. A p = Some cs \<Longrightarrow> \<exists>x \<in> allocs xss. p = pointer S x \<and> cs = contents S x"
  using assms unfolding heap_rep_def by metis

lemma heap_repI:
  assumes "heap_ok xss S" "\<And>x. x \<in> allocs xss \<Longrightarrow> A (pointer S x) = Some (contents S x)"
    "\<And>p cs. A p = Some cs \<Longrightarrow> \<exists>x \<in> allocs xss. p = pointer S x \<and> cs = contents S x"
  shows "heap_rep A S"
  unfolding heap_rep_def using assms by (metis option.inject)

text \<open>A new area: its pointer is new, and it overlaps no other.\<close>

lemma areas_apart:
  assumes "heap_ok xss S" "x \<in> allocs xss" "y \<in> allocs xss" "x \<noteq> y"
  shows "apart (pointer S x) (length (contents S x)) (pointer S y) (length (contents S y))"
proof -
  obtain i k s where x: "x = (i, k, s)" by (cases x)
  obtain j l t where y: "y = (j, l, t)" by (cases y)
  show ?thesis
    using areas_disjoint [of xss S i k s j l t] area_unat [of xss S i k s 0] area_unat [of xss S j l t 0] assms
    by (auto simp: x y apart_def pointer_def)
qed

lemma heap_rep_replace:
  assumes "heap_ok xss S" "\<And>x. x \<in> allocs xss \<Longrightarrow> A (pointer S x) = Some (contents S x)"
    and "\<And>p cs. A p = Some cs \<Longrightarrow> \<exists>x \<in> allocs xss. p = pointer S x \<and> cs = contents S x"
    and "heap_ok xss' S'" "allocs xss' = insert y (allocs xss - D)" "D \<subseteq> allocs xss" "y \<in> D \<or> y \<notin> allocs xss"
    and "\<forall>z \<in> allocs xss - D. pointer S' z = pointer S z \<and> contents S' z = contents S z"
  shows "heap_rep ((\<lambda>p. if p \<in> pointer S ` D then None else A p)(pointer S' y \<mapsto> contents S' y)) S'"
proof (rule heap_repI [OF assms(4)])
  fix x
  assume x: "x \<in> allocs xss'"
  show "((\<lambda>p. if p \<in> pointer S ` D then None else A p)(pointer S' y \<mapsto> contents S' y)) (pointer S' x) = Some (contents S' x)"
  proof (cases "x = y")
    case False
    then have z: "x \<in> allocs xss" "x \<notin> D" using x assms(5) by auto
    have "pointer S' x \<noteq> pointer S' y" using pointer_inj [OF assms(4) x, of y] False assms(5) by blast
    moreover have "pointer S x \<notin> pointer S ` D" using pointer_inj [OF assms(1) z(1)] z(2) assms(6) by blast
    ultimately show ?thesis using assms(2) [OF z(1)] assms(8) z by simp
  qed simp
next
  fix p cs
  assume p: "((\<lambda>p. if p \<in> pointer S ` D then None else A p)(pointer S' y \<mapsto> contents S' y)) p = Some cs"
  show "\<exists>x \<in> allocs xss'. p = pointer S' x \<and> cs = contents S' x"
  proof (cases "p = pointer S' y")
    case True
    then show ?thesis using p assms(5) by auto
  next
    case False
    then have "A p = Some cs" "p \<notin> pointer S ` D" using p by (auto split: if_splits)
    from assms(3) [OF this(1)] this(2) obtain x where "x \<in> allocs xss - D" "p = pointer S x" "cs = contents S x" by blast
    then show ?thesis using assms(5,8) by auto
  qed
qed

text \<open>C33. If the heap represents a map from the pointers in use to the bytes behind them, then \<open>customMalloc\<close> returns,
  whatever the layout of the blocks: the pointer is not one in use, the area behind it has at least the size asked for and
  overlaps no area in use, and the new heap represents the map with that pointer added, no other byte in use changed.
  The size is between 1 and 2 to the 30 (a size of 0 breaks the marks and a size near 2 to the 32 wraps, see
  \<open>empty_free_hides\<close> and \<open>roundSize_wraps\<close>), and the area that \<open>mmap\<close> would give for a new block must not be in use.
\<close>

theorem customMalloc_refines:
  assumes "heap_rep A S" "0 < sz" "sz \<le> 2 ^ 30" "n = max 65536 (rounded sz + 16)" "fresh_area S (mmap (of_nat n)) n"
  shows "\<exists>q S' cs. customMalloc mmap (of_nat sz) S = Some (q, S') \<and> A q = None \<and> sz \<le> length cs \<and>
    (\<forall>p ds. A p = Some ds \<longrightarrow> apart q (length cs) p (length ds)) \<and> heap_rep (A(q \<mapsto> cs)) S'"
proof -
  from assms(1) obtain xss where S: "heap_ok xss S" "\<And>x. x \<in> allocs xss \<Longrightarrow> A (pointer S x) = Some (contents S x)"
    "\<And>p cs. A p = Some cs \<Longrightarrow> \<exists>x \<in> allocs xss. p = pointer S x \<and> cs = contents S x" by (rule heap_repE) blast
  from malloc_adds [where mmap = mmap and n = n, OF S(1) assms(2-5)] obtain q S' xss' y where
    M: "customMalloc mmap (of_nat sz) S = Some (q, S')" "heap_ok xss' S'" "q = pointer S' y" "sz \<le> length (contents S' y)"
      "y \<notin> allocs xss" "allocs xss' = insert y (allocs xss)"
      "\<forall>z \<in> allocs xss. pointer S' z = pointer S z \<and> contents S' z = contents S z" by blast
  have "heap_rep (A(q \<mapsto> contents S' y)) S'"
    using heap_rep_replace [OF S M(2), of y "{}"] M(3,5-7) by simp
  moreover have "apart q (length (contents S' y)) p (length ds) \<and> p \<noteq> q" if h: "A p = Some ds" for p ds
  proof -
    obtain x where x: "x \<in> allocs xss" "p = pointer S x" "ds = contents S x" using S(3) [OF h] by blast
    then have "x \<in> allocs xss'" "y \<in> allocs xss'" "y \<noteq> x" using M(5,6) by auto
    then show ?thesis
      using areas_apart [OF M(2)] pointer_inj [OF M(2)] x M(3,7) by metis
  qed
  ultimately show ?thesis using M(1,4) by (metis not_Some_eq)
qed

text \<open>C34. If the heap represents a map from the pointers in use to the bytes behind them, then \<open>customFree\<close> of one of them
  leaves a heap that represents the map without it: no other area moves or changes.
\<close>

theorem customFree_refines:
  assumes "heap_rep A S" "A p \<noteq> None"
  shows "heap_rep (A(p := None)) (customFree p S)"
proof -
  from assms(1) obtain xss where S: "heap_ok xss S" "\<And>x. x \<in> allocs xss \<Longrightarrow> A (pointer S x) = Some (contents S x)"
    "\<And>p cs. A p = Some cs \<Longrightarrow> \<exists>x \<in> allocs xss. p = pointer S x \<and> cs = contents S x" by (rule heap_repE) blast
  obtain x where x: "x \<in> allocs xss" "p = pointer S x" using assms(2) S(3) by blast
  from free_removes [OF S(1) x(1)] obtain xss' where
    F: "heap_ok xss' (customFree p S)" "allocs xss' = allocs xss - {x}"
      "\<forall>y. pointer (customFree p S) y = pointer S y \<and> contents (customFree p S) y = contents S y" unfolding x(2) by blast
  show ?thesis
  proof (rule heap_repI [OF F(1)])
    fix y
    assume "y \<in> allocs xss'"
    then have y: "y \<in> allocs xss" "pointer S y \<noteq> p" using F(2) pointer_inj [OF S(1) _ x(1), of y] x(2) by blast+
    then show "(A(p := None)) (pointer (customFree p S) y) = Some (contents (customFree p S) y)"
      using F(3) [rule_format, of y] S(2) [of y] by simp
  next
    fix q cs
    assume "(A(p := None)) q = Some cs"
    then have "A q = Some cs" "q \<noteq> p" by (auto split: if_splits)
    with S(3) obtain y where "y \<in> allocs xss" "q = pointer S y" "cs = contents S y" by blast
    moreover have "y \<noteq> x" using \<open>q \<noteq> p\<close> \<open>q = pointer S y\<close> x(2) by blast
    ultimately show "\<exists>y \<in> allocs xss'. q = pointer (customFree p S) y \<and> cs = contents (customFree p S) y"
      using F(2) F(3) [rule_format, of y] by (intro bexI [of _ y]) simp_all
  qed
qed

text \<open>C35. If the heap represents a map from the pointers in use to the bytes behind them, then \<open>customRealloc\<close> of one of them
  returns a pointer to an area of at least the new size that starts with the bytes of the old one, and
  leaves a heap that represents the map with the old pointer replaced by the new one, which may be the same.
  The size is between 1 and 2 to the 30 less 112 (a size of 0 breaks the marks and one near 2 to the 32 wraps), and the area
  that \<open>mmap\<close> would give for a new block must not be in use.
\<close>

theorem customRealloc_refines:
  assumes "heap_rep A S" "A p = Some cs" "0 < sz" "sz \<le> 2 ^ 30 - 112" "n = max 65536 (rounded sz + 16)" "fresh_area S (mmap (of_nat n)) n"
  shows "\<exists>q S' ds. customRealloc mmap p (of_nat sz) S = Some (q, S') \<and> sz \<le> length ds \<and> take (length cs) ds = cs \<and>
    (q = p \<or> A q = None) \<and> heap_rep ((A(p := None))(q \<mapsto> ds)) S'"
proof -
  from assms(1) obtain xss where S: "heap_ok xss S" "\<And>x. x \<in> allocs xss \<Longrightarrow> A (pointer S x) = Some (contents S x)"
    "\<And>p cs. A p = Some cs \<Longrightarrow> \<exists>x \<in> allocs xss. p = pointer S x \<and> cs = contents S x" by (rule heap_repE) blast
  obtain x where x: "x \<in> allocs xss" "p = pointer S x" "cs = contents S x" using S(3) [OF assms(2)] by blast
  obtain q S' xss' y where
    M: "customRealloc mmap p (of_nat sz) S = Some (q, S')" "heap_ok xss' S'" "q = pointer S' y" "sz \<le> length (contents S' y)"
      "y = x \<or> y \<notin> allocs xss" "allocs xss' = insert y (allocs xss - {x})" "take (length cs) (contents S' y) = cs"
      "\<forall>z \<in> allocs xss - {x}. pointer S' z = pointer S z \<and> contents S' z = contents S z"
  proof -
    from realloc_moves [where mmap = mmap and n = n, OF S(1) x(1) assms(3-6), folded x(2,3)] show thesis
      by (elim exE conjE) (rule that)
  qed
  have D: "(\<lambda>r. if r \<in> pointer S ` {x} then None else A r) = A(p := None)" using x(2) by (simp add: fun_eq_iff)
  have "heap_rep ((A(p := None))(q \<mapsto> contents S' y)) S'"
    using heap_rep_replace [where D = "{x}", OF S M(2,6) _ _ M(8)] x(1) M(5) unfolding D M(3) by blast
  moreover have "q = p \<or> A q = None"
  proof (rule ccontr)
    assume "\<not> (q = p \<or> A q = None)"
    then obtain es where q: "q \<noteq> p" "A q = Some es" by blast
    then obtain z where z: "z \<in> allocs xss" "q = pointer S z" using S(3) by blast
    then have "z \<in> allocs xss - {x}" using q(1) x(2) by blast
    then have "z = y" using pointer_inj [OF M(2), of z y] M(3,6,8) z(2) by simp
    then show False using z q(1) x(2) M(5) by blast
  qed
  ultimately show ?thesis using M(1,4,7)
    by (intro exI [of _ q] exI [of _ S'] exI [of _ "contents S' y"]) simp
qed

section \<open>Witnesses\<close>

definition empty_heap :: cheap where
  "empty_heap = \<lparr>p_blocks = [], marks = \<lambda>_. \<lparr>prev_size = 0, prev_fill = False, next_size = 0, next_fill = False\<rparr>, bytes = \<lambda>_. 0\<rparr>"

lemma empty_heap_rep: "heap_rep Map.empty empty_heap"
  by (rule heap_repI [of "[]"]) (simp_all add: heap_ok_def empty_heap_def allocs_def)

text \<open>A heap of one block with one area of 112 bytes in use.\<close>

definition demo_heap :: cheap where
  "demo_heap = \<lparr>p_blocks = [\<lparr>block = 65536, maxfree = 65400, block_size = 65536, first_free = 65656\<rparr>],
     marks = (\<lambda>_. \<lparr>prev_size = 0, prev_fill = False, next_size = 0, next_fill = False\<rparr>)
       (65536 := \<lparr>prev_size = 0, prev_fill = False, next_size = 112, next_fill = True\<rparr>,
        65656 := \<lparr>prev_size = 112, prev_fill = True, next_size = 65400, next_fill = False\<rparr>,
        131064 := \<lparr>prev_size = 65400, prev_fill = False, next_size = 0, next_fill = False\<rparr>),
     bytes = (\<lambda>_. 0)\<rparr>"

lemma demo_heap_ok: "heap_ok [[(112, True), (65400, False)]] demo_heap"
  by (simp add: heap_ok_def demo_heap_def block_ok_def layout_def coalesced_def at_def prev_x32_def next_x32_def max_free_def)

lemma demo_heap_allocs: "allocs [[(112, True), (65400, False)]] = {(0, 0, 112)}"
  by (auto simp: allocs_def)

lemma demo_heap_rep: "heap_rep [65544 \<mapsto> replicate 112 0] demo_heap"
  by (rule heap_repI [OF demo_heap_ok])
    (auto simp: demo_heap_allocs pointer_def contents_def demo_heap_def at_def map_replicate_const split: if_splits)

theorem customMalloc_refines_witness:
  "\<exists>q S' cs. customMalloc (\<lambda>_. 1048576) 2000 demo_heap = Some (q, S') \<and> q \<noteq> 65544 \<and> 2000 \<le> length cs \<and>
    apart q (length cs) 65544 112 \<and> heap_rep ([65544 \<mapsto> replicate 112 0, q \<mapsto> cs]) S'"
  using customMalloc_refines [of "[65544 \<mapsto> replicate 112 0]" demo_heap 2000 65536 "\<lambda>_. 1048576", OF demo_heap_rep]
  by (fastforce simp: fresh_area_def demo_heap_def rounded_def apart_def split: if_splits)

theorem customFree_refines_witness: "heap_rep Map.empty (customFree 65544 demo_heap)"
  using customFree_refines [OF demo_heap_rep, of 65544] by simp

theorem customRealloc_refines_witness:
  "\<exists>q S' ds. customRealloc (\<lambda>_. 1048576) 65544 500 demo_heap = Some (q, S') \<and> 500 \<le> length ds \<and>
    take 112 ds = replicate 112 0 \<and> heap_rep ((Map.empty)(q \<mapsto> ds)) S'"
  using customRealloc_refines [OF demo_heap_rep, of 65544 "replicate 112 0" 500 65536 "\<lambda>_. 1048576"]
  by (fastforce simp: fresh_area_def demo_heap_def rounded_def apart_def)

end
