(* ===== verification/RbHeap.thy ===== *)
theory RbHeap
  imports RbUnset HeapSpec
begin

text \<open>
  The tree of \<open>Rbtree\<close> on the allocator of \<open>CustomMem\<close>, as the source builds it: \<open>rbtreeMalloc\<close> is \<open>customMalloc\<close> of a node and
  \<open>rbtreeFree\<close> is \<open>customFree\<close>. The contract \<open>node_allocator\<close> holds while a block has room, and with it what the
  range operations promise.
\<close>

section \<open>The areas of a heap\<close>

lemma seg_unique:
  assumes "seg H b k xs" "seg H b k ys" "span xs = span ys" "span xs < 2 ^ 31"
  shows "xs = ys"
  using assms
proof (induction xs arbitrary: k ys)
  case Nil
  then show ?case by (cases ys) auto
next
  case (Cons x xs)
  then obtain y zs where y: "ys = y # zs" by (cases ys) (auto simp: span_def split: prod.splits)
  obtain s f where x: "x = (s, f)" by force
  obtain t g where y': "y = (t, g)" by force
  have "(of_nat s :: 31 word) = of_nat t" "f = g" using Cons.prems(1,2) y x y' by auto
  moreover have "s < 2 ^ 31" "t < 2 ^ 31" using Cons.prems(3,4) y x y' by auto
  ultimately have "s = t" by (simp add: word_eq_iff_unsigned [where ?'a = nat] unsigned_of_nat take_bit_nat_eq_self)
  moreover have "xs = zs"
    by (rule Cons.IH [of "k + s + 8"]) (use Cons.prems y x y' \<open>s = t\<close> in auto)
  ultimately show ?case using y x y' \<open>f = g\<close> by simp
qed

lemma heap_ok_unique:
  assumes "heap_ok xss S" "heap_ok yss S"
  shows "xss = yss"
proof (rule nth_equalityI)
  show "length xss = length yss" using heap_ok_length [OF assms(1)] heap_ok_length [OF assms(2)] by simp
  fix i
  assume i: "i < length xss"
  then have i': "i < length yss" using \<open>length xss = length yss\<close> by simp
  note b = heap_ok_nth [OF assms(1) i] heap_ok_nth [OF assms(2) i']
  have sp: "span (xss ! i) = span (yss ! i)" using block_size_nat [OF b(1)] block_size_nat [OF b(2)] by simp
  show "xss ! i = yss ! i"
    by (rule seg_unique [OF _ _ sp, of "marks S" "block (p_blocks S ! i)" 0]) (use b in \<open>simp_all add: block_ok_def layout_def\<close>)
qed

text \<open>The pointers in use, and the room for \<open>n\<close> more nodes in one free sub-block.\<close>

definition heap_live :: "cheap \<Rightarrow> u32 set" where
  "heap_live S = {p. \<exists>xss. heap_ok xss S \<and> p \<in> pointer S ` allocs xss}"

definition heap_ready :: "nat \<Rightarrow> cheap \<Rightarrow> bool" where
  "heap_ready n S \<longleftrightarrow> (\<exists>xss. heap_ok xss S \<and> (\<exists>xs \<in> set xss. \<exists>u. (u, False) \<in> set xs \<and> 256 * n \<le> u) \<or> (n = 0 \<and> heap_ok xss S))"

lemma heap_live: "heap_ok xss S \<Longrightarrow> heap_live S = pointer S ` allocs xss"
  using heap_ok_unique by (auto simp: heap_live_def)

lemma heap_live_0: "heap_ok xss S \<Longrightarrow> 0 \<notin> heap_live S"
proof
  assume h: "heap_ok xss S" "0 \<in> heap_live S"
  then obtain i k s where "(i, k, s) \<in> allocs xss" "pointer S (i, k, s) = 0" by (auto simp: heap_live)
  then show False using pointer_block(2) [OF h(1)] by simp
qed

lemma heap_malloc:
  assumes "heap_ready (Suc n) S" "0 < sz" "sz \<le> 112"
  shows "\<exists>p S'. customMalloc mmap (of_nat sz) S = Some (p, S') \<and> heap_ready n S' \<and> p \<noteq> 0 \<and> p \<notin> heap_live S \<and> heap_live S' = insert p (heap_live S)"
proof -
  obtain xss xs u where S: "heap_ok xss S" "xs \<in> set xss" "(u, False) \<in> set xs" "256 * Suc n \<le> u"
    using assms(1) by (auto simp: heap_ready_def)
  have r: "roundSize (of_nat sz) = of_nat 112" using roundSize_rounded [of sz] assms(2,3) by (simp add: rounded_def)
  have "first_fit 112 0 xs \<noteq> None" using S(3,4) by (auto simp: first_fit_None)
  moreover have "list_all2 (block_ok (marks S)) (p_blocks S) xss" using S(1) by (simp add: heap_ok_def)
  ultimately obtain i k s where f: "i < length xss" "first_fit 112 0 (xss ! i) = Some (k, s)"
    "find_fit (marks S) (of_nat 112) 0 (p_blocks S) = Some (Some (i, at (block (p_blocks S ! i)) k, of_nat s))"
    using find_fit_finds [of "marks S" "p_blocks S" xss 112 0] S(2) by auto
  from malloc_fit [where mmap = mmap and r = 112, OF S(1) _ _ f(1,2) f(3) [folded r] r] obtain p S' xss' t where
    m: "customMalloc mmap (of_nat sz) S = Some (p, S')" "heap_ok xss' S'" "p = pointer S' (i, k, t)" "(i, k, t) \<notin> allocs xss"
      "allocs xss' = insert (i, k, t) (allocs xss)" "\<forall>x \<in> allocs xss. pointer S' x = pointer S x" "room_kept 112 xss xss'" by auto
  have l: "heap_live S' = insert p (heap_live S)" using m(3,5,6) heap_live [OF m(2)] heap_live [OF S(1)] by auto
  have "p \<notin> heap_live S"
  proof
    assume "p \<in> heap_live S"
    then obtain x where x: "x \<in> allocs xss" "p = pointer S x" unfolding heap_live [OF S(1)] by blast
    then have "pointer S' x = pointer S' (i, k, t)" "x \<in> allocs xss'" "(i, k, t) \<in> allocs xss'" using m(3,5,6) by auto
    then have "x = (i, k, t)" using pointer_inj [OF m(2)] by blast
    then show False using x(1) m(4) by blast
  qed
  moreover have "p \<noteq> 0" using heap_live_0 [OF m(2)] l by auto
  moreover obtain ys w where "ys \<in> set xss'" "(w, False) \<in> set ys" "u \<le> w + 120"
    using m(7) S(2-4) unfolding room_kept_def by fastforce
  then have "heap_ready n S'" using m(2) S(4) unfolding heap_ready_def by (intro exI [of _ xss']) force
  ultimately show ?thesis using m(1) l by blast
qed

lemma heap_free:
  assumes "heap_ready n S" "p \<in> heap_live S"
  shows "heap_ready n (customFree p S)" "heap_live (customFree p S) = heap_live S - {p}"
proof -
  obtain xss where S: "heap_ok xss S" "(\<exists>xs \<in> set xss. \<exists>u. (u, False) \<in> set xs \<and> 256 * n \<le> u) \<or> n = 0"
    using assms(1) unfolding heap_ready_def by blast
  obtain x where x: "x \<in> allocs xss" "p = pointer S x" using assms(2) heap_live [OF S(1)] by auto
  from free_removes [OF S(1) x(1), folded x(2)] obtain xss' where
    f: "heap_ok xss' (customFree p S)" "allocs xss' = allocs xss - {x}" "\<forall>y. pointer (customFree p S) y = pointer S y"
      "\<forall>xs \<in> set xss. \<forall>u. (u, False) \<in> set xs \<longrightarrow> (\<exists>ys \<in> set xss'. \<exists>w. (w, False) \<in> set ys \<and> u \<le> w)" by blast
  show "heap_ready n (customFree p S)"
  proof (cases "n = 0")
    case True
    then show ?thesis using f(1) by (auto simp: heap_ready_def)
  next
    case False
    then obtain ys w where "ys \<in> set xss'" "(w, False) \<in> set ys" "256 * n \<le> w" using S(2) f(4) by (meson order_trans)
    then show ?thesis using f(1) unfolding heap_ready_def by blast
  qed
  have "inj_on (pointer S) (allocs xss)" using pointer_inj [OF S(1)] by (auto intro: inj_onI)
  then have "pointer S ` (allocs xss - {x}) = pointer S ` allocs xss - {p}"
    using x by (simp add: inj_on_image_set_diff [of _ "allocs xss"])
  moreover have "pointer (customFree p S) = pointer S" using f(3) by blast
  ultimately show "heap_live (customFree p S) = heap_live S - {p}"
    unfolding heap_live [OF f(1)] heap_live [OF S(1)] f(2) by simp
qed

section \<open>The tree on the heap\<close>

text \<open>A node takes 28 bytes: three pointers, two addresses, the value and the flags.\<close>

definition SIZEOF_RBNODE :: u32 where "SIZEOF_RBNODE = 28"

definition custom_allocator :: "(u32 \<Rightarrow> u32) \<Rightarrow> cheap allocator" where
  "custom_allocator mmap = \<lparr>rbtreeMalloc = customMalloc mmap SIZEOF_RBNODE, rbtreeFree = customFree\<rparr>"

interpretation box_heap: node_allocator "custom_allocator mmap" heap_live heap_ready False
proof
  fix n a
  assume "heap_ready (Suc n) a"
  then show "\<exists>p a'. rbtreeMalloc (custom_allocator mmap) a = Some (p, a') \<and> heap_ready n a' \<and>
      (p = 0 \<and> False \<and> heap_live a' = heap_live a \<or> p \<noteq> 0 \<and> p \<notin> heap_live a \<and> heap_live a' = insert p (heap_live a))"
    using heap_malloc [of n a 28 mmap] by (auto simp: custom_allocator_def SIZEOF_RBNODE_def)
  from \<open>heap_ready (Suc n) a\<close> show "heap_ready n a" unfolding heap_ready_def by fastforce
next
  fix n a p
  assume "heap_ready n a" "p \<in> heap_live a"
  then show "heap_ready n (rbtreeFree (custom_allocator mmap) p a) \<and> heap_live (rbtreeFree (custom_allocator mmap) p a) = heap_live a - {p}"
    using heap_free by (simp add: custom_allocator_def)
qed

end
