(* ===== verification/RangeMap.thy ===== *)
theory RangeMap
  imports RbHeap
begin

text \<open>
  The interval tree of \<open>tools/rbtree.c\<close> as its callers see it: a map from addresses to values, on the allocator of the program. Every
  operation returns, never follows a null or freed pointer, and keeps the tree a red-black tree of disjoint ranges.
\<close>

text \<open>\<open>s\<close> is a well-formed tree with the ranges \<open>xs\<close>, beside other areas \<open>R\<close>, on a heap with room for \<open>n\<close> nodes.\<close>

definition range_tree :: "nat \<Rightarrow> u32 set \<Rightarrow> cheap rbstate \<Rightarrow> entry list \<Rightarrow> bool" where
  "range_tree n R s xs \<longleftrightarrow> repr heap_live heap_ready n R s xs \<and> ranges xs"

lemma range_tree_holds: "range_tree n R s xs \<Longrightarrow> holds s xs \<and> ranges xs"
  by (simp add: range_tree_def repr_def)

lemma result_range_tree: "result heap_live heap_ready False n R m r s \<longleftrightarrow> r = 0 \<and> (\<exists>xs. range_tree n R s xs \<and> content xs = m)"
  by (auto simp: result_def range_tree_def)

text \<open>C36. \<open>rb_set\<close> overwrites a range of addresses with a value, whatever ranges the tree holds: the range may extend, cut, split, replace or
  join them. It returns 0, and the tree it leaves is a red-black tree of disjoint ranges again that represents the old map with the range
  overwritten, on a heap with room for two nodes less.
\<close>

theorem rb_set_refines:
  assumes "range_tree (Suc (Suc n)) R s xs" "st < en"
  shows "\<exists>s' ys. rb_set (custom_allocator mmap) st en d s = Some (0, s') \<and> range_tree n R s' ys \<and>
    content ys = overwrite st en (Some d) (content xs)"
  using box_heap.rb_set_sets [of n R s xs st en mmap d] assms unfolding result_range_tree by (auto simp: range_tree_def)

text \<open>C37. \<open>rb_unset\<close> clears a range of addresses, with one exception: an entry that starts before the range and ends inside it is not cut. It
  returns 0 and leaves a red-black tree of disjoint ranges again.
\<close>

theorem rb_unset_refines:
  assumes "range_tree (Suc n) R s xs" "st < en"
  shows "\<exists>s' ys. rb_unset (custom_allocator mmap) st en s = Some (0, s') \<and> range_tree n R s' ys \<and>
    (\<forall>a. content ys a = (if st \<le> a \<and> a < en \<and> \<not> (\<exists>x \<in> set xs. first x < st \<and> a < bound x \<and> bound x < en) then None else content xs a))"
proof -
  obtain s' ys where "rb_unset (custom_allocator mmap) st en s = Some (0, s')" "range_tree n R s' ys" "content ys = unset_range st en xs"
    using box_heap.rb_unset_unsets [of n R s xs st en mmap] assms unfolding result_range_tree by (auto simp: range_tree_def)
  moreover have "\<forall>a. unset_range st en xs a =
      (if st \<le> a \<and> a < en \<and> \<not> (\<exists>x \<in> set xs. first x < st \<and> a < bound x \<and> bound x < en) then None else content xs a)"
    by (auto simp: unset_range_def spared_def overwrite_def)
  ultimately show ?thesis by (intro exI [of _ s'] exI [of _ ys]) simp
qed

section \<open>Lookups\<close>

text \<open>What \<open>rb_get_end\<close> reports as the end is the end of the range, or of the gap, around the address.\<close>

lemma gap_end_covered: "ranges xs \<Longrightarrow> content xs a = Some d \<Longrightarrow> a < gap_end a e xs \<and> (\<forall>b. a \<le> b \<longrightarrow> b < gap_end a e xs \<longrightarrow> content xs b = Some d)"
proof (induction xs)
  case (Cons x xs)
  show ?case
  proof (cases "covers a x")
    case True
    then show ?thesis using Cons.prems by (auto simp: covers_def)
  next
    case False
    then have h: "ranges xs" "content xs a = Some d" using Cons.prems by simp_all
    then obtain y where y: "y \<in> set xs" "covers a y" using content_None [of xs a] by auto
    then have b: "bound x \<le> a" using Cons.prems(1) by (auto simp: covers_def)
    then have "\<not> a < first x" using Cons.prems(1) by (auto simp: not_less intro: order_trans less_imp_le)
    then show ?thesis using Cons.IH [OF h] b False by (auto simp: covers_def)
  qed
qed simp

lemma gap_end_free:
  assumes "ranges xs" "content xs a = None"
  shows "gap_end a e xs = e \<and> (\<forall>b. a \<le> b \<longrightarrow> content xs b = None) \<or>
    a < gap_end a e xs \<and> (\<forall>b. a \<le> b \<longrightarrow> b < gap_end a e xs \<longrightarrow> content xs b = None) \<and> content xs (gap_end a e xs) \<noteq> None"
  using assms
proof (induction xs)
  case (Cons x xs)
  then have n: "\<not> covers a x" "content xs a = None" "ranges xs" "first x < bound x" by (auto split: if_splits)
  show ?case
  proof (cases "a < first x")
    case True
    moreover have "content xs b = None" if "b < first x" for b
      using that Cons.prems(1) by (intro content_below) (auto intro: less_le_trans less_trans)
    ultimately show ?thesis using n by (auto simp: covers_def)
  next
    case False
    then have "bound x \<le> a" using n(1) by (auto simp: covers_def)
    then have "\<not> covers b x" if "a \<le> b" for b using that by (auto simp: covers_def)
    moreover have "\<not> covers (gap_end a e xs) x" if "a < gap_end a e xs" using that \<open>bound x \<le> a\<close> by (auto simp: covers_def)
    ultimately show ?thesis using Cons.IH [OF n(3,2)] n(1) False by auto
  qed
qed simp

text \<open>C39. The lookups agree with the map the tree represents. \<open>rb_get\<close> returns the value at an address, 0 where there is none.
  \<open>rb_get_end\<close> returns 1, the value and the end of a stretch of addresses with that value, or 0, 0 and the end of the gap around the address:
  the next address with a value, and the last address of all if there is none.
\<close>

theorem rb_lookups:
  assumes "range_tree n R s xs"
  shows "rb_get a s = Some (case content xs a of None \<Rightarrow> 0 | Some d \<Rightarrow> d) \<and>
    (\<exists>r d e. rb_get_end a s = Some (r, d, e) \<and>
      (case content xs a of
         Some v \<Rightarrow> r = 1 \<and> d = v \<and> a < e \<and> (\<forall>b. a \<le> b \<and> b < e \<longrightarrow> content xs b = Some v)
       | None \<Rightarrow> r = 0 \<and> d = 0 \<and> (e = - 1 \<and> (\<forall>b. a \<le> b \<longrightarrow> content xs b = None) \<or>
           a < e \<and> (\<forall>b. a \<le> b \<and> b < e \<longrightarrow> content xs b = None) \<and> content xs e \<noteq> None)))"
proof -
  have h: "holds s xs" "ranges xs" using range_tree_holds [OF assms] by simp_all
  have "rb_get a s = Some (case content xs a of None \<Rightarrow> 0 | Some d \<Rightarrow> d)" by (rule rb_get_content [OF h])
  moreover have "\<exists>r d e. rb_get_end a s = Some (r, d, e) \<and>
      (case content xs a of
         Some v \<Rightarrow> r = 1 \<and> d = v \<and> a < e \<and> (\<forall>b. a \<le> b \<and> b < e \<longrightarrow> content xs b = Some v)
       | None \<Rightarrow> r = 0 \<and> d = 0 \<and> (e = - 1 \<and> (\<forall>b. a \<le> b \<longrightarrow> content xs b = None) \<or>
           a < e \<and> (\<forall>b. a \<le> b \<and> b < e \<longrightarrow> content xs b = None) \<and> content xs e \<noteq> None))"
    using rb_get_end_content [OF h, of a] gap_end_covered [OF h(2), of a] gap_end_free [OF h(2), of a "- 1"]
    by (cases "content xs a") auto
  ultimately show ?thesis by blast
qed

section \<open>Depth\<close>

primrec height :: "ptree \<Rightarrow> nat" where
  "height Tip = 0"
| "height (Node b l x r) = Suc (max (height l) (height r))"

lemma height_bh: "ok t \<Longrightarrow> height t \<le> 2 * bh t + (if black t then 0 else 1)"
proof (induction t)
  case (Node b l x r)
  then have "height l \<le> 2 * bh l + (if black l then 0 else 1)" "height r \<le> 2 * bh l + (if black r then 0 else 1)" by auto
  then show ?case using Node.prems by (cases "black l"; cases "black r") auto
qed simp

lemma bh_length: "ok t \<Longrightarrow> 2 ^ bh t \<le> length (inorder t) + 1"
  by (induction t) auto

lemma height_log:
  assumes "wf_tree t" "length (inorder t) + 1 < 2 ^ Suc k"
  shows "height t \<le> 2 * k"
proof -
  have "(2::nat) ^ bh t < 2 ^ Suc k" using bh_length assms unfolding wf_tree_def by (meson le_less_trans)
  then have "bh t \<le> k" using power_less_imp_less_exp [of "2::nat" "bh t" "Suc k"] by simp
  then show ?thesis using height_bh [of t] assms(1) by (simp add: wf_tree_def)
qed

text \<open>The loop of \<open>find_addr\<close> cut off after a number of turns.\<close>

primrec find_within :: "nat \<Rightarrow> u32 \<Rightarrow> u32 \<Rightarrow> 'a rbtree_scheme \<Rightarrow> u32 option" where
  "find_within 0 addr node s = (if node = 0 then Some 0 else None)"
| "find_within (Suc k) addr node s = (if node = 0 then Some 0 else do {
     st \<leftarrow> fld start node s;
     en \<leftarrow> fld stop node s;
     if st \<le> addr \<and> addr < en then Some node
     else do {
       next \<leftarrow> (if addr < st then fld left node s else fld right node s);
       find_within k addr next s
     }
   })"

lemma find_within_enough:
  assumes "shape (nodes s) pa sd t" "height t \<le> k"
  shows "find_within k a (rootp t) s = find_from a (rootp t) s"
  using assms
proof (induction t arbitrary: pa sd k)
  case Tip
  then show ?case by (cases k) (simp_all add: find_from.simps)
next
  case (Node b l x r)
  then obtain j where "k = Suc j" "height l \<le> j" "height r \<le> j" by (cases k) auto
  then show ?case using Node.prems(1) Node.IH(1) [of "ptr x" True j] Node.IH(2) [of "ptr x" False j]
    by (subst find_from.simps) auto
qed

text \<open>C40. The search is logarithmic: in a tree of fewer than 2 to the power k ranges, the loop of \<open>find_addr\<close> ends within 2k turns, with the
  range that covers the address or with none.
\<close>

theorem find_addr_logarithmic:
  assumes "range_tree n R s xs" "length xs + 1 < 2 ^ Suc k"
  shows "find_within (2 * k) a (root s) s = find_addr a s \<and>
    find_addr a s = Some (case List.find (\<lambda>x. first x \<le> a \<and> a < bound x) xs of None \<Rightarrow> 0 | Some x \<Rightarrow> ptr x)"
proof -
  have h: "holds s xs" "ranges xs" using range_tree_holds [OF assms(1)] by simp_all
  obtain t where t: "tree_at s t" "inorder t = xs" using h(1) by (auto simp: holds_def)
  then have z: "zip_at (nodes s) (root s) t []" "wf_tree t" by (simp_all add: tree_at_def)
  obtain sd where "shape (nodes s) 0 sd t" using zip_facts [OF z(1)] by auto
  moreover have "root s = rootp t" using zip_root [OF z(1)] by simp
  moreover have "height t \<le> 2 * k" using height_log [OF z(2)] t(2) assms(2) by simp
  ultimately have "find_within (2 * k) a (root s) s = find_addr a s" by (simp add: find_addr_def find_within_enough)
  moreover have "covers a = (\<lambda>x. first x \<le> a \<and> a < bound x)" by (simp add: covers_def fun_eq_iff)
  then have "find_addr a s = Some (case List.find (\<lambda>x. first x \<le> a \<and> a < bound x) xs of None \<Rightarrow> 0 | Some x \<Rightarrow> ptr x)"
    using find_addr_finds [OF h, of a] by simp
  ultimately show ?thesis by blast
qed

section \<open>Removing a node\<close>

text \<open>C38. \<open>remove_node\<close> takes exactly its node out: it returns 0, the tree is a red-black tree of the other ranges in their order, and those are in
  the nodes they were in. Neither the exchange with the successor nor a rotation of the loop follows a null pointer, and the loop ends.
\<close>

theorem remove_node_removes:
  assumes "range_tree n R s (xs @ x # ys)"
  shows "\<exists>s'. remove_node (custom_allocator mmap) (ptr x) s = Some (0, s') \<and> range_tree n R s' (xs @ ys)"
  using box_heap.remove_entry [of n R s xs x ys mmap] assms by (auto simp: range_tree_def)

section \<open>Freeing the tree\<close>

lemma delete_frees:
  assumes "shape (nodes s) pa sd t" "distinct (map ptr (inorder t))" "addrs (inorder t) \<subseteq> heap_live (arena s)" "heap_ready n (arena s)"
  shows "\<exists>s'. delete_rbnode (custom_allocator mmap) (rootp t) s = Some s' \<and> nodes s' = nodes s |` (- addrs (inorder t)) \<and>
    heap_live (arena s') = heap_live (arena s) - addrs (inorder t) \<and> heap_ready n (arena s')"
  using assms
proof (induction t arbitrary: s pa sd)
  case Tip
  then show ?case by (subst delete_rbnode.simps) (simp add: restrict_map_def)
next
  case (Node b l x r)
  obtain u where u: "delete_rbnode (custom_allocator mmap) (rootp l) s = Some u" "nodes u = nodes s |` (- addrs (inorder l))"
    "heap_live (arena u) = heap_live (arena s) - addrs (inorder l)" "heap_ready n (arena u)"
    using Node.IH(1) [of s "ptr x" True] Node.prems by auto
  have "shape (nodes u) (ptr x) False r = shape (nodes s) (ptr x) False r"
    by (rule shape_cong) (use Node.prems(2) u(2) in \<open>auto simp: restrict_map_def\<close>)
  then have r: "shape (nodes u) (ptr x) False r" using Node.prems(1) by simp
  have "addrs (inorder r) \<subseteq> heap_live (arena u)" using Node.prems(2,3) u(3) by auto
  with r obtain v where v: "delete_rbnode (custom_allocator mmap) (rootp r) u = Some v" "nodes v = nodes u |` (- addrs (inorder r))"
    "heap_live (arena v) = heap_live (arena u) - addrs (inorder r)" "heap_ready n (arena v)"
    using Node.IH(2) [of u "ptr x" False] Node.prems u(3,4) by auto
  have x: "nodes u (ptr x) = nodes s (ptr x)" "nodes v (ptr x) = nodes s (ptr x)" "ptr x \<in> heap_live (arena v)"
    using Node.prems(2,3) u(2,3) v(2,3) by (auto simp: restrict_map_def)
  have f: "heap_ready n (customFree (ptr x) (arena v))" "heap_live (customFree (ptr x) (arena v)) = heap_live (arena v) - {ptr x}"
    using heap_free [OF v(4) x(3)] by simp_all
  let ?s = "v\<lparr>nodes := (nodes v)(ptr x := None), arena := customFree (ptr x) (arena v)\<rparr>"
  have "delete_rbnode (custom_allocator mmap) (ptr x) s = Some ?s"
    using Node.prems(1) u(1) v(1) x(1,2) by (subst delete_rbnode.simps) (auto simp: fld_def free_node_def custom_allocator_def)
  moreover have "nodes ?s = nodes s |` (- addrs (inorder (Node b l x r)))"
    using u(2) v(2) by (auto simp: restrict_map_def fun_eq_iff)
  moreover have "heap_live (arena ?s) = heap_live (arena s) - addrs (inorder (Node b l x r))" using f(2) u(3) v(3) by auto
  ultimately show ?case using f(1) by auto
qed

text \<open>Deleting the tree gives every node of it back, and nothing else.\<close>

theorem delete_rbtree_frees:
  assumes "range_tree n R s xs"
  shows "\<exists>s'. delete_rbtree (custom_allocator mmap) s = Some s' \<and> heap_live (arena s') = heap_live (arena s) - addrs xs"
proof -
  have h: "holds s xs" "heap_live (arena s) = R \<union> dom (nodes s)" "heap_ready n (arena s)" using assms by (simp_all add: range_tree_def repr_def)
  obtain t sd where t: "shape (nodes s) 0 sd t" "inorder t = xs" "root s = rootp t" by (rule holds_shape [OF h(1)])
  have "addrs xs \<subseteq> heap_live (arena s)" using shape_dom [OF t(1)] h(2) t(2) by auto
  then show ?thesis using delete_frees [OF t(1) _ _ h(3), of mmap] holds_distinct [OF h(1)] t(2,3) by (auto simp: delete_rbtree_def)
qed

section \<open>Witnesses\<close>

text \<open>A tree of one range, in the one area in use of \<open>demo_heap\<close>.\<close>

definition demo_tree :: "cheap rbstate" where
  "demo_tree = \<lparr>nodes = [65544 \<mapsto> \<lparr>left = 0, right = 0, parent = 0, start = 16, stop = 32, data = 7, meta = IS_BLACK\<rparr>],
     root = 65544, is_unstable = 0, arena = demo_heap\<rparr>"

lemma demo_tree_ok: "n \<le> 255 \<Longrightarrow> range_tree n {} demo_tree [Entry 65544 16 32 7]"
proof -
  assume n: "n \<le> 255"
  have "tree_at demo_tree (Node True Tip (Entry 65544 16 32 7) Tip)"
    unfolding tree_at_def zip_at_def wf_tree_def
    by (auto simp: demo_tree_def cell_def flags_def IS_BLACK_def IS_LEFT_def)
  then have "holds demo_tree [Entry 65544 16 32 7]" unfolding holds_def by (intro exI conjI) (assumption, simp)
  moreover have "heap_live demo_heap = {65544}"
    using heap_live [OF demo_heap_ok] by (simp add: demo_heap_allocs pointer_def demo_heap_def at_def)
  moreover have "heap_ready n demo_heap" using demo_heap_ok n unfolding heap_ready_def by fastforce
  ultimately show ?thesis by (simp add: range_tree_def repr_def demo_tree_def)
qed

theorem rb_set_refines_witness:
  "\<exists>s' ys. rb_set (custom_allocator (\<lambda>_. 0)) 20 24 9 demo_tree = Some (0, s') \<and> range_tree 253 {} s' ys \<and>
    content ys 19 = Some 7 \<and> content ys 20 = Some 9 \<and> content ys 24 = Some 7"
proof -
  obtain s' ys where "rb_set (custom_allocator (\<lambda>_. 0)) 20 24 9 demo_tree = Some (0, s')" "range_tree 253 {} s' ys"
    "content ys = overwrite 20 24 (Some 9) (content [Entry 65544 16 32 7])"
    using rb_set_refines [of 253 "{}" demo_tree "[Entry 65544 16 32 7]" 20 24 "\<lambda>_. 0" 9] demo_tree_ok [of 255] by auto
  then show ?thesis by (intro exI [of _ s'] exI [of _ ys]) (simp add: overwrite_def covers_def)
qed

theorem rb_unset_refines_witness:
  "\<exists>s' ys. rb_unset (custom_allocator (\<lambda>_. 0)) 24 40 demo_tree = Some (0, s') \<and> range_tree 254 {} s' ys \<and> content ys 24 = Some 7"
proof -
  obtain s' ys where u: "rb_unset (custom_allocator (\<lambda>_. 0)) 24 40 demo_tree = Some (0, s')" "range_tree 254 {} s' ys"
    "\<forall>a. content ys a = (if 24 \<le> a \<and> a < 40 \<and> \<not> (\<exists>x \<in> set [Entry 65544 16 32 7]. first x < 24 \<and> a < bound x \<and> bound x < 40)
       then None else content [Entry 65544 16 32 7] a)"
    using rb_unset_refines [of 254 "{}" demo_tree "[Entry 65544 16 32 7]" 24 40 "\<lambda>_. 0"] demo_tree_ok [of 255] by auto
  have "content ys 24 = Some 7" using u(3) [rule_format, of 24] by (simp add: covers_def)
  then show ?thesis using u(1,2) by blast
qed

theorem rb_lookups_witness: "rb_get 20 demo_tree = Some 7 \<and> rb_get 40 demo_tree = Some 0"
  using rb_lookups [OF demo_tree_ok [of 0], of 20] rb_lookups [OF demo_tree_ok [of 0], of 40] by (simp add: covers_def)

theorem find_addr_logarithmic_witness: "find_within 2 20 (root demo_tree) demo_tree = Some 65544"
  using find_addr_logarithmic [OF demo_tree_ok [of 0], of 1 20] by simp

theorem remove_node_removes_witness:
  "\<exists>s'. remove_node (custom_allocator (\<lambda>_. 0)) 65544 demo_tree = Some (0, s') \<and> range_tree 255 {} s' []"
  using remove_node_removes [of 255 "{}" demo_tree "[]" "Entry 65544 16 32 7" "[]" "\<lambda>_. 0"] demo_tree_ok [of 255] by simp

end
