(* ===== verification/Spec2Isabelle.thy ===== *)
theory Spec2Isabelle
  imports Callback Emu Strings Packed Laws0F Flags0F RangeMap
begin

text \<open>
  A model of box86, an emulator that runs 32-bit x86 programs on a 32-bit host of another
  architecture. The development models its interpreter with everything the one-byte opcodes rest on, the two-byte
  opcodes with the MMX and SSE instructions among them, the thread areas behind segment selectors, the life cycle of an emulated CPU, the calls from native code
  into emulated code, the allocator of the emulator's own data, and the interval tree that maps ranges of addresses to values.
  File names are below \<open>src/\<close>.

  \<^bold>\<open>How the program works.\<close> The state of an emulated CPU is one structure (\<open>include/regs.h\<close>,
  \<open>emu/x86emu_private.h\<close>). \<open>Run\<close> of \<open>emu/x86run.c\<close> fetches an opcode at \<open>EIP\<close>,
  decodes its operand with the macros of \<open>emu/modrm.h\<close>, calls a primitive of
  \<open>emu/x86primop.h\<close> or \<open>emu/x86primop.c\<close> and goes on. Guest and host share the address
  space. A primitive does not always compute the flags: it may leave the operation and its operands in the
  CPU, and the first reader of a flag has \<open>UpdateFlags\<close> of \<open>emu/x86run_private.c\<close> compute them.
  A system call, a native function, a signal or another opcode map is a call out of \<open>Run\<close>, after which
  \<open>Run\<close> stops, returns or goes on, depending on a few control fields. Native code calls emulated
  code through \<open>RunFunction\<close> and its relatives (\<open>tools/callback.c\<close>), which push arguments and a return address
  that ends the run, and hand the CPU to \<open>DynaCall\<close> (\<open>dynarec/dynarec.c\<close>). The
  recompiler, where it has a translation, replaces \<open>Run\<close> for a block. The emulator takes the memory of its own data from
  \<open>customMalloc\<close> (\<open>custommem.c\<close>), the nodes of the interval trees (\<open>tools/rbtree.c\<close>) included, in which
  it keeps the mapped and the protected ranges of memory.

  \<^bold>\<open>Theories.\<close>
  \<^item> \<open>Prelude\<close>: words, carry chains, signed overflow, parity; the theorem collections.
  \<^item> \<open>Regs\<close>: the record \<open>emu\<close> (\<open>include/regs.h\<close>, \<open>emu/x86emu_private.h\<close>).
  \<^item> \<open>Flags\<close>: \<open>UpdateFlags\<close>, one definition \<open>uf_...\<close> for each case (\<open>emu/x86run_private.c\<close>).
  \<^item> \<open>ArchSpec\<close>: the reference, flags as the architecture defines them on numbers, for any width;
    \<open>visible_flags\<close> is what a program sees, pending operation or not.
  \<^item> \<open>PrimopArith\<close>, \<open>PrimopShift\<close>, \<open>PrimopMulDiv\<close>: every function of \<open>emu/x86primop.h\<close>
    and \<open>emu/x86primop.c\<close> under its own name, and its value, flags and frame. The locale \<open>alu2\<close>
    is the contract of a two-operand primitive, interpreted on each of them.
  \<^item> \<open>Memory\<close>: the record \<open>machine\<close> (the CPU with the memory); the locale \<open>byte_store\<close>,
    interpreted on the memory and on the register file, gives reads after writes at every width.
    \<open>Stack\<close>: \<open>Push\<close> and \<open>Pop\<close>; the locale \<open>stack\<close>, interpreted on them.
  \<^item> \<open>Modrm\<close>: fetches and operands; the record \<open>run\<close> adds the locals of \<open>Run\<close>.
  \<^item> \<open>InterpBase\<close>, \<open>InterpAlu\<close>, \<open>InterpMove\<close>, \<open>InterpFlow\<close>, \<open>Interp\<close>: the instructions
    of \<open>emu/x86run.c\<close> and the loop. \<open>execute\<close> is the opcode switch, \<open>prefixes\<close> the prefix scan,
    \<open>instruction\<close> one turn of the loop, \<open>fini\<close> the epilogue, \<open>Run\<close> the whole.
  \<^item> \<open>Steps\<close>, \<open>Invariant\<close>: the loop as a step relation, and an invariant of every state it reaches.
  \<^item> \<open>InterpStack\<close>, \<open>Control\<close>, \<open>Strings\<close>, \<open>RunLoop\<close>: what instructions and short
    programs compute.
  \<^item> \<open>Vec\<close>: the elements of a word, the MMX and SSE registers and their operands; the locale \<open>packed\<close>,
    interpreted at each element size, is the contract between an operation on elements and one on words.
    \<open>Mmx\<close>, \<open>Int0F\<close>, \<open>Sse0F\<close>: the instructions of \<open>emu/x86run0f.c\<close> on MMX
    registers, on integers and on SSE registers; \<open>Run0F\<close>: its switch, \<open>execute0F\<close>, with one definition per
    row of sixteen opcodes, and \<open>two_byte_map\<close>, the function in the form in which \<open>Run\<close> calls it.
    \<open>Packed\<close>, \<open>Laws0F\<close>, \<open>Flags0F\<close>: what these instructions compute, and what the whole map keeps.
  \<^item> \<open>Tls\<close>: \<open>emu/x86tls.c\<close>; \<open>Emu\<close>: \<open>emu/x86emu.c\<close>; \<open>Callback\<close>: \<open>tools/callback.c\<close>,
    \<open>dynarec/dynarec.c\<close> and the functions run at exit.
  \<^item> \<open>CustomMem\<close>: \<open>custommem.c\<close>; \<open>CustomMemSpec\<close>, \<open>CustomHeap\<close>, \<open>HeapSpec\<close>: three
    levels of specification of it, a block as a list of sub-blocks, the heap as a set of allocated
    areas, the heap as a map from pointers to bytes.
  \<^item> \<open>Rbtree\<close>: every function of \<open>tools/rbtree.c\<close> on a store of nodes, a map from addresses to records, with \<open>None\<close> for the
    dereference of an address that holds no node. \<open>RbShape\<close>: when a store holds a red-black tree. \<open>RbInsert\<close>, \<open>RbRemove\<close>, \<open>RbSwap\<close>: insertion,
    deletion and the exchange with the successor keep it one. \<open>RbList\<close>, \<open>RbSearch\<close>: the ranges in order
    and the searches among them. \<open>RbRange\<close>, \<open>RbSet\<close>, \<open>RbUnset\<close>: the tree as a map from addresses to values, and what setting and
    unsetting a range make of it, in the locale \<open>node_allocator\<close>, which \<open>RbHeap\<close> interprets on the model of the allocator. \<open>RangeMap\<close>:
    what the callers of the file see.

  \<^bold>\<open>What the lemmas show.\<close> The primitives compute the values and the flags of the architecture, the
  deferred ones through \<open>UpdateFlags\<close>. The operand decoder computes the addresses of the manual, from all encodings.
  A 16-bit SHR clears the carry from a count of 16 on, where the 8-bit one gives the last bit out at 8.
  Conditions after a comparison are the relations they are named for. Pairs of instructions undo one another
  (PUSHAD and POPAD, CALL and RET, ENTER and LEAVE, PUSHF and POPF). Repeated string
  instructions have closed forms. \<open>Run\<close> returns exactly what a sequence of steps leads to; the reserved
  bits of the flag register stay as they must; the prefix scan ends; unknown opcodes
  stop; a program with a counted loop runs to its exit call. The packed instructions compute on the elements what they are named
  for, on integers and with saturation, in place or moved; bit strings, bit scans and compare-and-exchange do on memory what the
  architecture says; no two-byte opcode but one disturbs the reserved bits of the flag register. Selectors yield the base that was set, through the cache too, if every entry has kept its key and the segment register was loaded by an instruction that drops
  the cached base. A callback finds its
  arguments and leaves its caller's registers. The allocator keeps the areas it has given out apart and
  their bytes unchanged, for sizes from 1 to 2 to the 30. The interval tree stays a red-black tree, setting a range changes the map it represents
  on this range and nowhere else, the deletion of a node takes out this node alone, and the search for an address takes a number of steps
  logarithmic in the number of nodes; unsetting a range can leave a part of it. Where the code does not do what it should, a theorem says
  so, with a concrete state.

  \<^bold>\<open>Conventions.\<close> C integers are words of their width, and every promotion to \<open>int\<close> is written as
  a cast to 32 bits. Undefined behaviour that the code can reach has the value it has on the ARM hosts
  of the program; the theory that needs this says where. A loop that may run for ever is a partial function into
  \<open>option\<close>, with \<open>None\<close> for not returning: the loop of \<open>Run\<close>, the prefix scan, the walks along
  the marks of a block, the walks and the rebalancing loops of the interval tree, and the runs of callbacks. Theorems about such code state that it returns, except for the
  step relation, which describes all returning runs. Loops with a counter (the repeat prefix, ENTER)
  recurse on the counter. There is no fuel.

  \<^bold>\<open>Parameters.\<close> \<open>env\<close> holds the functions \<open>Run\<close> calls that are not modelled: the other opcode
  maps, signals, system calls, native functions, the table of alternate addresses. \<open>env0F\<close> holds those of the
  two-byte map: the time stamp counter, CPUID, the save area of the FPU, the invalidation of translated code and the float arithmetic of
  the host on the bits of its operands. \<open>dynenv\<close>
  holds the recompiler's lookup and execution of a block. The thread library's
  creation of keys and the kernel's \<open>mmap\<close> are function arguments; a theorem that needs something of one of them has it
  as a hypothesis (that a new mapping does not overlap the areas in use, for example), and a witness
  with a concrete function.

  \<^bold>\<open>Not modelled.\<close> Floating point of the host: HOL-Library has no model of it, so the arithmetic on floats in the two-byte
  map is a parameter, the x87 opcode maps and the SSE maps under the prefixes 66, F2 and F3 stay out, and the x87
  registers are carried as words. The operand-size, lock and segment maps are parameters so far. The
  recompiler generates ARM code; a statement about it needs a model of that processor. The library wrappers are
  generated glue, and the pools, the jump table and the protection map of \<open>custommem.c\<close> (the last of which uses the interval tree), the ELF loader, threads, signals and system calls are left out: most of them call into the host.
  Faults of the host on guest memory, guest writes into the emulator's own structures, the test interpreter, tracing and
  logs, the printing of interval trees, mutexes and the jump buffers of signal handlers are left out of the functions that are modelled.
\<close>

end
